(* ===== verification/Tiny_Prelude.thy ===== *)
theory Tiny_Prelude
  imports Main "HOL-Library.Word" "HOL-Library.List_Lexorder"
begin

text \<open>
  Shared vocabulary of the development: the types that stand for Rust's \<open>char\<close>, \<open>str\<close>,
  \<open>u8\<close> and bounded integers, the outcome type of fallible code, the ordered map that
  models \<open>BTreeMap\<close>, and the list lemmas the components share.

  A Rust \<open>char\<close> is its Unicode scalar value, a natural number; a \<open>String\<close> is the list of
  its scalar values, so that multi-byte characters stay indivisible and byte positions
  are computed with \<open>len_utf8\<close>. The order of \<open>str\<close> is the byte order of UTF-8, which is
  the lexicographic order of scalar values. Integers of type \<open>u64\<close> and \<open>usize\<close> (64-bit
  targets) are natural numbers whose bound is tested where the code can exceed it.
\<close>

named_theorems outcome_simps \<open>unfolding of the fallible primitives\<close>

type_synonym byte = "8 word"
type_synonym rchar = nat
type_synonym rstr = "nat list"

definition rs :: "string \<Rightarrow> rstr" where
  "rs s = map of_char s"

definition u64_max :: nat where
  "u64_max = 2 ^ 64 - 1"

definition usize_max :: nat where
  "usize_max = 2 ^ 64 - 1"

definition isize_max :: nat where
  "isize_max = 2 ^ 63 - 1"

definition u32_max :: nat where
  "u32_max = 2 ^ 32 - 1"

lemma rs_nil [simp]: "rs [] = []"
  by (simp add: rs_def)

lemma rs_cons [simp]: "rs (c # s) = of_char c # rs s"
  by (simp add: rs_def)

lemma length_rs [simp]: "length (rs s) = length s"
  by (simp add: rs_def)


abbreviation rc :: "char \<Rightarrow> rchar" where
  "rc c \<equiv> of_char c"

subsection \<open>Outcomes\<close>

text \<open>
  Fallible code returns a value or a fault. \<open>Panic\<close> is a Rust panic: an arithmetic
  overflow under overflow checks, a capacity overflow of \<open>Vec\<close>, a failed \<open>expect\<close>.
\<close>

datatype 'e fault = Errno 'e | Panic

type_synonym ('e, 'a) outcome = "'e fault + 'a"

abbreviation Ok :: "'a \<Rightarrow> ('e, 'a) outcome" where
  "Ok \<equiv> Inr"

abbreviation Err :: "'e \<Rightarrow> ('e, 'a) outcome" where
  "Err e \<equiv> Inl (Errno e)"

definition ok_or :: "'e \<Rightarrow> 'a option \<Rightarrow> ('e, 'a) outcome" where
  "ok_or e x = (case x of None \<Rightarrow> Err e | Some v \<Rightarrow> Ok v)"

definition is_ok :: "('e, 'a) outcome \<Rightarrow> bool" where
  "is_ok r = (case r of Inl _ \<Rightarrow> False | Inr _ \<Rightarrow> True)"

definition no_panic :: "('e, 'a) outcome \<Rightarrow> bool" where
  "no_panic r \<longleftrightarrow> r \<noteq> Inl Panic"

lemma ok_or_simps [simp, outcome_simps]:
  "ok_or e None = Err e" "ok_or e (Some v) = Ok v"
  by (simp_all add: ok_or_def)

lemma ok_or_eq_Ok [simp]: "ok_or e x = Inr v \<longleftrightarrow> x = Some v"
  by (cases x) simp_all

lemma is_ok_simps [simp, outcome_simps]:
  "is_ok (Inr v)" "\<not> is_ok (Inl f)"
  by (simp_all add: is_ok_def)

lemma is_ok_iff: "is_ok r \<longleftrightarrow> (\<exists>v. r = Inr v)"
  by (cases r) auto

lemma no_panic_simps [simp, outcome_simps]:
  "no_panic (Inr v)" "no_panic (Err e)" "\<not> no_panic (Inl Panic)"
  by (simp_all add: no_panic_def)

text \<open>
  The \<open>?\<close> operator: \<open>obind\<close> for pure code, \<open>attempt\<close> for code that has reached a state
  (an error returns that state), \<open>and_then\<close> for a call that changes the state.
\<close>

definition obind :: "('e, 'a) outcome \<Rightarrow> ('a \<Rightarrow> ('e, 'b) outcome) \<Rightarrow> ('e, 'b) outcome" where
  "obind r k = (case r of Inl f \<Rightarrow> Inl f | Inr v \<Rightarrow> k v)"

definition attempt ::
  "'s \<Rightarrow> ('e, 'a) outcome \<Rightarrow> ('a \<Rightarrow> 's \<times> ('e, 'b) outcome) \<Rightarrow> 's \<times> ('e, 'b) outcome" where
  "attempt s r k = (case r of Inl f \<Rightarrow> (s, Inl f) | Inr v \<Rightarrow> k v)"

definition and_then ::
  "'s \<times> ('e, 'a) outcome \<Rightarrow> ('s \<Rightarrow> 'a \<Rightarrow> 's \<times> ('e, 'b) outcome) \<Rightarrow> 's \<times> ('e, 'b) outcome" where
  "and_then r k = (case r of (s, Inl f) \<Rightarrow> (s, Inl f) | (s, Inr v) \<Rightarrow> k s v)"

lemma obind_simps [simp, outcome_simps]:
  "obind (Inr v) k = k v" "obind (Inl f) k = Inl f"
  by (simp_all add: obind_def)

lemma obind_eq_Ok: "obind r k = Inr v \<longleftrightarrow> (\<exists>a. r = Inr a \<and> k a = Inr v)"
  by (cases r) auto

lemma obind_eq_Inl: "obind r k = Inl f \<longleftrightarrow> r = Inl f \<or> (\<exists>a. r = Inr a \<and> k a = Inl f)"
  by (cases r) auto

lemma attempt_simps [simp, outcome_simps]:
  "attempt s (Inr v) k = k v" "attempt s (Inl f) k = (s, Inl f)"
  by (simp_all add: attempt_def)

lemma attempt_eq_Ok: "attempt s r k = (t, Inr v) \<longleftrightarrow> (\<exists>a. r = Inr a \<and> k a = (t, Inr v))"
  by (cases r) auto

lemma attempt_cases:
  "attempt s r k = (t, x) \<longleftrightarrow>
   (\<exists>f. r = Inl f \<and> t = s \<and> x = Inl f) \<or> (\<exists>a. r = Inr a \<and> k a = (t, x))"
  by (cases r) auto

lemma and_then_simps [simp, outcome_simps]:
  "and_then (s, Inr v) k = k s v" "and_then (s, Inl f) k = (s, Inl f)"
  by (simp_all add: and_then_def)

lemma and_then_eq_Ok:
  "and_then r k = (t, Inr v) \<longleftrightarrow> (\<exists>s a. r = (s, Inr a) \<and> k s a = (t, Inr v))"
  by (cases r; cases "snd r") auto

lemma and_then_cases:
  "and_then r k = (t, x) \<longleftrightarrow>
   (\<exists>f. r = (t, Inl f) \<and> x = Inl f) \<or> (\<exists>s a. r = (s, Inr a) \<and> k s a = (t, x))"
  by (cases r; cases "snd r") auto

lemma attempt_cong [fundef_cong]:
  "s = s' \<Longrightarrow> r = r' \<Longrightarrow> (\<And>v. r' = Inr v \<Longrightarrow> k v = k' v) \<Longrightarrow> attempt s r k = attempt s' r' k'"
  by (cases r') auto

lemma and_then_cong [fundef_cong]:
  "r = r' \<Longrightarrow> (\<And>s v. r' = (s, Inr v) \<Longrightarrow> k s v = k' s v) \<Longrightarrow> and_then r k = and_then r' k'"
  by (cases r'; cases "snd r'") auto

lemma obind_cong [fundef_cong]:
  "r = r' \<Longrightarrow> (\<And>v. r' = Inr v \<Longrightarrow> k v = k' v) \<Longrightarrow> obind r k = obind r' k'"
  by (cases r') auto

subsection \<open>Bounded integers\<close>

text \<open>
  \<open>checked_add\<close> of \<open>u64\<close> and \<open>usize\<close>; \<open>uadd\<close> and \<open>usub\<close> are the plain operators
  \<open>+\<close> and \<open>-\<close>, which panic on overflow under overflow checks. Where they are shown not
  to panic they agree with the wrapping operators of a release build as well.
\<close>

definition checked_add :: "nat \<Rightarrow> nat \<Rightarrow> nat option" where
  "checked_add a b = (if a + b \<le> u64_max then Some (a + b) else None)"

definition uadd :: "nat \<Rightarrow> nat \<Rightarrow> ('e, nat) outcome" where
  "uadd a b = (if a + b \<le> u64_max then Ok (a + b) else Inl Panic)"

definition usub :: "nat \<Rightarrow> nat \<Rightarrow> ('e, nat) outcome" where
  "usub a b = (if b \<le> a then Ok (a - b) else Inl Panic)"

definition saturating_add :: "nat \<Rightarrow> nat \<Rightarrow> nat" where
  "saturating_add a b = min (a + b) u64_max"

text \<open>\<open>usize::try_from\<close> and \<open>u64::try_from\<close> with the error they are mapped to.\<close>

definition try_usize :: "'e \<Rightarrow> nat \<Rightarrow> ('e, nat) outcome" where
  "try_usize e n = (if n \<le> usize_max then Ok n else Err e)"

definition try_u64 :: "'e \<Rightarrow> nat \<Rightarrow> ('e, nat) outcome" where
  "try_u64 e n = (if n \<le> u64_max then Ok n else Err e)"

lemma uadd_ok [outcome_simps]: "a + b \<le> u64_max \<Longrightarrow> uadd a b = Ok (a + b)"
  by (simp add: uadd_def)

lemma uadd_eq_Ok: "uadd a b = Inr v \<longleftrightarrow> a + b \<le> u64_max \<and> v = a + b"
  by (auto simp: uadd_def)

lemma usub_ok [outcome_simps]: "b \<le> a \<Longrightarrow> usub a b = Ok (a - b)"
  by (simp add: usub_def)

lemma replicate_numeral: "replicate (numeral k) x = x # replicate (pred_numeral k) x"
  by (simp add: numeral_eq_Suc)

subsection \<open>UTF-8 lengths\<close>

text \<open>The number of bytes of a scalar value in UTF-8, and the byte length of a string.\<close>

definition len_utf8 :: "rchar \<Rightarrow> nat" where
  "len_utf8 c = (if c < 128 then 1 else if c < 2048 then 2 else if c < 65536 then 3 else 4)"

definition byte_len :: "rstr \<Rightarrow> nat" where
  "byte_len s = sum_list (map len_utf8 s)"

lemma len_utf8_bounds: "1 \<le> len_utf8 c" "len_utf8 c \<le> 4"
  by (simp_all add: len_utf8_def)

lemma len_utf8_pos [simp]: "0 < len_utf8 c"
  by (simp add: len_utf8_def)

lemma byte_len_nil [simp]: "byte_len [] = 0"
  by (simp add: byte_len_def)

lemma byte_len_cons [simp]: "byte_len (c # s) = len_utf8 c + byte_len s"
  by (simp add: byte_len_def)

lemma byte_len_append [simp]: "byte_len (s @ t) = byte_len s + byte_len t"
  by (simp add: byte_len_def)

lemma byte_len_eq_0 [simp]: "byte_len s = 0 \<longleftrightarrow> s = []"
  by (cases s) simp_all

lemma length_le_byte_len: "length s \<le> byte_len s"
proof (induction s)
  case (Cons c s)
  then show ?case using len_utf8_bounds(1) [of c] by simp
qed simp

text \<open>\<open>str::as_bytes\<close>: the UTF-8 encoding.\<close>

definition utf8_char :: "rchar \<Rightarrow> byte list" where
  "utf8_char c =
     (if c < 128 then [of_nat c]
      else if c < 2048 then [of_nat (192 + c div 64), of_nat (128 + c mod 64)]
      else if c < 65536 then [of_nat (224 + c div 4096), of_nat (128 + c div 64 mod 64), of_nat (128 + c mod 64)]
      else [of_nat (240 + c div 262144), of_nat (128 + c div 4096 mod 64),
        of_nat (128 + c div 64 mod 64), of_nat (128 + c mod 64)])"

definition utf8 :: "rstr \<Rightarrow> byte list" where
  "utf8 s = concat (map utf8_char s)"

lemma utf8_simps [simp]:
  "utf8 [] = []" "utf8 (c # s) = utf8_char c @ utf8 s" "utf8 (s @ t) = utf8 s @ utf8 t"
  by (simp_all add: utf8_def)

lemma length_utf8 [simp]: "length (utf8 s) = byte_len s"
  by (induction s) (simp_all add: utf8_char_def len_utf8_def)

definition is_ascii_digit :: "rchar \<Rightarrow> bool" where
  "is_ascii_digit c \<longleftrightarrow> 48 \<le> c \<and> c \<le> 57"

definition is_ascii_alphabetic :: "rchar \<Rightarrow> bool" where
  "is_ascii_alphabetic c \<longleftrightarrow> (65 \<le> c \<and> c \<le> 90) \<or> (97 \<le> c \<and> c \<le> 122)"

definition is_ascii_alphanumeric :: "rchar \<Rightarrow> bool" where
  "is_ascii_alphanumeric c \<longleftrightarrow> is_ascii_alphabetic c \<or> is_ascii_digit c"

text \<open>\<open>char::is_whitespace\<close>: the Unicode property \<open>White_Space\<close>.\<close>

definition is_whitespace :: "rchar \<Rightarrow> bool" where
  "is_whitespace c \<longleftrightarrow> (9 \<le> c \<and> c \<le> 13) \<or> c = 32 \<or> c = 133 \<or> c = 160 \<or> c = 5760
     \<or> (8192 \<le> c \<and> c \<le> 8202) \<or> c = 8232 \<or> c = 8233 \<or> c = 8239 \<or> c = 8287 \<or> c = 12288"

subsection \<open>Decimal numbers\<close>

text \<open>\<open>Display\<close> of an unsigned integer, and the value of a string of digits.\<close>

fun show_nat :: "nat \<Rightarrow> rstr" where
  "show_nat n = (if n < 10 then [48 + n] else show_nat (n div 10) @ [48 + n mod 10])"

declare show_nat.simps [simp del]

definition digits_value :: "rstr \<Rightarrow> nat" where
  "digits_value s = foldl (\<lambda>a d. a * 10 + (d - 48)) 0 s"

text \<open>\<open>str::parse\<close> to an unsigned type with the given maximum, on strings without a sign.\<close>

definition parse_unsigned :: "nat \<Rightarrow> rstr \<Rightarrow> nat option" where
  "parse_unsigned bound s =
     (if s \<noteq> [] \<and> list_all is_ascii_digit s \<and> digits_value s \<le> bound
      then Some (digits_value s) else None)"

lemma show_nat_neq_Nil [simp]: "show_nat n \<noteq> []"
  by (subst show_nat.simps) simp

lemma show_nat_digits: "list_all is_ascii_digit (show_nat n)"
proof (induction n rule: show_nat.induct)
  case (1 n)
  have "is_ascii_digit (48 + n mod 10)" by (simp add: is_ascii_digit_def)
  moreover have "is_ascii_digit (48 + n)" if "n < 10" using that by (simp add: is_ascii_digit_def)
  ultimately show ?case using 1 by (subst show_nat.simps) simp
qed

lemma digits_value_show: "digits_value (show_nat n) = n"
  by (induction n rule: show_nat.induct) (subst show_nat.simps, auto simp: digits_value_def)

lemma parse_show: "n \<le> bound \<Longrightarrow> parse_unsigned bound (show_nat n) = Some n"
  using show_nat_digits [of n] by (simp add: parse_unsigned_def digits_value_show)

subsection \<open>Splitting and joining\<close>

text \<open>\<open>split_on c\<close> is \<open>str::split\<close> with a character pattern, \<open>join c\<close> is \<open>[str]::join\<close>.\<close>

fun split_on :: "'a \<Rightarrow> 'a list \<Rightarrow> 'a list list" where
  "split_on c [] = [[]]"
| "split_on c (x # xs) =
     (if x = c then [] # split_on c xs
      else (case split_on c xs of [] \<Rightarrow> [[x]] | y # ys \<Rightarrow> (x # y) # ys))"

fun join :: "'a list \<Rightarrow> 'a list list \<Rightarrow> 'a list" where
  "join c [] = []"
| "join c [x] = x"
| "join c (x # y # ys) = x @ c @ join c (y # ys)"

text \<open>\<open>str::split_once\<close>.\<close>

definition split_once :: "rchar \<Rightarrow> rstr \<Rightarrow> (rstr \<times> rstr) option" where
  "split_once c t =
     (if c \<in> set t then Some (takeWhile (\<lambda>d. d \<noteq> c) t, tl (dropWhile (\<lambda>d. d \<noteq> c) t)) else None)"

lemma split_on_neq_Nil [simp]: "split_on c xs \<noteq> []"
  by (cases xs) (auto split: list.splits)

lemma split_on_pieces: "p \<in> set (split_on c xs) \<Longrightarrow> c \<notin> set p"
proof (induction xs arbitrary: p)
  case (Cons x xs)
  then show ?case by (auto split: if_splits list.splits)
qed simp

lemma split_on_no_sep: "c \<notin> set xs \<Longrightarrow> split_on c xs = [xs]"
  by (induction xs) auto

lemma split_on_append_sep: "c \<notin> set xs \<Longrightarrow> split_on c (xs @ c # ys) = xs # split_on c ys"
  by (induction xs) auto

lemma split_on_chars: "p \<in> set (split_on c xs) \<Longrightarrow> set p \<subseteq> set xs"
proof (induction xs arbitrary: p)
  case (Cons x xs)
  then show ?case by (fastforce split: if_splits list.splits)
qed simp

lemma split_join:
  assumes "ps \<noteq> []" and "\<And>p. p \<in> set ps \<Longrightarrow> c \<notin> set p"
  shows "split_on c (join [c] ps) = ps"
  using assms
proof (induction "[c]" ps rule: join.induct)
  case (3 x y ys)
  then show ?case by (simp add: split_on_append_sep)
qed (simp_all add: split_on_no_sep)

lemma join_split: "join [c] (split_on c xs) = xs"
proof (induction xs)
  case (Cons x xs)
  show ?case
  proof (cases "split_on c xs")
    case (Cons y ys)
    with Cons.IH show ?thesis by (cases ys) auto
  qed simp
qed simp

lemma set_join: "set (join c ps) \<subseteq> set c \<union> \<Union> (set ` set ps)"
  by (induction c ps rule: join.induct) auto

end
