(* ===== verification/Ordered_Map.thy ===== *)
theory Ordered_Map
  imports Tiny_Prelude "HOL-Library.Multiset"
begin

text \<open>
  \<open>BTreeMap\<close> as an association list in strictly increasing key order: what iteration
  yields is the list itself, \<open>get\<close> is \<open>map_of\<close>, \<open>insert\<close> keeps the position of the key
  and \<open>remove\<close> drops it. The laws a client uses are the locale \<open>ordered_map\<close>, which
  is interpreted on these operations.
\<close>

type_synonym ('k, 'v) bmap = "('k \<times> 'v) list"

abbreviation bm_get :: "('k, 'v) bmap \<Rightarrow> 'k \<Rightarrow> 'v option" where
  "bm_get m k \<equiv> map_of m k"

fun bm_insert :: "'k::linorder \<Rightarrow> 'v \<Rightarrow> ('k, 'v) bmap \<Rightarrow> ('k, 'v) bmap" where
  "bm_insert k v [] = [(k, v)]"
| "bm_insert k v ((a, b) # m) =
     (if k < a then (k, v) # (a, b) # m
      else if k = a then (k, v) # m
      else (a, b) # bm_insert k v m)"

fun bm_remove :: "'k::linorder \<Rightarrow> ('k, 'v) bmap \<Rightarrow> ('k, 'v) bmap" where
  "bm_remove k [] = []"
| "bm_remove k ((a, b) # m) = (if k = a then m else (a, b) # bm_remove k m)"

definition bm_wf :: "('k::linorder, 'v) bmap \<Rightarrow> bool" where
  "bm_wf m \<longleftrightarrow> sorted_wrt (<) (map fst m)"

definition bm_values :: "('k, 'v) bmap \<Rightarrow> 'v list" where
  "bm_values m = map snd m"

subsection \<open>The interface\<close>

locale ordered_map =
  fixes get :: "'m \<Rightarrow> 'k::linorder \<Rightarrow> 'v option"
    and put :: "'k \<Rightarrow> 'v \<Rightarrow> 'm \<Rightarrow> 'm"
    and del :: "'k \<Rightarrow> 'm \<Rightarrow> 'm"
    and entries :: "'m \<Rightarrow> ('k \<times> 'v) list"
    and wf :: "'m \<Rightarrow> bool"
  assumes get_entries: "wf m \<Longrightarrow> get m k = map_of (entries m) k"
    and keys_sorted: "wf m \<Longrightarrow> sorted_wrt (<) (map fst (entries m))"
    and get_put: "get (put k v m) = (get m)(k \<mapsto> v)"
    and get_del: "wf m \<Longrightarrow> get (del k m) = (get m)(k := None)"
    and wf_put: "wf m \<Longrightarrow> wf (put k v m)"
    and wf_del: "wf m \<Longrightarrow> wf (del k m)"
    and mset_put: "wf m \<Longrightarrow> mset (entries (put k v m)) = add_mset (k, v) (mset (entries (del k m)))"
    and mset_del: "get m k = Some w \<Longrightarrow> mset (entries m) = add_mset (k, w) (mset (entries (del k m)))"
    and del_absent: "get m k = None \<Longrightarrow> del k m = m"
begin

definition weight :: "('v \<Rightarrow> 'a::comm_monoid_add) \<Rightarrow> 'm \<Rightarrow> 'a" where
  "weight f m = (\<Sum>e\<in>#mset (entries m). f (snd e))"

lemma keys_distinct: "wf m \<Longrightarrow> distinct (map fst (entries m))"
  by (metis keys_sorted strict_sorted_iff)

lemma weight_put_new: "wf m \<Longrightarrow> get m k = None \<Longrightarrow> weight f (put k v m) = f v + weight f m"
  by (simp add: weight_def mset_put del_absent)

lemma weight_put_old:
  "wf m \<Longrightarrow> get m k = Some w \<Longrightarrow> weight f (put k v m) + f w = weight f m + f v"
  by (simp add: weight_def mset_put mset_del ac_simps)

lemma weight_del: "get m k = Some w \<Longrightarrow> weight f m = f w + weight f (del k m)"
  by (simp add: weight_def mset_del)

lemma weight_put_same: "wf m \<Longrightarrow> get m k = Some w \<Longrightarrow> f v = f w \<Longrightarrow> weight f (put k v m) = weight f m"
  by (simp add: weight_def mset_put mset_del)

lemma weight_put: "wf m \<Longrightarrow> weight f (put k v m) = f v + weight f (del k m)"
  by (simp add: weight_def mset_put)

lemma weight_ge: "get m k = Some w \<Longrightarrow> (f w :: nat) \<le> weight f m"
  using weight_del [of m k w f] by simp

end

subsection \<open>The sorted association list provides it\<close>

lemma map_of_bm_insert [simp]: "map_of (bm_insert k v m) = (map_of m)(k \<mapsto> v)"
  by (induction k v m rule: bm_insert.induct) (auto simp: fun_eq_iff)

lemma bm_insert_insert [simp]: "bm_insert k v (bm_insert k w m) = bm_insert k v m"
  by (induction k w m rule: bm_insert.induct) auto

lemma set_bm_insert: "fst ` set (bm_insert k v m) = insert k (fst ` set m)"
  by (induction k v m rule: bm_insert.induct) auto

lemma set_bm_remove: "set (bm_remove k m) \<subseteq> set m"
  by (induction k m rule: bm_remove.induct) auto

lemma keys_bm_remove: "bm_wf m \<Longrightarrow> fst ` set (bm_remove k m) = fst ` set m - {k}"
  by (induction k m rule: bm_remove.induct) (auto simp: bm_wf_def)

lemma bm_wf_nil [simp]: "bm_wf []"
  by (simp add: bm_wf_def)

lemma bm_wf_cons: "bm_wf ((a, b) # m) \<longleftrightarrow> (\<forall>k\<in>fst ` set m. a < k) \<and> bm_wf m"
  by (simp add: bm_wf_def)

lemma bm_wf_insert [simp, intro]: "bm_wf m \<Longrightarrow> bm_wf (bm_insert k v m)"
  by (induction k v m rule: bm_insert.induct)
    (simp_all add: bm_wf_cons set_bm_insert, fastforce+)

lemma bm_wf_remove [simp, intro]: "bm_wf m \<Longrightarrow> bm_wf (bm_remove k m)"
  by (induction k m rule: bm_remove.induct) (auto simp: bm_wf_cons keys_bm_remove)

lemma bm_remove_absent: "map_of m k = None \<Longrightarrow> bm_remove k m = m"
  by (induction k m rule: bm_remove.induct) (auto split: if_splits)

lemma map_of_bm_remove [simp]: "bm_wf m \<Longrightarrow> map_of (bm_remove k m) = (map_of m)(k := None)"
proof (induction k m rule: bm_remove.induct)
  case (2 k a b m)
  have "map_of m a = None"
    using 2(2) by (fastforce simp: bm_wf_cons map_of_eq_None_iff)
  with 2 show ?case by (auto simp: bm_wf_cons fun_eq_iff)
qed simp

lemma mset_bm_remove:
  "map_of m k = Some w \<Longrightarrow> mset m = add_mset (k, w) (mset (bm_remove k m))"
  by (induction k m rule: bm_remove.induct) (auto split: if_splits)

lemma mset_bm_insert_lt:
  "bm_wf m \<Longrightarrow> mset (bm_insert k v m) = add_mset (k, v) (mset (bm_remove k m))"
proof (induction k v m rule: bm_insert.induct)
  case (2 k v a b m)
  have "bm_remove k m = m" if "k < a"
  proof (rule bm_remove_absent)
    show "map_of m k = None"
      using 2(2) that by (fastforce simp: bm_wf_cons map_of_eq_None_iff)
  qed
  with 2 show ?case by (auto simp: bm_wf_cons)
qed simp

lemma bm_wf_distinct: "bm_wf m \<Longrightarrow> distinct (map fst m)"
  by (simp add: bm_wf_def strict_sorted_iff)

lemma bm_get_mem: "map_of m k = Some v \<Longrightarrow> (k, v) \<in> set m"
  by (rule map_of_SomeD)

lemma bm_mem_get: "bm_wf m \<Longrightarrow> (k, v) \<in> set m \<Longrightarrow> map_of m k = Some v"
  using bm_wf_distinct by (metis map_of_eq_Some_iff)

lemma bm_ball:
  "bm_wf m \<Longrightarrow> (\<forall>e\<in>set m. P (fst e) (snd e)) \<longleftrightarrow> (\<forall>k v. map_of m k = Some v \<longrightarrow> P k v)"
  by (metis bm_get_mem bm_mem_get fst_conv prod.collapse snd_conv)

lemma bm_wf_sorted: "bm_wf m \<Longrightarrow> sorted_wrt (<) (map fst m)"
  by (simp add: bm_wf_def)

interpretation bm: ordered_map "map_of" bm_insert bm_remove "\<lambda>m. m" bm_wf
  by unfold_locales
    (auto simp: bm_wf_sorted mset_bm_insert_lt bm_remove_absent mset_bm_remove)

lemma bm_weight_list: "bm.weight f m = sum_list (map (\<lambda>e. f (snd e)) m)"
  by (induction m) (simp_all add: bm.weight_def)

lemma bm_weight_nil [simp]: "bm.weight f [] = 0"
  by (simp add: bm_weight_list)

lemma bm_weight_const: "bm.weight (\<lambda>_. Suc 0) m = length m"
  by (induction m) (simp_all add: bm_weight_list)

lemma length_bm_insert_new: "bm_wf m \<Longrightarrow> map_of m k = None \<Longrightarrow> length (bm_insert k v m) = Suc (length m)"
  using bm.weight_put_new [of m k "\<lambda>_. Suc 0" v] by (simp add: bm_weight_const)

lemma length_bm_insert_old: "bm_wf m \<Longrightarrow> map_of m k = Some w \<Longrightarrow> length (bm_insert k v m) = length m"
  using bm.weight_put_same [of m k w "\<lambda>_. Suc 0" v] by (simp add: bm_weight_const)

lemma length_bm_remove: "map_of m k = Some w \<Longrightarrow> length m = Suc (length (bm_remove k m))"
  using bm.weight_del [of m k w "\<lambda>_. Suc 0"] by (simp add: bm_weight_const)

lemmas bm_weights = bm.weight_put_new bm.weight_put_old bm.weight_del bm.weight_put_same
lemmas bm_lengths = length_bm_insert_new length_bm_insert_old length_bm_remove

end
