(* ===== verification/Vfs_Types.thy ===== *)
theory Vfs_Types
  imports Ordered_Map
begin

text \<open>
  The data of \<open>src/vfs/mod.rs\<close> (errno values, metadata, directory entries, open modes,
  quotas) and the path normalisation of \<open>src/vfs/path.rs\<close>, with its containment and round
  trip properties.
\<close>

datatype errno =
  EBADF | EBUSY | EXDEV | EACCES | EEXIST | EFBIG | EIO | EINVAL | EISDIR | ENOENT
  | ENOSPC | ENOTDIR | ENOTEMPTY

type_synonym 'a vres = "(errno, 'a) outcome"

fun errno_code :: "errno \<Rightarrow> int" where
  "errno_code EBADF = 9"
| "errno_code EBUSY = 16"
| "errno_code EXDEV = 18"
| "errno_code EACCES = 13"
| "errno_code EEXIST = 17"
| "errno_code EFBIG = 27"
| "errno_code EIO = 5"
| "errno_code EINVAL = 22"
| "errno_code EISDIR = 21"
| "errno_code ENOENT = 2"
| "errno_code ENOSPC = 28"
| "errno_code ENOTDIR = 20"
| "errno_code ENOTEMPTY = 39"

fun errno_name :: "errno \<Rightarrow> rstr" where
  "errno_name EBADF = rs ''EBADF''"
| "errno_name EBUSY = rs ''EBUSY''"
| "errno_name EXDEV = rs ''EXDEV''"
| "errno_name EACCES = rs ''EACCES''"
| "errno_name EEXIST = rs ''EEXIST''"
| "errno_name EFBIG = rs ''EFBIG''"
| "errno_name EIO = rs ''EIO''"
| "errno_name EINVAL = rs ''EINVAL''"
| "errno_name EISDIR = rs ''EISDIR''"
| "errno_name ENOENT = rs ''ENOENT''"
| "errno_name ENOSPC = rs ''ENOSPC''"
| "errno_name ENOTDIR = rs ''ENOTDIR''"
| "errno_name ENOTEMPTY = rs ''ENOTEMPTY''"

type_synonym file_handle = nat

datatype file_type = RegularFile | DirectoryFile

record metadata =
  md_type :: file_type
  md_len :: nat

definition md_is_file :: "metadata \<Rightarrow> bool" where
  "md_is_file m = (case md_type m of RegularFile \<Rightarrow> True | DirectoryFile \<Rightarrow> False)"

definition md_is_dir :: "metadata \<Rightarrow> bool" where
  "md_is_dir m = (case md_type m of DirectoryFile \<Rightarrow> True | RegularFile \<Rightarrow> False)"

record dir_entry =
  de_name :: rstr
  de_meta :: metadata

record open_mode =
  om_read :: bool
  om_write :: bool
  om_create :: bool
  om_create_new :: bool
  om_truncate :: bool
  om_append :: bool

definition om_read_only :: open_mode where
  "om_read_only = \<lparr>om_read = True, om_write = False, om_create = False,
     om_create_new = False, om_truncate = False, om_append = False\<rparr>"

definition om_write_only :: open_mode where
  "om_write_only = \<lparr>om_read = False, om_write = True, om_create = False,
     om_create_new = False, om_truncate = False, om_append = False\<rparr>"

definition om_read_write :: open_mode where
  "om_read_write = \<lparr>om_read = True, om_write = True, om_create = False,
     om_create_new = False, om_truncate = False, om_append = False\<rparr>"

definition om_set_create :: "open_mode \<Rightarrow> open_mode" where
  "om_set_create m = m\<lparr>om_create := True\<rparr>"

definition om_set_create_new :: "open_mode \<Rightarrow> open_mode" where
  "om_set_create_new m = m\<lparr>om_create := True, om_create_new := True\<rparr>"

definition om_set_truncate :: "open_mode \<Rightarrow> open_mode" where
  "om_set_truncate m = m\<lparr>om_truncate := True\<rparr>"

definition om_set_append :: "open_mode \<Rightarrow> open_mode" where
  "om_set_append m = m\<lparr>om_append := True, om_write := True\<rparr>"

definition om_validate :: "open_mode \<Rightarrow> unit vres" where
  "om_validate m =
     (if \<not> om_read m \<and> \<not> om_write m then Err EINVAL
      else if om_truncate m \<and> \<not> om_write m then Err EINVAL
      else if om_append m \<and> \<not> om_write m then Err EINVAL
      else Ok ())"

record vfs_quota =
  max_bytes :: nat
  max_files :: nat
  max_file_size :: nat

definition quota_unlimited :: vfs_quota where
  "quota_unlimited = \<lparr>max_bytes = u64_max, max_files = u64_max, max_file_size = u64_max\<rparr>"

record vfs_stats =
  st_used_bytes :: nat
  st_file_count :: nat

subsection \<open>Path normalisation (path.rs)\<close>

definition max_path_depth :: nat where
  "max_path_depth = 256"

abbreviation slash :: rchar where
  "slash \<equiv> rc CHR ''/''"

fun normalize_components :: "rstr list \<Rightarrow> rstr list \<Rightarrow> rstr list vres" where
  "normalize_components components [] = Ok components"
| "normalize_components components (c # rest) =
     (if c = [] \<or> c = rs ''.'' then normalize_components components rest
      else if c = rs ''..'' then normalize_components (butlast components) rest
      else if max_path_depth \<le> length components then Err EINVAL
      else normalize_components (components @ [c]) rest)"

definition normalize_path :: "rstr \<Rightarrow> rstr list vres" where
  "normalize_path path =
     (if path = [] \<or> hd path \<noteq> slash \<or> 0 \<in> set path then Err EINVAL
      else normalize_components [] (split_on slash path))"

definition valid_name :: "rstr \<Rightarrow> bool" where
  "valid_name c \<longleftrightarrow> c \<noteq> [] \<and> c \<noteq> rs ''.'' \<and> c \<noteq> rs ''..'' \<and> slash \<notin> set c \<and> 0 \<notin> set c"

definition valid_components :: "rstr list \<Rightarrow> bool" where
  "valid_components cs \<longleftrightarrow> length cs \<le> max_path_depth \<and> (\<forall>c\<in>set cs. valid_name c)"

text \<open>The absolute path a component list stands for.\<close>

definition render_path :: "rstr list \<Rightarrow> rstr" where
  "render_path cs = slash # join [slash] cs"

lemma valid_components_butlast [intro]: "valid_components cs \<Longrightarrow> valid_components (butlast cs)"
  by (auto simp: valid_components_def dest: in_set_butlastD)

lemma valid_components_snoc:
  "valid_components cs \<Longrightarrow> length cs < max_path_depth \<Longrightarrow> valid_name c \<Longrightarrow>
   valid_components (cs @ [c])"
  by (auto simp: valid_components_def)

lemma normalize_components_valid:
  assumes "normalize_components acc cs = Ok r" and "valid_components acc"
    and "\<forall>c\<in>set cs. slash \<notin> set c \<and> 0 \<notin> set c"
  shows "valid_components r"
  using assms
proof (induction cs arbitrary: acc)
  case (Cons c rest)
  consider "c = [] \<or> c = rs ''.''" | "c = rs ''..''"
    | "valid_name c" "length acc < max_path_depth"
    using Cons.prems by (fastforce simp: valid_name_def split: if_splits)
  then show ?case
  proof cases
    case 1
    with Cons.prems have "normalize_components acc rest = Ok r" by simp
    then show ?thesis using Cons.prems by (intro Cons.IH [of acc]) auto
  next
    case 2
    with Cons.prems have "normalize_components (butlast acc) rest = Ok r" by simp
    then show ?thesis using Cons.prems by (intro Cons.IH [of "butlast acc"]) auto
  next
    case 3
    with Cons.prems have "normalize_components (acc @ [c]) rest = Ok r"
      by (simp add: valid_name_def)
    then show ?thesis
      using Cons.prems 3 by (intro Cons.IH [of "acc @ [c]"]) (auto intro: valid_components_snoc)
  qed
qed simp

lemma normalize_components_id:
  assumes "length (acc @ cs) \<le> max_path_depth" and "\<forall>c\<in>set cs. valid_name c"
  shows "normalize_components acc cs = Ok (acc @ cs)"
  using assms
proof (induction cs arbitrary: acc)
  case (Cons c cs)
  then have "valid_name c" and "length acc < max_path_depth"
    and "normalize_components (acc @ [c]) cs = Ok ((acc @ [c]) @ cs)"
    by simp_all
  then show ?case by (simp add: valid_name_def)
qed simp

lemma normalize_components_errno:
  "normalize_components acc cs = Inl f \<Longrightarrow> f = Errno EINVAL"
  by (induction acc cs rule: normalize_components.induct) (auto split: if_splits)

lemma normalize_path_errno: "normalize_path p = Inl f \<Longrightarrow> f = Errno EINVAL"
  by (auto simp: normalize_path_def split: if_splits dest: normalize_components_errno)

lemma normalize_path_valid: "normalize_path p = Ok cs \<Longrightarrow> valid_components cs"
  unfolding normalize_path_def
  by (fastforce split: if_splits intro: normalize_components_valid
      simp: valid_components_def dest: split_on_pieces split_on_chars)

lemma normalize_render:
  assumes "valid_components cs"
  shows "normalize_path (render_path cs) = Ok cs"
proof (cases "cs = []")
  case True
  then show ?thesis by (simp add: normalize_path_def render_path_def)
next
  case False
  have ns: "\<And>c. c \<in> set cs \<Longrightarrow> slash \<notin> set c \<and> 0 \<notin> set c"
    using assms by (auto simp: valid_components_def valid_name_def)
  have "0 \<notin> set (render_path cs)"
    using set_join [of "[slash]" cs] ns by (auto simp: render_path_def)
  moreover have "split_on slash (render_path cs) = [] # cs"
    using split_join [OF False, of slash] ns by (simp add: render_path_def)
  moreover have "normalize_components [] cs = Ok ([] @ cs)"
    by (rule normalize_components_id) (use assms in \<open>auto simp: valid_components_def\<close>)
  ultimately show ?thesis
    by (simp add: normalize_path_def render_path_def)
qed

lemma valid_components_take [intro]: "valid_components cs \<Longrightarrow> valid_components (take n cs)"
  by (auto simp: valid_components_def dest: in_set_takeD)

end
