(* ===== verification/Mem_Vfs.thy ===== *)
theory Mem_Vfs
  imports Vfs_Types
begin

text \<open>
  The in-memory filesystem of \<open>src/vfs/mem.rs\<close>: a tree of directory entries over a table of
  inodes, a table of open handles, and the usage counters the quota is checked against.
  Every operation takes the state and returns the state with its outcome; the mutex makes
  each of them atomic. File contents are values: \<open>Arc::make_mut\<close> copies shared buffers
  before a write, so sharing with a snapshot is not observable. \<open>Vec::resize\<close> panics when
  the requested length exceeds \<open>isize::MAX\<close>.
\<close>

type_synonym inode = nat

datatype node = File inode | Directory "(rstr \<times> node) list"

datatype node_kind = KFile | KDirectory

record file_node =
  fn_data :: "byte list"
  fn_links :: nat
  fn_open :: nat

record handle =
  h_inode :: inode
  h_readable :: bool
  h_writable :: bool
  h_append :: bool

record mem_state =
  root :: node
  files :: "(inode, file_node) bmap"
  next_inode :: nat
  next_handle :: nat
  handles :: "(file_handle, handle) bmap"
  used_bytes :: nat
  file_count :: nat

record snapshot_state =
  sn_root :: node
  sn_files :: "(inode, file_node) bmap"
  sn_next_inode :: nat
  sn_used_bytes :: nat
  sn_file_count :: nat

definition state_default :: mem_state where
  "state_default = \<lparr>root = Directory [], files = [], next_inode = 1, next_handle = 1,
     handles = [], used_bytes = 0, file_count = 0\<rparr>"

definition file_node_default :: file_node where
  "file_node_default = \<lparr>fn_data = [], fn_links = 0, fn_open = 0\<rparr>"

subsection \<open>Tree access\<close>

fun get_node :: "node \<Rightarrow> rstr list \<Rightarrow> node vres" where
  "get_node n [] = Ok n"
| "get_node (File i) (c # cs) = Err ENOTDIR"
| "get_node (Directory entries) (c # cs) =
     (case bm_get entries c of None \<Rightarrow> Err ENOENT | Some n \<Rightarrow> get_node n cs)"

text \<open>Writing through the reference that \<open>get_node_mut\<close> returns.\<close>

fun set_node :: "node \<Rightarrow> rstr list \<Rightarrow> node \<Rightarrow> node" where
  "set_node n [] m = m"
| "set_node (File i) (c # cs) m = File i"
| "set_node (Directory entries) (c # cs) m =
     (case bm_get entries c of
        None \<Rightarrow> Directory entries
      | Some n \<Rightarrow> Directory (bm_insert c (set_node n cs m) entries))"

definition parent_dir_mut :: "node \<Rightarrow> rstr list \<Rightarrow> ((rstr, node) bmap \<times> rstr) vres" where
  "parent_dir_mut r path =
     (if path = [] then Err EINVAL
      else obind (get_node r (butlast path)) (\<lambda>n.
        case n of File _ \<Rightarrow> Err ENOTDIR
        | Directory entries \<Rightarrow> Ok (entries, last path)))"

definition ensure_parent_is_dir :: "node \<Rightarrow> rstr list \<Rightarrow> unit vres" where
  "ensure_parent_is_dir r path =
     (if path = [] then Err EINVAL
      else obind (get_node r (butlast path)) (\<lambda>n.
        case n of File _ \<Rightarrow> Err ENOTDIR | Directory _ \<Rightarrow> Ok ()))"

fun node_kind_of :: "node \<Rightarrow> node_kind" where
  "node_kind_of (File _) = KFile"
| "node_kind_of (Directory _) = KDirectory"

definition has_prefix :: "rstr list \<Rightarrow> rstr list \<Rightarrow> bool" where
  "has_prefix path pre \<longleftrightarrow> length pre \<le> length path \<and> take (length pre) path = pre"

lemma size_values_le: "size_list size (bm_values es) \<le> size_list (size_prod (\<lambda>_. 0) size) es"
  by (induction es) (auto simp: bm_values_def)

text \<open>
  \<open>subtree_fits\<close> keeps one iterator per level. The stack is listed top first, so its
  length is the level of the child that is about to be visited.
\<close>

function (sequential) subtree_fits_loop :: "node list list \<Rightarrow> nat \<Rightarrow> bool" where
  "subtree_fits_loop [] allowance = True"
| "subtree_fits_loop ([] # stack) allowance = subtree_fits_loop stack allowance"
| "subtree_fits_loop ((child # entries) # stack) allowance =
     (if allowance < length (entries # stack) then False
      else (case child of
          Directory children \<Rightarrow>
            subtree_fits_loop (bm_values children # entries # stack) allowance
        | File _ \<Rightarrow> subtree_fits_loop (entries # stack) allowance))"
  by pat_completeness auto

termination
proof (relation "measure (\<lambda>(stack, a). size_list (size_list size) stack)")
  fix child :: node and children entries stack and allowance :: nat
  assume "child = Directory children"
  then show "((bm_values children # entries # stack, allowance),
      ((child # entries) # stack, allowance))
    \<in> measure (\<lambda>(stack, a). size_list (size_list size) stack)"
    using size_values_le [of children] by simp
qed auto

definition subtree_fits :: "node \<Rightarrow> nat \<Rightarrow> bool" where
  "subtree_fits n allowance =
     (case n of File _ \<Rightarrow> True
      | Directory entries \<Rightarrow> subtree_fits_loop [bm_values entries] allowance)"

definition metadata_for_node :: "mem_state \<Rightarrow> node \<Rightarrow> metadata vres" where
  "metadata_for_node s n =
     (case n of
        File i \<Rightarrow> obind (ok_or ENOENT (bm_get (files s) i)) (\<lambda>f.
          Ok \<lparr>md_type = RegularFile,
              md_len = (if length (fn_data f) \<le> u64_max then length (fn_data f) else u64_max)\<rparr>)
      | Directory _ \<Rightarrow> Ok \<lparr>md_type = DirectoryFile, md_len = 0\<rparr>)"

subsection \<open>Usage accounting\<close>

definition ensure_entry_slot :: "vfs_quota \<Rightarrow> mem_state \<Rightarrow> unit vres" where
  "ensure_entry_slot q s = (if max_files q \<le> file_count s then Err ENOSPC else Ok ())"

definition adjusted_used_bytes :: "nat \<Rightarrow> nat \<Rightarrow> nat \<Rightarrow> nat vres" where
  "adjusted_used_bytes used old_len new_len =
     obind (try_u64 EINVAL old_len) (\<lambda>old_len.
     obind (try_u64 ENOSPC new_len) (\<lambda>new_len.
       if old_len \<le> new_len then ok_or ENOSPC (checked_add used (new_len - old_len))
       else usub used (old_len - new_len)))"

text \<open>\<open>Vec::resize(new_len, 0)\<close>: growth beyond \<open>isize::MAX\<close> is a capacity overflow.\<close>

definition vec_resize :: "byte list \<Rightarrow> nat \<Rightarrow> byte list vres" where
  "vec_resize d n =
     (if length d < n \<and> isize_max < n then Inl Panic
      else Ok (take n d @ replicate (n - length d) 0))"

definition resize_file ::
  "vfs_quota \<Rightarrow> mem_state \<Rightarrow> inode \<Rightarrow> nat \<Rightarrow> mem_state \<times> unit vres" where
  "resize_file q s i new_len =
     attempt s (ok_or ENOENT (bm_get (files s) i)) (\<lambda>f.
     attempt s (try_u64 ENOSPC new_len) (\<lambda>new_len_u64.
     if max_file_size q < new_len_u64 then (s, Err ENOSPC)
     else attempt s (adjusted_used_bytes (used_bytes s) (length (fn_data f)) new_len) (\<lambda>used.
     if max_bytes q < used then (s, Err ENOSPC)
     else attempt s (vec_resize (fn_data f) new_len) (\<lambda>d.
       (s\<lparr>files := bm_insert i (f\<lparr>fn_data := d\<rparr>) (files s), used_bytes := used\<rparr>, Ok ())))))"

definition release_file_if_unreferenced :: "mem_state \<Rightarrow> inode \<Rightarrow> mem_state \<times> unit vres" where
  "release_file_if_unreferenced s i =
     (case bm_get (files s) i of
        None \<Rightarrow> (s, Ok ())
      | Some f \<Rightarrow>
          if 0 < fn_links f \<or> 0 < fn_open f then (s, Ok ())
          else let s1 = s\<lparr>files := bm_remove i (files s)\<rparr> in
            attempt s1 (try_u64 EINVAL (length (fn_data f))) (\<lambda>len.
            attempt s1 (usub (used_bytes s1) len) (\<lambda>used.
            let s2 = s1\<lparr>used_bytes := used\<rparr> in
            attempt s2 (usub (file_count s2) 1) (\<lambda>n.
              (s2\<lparr>file_count := n\<rparr>, Ok ())))))"

fun remove_tree :: "mem_state \<Rightarrow> node \<Rightarrow> mem_state \<times> unit vres"
  and remove_children :: "mem_state \<Rightarrow> (rstr \<times> node) list \<Rightarrow> mem_state \<times> unit vres" where
  "remove_tree s (File i) =
     attempt s (ok_or ENOENT (bm_get (files s) i)) (\<lambda>f.
     attempt s (usub (fn_links f) 1) (\<lambda>n.
       release_file_if_unreferenced
         (s\<lparr>files := bm_insert i (f\<lparr>fn_links := n\<rparr>) (files s)\<rparr>) i))"
| "remove_tree s (Directory entries) =
     and_then (remove_children s entries) (\<lambda>s' _.
     attempt s' (usub (file_count s') 1) (\<lambda>n. (s'\<lparr>file_count := n\<rparr>, Ok ())))"
| "remove_children s [] = (s, Ok ())"
| "remove_children s (e # es) =
     and_then (remove_tree s (snd e)) (\<lambda>s' _. remove_children s' es)"

subsection \<open>Path operations\<close>

definition mem_stats :: "mem_state \<Rightarrow> vfs_stats vres" where
  "mem_stats s = Ok \<lparr>st_used_bytes = used_bytes s, st_file_count = file_count s\<rparr>"

definition mem_stat :: "mem_state \<Rightarrow> rstr \<Rightarrow> metadata vres" where
  "mem_stat s p = obind (normalize_path p) (\<lambda>path.
     obind (get_node (root s) path) (metadata_for_node s))"

fun collect_entries :: "mem_state \<Rightarrow> (rstr \<times> node) list \<Rightarrow> dir_entry list vres" where
  "collect_entries s [] = Ok []"
| "collect_entries s ((name, n) # es) =
     obind (metadata_for_node s n) (\<lambda>m.
     obind (collect_entries s es) (\<lambda>ds. Ok (\<lparr>de_name = name, de_meta = m\<rparr> # ds)))"

definition mem_readdir :: "mem_state \<Rightarrow> rstr \<Rightarrow> dir_entry list vres" where
  "mem_readdir s p = obind (normalize_path p) (\<lambda>path.
     obind (get_node (root s) path) (\<lambda>n.
       case n of File _ \<Rightarrow> Err ENOTDIR | Directory entries \<Rightarrow> collect_entries s entries))"

text \<open>
  The first lookup of \<open>mkdir\<close>: an existing entry is \<open>EEXIST\<close>, a missing one is fine, any
  other error is returned.
\<close>

definition mem_mkdir :: "vfs_quota \<Rightarrow> mem_state \<Rightarrow> rstr \<Rightarrow> mem_state \<times> unit vres" where
  "mem_mkdir q s p =
     attempt s (normalize_path p) (\<lambda>path.
     if path = [] then (s, Err EEXIST)
     else attempt s (case get_node (root s) path of
            Inr _ \<Rightarrow> Err EEXIST
          | Inl f \<Rightarrow> (if f = Errno ENOENT then Ok () else Inl f)) (\<lambda>_.
     attempt s (ensure_parent_is_dir (root s) path) (\<lambda>_.
     attempt s (ensure_entry_slot q s) (\<lambda>_.
     attempt s (parent_dir_mut (root s) path) (\<lambda>(parent, name).
     let s1 = s\<lparr>root := set_node (root s) (butlast path)
                 (Directory (bm_insert name (Directory []) parent))\<rparr> in
     attempt s1 (uadd (file_count s1) 1) (\<lambda>n. (s1\<lparr>file_count := n\<rparr>, Ok ())))))))"

text \<open>What \<open>rename\<close> requires of the entry that already stands at the target path.\<close>

definition rename_target_check :: "node_kind \<Rightarrow> node vres \<Rightarrow> unit vres" where
  "rename_target_check source_kind target =
     (case target of
        Inr (File _) \<Rightarrow> (case source_kind of KFile \<Rightarrow> Ok () | KDirectory \<Rightarrow> Err ENOTDIR)
      | Inr (Directory entries) \<Rightarrow>
          (case source_kind of KFile \<Rightarrow> Err EISDIR
           | KDirectory \<Rightarrow> (if entries \<noteq> [] then Err ENOTEMPTY else Ok ()))
      | Inl f \<Rightarrow> (if f = Errno ENOENT then Ok () else Inl f))"

definition mem_rename :: "mem_state \<Rightarrow> rstr \<Rightarrow> rstr \<Rightarrow> mem_state \<times> unit vres" where
  "mem_rename s from to =
     attempt s (normalize_path from) (\<lambda>from_path.
     attempt s (normalize_path to) (\<lambda>to_path.
     if from_path = [] \<or> to_path = [] then (s, Err EINVAL)
     else attempt s (get_node (root s) from_path) (\<lambda>source.
     let source_kind = node_kind_of source in
     if from_path = to_path then (s, Ok ())
     else if source_kind = KDirectory \<and> has_prefix to_path from_path then (s, Err EINVAL)
     else attempt s (ensure_parent_is_dir (root s) to_path) (\<lambda>_.
     attempt s (rename_target_check source_kind (get_node (root s) to_path)) (\<lambda>_.
     if source_kind = KDirectory \<and> length from_path < length to_path
        \<and> \<not> subtree_fits source (max_path_depth - length to_path)
     then (s, Err EINVAL)
     else attempt s (parent_dir_mut (root s) from_path) (\<lambda>(parent, name).
     attempt s (ok_or ENOENT (bm_get parent name)) (\<lambda>removed.
     let s1 = s\<lparr>root := set_node (root s) (butlast from_path)
                  (Directory (bm_remove name parent))\<rparr> in
     attempt s1 (parent_dir_mut (root s1) to_path) (\<lambda>(parent', name').
     let s2 = s1\<lparr>root := set_node (root s1) (butlast to_path)
                  (Directory (bm_insert name' removed parent'))\<rparr> in
     case bm_get parent' name' of
       Some replaced \<Rightarrow> remove_tree s2 replaced
     | None \<Rightarrow> (s2, Ok ())))))))))"

definition mem_unlink :: "mem_state \<Rightarrow> rstr \<Rightarrow> mem_state \<times> unit vres" where
  "mem_unlink s p =
     attempt s (normalize_path p) (\<lambda>path.
     if path = [] then (s, Err EISDIR)
     else attempt s (parent_dir_mut (root s) path) (\<lambda>(parent, name).
     case bm_get parent name of
       None \<Rightarrow> (s, Err ENOENT)
     | Some (Directory _) \<Rightarrow> (s, Err EISDIR)
     | Some (File i) \<Rightarrow>
         remove_tree (s\<lparr>root := set_node (root s) (butlast path)
           (Directory (bm_remove name parent))\<rparr>) (File i)))"

definition mem_rmdir :: "mem_state \<Rightarrow> rstr \<Rightarrow> mem_state \<times> unit vres" where
  "mem_rmdir s p =
     attempt s (normalize_path p) (\<lambda>path.
     if path = [] then (s, Err EBUSY)
     else attempt s (parent_dir_mut (root s) path) (\<lambda>(parent, name).
     case bm_get parent name of
       None \<Rightarrow> (s, Err ENOENT)
     | Some (File _) \<Rightarrow> (s, Err ENOTDIR)
     | Some (Directory entries) \<Rightarrow>
         if entries \<noteq> [] then (s, Err ENOTEMPTY)
         else remove_tree (s\<lparr>root := set_node (root s) (butlast path)
           (Directory (bm_remove name parent))\<rparr>) (Directory entries)))"

subsection \<open>Handle operations\<close>

text \<open>The inode that \<open>open\<close> resolves or creates, before the handle is minted.\<close>

definition open_inode ::
  "vfs_quota \<Rightarrow> mem_state \<Rightarrow> rstr list \<Rightarrow> open_mode \<Rightarrow> mem_state \<times> inode vres" where
  "open_inode q s path mode =
     (case get_node (root s) path of
        Inr (Directory _) \<Rightarrow> (s, Err EISDIR)
      | Inr (File i) \<Rightarrow>
          if om_create_new mode then (s, Err EEXIST)
          else if om_truncate mode then and_then (resize_file q s i 0) (\<lambda>s' _. (s', Ok i))
          else (s, Ok i)
      | Inl f \<Rightarrow>
          if f = Errno ENOENT \<and> (om_create mode \<or> om_create_new mode) then
            attempt s (ensure_parent_is_dir (root s) path) (\<lambda>_.
            attempt s (ensure_entry_slot q s) (\<lambda>_.
            let i = next_inode s in
            attempt s (uadd i 1) (\<lambda>ni.
            let s1 = s\<lparr>next_inode := ni,
                       files := bm_insert i (file_node_default\<lparr>fn_links := 1\<rparr>) (files s)\<rparr> in
            attempt s1 (parent_dir_mut (root s1) path) (\<lambda>(parent, name).
            let s2 = s1\<lparr>root := set_node (root s1) (butlast path)
                         (Directory (bm_insert name (File i) parent))\<rparr> in
            attempt s2 (uadd (file_count s2) 1) (\<lambda>n. (s2\<lparr>file_count := n\<rparr>, Ok i))))))
          else (s, Inl f))"

definition mint_handle :: "mem_state \<Rightarrow> inode \<Rightarrow> open_mode \<Rightarrow> mem_state \<times> file_handle vres" where
  "mint_handle s i mode =
     (let h = next_handle s in
      attempt s (uadd h 1) (\<lambda>nh.
      let s1 = s\<lparr>next_handle := nh,
                 handles := bm_insert h \<lparr>h_inode = i, h_readable = om_read mode,
                   h_writable = om_write mode, h_append = om_append mode\<rparr> (handles s)\<rparr> in
      attempt s1 (ok_or ENOENT (bm_get (files s1) i)) (\<lambda>f.
      attempt s1 (uadd (fn_open f) 1) (\<lambda>n.
        (s1\<lparr>files := bm_insert i (f\<lparr>fn_open := n\<rparr>) (files s1)\<rparr>, Ok h)))))"

definition mem_open ::
  "vfs_quota \<Rightarrow> mem_state \<Rightarrow> rstr \<Rightarrow> open_mode \<Rightarrow> mem_state \<times> file_handle vres" where
  "mem_open q s p mode =
     attempt s (om_validate mode) (\<lambda>_.
     attempt s (normalize_path p) (\<lambda>path.
     and_then (open_inode q s path mode) (\<lambda>s1 i. mint_handle s1 i mode)))"

text \<open>The bytes that \<open>read_at\<close> copies into a buffer of length \<open>n\<close>; it returns their number.\<close>

definition mem_read_at :: "mem_state \<Rightarrow> file_handle \<Rightarrow> nat \<Rightarrow> nat \<Rightarrow> byte list vres" where
  "mem_read_at s h offset n =
     obind (try_usize EINVAL offset) (\<lambda>offset.
     obind (ok_or EBADF (bm_get (handles s) h)) (\<lambda>hd.
     if \<not> h_readable hd then Err EBADF
     else obind (ok_or ENOENT (bm_get (files s) (h_inode hd))) (\<lambda>f.
     let data = fn_data f in
     if length data \<le> offset then Ok []
     else let len = min (length data - offset) n in Ok (take len (drop offset data)))))"

definition mem_write_at ::
  "vfs_quota \<Rightarrow> mem_state \<Rightarrow> file_handle \<Rightarrow> nat \<Rightarrow> byte list \<Rightarrow> mem_state \<times> nat vres" where
  "mem_write_at q s h offset data =
     attempt s (ok_or EBADF (bm_get (handles s) h)) (\<lambda>hd.
     if \<not> h_writable hd then (s, Err EBADF)
     else if data = [] then (s, Ok 0)
     else attempt s (try_usize EINVAL offset) (\<lambda>offset.
     attempt s (ok_or ENOENT (bm_get (files s) (h_inode hd))) (\<lambda>f.
     let old_len = length (fn_data f);
         write_offset = (if h_append hd then old_len else offset) in
     attempt s (ok_or EINVAL (checked_add write_offset (length data))) (\<lambda>write_end.
     let new_len = max old_len write_end in
     and_then (resize_file q s (h_inode hd) new_len) (\<lambda>s1 _.
     attempt s1 (ok_or ENOENT (bm_get (files s1) (h_inode hd))) (\<lambda>f1.
       (s1\<lparr>files := bm_insert (h_inode hd)
             (f1\<lparr>fn_data := take write_offset (fn_data f1) @ data
                              @ drop write_end (fn_data f1)\<rparr>) (files s1)\<rparr>,
        Ok (length data))))))))"

definition mem_truncate ::
  "vfs_quota \<Rightarrow> mem_state \<Rightarrow> file_handle \<Rightarrow> nat \<Rightarrow> mem_state \<times> unit vres" where
  "mem_truncate q s h len =
     attempt s (try_usize ENOSPC len) (\<lambda>len.
     attempt s (ok_or EBADF (bm_get (handles s) h)) (\<lambda>hd.
     if \<not> h_writable hd then (s, Err EINVAL)
     else resize_file q s (h_inode hd) len))"

definition mem_close :: "mem_state \<Rightarrow> file_handle \<Rightarrow> mem_state \<times> unit vres" where
  "mem_close s h =
     attempt s (ok_or EBADF (bm_get (handles s) h)) (\<lambda>hd.
     let s1 = s\<lparr>handles := bm_remove h (handles s)\<rparr> in
     attempt s1 (ok_or ENOENT (bm_get (files s1) (h_inode hd))) (\<lambda>f.
     attempt s1 (usub (fn_open f) 1) (\<lambda>n.
       release_file_if_unreferenced
         (s1\<lparr>files := bm_insert (h_inode hd) (f\<lparr>fn_open := n\<rparr>) (files s1)\<rparr>)
         (h_inode hd))))"

subsection \<open>Snapshots\<close>

record snapshot_acc =
  ac_files :: "(inode, file_node) bmap"
  ac_used :: nat
  ac_count :: nat

fun collect_snapshot ::
  "(inode, file_node) bmap \<Rightarrow> node \<Rightarrow> snapshot_acc \<Rightarrow> snapshot_acc vres"
  and collect_snapshot_children ::
  "(inode, file_node) bmap \<Rightarrow> (rstr \<times> node) list \<Rightarrow> snapshot_acc \<Rightarrow> snapshot_acc vres" where
  "collect_snapshot fs (File i) acc =
     obind (ok_or ENOENT (bm_get fs i)) (\<lambda>f.
     obind (try_u64 EINVAL (length (fn_data f))) (\<lambda>len.
     obind (ok_or ENOSPC (checked_add (ac_used acc) len)) (\<lambda>used.
     obind (ok_or ENOSPC (checked_add (ac_count acc) 1)) (\<lambda>n.
       Ok \<lparr>ac_files = bm_insert i \<lparr>fn_data = fn_data f, fn_links = 1, fn_open = 0\<rparr> (ac_files acc),
           ac_used = used, ac_count = n\<rparr>))))"
| "collect_snapshot fs (Directory entries) acc = collect_snapshot_children fs entries acc"
| "collect_snapshot_children fs [] acc = Ok acc"
| "collect_snapshot_children fs (e # es) acc =
     obind (ok_or ENOSPC (checked_add (ac_count acc)
              (case snd e of Directory _ \<Rightarrow> 1 | File _ \<Rightarrow> 0))) (\<lambda>n.
     obind (collect_snapshot fs (snd e) (acc\<lparr>ac_count := n\<rparr>)) (\<lambda>acc'.
       collect_snapshot_children fs es acc'))"

definition mem_snapshot :: "mem_state \<Rightarrow> snapshot_state vres" where
  "mem_snapshot s =
     obind (collect_snapshot (files s) (root s) \<lparr>ac_files = [], ac_used = 0, ac_count = 0\<rparr>) (\<lambda>acc.
       Ok \<lparr>sn_root = root s, sn_files = ac_files acc, sn_next_inode = next_inode s,
           sn_used_bytes = ac_used acc, sn_file_count = ac_count acc\<rparr>)"

definition ensure_snapshot_fits_quota :: "snapshot_state \<Rightarrow> vfs_quota \<Rightarrow> unit vres" where
  "ensure_snapshot_fits_quota sn q =
     (if max_bytes q < sn_used_bytes sn \<or> max_files q < sn_file_count sn then Err ENOSPC
      else if \<exists>f\<in>set (bm_values (sn_files sn)).
                u64_max < length (fn_data f) \<or> max_file_size q < length (fn_data f)
      then Err ENOSPC else Ok ())"

definition state_from_snapshot :: "snapshot_state \<Rightarrow> nat \<Rightarrow> mem_state" where
  "state_from_snapshot sn nh =
     \<lparr>root = sn_root sn, files = sn_files sn, next_inode = sn_next_inode sn, next_handle = nh,
      handles = [], used_bytes = sn_used_bytes sn, file_count = sn_file_count sn\<rparr>"

definition mem_restore ::
  "vfs_quota \<Rightarrow> mem_state \<Rightarrow> snapshot_state \<Rightarrow> mem_state \<times> unit vres" where
  "mem_restore q s sn =
     attempt s (ensure_snapshot_fits_quota sn q) (\<lambda>_.
       (state_from_snapshot sn (next_handle s), Ok ()))"

definition mem_branch :: "vfs_quota \<Rightarrow> snapshot_state \<Rightarrow> mem_state vres" where
  "mem_branch q sn =
     obind (ensure_snapshot_fits_quota sn q) (\<lambda>_. Ok (state_from_snapshot sn 1))"

end
