(* ===== verification/S3_Vfs.thy ===== *)
theory S3_Vfs
  imports Mem_Vfs
begin

text \<open>
  The S3 filesystem of \<open>src/vfs/s3.rs\<close>. The object store is the trait \<open>S3Ops\<close>: its operations are
  a record of functions on an unknown remote state. A writable handle stages its contents, in a
  buffer or in a multipart upload, and lands them when it is closed.

  A handle is looked up in a table and then used under its own lock, so the table maps handles
  to cells of a store: a caller may still hold the cell of a handle that has been closed. Loops
  that talk to the store may not end; \<open>None\<close> stands for a call that does not return.
\<close>

definition default_max_edit_bytes :: nat where
  "default_max_edit_bytes = 32 * 1024 * 1024"

definition initial_part_size :: nat where
  "initial_part_size = 8 * 1024 * 1024"

definition parts_per_size_class :: nat where
  "parts_per_size_class = 1000"

record s3_config =
  c_read_only :: bool
  c_max_edit_bytes :: nat
  c_directory_rename :: bool
  c_conditional_writes :: bool

definition s3_config_default :: s3_config where
  "s3_config_default = \<lparr>c_read_only = False, c_max_edit_bytes = default_max_edit_bytes,
     c_directory_rename = True, c_conditional_writes = True\<rparr>"

definition s3_config_read_only :: s3_config where
  "s3_config_read_only = s3_config_default\<lparr>c_read_only := True\<rparr>"

subsection \<open>The object store\<close>

datatype precondition = PNone | PAbsent | PMatch rstr

datatype remote_error = Missing | Denied | PreconditionFailed | RemoteIo

type_synonym 'a remote = "(remote_error, 'a) outcome"

record remote_file =
  rmf_len :: nat
  rmf_etag :: rstr

record uploaded_part =
  pt_number :: nat
  pt_etag :: rstr

record head_request =
  hq_bucket :: rstr
  hq_key :: rstr

record list_request =
  lq_bucket :: rstr
  lq_prefix :: rstr
  lq_delimiter :: rstr
  lq_continuation :: "rstr option"
  lq_max_keys :: "nat option"

record get_request =
  gq_bucket :: rstr
  gq_key :: rstr
  gq_range :: rstr
  gq_if_match :: rstr
  gq_expected_len :: nat
  gq_expected_content_range :: rstr

record put_request =
  pq_bucket :: rstr
  pq_key :: rstr
  pq_body :: "byte list"
  pq_precondition :: precondition

record delete_request =
  dq_bucket :: rstr
  dq_key :: rstr
  dq_precondition :: precondition

record copy_request =
  cq_bucket :: rstr
  cq_source_key :: rstr
  cq_key :: rstr
  cq_source_if_match :: precondition

record create_upload_request =
  uq_bucket :: rstr
  uq_key :: rstr

record upload_part_request =
  aq_bucket :: rstr
  aq_key :: rstr
  aq_upload_id :: rstr
  aq_part_number :: nat
  aq_body :: "byte list"

record complete_upload_request =
  mq_bucket :: rstr
  mq_key :: rstr
  mq_upload_id :: rstr
  mq_parts :: "uploaded_part list"
  mq_precondition :: precondition

record abort_upload_request =
  xq_bucket :: rstr
  xq_key :: rstr
  xq_upload_id :: rstr

record listed_object =
  lo_key :: rstr
  lo_size :: nat

record list_result =
  lr_objects :: "listed_object list"
  lr_common_prefixes :: "rstr list"
  lr_truncated :: bool
  lr_next_continuation :: "rstr option"

record get_result =
  gr_body :: "byte list"
  gr_content_length :: nat
  gr_etag :: "rstr option"
  gr_content_range :: "rstr option"

record 'r s3_ops =
  o_head :: "'r \<Rightarrow> head_request \<Rightarrow> 'r \<times> remote_file remote"
  o_list :: "'r \<Rightarrow> list_request \<Rightarrow> 'r \<times> list_result remote"
  o_get :: "'r \<Rightarrow> get_request \<Rightarrow> 'r \<times> get_result remote"
  o_put :: "'r \<Rightarrow> put_request \<Rightarrow> 'r \<times> unit remote"
  o_delete :: "'r \<Rightarrow> delete_request \<Rightarrow> 'r \<times> unit remote"
  o_copy :: "'r \<Rightarrow> copy_request \<Rightarrow> 'r \<times> unit remote"
  o_create_upload :: "'r \<Rightarrow> create_upload_request \<Rightarrow> 'r \<times> rstr remote"
  o_upload_part :: "'r \<Rightarrow> upload_part_request \<Rightarrow> 'r \<times> rstr remote"
  o_complete_upload :: "'r \<Rightarrow> complete_upload_request \<Rightarrow> 'r \<times> unit remote"
  o_abort_upload :: "'r \<Rightarrow> abort_upload_request \<Rightarrow> 'r \<times> unit remote"

subsection \<open>State\<close>

record buffer =
  bf_source :: "remote_file option"
  bf_precondition :: precondition
  bf_bytes :: "byte list option"
  bf_dirty :: bool

record upload =
  up_id :: rstr
  up_parts :: "uploaded_part list"

record stream =
  sm_flushed :: nat
  sm_buffer :: "byte list"
  sm_upload :: "upload option"
  sm_precondition :: precondition

definition stream_new :: "precondition \<Rightarrow> stream" where
  "stream_new p = \<lparr>sm_flushed = 0, sm_buffer = [], sm_upload = None, sm_precondition = p\<rparr>"

definition stream_end :: "stream \<Rightarrow> nat vres" where
  "stream_end st = ok_or EFBIG (checked_add (sm_flushed st) (length (sm_buffer st)))"

datatype staging = SRemote remote_file | SBuffer buffer | SStream stream | SFailed errno

record handle_state =
  hs_key :: rstr
  hs_mode :: open_mode
  hs_staging :: staging
  hs_released :: bool

datatype kind = AtDir bool | AtFile remote_file

record directory_listing =
  dl_exists :: bool
  dl_entries :: "dir_entry list"

record 'r s3_vfs =
  s3_bucket :: rstr
  s3_root_prefix :: rstr
  s3_config_of :: s3_config
  s3_part_size :: nat
  s3_next_handle :: nat
  s3_handles :: "(file_handle, nat) bmap"
  s3_cells :: "handle_state list"
  s3_remote :: 'r

abbreviation cell_of :: "'r s3_vfs \<Rightarrow> nat \<Rightarrow> handle_state" where
  "cell_of s i \<equiv> s3_cells s ! i"

definition set_cell :: "'r s3_vfs \<Rightarrow> nat \<Rightarrow> handle_state \<Rightarrow> 'r s3_vfs" where
  "set_cell s i hs = s\<lparr>s3_cells := (s3_cells s)[i := hs]\<rparr>"

text \<open>Sequencing of calls that may not return.\<close>

definition follow ::
  "('s \<times> ('e, 'a) outcome) option \<Rightarrow> ('s \<Rightarrow> 'a \<Rightarrow> ('s \<times> ('e, 'b) outcome) option)
   \<Rightarrow> ('s \<times> ('e, 'b) outcome) option" where
  "follow out k =
     (case out of None \<Rightarrow> None | Some (s, Inl e) \<Rightarrow> Some (s, Inl e) | Some (s, Inr v) \<Rightarrow> k s v)"

definition guard_s3 :: "'s \<Rightarrow> ('e, 'a) outcome \<Rightarrow> ('a \<Rightarrow> ('s \<times> ('e, 'b) outcome) option)
   \<Rightarrow> ('s \<times> ('e, 'b) outcome) option" where
  "guard_s3 s r k = (case r of Inl e \<Rightarrow> Some (s, Inl e) | Inr v \<Rightarrow> k v)"

text \<open>A request, and one whose error becomes an errno.\<close>

definition ask :: "'r s3_vfs \<Rightarrow> ('r \<Rightarrow> 'r \<times> 'a remote) \<Rightarrow> 'r s3_vfs \<times> 'a remote" where
  "ask s f = (case f (s3_remote s) of (r, res) \<Rightarrow> (s\<lparr>s3_remote := r\<rparr>, res))"

fun into_vfs :: "remote_error \<Rightarrow> errno" where
  "into_vfs Missing = ENOENT"
| "into_vfs Denied = EACCES"
| "into_vfs PreconditionFailed = EIO"
| "into_vfs RemoteIo = EIO"

definition vfs_result :: "(remote_error \<Rightarrow> errno) \<Rightarrow> 'a remote \<Rightarrow> 'a vres" where
  "vfs_result f res =
     (case res of Inr v \<Rightarrow> Ok v | Inl (Errno e) \<Rightarrow> Err (f e) | Inl Panic \<Rightarrow> Inl Panic)"

definition ask_vfs :: "'r s3_vfs \<Rightarrow> ('r \<Rightarrow> 'r \<times> 'a remote) \<Rightarrow> 'r s3_vfs \<times> 'a vres" where
  "ask_vfs s f = (case ask s f of (s1, res) \<Rightarrow> (s1, vfs_result into_vfs res))"

definition exclusive_error :: "bool \<Rightarrow> remote_error \<Rightarrow> errno" where
  "exclusive_error exclusive e = (if e = PreconditionFailed \<and> exclusive then EEXIST else into_vfs e)"

subsection \<open>Names and keys\<close>

definition validate_bucket :: "rstr \<Rightarrow> unit vres" where
  "validate_bucket bucket =
     (if bucket = [] \<or> 0 \<in> set bucket \<or> slash \<in> set bucket \<or> list_ex is_whitespace bucket then Err EINVAL else Ok ())"

definition trim_end_slashes :: "rstr \<Rightarrow> rstr" where
  "trim_end_slashes t = rev (dropWhile (\<lambda>c. c = slash) (rev t))"

definition normalize_prefix :: "rstr \<Rightarrow> rstr vres" where
  "normalize_prefix prefix =
     (if 0 \<in> set prefix then Err EINVAL
      else
        let trimmed = trim_end_slashes (dropWhile (\<lambda>c. c = slash) prefix) in
        if trimmed = [] then Ok []
        else if list_ex (\<lambda>c. c = [] \<or> c = rs ''.'' \<or> c = rs ''..'') (split_on slash trimmed) then Err EINVAL
        else Ok (trimmed @ [slash]))"

definition valid_entry_name :: "rstr \<Rightarrow> bool" where
  "valid_entry_name name \<longleftrightarrow> name \<noteq> [] \<and> name \<noteq> rs ''.'' \<and> name \<noteq> rs ''..'' \<and> slash \<notin> set name \<and> 0 \<notin> set name"

definition strip_prefix :: "rstr \<Rightarrow> rstr \<Rightarrow> rstr option" where
  "strip_prefix pre t = (if take (length pre) t = pre then Some (drop (length pre) t) else None)"

definition strip_slash :: "rstr \<Rightarrow> rstr option" where
  "strip_slash t = (if t \<noteq> [] \<and> List.last t = slash then Some (butlast t) else None)"

definition s3_key :: "'r s3_vfs \<Rightarrow> rstr list \<Rightarrow> rstr" where
  "s3_key s components =
     (if components = [] then trim_end_slashes (s3_root_prefix s)
      else s3_root_prefix s @ join [slash] components)"

definition directory_prefix :: "'r s3_vfs \<Rightarrow> rstr list \<Rightarrow> rstr" where
  "directory_prefix s components =
     (if components = [] then s3_root_prefix s else s3_key s components @ [slash])"

definition with_ops :: "'r \<Rightarrow> rstr \<Rightarrow> rstr option \<Rightarrow> s3_config \<Rightarrow> 'r s3_vfs vres" where
  "with_ops remote bucket prefix config =
     obind (validate_bucket bucket) (\<lambda>_.
     obind (normalize_prefix (case prefix of None \<Rightarrow> [] | Some p \<Rightarrow> p)) (\<lambda>root_prefix.
     Ok \<lparr>s3_bucket = bucket, s3_root_prefix = root_prefix, s3_config_of = config,
         s3_part_size = initial_part_size, s3_next_handle = 1, s3_handles = [], s3_cells = [],
         s3_remote = remote\<rparr>))"

definition part_size :: "'r s3_vfs \<Rightarrow> nat \<Rightarrow> nat" where
  "part_size s uploaded_parts =
     min usize_max (s3_part_size s * 2 ^ min (uploaded_parts div parts_per_size_class) 16)"

definition require_writable :: "'r s3_vfs \<Rightarrow> unit vres" where
  "require_writable s = (if c_read_only (s3_config_of s) then Err EACCES else Ok ())"

subsection \<open>Listing\<close>

fun add_objects :: "rstr \<Rightarrow> listed_object list \<Rightarrow> (rstr, metadata) bmap \<Rightarrow> bool \<Rightarrow> (rstr, metadata) bmap \<times> bool" where
  "add_objects prefix [] entries present = (entries, present)"
| "add_objects prefix (obj # objs) entries present =
     (case strip_prefix prefix (lo_key obj) of
        None \<Rightarrow> add_objects prefix objs entries present
      | Some relative \<Rightarrow>
          if relative = [] then add_objects prefix objs entries (present \<or> lo_size obj = 0)
          else
            add_objects prefix objs
              (if valid_entry_name relative \<and> bm_get entries relative = None
               then bm_insert relative \<lparr>md_type = RegularFile, md_len = lo_size obj\<rparr> entries else entries)
              True)"

fun add_prefixes :: "rstr \<Rightarrow> rstr list \<Rightarrow> (rstr, metadata) bmap \<Rightarrow> bool \<Rightarrow> (rstr, metadata) bmap \<times> bool" where
  "add_prefixes prefix [] entries present = (entries, present)"
| "add_prefixes prefix (cp # cps) entries present =
     (case (case strip_prefix prefix cp of None \<Rightarrow> None | Some relative \<Rightarrow> strip_slash relative) of
        None \<Rightarrow> add_prefixes prefix cps entries present
      | Some name \<Rightarrow>
          add_prefixes prefix cps
            (if valid_entry_name name
             then bm_insert name \<lparr>md_type = DirectoryFile, md_len = 0\<rparr> entries else entries) True)"

definition list_page ::
  "'r s3_ops \<Rightarrow> 'r s3_vfs \<Rightarrow> rstr \<Rightarrow> rstr \<Rightarrow> rstr option \<Rightarrow> nat option \<Rightarrow> 'r s3_vfs \<times> list_result vres" where
  "list_page ops s prefix delimiter continuation max_keys =
     ask_vfs s (\<lambda>r. o_list ops r \<lparr>lq_bucket = s3_bucket s, lq_prefix = prefix, lq_delimiter = delimiter,
       lq_continuation = continuation, lq_max_keys = max_keys\<rparr>)"

text \<open>The token of the next page: an absent, empty or repeated one is an error.\<close>

definition next_token :: "list_result \<Rightarrow> rstr list \<Rightarrow> rstr vres" where
  "next_token page seen =
     (case lr_next_continuation page of
        None \<Rightarrow> Err EIO
      | Some token \<Rightarrow> if token = [] \<or> token \<in> set seen then Err EIO else Ok token)"

partial_function (option) scan_loop ::
  "'r s3_ops \<Rightarrow> 'r s3_vfs \<Rightarrow> rstr \<Rightarrow> bool \<Rightarrow> rstr option \<Rightarrow> rstr list \<Rightarrow> (rstr, metadata) bmap \<Rightarrow> bool
   \<Rightarrow> ('r s3_vfs \<times> ((rstr, metadata) bmap \<times> bool) vres) option" where
  "scan_loop ops s prefix probe continuation seen entries present =
     (case list_page ops s prefix [slash] continuation (if probe then Some 2 else None) of
        (s1, Inl e) \<Rightarrow> Some (s1, Inl e)
      | (s1, Inr page) \<Rightarrow>
          let (entries1, present1) = add_objects prefix (lr_objects page) entries present;
              (entries2, present2) = add_prefixes prefix (lr_common_prefixes page) entries1 present1 in
          if \<not> lr_truncated page then Some (s1, Ok (entries2, present2))
          else
            (case next_token page seen of
               Inl e \<Rightarrow> Some (s1, Inl e)
             | Inr token \<Rightarrow>
                 if probe \<and> entries2 \<noteq> [] then Some (s1, Ok (entries2, present2))
                 else scan_loop ops s1 prefix probe (Some token) (token # seen) entries2 present2))"

declare scan_loop.simps [code]

definition scan_directory ::
  "'r s3_ops \<Rightarrow> 'r s3_vfs \<Rightarrow> rstr list \<Rightarrow> bool \<Rightarrow> ('r s3_vfs \<times> directory_listing vres) option" where
  "scan_directory ops s components probe =
     follow (scan_loop ops s (directory_prefix s components) probe None [] [] (components = []))
       (\<lambda>s1 (entries, present).
          Some (s1, Ok \<lparr>dl_exists = present,
            dl_entries = map (\<lambda>(name, md). \<lparr>de_name = name, de_meta = md\<rparr>) entries\<rparr>))"

partial_function (option) list_recursive_loop ::
  "'r s3_ops \<Rightarrow> 'r s3_vfs \<Rightarrow> rstr \<Rightarrow> rstr option \<Rightarrow> rstr list \<Rightarrow> rstr list
   \<Rightarrow> ('r s3_vfs \<times> rstr list vres) option" where
  "list_recursive_loop ops s prefix continuation seen keys =
     (case list_page ops s prefix [] continuation None of
        (s1, Inl e) \<Rightarrow> Some (s1, Inl e)
      | (s1, Inr page) \<Rightarrow>
          let keys1 = keys @ filter (\<lambda>k. strip_prefix prefix k \<noteq> None) (map lo_key (lr_objects page)) in
          if \<not> lr_truncated page then Some (s1, Ok keys1)
          else
            (case next_token page seen of
               Inl e \<Rightarrow> Some (s1, Inl e)
             | Inr token \<Rightarrow> list_recursive_loop ops s1 prefix (Some token) (token # seen) keys1))"

declare list_recursive_loop.simps [code]

definition list_recursive :: "'r s3_ops \<Rightarrow> 'r s3_vfs \<Rightarrow> rstr \<Rightarrow> ('r s3_vfs \<times> rstr list vres) option" where
  "list_recursive ops s prefix = list_recursive_loop ops s prefix None [] []"

definition head_key :: "'r s3_ops \<Rightarrow> 'r s3_vfs \<Rightarrow> rstr list \<Rightarrow> 'r s3_vfs \<times> remote_file remote" where
  "head_key ops s components = ask s (\<lambda>r. o_head ops r \<lparr>hq_bucket = s3_bucket s, hq_key = s3_key s components\<rparr>)"

definition kind_at ::
  "'r s3_ops \<Rightarrow> 'r s3_vfs \<Rightarrow> rstr list \<Rightarrow> ('r s3_vfs \<times> kind option vres) option" where
  "kind_at ops s components =
     (if components = [] then Some (s, Ok (Some (AtDir False)))
      else
        follow (scan_directory ops s components True) (\<lambda>s1 listing.
          if dl_exists listing then Some (s1, Ok (Some (AtDir (dl_entries listing \<noteq> []))))
          else
            (case head_key ops s1 components of
               (s2, Inr file) \<Rightarrow> Some (s2, Ok (Some (AtFile file)))
             | (s2, Inl (Errno Missing)) \<Rightarrow> Some (s2, Ok None)
             | (s2, Inl (Errno e)) \<Rightarrow> Some (s2, Err (into_vfs e))
             | (s2, Inl Panic) \<Rightarrow> Some (s2, Inl Panic))))"

fun validate_ends ::
  "'r s3_ops \<Rightarrow> 'r s3_vfs \<Rightarrow> rstr list \<Rightarrow> nat list \<Rightarrow> ('r s3_vfs \<times> unit vres) option" where
  "validate_ends ops s components [] = Some (s, Ok ())"
| "validate_ends ops s components (e # es) =
     follow (kind_at ops s (take e components)) (\<lambda>s1 k.
       case k of
         Some (AtDir _) \<Rightarrow> validate_ends ops s1 components es
       | Some (AtFile _) \<Rightarrow> Some (s1, Err ENOTDIR)
       | None \<Rightarrow> Some (s1, Err ENOENT))"

definition validate_parents ::
  "'r s3_ops \<Rightarrow> 'r s3_vfs \<Rightarrow> rstr list \<Rightarrow> ('r s3_vfs \<times> unit vres) option" where
  "validate_parents ops s components = validate_ends ops s components [1 ..< length components]"

end
