(* ===== verification/S3_Ops.thy ===== *)
theory S3_Ops
  imports S3_Vfs
begin

text \<open>The operations of \<open>S3Vfs\<close>: staging, landing, path mutations and handles.\<close>

subsection \<open>Objects\<close>

definition apply_precondition :: "'r s3_vfs \<Rightarrow> precondition \<Rightarrow> precondition" where
  "apply_precondition s p = (if c_conditional_writes (s3_config_of s) then p else PNone)"

definition put_object ::
  "'r s3_ops \<Rightarrow> 'r s3_vfs \<Rightarrow> rstr \<Rightarrow> byte list \<Rightarrow> precondition \<Rightarrow> 'r s3_vfs \<times> unit vres" where
  "put_object ops s key body p =
     (case ask s (\<lambda>r. o_put ops r \<lparr>pq_bucket = s3_bucket s, pq_key = key, pq_body = body,
             pq_precondition = apply_precondition s p\<rparr>) of
        (s1, res) \<Rightarrow> (s1, vfs_result (exclusive_error (p = PAbsent)) res))"

definition preserve_directory :: "'r s3_ops \<Rightarrow> 'r s3_vfs \<Rightarrow> rstr list \<Rightarrow> 'r s3_vfs \<times> unit vres" where
  "preserve_directory ops s components =
     (if components = [] then (s, Ok ())
      else
        let prefix = directory_prefix s components in
        and_then (list_page ops s prefix [slash] None (Some 1)) (\<lambda>s1 page.
          if lr_objects page \<noteq> [] \<or> lr_common_prefixes page \<noteq> [] then (s1, Ok ())
          else put_object ops s1 prefix [] PNone))"

definition check_edit_len :: "'r s3_vfs \<Rightarrow> nat \<Rightarrow> unit vres" where
  "check_edit_len s len =
     (if c_max_edit_bytes (s3_config_of s) \<noteq> 0 \<and> c_max_edit_bytes (s3_config_of s) < len then Err EFBIG else Ok ())"

definition byte_range :: "nat \<Rightarrow> nat \<Rightarrow> rstr" where
  "byte_range a b = rs ''bytes='' @ show_nat a @ rs ''-'' @ show_nat b"

definition content_range_text :: "nat \<Rightarrow> nat \<Rightarrow> nat \<Rightarrow> rstr" where
  "content_range_text a b len = rs ''bytes '' @ show_nat a @ rs ''-'' @ show_nat b @ rs ''/'' @ show_nat len"

text \<open>A ranged request for the bytes \<open>a\<close> to \<open>b\<close> of a pinned revision, with the check of the answer.\<close>

definition get_range ::
  "'r s3_ops \<Rightarrow> 'r s3_vfs \<Rightarrow> rstr \<Rightarrow> remote_file \<Rightarrow> nat \<Rightarrow> nat \<Rightarrow> nat \<Rightarrow> 'r s3_vfs \<times> byte list vres" where
  "get_range ops s key file a b len =
     and_then (ask_vfs s (\<lambda>r. o_get ops r \<lparr>gq_bucket = s3_bucket s, gq_key = key, gq_range = byte_range a b,
         gq_if_match = rmf_etag file, gq_expected_len = len,
         gq_expected_content_range = content_range_text a b (rmf_len file)\<rparr>)) (\<lambda>s1 response.
       if length (gr_body response) \<noteq> len \<or> gr_content_length response \<noteq> len
         \<or> gr_etag response \<noteq> Some (rmf_etag file)
         \<or> gr_content_range response \<noteq> Some (content_range_text a b (rmf_len file))
       then (s1, Err EIO) else (s1, Ok (gr_body response)))"

definition get_whole ::
  "'r s3_ops \<Rightarrow> 'r s3_vfs \<Rightarrow> rstr \<Rightarrow> remote_file \<Rightarrow> 'r s3_vfs \<times> byte list vres" where
  "get_whole ops s key file =
     (if rmf_len file = 0 then (s, Ok [])
      else get_range ops s key file 0 (rmf_len file - 1) (rmf_len file))"

subsection \<open>Handles\<close>

definition handle_cell :: "'r s3_vfs \<Rightarrow> file_handle \<Rightarrow> nat vres" where
  "handle_cell s h = ok_or EBADF (bm_get (s3_handles s) h)"

definition s3_insert_handle ::
  "'r s3_vfs \<Rightarrow> rstr \<Rightarrow> open_mode \<Rightarrow> staging \<Rightarrow> 'r s3_vfs \<times> file_handle vres" where
  "s3_insert_handle s key mode st =
     (let h = s3_next_handle s in
      attempt s (ok_or EIO (checked_add (s3_next_handle s) 1)) (\<lambda>next.
        (s\<lparr>s3_next_handle := next, s3_handles := bm_insert h (length (s3_cells s)) (s3_handles s),
           s3_cells := s3_cells s @ [\<lparr>hs_key = key, hs_mode = mode, hs_staging = st, hs_released = False\<rparr>]\<rparr>, Ok h)))"

text \<open>The staged body, downloaded at its first use; the state is the filesystem with the buffer.\<close>

definition materialize ::
  "'r s3_ops \<Rightarrow> 'r s3_vfs \<Rightarrow> rstr \<Rightarrow> buffer \<Rightarrow> ('r s3_vfs \<times> buffer) \<times> byte list vres" where
  "materialize ops s key buf =
     (case bf_bytes buf of
        Some bytes \<Rightarrow> ((s, buf), Ok bytes)
      | None \<Rightarrow>
          (case (case bf_source buf of
                   Some file \<Rightarrow>
                     attempt s (check_edit_len s (rmf_len file)) (\<lambda>_. get_whole ops s key file)
                 | None \<Rightarrow> (s, Ok [])) of
             (s1, Inl e) \<Rightarrow> ((s1, buf), Inl e)
           | (s1, Inr bytes) \<Rightarrow> ((s1, buf\<lparr>bf_bytes := Some bytes\<rparr>), Ok bytes)))"

definition resize_staged :: "'r s3_vfs \<Rightarrow> byte list \<Rightarrow> nat \<Rightarrow> byte list vres" where
  "resize_staged s bytes len = obind (check_edit_len s len) (\<lambda>_. vec_resize bytes len)"

definition uploaded_parts :: "stream \<Rightarrow> nat" where
  "uploaded_parts st = (case sm_upload st of None \<Rightarrow> 0 | Some up \<Rightarrow> length (up_parts up))"

definition i32_max :: nat where
  "i32_max = 2147483647"

definition upload_part ::
  "'r s3_ops \<Rightarrow> 'r s3_vfs \<Rightarrow> rstr \<Rightarrow> rstr \<Rightarrow> nat \<Rightarrow> byte list \<Rightarrow> 'r s3_vfs \<times> rstr vres" where
  "upload_part ops s key uid n body =
     ask_vfs s (\<lambda>r. o_upload_part ops r \<lparr>aq_bucket = s3_bucket s, aq_key = key, aq_upload_id = uid,
       aq_part_number = n, aq_body = body\<rparr>)"

text \<open>The upload of a stream, begun when there is none yet.\<close>

definition begin_upload ::
  "'r s3_ops \<Rightarrow> 'r s3_vfs \<Rightarrow> rstr \<Rightarrow> stream \<Rightarrow> ('r s3_vfs \<times> stream) \<times> upload vres" where
  "begin_upload ops s key st =
     (case sm_upload st of
        Some up \<Rightarrow> ((s, st), Ok up)
      | None \<Rightarrow>
          (case ask_vfs s (\<lambda>r. o_create_upload ops r \<lparr>uq_bucket = s3_bucket s, uq_key = key\<rparr>) of
             (s1, Inl e) \<Rightarrow> ((s1, st), Inl e)
           | (s1, Inr uid) \<Rightarrow>
               let up = \<lparr>up_id = uid, up_parts = []\<rparr> in ((s1, st\<lparr>sm_upload := Some up\<rparr>), Ok up)))"

text \<open>One turn of the loop of \<open>flush_parts\<close>, when a whole part is pending.\<close>

definition flush_part ::
  "'r s3_ops \<Rightarrow> 'r s3_vfs \<Rightarrow> rstr \<Rightarrow> stream \<Rightarrow> ('r s3_vfs \<times> stream) \<times> unit vres" where
  "flush_part ops s key st =
     and_then (begin_upload ops s key st) (\<lambda>(s1, st1) up.
       let n = uploaded_parts st; size = part_size s n;
           body = take size (sm_buffer st1); st2 = st1\<lparr>sm_buffer := drop size (sm_buffer st1)\<rparr> in
       if i32_max < n + 1 then ((s1, st2), Err EFBIG)
       else
         (case upload_part ops s1 key (up_id up) (n + 1) body of
            (s2, Inl e) \<Rightarrow> ((s2, st2), Inl e)
          | (s2, Inr etag) \<Rightarrow>
              let st3 = st2\<lparr>sm_upload := Some (up\<lparr>up_parts := up_parts up @ [\<lparr>pt_number = n + 1, pt_etag = etag\<rparr>]\<rparr>)\<rparr> in
              (case checked_add (sm_flushed st3) (length body) of
                 None \<Rightarrow> ((s2, st3), Err EFBIG)
               | Some flushed \<Rightarrow> ((s2, st3\<lparr>sm_flushed := flushed\<rparr>), Ok ()))))"

partial_function (option) flush_parts ::
  "'r s3_ops \<Rightarrow> 'r s3_vfs \<Rightarrow> rstr \<Rightarrow> stream \<Rightarrow> (('r s3_vfs \<times> stream) \<times> unit vres) option" where
  "flush_parts ops s key st =
     (if length (sm_buffer st) < part_size s (uploaded_parts st) then Some ((s, st), Ok ())
      else
        (case flush_part ops s key st of
           ((s1, st1), Inl e) \<Rightarrow> Some ((s1, st1), Inl e)
         | ((s1, st1), Inr _) \<Rightarrow> flush_parts ops s1 key st1))"

partial_function (option) fill_gap ::
  "'r s3_ops \<Rightarrow> 'r s3_vfs \<Rightarrow> rstr \<Rightarrow> stream \<Rightarrow> nat \<Rightarrow> (('r s3_vfs \<times> stream) \<times> unit vres) option" where
  "fill_gap ops s key st target =
     (case stream_end st of
        Inl e \<Rightarrow> Some ((s, st), Inl e)
      | Inr e \<Rightarrow>
          if target \<le> e then Some ((s, st), Ok ())
          else
            let room = max 1 (part_size s (uploaded_parts st) - length (sm_buffer st)) in
            (case vec_resize (sm_buffer st) (length (sm_buffer st) + min room (target - e)) of
               Inl f \<Rightarrow> Some ((s, st), Inl f)
             | Inr bytes \<Rightarrow>
                 (case flush_parts ops s key (st\<lparr>sm_buffer := bytes\<rparr>) of
                    None \<Rightarrow> None
                  | Some ((s1, st1), Inl f) \<Rightarrow> Some ((s1, st1), Inl f)
                  | Some ((s1, st1), Inr _) \<Rightarrow> fill_gap ops s1 key st1 target)))"

declare flush_parts.simps [code] and fill_gap.simps [code]

definition abort_upload :: "'r s3_ops \<Rightarrow> 'r s3_vfs \<Rightarrow> rstr \<Rightarrow> upload \<Rightarrow> 'r s3_vfs \<times> unit vres" where
  "abort_upload ops s key up =
     ask_vfs s (\<lambda>r. o_abort_upload ops r \<lparr>xq_bucket = s3_bucket s, xq_key = key, xq_upload_id = up_id up\<rparr>)"

definition stream_upload :: "staging \<Rightarrow> upload option" where
  "stream_upload stg = (case stg of SStream st \<Rightarrow> sm_upload st | _ \<Rightarrow> None)"

subsection \<open>Landing a handle\<close>

definition finish_stream ::
  "'r s3_ops \<Rightarrow> 'r s3_vfs \<Rightarrow> rstr \<Rightarrow> stream \<Rightarrow> 'r s3_vfs \<times> unit vres" where
  "finish_stream ops s key st =
     (case sm_upload st of
        None \<Rightarrow> put_object ops s key (sm_buffer st) (sm_precondition st)
      | Some up \<Rightarrow>
          and_then
            (if sm_buffer st \<noteq> [] \<or> up_parts up = [] then
               let n = length (up_parts up) + 1 in
               if i32_max < n then (s, Err EFBIG)
               else and_then (upload_part ops s key (up_id up) n (sm_buffer st)) (\<lambda>s1 etag.
                 (s1, Ok (up_parts up @ [\<lparr>pt_number = n, pt_etag = etag\<rparr>])))
             else (s, Ok (up_parts up)))
            (\<lambda>s1 parts.
               case ask s1 (\<lambda>r. o_complete_upload ops r \<lparr>mq_bucket = s3_bucket s1, mq_key = key,
                   mq_upload_id = up_id up, mq_parts = parts,
                   mq_precondition = apply_precondition s1 (sm_precondition st)\<rparr>) of
                 (s2, res) \<Rightarrow> (s2, vfs_result (exclusive_error (sm_precondition st = PAbsent)) res)))"

text \<open>The handle is not looked at again, so only the store changes.\<close>

definition commit :: "'r s3_ops \<Rightarrow> 'r s3_vfs \<Rightarrow> handle_state \<Rightarrow> 'r s3_vfs \<times> unit vres" where
  "commit ops s hs =
     (case hs_staging hs of
        SFailed e \<Rightarrow> (s, Err e)
      | SRemote _ \<Rightarrow> (s, Ok ())
      | SBuffer buf \<Rightarrow>
          if \<not> bf_dirty buf then (s, Ok ())
          else put_object ops s (hs_key hs) (case bf_bytes buf of None \<Rightarrow> [] | Some bytes \<Rightarrow> bytes) (bf_precondition buf)
      | SStream st \<Rightarrow>
          (case finish_stream ops s (hs_key hs) st of
             (s1, Inr v) \<Rightarrow> (s1, Ok v)
           | (s1, Inl e) \<Rightarrow>
               (case sm_upload st of
                  None \<Rightarrow> (s1, Inl e)
                | Some up \<Rightarrow> (fst (abort_upload ops s1 (hs_key hs) up), Inl e))))"

text \<open>A failed stream gives up everything it could publish.\<close>

definition fail_stream :: "'r s3_ops \<Rightarrow> 'r s3_vfs \<Rightarrow> handle_state \<Rightarrow> stream \<Rightarrow> errno \<Rightarrow> 'r s3_vfs \<times> handle_state" where
  "fail_stream ops s hs st e =
     ((case sm_upload st of None \<Rightarrow> s | Some up \<Rightarrow> fst (abort_upload ops s (hs_key hs) up)),
      hs\<lparr>hs_staging := SFailed e\<rparr>)"

subsection \<open>Reading and writing a resolved handle\<close>

definition read_remote ::
  "'r s3_ops \<Rightarrow> 'r s3_vfs \<Rightarrow> rstr \<Rightarrow> remote_file \<Rightarrow> nat \<Rightarrow> nat \<Rightarrow> 'r s3_vfs \<times> byte list vres" where
  "read_remote ops s key file offset n =
     (if n = 0 \<or> rmf_len file \<le> offset then (s, Ok [])
      else
        let requested = min (rmf_len file - offset) n in
        if u64_max < offset + requested then (s, Err EIO)
        else get_range ops s key file offset (offset + requested - 1) requested)"

definition read_resolved ::
  "'r s3_ops \<Rightarrow> 'r s3_vfs \<Rightarrow> nat \<Rightarrow> nat \<Rightarrow> nat \<Rightarrow> 'r s3_vfs \<times> byte list vres" where
  "read_resolved ops s i offset n =
     (let hs = cell_of s i in
      if hs_released hs \<or> \<not> om_read (hs_mode hs) then (s, Err EBADF)
      else case hs_staging hs of
        SRemote file \<Rightarrow> read_remote ops s (hs_key hs) file offset n
      | SBuffer buf \<Rightarrow>
          (case materialize ops s (hs_key hs) buf of
             ((s1, buf1), Inl e) \<Rightarrow> (set_cell s1 i (hs\<lparr>hs_staging := SBuffer buf1\<rparr>), Inl e)
           | ((s1, buf1), Inr bytes) \<Rightarrow>
               (set_cell s1 i (hs\<lparr>hs_staging := SBuffer buf1\<rparr>), Ok (take n (drop offset bytes))))
      | _ \<Rightarrow> (s, Err EBADF))"

text \<open>The closure of \<open>write_resolved\<close> that writes into a stream.\<close>

definition write_stream ::
  "'r s3_ops \<Rightarrow> 'r s3_vfs \<Rightarrow> rstr \<Rightarrow> stream \<Rightarrow> nat \<Rightarrow> byte list \<Rightarrow> (('r s3_vfs \<times> stream) \<times> nat vres) option" where
  "write_stream ops s key st target data =
     follow (fill_gap ops s key st target) (\<lambda>(s1, st1) _.
       let start = target - sm_flushed st1 in
       guard_s3 (s1, st1) (ok_or EINVAL (checked_add start (length data))) (\<lambda>e.
       guard_s3 (s1, st1) (if length (sm_buffer st1) < e then vec_resize (sm_buffer st1) e else Ok (sm_buffer st1)) (\<lambda>bytes.
       follow (flush_parts ops s1 key (st1\<lparr>sm_buffer := take start bytes @ data @ drop e bytes\<rparr>)) (\<lambda>(s2, st2) _.
         Some ((s2, st2), Ok (length data))))))"

text \<open>What happens to the cell of a stream when an operation on it ends.\<close>

definition settle_stream ::
  "'r s3_ops \<Rightarrow> nat \<Rightarrow> handle_state \<Rightarrow> (('r s3_vfs \<times> stream) \<times> 'a vres) option \<Rightarrow> ('r s3_vfs \<times> 'a vres) option" where
  "settle_stream ops i hs out =
     (case out of
        None \<Rightarrow> None
      | Some ((s1, st1), Inl (Errno e)) \<Rightarrow>
          (case fail_stream ops s1 hs st1 e of (s2, hs2) \<Rightarrow> Some (set_cell s2 i hs2, Err e))
      | Some ((s1, st1), Inl Panic) \<Rightarrow> Some (set_cell s1 i (hs\<lparr>hs_staging := SStream st1\<rparr>), Inl Panic)
      | Some ((s1, st1), Inr v) \<Rightarrow> Some (set_cell s1 i (hs\<lparr>hs_staging := SStream st1\<rparr>), Ok v))"

definition write_buffer ::
  "'r s3_ops \<Rightarrow> 'r s3_vfs \<Rightarrow> handle_state \<Rightarrow> buffer \<Rightarrow> nat \<Rightarrow> byte list \<Rightarrow> ('r s3_vfs \<times> buffer) \<times> nat vres" where
  "write_buffer ops s hs buf offset data =
     and_then (materialize ops s (hs_key hs) buf) (\<lambda>(s1, buf1) bytes.
       let start = (if om_append (hs_mode hs) then length bytes else offset) in
       attempt (s1, buf1) (ok_or EINVAL (checked_add start (length data))) (\<lambda>e.
       attempt (s1, buf1) (if length bytes < e then resize_staged s1 bytes e else Ok bytes) (\<lambda>bytes1.
         ((s1, buf1\<lparr>bf_bytes := Some (take start bytes1 @ data @ drop e bytes1), bf_dirty := True\<rparr>), Ok (length data)))))"

definition store_buffer :: "nat \<Rightarrow> handle_state \<Rightarrow> ('r s3_vfs \<times> buffer) \<times> 'a vres \<Rightarrow> 'r s3_vfs \<times> 'a vres" where
  "store_buffer i hs out =
     (case out of ((s1, buf1), r) \<Rightarrow> (set_cell s1 i (hs\<lparr>hs_staging := SBuffer buf1\<rparr>), r))"

definition write_resolved ::
  "'r s3_ops \<Rightarrow> 'r s3_vfs \<Rightarrow> nat \<Rightarrow> nat \<Rightarrow> byte list \<Rightarrow> ('r s3_vfs \<times> nat vres) option" where
  "write_resolved ops s i offset data =
     (let hs = cell_of s i in
      if hs_released hs \<or> \<not> om_write (hs_mode hs) then Some (s, Err EBADF)
      else case hs_staging hs of
        SFailed e \<Rightarrow> Some (s, Err e)
      | stg \<Rightarrow>
          if data = [] then Some (s, Ok 0)
          else case stg of
            SBuffer buf \<Rightarrow> Some (store_buffer i hs (write_buffer ops s hs buf offset data))
          | SStream st \<Rightarrow>
              guard_s3 s (if om_append (hs_mode hs) then stream_end st else Ok offset) (\<lambda>target.
                if target < sm_flushed st then Some (s, Err EFBIG)
                else settle_stream ops i hs (write_stream ops s (hs_key hs) st target data))
          | _ \<Rightarrow> Some (s, Err EBADF))"

definition truncate_resolved ::
  "'r s3_ops \<Rightarrow> 'r s3_vfs \<Rightarrow> nat \<Rightarrow> nat \<Rightarrow> ('r s3_vfs \<times> unit vres) option" where
  "truncate_resolved ops s i len =
     (let hs = cell_of s i in
      if hs_released hs \<or> \<not> om_write (hs_mode hs) then Some (s, Err EINVAL)
      else case hs_staging hs of
        SFailed e \<Rightarrow> Some (s, Err e)
      | SRemote _ \<Rightarrow> Some (s, Err EINVAL)
      | SBuffer buf \<Rightarrow>
          Some (store_buffer i hs
            (and_then (materialize ops s (hs_key hs) buf) (\<lambda>(s1, buf1) bytes.
               attempt (s1, buf1) (resize_staged s1 bytes len) (\<lambda>bytes1.
                 ((s1, buf1\<lparr>bf_bytes := Some bytes1, bf_dirty := True\<rparr>), Ok ())))))
      | SStream st \<Rightarrow>
          if len < sm_flushed st then Some (s, Err EFBIG)
          else
            guard_s3 s (stream_end st) (\<lambda>e.
              if e < len then settle_stream ops i hs (fill_gap ops s (hs_key hs) st len)
              else
                Some (set_cell s i (hs\<lparr>hs_staging :=
                  SStream (st\<lparr>sm_buffer := take (len - sm_flushed st) (sm_buffer st)\<rparr>)\<rparr>), Ok ())))"

end
