(* ===== verification/S3_Api.thy ===== *)
theory S3_Api
  imports S3_Ops
begin

text \<open>
  The \<open>Vfs\<close> implementation of \<open>S3Vfs\<close>: paths are resolved to keys, a read-only filesystem
  refuses a mutation before its first request, and a handle is looked up before it is used.
\<close>

definition delete_object ::
  "'r s3_ops \<Rightarrow> 'r s3_vfs \<Rightarrow> rstr \<Rightarrow> precondition \<Rightarrow> 'r s3_vfs \<times> unit remote" where
  "delete_object ops s key p =
     ask s (\<lambda>r. o_delete ops r \<lparr>dq_bucket = s3_bucket s, dq_key = key, dq_precondition = p\<rparr>)"

definition copy_object ::
  "'r s3_ops \<Rightarrow> 'r s3_vfs \<Rightarrow> rstr \<Rightarrow> rstr \<Rightarrow> precondition \<Rightarrow> 'r s3_vfs \<times> unit vres" where
  "copy_object ops s source key p =
     ask_vfs s (\<lambda>r. o_copy ops r \<lparr>cq_bucket = s3_bucket s, cq_source_key = source, cq_key = key,
       cq_source_if_match = p\<rparr>)"

definition delete_vfs :: "'r s3_ops \<Rightarrow> 'r s3_vfs \<Rightarrow> rstr \<Rightarrow> precondition \<Rightarrow> 'r s3_vfs \<times> unit vres" where
  "delete_vfs ops s key p = (case delete_object ops s key p of (s1, res) \<Rightarrow> (s1, vfs_result into_vfs res))"

definition rename_file ::
  "'r s3_ops \<Rightarrow> 'r s3_vfs \<Rightarrow> rstr list \<Rightarrow> rstr list \<Rightarrow> remote_file \<Rightarrow> 'r s3_vfs \<times> unit vres" where
  "rename_file ops s from to file =
     (let p = apply_precondition s (PMatch (rmf_etag file)) in
      and_then (copy_object ops s (s3_key s from) (s3_key s to) p) (\<lambda>s1 _.
        delete_vfs ops s1 (s3_key s1 from) p))"

text \<open>The number of path components a key adds below a directory.\<close>

definition suffix_depth :: "rstr \<Rightarrow> nat" where
  "suffix_depth suffix = length (filter (\<lambda>part. part \<noteq> []) (split_on slash suffix))"

definition check_depth :: "rstr \<Rightarrow> rstr list \<Rightarrow> rstr \<Rightarrow> unit vres" where
  "check_depth from_prefix to key =
     (case strip_prefix from_prefix key of
        None \<Rightarrow> Err EIO
      | Some suffix \<Rightarrow> if max_path_depth < length to + suffix_depth suffix then Err EINVAL else Ok ())"

fun check_depths :: "rstr \<Rightarrow> rstr list \<Rightarrow> rstr list \<Rightarrow> unit vres" where
  "check_depths from_prefix to [] = Ok ()"
| "check_depths from_prefix to (key # keys) =
     obind (check_depth from_prefix to key) (\<lambda>_. check_depths from_prefix to keys)"

fun copy_keys ::
  "'r s3_ops \<Rightarrow> 'r s3_vfs \<Rightarrow> rstr \<Rightarrow> rstr \<Rightarrow> rstr list \<Rightarrow> 'r s3_vfs \<times> unit vres" where
  "copy_keys ops s from_prefix to_prefix [] = (s, Ok ())"
| "copy_keys ops s from_prefix to_prefix (key # keys) =
     (case strip_prefix from_prefix key of
        None \<Rightarrow> copy_keys ops s from_prefix to_prefix keys
      | Some suffix \<Rightarrow>
          and_then (copy_object ops s key (to_prefix @ suffix) PNone) (\<lambda>s1 _.
            copy_keys ops s1 from_prefix to_prefix keys))"

fun delete_keys :: "'r s3_ops \<Rightarrow> 'r s3_vfs \<Rightarrow> rstr list \<Rightarrow> 'r s3_vfs \<times> unit vres" where
  "delete_keys ops s [] = (s, Ok ())"
| "delete_keys ops s (key # keys) = and_then (delete_vfs ops s key PNone) (\<lambda>s1 _. delete_keys ops s1 keys)"

definition rename_directory ::
  "'r s3_ops \<Rightarrow> 'r s3_vfs \<Rightarrow> rstr list \<Rightarrow> rstr list \<Rightarrow> ('r s3_vfs \<times> unit vres) option" where
  "rename_directory ops s from to =
     (let from_prefix = directory_prefix s from; to_prefix = directory_prefix s to in
      follow (list_recursive ops s from_prefix) (\<lambda>s1 keys.
      guard_s3 s1 (check_depths from_prefix to keys) (\<lambda>_.
      Some (and_then (copy_keys ops s1 from_prefix to_prefix keys) (\<lambda>s2 _. delete_keys ops s2 keys)))))"

subsection \<open>Dropping the filesystem\<close>

fun drop_handles :: "'r s3_ops \<Rightarrow> 'r s3_vfs \<Rightarrow> nat list \<Rightarrow> 'r s3_vfs" where
  "drop_handles ops s [] = s"
| "drop_handles ops s (i # is) =
     (case stream_upload (hs_staging (cell_of s i)) of
        None \<Rightarrow> drop_handles ops s is
      | Some up \<Rightarrow> drop_handles ops (fst (abort_upload ops s (hs_key (cell_of s i)) up)) is)"

definition s3_drop :: "'r s3_ops \<Rightarrow> 'r s3_vfs \<Rightarrow> 'r s3_vfs" where
  "s3_drop ops s = drop_handles ops (s\<lparr>s3_handles := []\<rparr>) (map snd (s3_handles s))"

subsection \<open>Paths\<close>

definition s3_stat :: "'r s3_ops \<Rightarrow> 'r s3_vfs \<Rightarrow> rstr \<Rightarrow> ('r s3_vfs \<times> metadata vres) option" where
  "s3_stat ops s path =
     guard_s3 s (normalize_path path) (\<lambda>components.
     follow (validate_parents ops s components) (\<lambda>s1 _.
     follow (kind_at ops s1 components) (\<lambda>s2 k.
       case k of
         Some (AtDir _) \<Rightarrow> Some (s2, Ok \<lparr>md_type = DirectoryFile, md_len = 0\<rparr>)
       | Some (AtFile file) \<Rightarrow> Some (s2, Ok \<lparr>md_type = RegularFile, md_len = rmf_len file\<rparr>)
       | None \<Rightarrow> Some (s2, Err ENOENT))))"

definition s3_readdir :: "'r s3_ops \<Rightarrow> 'r s3_vfs \<Rightarrow> rstr \<Rightarrow> ('r s3_vfs \<times> dir_entry list vres) option" where
  "s3_readdir ops s path =
     guard_s3 s (normalize_path path) (\<lambda>components.
     follow (validate_parents ops s components) (\<lambda>s1 _.
     follow (scan_directory ops s1 components False) (\<lambda>s2 listing.
       if dl_exists listing then Some (s2, Ok (dl_entries listing))
       else
         (case head_key ops s2 components of
            (s3, Inr _) \<Rightarrow> Some (s3, Err ENOTDIR)
          | (s3, Inl (Errno e)) \<Rightarrow> Some (s3, Err (into_vfs e))
          | (s3, Inl Panic) \<Rightarrow> Some (s3, Inl Panic)))))"

definition s3_mkdir :: "'r s3_ops \<Rightarrow> 'r s3_vfs \<Rightarrow> rstr \<Rightarrow> ('r s3_vfs \<times> unit vres) option" where
  "s3_mkdir ops s path =
     guard_s3 s (normalize_path path) (\<lambda>components.
     guard_s3 s (require_writable s) (\<lambda>_.
     if components = [] then Some (s, Err EEXIST)
     else
       follow (validate_parents ops s components) (\<lambda>s1 _.
       follow (kind_at ops s1 components) (\<lambda>s2 k.
         if k \<noteq> None then Some (s2, Err EEXIST)
         else Some (put_object ops s2 (directory_prefix s2 components) [] PAbsent)))))"

text \<open>What the kinds of source and target of a rename exclude.\<close>

definition rename_conflict :: "kind \<Rightarrow> kind option \<Rightarrow> errno option" where
  "rename_conflict source target =
     (case (source, target) of
        (AtFile _, Some (AtDir _)) \<Rightarrow> Some EISDIR
      | (AtDir _, Some (AtFile _)) \<Rightarrow> Some ENOTDIR
      | (AtDir _, Some (AtDir nonempty)) \<Rightarrow> if nonempty then Some ENOTEMPTY else None
      | _ \<Rightarrow> None)"

definition s3_rename :: "'r s3_ops \<Rightarrow> 'r s3_vfs \<Rightarrow> rstr \<Rightarrow> rstr \<Rightarrow> ('r s3_vfs \<times> unit vres) option" where
  "s3_rename ops s from to =
     guard_s3 s (normalize_path from) (\<lambda>fc.
     guard_s3 s (normalize_path to) (\<lambda>tc.
     guard_s3 s (require_writable s) (\<lambda>_.
     if fc = [] \<or> tc = [] then Some (s, Err EINVAL)
     else
       follow (validate_parents ops s fc) (\<lambda>s1 _.
       follow (kind_at ops s1 fc) (\<lambda>s2 k.
       guard_s3 s2 (ok_or ENOENT k) (\<lambda>source.
         if fc = tc then Some (s2, Ok ())
         else if (case source of AtDir _ \<Rightarrow> take (length fc) tc = fc | AtFile _ \<Rightarrow> False) then Some (s2, Err EINVAL)
         else
           follow (validate_parents ops s2 tc) (\<lambda>s3 _.
           follow (kind_at ops s3 tc) (\<lambda>s4 target.
             case rename_conflict source target of
               Some e \<Rightarrow> Some (s4, Err e)
             | None \<Rightarrow>
                 follow
                   (case source of
                      AtFile file \<Rightarrow> Some (rename_file ops s4 fc tc file)
                    | AtDir _ \<Rightarrow>
                        if \<not> c_directory_rename (s3_config_of s4) then Some (s4, Err EXDEV)
                        else rename_directory ops s4 fc tc)
                   (\<lambda>s5 _. Some (preserve_directory ops s5 (butlast fc)))))))))))"

definition s3_unlink :: "'r s3_ops \<Rightarrow> 'r s3_vfs \<Rightarrow> rstr \<Rightarrow> ('r s3_vfs \<times> unit vres) option" where
  "s3_unlink ops s path =
     guard_s3 s (normalize_path path) (\<lambda>components.
     guard_s3 s (require_writable s) (\<lambda>_.
     if components = [] then Some (s, Err EISDIR)
     else
       follow (validate_parents ops s components) (\<lambda>s1 _.
       follow (kind_at ops s1 components) (\<lambda>s2 k.
         case k of
           Some (AtDir _) \<Rightarrow> Some (s2, Err EISDIR)
         | None \<Rightarrow> Some (s2, Err ENOENT)
         | Some (AtFile file) \<Rightarrow>
             Some (and_then (delete_vfs ops s2 (s3_key s2 components) (apply_precondition s2 (PMatch (rmf_etag file))))
               (\<lambda>s3 _. preserve_directory ops s3 (butlast components)))))))"

definition s3_rmdir :: "'r s3_ops \<Rightarrow> 'r s3_vfs \<Rightarrow> rstr \<Rightarrow> ('r s3_vfs \<times> unit vres) option" where
  "s3_rmdir ops s path =
     guard_s3 s (normalize_path path) (\<lambda>components.
     guard_s3 s (require_writable s) (\<lambda>_.
     if components = [] then Some (s, Err EBUSY)
     else
       follow (validate_parents ops s components) (\<lambda>s1 _.
       follow (kind_at ops s1 components) (\<lambda>s2 k.
         case k of
           Some (AtFile _) \<Rightarrow> Some (s2, Err ENOTDIR)
         | None \<Rightarrow> Some (s2, Err ENOENT)
         | Some (AtDir nonempty) \<Rightarrow>
             if nonempty then Some (s2, Err ENOTEMPTY)
             else
               (case delete_object ops s2 (directory_prefix s2 components) PNone of
                  (s3, Inl (Errno e)) \<Rightarrow>
                    if e = Missing then Some (preserve_directory ops s3 (butlast components))
                    else Some (s3, Err (into_vfs e))
                | (s3, Inl Panic) \<Rightarrow> Some (s3, Inl Panic)
                | (s3, Inr _) \<Rightarrow> Some (preserve_directory ops s3 (butlast components)))))))"

subsection \<open>Handles\<close>

definition creation_precondition :: "open_mode \<Rightarrow> precondition" where
  "creation_precondition mode = (if om_create_new mode then PAbsent else PNone)"

text \<open>The staging \<open>open\<close> chooses for the object it found, if any.\<close>

definition open_staging :: "open_mode \<Rightarrow> remote_file option \<Rightarrow> staging vres" where
  "open_staging mode existing =
     (case existing of
        Some file \<Rightarrow>
          if om_create_new mode then Err EEXIST
          else if \<not> om_write mode then Ok (SRemote file)
          else if om_truncate mode \<and> \<not> om_read mode then Ok (SStream (stream_new (PMatch (rmf_etag file))))
          else if om_truncate mode then
            Ok (SBuffer \<lparr>bf_source = Some file, bf_precondition = PMatch (rmf_etag file), bf_bytes = Some [], bf_dirty = True\<rparr>)
          else
            Ok (SBuffer \<lparr>bf_source = Some file, bf_precondition = PMatch (rmf_etag file), bf_bytes = None, bf_dirty = False\<rparr>)
      | None \<Rightarrow>
          if \<not> om_create mode then Err ENOENT
          else if om_write mode \<and> \<not> om_read mode then Ok (SStream (stream_new (creation_precondition mode)))
          else
            Ok (SBuffer \<lparr>bf_source = None, bf_precondition = creation_precondition mode, bf_bytes = Some [], bf_dirty = True\<rparr>))"

definition s3_open :: "'r s3_ops \<Rightarrow> 'r s3_vfs \<Rightarrow> rstr \<Rightarrow> open_mode \<Rightarrow> ('r s3_vfs \<times> file_handle vres) option" where
  "s3_open ops s path mode =
     guard_s3 s (om_validate mode) (\<lambda>_.
     guard_s3 s (normalize_path path) (\<lambda>components.
     guard_s3 s (if om_write mode \<or> om_create mode then require_writable s else Ok ()) (\<lambda>_.
     if components = [] then Some (s, Err EISDIR)
     else
       follow (validate_parents ops s components) (\<lambda>s1 _.
       follow (kind_at ops s1 components) (\<lambda>s2 k.
         case k of
           Some (AtDir _) \<Rightarrow> Some (s2, Err EISDIR)
         | _ \<Rightarrow>
             guard_s3 s2 (open_staging mode (case k of Some (AtFile file) \<Rightarrow> Some file | _ \<Rightarrow> None)) (\<lambda>st.
               Some (s3_insert_handle s2 (s3_key s2 components) mode st)))))))"

definition s3_read_at :: "'r s3_ops \<Rightarrow> 'r s3_vfs \<Rightarrow> file_handle \<Rightarrow> nat \<Rightarrow> nat \<Rightarrow> 'r s3_vfs \<times> byte list vres" where
  "s3_read_at ops s h offset n = attempt s (handle_cell s h) (\<lambda>i. read_resolved ops s i offset n)"

definition s3_write_at ::
  "'r s3_ops \<Rightarrow> 'r s3_vfs \<Rightarrow> file_handle \<Rightarrow> nat \<Rightarrow> byte list \<Rightarrow> ('r s3_vfs \<times> nat vres) option" where
  "s3_write_at ops s h offset data = guard_s3 s (handle_cell s h) (\<lambda>i. write_resolved ops s i offset data)"

definition s3_truncate :: "'r s3_ops \<Rightarrow> 'r s3_vfs \<Rightarrow> file_handle \<Rightarrow> nat \<Rightarrow> ('r s3_vfs \<times> unit vres) option" where
  "s3_truncate ops s h len = guard_s3 s (handle_cell s h) (\<lambda>i. truncate_resolved ops s i len)"

text \<open>A handle leaves the table and its cell is marked released, for whoever still stages it.\<close>

definition release_handle :: "'r s3_vfs \<Rightarrow> file_handle \<Rightarrow> nat \<Rightarrow> 'r s3_vfs" where
  "release_handle s h i =
     set_cell (s\<lparr>s3_handles := bm_remove h (s3_handles s)\<rparr>) i ((cell_of s i)\<lparr>hs_released := True\<rparr>)"

definition s3_abort :: "'r s3_ops \<Rightarrow> 'r s3_vfs \<Rightarrow> file_handle \<Rightarrow> 'r s3_vfs \<times> unit vres" where
  "s3_abort ops s h =
     attempt s (handle_cell s h) (\<lambda>i.
       let s1 = release_handle s h i; hs = cell_of s i in
       case stream_upload (hs_staging hs) of
         None \<Rightarrow> (s1, Ok ())
       | Some up \<Rightarrow> abort_upload ops s1 (hs_key hs) up)"

text \<open>
  \<open>close\<close> publishes the staged contents. The bytes that \<open>commit\<close> takes out of the released cell
  are never looked at again, so the cell keeps them here.
\<close>

definition s3_close :: "'r s3_ops \<Rightarrow> 'r s3_vfs \<Rightarrow> file_handle \<Rightarrow> 'r s3_vfs \<times> unit vres" where
  "s3_close ops s h =
     attempt s (handle_cell s h) (\<lambda>i. commit ops (release_handle s h i) (cell_of s i))"

subsection \<open>The service side\<close>

definition uri_plain :: "byte \<Rightarrow> bool" where
  "uri_plain b \<longleftrightarrow> (65 \<le> b \<and> b \<le> 90) \<or> (97 \<le> b \<and> b \<le> 122) \<or> (48 \<le> b \<and> b \<le> 57)
     \<or> b = 45 \<or> b = 95 \<or> b = 46 \<or> b = 126 \<or> b = 47"

definition hex_digit :: "nat \<Rightarrow> rchar" where
  "hex_digit n = (if n < 10 then 48 + n else 55 + n)"

definition uri_encode_byte :: "byte \<Rightarrow> rstr" where
  "uri_encode_byte b = (if uri_plain b then [unat b] else [37, hex_digit (unat b div 16), hex_digit (unat b mod 16)])"

definition uri_encode_key :: "rstr \<Rightarrow> rstr" where
  "uri_encode_key key = concat (map uri_encode_byte (utf8 key))"

definition validate_get_headers ::
  "nat \<Rightarrow> rstr \<Rightarrow> rstr \<Rightarrow> nat \<Rightarrow> rstr option \<Rightarrow> rstr option \<Rightarrow> unit remote" where
  "validate_get_headers expected_len expected_etag expected_content_range content_length etag content_range =
     (if content_length \<noteq> expected_len \<or> etag \<noteq> Some expected_etag \<or> content_range \<noteq> Some expected_content_range
      then Err RemoteIo else Ok ())"

definition require_list_truncated :: "bool option \<Rightarrow> bool remote" where
  "require_list_truncated v = (case v of None \<Rightarrow> Err RemoteIo | Some b \<Rightarrow> Ok b)"

definition classify_remote :: "rstr option \<Rightarrow> nat option \<Rightarrow> remote_error" where
  "classify_remote code status =
     (if code \<in> Some ` set (map rs [''NoSuchKey'', ''NoSuchBucket'', ''NotFound'', ''404'']) \<or> status = Some 404 then Missing
      else if code \<in> Some ` set (map rs [''AccessDenied'', ''Unauthorized'', ''InvalidAccessKeyId'', ''SignatureDoesNotMatch''])
        \<or> status = Some 401 \<or> status = Some 403 then Denied
      else if code \<in> Some ` set (map rs [''PreconditionFailed'', ''412'', ''ConditionalRequestConflict'', ''409''])
        \<or> status = Some 409 \<or> status = Some 412 then PreconditionFailed
      else RemoteIo)"

end
