(* ===== verification/S3_Bucket.thy ===== *)
theory S3_Bucket
  imports S3_Api
begin

text \<open>
  The in-memory bucket of the test module of \<open>src/vfs/s3.rs\<close>, a concrete object store with the
  listing, precondition and multipart behaviour of S3. Its counters are natural numbers (the
  source counts in 64 bits).
\<close>

record stored_object =
  so_body :: "byte list"
  so_etag :: rstr

record pending_upload =
  pu_key :: rstr
  pu_parts :: "(nat, byte list) bmap"

record bucket_state =
  bk_objects :: "(rstr, stored_object) bmap"
  bk_uploads :: "(rstr, pending_upload) bmap"
  bk_next_etag :: nat
  bk_next_upload :: nat
  bk_aborted :: "rstr list"
  bk_fail_part :: "nat option"
  bk_mutations :: nat
  bk_completed :: nat
  bk_lists :: "list_request list"
  bk_listed_entries :: nat

definition bucket_new :: bucket_state where
  "bucket_new = \<lparr>bk_objects = [], bk_uploads = [], bk_next_etag = 0, bk_next_upload = 0, bk_aborted = [],
     bk_fail_part = None, bk_mutations = 0, bk_completed = 0, bk_lists = [], bk_listed_entries = 0\<rparr>"

definition mint_etag :: "bucket_state \<Rightarrow> bucket_state \<times> rstr" where
  "mint_etag b = (b\<lparr>bk_next_etag := bk_next_etag b + 1\<rparr>, [34] @ rs ''etag-'' @ show_nat (bk_next_etag b + 1) @ [34])"

definition bucket_store :: "bucket_state \<Rightarrow> rstr \<Rightarrow> byte list \<Rightarrow> bucket_state" where
  "bucket_store b key body =
     (case mint_etag b of (b1, etag) \<Rightarrow>
        b1\<lparr>bk_objects := bm_insert key \<lparr>so_body = body, so_etag = etag\<rparr> (bk_objects b1)\<rparr>)"

definition bucket_seed :: "bucket_state \<Rightarrow> rstr \<Rightarrow> byte list \<Rightarrow> bucket_state" where
  "bucket_seed b key body = bucket_store b key body"

definition bucket_check :: "bucket_state \<Rightarrow> rstr \<Rightarrow> precondition \<Rightarrow> unit remote" where
  "bucket_check b key p =
     (case p of
        PNone \<Rightarrow> Ok ()
      | PAbsent \<Rightarrow> if bm_get (bk_objects b) key \<noteq> None then Err PreconditionFailed else Ok ()
      | PMatch etag \<Rightarrow>
          (case bm_get (bk_objects b) key of
             Some obj \<Rightarrow> if so_etag obj = etag then Ok () else Err PreconditionFailed
           | None \<Rightarrow> Err Missing))"

definition count_mutation :: "bucket_state \<Rightarrow> bucket_state" where
  "count_mutation b = b\<lparr>bk_mutations := bk_mutations b + 1\<rparr>"

definition bucket_head :: "bucket_state \<Rightarrow> head_request \<Rightarrow> bucket_state \<times> remote_file remote" where
  "bucket_head b q =
     (b, obind (ok_or Missing (bm_get (bk_objects b) (hq_key q))) (\<lambda>obj.
        Ok \<lparr>rmf_len = length (so_body obj), rmf_etag = so_etag obj\<rparr>))"

text \<open>\<open>str::find\<close>: where a pattern first occurs.\<close>

fun find_pattern :: "rstr \<Rightarrow> rstr \<Rightarrow> nat option" where
  "find_pattern pat [] = (if pat = [] then Some 0 else None)"
| "find_pattern pat (c # t) =
     (if take (length pat) (c # t) = pat then Some 0
      else case find_pattern pat t of None \<Rightarrow> None | Some i \<Rightarrow> Some (i + 1))"

definition list_entry :: "list_request \<Rightarrow> rstr \<Rightarrow> nat \<Rightarrow> (rstr \<times> nat option) option" where
  "list_entry q key n =
     (case strip_prefix (lq_prefix q) key of
        None \<Rightarrow> None
      | Some relative \<Rightarrow>
          Some (if lq_delimiter q = [] then (key, Some n)
                else case find_pattern (lq_delimiter q) relative of
                  Some index \<Rightarrow> (lq_prefix q @ take index relative @ lq_delimiter q, None)
                | None \<Rightarrow> (key, Some n)))"

fun list_entries :: "list_request \<Rightarrow> (rstr \<times> stored_object) list \<Rightarrow> (rstr, nat option) bmap \<Rightarrow> (rstr, nat option) bmap" where
  "list_entries q [] entries = entries"
| "list_entries q ((key, obj) # objs) entries =
     list_entries q objs
       (case list_entry q key (length (so_body obj)) of
          None \<Rightarrow> entries
        | Some (name, sz) \<Rightarrow>
            if (case lq_continuation q of None \<Rightarrow> True | Some after \<Rightarrow> after < name)
            then bm_insert name sz entries else entries)"

definition bucket_list :: "bucket_state \<Rightarrow> list_request \<Rightarrow> bucket_state \<times> list_result remote" where
  "bucket_list b q =
     (let entries = list_entries q (bk_objects b) [];
          limit = (case lq_max_keys q of None \<Rightarrow> 1000 | Some n \<Rightarrow> n);
          truncated = (limit < length entries);
          page = take limit entries;
          result = \<lparr>lr_objects = [\<lparr>lo_key = k, lo_size = n\<rparr>. (k, Some n) \<leftarrow> page],
            lr_common_prefixes = [k. (k, None) \<leftarrow> page], lr_truncated = truncated,
            lr_next_continuation = (if truncated \<and> page \<noteq> [] then Some (fst (List.last page)) else None)\<rparr> in
      (b\<lparr>bk_listed_entries := bk_listed_entries b + length page, bk_lists := bk_lists b @ [q]\<rparr>, Ok result))"

definition parse_range :: "rstr \<Rightarrow> (nat \<times> nat) option" where
  "parse_range text =
     (case strip_prefix (rs ''bytes='') text of
        None \<Rightarrow> None
      | Some t \<Rightarrow>
          (case split_once 45 t of
             None \<Rightarrow> None
           | Some (a, b) \<Rightarrow>
               (case (parse_unsigned usize_max a, parse_unsigned usize_max b) of
                  (Some x, Some y) \<Rightarrow> Some (x, y)
                | _ \<Rightarrow> None)))"

definition bucket_get :: "bucket_state \<Rightarrow> get_request \<Rightarrow> bucket_state \<times> get_result remote" where
  "bucket_get b q =
     (b, obind (ok_or Missing (bm_get (bk_objects b) (gq_key q))) (\<lambda>obj.
        if so_etag obj \<noteq> gq_if_match q then Err PreconditionFailed
        else obind (ok_or RemoteIo (parse_range (gq_range q))) (\<lambda>(start, e).
          if start \<le> e + 1 \<and> e < length (so_body obj) then
            let body = take (e + 1 - start) (drop start (so_body obj)) in
            Ok \<lparr>gr_body = body, gr_content_length = length body, gr_etag = Some (so_etag obj),
                gr_content_range = Some (content_range_text start e (length (so_body obj)))\<rparr>
          else Err RemoteIo)))"

definition bucket_put :: "bucket_state \<Rightarrow> put_request \<Rightarrow> bucket_state \<times> unit remote" where
  "bucket_put b q =
     (let b1 = count_mutation b in
      attempt b1 (bucket_check b1 (pq_key q) (pq_precondition q)) (\<lambda>_.
        (bucket_store b1 (pq_key q) (pq_body q), Ok ())))"

definition bucket_delete :: "bucket_state \<Rightarrow> delete_request \<Rightarrow> bucket_state \<times> unit remote" where
  "bucket_delete b q =
     (let b1 = count_mutation b in
      attempt b1 (bucket_check b1 (dq_key q) (dq_precondition q)) (\<lambda>_.
        case bm_get (bk_objects b1) (dq_key q) of
          None \<Rightarrow> (b1, Err Missing)
        | Some _ \<Rightarrow> (b1\<lparr>bk_objects := bm_remove (dq_key q) (bk_objects b1)\<rparr>, Ok ())))"

definition bucket_copy :: "bucket_state \<Rightarrow> copy_request \<Rightarrow> bucket_state \<times> unit remote" where
  "bucket_copy b q =
     (let b1 = count_mutation b in
      attempt b1 (bucket_check b1 (cq_source_key q) (cq_source_if_match q)) (\<lambda>_.
      attempt b1 (ok_or Missing (bm_get (bk_objects b1) (cq_source_key q))) (\<lambda>source.
        (bucket_store b1 (cq_key q) (so_body source), Ok ()))))"

definition bucket_create_upload :: "bucket_state \<Rightarrow> create_upload_request \<Rightarrow> bucket_state \<times> rstr remote" where
  "bucket_create_upload b q =
     (let b1 = count_mutation b; n = bk_next_upload b + 1; uid = rs ''upload-'' @ show_nat n in
      (b1\<lparr>bk_next_upload := n, bk_uploads := bm_insert uid \<lparr>pu_key = uq_key q, pu_parts = []\<rparr> (bk_uploads b1)\<rparr>, Ok uid))"

definition bucket_upload_part :: "bucket_state \<Rightarrow> upload_part_request \<Rightarrow> bucket_state \<times> rstr remote" where
  "bucket_upload_part b q =
     (let b1 = count_mutation b in
      if bk_fail_part b = Some (aq_part_number q) then (b1, Err RemoteIo)
      else case bm_get (bk_uploads b1) (aq_upload_id q) of
        None \<Rightarrow> (b1, Err Missing)
      | Some up \<Rightarrow>
          if pu_key up \<noteq> aq_key q then (b1, Inl Panic)
          else
            (b1\<lparr>bk_uploads := bm_insert (aq_upload_id q)
                 (up\<lparr>pu_parts := bm_insert (aq_part_number q) (aq_body q) (pu_parts up)\<rparr>) (bk_uploads b1)\<rparr>,
             Ok ([34] @ rs ''part-'' @ show_nat (aq_part_number q) @ [34])))"

fun assemble :: "(nat, byte list) bmap \<Rightarrow> uploaded_part list \<Rightarrow> byte list remote" where
  "assemble parts [] = Ok []"
| "assemble parts (p # ps) =
     obind (ok_or RemoteIo (bm_get parts (pt_number p))) (\<lambda>body.
     obind (assemble parts ps) (\<lambda>rest. Ok (body @ rest)))"

definition bucket_complete_upload :: "bucket_state \<Rightarrow> complete_upload_request \<Rightarrow> bucket_state \<times> unit remote" where
  "bucket_complete_upload b q =
     (let b1 = (count_mutation b)\<lparr>bk_completed := bk_completed b + 1\<rparr> in
      attempt b1 (ok_or Missing (bm_get (bk_uploads b1) (mq_upload_id q))) (\<lambda>up.
      attempt b1 (bucket_check b1 (mq_key q) (mq_precondition q)) (\<lambda>_.
      if map pt_number (mq_parts q) \<noteq> [1 ..< length (mq_parts q) + 1] then (b1, Inl Panic)
      else attempt b1 (assemble (pu_parts up) (mq_parts q)) (\<lambda>body.
        (bucket_store (b1\<lparr>bk_uploads := bm_remove (mq_upload_id q) (bk_uploads b1)\<rparr>) (mq_key q) body, Ok ())))))"

definition bucket_abort_upload :: "bucket_state \<Rightarrow> abort_upload_request \<Rightarrow> bucket_state \<times> unit remote" where
  "bucket_abort_upload b q =
     (let b1 = (count_mutation b)\<lparr>bk_aborted := bk_aborted b @ [xq_upload_id q]\<rparr> in
      case bm_get (bk_uploads b1) (xq_upload_id q) of
        None \<Rightarrow> (b1, Err Missing)
      | Some _ \<Rightarrow> (b1\<lparr>bk_uploads := bm_remove (xq_upload_id q) (bk_uploads b1)\<rparr>, Ok ()))"

definition bucket_ops :: "bucket_state s3_ops" where
  "bucket_ops = \<lparr>o_head = bucket_head, o_list = bucket_list, o_get = bucket_get, o_put = bucket_put,
     o_delete = bucket_delete, o_copy = bucket_copy, o_create_upload = bucket_create_upload,
     o_upload_part = bucket_upload_part, o_complete_upload = bucket_complete_upload,
     o_abort_upload = bucket_abort_upload\<rparr>"

definition bucket_body :: "bucket_state \<Rightarrow> rstr \<Rightarrow> byte list option" where
  "bucket_body b key = map_option so_body (bm_get (bk_objects b) key)"

end
