(* ===== verification/Mem_Tree.thy ===== *)
theory Mem_Tree
  imports Mem_Vfs
begin

text \<open>
  Measures of the directory tree of \<open>Mem_Vfs\<close> (its inodes, its number of directories, its
  height) and how lookups and updates along a path change them. The loop of
  \<open>subtree_fits\<close> is shown to compute a comparison with the height.
\<close>

lemma size_entry [termination_simp]:
  "e \<in> set es \<Longrightarrow> size (snd e) < Suc (size_list (size_prod (\<lambda>_. 0) size) es)"
  by (induction es) auto

fun tree_weight :: "(inode \<Rightarrow> 'a) \<Rightarrow> 'a \<Rightarrow> node \<Rightarrow> 'a::comm_monoid_add" where
  "tree_weight f d (File i) = f i"
| "tree_weight f d (Directory es) = d + sum_list (map (\<lambda>e. tree_weight f d (snd e)) es)"

abbreviation inodes :: "node \<Rightarrow> inode multiset" where
  "inodes \<equiv> tree_weight (\<lambda>i. {#i#}) {#}"

abbreviation dirs :: "node \<Rightarrow> nat" where
  "dirs \<equiv> tree_weight (\<lambda>_. 0) (Suc 0)"

fun node_wf :: "node \<Rightarrow> bool" where
  "node_wf (File i) = True"
| "node_wf (Directory es) =
     (bm_wf es \<and> list_all (\<lambda>e. valid_name (fst e) \<and> node_wf (snd e)) es)"

fun node_height :: "node \<Rightarrow> nat" where
  "node_height (File i) = 0"
| "node_height (Directory es) = fold max (map (\<lambda>e. Suc (node_height (snd e))) es) 0"

lemma tree_weight_dir: "tree_weight f d (Directory es) = d + bm.weight (tree_weight f d) es"
  by (simp add: bm_weight_list)

lemma node_wf_dir:
  "node_wf (Directory es) \<longleftrightarrow>
   bm_wf es \<and> (\<forall>k n. bm_get es k = Some n \<longrightarrow> valid_name k \<and> node_wf n)"
  using bm_ball [of es "\<lambda>k n. valid_name k \<and> node_wf n"] by (auto simp: list_all_iff)

lemma fold_max_le: "fold max xs a \<le> (h :: nat) \<longleftrightarrow> a \<le> h \<and> (\<forall>x\<in>set xs. x \<le> h)"
  by (induction xs arbitrary: a) auto

lemma node_height_dir_le:
  "bm_wf es \<Longrightarrow> node_height (Directory es) \<le> h \<longleftrightarrow>
   (\<forall>k n. bm_get es k = Some n \<longrightarrow> Suc (node_height n) \<le> h)"
  by (fastforce simp: fold_max_le dest: bm_get_mem bm_mem_get)

declare node_wf.simps(2) [simp del] node_height.simps(2) [simp del] tree_weight.simps(2) [simp del]

lemma node_wf_empty [simp]: "node_wf (Directory [])"
  by (simp add: node_wf_dir)

lemma node_height_empty [simp]: "node_height (Directory []) = 0"
  by (simp add: node_height.simps)

lemma tree_weight_empty [simp]: "tree_weight f d (Directory []) = d"
  by (simp add: tree_weight.simps)

subsection \<open>Lookups\<close>

lemma get_node_append:
  "get_node r (p @ p') = obind (get_node r p) (\<lambda>n. get_node n p')"
  by (induction r p rule: get_node.induct) (auto split: option.splits)

lemma get_node_fault: "get_node r p = Inl f \<Longrightarrow> f = Errno ENOENT \<or> f = Errno ENOTDIR"
  by (induction r p rule: get_node.induct) (auto split: option.splits)

lemma get_node_wf: "node_wf r \<Longrightarrow> get_node r p = Ok n \<Longrightarrow> node_wf n"
  by (induction r p rule: get_node.induct) (auto simp: node_wf_dir split: option.splits)

lemma get_node_valid:
  "node_wf r \<Longrightarrow> get_node r p = Ok n \<Longrightarrow> c \<in> set p \<Longrightarrow> valid_name c"
  by (induction r p rule: get_node.induct) (auto simp: node_wf_dir split: option.splits)

lemma get_node_height:
  "node_wf r \<Longrightarrow> get_node r p = Ok n \<Longrightarrow> length p + node_height n \<le> node_height r"
proof (induction r p rule: get_node.induct)
  case (3 es c cs)
  then obtain m where m: "bm_get es c = Some m" "get_node m cs = Ok n"
    by (auto split: option.splits)
  with 3 have "length cs + node_height n \<le> node_height m"
    by (auto simp: node_wf_dir)
  moreover have "Suc (node_height m) \<le> node_height (Directory es)"
    using m(1) 3(2) node_height_dir_le [of es "node_height (Directory es)"]
    by (auto simp: node_wf_dir)
  ultimately show ?case by simp
qed simp_all

lemma inode_mem_path:
  "node_wf r \<Longrightarrow> get_node r p = Ok (File i) \<Longrightarrow> i \<in># inodes r"
proof (induction r p rule: get_node.induct)
  case (3 es c cs)
  then obtain m where m: "bm_get es c = Some m" "get_node m cs = Ok (File i)"
    by (auto split: option.splits)
  with 3 have "i \<in># inodes m" by (auto simp: node_wf_dir)
  with bm.weight_del [OF m(1), of inodes] show ?case by (simp add: tree_weight_dir)
qed simp_all

subsection \<open>Updates\<close>

lemma set_node_kind: "p \<noteq> [] \<Longrightarrow> node_kind_of (set_node r p m) = node_kind_of r"
  by (cases p; cases r) (auto split: option.splits)

lemma get_set_same: "get_node r p = Ok n \<Longrightarrow> get_node (set_node r p m) p = Ok m"
  by (induction r p m rule: set_node.induct) (auto split: option.splits)

lemma get_set_ext: "get_node r p = Ok n \<Longrightarrow> get_node (set_node r p m) (p @ p') = get_node m p'"
  by (simp add: get_node_append get_set_same)

text \<open>A path that does not pass through the updated position is unaffected.\<close>

lemma get_set_other:
  assumes "get_node r p = Ok n" and "\<not> has_prefix p' p" and "\<not> has_prefix p p'"
  shows "get_node (set_node r p m) p' = get_node r p'"
  using assms
proof (induction r p m arbitrary: p' rule: set_node.induct)
  case (3 es c cs m)
  from 3(3,4) obtain c' cs' where p': "p' = c' # cs'"
    by (cases p') (auto simp: has_prefix_def)
  with 3 show ?case by (auto simp: has_prefix_def split: option.splits)
qed (auto simp: has_prefix_def)

lemma tree_weight_set:
  assumes "node_wf r" and "get_node r p = Ok n"
  shows "tree_weight f d (set_node r p m) + tree_weight f d n =
         tree_weight f d r + tree_weight f d m"
  using assms
proof (induction r p m rule: set_node.induct)
  case (3 es c cs m)
  then obtain k where k: "bm_get es c = Some k" "get_node k cs = Ok n"
    by (auto split: option.splits)
  with 3 have IH: "tree_weight f d (set_node k cs m) + tree_weight f d n =
      tree_weight f d k + tree_weight f d m"
    by (auto simp: node_wf_dir)
  have "bm_wf es" using 3(2) by (simp add: node_wf_dir)
  then have ins: "bm.weight (tree_weight f d) (bm_insert c (set_node k cs m) es) =
      tree_weight f d (set_node k cs m) + bm.weight (tree_weight f d) (bm_remove c es)"
    by (rule bm.weight_put)
  have del: "bm.weight (tree_weight f d) es =
      tree_weight f d k + bm.weight (tree_weight f d) (bm_remove c es)"
    by (rule bm.weight_del [OF k(1)])
  let ?R = "d + bm.weight (tree_weight f d) (bm_remove c es)"
  have "tree_weight f d (set_node (Directory es) (c # cs) m) + tree_weight f d n =
      (tree_weight f d (set_node k cs m) + tree_weight f d n) + ?R"
    by (simp add: k tree_weight_dir ins ac_simps)
  also have "\<dots> = (tree_weight f d k + tree_weight f d m) + ?R"
    by (simp only: IH)
  also have "\<dots> = tree_weight f d (Directory es) + tree_weight f d m"
    by (simp add: tree_weight_dir del ac_simps)
  finally show ?case .
qed (simp_all add: add.commute)

lemma node_wf_insert:
  "node_wf (Directory es) \<Longrightarrow> valid_name c \<Longrightarrow> node_wf n \<Longrightarrow> node_wf (Directory (bm_insert c n es))"
  by (auto simp: node_wf_dir)

lemma node_wf_remove: "node_wf (Directory es) \<Longrightarrow> node_wf (Directory (bm_remove c es))"
  by (auto simp: node_wf_dir split: if_splits)

lemma node_wf_set: "node_wf r \<Longrightarrow> get_node r p = Ok n \<Longrightarrow> node_wf m \<Longrightarrow> node_wf (set_node r p m)"
proof (induction r p m rule: set_node.induct)
  case (3 es c cs m)
  then show ?case
    by (auto split: option.splits intro!: node_wf_insert simp: node_wf_dir)
qed simp_all

lemma node_height_insert_le:
  "bm_wf es \<Longrightarrow> node_height (Directory es) \<le> h \<Longrightarrow> Suc (node_height n) \<le> h \<Longrightarrow>
   node_height (Directory (bm_insert c n es)) \<le> h"
  by (auto simp: node_height_dir_le split: if_splits)

lemma node_height_remove_le:
  "bm_wf es \<Longrightarrow> node_height (Directory es) \<le> h \<Longrightarrow> node_height (Directory (bm_remove c es)) \<le> h"
  by (auto simp: node_height_dir_le split: if_splits)

lemma node_height_set_le:
  assumes "node_wf r" and "get_node r p = Ok n" and "node_height r \<le> h"
    and "length p + node_height m \<le> h"
  shows "node_height (set_node r p m) \<le> h"
  using assms
proof (induction r p m arbitrary: h rule: set_node.induct)
  case (3 es c cs m)
  then obtain k where k: "bm_get es c = Some k" "get_node k cs = Ok n" "node_wf k"
    by (auto simp: node_wf_dir split: option.splits)
  have wf: "bm_wf es" using 3(2) by (simp add: node_wf_dir)
  obtain h' where h': "h = Suc h'" using 3(5) by (cases h) auto
  have "node_height k \<le> h'"
    using 3(4) k(1) h' by (auto simp: node_height_dir_le [OF wf])
  then have "node_height (set_node k cs m) \<le> h'"
    using 3 k h' by auto
  with wf 3(4) h' show ?case by (auto simp: k intro!: node_height_insert_le)
qed simp_all

subsection \<open>The stack loop of subtree fits\<close>

fun levels_fit :: "node list list \<Rightarrow> nat \<Rightarrow> bool" where
  "levels_fit [] a = True"
| "levels_fit (es # stack) a =
     ((\<forall>n\<in>set es. length (es # stack) + node_height n \<le> a) \<and> levels_fit stack a)"

lemma node_height_values:
  "node_height (Directory es) \<le> h \<longleftrightarrow> (\<forall>n\<in>set (bm_values es). Suc (node_height n) \<le> h)"
  by (auto simp: node_height.simps(2) fold_max_le bm_values_def)

lemma subtree_fits_loop_eq: "subtree_fits_loop stack a = levels_fit stack a"
proof (induction stack a rule: subtree_fits_loop.induct)
  case (3 child entries stack a)
  show ?case
  proof (cases child)
    case (File i)
    then show ?thesis using 3 by auto
  next
    case (Directory children)
    have "(\<forall>n\<in>set (bm_values children). Suc (Suc (length stack)) + node_height n \<le> a) \<longleftrightarrow>
        Suc (length stack) + node_height (Directory children) \<le> a"
      if "Suc (length stack) \<le> a"
    proof -
      have "Suc (length stack) + node_height (Directory children) \<le> a \<longleftrightarrow>
          node_height (Directory children) \<le> a - Suc (length stack)"
        using that by linarith
      also have "\<dots> \<longleftrightarrow> (\<forall>n\<in>set (bm_values children). Suc (node_height n) \<le> a - Suc (length stack))"
        by (rule node_height_values)
      finally show ?thesis using that by fastforce
    qed
    then show ?thesis using 3 Directory by auto
  qed
qed simp_all

lemma subtree_fits_eq: "subtree_fits n a \<longleftrightarrow> node_height n \<le> a"
  by (cases n) (auto simp: subtree_fits_def subtree_fits_loop_eq node_height_values)

subsection \<open>Entries of a parent directory\<close>

lemma parent_dir_mut_Ok:
  "parent_dir_mut r path = Ok (es, c) \<longleftrightarrow>
   path \<noteq> [] \<and> get_node r (butlast path) = Ok (Directory es) \<and> c = last path"
  by (cases "get_node r (butlast path)") (auto simp: parent_dir_mut_def split: node.splits)

lemma ensure_parent_is_dir_Ok:
  "ensure_parent_is_dir r path = Ok () \<longleftrightarrow>
   path \<noteq> [] \<and> (\<exists>es. get_node r (butlast path) = Ok (Directory es))"
  by (cases "get_node r (butlast path)") (auto simp: ensure_parent_is_dir_def split: node.splits)

lemma get_node_last:
  assumes "path \<noteq> []" and "get_node r (butlast path) = Ok (Directory es)"
  shows "get_node r path = ok_or ENOENT (bm_get es (last path))"
proof -
  have "get_node r path = get_node r (butlast path @ [last path])" using assms(1) by simp
  also have "\<dots> = get_node (Directory es) [last path]"
    by (simp add: get_node_append assms(2) del: append_butlast_last_id get_node.simps)
  finally show ?thesis by (simp add: ok_or_def cong: option.case_cong)
qed

lemma get_node_parent:
  assumes "path \<noteq> []" and "get_node r path = Ok n"
  shows "\<exists>es. get_node r (butlast path) = Ok (Directory es) \<and> bm_get es (last path) = Some n"
proof -
  have "get_node r (butlast path @ [last path]) = Ok n" using assms by simp
  then obtain m where m: "get_node r (butlast path) = Ok m" "get_node m [last path] = Ok n"
    by (auto simp: get_node_append obind_eq_Ok simp del: append_butlast_last_id)
  then show ?thesis by (cases m) (auto split: option.splits)
qed

definition entry_weight :: "(inode \<Rightarrow> 'a) \<Rightarrow> 'a \<Rightarrow> (rstr, node) bmap \<Rightarrow> rstr \<Rightarrow> 'a::comm_monoid_add" where
  "entry_weight f d es c = (case bm_get es c of None \<Rightarrow> 0 | Some n \<Rightarrow> tree_weight f d n)"

lemma entry_weight_split:
  "tree_weight f d (Directory es) = entry_weight f d es c + tree_weight f d (Directory (bm_remove c es))"
proof (cases "bm_get es c")
  case None
  then show ?thesis by (simp add: entry_weight_def bm_remove_absent)
next
  case (Some n)
  then show ?thesis
    using bm.weight_del [OF Some, of "tree_weight f d"]
    by (simp add: entry_weight_def tree_weight_dir ac_simps)
qed

lemma tree_weight_put_entry:
  fixes f :: "inode \<Rightarrow> 'a::cancel_comm_monoid_add"
  assumes wf: "node_wf r" and get: "get_node r p = Ok (Directory es)"
  shows "tree_weight f d (set_node r p (Directory (bm_insert c n es))) + entry_weight f d es c =
         tree_weight f d r + tree_weight f d n"
proof -
  let ?rest = "tree_weight f d (Directory (bm_remove c es))"
  have "bm_wf es" using get_node_wf [OF wf get] by (simp add: node_wf_dir)
  then have ins: "tree_weight f d (Directory (bm_insert c n es)) = tree_weight f d n + ?rest"
    by (simp add: tree_weight_dir bm.weight_put ac_simps)
  have "tree_weight f d (set_node r p (Directory (bm_insert c n es))) + (entry_weight f d es c + ?rest) =
      tree_weight f d r + (tree_weight f d n + ?rest)"
    using tree_weight_set [OF wf get, of f d "Directory (bm_insert c n es)"]
    by (simp only: ins entry_weight_split [of f d es c])
  then show ?thesis by (simp only: add.assoc [symmetric] add_right_cancel)
qed

lemma tree_weight_del_entry:
  fixes f :: "inode \<Rightarrow> 'a::cancel_comm_monoid_add"
  assumes wf: "node_wf r" and get: "get_node r p = Ok (Directory es)"
  shows "tree_weight f d (set_node r p (Directory (bm_remove c es))) + entry_weight f d es c =
         tree_weight f d r"
proof -
  let ?rest = "tree_weight f d (Directory (bm_remove c es))"
  have "tree_weight f d (set_node r p (Directory (bm_remove c es))) + (entry_weight f d es c + ?rest) =
      tree_weight f d r + ?rest"
    using tree_weight_set [OF wf get, of f d "Directory (bm_remove c es)"]
    by (simp only: entry_weight_split [of f d es c])
  then show ?thesis by (simp only: add.assoc [symmetric] add_right_cancel)
qed

lemma has_prefix_iff: "has_prefix p q \<longleftrightarrow> (\<exists>x. p = q @ x)"
  unfolding has_prefix_def by (metis append_eq_conv_conj append_take_drop_id le_add1 length_append)

text \<open>Lookups after an entry of the parent directory changed.\<close>

lemma get_entry_other:
  assumes ne: "path \<noteq> []" and get: "get_node r (butlast path) = Ok (Directory es)"
    and eq: "\<And>c. c \<noteq> last path \<Longrightarrow> bm_get es' c = bm_get es c"
    and off: "\<not> has_prefix p path" "\<not> has_prefix path p"
  shows "get_node (set_node r (butlast path) (Directory es')) p = get_node r p"
proof (cases "has_prefix p (butlast path)")
  case True
  then obtain x where p: "p = butlast path @ x" by (auto simp: has_prefix_iff)
  have path: "path = butlast path @ [last path]" using ne by simp
  have "x \<noteq> []" using off(2) p path by (metis append_Nil2 has_prefix_iff)
  then obtain c cs where x: "x = c # cs" by (cases x) auto
  have "c \<noteq> last path"
    using off(1) p x path by (metis append.assoc append_Cons append_Nil has_prefix_iff)
  then have "get_node (Directory es') x = get_node (Directory es) x"
    by (simp add: x eq)
  then show ?thesis
    unfolding p using get by (simp only: get_set_ext [OF get]) (simp add: get_node_append)
next
  case False
  have "\<not> has_prefix (butlast path) p"
    using off(2) ne by (metis append_butlast_last_id append.assoc has_prefix_iff)
  with False get show ?thesis by (intro get_set_other) auto
qed

lemma get_entry_prefix:
  assumes ne: "path \<noteq> []" and get: "get_node r (butlast path) = Ok (Directory es)"
    and pre: "has_prefix path p" and neq: "p \<noteq> path" and wf: "node_wf r"
  shows "\<exists>es1 es2. get_node r p = Ok (Directory es1)
     \<and> get_node (set_node r (butlast path) (Directory es')) p = Ok (Directory es2)"
proof -
  obtain x where x: "path = p @ x" "x \<noteq> []" using pre neq by (auto simp: has_prefix_iff)
  then have b: "butlast path = p @ butlast x" by (simp add: butlast_append)
  then obtain n where n: "get_node r p = Ok n" "get_node n (butlast x) = Ok (Directory es)"
    using get by (auto simp: get_node_append obind_eq_Ok)
  obtain es1 where es1: "n = Directory es1"
    using n(2) by (cases n; cases "butlast x") auto
  obtain m where m: "get_node (set_node r (butlast path) (Directory es')) p = Ok m"
      "get_node m (butlast x) = Ok (Directory es')"
    using get_set_same [OF get, of "Directory es'"] unfolding b
    by (auto simp: get_node_append obind_eq_Ok)
  obtain es2 where "m = Directory es2"
    using m(2) by (cases m; cases "butlast x") auto
  with n es1 m show ?thesis by blast
qed

lemma get_put_entry:
  assumes "path \<noteq> []" and "get_node r (butlast path) = Ok (Directory es)"
  shows "get_node (set_node r (butlast path) (Directory (bm_insert (last path) n es))) (path @ x)
         = get_node n x"
proof -
  have "get_node (set_node r (butlast path) (Directory (bm_insert (last path) n es)))
      (butlast path @ (last path # x)) = get_node n x"
    by (simp only: get_set_ext [OF assms(2)]) simp
  moreover have "butlast path @ (last path # x) = path @ x" using assms(1) by simp
  ultimately show ?thesis by (simp only:)
qed

lemma get_del_entry:
  assumes "path \<noteq> []" and "get_node r (butlast path) = Ok (Directory es)" and "bm_wf es"
  shows "get_node (set_node r (butlast path) (Directory (bm_remove (last path) es))) (path @ x)
         = Err ENOENT"
proof -
  have "get_node (set_node r (butlast path) (Directory (bm_remove (last path) es)))
      (butlast path @ (last path # x)) = Err ENOENT"
    by (simp only: get_set_ext [OF assms(2)]) (simp add: assms(3))
  moreover have "butlast path @ (last path # x) = path @ x" using assms(1) by simp
  ultimately show ?thesis by (simp only:)
qed

lemma set_entry_kind:
  "get_node r p = Ok (Directory es) \<Longrightarrow> node_kind_of r = KDirectory \<Longrightarrow>
   node_kind_of (set_node r p (Directory es')) = KDirectory"
  by (cases "p = []") (simp_all add: set_node_kind)

end
