(* ===== verification/Mem_Inv.thy ===== *)
theory Mem_Inv
  imports Mem_Tree
begin

text \<open>
  The invariant of the in-memory filesystem: the tree is well formed and no deeper than a
  path can address, link counts and open counts agree with the tree and the handle table,
  every stored file is referenced, the usage counters are exact and within the quota.
  The invariant is stated with what an operation has taken out of the tree and not yet
  released (links \<open>D\<close>, directories \<open>K\<close>, files \<open>X\<close> that may be unreferenced), so that
  \<open>remove_tree\<close> and \<open>release_file_if_unreferenced\<close> have an invariant of their own.
\<close>

definition opens :: "mem_state \<Rightarrow> inode \<Rightarrow> nat" where
  "opens s i = bm.weight (\<lambda>h. of_bool (h_inode h = i)) (handles s)"

definition tree_ok :: "mem_state \<Rightarrow> bool" where
  "tree_ok s \<longleftrightarrow> node_wf (root s) \<and> node_kind_of (root s) = KDirectory
     \<and> node_height (root s) \<le> max_path_depth"

definition links_ok :: "mem_state \<Rightarrow> inode multiset \<Rightarrow> bool" where
  "links_ok s D \<longleftrightarrow> (\<forall>i. count (inodes (root s) + D) i =
     (case bm_get (files s) i of None \<Rightarrow> 0 | Some f \<Rightarrow> fn_links f))"

definition file_ok :: "vfs_quota \<Rightarrow> mem_state \<Rightarrow> inode \<Rightarrow> file_node \<Rightarrow> bool" where
  "file_ok q s i f \<longleftrightarrow> fn_links f \<le> 1 \<and> fn_open f = opens s i \<and> i < next_inode s
     \<and> length (fn_data f) \<le> max_file_size q \<and> length (fn_data f) \<le> isize_max"

definition table_ok :: "vfs_quota \<Rightarrow> mem_state \<Rightarrow> bool" where
  "table_ok q s \<longleftrightarrow> bm_wf (files s) \<and> bm_wf (handles s)
     \<and> (\<forall>i f. bm_get (files s) i = Some f \<longrightarrow> file_ok q s i f)
     \<and> (\<forall>h d. bm_get (handles s) h = Some d \<longrightarrow>
          h < next_handle s \<and> bm_get (files s) (h_inode d) \<noteq> None)"

definition live_ok :: "mem_state \<Rightarrow> inode set \<Rightarrow> bool" where
  "live_ok s X \<longleftrightarrow> (\<forall>i f. bm_get (files s) i = Some f \<longrightarrow> i \<notin> X \<longrightarrow>
     0 < fn_links f \<or> 0 < fn_open f)"

definition usage_ok :: "vfs_quota \<Rightarrow> mem_state \<Rightarrow> nat \<Rightarrow> bool" where
  "usage_ok q s K \<longleftrightarrow> used_bytes s = bm.weight (\<lambda>f. length (fn_data f)) (files s)
     \<and> Suc (file_count s) = dirs (root s) + K + length (files s)
     \<and> used_bytes s \<le> max_bytes q \<and> file_count s \<le> max_files q"

definition mem_inv_p ::
  "vfs_quota \<Rightarrow> mem_state \<Rightarrow> inode multiset \<Rightarrow> nat \<Rightarrow> inode set \<Rightarrow> bool" where
  "mem_inv_p q s D K X \<longleftrightarrow>
     tree_ok s \<and> links_ok s D \<and> table_ok q s \<and> live_ok s X \<and> usage_ok q s K"

definition mem_inv :: "vfs_quota \<Rightarrow> mem_state \<Rightarrow> bool" where
  "mem_inv q s \<longleftrightarrow> mem_inv_p q s {#} 0 {}"

text \<open>The fields of a quota are \<open>u64\<close> values.\<close>

definition quota_ok :: "vfs_quota \<Rightarrow> bool" where
  "quota_ok q \<longleftrightarrow> max_bytes q \<le> u64_max \<and> max_files q \<le> u64_max \<and> max_file_size q \<le> u64_max"

lemmas mem_inv_parts = mem_inv_p_def tree_ok_def links_ok_def table_ok_def live_ok_def usage_ok_def
  file_ok_def

lemma isize_le_u64: "isize_max \<le> u64_max"
  by (simp add: isize_max_def u64_max_def)

lemma opens_0_no_handle:
  "opens s i = 0 \<Longrightarrow> bm_get (handles s) h = Some d \<Longrightarrow> h_inode d \<noteq> i"
  using bm.weight_ge [of "handles s" h d "\<lambda>h. of_bool (h_inode h = i)"]
  by (auto simp: opens_def)

lemma opens_upd [simp]:
  "opens (s\<lparr>root := r\<rparr>) i = opens s i" "opens (s\<lparr>files := fs\<rparr>) i = opens s i"
  "opens (s\<lparr>used_bytes := u\<rparr>) i = opens s i" "opens (s\<lparr>file_count := n\<rparr>) i = opens s i"
  "opens (s\<lparr>next_inode := ni\<rparr>) i = opens s i" "opens (s\<lparr>next_handle := nh\<rparr>) i = opens s i"
  by (simp_all add: opens_def)

text \<open>Each part of the invariant reads only some of the fields.\<close>

lemma part_frames [simp]:
  "tree_ok (s\<lparr>files := fs\<rparr>) = tree_ok s" "tree_ok (s\<lparr>handles := hs\<rparr>) = tree_ok s"
  "tree_ok (s\<lparr>used_bytes := u\<rparr>) = tree_ok s" "tree_ok (s\<lparr>file_count := n\<rparr>) = tree_ok s"
  "tree_ok (s\<lparr>next_inode := ni\<rparr>) = tree_ok s" "tree_ok (s\<lparr>next_handle := nh\<rparr>) = tree_ok s"
  "links_ok (s\<lparr>handles := hs\<rparr>) D = links_ok s D" "links_ok (s\<lparr>used_bytes := u\<rparr>) D = links_ok s D"
  "links_ok (s\<lparr>file_count := n\<rparr>) D = links_ok s D" "links_ok (s\<lparr>next_inode := ni\<rparr>) D = links_ok s D"
  "links_ok (s\<lparr>next_handle := nh\<rparr>) D = links_ok s D"
  "table_ok q (s\<lparr>root := r\<rparr>) = table_ok q s" "table_ok q (s\<lparr>used_bytes := u\<rparr>) = table_ok q s"
  "table_ok q (s\<lparr>file_count := n\<rparr>) = table_ok q s"
  "live_ok (s\<lparr>root := r\<rparr>) X = live_ok s X" "live_ok (s\<lparr>handles := hs\<rparr>) X = live_ok s X"
  "live_ok (s\<lparr>used_bytes := u\<rparr>) X = live_ok s X" "live_ok (s\<lparr>file_count := n\<rparr>) X = live_ok s X"
  "live_ok (s\<lparr>next_inode := ni\<rparr>) X = live_ok s X" "live_ok (s\<lparr>next_handle := nh\<rparr>) X = live_ok s X"
  "usage_ok q (s\<lparr>handles := hs\<rparr>) K = usage_ok q s K"
  "usage_ok q (s\<lparr>next_inode := ni\<rparr>) K = usage_ok q s K"
  "usage_ok q (s\<lparr>next_handle := nh\<rparr>) K = usage_ok q s K"
  by (simp_all add: tree_ok_def links_ok_def table_ok_def live_ok_def usage_ok_def file_ok_def)

lemma mem_inv_init: "mem_inv q state_default"
  by (simp add: mem_inv_def mem_inv_parts state_default_def)

lemma dirs_root_pos: "node_kind_of r = KDirectory \<Longrightarrow> 1 \<le> dirs r"
  by (cases r) (simp_all add: tree_weight.simps)

lemma inv_dest:
  assumes "mem_inv_p q s D K X"
  shows inv_files_wf: "bm_wf (files s)" and inv_handles_wf: "bm_wf (handles s)"
    and inv_tree_wf: "node_wf (root s)" and inv_tree_dir: "node_kind_of (root s) = KDirectory"
    and inv_tree_height: "node_height (root s) \<le> max_path_depth"
    and inv_usage: "usage_ok q s K" and inv_table: "table_ok q s"
    and inv_links: "count (inodes (root s) + D) i =
       (case bm_get (files s) i of None \<Rightarrow> 0 | Some f \<Rightarrow> fn_links f)"
    and inv_file: "bm_get (files s) i = Some f \<Longrightarrow> file_ok q s i f"
    and inv_handle: "bm_get (handles s) h = Some d \<Longrightarrow>
       h < next_handle s \<and> (\<exists>f. bm_get (files s) (h_inode d) = Some f)"
  using assms unfolding mem_inv_p_def tree_ok_def links_ok_def table_ok_def by auto

subsection \<open>Replacing the tree\<close>

lemma inv_set_root:
  assumes "mem_inv_p q s D K X"
    and "node_wf r" "node_kind_of r = KDirectory" "node_height r \<le> max_path_depth"
    and "inodes r + D' = inodes (root s) + D" "dirs r + K' = dirs (root s) + K"
  shows "mem_inv_p q (s\<lparr>root := r\<rparr>) D' K' X"
proof -
  have "tree_ok (s\<lparr>root := r\<rparr>)" using assms(2-4) by (simp add: tree_ok_def)
  moreover have "links_ok (s\<lparr>root := r\<rparr>) D'"
    using assms(1,5) by (simp add: mem_inv_p_def links_ok_def flip: count_union)
  moreover have "usage_ok q (s\<lparr>root := r\<rparr>) K'"
    using assms(1,6) by (simp add: mem_inv_p_def usage_ok_def)
  ultimately show ?thesis using assms(1) by (simp add: mem_inv_p_def)
qed

subsection \<open>Releasing a file\<close>

lemma inv_release:
  assumes inv: "mem_inv_p q s D K {i}"
  shows "\<exists>s'. release_file_if_unreferenced s i = (s', Ok ()) \<and> mem_inv_p q s' D K {}
     \<and> root s' = root s \<and> handles s' = handles s \<and> next_inode s' = next_inode s
     \<and> next_handle s' = next_handle s
     \<and> (\<forall>j. j \<noteq> i \<longrightarrow> bm_get (files s') j = bm_get (files s) j)
     \<and> bm_get (files s') i = (case bm_get (files s) i of None \<Rightarrow> None
         | Some f \<Rightarrow> if 0 < fn_links f \<or> 0 < fn_open f then Some f else None)"
proof (cases "bm_get (files s) i")
  case None
  have "live_ok s {}"
    using inv None unfolding mem_inv_p_def live_ok_def by force
  with inv None show ?thesis
    by (simp add: release_file_if_unreferenced_def mem_inv_p_def)
next
  case (Some f)
  show ?thesis
  proof (cases "0 < fn_links f \<or> 0 < fn_open f")
    case True
    have "live_ok s {}"
      using inv Some True unfolding mem_inv_p_def live_ok_def
      by (metis empty_iff option.inject singletonD)
    with inv Some True show ?thesis
      by (simp add: release_file_if_unreferenced_def mem_inv_p_def)
  next
    case False
    let ?s' = "s\<lparr>files := bm_remove i (files s), used_bytes := used_bytes s - length (fn_data f),
        file_count := file_count s - 1\<rparr>"
    have fwf: "bm_wf (files s)" by (rule inv_files_wf [OF inv])
    have fok: "file_ok q s i f" by (rule inv_file [OF inv Some])
    have wt: "bm.weight (\<lambda>f. length (fn_data f)) (files s) =
        length (fn_data f) + bm.weight (\<lambda>f. length (fn_data f)) (bm_remove i (files s))"
      by (rule bm.weight_del [OF Some])
    have ln: "length (files s) = Suc (length (bm_remove i (files s)))"
      by (rule length_bm_remove [OF Some])
    have d1: "1 \<le> dirs (root s)"
      by (rule dirs_root_pos) (rule inv_tree_dir [OF inv])
    have use: "usage_ok q s K" by (rule inv_usage [OF inv])
    have le: "length (fn_data f) \<le> u64_max"
      using fok isize_le_u64 by (simp add: file_ok_def)
    have u1: "length (fn_data f) \<le> used_bytes s" using use wt by (simp add: usage_ok_def)
    have n1: "1 \<le> file_count s" using use ln d1 by (simp add: usage_ok_def)
    have noh: "\<And>h d. bm_get (handles s) h = Some d \<Longrightarrow> h_inode d \<noteq> i"
      using opens_0_no_handle [of s i] False fok by (auto simp: file_ok_def)
    have eq: "release_file_if_unreferenced s i = (?s', Ok ())"
      using False Some le u1 n1
      by (simp add: release_file_if_unreferenced_def Let_def try_u64_def usub_def)
    have "usage_ok q ?s' K"
      using use wt ln d1 by (auto simp: usage_ok_def)
    moreover have "links_ok ?s' D"
      using inv False Some fwf by (auto simp: mem_inv_p_def links_ok_def)
    moreover have "table_ok q ?s'"
      using inv fwf noh unfolding mem_inv_p_def table_ok_def by (auto simp: file_ok_def opens_def)
    moreover have "live_ok ?s' {}"
      using inv fwf by (auto simp: mem_inv_p_def live_ok_def split: if_splits)
    ultimately have "mem_inv_p q ?s' D K {}"
      using inv by (simp add: mem_inv_p_def tree_ok_def)
    then show ?thesis
      using eq Some False fwf by (intro exI [of _ ?s']) simp
  qed
qed

lemma inv_unlink_file:
  assumes inv: "mem_inv_p q s (add_mset i D) K {}"
  shows "\<exists>s'. remove_tree s (File i) = (s', Ok ()) \<and> mem_inv_p q s' D K {}
     \<and> root s' = root s \<and> handles s' = handles s \<and> next_inode s' = next_inode s
     \<and> next_handle s' = next_handle s
     \<and> (\<forall>j. j \<noteq> i \<longrightarrow> bm_get (files s') j = bm_get (files s) j)
     \<and> (\<forall>f. bm_get (files s) i = Some f \<longrightarrow> bm_get (files s') i =
          (if 0 < fn_open f then Some (f\<lparr>fn_links := fn_links f - 1\<rparr>) else None))"
proof -
  have links: "\<And>j. count (inodes (root s) + add_mset i D) j =
      (case bm_get (files s) j of None \<Rightarrow> 0 | Some f \<Rightarrow> fn_links f)"
    by (rule inv_links [OF inv])
  obtain f where f: "bm_get (files s) i = Some f" "0 < fn_links f"
    using links [of i] by (cases "bm_get (files s) i") auto
  have l1: "fn_links f = 1" using inv_file [OF inv f(1)] f(2) by (simp add: file_ok_def)
  let ?s1 = "s\<lparr>files := bm_insert i (f\<lparr>fn_links := fn_links f - 1\<rparr>) (files s)\<rparr>"
  have fwf: "bm_wf (files s)" by (rule inv_files_wf [OF inv])
  have "usage_ok q ?s1 K"
    using inv fwf f bm.weight_put_same [OF fwf f(1), of "\<lambda>f. length (fn_data f)"
        "f\<lparr>fn_links := fn_links f - 1\<rparr>"]
    by (simp add: mem_inv_p_def usage_ok_def length_bm_insert_old [OF fwf f(1)])
  moreover have "links_ok ?s1 D"
    unfolding links_ok_def
  proof
    fix j
    show "count (inodes (root ?s1) + D) j =
        (case bm_get (files ?s1) j of None \<Rightarrow> 0 | Some f \<Rightarrow> fn_links f)"
      using f links [of j] by (cases "j = i") auto
  qed
  moreover have "table_ok q ?s1"
    using inv fwf f unfolding mem_inv_p_def table_ok_def by (auto simp: file_ok_def)
  moreover have "live_ok ?s1 {i}"
    using inv by (auto simp: mem_inv_p_def live_ok_def split: if_splits)
  ultimately have "mem_inv_p q ?s1 D K {i}"
    using inv by (simp add: mem_inv_p_def tree_ok_def)
  from inv_release [OF this] show ?thesis
    using f l1 by (auto simp: usub_def)
qed

lemma inv_remove_empty_dir:
  assumes inv: "mem_inv_p q s D (Suc K) {}"
  shows "remove_tree s (Directory []) = (s\<lparr>file_count := file_count s - 1\<rparr>, Ok ())
     \<and> mem_inv_p q (s\<lparr>file_count := file_count s - 1\<rparr>) D K {}"
proof -
  have "1 \<le> dirs (root s)"
    by (rule dirs_root_pos) (rule inv_tree_dir [OF inv])
  then have "1 \<le> file_count s" and "usage_ok q (s\<lparr>file_count := file_count s - 1\<rparr>) K"
    using inv by (auto simp: mem_inv_p_def usage_ok_def)
  then show ?thesis
    using inv by (simp add: usub_def mem_inv_p_def)
qed

end
