(* ===== verification/Mem_Ops.thy ===== *)
theory Mem_Ops
  imports Mem_Inv
begin

text \<open>
  Every operation of the in-memory filesystem meets one contract, \<open>op_ok\<close>: success keeps
  the invariant, an errno leaves the state exactly as it was, and there is no panic.
\<close>

definition op_ok :: "vfs_quota \<Rightarrow> mem_state \<Rightarrow> mem_state \<times> 'a vres \<Rightarrow> bool" where
  "op_ok q s out = (case out of
       (s', Inr _) \<Rightarrow> mem_inv q s'
     | (s', Inl f) \<Rightarrow> (case f of Errno _ \<Rightarrow> s' = s | Panic \<Rightarrow> False))"

lemma op_ok_simps [simp]:
  "op_ok q s (s', Inr v) = mem_inv q s'" "op_ok q s (s', Err e) = (s' = s)"
  "\<not> op_ok q s (s', Inl Panic)"
  by (simp_all add: op_ok_def)

lemma op_ok_attempt:
  "no_panic r \<Longrightarrow> (\<And>v. r = Inr v \<Longrightarrow> op_ok q s (k v)) \<Longrightarrow> op_ok q s (attempt s r k)"
proof (cases r)
  case (Inl f)
  then show "no_panic r \<Longrightarrow> op_ok q s (attempt s r k)" by (cases f) simp_all
qed simp

lemma op_ok_if:
  "(c \<Longrightarrow> op_ok q s a) \<Longrightarrow> (\<not> c \<Longrightarrow> op_ok q s b) \<Longrightarrow> op_ok q s (if c then a else b)"
  by simp

lemma op_ok_prod: "(\<And>a b. x = (a, b) \<Longrightarrow> op_ok q s (k a b)) \<Longrightarrow> op_ok q s (case x of (a, b) \<Rightarrow> k a b)"
  by (cases x) simp

lemmas op_ok_intros = op_ok_attempt op_ok_if op_ok_prod

lemma op_okD:
  "op_ok q s (s', Inr v) \<Longrightarrow> mem_inv q s'"
  "op_ok q s (s', Inl f) \<Longrightarrow> s' = s \<and> (\<exists>e. f = Errno e)"
  by (auto simp: op_ok_def split: fault.splits)

subsection \<open>The fallible helpers do not panic\<close>

lemma no_panic_normalize [simp]: "no_panic (normalize_path p)"
  using normalize_path_errno [of p] by (auto simp: no_panic_def)

lemma no_panic_get_node [simp]: "no_panic (get_node r p)"
  using get_node_fault [of r p] by (auto simp: no_panic_def)

lemma no_panic_helpers [simp]:
  "no_panic (ok_or e x)" "no_panic (try_usize e n)" "no_panic (try_u64 e n)"
  "no_panic (om_validate m)" "no_panic (ensure_entry_slot q s)"
  by (simp_all add: ok_or_def try_usize_def try_u64_def om_validate_def ensure_entry_slot_def
      split: option.splits)

lemma no_panic_obind: "no_panic r \<Longrightarrow> (\<And>v. r = Inr v \<Longrightarrow> no_panic (k v)) \<Longrightarrow> no_panic (obind r k)"
  by (cases r) (auto simp: no_panic_def)

lemma no_panic_parent [simp]:
  "no_panic (parent_dir_mut r p)" "no_panic (ensure_parent_is_dir r p)"
  by (auto simp: parent_dir_mut_def ensure_parent_is_dir_def intro!: no_panic_obind
      split: node.splits)

lemma no_panic_target [simp]: "no_panic (rename_target_check k (get_node r p))"
  using no_panic_get_node [of r p]
  by (cases "get_node r p")
    (auto simp: rename_target_check_def no_panic_def split: node.splits node_kind.splits)

lemma no_panic_metadata [simp]: "no_panic (metadata_for_node s n)"
  by (auto simp: metadata_for_node_def intro!: no_panic_obind split: node.splits)

lemma no_panic_collect [simp]: "no_panic (collect_entries s es)"
  by (induction s es rule: collect_entries.induct) (auto intro!: no_panic_obind)

subsection \<open>Entries\<close>

lemma inv_put_entry:
  assumes inv: "mem_inv_p q s (D + inodes n) (K + dirs n) X"
    and path: "path \<noteq> []" "valid_components path"
    and get: "get_node (root s) (butlast path) = Ok (Directory es)"
    and n: "node_wf n" "length path + node_height n \<le> max_path_depth"
  shows "mem_inv_p q (s\<lparr>root := set_node (root s) (butlast path)
      (Directory (bm_insert (last path) n es))\<rparr>)
    (D + entry_weight (\<lambda>i. {#i#}) {#} es (last path))
    (K + entry_weight (\<lambda>_. 0) (Suc 0) es (last path)) X"
proof -
  let ?r = "set_node (root s) (butlast path) (Directory (bm_insert (last path) n es))"
  note wf = inv_tree_wf [OF inv]
  have wfd: "node_wf (Directory es)" by (rule get_node_wf [OF wf get])
  have vn: "valid_name (last path)" using path by (auto simp: valid_components_def)
  have h1: "length (butlast path) + node_height (Directory es) \<le> max_path_depth"
    using get_node_height [OF wf get] inv_tree_height [OF inv] by linarith
  obtain k where lp: "length path = Suc k" using path(1) by (cases path) auto
  have h2: "length (butlast path) + node_height (Directory (bm_insert (last path) n es))
      \<le> max_path_depth"
  proof -
    have "node_height (Directory (bm_insert (last path) n es))
        \<le> max_path_depth - length (butlast path)"
      using wfd h1 n(2) lp by (intro node_height_insert_le) (auto simp: node_wf_dir)
    then show ?thesis using h1 by linarith
  qed
  show ?thesis
  proof (rule inv_set_root [OF inv])
    show "node_wf ?r"
      by (rule node_wf_set [OF wf get node_wf_insert [OF wfd vn n(1)]])
    show "node_kind_of ?r = KDirectory"
      by (rule set_entry_kind [OF get inv_tree_dir [OF inv]])
    show "node_height ?r \<le> max_path_depth"
      by (rule node_height_set_le [OF wf get inv_tree_height [OF inv] h2])
    show "inodes ?r + (D + entry_weight (\<lambda>i. {#i#}) {#} es (last path)) =
        inodes (root s) + (D + inodes n)"
      using tree_weight_put_entry [OF wf get, of "\<lambda>i. {#i#}" "{#}" "last path" n]
      by (simp add: ac_simps)
    show "dirs ?r + (K + entry_weight (\<lambda>_. 0) (Suc 0) es (last path)) = dirs (root s) + (K + dirs n)"
      using tree_weight_put_entry [OF wf get, of "\<lambda>_. 0" "Suc 0" "last path" n]
      by (simp add: ac_simps)
  qed
qed

lemma inv_del_entry:
  assumes inv: "mem_inv_p q s D K X"
    and get: "get_node (root s) p = Ok (Directory es)" and n: "bm_get es c = Some n"
  shows "mem_inv_p q (s\<lparr>root := set_node (root s) p (Directory (bm_remove c es))\<rparr>)
    (D + inodes n) (K + dirs n) X"
proof -
  let ?r = "set_node (root s) p (Directory (bm_remove c es))"
  note wf = inv_tree_wf [OF inv]
  have wfd: "node_wf (Directory es)" by (rule get_node_wf [OF wf get])
  have h1: "length p + node_height (Directory es) \<le> max_path_depth"
    using get_node_height [OF wf get] inv_tree_height [OF inv] by linarith
  have h2: "length p + node_height (Directory (bm_remove c es)) \<le> max_path_depth"
  proof -
    have "node_height (Directory (bm_remove c es)) \<le> max_path_depth - length p"
      using wfd h1 by (intro node_height_remove_le) (auto simp: node_wf_dir)
    then show ?thesis using h1 by linarith
  qed
  show ?thesis
  proof (rule inv_set_root [OF inv])
    show "node_wf ?r" by (rule node_wf_set [OF wf get node_wf_remove [OF wfd]])
    show "node_kind_of ?r = KDirectory"
      by (rule set_entry_kind [OF get inv_tree_dir [OF inv]])
    show "node_height ?r \<le> max_path_depth"
      by (rule node_height_set_le [OF wf get inv_tree_height [OF inv] h2])
    show "inodes ?r + (D + inodes n) = inodes (root s) + D"
      using tree_weight_del_entry [OF wf get, of "\<lambda>i. {#i#}" "{#}" c] n
      by (simp add: entry_weight_def ac_simps)
    show "dirs ?r + (K + dirs n) = dirs (root s) + K"
      using tree_weight_del_entry [OF wf get, of "\<lambda>_. 0" "Suc 0" c] n
      by (simp add: entry_weight_def ac_simps)
  qed
qed

lemma entry_weight_absent: "bm_get es c = None \<Longrightarrow> entry_weight f d es c = 0"
  by (simp add: entry_weight_def)

lemma inv_count_up:
  "mem_inv_p q s D K X \<Longrightarrow> file_count s < max_files q \<Longrightarrow>
   mem_inv_p q (s\<lparr>file_count := Suc (file_count s)\<rparr>) D (Suc K) X"
  by (simp add: mem_inv_p_def usage_ok_def)

subsection \<open>mkdir\<close>

lemma mkdir_insert:
  assumes inv: "mem_inv q s" and slot: "file_count s < max_files q"
    and path: "path \<noteq> []" "valid_components path"
      "get_node (root s) (butlast path) = Ok (Directory es)" "bm_get es (last path) = None"
  shows "mem_inv q (s\<lparr>root := set_node (root s) (butlast path)
      (Directory (bm_insert (last path) (Directory []) es)), file_count := Suc (file_count s)\<rparr>)"
proof -
  let ?s = "s\<lparr>file_count := Suc (file_count s)\<rparr>"
  have comm: "\<And>r. ?s\<lparr>root := r\<rparr> = s\<lparr>root := r, file_count := Suc (file_count s)\<rparr>" by simp
  have "mem_inv_p q ?s {#} (Suc 0) {}"
    using inv slot by (auto simp: mem_inv_def intro: inv_count_up)
  then have "mem_inv_p q (?s\<lparr>root := set_node (root ?s) (butlast path)
      (Directory (bm_insert (last path) (Directory []) es))\<rparr>) {#} 0 {}"
    using inv_put_entry [of q ?s "{#}" "Directory []" 0 "{}" path es] path
    by (simp add: entry_weight_absent valid_components_def)
  then show ?thesis unfolding comm by (simp add: mem_inv_def)
qed

lemma mkdir_op_ok:
  assumes inv: "mem_inv q s" and q: "quota_ok q"
  shows "op_ok q s (mem_mkdir q s p)"
  unfolding mem_mkdir_def
proof (intro op_ok_intros, goal_cases)
  case (3 path)
  then show ?case
    using no_panic_get_node [of "root s" path]
    by (cases "get_node (root s) path") (auto simp: no_panic_def)
next
  case (7 path u v w pn es c)
  have path: "path \<noteq> []" "get_node (root s) (butlast path) = Ok (Directory es)" "c = last path"
    using 7 by (auto simp: parent_dir_mut_Ok)
  have vp: "valid_components path" using 7 by (auto dest: normalize_path_valid)
  have none: "bm_get es (last path) = None"
    using 7 get_node_last [OF path(1,2)] by (cases "bm_get es (last path)") auto
  have slot: "file_count s < max_files q"
    using 7 by (auto simp: ensure_entry_slot_def split: if_splits)
  then have "Suc (file_count s) \<le> u64_max" using q by (simp add: quota_ok_def)
  then show ?case
    using mkdir_insert [OF inv slot path(1) vp path(2) none] path(3) by (simp add: Let_def uadd_def)
qed simp_all

subsection \<open>unlink and rmdir\<close>

lemma unlink_op_ok:
  assumes inv: "mem_inv q s"
  shows "op_ok q s (mem_unlink s p)"
  unfolding mem_unlink_def
proof (intro op_ok_intros, goal_cases)
  case (4 path v es c)
  have path: "get_node (root s) (butlast path) = Ok (Directory es)"
    using 4 by (auto simp: parent_dir_mut_Ok)
  show ?case
  proof (cases "bm_get es c")
    case (Some n)
    show ?thesis
    proof (cases n)
      case (File i)
      have "mem_inv_p q (s\<lparr>root := set_node (root s) (butlast path) (Directory (bm_remove c es))\<rparr>)
          (add_mset i {#}) 0 {}"
        using inv_del_entry [OF inv [unfolded mem_inv_def] path Some] File by simp
      from inv_unlink_file [OF this] show ?thesis
        using Some File by (auto simp: mem_inv_def)
    qed (use Some in simp)
  qed simp
qed simp_all

lemma rmdir_op_ok:
  assumes inv: "mem_inv q s"
  shows "op_ok q s (mem_rmdir s p)"
  unfolding mem_rmdir_def
proof (intro op_ok_intros, goal_cases)
  case (4 path v es c)
  have path: "get_node (root s) (butlast path) = Ok (Directory es)"
    using 4 by (auto simp: parent_dir_mut_Ok)
  show ?case
  proof (cases "bm_get es c")
    case (Some n)
    show ?thesis
    proof (cases "n = Directory []")
      case True
      have "mem_inv_p q (s\<lparr>root := set_node (root s) (butlast path) (Directory (bm_remove c es))\<rparr>)
          {#} (Suc 0) {}"
        using inv_del_entry [OF inv [unfolded mem_inv_def] path Some] True by simp
      from inv_remove_empty_dir [OF this] show ?thesis
        using Some True by (simp add: mem_inv_def)
    next
      case False
      then show ?thesis using Some by (cases n) auto
    qed
  qed simp
qed simp_all

subsection \<open>rename\<close>

text \<open>What holds once every check of \<open>rename\<close> has passed.\<close>

definition rename_pre :: "mem_state \<Rightarrow> rstr list \<Rightarrow> rstr list \<Rightarrow> node \<Rightarrow> bool" where
  "rename_pre s f t src \<longleftrightarrow> f \<noteq> [] \<and> t \<noteq> [] \<and> f \<noteq> t \<and> valid_components t
     \<and> get_node (root s) f = Ok src
     \<and> \<not> (node_kind_of src = KDirectory \<and> has_prefix t f)
     \<and> ensure_parent_is_dir (root s) t = Ok ()
     \<and> rename_target_check (node_kind_of src) (get_node (root s) t) = Ok ()
     \<and> \<not> (node_kind_of src = KDirectory \<and> length f < length t
          \<and> \<not> subtree_fits src (max_path_depth - length t))"

lemma rename_not_below:
  assumes "rename_pre s f t src"
  shows "\<not> has_prefix t f"
proof
  assume pre: "has_prefix t f"
  then obtain x where x: "t = f @ x" "x \<noteq> []"
    using assms by (auto simp: has_prefix_iff rename_pre_def)
  from assms pre obtain i where "src = File i"
    by (cases src) (auto simp: rename_pre_def)
  moreover obtain es where "get_node (root s) (butlast t) = Ok (Directory es)"
    using assms by (auto simp: rename_pre_def ensure_parent_is_dir_Ok)
  moreover have "butlast t = f @ butlast x" using x by (simp add: butlast_append)
  ultimately have "get_node (File i) (butlast x) = Ok (Directory es)"
    using assms by (simp add: get_node_append rename_pre_def)
  then show False by (cases "butlast x") auto
qed

lemma rename_not_above:
  assumes "rename_pre s f t src"
  shows "\<not> has_prefix f t"
proof
  assume "has_prefix f t"
  moreover have "f \<noteq> t" using assms by (simp add: rename_pre_def)
  ultimately obtain c cs where x: "f = t @ c # cs"
    by (metis append_Nil2 has_prefix_iff list.exhaust)
  then obtain n where n: "get_node (root s) t = Ok n" "get_node n (c # cs) = Ok src"
    using assms by (auto simp: get_node_append rename_pre_def obind_eq_Ok)
  then obtain es where "n = Directory es" "es \<noteq> []" by (cases n) force+
  with n(1) assms show False
    by (auto simp: rename_pre_def rename_target_check_def split: node_kind.splits)
qed

abbreviation detached :: "node \<Rightarrow> rstr list \<Rightarrow> (rstr, node) bmap \<Rightarrow> node" where
  "detached r f es \<equiv> set_node r (butlast f) (Directory (bm_remove (last f) es))"

lemma rename_target_parent:
  assumes pre: "rename_pre s f t src" and wf: "node_wf (root s)"
    and es: "get_node (root s) (butlast f) = Ok (Directory es)"
  shows "\<exists>es'. get_node (detached (root s) f es) (butlast t) = Ok (Directory es')
     \<and> get_node (root s) t = ok_or ENOENT (bm_get es' (last t))"
proof -
  let ?r1 = "detached (root s) f es"
  have fne: "f \<noteq> []" "t \<noteq> []" using pre by (auto simp: rename_pre_def)
  have wfe: "bm_wf es" using get_node_wf [OF wf es] by (simp add: node_wf_dir)
  note off = rename_not_below [OF pre] rename_not_above [OF pre]
  have eq: "\<And>c. c \<noteq> last f \<Longrightarrow> bm_get (bm_remove (last f) es) c = bm_get es c"
    using wfe by simp
  have same: "get_node ?r1 t = get_node (root s) t"
    by (rule get_entry_other [OF fne(1) es eq off]) simp
  obtain e0 where e0: "get_node (root s) (butlast t) = Ok (Directory e0)"
    using pre by (auto simp: rename_pre_def ensure_parent_is_dir_Ok)
  have "\<exists>es'. get_node ?r1 (butlast t) = Ok (Directory es')"
  proof (cases "has_prefix f (butlast t)")
    case True
    have "butlast t \<noteq> f"
      using off(1) fne by (metis append_butlast_last_id has_prefix_iff)
    with True get_entry_prefix [OF fne(1) es _ _ wf] show ?thesis by metis
  next
    case False
    have "\<not> has_prefix (butlast t) f"
      using off(1) fne by (metis append_butlast_last_id append.assoc has_prefix_iff)
    from get_entry_other [OF fne(1) es eq this False] e0 show ?thesis by simp
  qed
  then show ?thesis using get_node_last [OF fne(2)] same by force
qed

lemma rename_depth:
  assumes pre: "rename_pre s f t src" and inv: "mem_inv q s"
  shows "length t + node_height src \<le> max_path_depth"
proof -
  note i = inv [unfolded mem_inv_def]
  have g: "get_node (root s) f = Ok src" using pre by (simp add: rename_pre_def)
  have h: "length f + node_height src \<le> max_path_depth"
    using get_node_height [OF inv_tree_wf [OF i] g] inv_tree_height [OF i] by linarith
  have t: "length t \<le> max_path_depth" using pre by (simp add: rename_pre_def valid_components_def)
  show ?thesis
  proof (cases "node_kind_of src = KDirectory \<and> length f < length t")
    case True
    then show ?thesis using pre t by (auto simp: rename_pre_def subtree_fits_eq)
  next
    case False
    then show ?thesis using h t by (cases src) auto
  qed
qed

text \<open>The two updates of the tree and the release of a replaced entry.\<close>

definition rename_commit :: "mem_state \<Rightarrow> rstr list \<Rightarrow> rstr list \<Rightarrow> mem_state \<times> unit vres" where
  "rename_commit s f t =
     attempt s (parent_dir_mut (root s) f) (\<lambda>(parent, name).
     attempt s (ok_or ENOENT (bm_get parent name)) (\<lambda>removed.
     let s1 = s\<lparr>root := set_node (root s) (butlast f) (Directory (bm_remove name parent))\<rparr> in
     attempt s1 (parent_dir_mut (root s1) t) (\<lambda>(parent', name').
     let s2 = s1\<lparr>root := set_node (root s1) (butlast t)
                  (Directory (bm_insert name' removed parent'))\<rparr> in
     case bm_get parent' name' of
       Some replaced \<Rightarrow> remove_tree s2 replaced
     | None \<Rightarrow> (s2, Ok ()))))"

lemma rename_commit_ok:
  assumes pre: "rename_pre s f t src" and inv: "mem_inv q s"
  shows "\<exists>s' es es'. rename_commit s f t = (s', Ok ()) \<and> mem_inv q s'
     \<and> get_node (root s) (butlast f) = Ok (Directory es)
     \<and> get_node (detached (root s) f es) (butlast t) = Ok (Directory es')
     \<and> root s' = set_node (detached (root s) f es) (butlast t)
          (Directory (bm_insert (last t) src es'))
     \<and> handles s' = handles s
     \<and> (\<forall>i. get_node (root s) t \<noteq> Ok (File i) \<longrightarrow> bm_get (files s') i = bm_get (files s) i)"
proof -
  note i = inv [unfolded mem_inv_def]
  have ne: "f \<noteq> []" "t \<noteq> []" and g: "get_node (root s) f = Ok src"
    using pre by (auto simp: rename_pre_def)
  obtain es where es: "get_node (root s) (butlast f) = Ok (Directory es)"
      "bm_get es (last f) = Some src"
    using get_node_parent [OF ne(1) g] by blast
  obtain es' where es': "get_node (detached (root s) f es) (butlast t) = Ok (Directory es')"
      "get_node (root s) t = ok_or ENOENT (bm_get es' (last t))"
    using rename_target_parent [OF pre inv_tree_wf [OF i] es(1)] by blast
  let ?s1 = "s\<lparr>root := detached (root s) f es\<rparr>"
  let ?s2 = "s\<lparr>root := set_node (detached (root s) f es) (butlast t)
      (Directory (bm_insert (last t) src es'))\<rparr>"
  have i1: "mem_inv_p q ?s1 (inodes src) (dirs src) {}"
    using inv_del_entry [OF i es] by simp
  have i2: "mem_inv_p q ?s2 (entry_weight (\<lambda>i. {#i#}) {#} es' (last t))
      (entry_weight (\<lambda>_. 0) (Suc 0) es' (last t)) {}"
    using inv_put_entry [of q ?s1 "{#}" src 0 "{}" t es'] i1 es'(1) ne(2)
      pre get_node_wf [OF inv_tree_wf [OF i] g] rename_depth [OF pre inv]
    by (simp add: rename_pre_def)
  have run: "rename_commit s f t = (case bm_get es' (last t) of
      Some replaced \<Rightarrow> remove_tree ?s2 replaced | None \<Rightarrow> (?s2, Ok ()))"
    using ne es es'(1)
    by (simp add: rename_commit_def parent_dir_mut_def Let_def split: option.splits)
  have "\<exists>s'. rename_commit s f t = (s', Ok ()) \<and> mem_inv q s' \<and> root s' = root ?s2
      \<and> handles s' = handles s
      \<and> (\<forall>i. get_node (root s) t \<noteq> Ok (File i) \<longrightarrow> bm_get (files s') i = bm_get (files s) i)"
  proof (cases "bm_get es' (last t)")
    case None
    then show ?thesis using run i2 by (simp add: entry_weight_absent mem_inv_def)
  next
    case (Some n)
    have chk: "rename_target_check (node_kind_of src) (Ok n) = Ok ()"
      using pre es'(2) Some by (simp add: rename_pre_def)
    show ?thesis
    proof (cases n)
      case (File j)
      have "mem_inv_p q ?s2 (add_mset j {#}) 0 {}"
        using i2 Some File by (simp add: entry_weight_def)
      from inv_unlink_file [OF this] show ?thesis
        using run Some File es'(2) by (auto simp: mem_inv_def)
    next
      case (Directory ds)
      then have "ds = []" using chk
        by (auto simp: rename_target_check_def split: node_kind.splits if_splits)
      have "mem_inv_p q ?s2 {#} (Suc 0) {}"
        using i2 Some Directory \<open>ds = []\<close> by (simp add: entry_weight_def)
      from inv_remove_empty_dir [OF this] show ?thesis
        using run Some Directory \<open>ds = []\<close> by (simp add: mem_inv_def)
    qed
  qed
  with es(1) es'(1) show ?thesis by auto
qed

text \<open>\<open>rename\<close> is its checks followed by the commit.\<close>

lemma rename_split:
  "mem_rename s from to = (s, Ok ()) \<and>
     (\<exists>f n. normalize_path from = Ok f \<and> normalize_path to = Ok f \<and> f \<noteq> []
       \<and> get_node (root s) f = Ok n)
   \<or> (\<exists>e. mem_rename s from to = (s, Err e))
   \<or> (\<exists>f t src. normalize_path from = Ok f \<and> normalize_path to = Ok t
       \<and> rename_pre s f t src \<and> mem_rename s from to = rename_commit s f t)"
proof -
  have errno: "\<And>r. no_panic r \<Longrightarrow> (\<exists>v. r = Inr v) \<or> (\<exists>e. r = Err e)"
    by (metis fault.exhaust no_panic_def sum.exhaust)
  consider e where "normalize_path from = Err e" | f e where "normalize_path from = Ok f"
      "normalize_path to = Err e" | f t where "normalize_path from = Ok f" "normalize_path to = Ok t"
    using errno no_panic_normalize by metis
  then show ?thesis
  proof cases
    case (3 f t)
    have vt: "valid_components t" using 3(2) by (rule normalize_path_valid)
    show ?thesis
    proof (cases "f = [] \<or> t = [] \<or> (\<exists>e. get_node (root s) f = Err e)")
      case True
      then show ?thesis using 3 by (auto simp: mem_rename_def)
    next
      case False
      then obtain src where src: "get_node (root s) f = Ok src"
        using errno no_panic_get_node by metis
      show ?thesis
        using 3 False src vt errno [of "ensure_parent_is_dir (root s) t"]
          errno [of "rename_target_check (node_kind_of src) (get_node (root s) t)"]
        by (auto simp: mem_rename_def rename_commit_def rename_pre_def Let_def)
    qed
  qed (auto simp: mem_rename_def)
qed

lemma rename_op_ok:
  assumes "mem_inv q s"
  shows "op_ok q s (mem_rename s from to)"
  using rename_split [of s "from" to] rename_commit_ok [OF _ assms] assms by fastforce

end
