(* ===== verification/Mem_Handles.thy ===== *)
theory Mem_Handles
  imports Mem_Ops
begin

text \<open>
  The handle operations of the in-memory filesystem keep the invariant: \<open>open\<close> mints a
  handle that was never used, writes and truncations account for every byte, and closing
  the last handle of an unlinked file releases it.
\<close>

lemmas isize_u64 = isize_max_def u64_max_def

subsection \<open>Replacing the contents of a file\<close>

lemma inv_set_data:
  assumes inv: "mem_inv_p q s D K X" and f: "bm_get (files s) i = Some f"
    and d: "length d \<le> max_file_size q" "length d \<le> isize_max"
    and u: "u + length (fn_data f) = used_bytes s + length d" "u \<le> max_bytes q"
  shows "mem_inv_p q (s\<lparr>files := bm_insert i (f\<lparr>fn_data := d\<rparr>) (files s), used_bytes := u\<rparr>) D K X"
    (is "mem_inv_p q ?s D K X")
proof -
  have fwf: "bm_wf (files s)" by (rule inv_files_wf [OF inv])
  have w: "bm.weight (\<lambda>f. length (fn_data f)) (files ?s) + length (fn_data f) =
      bm.weight (\<lambda>f. length (fn_data f)) (files s) + length d"
    using bm.weight_put_old [OF fwf f, of "\<lambda>f. length (fn_data f)" "f\<lparr>fn_data := d\<rparr>"] by simp
  have "usage_ok q ?s K"
    using inv_usage [OF inv] u w length_bm_insert_old [OF fwf f] by (simp add: usage_ok_def)
  moreover have "links_ok ?s D"
    unfolding links_ok_def
  proof
    fix j
    show "count (inodes (root ?s) + D) j =
        (case bm_get (files ?s) j of None \<Rightarrow> 0 | Some f \<Rightarrow> fn_links f)"
      using f inv_links [OF inv, of j] by (cases "j = i") auto
  qed
  moreover have "table_ok q ?s"
    using inv_table [OF inv] fwf f d unfolding table_ok_def by (auto simp: file_ok_def)
  moreover have "live_ok ?s X"
    using inv f by (auto simp: mem_inv_p_def live_ok_def)
  ultimately show ?thesis using inv by (simp add: mem_inv_p_def tree_ok_def)
qed

text \<open>The sizes for which \<open>Vec::resize\<close> does not overflow its capacity.\<close>

definition size_safe :: "vfs_quota \<Rightarrow> nat \<Rightarrow> bool" where
  "size_safe q n \<longleftrightarrow> n \<le> isize_max \<or> max_file_size q < n"

lemma size_safeI: "max_file_size q \<le> isize_max \<Longrightarrow> size_safe q n"
  by (auto simp: size_safe_def)

lemma adjusted_used_bytes_eq:
  assumes "old \<le> u64_max" "new \<le> u64_max" "old \<le> used" "used \<le> u64_max"
  shows "adjusted_used_bytes used old new =
     (if used - old + new \<le> u64_max then Ok (used - old + new) else Err ENOSPC)"
  using assms by (auto simp: adjusted_used_bytes_def try_u64_def checked_add_def usub_def)

text \<open>Every outcome of \<open>resize_file\<close>.\<close>

lemma resize_file_eq:
  assumes inv: "mem_inv q s" and q: "quota_ok q" and f: "bm_get (files s) i = Some f"
    and n: "size_safe q n"
  shows "resize_file q s i n =
     (let used = used_bytes s - length (fn_data f) + n in
      if n \<le> max_file_size q \<and> used \<le> max_bytes q
      then (s\<lparr>files := bm_insert i (f\<lparr>fn_data := take n (fn_data f) @ replicate (n - length (fn_data f)) 0\<rparr>)
              (files s), used_bytes := used\<rparr>, Ok ())
      else (s, Err ENOSPC))"
proof -
  note i = inv [unfolded mem_inv_def]
  have fok: "file_ok q s i f" by (rule inv_file [OF i f])
  have use: "usage_ok q s 0" by (rule inv_usage [OF i])
  have le: "length (fn_data f) \<le> used_bytes s"
    using use bm.weight_ge [OF f, of "\<lambda>f. length (fn_data f)"] by (simp add: usage_ok_def)
  have u: "used_bytes s \<le> u64_max" "length (fn_data f) \<le> u64_max"
    using use q fok isize_le_u64 by (auto simp: usage_ok_def quota_ok_def file_ok_def)
  show ?thesis
  proof (cases "n \<le> max_file_size q")
    case True
    then have n64: "n \<le> u64_max" and ni: "n \<le> isize_max"
      using q n by (auto simp: quota_ok_def size_safe_def)
    show ?thesis
      using True n64 ni u le f q
      by (auto simp: resize_file_def try_u64_def adjusted_used_bytes_eq vec_resize_def Let_def
          quota_ok_def)
  next
    case False
    then show ?thesis using f by (auto simp: resize_file_def try_u64_def Let_def)
  qed
qed

lemma resize_file_op_ok:
  assumes inv: "mem_inv q s" and q: "quota_ok q" and n: "size_safe q n"
  shows "op_ok q s (resize_file q s i n)"
proof (cases "bm_get (files s) i")
  case None
  then show ?thesis by (simp add: resize_file_def)
next
  case (Some f)
  let ?d = "take n (fn_data f) @ replicate (n - length (fn_data f)) 0"
  let ?u = "used_bytes s - length (fn_data f) + n"
  note i = inv [unfolded mem_inv_def]
  have le: "length (fn_data f) \<le> used_bytes s"
    using inv_usage [OF i] bm.weight_ge [OF Some, of "\<lambda>f. length (fn_data f)"]
    by (simp add: usage_ok_def)
  have "mem_inv q (s\<lparr>files := bm_insert i (f\<lparr>fn_data := ?d\<rparr>) (files s), used_bytes := ?u\<rparr>)"
    if "n \<le> max_file_size q" "?u \<le> max_bytes q"
    unfolding mem_inv_def using that n le
    by (intro inv_set_data [OF i Some]) (auto simp: size_safe_def)
  then show ?thesis unfolding resize_file_eq [OF inv q Some n] by (auto simp: Let_def)
qed

lemma truncate_op_ok:
  assumes inv: "mem_inv q s" and q: "quota_ok q" and n: "size_safe q n"
  shows "op_ok q s (mem_truncate q s h n)"
  unfolding mem_truncate_def
  using resize_file_op_ok [OF inv q n]
  by (intro op_ok_intros) (auto simp: try_usize_def split: if_splits)

subsection \<open>Writing\<close>

text \<open>
  The contents after a positioned write: a gap before the offset reads as zeros, the bytes
  after the written range stay.
\<close>

definition write_bytes :: "byte list \<Rightarrow> nat \<Rightarrow> byte list \<Rightarrow> byte list" where
  "write_bytes old pos bytes =
     take pos old @ replicate (pos - length old) 0 @ bytes @ drop (pos + length bytes) old"

lemma length_write_bytes [simp]:
  "length (write_bytes old pos bytes) = max (length old) (pos + length bytes)"
  by (auto simp: write_bytes_def)

lemma write_bytes_after_resize:
  assumes "n = max (length old) (pos + length bytes)"
  shows "take pos (take n old @ replicate (n - length old) 0) @ bytes
      @ drop (pos + length bytes) (take n old @ replicate (n - length old) 0) =
    write_bytes old pos bytes"
proof -
  have "take n old = old" using assms by simp
  moreover have "take (pos - length old) (replicate (n - length old) (0::byte)) =
      replicate (pos - length old) 0"
    using assms by (simp add: min_def)
  moreover have "drop (pos + length bytes - length old) (replicate (n - length old) (0::byte)) = []"
    using assms by simp
  ultimately show ?thesis by (simp add: write_bytes_def del: take_replicate drop_replicate)
qed

text \<open>Where a write through a handle starts.\<close>

definition write_start :: "handle \<Rightarrow> file_node \<Rightarrow> nat \<Rightarrow> nat" where
  "write_start hn f offset = (if h_append hn then length (fn_data f) else offset)"

lemma write_at_eq:
  assumes inv: "mem_inv q s" and q: "quota_ok q" and h: "bm_get (handles s) h = Some hn"
    and w: "h_writable hn" and f: "bm_get (files s) (h_inode hn) = Some f"
    and data: "bytes \<noteq> []" and off: "offset \<le> usize_max"
    and safe: "size_safe q (max (length (fn_data f)) (write_start hn f offset + length bytes))"
  shows "mem_write_at q s h offset bytes =
     (let d = write_bytes (fn_data f) (write_start hn f offset) bytes;
          used = used_bytes s - length (fn_data f) + length d in
      if u64_max < write_start hn f offset + length bytes then (s, Err EINVAL)
      else if length d \<le> max_file_size q \<and> used \<le> max_bytes q
      then (s\<lparr>files := bm_insert (h_inode hn) (f\<lparr>fn_data := d\<rparr>) (files s), used_bytes := used\<rparr>,
            Ok (length bytes))
      else (s, Err ENOSPC))"
proof -
  let ?at = "write_start hn f offset"
  let ?n = "max (length (fn_data f)) (?at + length bytes)"
  note splice = write_bytes_after_resize [of ?n "fn_data f" ?at bytes]
  note run = resize_file_eq [OF inv q f safe]
  have "mem_write_at q s h offset bytes =
      attempt s (ok_or EINVAL (checked_add ?at (length bytes))) (\<lambda>e.
        and_then (resize_file q s (h_inode hn) (max (length (fn_data f)) e)) (\<lambda>s1 _.
        attempt s1 (ok_or ENOENT (bm_get (files s1) (h_inode hn))) (\<lambda>f1.
         (s1\<lparr>files := bm_insert (h_inode hn)
             (f1\<lparr>fn_data := take ?at (fn_data f1) @ bytes @ drop e (fn_data f1)\<rparr>) (files s1)\<rparr>,
          Ok (length bytes)))))"
    using h w f data off by (simp add: mem_write_at_def try_usize_def write_start_def Let_def)
  then show ?thesis
    using splice by (auto simp: checked_add_def run Let_def)
qed

lemma write_at_op_ok:
  assumes inv: "mem_inv q s" and q: "quota_ok q" and safe: "max_file_size q \<le> isize_max"
  shows "op_ok q s (mem_write_at q s h offset bytes)"
proof -
  note i = inv [unfolded mem_inv_def]
  consider (bad) e where "mem_write_at q s h offset bytes = (s, Err e)"
    | (empty) "mem_write_at q s h offset bytes = (s, Ok 0)"
    | (store) hn f where "bm_get (handles s) h = Some hn" "h_writable hn"
        "bm_get (files s) (h_inode hn) = Some f" "bytes \<noteq> []" "offset \<le> usize_max"
  proof (cases "bm_get (handles s) h")
    case None
    then show ?thesis using bad by (simp add: mem_write_at_def)
  next
    case (Some hn)
    obtain f where f: "bm_get (files s) (h_inode hn) = Some f"
      using inv_handle [OF i Some] by blast
    show ?thesis
      using bad empty store [OF Some _ f] Some
      by (cases "h_writable hn"; cases "bytes = []"; cases "offset \<le> usize_max")
        (simp_all add: mem_write_at_def try_usize_def)
  qed
  then show ?thesis
  proof cases
    case (store hn f)
    let ?d = "write_bytes (fn_data f) (write_start hn f offset) bytes"
    have le: "length (fn_data f) \<le> used_bytes s"
      using inv_usage [OF i] bm.weight_ge [OF store(3), of "\<lambda>f. length (fn_data f)"]
      by (simp add: usage_ok_def)
    have "mem_inv q (s\<lparr>files := bm_insert (h_inode hn) (f\<lparr>fn_data := ?d\<rparr>) (files s),
          used_bytes := used_bytes s - length (fn_data f) + length ?d\<rparr>)"
      if "length ?d \<le> max_file_size q" "used_bytes s - length (fn_data f) + length ?d \<le> max_bytes q"
      unfolding mem_inv_def using that le safe
      by (intro inv_set_data [OF i store(3)]) linarith+
    then show ?thesis
      unfolding write_at_eq [OF inv q store size_safeI [OF safe]]
      by (auto simp: Let_def)
  qed (use inv in simp_all)
qed

subsection \<open>Opening\<close>

text \<open>The identifiers that \<open>open\<close> consumes have not run out.\<close>

definition ids_left :: "mem_state \<Rightarrow> bool" where
  "ids_left s \<longleftrightarrow> next_inode s < u64_max \<and> next_handle s < u64_max"

lemma inv_new_file:
  assumes inv: "mem_inv q s" and slot: "file_count s < max_files q"
  shows "mem_inv_p q (s\<lparr>next_inode := Suc (next_inode s),
      files := bm_insert (next_inode s) (file_node_default\<lparr>fn_links := 1\<rparr>) (files s),
      file_count := Suc (file_count s)\<rparr>) {#next_inode s#} 0 {}" (is "mem_inv_p q ?s _ _ _")
proof -
  note i = inv [unfolded mem_inv_def]
  have fwf: "bm_wf (files s)" by (rule inv_files_wf [OF i])
  have none: "bm_get (files s) (next_inode s) = None"
    using inv_file [OF i, of "next_inode s"] by (cases "bm_get (files s) (next_inode s)") (auto simp: file_ok_def)
  have noh: "h_inode d \<noteq> next_inode s" if "bm_get (handles s) h = Some d" for h d
    using inv_handle [OF i that] none by auto
  have "opens s (next_inode s) = 0"
    using noh inv_handles_wf [OF i] bm_mem_get [of "handles s"]
    by (fastforce simp: opens_def bm_weight_list)
  have fok: "file_ok q ?s j f" if "bm_get (files ?s) j = Some f" for j f
    using that \<open>opens s (next_inode s) = 0\<close> inv_file [OF i, of j f]
    by (cases "j = next_inode s") (auto simp: file_ok_def file_node_default_def)
  have "table_ok q ?s"
    unfolding table_ok_def
  proof (intro conjI allI impI)
    fix h d assume "bm_get (handles ?s) h = Some d"
    then have d: "bm_get (handles s) h = Some d" by simp
    show "h < next_handle ?s" "bm_get (files ?s) (h_inode d) \<noteq> None"
      using inv_handle [OF i d] noh [OF d] by auto
  qed (use fok fwf inv_handles_wf [OF i] in auto)
  moreover have "usage_ok q ?s 0"
    using inv_usage [OF i] slot bm.weight_put_new [OF fwf none, of "\<lambda>f. length (fn_data f)"]
      length_bm_insert_new [OF fwf none]
    by (simp add: usage_ok_def file_node_default_def)
  moreover have "links_ok ?s {#next_inode s#}"
    unfolding links_ok_def
  proof
    fix j
    show "count (inodes (root ?s) + {#next_inode s#}) j =
        (case bm_get (files ?s) j of None \<Rightarrow> 0 | Some f \<Rightarrow> fn_links f)"
      using none inv_links [OF i, of j] by (cases "j = next_inode s") auto
  qed
  moreover have "live_ok ?s {}" using i by (auto simp: mem_inv_p_def live_ok_def)
  ultimately show ?thesis using i by (simp add: mem_inv_p_def tree_ok_def)
qed

lemma inv_create:
  assumes inv: "mem_inv q s" and slot: "file_count s < max_files q"
    and path: "path \<noteq> []" "valid_components path"
      "get_node (root s) (butlast path) = Ok (Directory es)" "bm_get es (last path) = None"
  shows "mem_inv q (s\<lparr>next_inode := Suc (next_inode s),
      files := bm_insert (next_inode s) (file_node_default\<lparr>fn_links := 1\<rparr>) (files s),
      root := set_node (root s) (butlast path)
        (Directory (bm_insert (last path) (File (next_inode s)) es)),
      file_count := Suc (file_count s)\<rparr>)"
proof -
  let ?s = "s\<lparr>next_inode := Suc (next_inode s),
      files := bm_insert (next_inode s) (file_node_default\<lparr>fn_links := 1\<rparr>) (files s),
      file_count := Suc (file_count s)\<rparr>"
  have comm: "\<And>r. ?s\<lparr>root := r\<rparr> = s\<lparr>next_inode := Suc (next_inode s),
      files := bm_insert (next_inode s) (file_node_default\<lparr>fn_links := 1\<rparr>) (files s),
      root := r, file_count := Suc (file_count s)\<rparr>" by simp
  have "mem_inv_p q ?s ({#} + inodes (File (next_inode s))) (0 + dirs (File (next_inode s))) {}"
    using inv_new_file [OF inv slot] by simp
  moreover have "get_node (root ?s) (butlast path) = Ok (Directory es)" using path(3) by simp
  moreover have "node_wf (File (next_inode s))"
    "length path + node_height (File (next_inode s)) \<le> max_path_depth"
    using path(2) by (simp_all add: valid_components_def)
  ultimately have "mem_inv_p q (?s\<lparr>root := set_node (root ?s) (butlast path)
        (Directory (bm_insert (last path) (File (next_inode s)) es))\<rparr>) {#} 0 {}"
    using inv_put_entry [of q ?s "{#}" "File (next_inode s)" 0 "{}" path es] path(1,2,4)
    by (simp only: entry_weight_absent add_0_right add_0_left) simp
  then show ?thesis unfolding comm by (simp add: mem_inv_def)
qed

text \<open>Every outcome of resolving or creating the file.\<close>

lemma open_inode_cases:
  assumes inv: "mem_inv q s" and q: "quota_ok q" and path: "valid_components path"
  obtains (error) e where "open_inode q s path mode = (s, Err e)"
  | (exhausted) "u64_max \<le> next_inode s" "open_inode q s path mode = (s, Inl Panic)"
  | (existing) i f where "get_node (root s) path = Ok (File i)" "bm_get (files s) i = Some f"
      "\<not> om_create_new mode" "\<not> om_truncate mode" "open_inode q s path mode = (s, Ok i)"
  | (truncated) i f where "get_node (root s) path = Ok (File i)" "bm_get (files s) i = Some f"
      "\<not> om_create_new mode" "om_truncate mode"
      "open_inode q s path mode = (s\<lparr>files := bm_insert i (f\<lparr>fn_data := []\<rparr>) (files s),
         used_bytes := used_bytes s - length (fn_data f)\<rparr>, Ok i)"
      "mem_inv q (s\<lparr>files := bm_insert i (f\<lparr>fn_data := []\<rparr>) (files s),
         used_bytes := used_bytes s - length (fn_data f)\<rparr>)"
  | (created) es s' where "path \<noteq> []" "get_node (root s) (butlast path) = Ok (Directory es)"
      "bm_get es (last path) = None" "om_create mode \<or> om_create_new mode"
      "s' = s\<lparr>next_inode := Suc (next_inode s),
        files := bm_insert (next_inode s) (file_node_default\<lparr>fn_links := 1\<rparr>) (files s),
        root := set_node (root s) (butlast path)
          (Directory (bm_insert (last path) (File (next_inode s)) es)),
        file_count := Suc (file_count s)\<rparr>"
      "open_inode q s path mode = (s', Ok (next_inode s))" "mem_inv q s'"
proof -
  note i = inv [unfolded mem_inv_def]
  show thesis
  proof (cases "get_node (root s) path")
    case (Inl e)
    show thesis
    proof (cases "e = Errno ENOENT \<and> (om_create mode \<or> om_create_new mode)
        \<and> ensure_parent_is_dir (root s) path = Ok () \<and> file_count s < max_files q")
      case True
      then obtain es where es: "path \<noteq> []" "get_node (root s) (butlast path) = Ok (Directory es)"
        by (auto simp: ensure_parent_is_dir_Ok)
      have none: "bm_get es (last path) = None"
        using Inl get_node_last [OF es] by (cases "bm_get es (last path)") auto
      have "Suc (file_count s) \<le> u64_max" using True q by (simp add: quota_ok_def)
      then show thesis
      proof (cases "next_inode s < u64_max")
        case False
        then show thesis
          using exhausted True Inl
          by (simp add: open_inode_def ensure_entry_slot_def Let_def uadd_def)
      next
        case ids: True
        then show thesis
        using created [OF es none _ refl _ inv_create [OF inv _ es(1) path es(2) none]] True Inl es ids
          \<open>Suc (file_count s) \<le> u64_max\<close>
        by (simp add: open_inode_def ensure_entry_slot_def parent_dir_mut_def Let_def uadd_def)
      qed
    next
      case False
      have "\<exists>e'. e = Errno e'" using get_node_fault [OF Inl] by auto
      moreover have "(\<exists>e'. ensure_parent_is_dir (root s) path = Err e')
          \<or> ensure_parent_is_dir (root s) path = Ok ()"
        using no_panic_parent(2) [of "root s" path]
        by (cases "ensure_parent_is_dir (root s) path") (auto simp: no_panic_def, metis fault.exhaust)
      ultimately have "\<exists>e. open_inode q s path mode = (s, Err e)"
        using Inl False by (auto simp: open_inode_def ensure_entry_slot_def)
      then show thesis using error by blast
    qed
  next
    case (Inr n)
    show thesis
    proof (cases n)
      case (Directory es)
      then show thesis using error Inr by (simp add: open_inode_def)
    next
      case (File j)
      have "j \<in># inodes (root s)"
        using inode_mem_path [OF inv_tree_wf [OF i]] Inr File by blast
      then obtain f where f: "bm_get (files s) j = Some f"
        using inv_links [OF i, of j] by (cases "bm_get (files s) j") (auto simp: not_in_iff [symmetric])
      have le: "length (fn_data f) \<le> used_bytes s" "used_bytes s \<le> max_bytes q"
        using inv_usage [OF i] bm.weight_ge [OF f, of "\<lambda>f. length (fn_data f)"]
        by (simp_all add: usage_ok_def)
      have sz: "size_safe q 0" by (simp add: size_safe_def)
      have run: "resize_file q s j 0 = (s\<lparr>files := bm_insert j (f\<lparr>fn_data := []\<rparr>) (files s),
          used_bytes := used_bytes s - length (fn_data f)\<rparr>, Ok ())"
        using le by (simp add: resize_file_eq [OF inv q f sz] Let_def)
      have inv': "mem_inv q (s\<lparr>files := bm_insert j (f\<lparr>fn_data := []\<rparr>) (files s),
          used_bytes := used_bytes s - length (fn_data f)\<rparr>)"
        using resize_file_op_ok [OF inv q sz, of j] by (simp only: run op_ok_simps)
      note eq = open_inode_def [of q s path mode] Inr File run
      show thesis
      proof (cases "om_create_new mode")
        case True
        then show thesis using error [of EEXIST] by (simp add: eq)
      next
        case new: False
        show thesis
        proof (cases "om_truncate mode")
          case True
          show thesis
            by (rule truncated [OF _ f new True _ inv']) (simp_all add: eq new True)
        next
          case False
          show thesis by (rule existing [OF _ f new False]) (simp_all add: eq new False)
        qed
      qed
    qed
  qed
qed

lemma handles_bounded:
  assumes "table_ok q s"
  shows "length (handles s) \<le> next_handle s"
proof -
  have wf: "bm_wf (handles s)" using assms by (simp add: table_ok_def)
  have "set (map fst (handles s)) \<subseteq> {..<next_handle s}"
    using assms bm_mem_get [OF wf] by (fastforce simp: table_ok_def)
  then have "card (set (map fst (handles s))) \<le> next_handle s"
    using card_mono [of "{..<next_handle s}"] by fastforce
  then show ?thesis using distinct_card [OF bm_wf_distinct [OF wf]] by simp
qed

lemma sum_of_bool_le: "(\<Sum>e\<leftarrow>es. of_bool (P e)) \<le> length es"
  by (induction es) auto

lemma sum_of_bool_filter: "(\<Sum>e\<leftarrow>es. of_bool (P e)) = length (filter P es)"
  by (induction es) auto

lemma opens_le: "opens s i \<le> length (handles s)"
  unfolding opens_def bm_weight_list by (rule sum_of_bool_le)

lemma opens_mint:
  assumes "bm_wf (handles s)" "bm_get (handles s) h = None"
  shows "opens (s\<lparr>handles := bm_insert h d (handles s)\<rparr>) j = opens s j + of_bool (j = h_inode d)"
  using bm.weight_put_new [OF assms, of "\<lambda>h. of_bool (h_inode h = j)" d]
  by (auto simp: opens_def)

lemma opens_close:
  assumes "bm_get (handles s) h = Some d"
  shows "opens s j = opens (s\<lparr>handles := bm_remove h (handles s)\<rparr>) j + of_bool (j = h_inode d)"
  using bm.weight_del [OF assms, of "\<lambda>h. of_bool (h_inode h = j)"]
  by (auto simp: opens_def)

text \<open>A handle enters the table together with its file's open count.\<close>

definition mint_state :: "mem_state \<Rightarrow> inode \<Rightarrow> file_node \<Rightarrow> open_mode \<Rightarrow> mem_state" where
  "mint_state s i f mode = s\<lparr>next_handle := Suc (next_handle s),
     handles := bm_insert (next_handle s) \<lparr>h_inode = i, h_readable = om_read mode,
       h_writable = om_write mode, h_append = om_append mode\<rparr> (handles s),
     files := bm_insert i (f\<lparr>fn_open := Suc (fn_open f)\<rparr>) (files s)\<rparr>"

lemma handle_fresh: "mem_inv_p q s D K X \<Longrightarrow> bm_get (handles s) (next_handle s) = None"
  using inv_handle [of q s D K X "next_handle s"] by (cases "bm_get (handles s) (next_handle s)") auto

lemma inv_mint:
  assumes inv: "mem_inv q s" and f: "bm_get (files s) i = Some f"
  shows "mem_inv q (mint_state s i f mode)" (is "mem_inv q ?s")
proof -
  note i = inv [unfolded mem_inv_def]
  have fwf: "bm_wf (files s)" and hwf: "bm_wf (handles s)"
    using inv_files_wf [OF i] inv_handles_wf [OF i] by auto
  have op: "opens ?s j = opens s j + of_bool (j = i)" for j
    using opens_mint [OF hwf handle_fresh [OF i]] by (simp add: mint_state_def opens_def)
  have fok: "file_ok q ?s j g" if "bm_get (files ?s) j = Some g" for j g
  proof (cases "j = i")
    case True
    then show ?thesis
      using that inv_file [OF i f] by (auto simp: op file_ok_def) (auto simp: mint_state_def)
  next
    case False
    have "bm_get (files s) j = Some g" using that False by (simp add: mint_state_def)
    from inv_file [OF i this] show ?thesis
      using False by (simp add: file_ok_def op) (simp add: mint_state_def)
  qed
  have "table_ok q ?s"
    unfolding table_ok_def
  proof (intro conjI allI impI)
    fix h d assume d: "bm_get (handles ?s) h = Some d"
    show "h < next_handle ?s" "bm_get (files ?s) (h_inode d) \<noteq> None"
      using inv_handle [OF i, of h d] d by (auto simp: mint_state_def split: if_splits)
  qed (use fok fwf hwf in \<open>auto simp: mint_state_def\<close>)
  moreover have "usage_ok q ?s 0"
    using inv_usage [OF i] length_bm_insert_old [OF fwf f]
      bm.weight_put_same [OF fwf f, of "\<lambda>f. length (fn_data f)" "f\<lparr>fn_open := Suc (fn_open f)\<rparr>"]
    by (simp add: usage_ok_def mint_state_def)
  moreover have "links_ok ?s {#}"
    unfolding links_ok_def
  proof
    fix j
    show "count (inodes (root ?s) + {#}) j =
        (case bm_get (files ?s) j of None \<Rightarrow> 0 | Some f \<Rightarrow> fn_links f)"
      using f inv_links [OF i, of j] by (cases "j = i") (auto simp: mint_state_def)
  qed
  moreover have "live_ok ?s {}" using i by (auto simp: mem_inv_p_def live_ok_def mint_state_def)
  ultimately show ?thesis using i by (simp add: mem_inv_def mem_inv_p_def tree_ok_def mint_state_def)
qed

lemma mint_handle_eq:
  assumes inv: "mem_inv q s" and f: "bm_get (files s) i = Some f" and ids: "next_handle s < u64_max"
  shows "mint_handle s i mode = (mint_state s i f mode, Ok (next_handle s))"
proof -
  note i = inv [unfolded mem_inv_def]
  have "fn_open f \<le> next_handle s"
    using inv_file [OF i f] opens_le [of s i] handles_bounded [OF inv_table [OF i]]
    by (simp add: file_ok_def)
  then show ?thesis
    using f ids by (simp add: mint_handle_def mint_state_def uadd_def Let_def)
qed

text \<open>A successful \<open>open\<close>: the resolved file in a valid state, and a handle minted on it.\<close>

lemma open_result:
  assumes inv: "mem_inv q s" and q: "quota_ok q" and ni: "next_inode s < u64_max"
    and nh: "next_handle s < u64_max" and path: "valid_components path"
    and run: "and_then (open_inode q s path mode) (\<lambda>s1 i. mint_handle s1 i mode) = (s', Ok h)"
  shows "\<exists>t i f. mem_inv q t \<and> next_handle t = next_handle s \<and> bm_get (files t) i = Some f
      \<and> get_node (root t) path = Ok (File i) \<and> (om_truncate mode \<longrightarrow> fn_data f = [])
      \<and> s' = mint_state t i f mode \<and> h = next_handle t"
  using inv q path
proof (cases rule: open_inode_cases [where mode = mode])
  case (existing i f)
  show ?thesis
    using run existing inv mint_handle_eq [OF inv existing(2) nh, of mode]
    by (intro exI [of _ s] exI [of _ i] exI [of _ f]) simp
next
  case (truncated i f)
  show ?thesis
    using run truncated nh mint_handle_eq [OF truncated(6), of i "f\<lparr>fn_data := []\<rparr>" mode]
    by (intro exI [of _ "s\<lparr>files := bm_insert i (f\<lparr>fn_data := []\<rparr>) (files s),
       used_bytes := used_bytes s - length (fn_data f)\<rparr>"] exI [of _ i] exI [of _ "f\<lparr>fn_data := []\<rparr>"])
      simp
next
  case (created es t)
  have "get_node (root t) path = Ok (File (next_inode s))"
    using get_put_entry [OF created(1,2), of "File (next_inode s)" "[]"] created(5) by simp
  then show ?thesis
    using run created nh
      mint_handle_eq [OF created(7), of "next_inode s" "file_node_default\<lparr>fn_links := 1\<rparr>" mode]
    by (intro exI [of _ t] exI [of _ "next_inode s"] exI [of _ "file_node_default\<lparr>fn_links := 1\<rparr>"])
      (simp add: file_node_default_def)
qed (use run ni in simp_all)

lemma open_op_ok:
  assumes inv: "mem_inv q s" and q: "quota_ok q" and ids: "ids_left s"
  shows "op_ok q s (mem_open q s p mode)"
  unfolding mem_open_def
proof (intro op_ok_intros, goal_cases)
  case (3 u path)
  have vp: "valid_components path" using 3 by (auto dest: normalize_path_valid)
  have ni: "next_inode s < u64_max" and nh: "next_handle s < u64_max"
    using ids by (auto simp: ids_left_def)
  from inv q vp show ?case
  proof (cases rule: open_inode_cases [where mode = mode])
    case (existing i f)
    then show ?thesis using inv nh by (simp add: mint_handle_eq inv_mint)
  next
    case (truncated i f)
    show ?thesis
      using truncated nh
        inv_mint [OF truncated(6), of i "f\<lparr>fn_data := []\<rparr>" mode]
        mint_handle_eq [OF truncated(6), of i "f\<lparr>fn_data := []\<rparr>" mode]
      by simp
  next
    case (created es s')
    show ?thesis
      using created nh
        inv_mint [OF created(7), of "next_inode s" "file_node_default\<lparr>fn_links := 1\<rparr>" mode]
        mint_handle_eq [OF created(7), of "next_inode s" "file_node_default\<lparr>fn_links := 1\<rparr>" mode]
      by simp
  qed (use ni in simp_all)
qed simp_all

subsection \<open>Closing\<close>

lemma close_op_ok:
  assumes inv: "mem_inv q s"
  shows "op_ok q s (mem_close s h)"
proof (cases "bm_get (handles s) h")
  case None
  then show ?thesis by (simp add: mem_close_def)
next
  case (Some d)
  note i = inv [unfolded mem_inv_def]
  obtain f where f: "bm_get (files s) (h_inode d) = Some f" using inv_handle [OF i Some] by blast
  have fwf: "bm_wf (files s)" and hwf: "bm_wf (handles s)"
    using inv_files_wf [OF i] inv_handles_wf [OF i] by auto
  let ?s = "s\<lparr>handles := bm_remove h (handles s),
      files := bm_insert (h_inode d) (f\<lparr>fn_open := fn_open f - 1\<rparr>) (files s)\<rparr>"
  have op: "opens s j = opens ?s j + of_bool (j = h_inode d)" for j
    using opens_close [OF Some] by (simp add: opens_def)
  have pos: "1 \<le> fn_open f"
    using inv_file [OF i f] op [of "h_inode d"] by (simp add: file_ok_def)
  have fok: "file_ok q ?s j g" if "bm_get (files ?s) j = Some g" for j g
    using that inv_file [OF i f] inv_file [OF i, of j g] op [of j]
    by (cases "j = h_inode d") (auto simp: file_ok_def)
  have "table_ok q ?s"
    unfolding table_ok_def
  proof (intro conjI allI impI)
    fix k e assume "bm_get (handles ?s) k = Some e"
    then show "k < next_handle ?s" "bm_get (files ?s) (h_inode e) \<noteq> None"
      using inv_handle [OF i, of k e] hwf by (auto split: if_splits)
  qed (use fok fwf hwf in auto)
  moreover have "usage_ok q ?s 0"
    using inv_usage [OF i] length_bm_insert_old [OF fwf f]
      bm.weight_put_same [OF fwf f, of "\<lambda>f. length (fn_data f)" "f\<lparr>fn_open := fn_open f - 1\<rparr>"]
    by (simp add: usage_ok_def)
  moreover have "links_ok ?s {#}"
    unfolding links_ok_def
  proof
    fix j
    show "count (inodes (root ?s) + {#}) j =
        (case bm_get (files ?s) j of None \<Rightarrow> 0 | Some f \<Rightarrow> fn_links f)"
      using f inv_links [OF i, of j] by (cases "j = h_inode d") auto
  qed
  moreover have "live_ok ?s {h_inode d}" using i by (auto simp: mem_inv_p_def live_ok_def)
  ultimately have "mem_inv_p q ?s {#} 0 {h_inode d}"
    using i by (simp add: mem_inv_p_def tree_ok_def)
  from inv_release [OF this] show ?thesis
    using Some f pos by (auto simp: mem_close_def usub_def mem_inv_def)
qed

end
