(* ===== verification/S3_Service.thy ===== *)
theory S3_Service
  imports S3_Bucket Mem_Handles
begin

text \<open>
  What the S3 filesystem relies on from the object store, as a locale, and what a staged handle
  stands for. The store is observed through the body and the revision of a key and the parts of
  a pending upload; the laws are the documented behaviour of the service. The in-memory bucket
  meets them.
\<close>

locale s3_service =
  fixes ops :: "'r s3_ops"
    and bucket :: rstr
    and body_at :: "'r \<Rightarrow> rstr \<Rightarrow> byte list option"
    and etag_at :: "'r \<Rightarrow> rstr \<Rightarrow> rstr option"
    and part_at :: "'r \<Rightarrow> rstr \<Rightarrow> nat \<Rightarrow> byte list option"
  assumes head_keeps: "o_head ops r q = (r', res) \<Longrightarrow> body_at r' = body_at r \<and> etag_at r' = etag_at r \<and> part_at r' = part_at r"
    and head_ok: "o_head ops r \<lparr>hq_bucket = bucket, hq_key = key\<rparr> = (r', Ok f) \<Longrightarrow>
      \<exists>b. body_at r key = Some b \<and> length b = rmf_len f \<and> etag_at r key = Some (rmf_etag f)"
    and head_missing: "o_head ops r \<lparr>hq_bucket = bucket, hq_key = key\<rparr> = (r', Err Missing) \<Longrightarrow> body_at r key = None"
    and list_keeps: "o_list ops r lq = (r', lres) \<Longrightarrow> body_at r' = body_at r \<and> etag_at r' = etag_at r \<and> part_at r' = part_at r"
    and get_keeps: "o_get ops r gq = (r', gres) \<Longrightarrow> body_at r' = body_at r \<and> etag_at r' = etag_at r \<and> part_at r' = part_at r"
    and get_ok: "o_get ops r gq = (r', Ok g) \<Longrightarrow> gq_bucket gq = bucket \<Longrightarrow> gq_range gq = byte_range i j \<Longrightarrow> i \<le> j \<Longrightarrow>
      body_at r (gq_key gq) = Some b \<Longrightarrow> j < length b \<Longrightarrow> gr_body g = take (j + 1 - i) (drop i b)"
    and put_ok: "o_put ops r pq = (r', Ok v) \<Longrightarrow> pq_bucket pq = bucket \<Longrightarrow>
      body_at r' = (body_at r)(pq_key pq \<mapsto> pq_body pq)"
    and put_checked: "o_put ops r pq = (r', Ok v) \<Longrightarrow> pq_bucket pq = bucket \<Longrightarrow>
      (pq_precondition pq = PAbsent \<longrightarrow> body_at r (pq_key pq) = None)
      \<and> (\<forall>t. pq_precondition pq = PMatch t \<longrightarrow> etag_at r (pq_key pq) = Some t)"
    and create_keeps: "o_create_upload ops r uq = (r', ures) \<Longrightarrow> body_at r' = body_at r \<and> etag_at r' = etag_at r"
    and upload_keeps: "o_upload_part ops r aq = (r', ares) \<Longrightarrow> body_at r' = body_at r \<and> etag_at r' = etag_at r"
    and upload_ok: "o_upload_part ops r aq = (r', Ok t) \<Longrightarrow> aq_bucket aq = bucket \<Longrightarrow>
      part_at r' (aq_upload_id aq) = (part_at r (aq_upload_id aq))(aq_part_number aq \<mapsto> aq_body aq)"
    and complete_ok: "o_complete_upload ops r mq = (r', Ok v) \<Longrightarrow> mq_bucket mq = bucket \<Longrightarrow>
      map pt_number (mq_parts mq) = [1 ..< length bs + 1] \<Longrightarrow>
      (\<And>i. i < length bs \<Longrightarrow> part_at r (mq_upload_id mq) (i + 1) = Some (bs ! i)) \<Longrightarrow>
      body_at r' = (body_at r)(mq_key mq \<mapsto> concat bs)"
    and complete_checked: "o_complete_upload ops r mq = (r', Ok v) \<Longrightarrow> mq_bucket mq = bucket \<Longrightarrow>
      (mq_precondition mq = PAbsent \<longrightarrow> body_at r (mq_key mq) = None)
      \<and> (\<forall>t. mq_precondition mq = PMatch t \<longrightarrow> etag_at r (mq_key mq) = Some t)"
    and abort_keeps: "o_abort_upload ops r xq = (r', xres) \<Longrightarrow> body_at r' = body_at r \<and> etag_at r' = etag_at r"
begin

end

definition bucket_etag :: "bucket_state \<Rightarrow> rstr \<Rightarrow> rstr option" where
  "bucket_etag b key = map_option so_etag (bm_get (bk_objects b) key)"

definition bucket_part :: "bucket_state \<Rightarrow> rstr \<Rightarrow> nat \<Rightarrow> byte list option" where
  "bucket_part b uid n = (case bm_get (bk_uploads b) uid of None \<Rightarrow> None | Some up \<Rightarrow> bm_get (pu_parts up) n)"

lemma count_mutation_simps [simp]:
  "bk_objects (count_mutation b) = bk_objects b" "bk_uploads (count_mutation b) = bk_uploads b"
  by (simp_all add: count_mutation_def)

lemma bucket_store_simps [simp]:
  "bucket_body (bucket_store b key body) = (bucket_body b)(key \<mapsto> body)"
  "bk_uploads (bucket_store b key body) = bk_uploads b"
  by (auto simp: bucket_store_def mint_etag_def bucket_body_def fun_eq_iff)

lemma bucket_same_objects:
  "bk_objects b' = bk_objects b \<Longrightarrow> bucket_body b' = bucket_body b \<and> bucket_etag b' = bucket_etag b"
  by (simp add: bucket_body_def bucket_etag_def fun_eq_iff)

lemma bucket_same_uploads: "bk_uploads b' = bk_uploads b \<Longrightarrow> bucket_part b' = bucket_part b"
  by (simp add: bucket_part_def fun_eq_iff)

lemma bucket_check_same: "bk_objects b' = bk_objects b \<Longrightarrow> bucket_check b' = bucket_check b"
  by (simp add: bucket_check_def [abs_def])

lemma bucket_check_ok:
  assumes "bucket_check b key p = Ok v"
  shows "(p = PAbsent \<longrightarrow> bucket_body b key = None) \<and> (\<forall>t. p = PMatch t \<longrightarrow> bucket_etag b key = Some t)"
  using assms
  by (auto simp: bucket_check_def bucket_body_def bucket_etag_def split: precondition.splits if_splits option.splits)

lemma split_once_at: "c \<notin> set a \<Longrightarrow> split_once c (a @ c # b) = Some (a, b)"
  by (simp add: split_once_def takeWhile_append dropWhile_append)

lemma dash_not_digit: "45 \<notin> set (show_nat n)"
  using show_nat_digits [of n] by (auto simp: list_all_iff is_ascii_digit_def)

lemma parse_byte_range:
  assumes "parse_range (byte_range i j) = Some (a, b)"
  shows "a = i \<and> b = j"
proof -
  have "strip_prefix (rs ''bytes='') (byte_range i j) = Some (show_nat i @ 45 # show_nat j)"
    by (simp add: strip_prefix_def byte_range_def rs_def)
  then show ?thesis
    using assms split_once_at [OF dash_not_digit, of i "show_nat j"]
    by (auto simp: parse_range_def parse_unsigned_def digits_value_show split: option.splits if_splits)
qed

lemma assemble_bodies:
  assumes "map pt_number ps = [k ..< k + length bs]"
    and "\<And>i. i < length bs \<Longrightarrow> bm_get parts (k + i) = Some (bs ! i)"
  shows "assemble parts ps = Ok (concat bs)"
  using assms
proof (induction bs arbitrary: k ps)
  case Nil
  then show ?case by simp
next
  case (Cons b bs)
  have "[k ..< k + length (b # bs)] = k # [Suc k ..< Suc k + length bs]" by (simp add: upt_conv_Cons del: upt_Suc)
  with Cons.prems(1) obtain p ps' where ps: "ps = p # ps'" "pt_number p = k"
    "map pt_number ps' = [Suc k ..< Suc k + length bs]"
    by (cases ps) auto
  have "assemble parts ps' = Ok (concat bs)"
  proof (rule Cons.IH [OF ps(3)])
    fix i assume "i < length bs"
    then show "bm_get parts (Suc k + i) = Some (bs ! i)" using Cons.prems(2) [of "Suc i"] by simp
  qed
  then show ?case using ps Cons.prems(2) [of 0] by simp
qed

lemma bucket_reads_keep:
  "bucket_head b q = (b', res) \<Longrightarrow> b' = b" "bucket_get b gq = (b', gres) \<Longrightarrow> b' = b"
  "bucket_list b lq = (b', lres) \<Longrightarrow> bk_objects b' = bk_objects b \<and> bk_uploads b' = bk_uploads b"
  by (auto simp: bucket_head_def bucket_get_def bucket_list_def Let_def)

lemma bucket_staging_keeps:
  "bucket_create_upload b uq = (b', ures) \<Longrightarrow> bk_objects b' = bk_objects b"
  "bucket_upload_part b aq = (b', ares) \<Longrightarrow> bk_objects b' = bk_objects b"
  "bucket_abort_upload b xq = (b', xres) \<Longrightarrow> bk_objects b' = bk_objects b"
  by (auto simp: bucket_create_upload_def bucket_upload_part_def bucket_abort_upload_def Let_def
      split: if_splits option.splits)

lemma bucket_put_ok:
  assumes "bucket_put b q = (b', Ok v)"
  shows "bucket_body b' = (bucket_body b)(pq_key q \<mapsto> pq_body q)"
    and "(pq_precondition q = PAbsent \<longrightarrow> bucket_body b (pq_key q) = None)
      \<and> (\<forall>t. pq_precondition q = PMatch t \<longrightarrow> bucket_etag b (pq_key q) = Some t)"
  using assms bucket_check_ok [of "count_mutation b" "pq_key q" "pq_precondition q"]
    bucket_same_objects [of "count_mutation b" b]
  by (auto simp: bucket_put_def Let_def attempt_eq_Ok)

lemma bucket_complete_cases:
  assumes "bucket_complete_upload b q = (b', Ok v)"
  obtains up body where "bm_get (bk_uploads b) (mq_upload_id q) = Some up"
    "bucket_check b (mq_key q) (mq_precondition q) = Ok ()"
    "assemble (pu_parts up) (mq_parts q) = Ok body" "bucket_body b' = (bucket_body b)(mq_key q \<mapsto> body)"
proof -
  obtain b1 where b1: "b1 = (count_mutation b)\<lparr>bk_completed := bk_completed b + 1\<rparr>" by simp
  have kept: "bk_objects b1 = bk_objects b" "bk_uploads b1 = bk_uploads b" by (simp_all add: b1)
  have same: "bucket_check b1 = bucket_check b" "bucket_body (b1\<lparr>bk_uploads := u\<rparr>) = bucket_body b" for u
    by (rule bucket_check_same) (use kept bucket_same_objects [of "b1\<lparr>bk_uploads := u\<rparr>" b] in simp_all)
  show thesis
    using assms that unfolding bucket_complete_upload_def b1 [symmetric] Let_def
    by (auto simp: attempt_eq_Ok same kept simp del: upt_Suc split: if_splits)
qed

interpretation bucket: s3_service bucket_ops bkt bucket_body bucket_etag bucket_part for bkt
proof unfold_locales
  fix r r' and gq :: get_request and g i j b
  assume g: "o_get bucket_ops r gq = (r', Ok g)" "gq_range gq = byte_range i j" "i \<le> j"
    "bucket_body r (gq_key gq) = Some b" "j < length b"
  then obtain obj where obj: "bm_get (bk_objects r) (gq_key gq) = Some obj" "so_body obj = b"
    by (auto simp: bucket_body_def)
  then show "gr_body g = take (j + 1 - i) (drop i b)"
    using g by (auto simp: bucket_ops_def bucket_get_def obind_eq_Ok Let_def dest: parse_byte_range split: if_splits)
next
  fix r r' and mq :: complete_upload_request and v bs
  assume c: "o_complete_upload bucket_ops r mq = (r', Ok v)"
    "map pt_number (mq_parts mq) = [1 ..< length bs + 1]"
    "\<And>i. i < length bs \<Longrightarrow> bucket_part r (mq_upload_id mq) (i + 1) = Some (bs ! i)"
  then have "bucket_complete_upload r mq = (r', Ok v)" by (simp add: bucket_ops_def)
  then obtain up body where up: "bm_get (bk_uploads r) (mq_upload_id mq) = Some up"
    "assemble (pu_parts up) (mq_parts mq) = Ok body" "bucket_body r' = (bucket_body r)(mq_key mq \<mapsto> body)"
    by (rule bucket_complete_cases)
  have "assemble (pu_parts up) (mq_parts mq) = Ok (concat bs)"
    using c(2,3) up(1) by (intro assemble_bodies [of _ 1]) (auto simp: bucket_part_def)
  then show "bucket_body r' = (bucket_body r)(mq_key mq \<mapsto> concat bs)" using up by simp
next
  fix r r' and mq :: complete_upload_request and v
  assume "o_complete_upload bucket_ops r mq = (r', Ok v)"
  then have "bucket_complete_upload r mq = (r', Ok v)" by (simp add: bucket_ops_def)
  then show "(mq_precondition mq = PAbsent \<longrightarrow> bucket_body r (mq_key mq) = None)
      \<and> (\<forall>t. mq_precondition mq = PMatch t \<longrightarrow> bucket_etag r (mq_key mq) = Some t)"
    by (rule bucket_complete_cases) (rule bucket_check_ok)
next
  fix r r' and aq :: upload_part_request and t
  assume "o_upload_part bucket_ops r aq = (r', Ok t)"
  then show "bucket_part r' (aq_upload_id aq) =
      (bucket_part r (aq_upload_id aq))(aq_part_number aq \<mapsto> aq_body aq)"
    by (auto simp: bucket_ops_def bucket_upload_part_def bucket_part_def Let_def fun_eq_iff split: if_splits option.splits)
next
  fix r r' and pq :: put_request and v
  assume "o_put bucket_ops r pq = (r', Ok v)"
  then have p: "bucket_put r pq = (r', Ok v)" by (simp add: bucket_ops_def)
  show "bucket_body r' = (bucket_body r)(pq_key pq \<mapsto> pq_body pq)" by (rule bucket_put_ok [OF p])
  show "(pq_precondition pq = PAbsent \<longrightarrow> bucket_body r (pq_key pq) = None)
      \<and> (\<forall>t. pq_precondition pq = PMatch t \<longrightarrow> bucket_etag r (pq_key pq) = Some t)"
    by (rule bucket_put_ok [OF p])
qed (auto simp: bucket_ops_def bucket_head_def obind_eq_Ok obind_eq_Inl ok_or_def bucket_body_def [abs_def] bucket_etag_def [abs_def]
       bucket_part_def [abs_def] split: option.splits dest: bucket_reads_keep bucket_staging_keeps)

end
