(* ===== verification/S3_Staging.thy ===== *)
theory S3_Staging
  imports S3_Service
begin

text \<open>
  What a staged handle stands for: the contents that closing it would publish. A stream stands
  for its uploaded parts followed by its pending tail, a buffer for its bytes, or for the object
  it was opened on while it has none.
\<close>

text \<open>Two states of the filesystem that differ in the store only, and not in its objects.\<close>

definition calm ::
  "('r \<Rightarrow> rstr \<Rightarrow> byte list option) \<Rightarrow> ('r \<Rightarrow> rstr \<Rightarrow> rstr option) \<Rightarrow> 'r s3_vfs \<Rightarrow> 'r s3_vfs \<Rightarrow> bool" where
  "calm body_at etag_at s t \<longleftrightarrow> t = s\<lparr>s3_remote := s3_remote t\<rparr>
     \<and> body_at (s3_remote t) = body_at (s3_remote s) \<and> etag_at (s3_remote t) = etag_at (s3_remote s)"

lemma calm_refl [simp]: "calm ba ea s s"
  by (simp add: calm_def)

lemma calm_trans: "calm ba ea s t \<Longrightarrow> calm ba ea t u \<Longrightarrow> calm ba ea s u"
  unfolding calm_def by (metis (no_types, lifting) s3_vfs.surjective s3_vfs.update_convs(8))

lemma calmD:
  assumes "calm ba ea s t"
  shows "s3_bucket t = s3_bucket s" "s3_root_prefix t = s3_root_prefix s" "s3_config_of t = s3_config_of s"
    "s3_part_size t = s3_part_size s" "s3_next_handle t = s3_next_handle s" "s3_handles t = s3_handles s"
    "s3_cells t = s3_cells s" "part_size t = part_size s"
    "ba (s3_remote t) = ba (s3_remote s)" "ea (s3_remote t) = ea (s3_remote s)"
  using assms unfolding calm_def part_size_def [abs_def] by (metis s3_vfs.select_convs s3_vfs.surjective s3_vfs.update_convs(8))+

lemma calm_ask:
  assumes "ask s f = (t, res)"
    and "\<And>r' res. f (s3_remote s) = (r', res) \<Longrightarrow> ba r' = ba (s3_remote s) \<and> ea r' = ea (s3_remote s)"
  shows "calm ba ea s t"
  using assms by (cases "f (s3_remote s)") (auto simp: ask_def calm_def)

lemma ask_vfs_fst: "ask_vfs s f = (t, res) \<Longrightarrow> \<exists>res0. ask s f = (t, res0) \<and> res = vfs_result into_vfs res0"
  by (cases "ask s f") (simp add: ask_vfs_def)

lemma vfs_result_Ok [simp]: "vfs_result g res = Ok v \<longleftrightarrow> res = Ok v"
  by (cases res) (auto simp: vfs_result_def split: fault.splits)

lemma ask_vfs_Ok: "ask_vfs s f = (t, Ok v) \<Longrightarrow> ask s f = (t, Ok v)"
  by (metis ask_vfs_fst vfs_result_Ok)

lemma ask_Ok: "ask s f = (t, Ok v) \<Longrightarrow> f (s3_remote s) = (s3_remote t, Ok v)"
  by (cases "f (s3_remote s)") (auto simp: ask_def)

text \<open>Induction on the turns of the loops.\<close>

lemma flush_parts_rule [consumes 1, case_names stop fail turn]:
  assumes "flush_parts ops s key st = Some y"
    and stop: "\<And>s st. length (sm_buffer st) < part_size s (uploaded_parts st) \<Longrightarrow> P s st ((s, st), Ok ())"
    and fail: "\<And>s st s1 st1 e. flush_part ops s key st = ((s1, st1), Inl e) \<Longrightarrow> P s st ((s1, st1), Inl e)"
    and turn: "\<And>s st s1 st1 y. part_size s (uploaded_parts st) \<le> length (sm_buffer st) \<Longrightarrow>
      flush_part ops s key st = ((s1, st1), Ok ()) \<Longrightarrow> P s1 st1 y \<Longrightarrow> P s st y"
  shows "P s st y"
proof -
  have "ops = ops \<longrightarrow> key = key \<longrightarrow> P s st y"
  proof (rule flush_parts.raw_induct [where P = "\<lambda>o' s k st y. o' = ops \<longrightarrow> k = key \<longrightarrow> P s st y", OF _ assms(1)], intro impI)
    fix f o' s k st y
    assume IH: "\<And>o' s k st y. f o' s k st = Some y \<Longrightarrow> o' = ops \<longrightarrow> k = key \<longrightarrow> P s st y"
      and step: "(if length (sm_buffer st) < part_size s (uploaded_parts st) then Some ((s, st), Ok ())
         else case flush_part o' s k st of ((s1, st1), Inl e) \<Rightarrow> Some ((s1, st1), Inl e)
           | ((s1, st1), Inr _) \<Rightarrow> f o' s1 k st1) = Some y" and eqs: "o' = ops" "k = key"
    obtain s1 st1 r1 where f: "flush_part ops s key st = ((s1, st1), r1)" by (metis surj_pair)
    show "P s st y"
    proof (cases "length (sm_buffer st) < part_size s (uploaded_parts st)")
      case True
      then show ?thesis using step stop by auto
    next
      case False
      then show ?thesis
      proof (cases r1)
        case (Inl e)
        then show ?thesis using step f False fail [of s st s1 st1 e] unfolding eqs by simp
      next
        case (Inr u)
        then have "f ops s1 key st1 = Some y" using step f False unfolding eqs by simp
        then show ?thesis using turn [of s st s1 st1 y] IH f Inr False by simp
      qed
    qed
  qed
  then show ?thesis by simp
qed

lemma fill_gap_rule [consumes 1, case_names stop refused fail turn]:
  assumes "fill_gap ops s key st target = Some y"
    and stop: "\<And>s st e. stream_end st = Ok e \<Longrightarrow> target \<le> e \<Longrightarrow> P s st ((s, st), Ok ())"
    and refused: "\<And>s st f. P s st ((s, st), Inl f)"
    and fail: "\<And>s st bytes s1 st1 f. flush_parts ops s key (st\<lparr>sm_buffer := bytes\<rparr>) = Some ((s1, st1), Inl f) \<Longrightarrow>
      P s st ((s1, st1), Inl f)"
    and turn: "\<And>s st e k bytes s1 st1 y. stream_end st = Ok e \<Longrightarrow> 0 < k \<Longrightarrow> e + k \<le> target \<Longrightarrow>
      bytes = sm_buffer st @ replicate k 0 \<Longrightarrow>
      flush_parts ops s key (st\<lparr>sm_buffer := bytes\<rparr>) = Some ((s1, st1), Ok ()) \<Longrightarrow> P s1 st1 y \<Longrightarrow> P s st y"
  shows "P s st y"
proof -
  have "ops = ops \<longrightarrow> key = key \<longrightarrow> target = target \<longrightarrow> P s st y"
  proof (rule fill_gap.raw_induct [where P = "\<lambda>o' s k st g y. o' = ops \<longrightarrow> k = key \<longrightarrow> g = target \<longrightarrow> P s st y", OF _ assms(1)],
      intro impI)
    fix f o' s k st g y
    assume IH: "\<And>o' s k st g y. f o' s k st g = Some y \<Longrightarrow> o' = ops \<longrightarrow> k = key \<longrightarrow> g = target \<longrightarrow> P s st y"
      and step: "(case stream_end st of Inl e \<Rightarrow> Some ((s, st), Inl e)
         | Inr e \<Rightarrow> if g \<le> e then Some ((s, st), Ok ())
           else let room = max 1 (part_size s (uploaded_parts st) - length (sm_buffer st)) in
             (case vec_resize (sm_buffer st) (length (sm_buffer st) + min room (g - e)) of
                Inl f \<Rightarrow> Some ((s, st), Inl f)
              | Inr bytes \<Rightarrow>
                 (case flush_parts o' s k (st\<lparr>sm_buffer := bytes\<rparr>) of
                    None \<Rightarrow> None
                  | Some ((s1, st1), Inl f) \<Rightarrow> Some ((s1, st1), Inl f)
                  | Some ((s1, st1), Inr _) \<Rightarrow> f o' s1 k st1 g))) = Some y"
      and eqs: "o' = ops" "k = key" "g = target"
    show "P s st y"
    proof (cases "stream_end st")
      case (Inl e)
      then show ?thesis using step refused by auto
    next
      case e: (Inr e)
      show ?thesis
      proof (cases "target \<le> e")
        case True
        then show ?thesis using step e stop eqs by auto
      next
        case False
        obtain n where n: "n = min (max 1 (part_size s (uploaded_parts st) - length (sm_buffer st))) (target - e)" by simp
        show ?thesis
        proof (cases "vec_resize (sm_buffer st) (length (sm_buffer st) + n)")
          case (Inl f)
          then show ?thesis using step e False refused eqs n by auto
        next
          case b: (Inr bytes)
          then have bytes: "bytes = sm_buffer st @ replicate n 0"
            by (auto simp: vec_resize_def split: if_splits)
          have "0 < n" "e + n \<le> target" using n False by auto
          note go = turn [OF e this bytes]
          from step e False b n eqs show ?thesis
            by (auto split: option.splits prod.splits sum.splits simp: Let_def intro: fail go IH [rule_format])
        qed
      qed
    qed
  qed
  then show ?thesis by simp
qed

context s3_service
begin

abbreviation still :: "'r s3_vfs \<Rightarrow> 'r s3_vfs \<Rightarrow> bool" where
  "still \<equiv> calm body_at etag_at"

definition stream_rep :: "'r s3_vfs \<Rightarrow> stream \<Rightarrow> byte list \<Rightarrow> bool" where
  "stream_rep s st c \<longleftrightarrow> (\<exists>bs. c = concat bs @ sm_buffer st \<and> sm_flushed st = length (concat bs)
     \<and> map length bs = map (part_size s) [0 ..< length bs]
     \<and> (case sm_upload st of
          None \<Rightarrow> bs = []
        | Some up \<Rightarrow> map pt_number (up_parts up) = [1 ..< length bs + 1]
            \<and> (\<forall>i < length bs. part_at (s3_remote s) (up_id up) (i + 1) = Some (bs ! i))))"

subsection \<open>Requests that stage\<close>

lemma still_list: "list_page ops s prefix d c n = (t, res) \<Longrightarrow> still s t"
  unfolding list_page_def using list_keeps by (auto dest!: ask_vfs_fst intro: calm_ask)

lemma still_head: "head_key ops s cs = (t, res) \<Longrightarrow> still s t"
  unfolding head_key_def using head_keeps by (auto intro: calm_ask)

lemma still_upload_part: "upload_part ops s key uid n body = (t, res) \<Longrightarrow> still s t"
  unfolding upload_part_def using upload_keeps by (auto dest!: ask_vfs_fst intro: calm_ask)

lemma still_abort_upload: "abort_upload ops s key up = (t, res) \<Longrightarrow> still s t"
  unfolding abort_upload_def using abort_keeps by (auto dest!: ask_vfs_fst intro: calm_ask)

lemma still_begin_upload: "begin_upload ops s key st = ((t, st1), res) \<Longrightarrow> still s t"
  unfolding begin_upload_def using create_keeps
  by (auto simp: Let_def dest!: ask_vfs_fst intro: calm_ask split: option.splits prod.splits sum.splits)

lemma still_get_range: "get_range ops s key f i j n = (t, res) \<Longrightarrow> still s t"
  unfolding get_range_def and_then_def using get_keeps
  by (auto dest!: ask_vfs_fst intro: calm_ask split: prod.splits sum.splits if_splits)

lemma still_flush_part:
  assumes "flush_part ops s key st = ((t, st1), res)"
  shows "still s t"
proof -
  obtain s1 st2 res2 where b: "begin_upload ops s key st = ((s1, st2), res2)" by (metis surj_pair)
  then have "still s s1" by (rule still_begin_upload)
  moreover have "still s1 t"
    using assms b unfolding flush_part_def and_then_def
    by (auto simp: Let_def split: sum.splits if_splits prod.splits option.splits dest: still_upload_part)
  ultimately show ?thesis by (rule calm_trans)
qed

lemma still_flush_parts:
  assumes "flush_parts ops s key st = Some y"
  shows "still s (fst (fst y))"
  using assms by (induction rule: flush_parts_rule) (auto dest: still_flush_part intro: calm_trans)

lemma still_fill_gap:
  assumes "fill_gap ops s key st target = Some y"
  shows "still s (fst (fst y))"
  using assms by (induction rule: fill_gap_rule) (auto dest: still_flush_parts intro: calm_trans)

subsection \<open>The contents of a stream\<close>

lemma stream_rep_new [simp]: "stream_rep s (stream_new p) []"
  by (auto simp: stream_rep_def stream_new_def intro!: exI [of _ "[]"])

lemma stream_rep_parts:
  assumes "stream_rep s st c"
  shows "sm_flushed st = sum_list (map (part_size s) [0 ..< uploaded_parts st])"
    and "length c = sm_flushed st + length (sm_buffer st)"
    and "sm_buffer st = drop (sm_flushed st) c" "sm_flushed st \<le> length c"
proof -
  obtain bs where bs: "c = concat bs @ sm_buffer st" "sm_flushed st = length (concat bs)"
      "map length bs = map (part_size s) [0 ..< length bs]"
      "case sm_upload st of None \<Rightarrow> bs = [] | Some up \<Rightarrow> map pt_number (up_parts up) = [1 ..< length bs + 1]
        \<and> (\<forall>i < length bs. part_at (s3_remote s) (up_id up) (i + 1) = Some (bs ! i))"
    using assms unfolding stream_rep_def by blast
  have "uploaded_parts st = length bs"
    using bs(4) by (auto simp: uploaded_parts_def simp del: upt_Suc split: option.splits dest: arg_cong [where f = length])
  then show "sm_flushed st = sum_list (map (part_size s) [0 ..< uploaded_parts st])"
    using bs(2,3) by (simp add: length_concat)
  show "length c = sm_flushed st + length (sm_buffer st)" "sm_flushed st \<le> length c"
    "sm_buffer st = drop (sm_flushed st) c"
    using bs(1,2) by simp_all
qed

lemma stream_rep_end: "stream_rep s st c \<Longrightarrow> stream_end st = Ok e \<Longrightarrow> e = length c"
  using stream_rep_parts(2) [of s st c] by (auto simp: stream_end_def checked_add_def split: if_splits)

text \<open>The tail of a stream can be replaced.\<close>

lemma stream_rep_tail:
  assumes "stream_rep s st c"
  shows "stream_rep s (st\<lparr>sm_buffer := b\<rparr>) (take (sm_flushed st) c @ b)"
  using assms unfolding stream_rep_def by (auto split: option.splits)

lemma stream_rep_begun:
  assumes b: "begin_upload ops s key st = ((s1, st1), Ok up)" and rep: "stream_rep s st c"
  shows "stream_rep s1 st1 c" "st1 = st\<lparr>sm_upload := Some up\<rparr>" "length (up_parts up) = uploaded_parts st"
proof -
  have t: "still s s1" using b by (rule still_begin_upload)
  show "st1 = st\<lparr>sm_upload := Some up\<rparr>" "length (up_parts up) = uploaded_parts st"
    using b unfolding begin_upload_def uploaded_parts_def
    by (auto simp: Let_def split: option.splits prod.splits sum.splits)
  show "stream_rep s1 st1 c"
  proof (cases "sm_upload st")
    case None
    then have "c = sm_buffer st" "sm_flushed st = 0" using rep by (auto simp: stream_rep_def)
    then show ?thesis
      using b None unfolding begin_upload_def stream_rep_def
      by (auto simp: Let_def intro!: exI [of _ "[]"] split: prod.splits sum.splits)
  qed (use b rep in \<open>simp add: begin_upload_def\<close>)
qed

lemma flush_part_rep:
  assumes f: "flush_part ops s key st = ((s1, st1), Ok v)" and rep: "stream_rep s st c"
    and bucket: "s3_bucket s = bucket" and full: "part_size s (uploaded_parts st) \<le> length (sm_buffer st)"
  shows "stream_rep s1 st1 c \<and> sm_precondition st1 = sm_precondition st"
proof -
  define n where "n = uploaded_parts st"
  define size where "size = part_size s n"
  obtain s2 st2 up where b: "begin_upload ops s key st = ((s2, st2), Ok up)"
    using f unfolding flush_part_def and_then_def by (auto split: prod.splits sum.splits)
  note begun = stream_rep_begun [OF b rep]
  have q: "still s s2" using b by (rule still_begin_upload)
  obtain etag where u: "upload_part ops s2 key (up_id up) (n + 1) (take size (sm_buffer st)) = (s1, Ok etag)"
    and st1: "sm_upload st1 = Some (up\<lparr>up_parts := up_parts up @ [\<lparr>pt_number = n + 1, pt_etag = etag\<rparr>]\<rparr>)"
      "sm_buffer st1 = drop size (sm_buffer st)" "sm_precondition st1 = sm_precondition st"
      "sm_flushed st1 = sm_flushed st + length (take size (sm_buffer st))"
    using f b begun(2) unfolding flush_part_def n_def [symmetric] size_def [symmetric] Let_def
    by (auto simp: checked_add_def split: if_splits prod.splits sum.splits option.splits)
  have part: "part_at (s3_remote s1) (up_id up) = (part_at (s3_remote s2) (up_id up))(n + 1 \<mapsto> take size (sm_buffer st))"
    using upload_ok [OF ask_Ok [OF ask_vfs_Ok [OF u [unfolded upload_part_def]]]] calmD(1) [OF q] bucket by simp
  have q1: "part_size s1 = part_size s2" using still_upload_part [OF u] by (rule calmD)
  obtain bs where bs: "c = concat bs @ sm_buffer st" "sm_flushed st = length (concat bs)"
      "map length bs = map (part_size s2) [0 ..< length bs]" "map pt_number (up_parts up) = [1 ..< length bs + 1]"
      "\<forall>i < length bs. part_at (s3_remote s2) (up_id up) (i + 1) = Some (bs ! i)"
    using begun(1) unfolding stream_rep_def begun(2) by auto
  have n: "n = length bs" using begun(3) bs(4) by (auto simp: n_def simp del: upt_Suc dest: arg_cong [where f = length])
  have len: "length (take size (sm_buffer st)) = part_size s2 n"
    using full calmD(8) [OF q] by (simp add: size_def n_def)
  have "stream_rep s1 st1 c"
    unfolding stream_rep_def
    using bs st1 n part len q1 by (auto simp: nth_append intro!: exI [of _ "bs @ [take size (sm_buffer st)]"])
  then show ?thesis using st1(3) by simp
qed

lemma flush_parts_rep:
  assumes "flush_parts ops s key st = Some y" "snd y = Ok ()" "stream_rep s st c" "s3_bucket s = bucket"
  shows "stream_rep (fst (fst y)) (snd (fst y)) c \<and> sm_precondition (snd (fst y)) = sm_precondition st"
  using assms
proof (induction rule: flush_parts_rule)
  case (turn s st s1 st1 y)
  then show ?case
    using flush_part_rep [OF turn(2,5,6,1)] calmD(1) [OF still_flush_part [OF turn(2)]] by simp
qed simp_all

lemma fill_gap_rep:
  assumes "fill_gap ops s key st target = Some y" "snd y = Ok ()" "stream_rep s st c" "s3_bucket s = bucket"
  shows "stream_rep (fst (fst y)) (snd (fst y)) (c @ replicate (target - length c) 0)
    \<and> sm_precondition (snd (fst y)) = sm_precondition st"
  using assms
proof (induction arbitrary: c rule: fill_gap_rule)
  case (stop s st e)
  then show ?case using stream_rep_end [of s st c e] by simp
next
  case (turn s st e k bytes s1 st1 y)
  have e: "e = length c" using stream_rep_end turn by blast
  have c: "take (sm_flushed st) c @ bytes = c @ replicate k 0"
    using turn(4) stream_rep_parts(3) [OF turn(8)] by (metis append.assoc append_take_drop_id)
  have "stream_rep s1 st1 (c @ replicate k 0) \<and> sm_precondition st1 = sm_precondition (st\<lparr>sm_buffer := bytes\<rparr>)"
    using flush_parts_rep [OF turn(5) _ stream_rep_tail [OF turn(8)] turn(9)] unfolding c by simp
  moreover have "s3_bucket s1 = bucket" using still_flush_parts [OF turn(5)] turn(9) by (auto dest: calmD(1))
  ultimately have "stream_rep (fst (fst y)) (snd (fst y)) ((c @ replicate k 0) @ replicate (target - length (c @ replicate k 0)) 0)
      \<and> sm_precondition (snd (fst y)) = sm_precondition st"
    using turn(6) [OF turn(7), of "c @ replicate k 0"] by simp
  moreover have "replicate k 0 @ replicate (target - length (c @ replicate k 0)) 0 = replicate (target - length c) (0::byte)"
    using turn(3) e by (simp add: replicate_add [symmetric])
  ultimately show ?case by simp
qed simp_all

end

end
