(* ===== verification/S3_Session.thy ===== *)
theory S3_Session
  imports S3_Staging
begin

text \<open>
  Sessions on a writable handle: what every operation on it keeps, what its contents become, and
  what closing it publishes.
\<close>

lemma follow_cases:
  assumes "follow out k = Some y"
  obtains (err) s e where "out = Some (s, Inl e)" "y = (s, Inl e)" | (ok) s v where "out = Some (s, Inr v)" "k s v = Some y"
  using assms by (auto simp: follow_def split: option.splits sum.splits)

lemma follow_simps [simp]:
  "follow None k = None" "follow (Some (s, Inl e)) k = Some (s, Inl e)" "follow (Some (s, Inr v)) k = k s v"
  by (simp_all add: follow_def)

lemma guard_s3_simps [simp]: "guard_s3 s (Inl e) k = Some (s, Inl e)" "guard_s3 s (Inr v) k = k v"
  by (simp_all add: guard_s3_def)

text \<open>A call that touches one cell and stages in the store.\<close>

definition keeps ::
  "('r \<Rightarrow> rstr \<Rightarrow> byte list option) \<Rightarrow> ('r \<Rightarrow> rstr \<Rightarrow> rstr option) \<Rightarrow> nat \<Rightarrow> 'r s3_vfs \<Rightarrow> 'r s3_vfs \<Rightarrow> bool" where
  "keeps ba ea i s t \<longleftrightarrow>
     s3_bucket t = s3_bucket s \<and> s3_root_prefix t = s3_root_prefix s \<and> s3_config_of t = s3_config_of s
     \<and> s3_part_size t = s3_part_size s \<and> s3_next_handle t = s3_next_handle s \<and> s3_handles t = s3_handles s
     \<and> s3_cells t = (s3_cells s)[i := cell_of t i] \<and> ba (s3_remote t) = ba (s3_remote s) \<and> ea (s3_remote t) = ea (s3_remote s)
     \<and> hs_key (cell_of t i) = hs_key (cell_of s i) \<and> hs_mode (cell_of t i) = hs_mode (cell_of s i)
     \<and> hs_released (cell_of t i) = hs_released (cell_of s i)"

lemma keeps_refl [simp]: "keeps ba ea i s s"
  by (simp add: keeps_def)

lemma keeps_trans:
  assumes "keeps ba ea i s t" "keeps ba ea i t u" "i < length (s3_cells s)"
  shows "keeps ba ea i s u"
proof -
  have "s3_cells u = (s3_cells s)[i := cell_of u i]"
    using assms(1,2) unfolding keeps_def by (metis list_update_overwrite)
  then show ?thesis using assms(1,2) unfolding keeps_def by simp
qed

lemma keepsD:
  assumes "keeps ba ea i s t"
  shows "s3_bucket t = s3_bucket s" "s3_handles t = s3_handles s" "length (s3_cells t) = length (s3_cells s)"
    "s3_config_of t = s3_config_of s" "s3_part_size t = s3_part_size s"
    "ba (s3_remote t) = ba (s3_remote s)" "ea (s3_remote t) = ea (s3_remote s)"
    "hs_key (cell_of t i) = hs_key (cell_of s i)" "hs_mode (cell_of t i) = hs_mode (cell_of s i)"
    "hs_released (cell_of t i) = hs_released (cell_of s i)"
  using assms unfolding keeps_def by (blast | metis length_list_update)+

lemma keeps_set_cell:
  assumes "calm ba ea s t" "i < length (s3_cells s)"
    and "hs_key hs = hs_key (cell_of s i)" "hs_mode hs = hs_mode (cell_of s i)" "hs_released hs = hs_released (cell_of s i)"
  shows "keeps ba ea i s (set_cell t i hs)"
  using assms calmD [OF assms(1)] unfolding keeps_def set_cell_def by simp

lemma keeps_quiet:
  assumes "calm ba ea s t" "i < length (s3_cells s)"
  shows "keeps ba ea i s t"
  using assms calmD [OF assms(1)] unfolding keeps_def by simp

lemma cell_of_set_cell [simp]: "i < length (s3_cells s) \<Longrightarrow> cell_of (set_cell s i hs) i = hs"
  by (simp add: set_cell_def)

lemma set_cell_simps [simp]:
  "s3_remote (set_cell s i hs) = s3_remote s" "s3_bucket (set_cell s i hs) = s3_bucket s"
  "s3_handles (set_cell s i hs) = s3_handles s" "length (s3_cells (set_cell s i hs)) = length (s3_cells s)"
  "part_size (set_cell s i hs) = part_size s"
  by (simp_all add: set_cell_def part_size_def [abs_def])

context s3_service
begin

abbreviation kept :: "nat \<Rightarrow> 'r s3_vfs \<Rightarrow> 'r s3_vfs \<Rightarrow> bool" where
  "kept \<equiv> keeps body_at etag_at"

lemma still_get_whole: "get_whole ops s key f = (t, res) \<Longrightarrow> still s t"
  unfolding get_whole_def by (auto dest: still_get_range split: if_splits)

lemma still_materialize: "materialize ops s key buf = ((t, buf1), res) \<Longrightarrow> still s t"
  unfolding materialize_def
  by (auto simp: attempt_cases dest: still_get_whole split: option.splits prod.splits sum.splits)

lemma still_fail_stream: "fail_stream ops s hs st e = (t, hs1) \<Longrightarrow> still s t"
  using still_abort_upload [of s "hs_key hs" "the (sm_upload st)"] unfolding fail_stream_def
  by (cases "abort_upload ops s (hs_key hs) (the (sm_upload st))") (auto split: option.splits)

lemma still_write_stream:
  assumes "write_stream ops s key st target data = Some y"
  shows "still s (fst (fst y))"
  using assms unfolding write_stream_def
proof (cases rule: follow_cases)
  case (err x e)
  then show ?thesis using still_fill_gap by fastforce
next
  case (ok x v)
  obtain s1 st1 where x: "x = (s1, st1)" by (cases x)
  have "still s s1" using still_fill_gap [OF ok(1)] x by simp
  moreover have "still s1 (fst (fst y))"
    using ok(2) unfolding x Let_def guard_s3_def
    by (auto dest!: still_flush_parts elim!: follow_cases split: sum.splits)
  ultimately show ?thesis by (rule calm_trans)
qed

lemma kept_settle_stream:
  assumes "settle_stream ops i hs out = Some (t, res)" "i < length (s3_cells s)" "hs = cell_of s i"
    and "\<And>y. out = Some y \<Longrightarrow> still s (fst (fst y))"
  shows "kept i s t"
proof -
  obtain s1 st1 r where out: "out = Some ((s1, st1), r)"
    using assms(1) by (auto simp: settle_stream_def split: option.splits)
  then have q: "still s s1" using assms(4) by fastforce
  have failed: "kept i s (set_cell s2 i hs2)" if "fail_stream ops s1 hs st1 e = (s2, hs2)" for e s2 hs2
    using that q assms(2,3) still_fail_stream [OF that] calm_trans
    by (intro keeps_set_cell) (auto simp: fail_stream_def)
  have "kept i s (set_cell s1 i (hs\<lparr>hs_staging := SStream st1\<rparr>))"
    using q assms(2,3) by (intro keeps_set_cell) auto
  then show ?thesis
    using assms(1) out failed unfolding settle_stream_def
    by (auto split: sum.splits fault.splits prod.splits)
qed

lemma still_write_buffer: "write_buffer ops s hs buf off data = ((t, buf1), res) \<Longrightarrow> still s t"
  unfolding write_buffer_def
  by (cases "materialize ops s (hs_key hs) buf")
    (auto simp: and_then_def Let_def attempt_cases dest: still_materialize split: sum.splits prod.splits)

lemma kept_store_buffer:
  assumes "store_buffer i (cell_of s i) out = (t, res)" "i < length (s3_cells s)" "still s (fst (fst out))"
  shows "kept i s t"
  using assms by (auto simp: store_buffer_def split: prod.splits intro!: keeps_set_cell)

lemma kept_write_resolved:
  assumes "write_resolved ops s i off data = Some (t, res)" "i < length (s3_cells s)"
  shows "kept i s t"
proof (cases "hs_staging (cell_of s i)")
  case (SBuffer buf)
  obtain s1 buf1 r where w: "write_buffer ops s (cell_of s i) buf off data = ((s1, buf1), r)" by (metis surj_pair)
  have "kept i s (fst (store_buffer i (cell_of s i) ((s1, buf1), r)))"
    using kept_store_buffer [of i s "((s1, buf1), r)"] still_write_buffer [OF w] assms(2) by (simp add: store_buffer_def)
  then show ?thesis
    using assms(1) SBuffer w by (auto simp: write_resolved_def Let_def split: if_splits)
next
  case (SStream st)
  have "kept i s t" if "settle_stream ops i (cell_of s i) (write_stream ops s (hs_key (cell_of s i)) st target data) = Some (t, res)"
    for target
    using that assms(2) by (rule kept_settle_stream) (auto dest: still_write_stream)
  then show ?thesis
    using assms(1) SStream by (auto simp: write_resolved_def Let_def guard_s3_def split: if_splits sum.splits)
qed (use assms in \<open>auto simp: write_resolved_def Let_def split: if_splits\<close>)

lemma kept_truncate_resolved:
  assumes "truncate_resolved ops s i len = Some (t, res)" "i < length (s3_cells s)"
  shows "kept i s t"
proof (cases "hs_staging (cell_of s i)")
  case (SBuffer buf)
  obtain s1 buf1 r where m: "materialize ops s (hs_key (cell_of s i)) buf = ((s1, buf1), r)" by (metis surj_pair)
  have "kept i s t" if "store_buffer i (cell_of s i) ((s1, b), r) = (t, res)" for b r
    using that assms(2) by (rule kept_store_buffer) (simp add: still_materialize [OF m])
  then show ?thesis
    using assms(1) SBuffer m by (auto simp: truncate_resolved_def Let_def and_then_def attempt_def split: if_splits sum.splits)
next
  case (SStream st)
  have "kept i s t" if "settle_stream ops i (cell_of s i) (fill_gap ops s (hs_key (cell_of s i)) st len) = Some (t, res)"
    using that assms(2) by (rule kept_settle_stream) (auto dest: still_fill_gap)
  moreover have "kept i s (set_cell s i ((cell_of s i)\<lparr>hs_staging := SStream st1\<rparr>))" for st1
    using assms(2) by (intro keeps_set_cell) auto
  ultimately show ?thesis
    using assms(1) SStream by (auto simp: truncate_resolved_def Let_def guard_s3_def split: if_splits sum.splits)
qed (use assms in \<open>auto simp: truncate_resolved_def Let_def split: if_splits\<close>)

lemma kept_read_resolved:
  assumes "read_resolved ops s i off n = (t, res)" "i < length (s3_cells s)"
  shows "kept i s t"
proof (cases "hs_staging (cell_of s i)")
  case (SRemote f)
  have "still s t" if "read_remote ops s (hs_key (cell_of s i)) f off n = (t, res)"
    using that by (auto simp: read_remote_def Let_def dest: still_get_range split: if_splits)
  then show ?thesis
    using assms SRemote by (auto simp: read_resolved_def Let_def intro: keeps_quiet split: if_splits)
next
  case (SBuffer buf)
  obtain s1 buf1 r where m: "materialize ops s (hs_key (cell_of s i)) buf = ((s1, buf1), r)" by (metis surj_pair)
  then have "kept i s (set_cell s1 i ((cell_of s i)\<lparr>hs_staging := SBuffer buf1\<rparr>))"
    using assms(2) by (intro keeps_set_cell still_materialize [OF m]) auto
  then show ?thesis
    using assms m SBuffer by (auto simp: read_resolved_def Let_def split: if_splits sum.splits)
qed (use assms in \<open>auto simp: read_resolved_def Let_def split: if_splits\<close>)

end

end
