(* ===== verification/S3_Listing.thy ===== *)
theory S3_Listing
  imports S3_Staging
begin

text \<open>
  Listing a directory: induction on the pages, what a listing yields, and that it ends whenever
  the service issues finitely many continuation tokens.
\<close>

definition page_entries ::
  "rstr \<Rightarrow> list_result \<Rightarrow> (rstr, metadata) bmap \<Rightarrow> bool \<Rightarrow> (rstr, metadata) bmap \<times> bool" where
  "page_entries prefix page entries present =
     (case add_objects prefix (lr_objects page) entries present of
        (entries1, present1) \<Rightarrow> add_prefixes prefix (lr_common_prefixes page) entries1 present1)"

lemma scan_loop_unfold:
  "scan_loop ops s prefix probe continuation seen entries present =
     (case list_page ops s prefix [slash] continuation (if probe then Some 2 else None) of
        (s1, Inl e) \<Rightarrow> Some (s1, Inl e)
      | (s1, Inr page) \<Rightarrow>
          let (entries2, present2) = page_entries prefix page entries present in
          if \<not> lr_truncated page then Some (s1, Ok (entries2, present2))
          else
            (case next_token page seen of
               Inl e \<Rightarrow> Some (s1, Inl e)
             | Inr token \<Rightarrow>
                 if probe \<and> entries2 \<noteq> [] then Some (s1, Ok (entries2, present2))
                 else scan_loop ops s1 prefix probe (Some token) (token # seen) entries2 present2))"
  by (subst scan_loop.simps) (simp add: page_entries_def Let_def split: prod.splits sum.splits)

lemma scan_loop_rule [consumes 1, case_names fail stop turn]:
  assumes "scan_loop ops s prefix probe continuation seen entries present = Some y"
    and fail: "\<And>s continuation seen entries present s1 e page. list_page ops s prefix [slash] continuation (if probe then Some 2 else None) = (s1, page) \<Longrightarrow>
      P s continuation seen entries present (s1, Inl e)"
    and stop: "\<And>s continuation seen entries present s1 page. list_page ops s prefix [slash] continuation (if probe then Some 2 else None) = (s1, Inr page) \<Longrightarrow>
      P s continuation seen entries present (s1, Ok (page_entries prefix page entries present))"
    and turn: "\<And>s continuation seen entries present s1 page token y. list_page ops s prefix [slash] continuation (if probe then Some 2 else None) = (s1, Inr page) \<Longrightarrow>
      next_token page seen = Ok token \<Longrightarrow>
      P s1 (Some token) (token # seen) (fst (page_entries prefix page entries present)) (snd (page_entries prefix page entries present)) y \<Longrightarrow>
      P s continuation seen entries present y"
  shows "P s continuation seen entries present y"
proof -
  have "ops = ops \<longrightarrow> prefix = prefix \<longrightarrow> probe = probe \<longrightarrow> P s continuation seen entries present y"
  proof (rule scan_loop.raw_induct [where P = "\<lambda>o' s p b c seen es pr y. o' = ops \<longrightarrow> p = prefix \<longrightarrow> b = probe \<longrightarrow> P s c seen es pr y",
        OF _ assms(1)], intro impI)
    fix f o' s p b c seen es pr y
    assume IH: "\<And>o' s p b c seen es pr y. f o' s p b c seen es pr = Some y \<Longrightarrow>
        o' = ops \<longrightarrow> p = prefix \<longrightarrow> b = probe \<longrightarrow> P s c seen es pr y"
      and step: "(case list_page o' s p [slash] c (if b then Some 2 else None) of
        (s1, Inl e) \<Rightarrow> Some (s1, Inl e)
      | (s1, Inr page) \<Rightarrow>
          let (entries1, present1) = add_objects p (lr_objects page) es pr;
              (entries2, present2) = add_prefixes p (lr_common_prefixes page) entries1 present1 in
          if \<not> lr_truncated page then Some (s1, Ok (entries2, present2))
          else
            (case next_token page seen of
               Inl e \<Rightarrow> Some (s1, Inl e)
             | Inr token \<Rightarrow>
                 if b \<and> entries2 \<noteq> [] then Some (s1, Ok (entries2, present2))
                 else f o' s1 p b (Some token) (token # seen) entries2 present2)) = Some y"
      and eqs: "o' = ops" "p = prefix" "b = probe"
    obtain s1 res where l: "list_page ops s prefix [slash] c (if probe then Some 2 else None) = (s1, res)" by (metis surj_pair)
    show "P s c seen es pr y"
    proof (cases res)
      case (Inl e)
      then show ?thesis using step l fail [OF l] unfolding eqs by auto
    next
      case (Inr page)
      obtain e2 p2 where pe: "page_entries prefix page es pr = (e2, p2)" by (cases "page_entries prefix page es pr")
      have stop': "P s c seen es pr (s1, Ok (e2, p2))" using stop [of s c s1 page seen es pr] l Inr pe by simp
      have turn': "P s c seen es pr y" if "next_token page seen = Ok token"
        "f ops s1 prefix probe (Some token) (token # seen) e2 p2 = Some y" for token
        using turn [of s c s1 page seen token es pr y] l Inr pe that IH by simp
      from step l Inr pe show ?thesis
        unfolding eqs page_entries_def
        by (auto simp: Let_def split: prod.splits if_splits sum.splits intro: stop' fail [OF l] turn')
    qed
  qed
  then show ?thesis by simp
qed

subsection \<open>What a listing yields\<close>

definition entry_ok :: "rstr \<times> metadata \<Rightarrow> bool" where
  "entry_ok e \<longleftrightarrow> valid_entry_name (fst e) \<and> (md_type (snd e) = DirectoryFile \<longrightarrow> md_len (snd e) = 0)"

lemma bm_insert_entries: "set (bm_insert k v m) \<subseteq> insert (k, v) (set m)"
  by (induction k v m rule: bm_insert.induct) auto

lemma add_objects_ok:
  assumes "bm_wf entries" "list_all entry_ok entries"
  shows "bm_wf (fst (add_objects prefix objs entries present)) \<and> list_all entry_ok (fst (add_objects prefix objs entries present))"
  using assms
proof (induction prefix objs entries present rule: add_objects.induct)
  case (2 prefix obj objs entries present)
  show ?case
  proof (cases "strip_prefix prefix (lo_key obj)")
    case (Some rel)
    have "list_all entry_ok (bm_insert rel \<lparr>md_type = RegularFile, md_len = lo_size obj\<rparr> entries)" if "valid_entry_name rel"
      using 2(5) bm_insert_entries [of rel _ entries] that by (fastforce simp: list_all_iff entry_ok_def)
    then show ?thesis using 2 Some by auto
  qed (use 2 in simp)
qed simp

lemma add_prefixes_ok:
  assumes "bm_wf entries" "list_all entry_ok entries"
  shows "bm_wf (fst (add_prefixes prefix cps entries present)) \<and> list_all entry_ok (fst (add_prefixes prefix cps entries present))"
  using assms
proof (induction prefix cps entries present rule: add_prefixes.induct)
  case (2 prefix cp cps entries present)
  have "list_all entry_ok (bm_insert name \<lparr>md_type = DirectoryFile, md_len = 0\<rparr> entries)" if "valid_entry_name name" for name
    using 2(4) bm_insert_entries [of name _ entries] that by (fastforce simp: list_all_iff entry_ok_def)
  with 2 show ?case by (auto split: option.splits)
qed simp

lemma page_entries_ok:
  assumes "bm_wf entries" "list_all entry_ok entries"
  shows "bm_wf (fst (page_entries prefix page entries present)) \<and> list_all entry_ok (fst (page_entries prefix page entries present))"
proof (cases "add_objects prefix (lr_objects page) entries present")
  case (Pair e1 p1)
  then show ?thesis
    using add_objects_ok [OF assms, of prefix "lr_objects page" present] add_prefixes_ok [of e1 prefix _ p1]
    by (simp add: page_entries_def)
qed

lemma scan_loop_ok:
  assumes "scan_loop ops s prefix probe continuation seen entries present = Some y" "snd y = Ok out"
    and "bm_wf entries" "list_all entry_ok entries"
  shows "bm_wf (fst out) \<and> list_all entry_ok (fst out)"
  using assms
proof (induction rule: scan_loop_rule)
  case (stop s continuation seen entries present s1 page)
  then show ?case using page_entries_ok by auto
next
  case (turn s continuation seen entries present s1 page token y)
  then show ?case using page_entries_ok by auto
qed simp

text \<open>A directory seen on one page hides a file of the same name on any other.\<close>

lemma scan_directory_sorted:
  assumes "scan_directory ops s components probe = Some (t, Ok listing)"
  shows "sorted_wrt (<) (map de_name (dl_entries listing))"
    and "\<forall>e\<in>set (dl_entries listing). valid_entry_name (de_name e)"
proof -
  obtain s1 entries present where "scan_loop ops s (directory_prefix s components) probe None [] [] (components = []) = Some (s1, Ok (entries, present))"
    and l: "dl_entries listing = map (\<lambda>(name, md). \<lparr>de_name = name, de_meta = md\<rparr>) entries"
    using assms by (auto simp: scan_directory_def follow_def split: option.splits sum.splits)
  then have "bm_wf entries" "list_all entry_ok entries" using scan_loop_ok [of ops s] by force+
  moreover have "map de_name (dl_entries listing) = map fst entries" unfolding l by (auto simp: comp_def)
  ultimately show "sorted_wrt (<) (map de_name (dl_entries listing))" by (simp only: bm_wf_def)
  show "\<forall>e\<in>set (dl_entries listing). valid_entry_name (de_name e)"
    using \<open>list_all entry_ok entries\<close> by (auto simp: l list_all_iff entry_ok_def)
qed

subsection \<open>Listing ends\<close>

text \<open>
  Repeated tokens are refused, so the number of pages is bounded when listing alone, from any
  state of the store, issues finitely many tokens.
\<close>

definition list_step :: "'r s3_ops \<Rightarrow> 'r \<Rightarrow> 'r \<Rightarrow> bool" where
  "list_step ops r r' \<longleftrightarrow> (\<exists>q. r' = fst (o_list ops r q))"

definition tokens_from :: "'r s3_ops \<Rightarrow> 'r \<Rightarrow> rstr set \<Rightarrow> bool" where
  "tokens_from ops r T \<longleftrightarrow> finite T \<and>
     (\<forall>r' q r'' page token. (list_step ops)\<^sup>*\<^sup>* r r' \<longrightarrow> o_list ops r' q = (r'', Ok page) \<longrightarrow>
        lr_next_continuation page = Some token \<longrightarrow> token \<in> T)"

definition paginates :: "'r s3_ops \<Rightarrow> bool" where
  "paginates ops \<longleftrightarrow> (\<forall>r. \<exists>T. tokens_from ops r T)"

lemma list_page_request:
  assumes "list_page ops s prefix d c n = (s1, res)"
  obtains q res0 where "o_list ops (s3_remote s) q = (s3_remote s1, res0)" "\<And>page. res = Ok page \<Longrightarrow> res0 = Ok page"
proof -
  define q where "q = \<lparr>lq_bucket = s3_bucket s, lq_prefix = prefix, lq_delimiter = d, lq_continuation = c, lq_max_keys = n\<rparr>"
  obtain r res0 where o: "o_list ops (s3_remote s) q = (r, res0)" by (cases "o_list ops (s3_remote s) q")
  then have "s3_remote s1 = r" "res = vfs_result into_vfs res0"
    using assms by (auto simp: list_page_def q_def ask_vfs_def ask_def)
  then show thesis using that [OF o [folded \<open>s3_remote s1 = r\<close>]] by simp
qed

lemma tokens_from_page:
  assumes "tokens_from ops (s3_remote s) T" "list_page ops s prefix d c n = (s1, res)"
  shows "tokens_from ops (s3_remote s1) T"
proof -
  obtain q res0 where "o_list ops (s3_remote s) q = (s3_remote s1, res0)"
    by (rule list_page_request [OF assms(2)])
  then have "list_step ops (s3_remote s) (s3_remote s1)" unfolding list_step_def by (metis fst_conv)
  then show ?thesis
    using assms(1) unfolding tokens_from_def by (meson converse_rtranclp_into_rtranclp)
qed

lemma next_token_in:
  assumes "tokens_from ops (s3_remote s) T" "list_page ops s prefix d c n = (s1, Ok page)" "next_token page seen = Ok token"
  shows "token \<in> T - set seen"
proof -
  obtain q res0 where "o_list ops (s3_remote s) q = (s3_remote s1, res0)" "res0 = Ok page"
    by (rule list_page_request [OF assms(2)]) simp
  moreover have "lr_next_continuation page = Some token" "token \<notin> set seen"
    using assms(3) by (auto simp: next_token_def split: option.splits if_splits)
  ultimately show ?thesis using assms(1) unfolding tokens_from_def by blast
qed

lemma token_measure: "finite T \<Longrightarrow> token \<in> T - set seen \<Longrightarrow> card (T - set (token # seen)) < card (T - set seen)"
  by (rule psubset_card_mono) auto

lemma scan_loop_returns:
  assumes "tokens_from ops (s3_remote s) T"
  shows "\<exists>y. scan_loop ops s prefix probe continuation seen entries present = Some y"
  using assms
proof (induction "card (T - set seen)" arbitrary: s continuation seen entries present rule: less_induct)
  case less
  have fin: "finite T" using less.prems by (simp add: tokens_from_def)
  obtain s1 res where l: "list_page ops s prefix [slash] continuation (if probe then Some 2 else None) = (s1, res)"
    by (metis surj_pair)
  have "\<exists>y. scan_loop ops s1 prefix probe (Some token) (token # seen) e p = Some y"
    if "res = Ok page" "next_token page seen = Ok token" for page token e p
    using less.hyps token_measure [OF fin] next_token_in [OF less.prems l [unfolded that(1)] that(2)]
      tokens_from_page [OF less.prems l] by blast
  then show ?case
    by (subst scan_loop_unfold, unfold l prod.case) (auto split: sum.splits prod.splits)
qed

lemma list_recursive_loop_returns:
  assumes "tokens_from ops (s3_remote s) T"
  shows "\<exists>y. list_recursive_loop ops s prefix continuation seen keys = Some y"
  using assms
proof (induction "card (T - set seen)" arbitrary: s continuation seen keys rule: less_induct)
  case less
  have fin: "finite T" using less.prems by (simp add: tokens_from_def)
  obtain s1 res where l: "list_page ops s prefix [] continuation None = (s1, res)"
    by (metis surj_pair)
  have "\<exists>y. list_recursive_loop ops s1 prefix (Some token) (token # seen) ks = Some y"
    if "res = Ok page" "next_token page seen = Ok token" for page token ks
    using less.hyps token_measure [OF fin] next_token_in [OF less.prems l [unfolded that(1)] that(2)]
      tokens_from_page [OF less.prems l] by blast
  then show ?case
    by (subst list_recursive_loop.simps) (auto simp: l Let_def split: sum.splits prod.splits)
qed

text \<open>Every token of the in-memory bucket is a prefix of one of its keys.\<close>

lemma find_pattern_prefix: "find_pattern pat t = Some i \<Longrightarrow> take i t @ pat = take (i + length pat) t"
proof (induction t arbitrary: i)
  case (Cons c t)
  then show ?case by (auto split: if_splits option.splits)
qed (auto split: if_splits)

lemma list_entry_prefix:
  assumes "list_entry q key n = Some (name, v)"
  shows "\<exists>k. name = take k key"
proof -
  obtain rel where rel: "strip_prefix (lq_prefix q) key = Some rel"
    using assms by (auto simp: list_entry_def split: option.splits)
  then have key: "key = lq_prefix q @ rel"
    unfolding strip_prefix_def by (metis append_take_drop_id option.distinct(1) option.inject)
  show ?thesis
  proof (cases "lq_delimiter q \<noteq> [] \<and> find_pattern (lq_delimiter q) rel \<noteq> None")
    case True
    then obtain i where i: "find_pattern (lq_delimiter q) rel = Some i" by blast
    then have "name = lq_prefix q @ take (i + length (lq_delimiter q)) rel"
      using assms rel True find_pattern_prefix [OF i] by (simp add: list_entry_def)
    then have "name = take (length (lq_prefix q) + (i + length (lq_delimiter q))) key" unfolding key by simp
    then show ?thesis by blast
  next
    case False
    then have "name = take (length key) key" using assms rel by (auto simp: list_entry_def split: if_splits option.splits)
    then show ?thesis by blast
  qed
qed

definition prefixes_of :: "rstr set \<Rightarrow> rstr set" where
  "prefixes_of K = {take k key |k key. key \<in> K}"

lemma prefixes_of_insert: "prefixes_of (insert key K) = range (\<lambda>k. take k key) \<union> prefixes_of K"
  by (auto simp: prefixes_of_def)

lemma list_entries_names:
  "fst ` set (list_entries q objs entries) \<subseteq> fst ` set entries \<union> prefixes_of (fst ` set objs)"
proof (induction q objs entries rule: list_entries.induct)
  case (2 q key obj objs entries)
  define entries1 where "entries1 = (case list_entry q key (length (so_body obj)) of None \<Rightarrow> entries
      | Some (name, sz) \<Rightarrow> if (case lq_continuation q of None \<Rightarrow> True | Some after \<Rightarrow> after < name)
          then bm_insert name sz entries else entries)"
  have e1: "fst ` set entries1 \<subseteq> fst ` set entries \<union> range (\<lambda>k. take k key)"
    unfolding entries1_def by (auto simp: set_bm_insert dest: list_entry_prefix split: option.splits if_splits)
  have IH: "fst ` set (list_entries q objs entries1) \<subseteq> fst ` set entries1 \<union> prefixes_of (fst ` set objs)"
    using 2 by (simp add: entries1_def)
  have "list_entries q ((key, obj) # objs) entries = list_entries q objs entries1" by (simp add: entries1_def)
  then show ?case using IH e1 by (auto simp: prefixes_of_insert)
qed simp

definition key_prefixes :: "bucket_state \<Rightarrow> rstr set" where
  "key_prefixes b = prefixes_of (fst ` set (bk_objects b))"

lemma finite_key_prefixes: "finite (key_prefixes b)"
proof -
  have "key_prefixes b \<subseteq> (\<Union>key\<in>fst ` set (bk_objects b). (\<lambda>k. take k key) ` {..length key})"
  proof
    fix x assume "x \<in> key_prefixes b"
    then obtain k key where x: "x = take k key" "key \<in> fst ` set (bk_objects b)" by (auto simp: key_prefixes_def prefixes_of_def)
    have "x = take (min k (length key)) key" using x(1) by (simp add: min_def)
    then show "x \<in> (\<Union>key\<in>fst ` set (bk_objects b). (\<lambda>k. take k key) ` {..length key})" using x(2) by fastforce
  qed
  then show ?thesis by (rule finite_subset) auto
qed

lemma bucket_paginates: "paginates bucket_ops"
  unfolding paginates_def
proof
  fix b
  have kept: "bk_objects b' = bk_objects b" if "(list_step bucket_ops)\<^sup>*\<^sup>* b b'" for b'
    using that by (induction rule: rtranclp_induct) (auto simp: list_step_def bucket_ops_def bucket_list_def Let_def)
  have "token \<in> key_prefixes b"
    if r: "(list_step bucket_ops)\<^sup>*\<^sup>* b b'" and l: "o_list bucket_ops b' q = (b'', Ok page)"
      and token: "lr_next_continuation page = Some token" for b' q b'' page token
  proof -
    define page_items where "page_items = take (case lq_max_keys q of None \<Rightarrow> 1000 | Some n \<Rightarrow> n) (list_entries q (bk_objects b') [])"
    have "page_items \<noteq> []" "token = fst (List.last page_items)"
      using l token by (auto simp: bucket_ops_def bucket_list_def Let_def page_items_def split: if_splits)
    then have "token \<in> fst ` set (list_entries q (bk_objects b') [])"
      using set_take_subset unfolding page_items_def by (metis image_eqI last_in_set subsetD)
    then show ?thesis using list_entries_names [of q "bk_objects b'" "[]"] kept [OF r] by (auto simp: key_prefixes_def)
  qed
  then have "tokens_from bucket_ops b (key_prefixes b)"
    unfolding tokens_from_def using finite_key_prefixes by blast
  then show "\<exists>T. tokens_from bucket_ops b T" by blast
qed

subsection \<open>Looking leaves the objects alone\<close>

context s3_service
begin

lemma still_scan_loop:
  assumes "scan_loop ops s prefix probe continuation seen entries present = Some y"
  shows "still s (fst y)"
  using assms by (induction rule: scan_loop_rule) (auto dest: still_list intro: calm_trans)

lemma still_scan_directory:
  assumes "scan_directory ops s components probe = Some y"
  shows "still s (fst y)"
  using assms by (auto simp: scan_directory_def follow_def dest!: still_scan_loop split: option.splits sum.splits)

lemma still_kind_at:
  assumes "kind_at ops s components = Some (t, res)"
  shows "still s t"
  using assms
  by (auto simp: kind_at_def follow_def dest!: still_scan_directory still_head
      split: if_splits option.splits sum.splits prod.splits fault.splits remote_error.splits intro: calm_trans)

lemma still_validate_ends:
  assumes "validate_ends ops s components es = Some (t, res)"
  shows "still s t"
  using assms
proof (induction es arbitrary: s)
  case (Cons e es)
  then show ?case
    by (auto simp: follow_def dest!: still_kind_at split: option.splits sum.splits kind.splits intro: calm_trans)
qed simp

end

end
