(* ===== verification/S3_Publish.thy ===== *)
theory S3_Publish
  imports S3_Session S3_Listing
begin

text \<open>
  The contents of a writable handle through a session, from \<open>open\<close> to \<open>close\<close>.
\<close>

datatype s3_edit = EditWrite nat "byte list" | EditTruncate nat

fun s3_apply :: "'r s3_ops \<Rightarrow> 'r s3_vfs \<Rightarrow> file_handle \<Rightarrow> s3_edit \<Rightarrow> ('r s3_vfs \<times> unit vres) option" where
  "s3_apply ops s h (EditWrite off data) = follow (s3_write_at ops s h off data) (\<lambda>t _. Some (t, Ok ()))"
| "s3_apply ops s h (EditTruncate len) = s3_truncate ops s h len"

fun s3_run :: "'r s3_ops \<Rightarrow> 'r s3_vfs \<Rightarrow> file_handle \<Rightarrow> s3_edit list \<Rightarrow> ('r s3_vfs \<times> unit vres) option" where
  "s3_run ops s h [] = Some (s, Ok ())"
| "s3_run ops s h (e # es) = follow (s3_apply ops s h e) (\<lambda>t _. s3_run ops t h es)"

text \<open>The reference: the contents of a plain file under the same edits.\<close>

fun edited :: "bool \<Rightarrow> byte list \<Rightarrow> s3_edit \<Rightarrow> byte list" where
  "edited app c (EditWrite off data) =
     (if data = [] then c else write_bytes c (if app then length c else off) data)"
| "edited app c (EditTruncate len) = take len c @ replicate (len - length c) 0"

context s3_service
begin

definition stages :: "'r s3_vfs \<Rightarrow> handle_state \<Rightarrow> byte list \<Rightarrow> bool" where
  "stages s hs c \<longleftrightarrow>
     (case hs_staging hs of
        SStream st \<Rightarrow> stream_rep s st c
      | SBuffer buf \<Rightarrow>
          (bf_dirty buf \<or> body_at (s3_remote s) (hs_key hs) = Some c)
          \<and> (case bf_bytes buf of
               Some b \<Rightarrow> c = b
             | None \<Rightarrow> \<not> bf_dirty buf \<and> (\<exists>f. bf_source buf = Some f \<and> rmf_len f = length c))
      | _ \<Rightarrow> False)"

lemma stream_rep_set_cell [simp]: "stream_rep (set_cell s i hs) st c \<longleftrightarrow> stream_rep s st c"
  by (simp only: stream_rep_def set_cell_simps)

lemma get_whole_rep:
  assumes "get_whole ops s key f = (t, Ok bytes)" "s3_bucket s = bucket"
    and "body_at (s3_remote s) key = Some c" "rmf_len f = length c"
  shows "bytes = c"
proof (cases "length c = 0")
  case False
  then obtain t' g where g: "ask_vfs s (\<lambda>r. o_get ops r \<lparr>gq_bucket = s3_bucket s, gq_key = key,
      gq_range = byte_range 0 (length c - 1), gq_if_match = rmf_etag f, gq_expected_len = length c,
      gq_expected_content_range = content_range_text 0 (length c - 1) (length c)\<rparr>) = (t', Ok g)" "gr_body g = bytes"
    using assms(1,4) unfolding get_whole_def get_range_def and_then_def by (auto split: prod.splits sum.splits if_splits)
  from get_ok [OF ask_Ok [OF ask_vfs_Ok [OF g(1)]], of 0 "length c - 1" c] show ?thesis
    using False assms(2,3) g(2) by simp
qed (use assms in \<open>simp add: get_whole_def\<close>)

lemma materialize_rep:
  assumes "materialize ops s (hs_key hs) buf = ((t, buf1), Ok bytes)" "s3_bucket s = bucket"
    and "stages s hs c" "hs_staging hs = SBuffer buf"
  shows "bytes = c" "buf1 = buf\<lparr>bf_bytes := Some c\<rparr>"
proof -
  have "bytes = c \<and> buf1 = buf\<lparr>bf_bytes := Some c\<rparr>"
  proof (cases "bf_bytes buf")
    case None
    then obtain f where f: "bf_source buf = Some f" "rmf_len f = length c" "body_at (s3_remote s) (hs_key hs) = Some c"
      using assms(3,4) by (auto simp: stages_def)
    then have "get_whole ops s (hs_key hs) f = (t, Ok bytes)" "buf1 = buf\<lparr>bf_bytes := Some bytes\<rparr>"
      using assms(1) None by (auto simp: materialize_def attempt_cases split: prod.splits sum.splits)
    then show ?thesis using get_whole_rep [OF _ assms(2) f(3,2)] by simp
  next
    case (Some b)
    moreover have "buf = buf\<lparr>bf_bytes := Some b\<rparr>" using Some by simp
    ultimately show ?thesis using assms by (auto simp: materialize_def stages_def)
  qed
  then show "bytes = c" "buf1 = buf\<lparr>bf_bytes := Some c\<rparr>" by simp_all
qed

lemma resize_staged_Ok: "resize_staged s b n = Ok b' \<Longrightarrow> b' = take n b @ replicate (n - length b) 0"
  by (auto simp: resize_staged_def obind_eq_Ok vec_resize_def split: if_splits)

lemma fill_gap_idle:
  assumes "fill_gap ops s key st target = Some ((s1, st1), Ok v)" "stream_rep s st c" "target \<le> length c"
  shows "st1 = st"
proof -
  obtain e where "stream_end st = Ok e"
    using assms(1) by (subst (asm) fill_gap.simps) (auto split: sum.splits)
  with stream_rep_end [OF assms(2) this] show ?thesis
    using assms(1,3) by (subst (asm) fill_gap.simps) simp
qed

text \<open>The new tail of a stream, below the flushed bytes.\<close>

lemma tail_write:
  assumes "b = drop fl c1" "c1 = c @ replicate (target - length c) 0" "fl \<le> target" "start = target - fl"
    and "bytes = (if length b < start + length data then b @ replicate (start + length data - length b) 0 else b)"
  shows "take fl c1 @ take start bytes @ data @ drop (start + length data) bytes = write_bytes c target data"
proof -
  have len: "length c1 = max (length c) target" using assms(2) by simp
  have t: "take start bytes = drop fl (take target c1)"
    using assms(1,3,4,5) len by (auto simp: drop_take)
  have d: "drop (start + length data) bytes = drop (target + length data) c1"
    using assms(1,3,4,5) len by (auto simp: add.commute)
  have "take fl c1 @ drop fl (take target c1) = take target c1"
    using assms(3) by (metis append_take_drop_id min.absorb1 take_take)
  then have "take fl c1 @ take start bytes @ data @ drop (start + length data) bytes =
      take target c1 @ data @ drop (target + length data) c1"
    unfolding t d by (metis append.assoc)
  also have "\<dots> = write_bytes c target data" unfolding assms(2) write_bytes_def by auto
  finally show ?thesis .
qed

lemma write_stream_rep:
  assumes w: "write_stream ops s key st target data = Some ((t, st1), Ok v)" and rep: "stream_rep s st c"
    and b: "s3_bucket s = bucket" and above: "sm_flushed st \<le> target"
  shows "stream_rep t st1 (write_bytes c target data)"
proof -
  obtain s1 st2 where f: "fill_gap ops s key st target = Some ((s1, st2), Ok ())"
    and k: "(let start = target - sm_flushed st2 in
       guard_s3 (s1, st2) (ok_or EINVAL (checked_add start (length data))) (\<lambda>e.
       guard_s3 (s1, st2) (if length (sm_buffer st2) < e then vec_resize (sm_buffer st2) e else Ok (sm_buffer st2)) (\<lambda>bytes.
       follow (flush_parts ops s1 key (st2\<lparr>sm_buffer := take start bytes @ data @ drop e bytes\<rparr>)) (\<lambda>(s2, st2) _.
         Some ((s2, st2), Ok (length data)))))) = Some ((t, st1), Ok v)"
    using w unfolding write_stream_def by (auto elim!: follow_cases)
  define c1 where "c1 = c @ replicate (target - length c) 0"
  have rep1: "stream_rep s1 st2 c1" using fill_gap_rep [OF f _ rep b] by (simp add: c1_def)
  have b1: "s3_bucket s1 = bucket" using still_fill_gap [OF f] b by (auto dest: calmD(1))
  have below: "sm_flushed st2 \<le> target"
    using fill_gap_idle [OF f rep] above stream_rep_parts(4) [OF rep1]
    by (cases "target \<le> length c") (auto simp: c1_def)
  define start where "start = target - sm_flushed st2"
  define bytes where "bytes = (if length (sm_buffer st2) < start + length data
      then sm_buffer st2 @ replicate (start + length data - length (sm_buffer st2)) 0 else sm_buffer st2)"
  have fl: "flush_parts ops s1 key (st2\<lparr>sm_buffer := take start bytes @ data @ drop (start + length data) bytes\<rparr>)
      = Some ((t, st1), Ok ())"
    using k unfolding start_def [symmetric] Let_def bytes_def
    by (auto simp: guard_s3_def checked_add_def vec_resize_def elim!: follow_cases split: sum.splits if_splits option.splits)
  have "take (sm_flushed st2) c1 @ take start bytes @ data @ drop (start + length data) bytes = write_bytes c target data"
    by (rule tail_write [OF stream_rep_parts(3) [OF rep1] c1_def below start_def bytes_def])
  then show ?thesis
    using flush_parts_rep [OF fl _ stream_rep_tail [OF rep1] b1] by simp
qed

subsection \<open>One edit\<close>

lemma stages_stream: "stages s (hs\<lparr>hs_staging := SStream st\<rparr>) c \<longleftrightarrow> stream_rep s st c"
  by (simp add: stages_def)

lemma settle_stream_Ok:
  assumes "settle_stream ops i hs out = Some (t, Ok v)" "i < length (s3_cells s)"
    and "\<And>y. out = Some y \<Longrightarrow> still s (fst (fst y))"
  obtains s1 st1 where "out = Some ((s1, st1), Ok v)" "t = set_cell s1 i (hs\<lparr>hs_staging := SStream st1\<rparr>)" "i < length (s3_cells s1)"
proof -
  obtain s1 st1 where o: "out = Some ((s1, st1), Ok v)" "t = set_cell s1 i (hs\<lparr>hs_staging := SStream st1\<rparr>)"
    using assms(1) by (auto simp: settle_stream_def split: option.splits sum.splits fault.splits prod.splits)
  moreover have "i < length (s3_cells s1)" using assms(2) calmD(7) [OF assms(3) [OF o(1)]] by simp
  ultimately show thesis by (rule that)
qed

lemma write_buffer_rep:
  assumes "write_buffer ops s hs buf off data = ((t, buf1), Ok v)" "s3_bucket s = bucket"
    and "stages s hs c" "hs_staging hs = SBuffer buf"
  shows "bf_dirty buf1 \<and> bf_bytes buf1 = Some (write_bytes c (if om_append (hs_mode hs) then length c else off) data)"
proof -
  obtain s1 buf2 bytes where m: "materialize ops s (hs_key hs) buf = ((s1, buf2), Ok bytes)"
    using assms(1) unfolding write_buffer_def and_then_def by (auto split: prod.splits sum.splits)
  note rep = materialize_rep [OF m assms(2-4)]
  define start where "start = (if om_append (hs_mode hs) then length c else off)"
  have "attempt (s1, buf2) (ok_or EINVAL (checked_add start (length data))) (\<lambda>e.
      attempt (s1, buf2) (if length c < e then resize_staged s1 c e else Ok c) (\<lambda>b.
        ((s1, buf2\<lparr>bf_bytes := Some (take start b @ data @ drop e b), bf_dirty := True\<rparr>), Ok (length data)))) = ((t, buf1), Ok v)"
    using assms(1) m unfolding write_buffer_def start_def rep(1) by (simp add: Let_def)
  then obtain c1 where c1: "(if length c < start + length data then resize_staged s1 c (start + length data) else Ok c) = Ok c1"
    "buf1 = buf2\<lparr>bf_bytes := Some (take start c1 @ data @ drop (start + length data) c1), bf_dirty := True\<rparr>"
    unfolding attempt_eq_Ok by (auto simp: checked_add_def split: if_splits)
  moreover have "c1 = take (max (length c) (start + length data)) c @
      replicate (max (length c) (start + length data) - length c) 0"
    using c1(1) by (auto simp: max_def dest: resize_staged_Ok split: if_splits)
  ultimately show ?thesis
    using write_bytes_after_resize [of "max (length c) (start + length data)" c start data]
    by (simp add: start_def)
qed

lemma stages_write:
  assumes w: "write_resolved ops s i off data = Some (t, Ok v)" and i: "i < length (s3_cells s)"
    and b: "s3_bucket s = bucket" and rep: "stages s (cell_of s i) c"
  shows "stages t (cell_of t i) (edited (om_append (hs_mode (cell_of s i))) c (EditWrite off data))"
proof (cases "data = []")
  case True
  then have "t = s" using w by (auto simp: write_resolved_def Let_def split: if_splits staging.splits)
  then show ?thesis using rep True by simp
next
  case data: False
  define hs where "hs = cell_of s i"
  show ?thesis
  proof (cases "hs_staging hs")
    case (SBuffer buf)
    obtain s1 buf1 where wb: "write_buffer ops s hs buf off data = ((s1, buf1), Ok v)"
      and t: "t = set_cell s1 i (hs\<lparr>hs_staging := SBuffer buf1\<rparr>)"
      using w SBuffer data unfolding write_resolved_def hs_def [symmetric] Let_def store_buffer_def
      by (auto split: if_splits prod.splits)
    have "i < length (s3_cells s1)" using calmD(7) [OF still_write_buffer [OF wb]] i by simp
    then show ?thesis
      using write_buffer_rep [OF wb b rep [folded hs_def] SBuffer] data
      unfolding t hs_def [symmetric] by (simp add: stages_def)
  next
    case (SStream st)
    obtain target where target: "target = (if om_append (hs_mode hs) then length c else off)" by simp
    have st: "stream_rep s st c" using rep SStream unfolding hs_def [symmetric] by (simp add: stages_def)
    have above: "sm_flushed st \<le> target"
      and se: "settle_stream ops i hs (write_stream ops s (hs_key hs) st target data) = Some (t, Ok v)"
      using w SStream data stream_rep_end [OF st] unfolding write_resolved_def hs_def [symmetric] Let_def target
      by (auto simp: guard_s3_def split: if_splits sum.splits)
    obtain s1 st1 where r: "write_stream ops s (hs_key hs) st target data = Some ((s1, st1), Ok v)"
      "t = set_cell s1 i (hs\<lparr>hs_staging := SStream st1\<rparr>)" "i < length (s3_cells s1)"
      using se i by (rule settle_stream_Ok) (auto dest: still_write_stream)
    then show ?thesis
      using write_stream_rep [OF r(1) st b above] data target unfolding hs_def [symmetric]
      by (simp add: stages_def)
  qed (use w data rep in \<open>auto simp: write_resolved_def Let_def hs_def split: if_splits\<close>)
qed

lemma stages_truncate:
  assumes w: "truncate_resolved ops s i len = Some (t, Ok v)" and i: "i < length (s3_cells s)"
    and b: "s3_bucket s = bucket" and rep: "stages s (cell_of s i) c"
  shows "stages t (cell_of t i) (take len c @ replicate (len - length c) 0)"
proof -
  define hs where "hs = cell_of s i"
  show ?thesis
  proof (cases "hs_staging hs")
    case (SBuffer buf)
    obtain s1 buf1 bytes where m: "materialize ops s (hs_key hs) buf = ((s1, buf1), Ok bytes)"
      using w SBuffer unfolding truncate_resolved_def hs_def [symmetric] Let_def store_buffer_def and_then_def
      by (auto split: if_splits prod.splits sum.splits)
    note r = materialize_rep [OF m b rep [folded hs_def] SBuffer]
    have "i < length (s3_cells s1)" using calmD(7) [OF still_materialize [OF m]] i by simp
    then show ?thesis
      using w SBuffer m r unfolding truncate_resolved_def hs_def [symmetric] Let_def store_buffer_def
      by (auto simp: attempt_def stages_def dest!: resize_staged_Ok split: if_splits sum.splits)
  next
    case (SStream st)
    have st: "stream_rep s st c" using rep SStream unfolding hs_def [symmetric] by (simp add: stages_def)
    note parts = stream_rep_parts [OF st]
    obtain e where e: "stream_end st = Ok e" "sm_flushed st \<le> len"
      using w SStream unfolding truncate_resolved_def hs_def [symmetric] Let_def
      by (auto simp: guard_s3_def split: if_splits sum.splits)
    have len: "e = length c" by (rule stream_rep_end [OF st e(1)])
    show ?thesis
    proof (cases "length c < len")
      case True
      then have "settle_stream ops i hs (fill_gap ops s (hs_key hs) st len) = Some (t, Ok v)"
        using w SStream e len unfolding truncate_resolved_def hs_def [symmetric] Let_def by (simp split: if_splits)
      then obtain s1 st1 where r: "fill_gap ops s (hs_key hs) st len = Some ((s1, st1), Ok v)"
        "t = set_cell s1 i (hs\<lparr>hs_staging := SStream st1\<rparr>)" "i < length (s3_cells s1)"
        using i by (rule settle_stream_Ok) (auto dest: still_fill_gap)
      then show ?thesis
        using fill_gap_rep [OF r(1) _ st b] True by (simp add: stages_def)
    next
      case False
      have "take (sm_flushed st) c @ take (len - sm_flushed st) (sm_buffer st) = take len c"
        using e(2) parts(3,4) by (metis le_add_diff_inverse take_add)
      then show ?thesis
        using w SStream e len False i stream_rep_tail [OF st, of "take (len - sm_flushed st) (sm_buffer st)"]
        unfolding truncate_resolved_def hs_def [symmetric] Let_def
        by (auto simp: stages_def split: if_splits)
    qed
  qed (use w rep in \<open>auto simp: truncate_resolved_def Let_def hs_def stages_def split: if_splits\<close>)
qed

subsection \<open>Opening and closing\<close>

lemma s3_key_quiet: "still s t \<Longrightarrow> s3_key t cs = s3_key s cs"
  by (simp add: s3_key_def calmD(2))

lemma kind_at_object:
  assumes "kind_at ops s cs = Some (t, Ok k)" "s3_bucket s = bucket" "cs \<noteq> []"
  shows "k = None \<Longrightarrow> body_at (s3_remote s) (s3_key s cs) = None"
    and "k = Some (AtFile f) \<Longrightarrow> \<exists>b. body_at (s3_remote s) (s3_key s cs) = Some b \<and> length b = rmf_len f
      \<and> etag_at (s3_remote s) (s3_key s cs) = Some (rmf_etag f)"
proof -
  obtain s1 listing where l: "scan_directory ops s cs True = Some (s1, Ok listing)"
    using assms(1,3) by (auto simp: kind_at_def elim!: follow_cases)
  have q: "still s s1" using still_scan_directory [OF l] by simp
  note eqs = calmD(1,9,10) [OF q] s3_key_quiet [OF q] assms(2)
  obtain r where h: "o_head ops (s3_remote s1) \<lparr>hq_bucket = bucket, hq_key = s3_key s cs\<rparr> = r" by simp
  have head: "head_key ops s1 cs = (s1\<lparr>s3_remote := fst r\<rparr>, snd r)"
    using h by (auto simp: head_key_def ask_def eqs split: prod.splits)
  show "body_at (s3_remote s) (s3_key s cs) = None" if "k = None"
  proof -
    have "snd r = Err Missing"
      using assms(1,3) l head that
      by (auto simp: kind_at_def split: if_splits sum.splits fault.splits remote_error.splits)
    then have "body_at (s3_remote s1) (s3_key s cs) = None"
      using head_missing [of "s3_remote s1" "s3_key s cs" "fst r"] h by (metis prod.collapse)
    then show ?thesis using eqs by simp
  qed
  show "\<exists>b. body_at (s3_remote s) (s3_key s cs) = Some b \<and> length b = rmf_len f
      \<and> etag_at (s3_remote s) (s3_key s cs) = Some (rmf_etag f)" if "k = Some (AtFile f)"
  proof -
    have "snd r = Ok f"
      using assms(1,3) l head that
      by (auto simp: kind_at_def split: if_splits sum.splits fault.splits remote_error.splits)
    then show ?thesis
      using head_ok [of "s3_remote s1" "s3_key s cs" "fst r" f] h eqs by (metis prod.collapse)
  qed
qed

lemma stages_cong:
  assumes "s3_remote t = s3_remote s" "s3_part_size t = s3_part_size s"
  shows "stages t hs c \<longleftrightarrow> stages s hs c"
proof -
  have "part_size t = part_size s" using assms(2) by (simp add: part_size_def [abs_def])
  then show ?thesis using assms(1) by (simp only: stages_def stream_rep_def)
qed

definition base_contents :: "'r s3_vfs \<Rightarrow> open_mode \<Rightarrow> rstr \<Rightarrow> byte list" where
  "base_contents s mode key =
     (if om_truncate mode then [] else case body_at (s3_remote s) key of None \<Rightarrow> [] | Some b \<Rightarrow> b)"

lemma open_staging_stages:
  assumes "open_staging mode existing = Ok stg" "om_write mode"
    and "existing = None \<Longrightarrow> body_at (s3_remote s) key = None"
    and "\<And>f. existing = Some f \<Longrightarrow> \<exists>b. body_at (s3_remote s) key = Some b \<and> length b = rmf_len f"
  shows "stages s \<lparr>hs_key = key, hs_mode = mode, hs_staging = stg, hs_released = False\<rparr> (base_contents s mode key)"
proof (cases existing)
  case None
  then show ?thesis
    using assms by (auto simp: open_staging_def stages_def base_contents_def split: if_splits)
next
  case (Some f)
  then obtain b where "body_at (s3_remote s) key = Some b" "length b = rmf_len f" using assms(4) by blast
  then show ?thesis
    using assms(1,2) Some by (auto simp: open_staging_def stages_def base_contents_def split: if_splits)
qed

lemma open_cases:
  assumes op: "s3_open ops s path mode = Some (t, Ok h)" and b: "s3_bucket s = bucket" and cs: "normalize_path path = Ok cs"
  obtains s2 existing stg where "still s s2" "open_staging mode existing = Ok stg"
    "s3_insert_handle s2 (s3_key s cs) mode stg = (t, Ok h)"
    "existing = None \<longrightarrow> body_at (s3_remote s) (s3_key s cs) = None"
    "\<forall>f. existing = Some f \<longrightarrow> (\<exists>b. body_at (s3_remote s) (s3_key s cs) = Some b \<and> length b = rmf_len f
      \<and> etag_at (s3_remote s) (s3_key s cs) = Some (rmf_etag f))"
proof -
  obtain s1 s2 k where v: "validate_parents ops s cs = Some (s1, Ok ())" and k: "kind_at ops s1 cs = Some (s2, Ok k)"
    and ne: "cs \<noteq> []" and nd: "\<And>x. k \<noteq> Some (AtDir x)"
    and opened: "guard_s3 s2 (open_staging mode (case k of Some (AtFile file) \<Rightarrow> Some file | _ \<Rightarrow> None)) (\<lambda>st.
               Some (s3_insert_handle s2 (s3_key s2 cs) mode st)) = Some (t, Ok h)"
    using op cs unfolding s3_open_def
    by (auto simp: guard_s3_def elim!: follow_cases split: sum.splits if_splits option.splits kind.splits)
  have q1: "still s s1" using v unfolding validate_parents_def by (rule still_validate_ends)
  have q2: "still s s2" using q1 still_kind_at [OF k] by (rule calm_trans)
  have b1: "s3_bucket s1 = bucket" using calmD(1) [OF q1] b by simp
  note eqs = calmD [OF q1] s3_key_quiet [OF q1] s3_key_quiet [OF q2]
  define existing where "existing = (case k of Some (AtFile file) \<Rightarrow> Some file | _ \<Rightarrow> None)"
  obtain stg where "open_staging mode existing = Ok stg" "s3_insert_handle s2 (s3_key s cs) mode stg = (t, Ok h)"
    using opened by (auto simp: guard_s3_def existing_def eqs split: sum.splits)
  then show thesis
  proof (rule that [OF q2])
    show "existing = None \<longrightarrow> body_at (s3_remote s) (s3_key s cs) = None"
      using kind_at_object(1) [OF k b1 ne] nd by (auto simp: existing_def eqs split: option.splits kind.splits)
    show "\<forall>f. existing = Some f \<longrightarrow> (\<exists>b. body_at (s3_remote s) (s3_key s cs) = Some b \<and> length b = rmf_len f
        \<and> etag_at (s3_remote s) (s3_key s cs) = Some (rmf_etag f))"
      using kind_at_object(2) [OF k b1 ne] by (auto simp: existing_def eqs split: option.splits kind.splits)
  qed
qed

lemma insert_handle_Ok:
  assumes "s3_insert_handle s key mode stg = (t, Ok h)"
  shows "s3_handles t = bm_insert h (length (s3_cells s)) (s3_handles s)" "s3_remote t = s3_remote s"
      "s3_cells t = s3_cells s @ [\<lparr>hs_key = key, hs_mode = mode, hs_staging = stg, hs_released = False\<rparr>]"
      "s3_part_size t = s3_part_size s" "s3_bucket t = s3_bucket s" "s3_config_of t = s3_config_of s"
  using assms by (auto simp: s3_insert_handle_def Let_def attempt_eq_Ok)

lemma open_stages:
  assumes op: "s3_open ops s path mode = Some (t, Ok h)" and w: "om_write mode" and b: "s3_bucket s = bucket"
    and cs: "normalize_path path = Ok cs"
  obtains i where "bm_get (s3_handles t) h = Some i" "i < length (s3_cells t)"
    "hs_key (cell_of t i) = s3_key s cs" "hs_mode (cell_of t i) = mode" "\<not> hs_released (cell_of t i)"
    "stages t (cell_of t i) (base_contents s mode (s3_key s cs))"
    "body_at (s3_remote t) = body_at (s3_remote s)"
    "s3_bucket t = bucket" "s3_part_size t = s3_part_size s" "s3_config_of t = s3_config_of s"
proof -
  from op b cs obtain s2 existing stg where q: "still s s2" and stg: "open_staging mode existing = Ok stg"
    and ins: "s3_insert_handle s2 (s3_key s cs) mode stg = (t, Ok h)"
    and obj: "existing = None \<longrightarrow> body_at (s3_remote s) (s3_key s cs) = None"
      "\<forall>f. existing = Some f \<longrightarrow> (\<exists>b. body_at (s3_remote s) (s3_key s cs) = Some b \<and> length b = rmf_len f
        \<and> etag_at (s3_remote s) (s3_key s cs) = Some (rmf_etag f))"
    by (rule open_cases)
  note t = insert_handle_Ok [OF ins] and eqs = calmD [OF q]
  have "stages s2 \<lparr>hs_key = s3_key s cs, hs_mode = mode, hs_staging = stg, hs_released = False\<rparr> (base_contents s2 mode (s3_key s cs))"
    by (rule open_staging_stages [OF stg w]) (use obj in \<open>auto simp: eqs\<close>)
  moreover have "stages t hs c \<longleftrightarrow> stages s2 hs c" for hs c
    by (rule stages_cong [OF t(2,4)])
  moreover have "base_contents s2 mode key = base_contents s mode key" for key
    by (simp add: base_contents_def eqs)
  ultimately show thesis
    using that [of "length (s3_cells s2)"] b by (simp add: t eqs)
qed

lemma put_object_Ok:
  assumes "put_object ops s key c p = (t, Ok v)" "s3_bucket s = bucket"
  shows "body_at (s3_remote t) = (body_at (s3_remote s))(key \<mapsto> c)"
    and "apply_precondition s p = PAbsent \<Longrightarrow> body_at (s3_remote s) key = None"
    and "apply_precondition s p = PMatch tag \<Longrightarrow> etag_at (s3_remote s) key = Some tag"
proof -
  have "ask s (\<lambda>r. o_put ops r \<lparr>pq_bucket = s3_bucket s, pq_key = key, pq_body = c,
      pq_precondition = apply_precondition s p\<rparr>) = (t, Ok v)"
    using assms(1) by (auto simp: put_object_def split: prod.splits)
  note a = ask_Ok [OF this]
  show "body_at (s3_remote t) = (body_at (s3_remote s))(key \<mapsto> c)" using put_ok [OF a] assms(2) by simp
  show "apply_precondition s p = PAbsent \<Longrightarrow> body_at (s3_remote s) key = None"
    "apply_precondition s p = PMatch tag \<Longrightarrow> etag_at (s3_remote s) key = Some tag"
    using put_checked [OF a] assms(2) by simp_all
qed

text \<open>The parts a finishing stream completes, and the state in which it does.\<close>

lemma finish_stream_cases:
  assumes f: "finish_stream ops s key st = (t, Ok v)" and up: "sm_upload st = Some up"
  obtains s1 parts where
    "ask s1 (\<lambda>r. o_complete_upload ops r \<lparr>mq_bucket = s3_bucket s1, mq_key = key, mq_upload_id = up_id up,
       mq_parts = parts, mq_precondition = apply_precondition s1 (sm_precondition st)\<rparr>) = (t, Ok v)"
    "still s s1"
    "(parts = up_parts up \<and> s1 = s \<and> sm_buffer st = [])
     \<or> (\<exists>etag. upload_part ops s key (up_id up) (length (up_parts up) + 1) (sm_buffer st) = (s1, Ok etag)
          \<and> parts = up_parts up @ [\<lparr>pt_number = length (up_parts up) + 1, pt_etag = etag\<rparr>])"
proof (cases "sm_buffer st \<noteq> [] \<or> up_parts up = []")
  case True
  then obtain s1 etag where u: "upload_part ops s key (up_id up) (length (up_parts up) + 1) (sm_buffer st) = (s1, Ok etag)"
    "ask s1 (\<lambda>r. o_complete_upload ops r \<lparr>mq_bucket = s3_bucket s1, mq_key = key, mq_upload_id = up_id up,
       mq_parts = up_parts up @ [\<lparr>pt_number = length (up_parts up) + 1, pt_etag = etag\<rparr>],
       mq_precondition = apply_precondition s1 (sm_precondition st)\<rparr>) = (t, Ok v)"
    using f up by (auto simp: finish_stream_def Let_def and_then_def split: if_splits prod.splits sum.splits)
  then show thesis using that still_upload_part by blast
next
  case False
  then show thesis
    using that [of s "up_parts up"] f up by (auto simp: finish_stream_def split: prod.splits)
qed

lemma finish_stream_Ok:
  assumes f: "finish_stream ops s key st = (t, Ok v)" and b: "s3_bucket s = bucket" and rep: "stream_rep s st c"
  shows "body_at (s3_remote t) = (body_at (s3_remote s))(key \<mapsto> c)"
proof (cases "sm_upload st")
  case None
  then show ?thesis
    using f rep put_object_Ok(1) [OF _ b] by (auto simp: finish_stream_def stream_rep_def)
next
  case (Some up)
  obtain bs where bs: "c = concat bs @ sm_buffer st" "map pt_number (up_parts up) = [1 ..< length bs + 1]"
      "\<forall>i < length bs. part_at (s3_remote s) (up_id up) (i + 1) = Some (bs ! i)"
    using rep Some unfolding stream_rep_def by auto
  have len: "length (up_parts up) = length bs" using bs(2) by (metis add_diff_cancel_right' length_map length_upt)
  from f Some obtain s1 parts where a: "ask s1 (\<lambda>r. o_complete_upload ops r \<lparr>mq_bucket = s3_bucket s1, mq_key = key,
       mq_upload_id = up_id up, mq_parts = parts, mq_precondition = apply_precondition s1 (sm_precondition st)\<rparr>) = (t, Ok v)"
    and q: "still s s1" and parts: "(parts = up_parts up \<and> s1 = s \<and> sm_buffer st = [])
     \<or> (\<exists>etag. upload_part ops s key (up_id up) (length (up_parts up) + 1) (sm_buffer st) = (s1, Ok etag)
          \<and> parts = up_parts up @ [\<lparr>pt_number = length (up_parts up) + 1, pt_etag = etag\<rparr>])"
    by (rule finish_stream_cases)
  have b1: "s3_bucket s1 = bucket" using calmD(1) [OF q] b by simp
  note completed = complete_ok [OF ask_Ok [OF a]]
  from parts show ?thesis
  proof
    assume "parts = up_parts up \<and> s1 = s \<and> sm_buffer st = []"
    then show ?thesis using completed [of bs] b1 bs by (auto simp del: upt_Suc)
  next
    assume "\<exists>etag. upload_part ops s key (up_id up) (length (up_parts up) + 1) (sm_buffer st) = (s1, Ok etag)
        \<and> parts = up_parts up @ [\<lparr>pt_number = length (up_parts up) + 1, pt_etag = etag\<rparr>]"
    then obtain etag where u: "upload_part ops s key (up_id up) (length bs + 1) (sm_buffer st) = (s1, Ok etag)"
      and p: "parts = up_parts up @ [\<lparr>pt_number = length bs + 1, pt_etag = etag\<rparr>]" using len by auto
    have part: "part_at (s3_remote s1) (up_id up) = (part_at (s3_remote s) (up_id up))(length bs + 1 \<mapsto> sm_buffer st)"
      using upload_ok [OF ask_Ok [OF ask_vfs_Ok [OF u [unfolded upload_part_def]]]] b by simp
    show ?thesis
      using completed [of "bs @ [sm_buffer st]"] b1 bs p part calmD(9) [OF q] by (auto simp: nth_append)
  qed
qed

lemma commit_Ok:
  assumes "commit ops s hs = (t, Ok v)" "s3_bucket s = bucket" "stages s hs c"
  shows "body_at (s3_remote t) = (body_at (s3_remote s))(hs_key hs \<mapsto> c)"
proof (cases "hs_staging hs")
  case (SBuffer buf)
  then show ?thesis
    using assms put_object_Ok(1) [OF _ assms(2)]
    by (cases "bf_dirty buf") (auto simp: commit_def stages_def split: option.splits)
next
  case (SStream st)
  then have "finish_stream ops s (hs_key hs) st = (t, Ok v)"
    using assms(1) by (auto simp: commit_def split: prod.splits sum.splits option.splits)
  then show ?thesis using finish_stream_Ok assms(2,3) SStream by (simp add: stages_def)
qed (use assms in \<open>auto simp: stages_def\<close>)

subsection \<open>A session\<close>

lemma s3_apply_resolved:
  assumes "bm_get (s3_handles s) h = Some i"
  shows "s3_apply ops s h (EditWrite off data) = follow (write_resolved ops s i off data) (\<lambda>t _. Some (t, Ok ()))"
    and "s3_apply ops s h (EditTruncate len) = truncate_resolved ops s i len"
  using assms by (simp_all add: s3_write_at_def s3_truncate_def handle_cell_def guard_s3_def)

lemma kept_apply:
  assumes "s3_apply ops s h e = Some (t, res)" "bm_get (s3_handles s) h = Some i" "i < length (s3_cells s)"
  shows "kept i s t"
  using assms s3_apply_resolved [OF assms(2)]
  by (cases e) (auto elim!: follow_cases dest: kept_write_resolved kept_truncate_resolved simp del: s3_apply.simps)

lemma stages_apply:
  assumes "s3_apply ops s h e = Some (t, Ok v)" "bm_get (s3_handles s) h = Some i" "i < length (s3_cells s)"
    and "s3_bucket s = bucket" "stages s (cell_of s i) c"
  shows "stages t (cell_of t i) (edited (om_append (hs_mode (cell_of s i))) c e)"
proof (cases e)
  case (EditWrite off data)
  then obtain n where "write_resolved ops s i off data = Some (t, Ok n)"
    using assms(1) s3_apply_resolved(1) [OF assms(2)] by (auto elim!: follow_cases simp del: s3_apply.simps)
  then show ?thesis using stages_write assms(3-5) EditWrite by simp
next
  case (EditTruncate len)
  then show ?thesis
    using assms s3_apply_resolved(2) [OF assms(2)] stages_truncate by (simp del: s3_apply.simps)
qed

lemma kept_run:
  assumes "s3_run ops s h es = Some (t, res)" "bm_get (s3_handles s) h = Some i" "i < length (s3_cells s)"
  shows "kept i s t"
  using assms
proof (induction es arbitrary: s)
  case (Cons e es)
  from Cons.prems(1) have "follow (s3_apply ops s h e) (\<lambda>t _. s3_run ops t h es) = Some (t, res)" by simp
  then show ?case
  proof (cases rule: follow_cases)
    case (err s1 f)
    then show ?thesis using kept_apply Cons.prems by blast
  next
    case (ok s1 v)
    have k: "kept i s s1" using kept_apply [OF ok(1)] Cons.prems by blast
    have "kept i s1 t" using Cons.IH [OF ok(2)] keepsD(2,3) [OF k] Cons.prems by simp
    then show ?thesis using k keeps_trans Cons.prems by blast
  qed
qed simp

lemma stages_run:
  assumes "s3_run ops s h es = Some (t, Ok v)" "bm_get (s3_handles s) h = Some i" "i < length (s3_cells s)"
    and "s3_bucket s = bucket" "stages s (cell_of s i) c"
  shows "stages t (cell_of t i) (foldl (edited (om_append (hs_mode (cell_of s i)))) c es)"
  using assms
proof (induction es arbitrary: s c)
  case (Cons e es)
  then obtain s1 where s1: "s3_apply ops s h e = Some (s1, Ok ())" "s3_run ops s1 h es = Some (t, Ok v)"
    by (auto elim!: follow_cases)
  note k = kept_apply [OF s1(1) Cons.prems(2,3)]
  have "stages s1 (cell_of s1 i) (edited (om_append (hs_mode (cell_of s i))) c e)"
    using stages_apply [OF s1(1) Cons.prems(2-5)] .
  from Cons.IH [OF s1(2) _ _ _ this] show ?case using keepsD [OF k] Cons.prems by simp
qed simp

lemma close_Ok:
  assumes "s3_close ops s h = (t, Ok v)" "bm_get (s3_handles s) h = Some i" "i < length (s3_cells s)"
    and "s3_bucket s = bucket" "stages s (cell_of s i) c"
  shows "body_at (s3_remote t) = (body_at (s3_remote s))(hs_key (cell_of s i) \<mapsto> c)"
proof -
  have "commit ops (release_handle s h i) (cell_of s i) = (t, Ok v)"
    using assms(1,2) by (simp add: s3_close_def handle_cell_def)
  moreover have "s3_bucket (release_handle s h i) = bucket" "s3_remote (release_handle s h i) = s3_remote s"
    using assms(4) by (simp_all add: release_handle_def)
  moreover have "stages (release_handle s h i) (cell_of s i) c"
    using assms(5) stages_cong [of "release_handle s h i" s] by (simp add: release_handle_def set_cell_def)
  ultimately show ?thesis using commit_Ok by metis
qed

lemma session_publishes:
  assumes op: "s3_open ops s path mode = Some (s1, Ok h)" and w: "om_write mode" and b: "s3_bucket s = bucket"
    and cs: "normalize_path path = Ok cs"
    and run: "s3_run ops s1 h es = Some (s2, Ok ())" and cl: "s3_close ops s2 h = (s3, Ok ())"
  shows "body_at (s3_remote s2) = body_at (s3_remote s)
    \<and> body_at (s3_remote s3) = (body_at (s3_remote s))(s3_key s cs \<mapsto> foldl (edited (om_append mode)) (base_contents s mode (s3_key s cs)) es)"
proof -
  from op w b cs obtain i where i: "bm_get (s3_handles s1) h = Some i" "i < length (s3_cells s1)"
    "hs_key (cell_of s1 i) = s3_key s cs" "hs_mode (cell_of s1 i) = mode"
    "stages s1 (cell_of s1 i) (base_contents s mode (s3_key s cs))"
    "body_at (s3_remote s1) = body_at (s3_remote s)" "s3_bucket s1 = bucket"
    by (rule open_stages)
  note k = kept_run [OF run i(1,2)]
  have "stages s2 (cell_of s2 i) (foldl (edited (om_append mode)) (base_contents s mode (s3_key s cs)) es)"
    using stages_run [OF run i(1,2,7,5)] i(4) by simp
  then show ?thesis using close_Ok [OF cl] i keepsD [OF k] by simp
qed

end

end
