(* ===== verification/S3_Outcomes.thy ===== *)
theory S3_Outcomes
  imports S3_Publish
begin

text \<open>
  What a session cannot do: overwrite a revision it did not open, or publish after a failure.
\<close>

fun pinned :: "staging \<Rightarrow> precondition" where
  "pinned (SStream st) = sm_precondition st"
| "pinned (SBuffer buf) = bf_precondition buf"
| "pinned _ = PNone"

lemma begin_upload_pin: "begin_upload ops s key st = ((t, st1), res) \<Longrightarrow> sm_precondition st1 = sm_precondition st"
  by (auto simp: begin_upload_def Let_def split: option.splits prod.splits sum.splits)

lemma flush_part_pin:
  assumes "flush_part ops s key st = ((t, st1), res)"
  shows "sm_precondition st1 = sm_precondition st"
proof -
  obtain s1 st2 res2 where b: "begin_upload ops s key st = ((s1, st2), res2)" by (metis surj_pair)
  then have "sm_precondition st2 = sm_precondition st" by (rule begin_upload_pin)
  then show ?thesis
    using assms b unfolding flush_part_def and_then_def
    by (auto simp: Let_def split: sum.splits if_splits prod.splits option.splits)
qed

lemma flush_parts_pin:
  "flush_parts ops s key st = Some y \<Longrightarrow> sm_precondition (snd (fst y)) = sm_precondition st"
  by (induction rule: flush_parts_rule) (auto dest: flush_part_pin)

lemma fill_gap_pin:
  "fill_gap ops s key st target = Some y \<Longrightarrow> sm_precondition (snd (fst y)) = sm_precondition st"
  by (induction rule: fill_gap_rule) (auto dest: flush_parts_pin)

lemma write_stream_pin:
  assumes "write_stream ops s key st target data = Some y"
  shows "sm_precondition (snd (fst y)) = sm_precondition st"
  using assms unfolding write_stream_def
proof (cases rule: follow_cases)
  case (err x e)
  then show ?thesis using fill_gap_pin by fastforce
next
  case (ok x v)
  obtain s1 st1 where x: "x = (s1, st1)" by (cases x)
  have "sm_precondition st1 = sm_precondition st" using fill_gap_pin [OF ok(1)] x by simp
  moreover have "sm_precondition (snd (fst y)) = sm_precondition st1"
    using ok(2) unfolding x Let_def guard_s3_def
    by (auto dest!: flush_parts_pin elim!: follow_cases split: sum.splits)
  ultimately show ?thesis by simp
qed

lemma materialize_pin: "materialize ops s key buf = ((t, buf1), res) \<Longrightarrow> bf_precondition buf1 = bf_precondition buf"
  by (auto simp: materialize_def split: option.splits prod.splits sum.splits)

lemma write_buffer_pin: "write_buffer ops s hs buf off data = ((t, buf1), res) \<Longrightarrow> bf_precondition buf1 = bf_precondition buf"
  unfolding write_buffer_def
  by (cases "materialize ops s (hs_key hs) buf")
    (auto simp: and_then_def Let_def attempt_cases dest: materialize_pin split: sum.splits prod.splits)

context s3_service
begin

lemma write_resolved_pin:
  assumes w: "write_resolved ops s i off data = Some (t, Ok v)" and i: "i < length (s3_cells s)"
  shows "pinned (hs_staging (cell_of t i)) = pinned (hs_staging (cell_of s i))"
proof (cases "hs_staging (cell_of s i)")
  case (SBuffer buf)
  obtain s1 buf1 r where wb: "write_buffer ops s (cell_of s i) buf off data = ((s1, buf1), r)" by (metis surj_pair)
  have "i < length (s3_cells s1)" using calmD(7) [OF still_write_buffer [OF wb]] i by simp
  then show ?thesis
    using w SBuffer wb write_buffer_pin [OF wb] unfolding write_resolved_def Let_def store_buffer_def
    by (auto split: if_splits)
next
  case (SStream st)
  have "pinned (hs_staging (cell_of t i)) = sm_precondition st"
    if settled: "settle_stream ops i (cell_of s i) (write_stream ops s (hs_key (cell_of s i)) st target data) = Some (t, Ok v)" for target
  proof -
    obtain s1 st1 where r: "write_stream ops s (hs_key (cell_of s i)) st target data = Some ((s1, st1), Ok v)"
      "t = set_cell s1 i ((cell_of s i)\<lparr>hs_staging := SStream st1\<rparr>)" "i < length (s3_cells s1)"
      using settled i by (rule settle_stream_Ok) (auto dest: still_write_stream)
    then show ?thesis using write_stream_pin [OF r(1)] by simp
  qed
  then show ?thesis
    using w SStream by (auto simp: write_resolved_def Let_def guard_s3_def split: if_splits sum.splits)
qed (use w in \<open>auto simp: write_resolved_def Let_def split: if_splits\<close>)

lemma truncate_resolved_pin:
  assumes w: "truncate_resolved ops s i len = Some (t, Ok v)" and i: "i < length (s3_cells s)"
  shows "pinned (hs_staging (cell_of t i)) = pinned (hs_staging (cell_of s i))"
proof (cases "hs_staging (cell_of s i)")
  case (SBuffer buf)
  obtain s1 buf1 r where m: "materialize ops s (hs_key (cell_of s i)) buf = ((s1, buf1), r)" by (metis surj_pair)
  have "i < length (s3_cells s1)" using calmD(7) [OF still_materialize [OF m]] i by simp
  then show ?thesis
    using w SBuffer m materialize_pin [OF m] unfolding truncate_resolved_def Let_def store_buffer_def and_then_def attempt_def
    by (auto split: if_splits sum.splits)
next
  case (SStream st)
  have "pinned (hs_staging (cell_of t i)) = sm_precondition st"
    if settled: "settle_stream ops i (cell_of s i) (fill_gap ops s (hs_key (cell_of s i)) st len) = Some (t, Ok v)"
  proof -
    obtain s1 st1 where r: "fill_gap ops s (hs_key (cell_of s i)) st len = Some ((s1, st1), Ok v)"
      "t = set_cell s1 i ((cell_of s i)\<lparr>hs_staging := SStream st1\<rparr>)" "i < length (s3_cells s1)"
      using settled i by (rule settle_stream_Ok) (auto dest: still_fill_gap)
    then show ?thesis using fill_gap_pin [OF r(1)] by simp
  qed
  then show ?thesis
    using w SStream i by (auto simp: truncate_resolved_def Let_def guard_s3_def split: if_splits sum.splits)
qed (use w in \<open>auto simp: truncate_resolved_def Let_def split: if_splits\<close>)

lemma run_pin:
  assumes "s3_run ops s h es = Some (t, Ok v)" "bm_get (s3_handles s) h = Some i" "i < length (s3_cells s)"
  shows "pinned (hs_staging (cell_of t i)) = pinned (hs_staging (cell_of s i))"
  using assms
proof (induction es arbitrary: s)
  case (Cons e es)
  then obtain s1 where s1: "s3_apply ops s h e = Some (s1, Ok ())" "s3_run ops s1 h es = Some (t, Ok v)"
    by (auto elim!: follow_cases)
  note k = kept_apply [OF s1(1) Cons.prems(2,3)]
  have "pinned (hs_staging (cell_of s1 i)) = pinned (hs_staging (cell_of s i))"
    using s1(1) s3_apply_resolved [OF Cons.prems(2)] write_resolved_pin truncate_resolved_pin Cons.prems(3)
    by (cases e) (auto elim!: follow_cases simp del: s3_apply.simps)
  then show ?case using Cons.IH [OF s1(2)] keepsD [OF k] Cons.prems by simp
qed simp

lemma commit_checked:
  assumes c: "commit ops s hs = (t, Ok v)" and b: "s3_bucket s = bucket" and on: "c_conditional_writes (s3_config_of s)"
  shows "s3_remote t = s3_remote s \<or>
    (pinned (hs_staging hs) = PAbsent \<longrightarrow> body_at (s3_remote s) (hs_key hs) = None)
    \<and> (\<forall>tag. pinned (hs_staging hs) = PMatch tag \<longrightarrow> etag_at (s3_remote s) (hs_key hs) = Some tag)"
proof (cases "hs_staging hs")
  case (SBuffer buf)
  then show ?thesis
    using c put_object_Ok(2,3) [OF _ b] on
    by (cases "bf_dirty buf") (auto simp: commit_def apply_precondition_def)
next
  case (SStream st)
  then have f: "finish_stream ops s (hs_key hs) st = (t, Ok v)"
    using c by (auto simp: commit_def split: prod.splits sum.splits option.splits)
  show ?thesis
  proof (cases "sm_upload st")
    case None
    then show ?thesis
      using f put_object_Ok(2,3) [OF _ b] on SStream by (auto simp: finish_stream_def apply_precondition_def)
  next
    case (Some up)
    from f Some obtain s1 parts where a: "ask s1 (\<lambda>r. o_complete_upload ops r \<lparr>mq_bucket = s3_bucket s1, mq_key = hs_key hs,
         mq_upload_id = up_id up, mq_parts = parts, mq_precondition = apply_precondition s1 (sm_precondition st)\<rparr>) = (t, Ok v)"
      and q: "still s s1"
      by (rule finish_stream_cases)
    show ?thesis
      using complete_checked [OF ask_Ok [OF a]] calmD [OF q] b on SStream by (simp add: apply_precondition_def)
  qed
qed (use c in \<open>auto simp: commit_def\<close>)

text \<open>The revision a writable handle is pinned to.\<close>

lemma open_pinned:
  assumes op: "s3_open ops s path mode = Some (t, Ok h)" and w: "om_write mode" and b: "s3_bucket s = bucket"
    and cs: "normalize_path path = Ok cs" and i: "bm_get (s3_handles t) h = Some i"
  shows "(om_create_new mode \<longrightarrow> pinned (hs_staging (cell_of t i)) = PAbsent)
    \<and> (body_at (s3_remote s) (s3_key s cs) \<noteq> None \<longrightarrow>
        (\<exists>tag. pinned (hs_staging (cell_of t i)) = PMatch tag \<and> etag_at (s3_remote s) (s3_key s cs) = Some tag))"
proof -
  from op b cs obtain s2 existing stg where stg: "open_staging mode existing = Ok stg"
    and ins: "s3_insert_handle s2 (s3_key s cs) mode stg = (t, Ok h)"
    and obj: "existing = None \<longrightarrow> body_at (s3_remote s) (s3_key s cs) = None"
      "\<forall>f. existing = Some f \<longrightarrow> (\<exists>b. body_at (s3_remote s) (s3_key s cs) = Some b \<and> length b = rmf_len f
        \<and> etag_at (s3_remote s) (s3_key s cs) = Some (rmf_etag f))"
    by (rule open_cases)
  have t: "hs_staging (cell_of t i) = stg" using insert_handle_Ok [OF ins] i by auto
  show ?thesis
    unfolding t using stg obj w
    by (cases existing) (auto simp: open_staging_def creation_precondition_def stream_new_def split: if_splits)
qed

text \<open>
  Between the calls of a session the store may change in any way: \<open>r1\<close> and \<open>r2\<close> are what other
  clients made of it.
\<close>

lemma no_lost_update:
  assumes op: "s3_open ops s path mode = Some (s1, Ok h)" and w: "om_write mode" and b: "s3_bucket s = bucket"
    and cs: "normalize_path path = Ok cs" and on: "c_conditional_writes (s3_config_of s)"
    and run: "s3_run ops (s1\<lparr>s3_remote := r1\<rparr>) h es = Some (s2, Ok ())"
    and cl: "s3_close ops (s2\<lparr>s3_remote := r2\<rparr>) h = (s3, Ok ())"
  shows "s3_remote s3 = r2 \<or>
    (om_create_new mode \<longrightarrow> body_at r2 (s3_key s cs) = None)
    \<and> (body_at (s3_remote s) (s3_key s cs) \<noteq> None \<longrightarrow> etag_at r2 (s3_key s cs) = etag_at (s3_remote s) (s3_key s cs))"
proof -
  from op w b cs obtain i where i: "bm_get (s3_handles s1) h = Some i" "i < length (s3_cells s1)"
    "hs_key (cell_of s1 i) = s3_key s cs" "s3_bucket s1 = bucket" "s3_config_of s1 = s3_config_of s"
    by (rule open_stages)
  have k: "kept i (s1\<lparr>s3_remote := r1\<rparr>) s2" using run i(1,2) by (intro kept_run) auto
  have pin: "pinned (hs_staging (cell_of s2 i)) = pinned (hs_staging (cell_of s1 i))"
    using run_pin [OF run] i(1,2) by simp
  define s2' where "s2' = s2\<lparr>s3_remote := r2\<rparr>"
  have "commit ops (release_handle s2' h i) (cell_of s2' i) = (s3, Ok ())"
    using cl i(1) keepsD(2) [OF k] by (simp add: s2'_def s3_close_def handle_cell_def)
  from commit_checked [OF this] show ?thesis
    using keepsD [OF k] i on pin open_pinned [OF op w b cs i(1)]
    by (auto simp: s2'_def release_handle_def set_cell_def)
qed

subsection \<open>After a failure\<close>

lemma failed_calls:
  assumes i: "bm_get (s3_handles s) h = Some i" "i < length (s3_cells s)"
    and hs: "hs_staging (cell_of s i) = SFailed e" "\<not> hs_released (cell_of s i)" "om_write (hs_mode (cell_of s i))"
  shows "s3_apply ops s h ed = Some (s, Err e)"
    and "s3_close ops s h = (release_handle s h i, Err e)"
proof -
  show "s3_apply ops s h ed = Some (s, Err e)"
    using hs s3_apply_resolved [OF i(1)]
    by (cases ed) (simp_all add: write_resolved_def truncate_resolved_def Let_def del: s3_apply.simps)
  show "s3_close ops s h = (release_handle s h i, Err e)"
    using hs i by (simp add: s3_close_def handle_cell_def commit_def)
qed

lemma settle_stream_Err:
  assumes se: "settle_stream ops i (cell_of s i) out = Some (t, Err e)" and i: "i < length (s3_cells s)"
    and q: "\<And>y. out = Some y \<Longrightarrow> still s (fst (fst y))"
  shows "hs_staging (cell_of t i) = SFailed e"
proof -
  obtain s1 st1 s2 hs2 where o: "out = Some ((s1, st1), Err e)" "fail_stream ops s1 (cell_of s i) st1 e = (s2, hs2)" "t = set_cell s2 i hs2"
    using se by (auto simp: settle_stream_def split: option.splits sum.splits fault.splits prod.splits)
  have "still s s2" using q [OF o(1)] still_fail_stream [OF o(2)] by (auto intro: calm_trans)
  then have "i < length (s3_cells s2)" using i by (simp add: calmD(7))
  then show ?thesis using o by (auto simp: fail_stream_def)
qed

lemma stream_error:
  assumes "s3_apply ops s h ed = Some (t, Err e)" and i: "bm_get (s3_handles s) h = Some i" "i < length (s3_cells s)"
    and hs: "hs_staging (cell_of s i) = SStream st"
  shows "t = s \<or> hs_staging (cell_of t i) = SFailed e"
proof -
  have sw: "hs_staging (cell_of t i) = SFailed e"
    if "settle_stream ops i (cell_of s i) (write_stream ops s key st target data) = Some (t, Err e)" for key target data
    using that i(2) by (rule settle_stream_Err) (rule still_write_stream)
  have sf: "hs_staging (cell_of t i) = SFailed e"
    if "settle_stream ops i (cell_of s i) (fill_gap ops s key st target) = Some (t, Err e)" for key target
    using that i(2) by (rule settle_stream_Err) (rule still_fill_gap)
  show ?thesis
    using assms(1) hs s3_apply_resolved [OF i(1)]
    by (cases ed)
      (auto simp: write_resolved_def truncate_resolved_def Let_def guard_s3_def elim!: follow_cases
        dest: sw sf split: if_splits sum.splits simp del: s3_apply.simps)
qed

end

end
