(* ===== verification/S3_Returns.thy ===== *)
theory S3_Returns
  imports S3_Publish
begin

text \<open>
  Every call on the S3 filesystem returns: the listing loops because tokens do not repeat, the
  upload loops because every turn flushes a part or extends the stream.
\<close>

definition returns :: "'a option \<Rightarrow> bool" where
  "returns out \<longleftrightarrow> (\<exists>y. out = Some y)"

lemma returns_Some [simp]: "returns (Some y)"
  by (simp add: returns_def)

lemma returns_map: "returns out \<Longrightarrow> returns (map_option f out)"
  by (auto simp: returns_def)

text \<open>Requests change the store only.\<close>

lemma ask_part_size: "ask s f = (t, res) \<Longrightarrow> s3_part_size t = s3_part_size s"
  by (auto simp: ask_def split: prod.splits)

lemma ask_vfs_part_size: "ask_vfs s f = (t, res) \<Longrightarrow> s3_part_size t = s3_part_size s"
  by (auto dest!: ask_vfs_fst ask_part_size)

lemma part_size_pos: "0 < s3_part_size s \<Longrightarrow> 0 < part_size s n"
  by (simp add: part_size_def usize_max_def)

text \<open>A flushed part moves from the tail to the flushed bytes.\<close>

lemma flush_part_moves:
  assumes "flush_part ops s key st = ((s1, st1), Ok v)" "part_size s (uploaded_parts st) \<le> length (sm_buffer st)"
  shows "s3_part_size s1 = s3_part_size s"
    and "length (sm_buffer st1) + part_size s (uploaded_parts st) = length (sm_buffer st)"
    and "sm_flushed st1 + length (sm_buffer st1) = sm_flushed st + length (sm_buffer st)"
proof -
  obtain s2 st2 up where b: "begin_upload ops s key st = ((s2, st2), Ok up)"
    using assms(1) unfolding flush_part_def and_then_def by (auto split: prod.splits sum.splits)
  have st2: "sm_buffer st2 = sm_buffer st" "sm_flushed st2 = sm_flushed st" "s3_part_size s2 = s3_part_size s"
    using b unfolding begin_upload_def by (auto simp: Let_def split: option.splits prod.splits sum.splits dest: ask_vfs_part_size)
  define n where "n = part_size s (uploaded_parts st)"
  obtain etag where u: "upload_part ops s2 key (up_id up) (uploaded_parts st + 1) (take n (sm_buffer st)) = (s1, Ok etag)"
    and st1: "sm_buffer st1 = drop n (sm_buffer st)" "sm_flushed st1 = sm_flushed st + length (take n (sm_buffer st))"
    using assms(1) b st2 unfolding flush_part_def n_def [symmetric] Let_def
    by (auto simp: checked_add_def split: if_splits prod.splits sum.splits option.splits)
  show "s3_part_size s1 = s3_part_size s" using u st2(3) by (auto simp: upload_part_def dest: ask_vfs_part_size)
  show "length (sm_buffer st1) + part_size s (uploaded_parts st) = length (sm_buffer st)"
    "sm_flushed st1 + length (sm_buffer st1) = sm_flushed st + length (sm_buffer st)"
    using st1 assms(2) by (simp_all add: n_def)
qed

lemma flush_parts_returns:
  assumes "0 < s3_part_size s"
  shows "\<exists>y. flush_parts ops s key st = Some y"
  using assms
proof (induction "length (sm_buffer st)" arbitrary: s st rule: less_induct)
  case less
  obtain s1 st1 res where f: "flush_part ops s key st = ((s1, st1), res)" by (metis surj_pair)
  show ?case
  proof (cases "length (sm_buffer st) < part_size s (uploaded_parts st)")
    case True
    then show ?thesis by (subst flush_parts.simps) simp
  next
    case full: False
    show ?thesis
    proof (cases res)
      case (Inr v)
      note moved = flush_part_moves [OF f [unfolded Inr]]
      have "\<exists>y. flush_parts ops s1 key st1 = Some y"
        using less.hyps [of st1 s1] moved full part_size_pos [OF less.prems, of "uploaded_parts st"] less.prems by simp
      then show ?thesis using full f Inr by (subst flush_parts.simps) simp
    qed (use full f in \<open>subst flush_parts.simps, simp\<close>)
  qed
qed

lemma flush_parts_moves:
  assumes "flush_parts ops s key st = Some y" "snd y = Ok ()"
  shows "s3_part_size (fst (fst y)) = s3_part_size s
    \<and> sm_flushed (snd (fst y)) + length (sm_buffer (snd (fst y))) = sm_flushed st + length (sm_buffer st)
    \<and> length (sm_buffer (snd (fst y))) < part_size (fst (fst y)) (uploaded_parts (snd (fst y)))"
  using assms
proof (induction rule: flush_parts_rule)
  case (turn s st s1 st1 y)
  then show ?case using flush_part_moves [OF turn(2,1)] by simp
qed simp_all

lemma fill_gap_returns:
  assumes "0 < s3_part_size s"
  shows "\<exists>y. fill_gap ops s key st target = Some y"
  using assms
proof (induction "target - (sm_flushed st + length (sm_buffer st))" arbitrary: s st rule: less_induct)
  case less
  show ?case
  proof (cases "stream_end st")
    case (Inl e)
    then show ?thesis by (subst fill_gap.simps) simp
  next
    case (Inr e)
    then have e: "e = sm_flushed st + length (sm_buffer st)"
      by (auto simp: stream_end_def checked_add_def split: if_splits)
    define n where "n = min (max 1 (part_size s (uploaded_parts st) - length (sm_buffer st))) (target - e)"
    show ?thesis
    proof (cases "target \<le> e \<or> (\<exists>f. vec_resize (sm_buffer st) (length (sm_buffer st) + n) = Inl f)")
      case True
      then show ?thesis using Inr by (subst fill_gap.simps) (auto simp: Let_def n_def)
    next
      case False
      then obtain bytes where b: "vec_resize (sm_buffer st) (length (sm_buffer st) + n) = Ok bytes"
        by (cases "vec_resize (sm_buffer st) (length (sm_buffer st) + n)") auto
      then have len: "length bytes = length (sm_buffer st) + n" by (auto simp: vec_resize_def split: if_splits)
      have "0 < n" using False by (auto simp: n_def)
      obtain s1 st1 res where f: "flush_parts ops s key (st\<lparr>sm_buffer := bytes\<rparr>) = Some ((s1, st1), res)"
        using flush_parts_returns [OF less.prems] by (metis surj_pair)
      have "\<exists>y. fill_gap ops s1 key st1 target = Some y" if "res = Ok ()"
        using less.hyps [of st1 s1] flush_parts_moves [OF f] that len e False \<open>0 < n\<close> less.prems by auto
      then show ?thesis
        using Inr b f False by (subst fill_gap.simps) (auto simp: Let_def n_def split: sum.splits)
    qed
  qed
qed

subsection \<open>The operations\<close>

text \<open>Sequencing of calls that return.\<close>

lemma returns_follow:
  "returns out \<Longrightarrow> (\<And>s v. out = Some (s, Inr v) \<Longrightarrow> returns (k s v)) \<Longrightarrow> returns (follow out k)"
  by (auto simp: returns_def follow_def split: sum.splits)

lemma returns_guard: "(\<And>v. r = Inr v \<Longrightarrow> returns (k v)) \<Longrightarrow> returns (guard_s3 s r k)"
  by (auto simp: returns_def guard_s3_def split: sum.splits)

lemma returns_settle: "returns out \<Longrightarrow> returns (settle_stream ops i hs out)"
  by (auto simp: returns_def settle_stream_def split: sum.splits fault.splits prod.splits)

lemma fill_gap_part_size:
  assumes "fill_gap ops s key st target = Some y" "snd y = Ok ()"
  shows "s3_part_size (fst (fst y)) = s3_part_size s"
  using assms
proof (induction rule: fill_gap_rule)
  case (turn s st e k bytes s1 st1 y)
  then show ?case using flush_parts_moves [OF turn(5)] by simp
qed simp_all

lemma write_stream_returns:
  assumes "0 < s3_part_size s"
  shows "returns (write_stream ops s key st target data)"
  unfolding write_stream_def
proof (rule returns_follow)
  show "returns (fill_gap ops s key st target)" using fill_gap_returns [OF assms] by (simp add: returns_def)
  fix x v
  assume f: "fill_gap ops s key st target = Some (x, Ok v)"
  have "0 < s3_part_size (fst x)" using fill_gap_part_size [OF f] assms by simp
  then have r: "returns (flush_parts ops (fst x) key st')" for st'
    using flush_parts_returns by (simp add: returns_def)
  obtain s1 st1 where x: "x = (s1, st1)" by (cases x)
  show "returns ((case x of (s1, st1) \<Rightarrow> \<lambda>_. let start = target - sm_flushed st1 in
       guard_s3 (s1, st1) (ok_or EINVAL (checked_add start (length data))) (\<lambda>e.
       guard_s3 (s1, st1) (if length (sm_buffer st1) < e then vec_resize (sm_buffer st1) e else Ok (sm_buffer st1)) (\<lambda>bytes.
       follow (flush_parts ops s1 key (st1\<lparr>sm_buffer := take start bytes @ data @ drop e bytes\<rparr>)) (\<lambda>(s2, st2) _.
         Some ((s2, st2), Ok (length data)))))) v)"
    unfolding x prod.case Let_def
    by (intro returns_guard returns_follow) (use r in \<open>auto simp: x split: prod.splits\<close>)
qed

lemma s3_write_returns:
  assumes "0 < s3_part_size s"
  shows "returns (s3_write_at ops s h off data)"
proof -
  have "returns (write_resolved ops s i off data)" for i
    unfolding write_resolved_def Let_def
    by (cases "hs_staging (cell_of s i)") (auto intro!: returns_guard returns_settle write_stream_returns [OF assms])
  then show ?thesis unfolding s3_write_at_def by (intro returns_guard)
qed

lemma s3_truncate_returns:
  assumes "0 < s3_part_size s"
  shows "returns (s3_truncate ops s h len)"
proof -
  have "returns (fill_gap ops s key st len)" for key st using fill_gap_returns [OF assms] by (simp add: returns_def)
  then have "returns (truncate_resolved ops s i len)" for i
    unfolding truncate_resolved_def Let_def
    by (cases "hs_staging (cell_of s i)") (auto intro!: returns_guard returns_settle)
  then show ?thesis unfolding s3_truncate_def by (intro returns_guard)
qed

lemma listing_returns:
  assumes "paginates ops"
  shows "returns (scan_loop ops s prefix probe c seen es pr)" "returns (list_recursive_loop ops s prefix c seen keys)"
proof -
  obtain T where T: "tokens_from ops (s3_remote s) T" using assms unfolding paginates_def by blast
  show "returns (scan_loop ops s prefix probe c seen es pr)"
    unfolding returns_def by (rule scan_loop_returns [OF T])
  show "returns (list_recursive_loop ops s prefix c seen keys)"
    unfolding returns_def by (rule list_recursive_loop_returns [OF T])
qed

lemma scan_directory_returns: "paginates ops \<Longrightarrow> returns (scan_directory ops s cs probe)"
  unfolding scan_directory_def
  by (intro returns_follow listing_returns) (auto split: prod.splits)

lemma kind_at_returns: "paginates ops \<Longrightarrow> returns (kind_at ops s cs)"
  unfolding kind_at_def
  by (auto intro!: returns_follow intro: scan_directory_returns split: prod.splits sum.splits fault.splits remote_error.splits)

lemma validate_ends_returns: "paginates ops \<Longrightarrow> returns (validate_ends ops s cs es)"
proof (induction es arbitrary: s)
  case (Cons e es)
  then show ?case
    by (auto intro!: returns_follow intro: kind_at_returns split: option.splits kind.splits)
qed simp

lemma validate_parents_returns: "paginates ops \<Longrightarrow> returns (validate_parents ops s cs)"
  unfolding validate_parents_def by (rule validate_ends_returns)

lemma rename_directory_returns: "paginates ops \<Longrightarrow> returns (rename_directory ops s f t)"
  unfolding rename_directory_def Let_def list_recursive_def
  by (intro returns_follow returns_guard listing_returns) simp_all

lemma s3_paths_return:
  assumes T: "paginates ops"
  shows "returns (s3_stat ops s p)" "returns (s3_readdir ops s p)" "returns (s3_mkdir ops s p)"
    "returns (s3_unlink ops s p)" "returns (s3_rmdir ops s p)" "returns (s3_open ops s p mode)"
    "returns (s3_rename ops s p p')"
proof -
  note r = returns_guard returns_follow validate_parents_returns [OF T] kind_at_returns [OF T] scan_directory_returns [OF T]
    rename_directory_returns [OF T]
  show "returns (s3_stat ops s p)" unfolding s3_stat_def
    by (intro r) (auto split: option.splits kind.splits)
  show "returns (s3_readdir ops s p)" unfolding s3_readdir_def
    by (intro r) (auto split: prod.splits sum.splits fault.splits)
  show "returns (s3_mkdir ops s p)" unfolding s3_mkdir_def
    by (auto intro!: r)
  show "returns (s3_unlink ops s p)" unfolding s3_unlink_def
    by (auto intro!: r split: option.splits kind.splits)
  show "returns (s3_rmdir ops s p)" unfolding s3_rmdir_def
    by (auto intro!: r split: option.splits kind.splits prod.splits sum.splits fault.splits)
  show "returns (s3_open ops s p mode)" unfolding s3_open_def
    by (auto intro!: r split: option.splits kind.splits)
  show "returns (s3_rename ops s p p')" unfolding s3_rename_def
    by (auto intro!: r split: option.splits kind.splits)
qed

end
