(* ===== verification/S3_Limits.thy ===== *)
theory S3_Limits
  imports S3_Returns
begin

text \<open>
  The limits of S3 on multipart uploads: the growing part size keeps every object the service
  accepts within ten thousand parts of an admissible size, and at most one part is held in memory.
\<close>

definition max_object :: nat where
  "max_object = 5 * 2 ^ 40"

definition max_parts :: nat where
  "max_parts = 10000"

lemma default_part_size:
  assumes "s3_part_size s = initial_part_size" "n < max_parts"
  shows "part_size s n = 2 ^ 23 * 2 ^ (n div 1000)"
proof -
  have "n div 1000 \<le> 9" using assms(2) by (simp add: max_parts_def)
  moreover from this have "(2::nat) ^ (n div 1000) \<le> 2 ^ 9" by (rule power_increasing) simp
  ultimately show ?thesis
    using assms(1) by (simp add: part_size_def initial_part_size_def parts_per_size_class_def usize_max_def min_def)
qed

lemma default_part_bounds:
  assumes "s3_part_size s = initial_part_size" "n < max_parts"
  shows "5 * 2 ^ 20 \<le> part_size s n" "part_size s n \<le> 5 * 2 ^ 30"
proof -
  have "n div 1000 \<le> 9" using assms(2) by (simp add: max_parts_def)
  then have "(2::nat) ^ (n div 1000) \<le> 2 ^ 9" by (rule power_increasing) simp
  moreover have "(1::nat) \<le> 2 ^ (n div 1000)" by simp
  moreover obtain p :: nat where p: "p = 2 ^ (n div 1000)" by simp
  ultimately show "5 * 2 ^ 20 \<le> part_size s n" "part_size s n \<le> 5 * 2 ^ 30"
    unfolding default_part_size [OF assms] p [symmetric] by simp_all
qed

text \<open>A thousand parts of every size class.\<close>

lemma sum_size_classes: "(\<Sum>n<1000 * k. 2 ^ 23 * 2 ^ (n div 1000)) = 2 ^ 23 * 1000 * (2 ^ k - 1 :: nat)"
proof (induction k)
  case (Suc k)
  have split: "{..<1000 * Suc k} = {..<1000 * k} \<union> {1000 * k..<1000 * Suc k}" by auto
  have "(\<Sum>n<1000 * Suc k. 2 ^ 23 * 2 ^ (n div 1000)) =
      (\<Sum>n<1000 * k. 2 ^ 23 * 2 ^ (n div 1000)) + (\<Sum>n\<in>{1000 * k..<1000 * Suc k}. 2 ^ 23 * 2 ^ (n div 1000) :: nat)"
    unfolding split by (rule sum.union_disjoint) auto
  also have "(\<Sum>n\<in>{1000 * k..<1000 * Suc k}. 2 ^ 23 * 2 ^ (n div 1000) :: nat) =
      (\<Sum>n\<in>{1000 * k..<1000 * Suc k}. 2 ^ 23 * 2 ^ k)"
  proof (rule sum.cong [OF refl])
    fix n assume "n \<in> {1000 * k..<1000 * Suc k}"
    then have "n div 1000 = k" by (simp add: div_nat_eqI)
    then show "(2 ^ 23 * 2 ^ (n div 1000) :: nat) = 2 ^ 23 * 2 ^ k" by simp
  qed
  also have "\<dots> = 1000 * (2 ^ 23 * 2 ^ k)" by simp
  finally show ?case using Suc by (simp add: algebra_simps)
qed simp

lemma parts_within:
  assumes s: "s3_part_size s = initial_part_size"
    and few: "sum_list (map (part_size s) [0 ..< n]) \<le> max_object"
  shows "n < max_parts"
proof (rule ccontr)
  assume "\<not> n < max_parts"
  then have n: "max_parts \<le> n" by simp
  have "(\<Sum>k<max_parts. part_size s k) = (\<Sum>k<max_parts. 2 ^ 23 * 2 ^ (k div 1000))"
    using default_part_size [OF s] by (intro sum.cong) auto
  also have "\<dots> = 2 ^ 23 * 1000 * (2 ^ 10 - 1)" using sum_size_classes [of 10] by (simp add: max_parts_def)
  finally have "max_object < (\<Sum>k<max_parts. part_size s k)" by (simp add: max_object_def)
  also have "\<dots> \<le> (\<Sum>k<n. part_size s k)" using n by (intro sum_mono2) auto
  also have "\<dots> = sum_list (map (part_size s) [0 ..< n])"
    by (simp add: interv_sum_list_conv_sum_set_nat atLeast0LessThan)
  finally show False using few by simp
qed

subsection \<open>The tail is less than a part\<close>

definition small_tail :: "'r s3_vfs \<Rightarrow> stream \<Rightarrow> bool" where
  "small_tail s st \<longleftrightarrow> length (sm_buffer st) < part_size s (uploaded_parts st)"

lemma fill_gap_tail:
  assumes "fill_gap ops s key st target = Some y" "snd y = Ok ()" "small_tail s st"
  shows "small_tail (fst (fst y)) (snd (fst y))"
  using assms
proof (induction rule: fill_gap_rule)
  case (turn s st e k bytes s1 st1 y)
  then show ?case using flush_parts_moves [OF turn(5)] by (simp add: small_tail_def)
qed simp_all

lemma write_stream_tail:
  assumes "write_stream ops s key st target data = Some ((t, st1), Ok v)"
  shows "small_tail t st1"
  using assms unfolding write_stream_def Let_def guard_s3_def
  by (auto elim!: follow_cases dest!: flush_parts_moves simp: small_tail_def split: sum.splits if_splits)

context s3_service
begin

lemma settle_tail:
  assumes "settle_stream ops i hs out = Some (t, Ok u)" "i < length (s3_cells s)"
    and "\<And>y. out = Some y \<Longrightarrow> still s (fst (fst y))"
    and small: "\<And>s1 st1. out = Some ((s1, st1), Ok u) \<Longrightarrow> small_tail s1 st1"
    and t: "hs_staging (cell_of t i) = SStream st1"
  shows "small_tail t st1"
  using assms(1-3) by (rule settle_stream_Ok) (use t small in \<open>auto simp: small_tail_def\<close>)

lemma apply_tail:
  assumes ap: "s3_apply ops s h e = Some (t, Ok v)" and i: "bm_get (s3_handles s) h = Some i" "i < length (s3_cells s)"
    and tail: "\<And>st. hs_staging (cell_of s i) = SStream st \<Longrightarrow> small_tail s st"
    and t: "hs_staging (cell_of t i) = SStream st1"
  shows "small_tail t st1"
proof (cases e)
  case (EditWrite off data)
  then obtain u where w: "write_resolved ops s i off data = Some (t, Ok u)"
    using ap s3_apply_resolved [OF i(1)] by (auto elim!: follow_cases simp del: s3_apply.simps)
  show ?thesis
  proof (cases "hs_staging (cell_of s i)")
    case (SBuffer buf)
    obtain s1 buf1 r where wb: "write_buffer ops s (cell_of s i) buf off data = ((s1, buf1), r)" by (metis surj_pair)
    have "i < length (s3_cells s1)" using calmD(7) [OF still_write_buffer [OF wb]] i by simp
    then show ?thesis
      using w SBuffer wb t unfolding write_resolved_def Let_def store_buffer_def by (auto split: if_splits)
  next
    case (SStream st)
    have "small_tail t st1"
      if "settle_stream ops i (cell_of s i) (write_stream ops s key st target data) = Some (t, Ok u)" for key target
      using that i(2) still_write_stream write_stream_tail t by (rule settle_tail)
    then show ?thesis
      using w SStream tail t by (auto simp: write_resolved_def Let_def guard_s3_def split: if_splits sum.splits)
  qed (use w t in \<open>auto simp: write_resolved_def Let_def split: if_splits\<close>)
next
  case (EditTruncate len)
  then have w: "truncate_resolved ops s i len = Some (t, Ok v)"
    using ap s3_apply_resolved [OF i(1)] by (simp del: s3_apply.simps)
  show ?thesis
  proof (cases "hs_staging (cell_of s i)")
    case (SBuffer buf)
    obtain s1 buf1 r where m: "materialize ops s (hs_key (cell_of s i)) buf = ((s1, buf1), r)" by (metis surj_pair)
    have "i < length (s3_cells s1)" using calmD(7) [OF still_materialize [OF m]] i by simp
    then show ?thesis
      using w SBuffer m t unfolding truncate_resolved_def Let_def store_buffer_def and_then_def attempt_def
      by (auto split: if_splits sum.splits)
  next
    case (SStream st)
    have small: "small_tail s1 st2" if "fill_gap ops s key st len = Some ((s1, st2), Ok v)" for key s1 st2
      using fill_gap_tail [OF that] tail SStream by simp
    have "small_tail t st1"
      if "settle_stream ops i (cell_of s i) (fill_gap ops s key st len) = Some (t, Ok v)" for key
      using that i(2) still_fill_gap small t by (rule settle_tail)
    then show ?thesis
      using w SStream tail t i
      by (auto simp: truncate_resolved_def Let_def guard_s3_def small_tail_def uploaded_parts_def split: if_splits sum.splits)
  qed (use w t in \<open>auto simp: truncate_resolved_def Let_def split: if_splits\<close>)
qed

lemma run_tail:
  assumes "s3_run ops s h es = Some (t, Ok v)" "bm_get (s3_handles s) h = Some i" "i < length (s3_cells s)"
    and "\<And>st. hs_staging (cell_of s i) = SStream st \<Longrightarrow> small_tail s st"
    and "hs_staging (cell_of t i) = SStream st1"
  shows "small_tail t st1"
  using assms
proof (induction es arbitrary: s)
  case (Cons e es)
  then obtain s1 where s1: "s3_apply ops s h e = Some (s1, Ok ())" "s3_run ops s1 h es = Some (t, Ok v)"
    by (auto elim!: follow_cases)
  note k = keepsD [OF kept_apply [OF s1(1) Cons.prems(2,3)]]
  have tail: "small_tail s1 st" if "hs_staging (cell_of s1 i) = SStream st" for st
    by (rule apply_tail [OF s1(1) Cons.prems(2,3)]) (use Cons.prems(4) that in simp_all)
  show ?case
    by (rule Cons.IH [OF s1(2)]) (use k Cons.prems tail in simp_all)
qed simp

lemma open_tail:
  assumes op: "s3_open ops s path mode = Some (t, Ok h)" and b: "s3_bucket s = bucket" and cs: "normalize_path path = Ok cs"
    and i: "bm_get (s3_handles t) h = Some i" and pos: "0 < s3_part_size s"
    and st: "hs_staging (cell_of t i) = SStream st"
  shows "small_tail t st"
proof -
  from op b cs obtain s2 existing stg where q: "still s s2" and stg: "open_staging mode existing = Ok stg"
    and ins: "s3_insert_handle s2 (s3_key s cs) mode stg = (t, Ok h)"
    by (rule open_cases)
  have "0 < s3_part_size t" using insert_handle_Ok(4) [OF ins] calmD(4) [OF q] pos by simp
  moreover have "sm_buffer st = []"
    using insert_handle_Ok [OF ins] i st stg
    by (auto simp: open_staging_def stream_new_def split: if_splits option.splits)
  ultimately show ?thesis using part_size_pos by (simp add: small_tail_def)
qed

lemma session_parts:
  assumes op: "s3_open ops s path mode = Some (s1, Ok h)" and w: "om_write mode" and b: "s3_bucket s = bucket"
    and cs: "normalize_path path = Ok cs" and size: "s3_part_size s = initial_part_size"
    and run: "s3_run ops s1 h es = Some (s2, Ok ())"
    and small: "length (foldl (edited (om_append mode)) (base_contents s mode (s3_key s cs)) es) \<le> max_object"
    and i: "bm_get (s3_handles s2) h = Some i" and st: "hs_staging (cell_of s2 i) = SStream st"
  shows "uploaded_parts st + 1 \<le> max_parts" "length (sm_buffer st) \<le> 5 * 2 ^ 30"
    and "sm_upload st = Some up \<Longrightarrow> n < uploaded_parts st \<Longrightarrow>
      \<exists>body. part_at (s3_remote s2) (up_id up) (n + 1) = Some body \<and> 5 * 2 ^ 20 \<le> length body \<and> length body \<le> 5 * 2 ^ 30"
proof -
  from op w b cs obtain j where j: "bm_get (s3_handles s1) h = Some j" "j < length (s3_cells s1)"
    "hs_mode (cell_of s1 j) = mode" "stages s1 (cell_of s1 j) (base_contents s mode (s3_key s cs))"
    "s3_bucket s1 = bucket" "s3_part_size s1 = s3_part_size s"
    by (rule open_stages)
  note k = keepsD [OF kept_run [OF run j(1,2)]]
  have ij: "j = i" using i j(1) k(2) by simp
  define c where "c = foldl (edited (om_append mode)) (base_contents s mode (s3_key s cs)) es"
  have rep: "stream_rep s2 st c"
    using stages_run [OF run j(1,2,5,4)] j(3) st ij by (simp add: stages_def c_def)
  have size2: "s3_part_size s2 = initial_part_size" using k(5) j(6) size by simp
  note parts = stream_rep_parts [OF rep]
  have few: "uploaded_parts st < max_parts"
    using parts(1,4) small by (intro parts_within [OF size2]) (simp add: c_def)
  then show "uploaded_parts st + 1 \<le> max_parts" by simp
  have pos: "0 < s3_part_size s" using size by (simp add: initial_part_size_def)
  have "small_tail s2 st"
    using run j(1,2) open_tail [OF op b cs j(1) pos] st [folded ij] by (rule run_tail)
  then show "length (sm_buffer st) \<le> 5 * 2 ^ 30"
    using default_part_bounds(2) [OF size2 few] by (simp add: small_tail_def)
  show "\<exists>body. part_at (s3_remote s2) (up_id up) (n + 1) = Some body \<and> 5 * 2 ^ 20 \<le> length body \<and> length body \<le> 5 * 2 ^ 30"
    if up: "sm_upload st = Some up" and n: "n < uploaded_parts st"
  proof -
    obtain bs where bs: "map length bs = map (part_size s2) [0 ..< length bs]" "map pt_number (up_parts up) = [1 ..< length bs + 1]"
      "\<forall>i < length bs. part_at (s3_remote s2) (up_id up) (i + 1) = Some (bs ! i)"
      using rep up unfolding stream_rep_def by auto
    have "length (up_parts up) = length bs" using bs(2) by (metis add_diff_cancel_right' length_map length_upt)
    then have nb: "n < length bs" using n up by (simp add: uploaded_parts_def)
    then have "length (bs ! n) = part_size s2 n" using arg_cong [OF bs(1), of "\<lambda>xs. xs ! n"] by simp
    then show ?thesis using bs(3) nb default_part_bounds [OF size2, of n] few n by auto
  qed
qed

end

end
