(* ===== verification/S3_Readonly.thy ===== *)
theory S3_Readonly
  imports S3_Publish
begin

text \<open>
  A read-only S3 filesystem: it never makes a mutating request. This is stated without naming
  requests: whatever the mutating operations of the store do, every call gives the same answer
  and leaves the same state.
\<close>

definition same_reads :: "'r s3_ops \<Rightarrow> 'r s3_ops \<Rightarrow> bool" where
  "same_reads ops ops' \<longleftrightarrow> o_head ops = o_head ops' \<and> o_list ops = o_list ops' \<and> o_get ops = o_get ops'"

datatype s3_call =
    CallStat rstr | CallReaddir rstr | CallMkdir rstr | CallRename rstr rstr | CallUnlink rstr | CallRmdir rstr
  | CallOpen rstr open_mode | CallRead file_handle nat nat | CallWrite file_handle nat "byte list"
  | CallTruncate file_handle nat | CallAbort file_handle | CallClose file_handle

datatype s3_reply = ReplyError "errno fault" | ReplyDone | ReplyMeta metadata | ReplyEntries "dir_entry list"
  | ReplyHandle file_handle | ReplyBytes "byte list" | ReplyCount nat

definition replied :: "('v \<Rightarrow> s3_reply) \<Rightarrow> 's \<times> 'v vres \<Rightarrow> 's \<times> s3_reply" where
  "replied f out = (case out of (s, Inl e) \<Rightarrow> (s, ReplyError e) | (s, Inr v) \<Rightarrow> (s, f v))"

fun s3_do :: "'r s3_ops \<Rightarrow> 'r s3_vfs \<Rightarrow> s3_call \<Rightarrow> ('r s3_vfs \<times> s3_reply) option" where
  "s3_do ops s (CallStat p) = map_option (replied ReplyMeta) (s3_stat ops s p)"
| "s3_do ops s (CallReaddir p) = map_option (replied ReplyEntries) (s3_readdir ops s p)"
| "s3_do ops s (CallMkdir p) = map_option (replied (\<lambda>_. ReplyDone)) (s3_mkdir ops s p)"
| "s3_do ops s (CallRename p q) = map_option (replied (\<lambda>_. ReplyDone)) (s3_rename ops s p q)"
| "s3_do ops s (CallUnlink p) = map_option (replied (\<lambda>_. ReplyDone)) (s3_unlink ops s p)"
| "s3_do ops s (CallRmdir p) = map_option (replied (\<lambda>_. ReplyDone)) (s3_rmdir ops s p)"
| "s3_do ops s (CallOpen p m) = map_option (replied ReplyHandle) (s3_open ops s p m)"
| "s3_do ops s (CallRead h off n) = Some (replied ReplyBytes (s3_read_at ops s h off n))"
| "s3_do ops s (CallWrite h off d) = map_option (replied ReplyCount) (s3_write_at ops s h off d)"
| "s3_do ops s (CallTruncate h n) = map_option (replied (\<lambda>_. ReplyDone)) (s3_truncate ops s h n)"
| "s3_do ops s (CallAbort h) = Some (replied (\<lambda>_. ReplyDone) (s3_abort ops s h))"
| "s3_do ops s (CallClose h) = Some (replied (\<lambda>_. ReplyDone) (s3_close ops s h))"

fun s3_do_all :: "'r s3_ops \<Rightarrow> 'r s3_vfs \<Rightarrow> s3_call list \<Rightarrow> ('r s3_vfs \<times> s3_reply list) option" where
  "s3_do_all ops s [] = Some (s, [])"
| "s3_do_all ops s (c # cs) =
     (case s3_do ops s c of
        None \<Rightarrow> None
      | Some (t, r) \<Rightarrow> map_option (\<lambda>(u, replies). (u, r # replies)) (s3_do_all ops t cs))"

subsection \<open>Reading depends on the reads only\<close>

lemma list_page_cong: "same_reads ops ops' \<Longrightarrow> list_page ops = list_page ops'"
  by (simp add: same_reads_def list_page_def [abs_def])

lemma head_key_cong: "same_reads ops ops' \<Longrightarrow> head_key ops = head_key ops'"
  by (simp add: same_reads_def head_key_def [abs_def])

lemma read_remote_cong:
  assumes "same_reads ops ops'"
  shows "read_remote ops = read_remote ops'"
proof -
  have "get_range ops = get_range ops'" using assms by (simp only: same_reads_def get_range_def [abs_def])
  then show ?thesis by (simp only: read_remote_def [abs_def])
qed

lemma scan_loop_follows:
  assumes "scan_loop ops s prefix probe c seen es pr = Some y" "same_reads ops ops'"
  shows "scan_loop ops' s prefix probe c seen es pr = Some y"
proof -
  have "same_reads ops ops' \<longrightarrow> scan_loop ops' s prefix probe c seen es pr = Some y"
  proof (rule scan_loop.raw_induct [where P = "\<lambda>o' s p b c seen es pr y. same_reads o' ops' \<longrightarrow> scan_loop ops' s p b c seen es pr = Some y",
        OF _ assms(1)], intro impI)
    fix f o' s p b c seen es pr y
    assume IH: "\<And>o' s p b c seen es pr y. f o' s p b c seen es pr = Some y \<Longrightarrow> same_reads o' ops' \<longrightarrow> scan_loop ops' s p b c seen es pr = Some y"
      and step: "(case list_page o' s p [slash] c (if b then Some 2 else None) of
        (s1, Inl e) \<Rightarrow> Some (s1, Inl e)
      | (s1, Inr page) \<Rightarrow>
          let (entries1, present1) = add_objects p (lr_objects page) es pr;
              (entries2, present2) = add_prefixes p (lr_common_prefixes page) entries1 present1 in
          if \<not> lr_truncated page then Some (s1, Ok (entries2, present2))
          else
            (case next_token page seen of
               Inl e \<Rightarrow> Some (s1, Inl e)
             | Inr token \<Rightarrow>
                 if b \<and> entries2 \<noteq> [] then Some (s1, Ok (entries2, present2))
                 else f o' s1 p b (Some token) (token # seen) entries2 present2)) = Some y"
      and same: "same_reads o' ops'"
    obtain s1 res where l: "list_page ops' s p [slash] c (if b then Some 2 else None) = (s1, res)" by (metis surj_pair)
    note ih = IH [THEN mp, OF _ same]
    show "scan_loop ops' s p b c seen es pr = Some y"
      using step unfolding list_page_cong [OF same]
      by (subst scan_loop.simps, unfold l prod.case) (auto simp: Let_def dest: ih split: sum.splits prod.splits if_splits)
  qed
  then show ?thesis using assms(2) by blast
qed

lemma same_reads_sym: "same_reads ops ops' \<Longrightarrow> same_reads ops' ops"
  by (simp add: same_reads_def)

lemma scan_loop_cong:
  assumes "same_reads ops ops'"
  shows "scan_loop ops = scan_loop ops'"
proof (intro ext)
  fix s prefix probe c seen es pr
  show "scan_loop ops s prefix probe c seen es pr = scan_loop ops' s prefix probe c seen es pr"
    using scan_loop_follows [OF _ assms] scan_loop_follows [OF _ same_reads_sym [OF assms]]
    by (metis not_None_eq)
qed

lemma scan_directory_cong: "same_reads ops ops' \<Longrightarrow> scan_directory ops = scan_directory ops'"
  by (simp add: scan_directory_def [abs_def] scan_loop_cong)

lemma kind_at_cong: "same_reads ops ops' \<Longrightarrow> kind_at ops = kind_at ops'"
  by (simp only: kind_at_def [abs_def] scan_directory_cong [of ops ops'] head_key_cong [of ops ops'])

lemma validate_ends_cong:
  assumes "same_reads ops ops'"
  shows "validate_ends ops s cs es = validate_ends ops' s cs es"
  using kind_at_cong [OF assms] by (induction es arbitrary: s) (auto intro!: arg_cong2 [of _ _ _ _ follow] split: option.splits kind.splits)

lemma validate_parents_cong: "same_reads ops ops' \<Longrightarrow> validate_parents ops = validate_parents ops'"
  by (simp add: validate_parents_def [abs_def] validate_ends_cong)

lemmas reads_cong = validate_parents_cong kind_at_cong scan_directory_cong head_key_cong read_remote_cong

subsection \<open>Reading leaves the filesystem alone\<close>

abbreviation alone :: "'r s3_vfs \<Rightarrow> 'r s3_vfs \<Rightarrow> bool" where
  "alone \<equiv> calm (\<lambda>_ _. None) (\<lambda>_ _. None)"

lemma alone_ask: "ask s f = (t, res) \<Longrightarrow> alone s t"
  by (rule calm_ask) auto

lemma alone_list: "list_page ops s prefix d c n = (t, res) \<Longrightarrow> alone s t"
  unfolding list_page_def by (auto dest!: ask_vfs_fst intro: alone_ask)

lemma alone_head: "head_key ops s cs = (t, res) \<Longrightarrow> alone s t"
  unfolding head_key_def by (rule alone_ask)

lemma alone_read: "read_remote ops s key f off n = (t, res) \<Longrightarrow> alone s t"
  unfolding read_remote_def get_range_def and_then_def
  by (auto simp: Let_def dest!: ask_vfs_fst intro: alone_ask split: if_splits prod.splits sum.splits)

lemma alone_scan: "scan_loop ops s prefix probe c seen es pr = Some y \<Longrightarrow> alone s (fst y)"
  by (induction rule: scan_loop_rule) (auto dest: alone_list intro: calm_trans)

lemma alone_scan_directory: "scan_directory ops s cs probe = Some y \<Longrightarrow> alone s (fst y)"
  by (auto simp: scan_directory_def follow_def dest!: alone_scan split: option.splits sum.splits)

lemma alone_kind_at: "kind_at ops s cs = Some (t, res) \<Longrightarrow> alone s t"
  by (auto simp: kind_at_def follow_def dest!: alone_scan_directory alone_head
      split: if_splits option.splits sum.splits prod.splits fault.splits remote_error.splits intro: calm_trans)

lemma alone_validate_ends: "validate_ends ops s cs es = Some (t, res) \<Longrightarrow> alone s t"
proof (induction es arbitrary: s)
  case (Cons e es)
  then show ?case
    by (auto simp: follow_def dest!: alone_kind_at split: option.splits sum.splits kind.splits intro: calm_trans)
qed simp

lemma alone_validate: "validate_parents ops s cs = Some (t, res) \<Longrightarrow> alone s t"
  unfolding validate_parents_def by (rule alone_validate_ends)

subsection \<open>The invariant\<close>

definition read_only_inv :: "'r s3_vfs \<Rightarrow> bool" where
  "read_only_inv s \<longleftrightarrow> c_read_only (s3_config_of s)
     \<and> (\<forall>hs\<in>set (s3_cells s). \<exists>f. hs_staging hs = SRemote f)
     \<and> (\<forall>e\<in>set (s3_handles s). snd e < length (s3_cells s))"

lemma read_only_alone: "alone s t \<Longrightarrow> read_only_inv s \<Longrightarrow> read_only_inv t"
  by (simp add: read_only_inv_def calmD)

lemma read_only_cell:
  assumes "read_only_inv s" "handle_cell s h = Ok i"
  obtains f where "i < length (s3_cells s)" "hs_staging (cell_of s i) = SRemote f"
  using assms by (fastforce simp: read_only_inv_def handle_cell_def dest: map_of_SomeD)

text \<open>Calls that answer without a mutating request and leave a read-only filesystem.\<close>

definition inert :: "'r s3_ops \<Rightarrow> 'r s3_ops \<Rightarrow> ('r s3_ops \<Rightarrow> ('r s3_vfs \<times> 'v) option) \<Rightarrow> bool" where
  "inert ops ops' f \<longleftrightarrow> f ops = f ops' \<and> (\<forall>t r. f ops = Some (t, r) \<longrightarrow> read_only_inv t)"

lemma fst_replied [simp]: "fst (replied g out) = fst out"
  by (auto simp: replied_def split: prod.splits sum.splits)

lemma inert_map:
  assumes "inert ops ops' f"
  shows "inert ops ops' (\<lambda>o'. map_option (replied g) (f o'))"
  unfolding inert_def
proof (intro conjI allI impI)
  show "map_option (replied g) (f ops) = map_option (replied g) (f ops')" using assms by (simp add: inert_def)
  fix t r
  assume "map_option (replied g) (f ops) = Some (t, r)"
  then obtain x where "f ops = Some x" "replied g x = (t, r)" by auto
  then show "read_only_inv t" using assms fst_replied [of g x] by (cases x) (auto simp: inert_def)
qed

lemma inert_guard:
  "read_only_inv s \<Longrightarrow> (\<And>v. r = Inr v \<Longrightarrow> inert ops ops' (\<lambda>o'. k o' v)) \<Longrightarrow> inert ops ops' (\<lambda>o'. guard_s3 s r (k o'))"
  by (cases r) (auto simp: inert_def)

lemma inert_follow:
  assumes same: "out ops = out ops'" and inv: "read_only_inv s" and al: "\<And>t r. out ops = Some (t, r) \<Longrightarrow> alone s t"
    and k: "\<And>t v. read_only_inv t \<Longrightarrow> inert ops ops' (\<lambda>o'. k o' t v)"
  shows "inert ops ops' (\<lambda>o'. follow (out o') (k o'))"
proof (cases "out ops")
  case (Some x)
  obtain t res where x: "x = (t, res)" by (cases x)
  have o: "out ops = Some (t, res)" "out ops' = Some (t, res)" using Some x same by simp_all
  have "read_only_inv t" using al read_only_alone inv o(1) by blast
  then show ?thesis using k [of t] by (cases res) (auto simp: inert_def o)
qed (use same in \<open>simp add: inert_def\<close>)

lemma inert_const: "read_only_inv t \<Longrightarrow> inert ops ops' (\<lambda>_. Some (t, r))"
  by (simp add: inert_def)

lemma inert_refused:
  assumes "read_only_inv s"
  shows "inert ops ops' (\<lambda>o'. guard_s3 s (require_writable s) (k o'))"
  using assms by (simp add: inert_def guard_s3_def require_writable_def read_only_inv_def)

lemma inert_validate:
  assumes "same_reads ops ops'" "read_only_inv s" "\<And>t v. read_only_inv t \<Longrightarrow> inert ops ops' (\<lambda>o'. k o' t v)"
  shows "inert ops ops' (\<lambda>o'. follow (validate_parents o' s cs) (k o'))"
  using assms validate_parents_cong [OF assms(1)] by (intro inert_follow) (auto dest: alone_validate)

lemma inert_kind:
  assumes "same_reads ops ops'" "read_only_inv s" "\<And>t v. read_only_inv t \<Longrightarrow> inert ops ops' (\<lambda>o'. k o' t v)"
  shows "inert ops ops' (\<lambda>o'. follow (kind_at o' s cs) (k o'))"
  using assms kind_at_cong [OF assms(1)] by (intro inert_follow) (auto dest: alone_kind_at)

lemma inert_scan:
  assumes "same_reads ops ops'" "read_only_inv s" "\<And>t v. read_only_inv t \<Longrightarrow> inert ops ops' (\<lambda>o'. k o' t v)"
  shows "inert ops ops' (\<lambda>o'. follow (scan_directory o' s cs b) (k o'))"
  using assms scan_directory_cong [OF assms(1)] by (intro inert_follow) (auto dest: alone_scan_directory)

lemma inert_head:
  assumes same: "same_reads ops ops'" and inv: "read_only_inv s"
    and k: "\<And>t v. read_only_inv t \<Longrightarrow> inert ops ops' (\<lambda>o'. k o' (t, v))"
  shows "inert ops ops' (\<lambda>o'. k o' (head_key o' s cs))"
proof -
  obtain t v where h: "head_key ops' s cs = (t, v)" by (cases "head_key ops' s cs")
  have "read_only_inv t" using alone_head [OF h] inv by (rule read_only_alone)
  from k [OF this, of v] show ?thesis by (simp add: inert_def head_key_cong [OF same] h)
qed

lemmas inert_intros = inert_guard inert_validate inert_kind inert_scan inert_const

lemma inert_paths:
  assumes same: "same_reads ops ops'" and inv: "read_only_inv s"
  shows "inert ops ops' (\<lambda>o'. s3_stat o' s p)" "inert ops ops' (\<lambda>o'. s3_readdir o' s p)"
    "inert ops ops' (\<lambda>o'. s3_mkdir o' s p)" "inert ops ops' (\<lambda>o'. s3_rename o' s p q)"
    "inert ops ops' (\<lambda>o'. s3_unlink o' s p)" "inert ops ops' (\<lambda>o'. s3_rmdir o' s p)"
proof -
  show "inert ops ops' (\<lambda>o'. s3_stat o' s p)" unfolding s3_stat_def
    by (intro inert_guard inert_validate inert_kind same inv)
      (auto split: option.split kind.split intro: inert_const)
  show "inert ops ops' (\<lambda>o'. s3_readdir o' s p)" unfolding s3_readdir_def
  proof (intro inert_guard inert_validate inert_scan same inv)
    fix cs and t :: "'a s3_vfs" and listing
    assume t: "read_only_inv t"
    show "inert ops ops' (\<lambda>o'. if dl_exists listing then Some (t, Ok (dl_entries listing))
        else case head_key o' t cs of (s3, Inr _) \<Rightarrow> Some (s3, Err ENOTDIR)
          | (s3, Inl (Errno e)) \<Rightarrow> Some (s3, Err (into_vfs e)) | (s3, Inl Panic) \<Rightarrow> Some (s3, Inl Panic))"
    proof (cases "dl_exists listing")
      case False
      define K :: "'a s3_vfs \<times> remote_file remote \<Rightarrow> ('a s3_vfs \<times> dir_entry list vres) option"
        where "K = (\<lambda>out. case out of (s3, Inr _) \<Rightarrow> Some (s3, Err ENOTDIR)
          | (s3, Inl (Errno e)) \<Rightarrow> Some (s3, Err (into_vfs e)) | (s3, Inl Panic) \<Rightarrow> Some (s3, Inl Panic))"
      have "inert ops ops' (\<lambda>_. K (t', v))" if "read_only_inv t'" for t' v
        using that by (auto simp: K_def inert_def split: sum.split fault.split)
      then have "inert ops ops' (\<lambda>o'. K (head_key o' t cs))" by (rule inert_head [OF same t])
      then show ?thesis using False by (simp add: K_def)
    qed (use t in \<open>simp add: inert_const\<close>)
  qed
  show "inert ops ops' (\<lambda>o'. s3_mkdir o' s p)" "inert ops ops' (\<lambda>o'. s3_rename o' s p q)"
    "inert ops ops' (\<lambda>o'. s3_unlink o' s p)" "inert ops ops' (\<lambda>o'. s3_rmdir o' s p)"
    unfolding s3_mkdir_def s3_rename_def s3_unlink_def s3_rmdir_def by (intro inert_guard inert_refused inv)+
qed

lemma read_only_insert:
  assumes t: "read_only_inv t" and ins: "s3_insert_handle t key mode (SRemote f) = (t', r)"
  shows "read_only_inv t'"
proof (cases "checked_add (s3_next_handle t) 1")
  case None
  then show ?thesis using assms by (simp add: s3_insert_handle_def Let_def)
next
  case (Some n)
  then have t': "s3_config_of t' = s3_config_of t" "s3_handles t' = bm_insert (s3_next_handle t) (length (s3_cells t)) (s3_handles t)"
    "s3_cells t' = s3_cells t @ [\<lparr>hs_key = key, hs_mode = mode, hs_staging = SRemote f, hs_released = False\<rparr>]"
    using ins by (auto simp: s3_insert_handle_def Let_def)
  have "snd e < Suc (length (s3_cells t))" if e: "e \<in> set (s3_handles t')" for e
  proof -
    have "e = (s3_next_handle t, length (s3_cells t)) \<or> e \<in> set (s3_handles t)"
      using e bm_insert_entries [of "s3_next_handle t" "length (s3_cells t)" "s3_handles t"] unfolding t' by blast
    then show ?thesis using t by (auto simp: read_only_inv_def)
  qed
  then show ?thesis using t by (simp add: read_only_inv_def t'(1,3))
qed

lemma inert_open:
  assumes same: "same_reads ops ops'" and inv: "read_only_inv s"
  shows "inert ops ops' (\<lambda>o'. s3_open o' s p mode)"
  unfolding s3_open_def
proof (intro inert_guard inv, goal_cases)
  case (1 u cs w)
  then have m: "\<not> om_write mode" "\<not> om_create mode"
    using inv by (auto simp: require_writable_def read_only_inv_def split: if_splits)
  have ins: "inert ops ops' (\<lambda>_. guard_s3 t (open_staging mode existing) (\<lambda>st. Some (s3_insert_handle t key mode st)))"
    if t: "read_only_inv t" for t existing key
  proof -
    have stg: "\<exists>f. st = SRemote f" if "open_staging mode existing = Ok st" for st
      using that m by (auto simp: open_staging_def split: option.splits if_splits)
    show ?thesis
      using t stg read_only_insert [OF t] by (cases "open_staging mode existing") (auto simp: inert_def)
  qed
  have staged: "inert ops ops' (\<lambda>o'. case k of Some (AtDir _) \<Rightarrow> Some (t, Err EISDIR)
      | _ \<Rightarrow> guard_s3 t (open_staging mode (case k of Some (AtFile file) \<Rightarrow> Some file | _ \<Rightarrow> None)) (\<lambda>st.
               Some (s3_insert_handle t (s3_key t cs) mode st)))" if "read_only_inv t" for t k
    using that ins [OF that] by (auto intro: inert_const split: option.split kind.split)
  show ?case
  proof (cases "cs = []")
    case False
    then show ?thesis using staged by (simp only: if_False) (intro inert_validate inert_kind same inv)
  qed (use inv in \<open>simp add: inert_const\<close>)
qed

lemma inert_handles:
  assumes same: "same_reads ops ops'" and inv: "read_only_inv s"
  shows "inert ops ops' (\<lambda>o'. Some (s3_read_at o' s h off n))" "inert ops ops' (\<lambda>o'. s3_write_at o' s h off d)"
    "inert ops ops' (\<lambda>o'. s3_truncate o' s h len)" "inert ops ops' (\<lambda>o'. Some (s3_abort o' s h))"
    "inert ops ops' (\<lambda>o'. Some (s3_close o' s h))"
proof -
  show "inert ops ops' (\<lambda>o'. Some (s3_read_at o' s h off n))"
  proof (cases "handle_cell s h")
    case (Inr i)
    obtain f where f: "i < length (s3_cells s)" "hs_staging (cell_of s i) = SRemote f"
      by (rule read_only_cell [OF inv Inr])
    have "read_only_inv t" if "read_remote ops' s key f off n = (t, r)" for key t r
      using alone_read [OF that] inv by (rule read_only_alone)
    then show ?thesis
      using Inr f inv read_remote_cong [OF same]
      by (auto simp: inert_def s3_read_at_def read_resolved_def Let_def)
  qed (use inv in \<open>simp add: inert_def s3_read_at_def\<close>)
  have frozen: "\<exists>r. \<forall>o'. write_resolved o' s i off d = Some (s, r)" "\<exists>r. \<forall>o'. truncate_resolved o' s i len = Some (s, r)"
    if "hs_staging (cell_of s i) = SRemote f" for i f
    using that by (auto simp: write_resolved_def truncate_resolved_def Let_def)
  have resolved: "inert ops ops' (\<lambda>o'. write_resolved o' s i off d)" "inert ops ops' (\<lambda>o'. truncate_resolved o' s i len)"
    if i: "handle_cell s h = Ok i" for i
  proof -
    obtain f where "hs_staging (cell_of s i) = SRemote f" by (rule read_only_cell [OF inv i])
    from frozen [OF this] show "inert ops ops' (\<lambda>o'. write_resolved o' s i off d)" "inert ops ops' (\<lambda>o'. truncate_resolved o' s i len)"
      using inv by (auto simp: inert_def)
  qed
  show "inert ops ops' (\<lambda>o'. s3_write_at o' s h off d)"
    unfolding s3_write_at_def by (intro inert_guard inv resolved)
  show "inert ops ops' (\<lambda>o'. s3_truncate o' s h len)"
    unfolding s3_truncate_def by (intro inert_guard inv resolved)
  have released: "read_only_inv (release_handle s h i)" if i: "handle_cell s h = Ok i" for i
  proof -
    obtain f where f: "i < length (s3_cells s)" "hs_staging (cell_of s i) = SRemote f"
      by (rule read_only_cell [OF inv i])
    then show ?thesis
      using inv set_bm_remove [of h "s3_handles s"]
      by (auto simp: read_only_inv_def release_handle_def set_cell_def dest!: set_update_subset_insert [THEN subsetD])
  qed
  have "inert ops ops' (\<lambda>o'. Some (s3_abort o' s h)) \<and> inert ops ops' (\<lambda>o'. Some (s3_close o' s h))"
  proof (cases "handle_cell s h")
    case (Inr i)
    obtain f where "hs_staging (cell_of s i) = SRemote f" by (rule read_only_cell [OF inv Inr])
    then show ?thesis
      using Inr released [OF Inr]
      by (simp add: inert_def s3_abort_def s3_close_def commit_def stream_upload_def Let_def)
  qed (use inv in \<open>simp add: inert_def s3_abort_def s3_close_def\<close>)
  then show "inert ops ops' (\<lambda>o'. Some (s3_abort o' s h))" "inert ops ops' (\<lambda>o'. Some (s3_close o' s h))" by simp_all
qed

lemma inert_call:
  assumes "same_reads ops ops'" "read_only_inv s"
  shows "inert ops ops' (\<lambda>o'. s3_do o' s c)"
  using inert_map [OF inert_paths(1) [OF assms]] inert_map [OF inert_paths(2) [OF assms]] inert_map [OF inert_paths(3) [OF assms]]
    inert_map [OF inert_paths(4) [OF assms]] inert_map [OF inert_paths(5) [OF assms]] inert_map [OF inert_paths(6) [OF assms]]
    inert_map [OF inert_open [OF assms]] inert_map [OF inert_handles(1) [OF assms]] inert_map [OF inert_handles(2) [OF assms]]
    inert_map [OF inert_handles(3) [OF assms]] inert_map [OF inert_handles(4) [OF assms]] inert_map [OF inert_handles(5) [OF assms]]
  by (cases c) simp_all

lemma inert_calls:
  assumes "same_reads ops ops'" "read_only_inv s"
  shows "inert ops ops' (\<lambda>o'. s3_do_all o' s cs)"
  using assms(2)
proof (induction cs arbitrary: s)
  case (Cons c cs)
  have c: "inert ops ops' (\<lambda>o'. s3_do o' s c)" by (rule inert_call [OF assms(1) Cons.prems])
  show ?case
  proof (cases "s3_do ops' s c")
    case (Some x)
    obtain t r where x: "x = (t, r)" by (cases x)
    then have "read_only_inv t" using c Some by (simp add: inert_def)
    from Cons.IH [OF this] show ?thesis using c Some x by (auto simp: inert_def)
  qed (use c in \<open>simp add: inert_def\<close>)
qed (simp add: inert_def)

end
