(* ===== verification/S3_Properties.thy ===== *)
theory S3_Properties
  imports S3_Outcomes S3_Limits S3_Readonly "HOL-Library.Code_Target_Numeral"
begin

text \<open>
  The properties of the S3 filesystem, for every object store that meets the laws of the locale
  \<open>s3_service\<close>. The witnesses run the filesystem on the in-memory bucket.
\<close>

subsection \<open>A filesystem for the witnesses\<close>

text \<open>Small parts, so that a short file is a multipart upload; one object is in the bucket.\<close>

definition demo_s3 :: "bucket_state s3_vfs" where
  "demo_s3 = \<lparr>s3_bucket = rs ''b'', s3_root_prefix = rs ''p/'', s3_config_of = s3_config_default,
     s3_part_size = 2, s3_next_handle = 1, s3_handles = [], s3_cells = [],
     s3_remote = bucket_seed bucket_new (rs ''p/old'') [7, 8, 9]\<rparr>"

definition demo_mode :: open_mode where
  "demo_mode = \<lparr>om_read = False, om_write = True, om_create = True, om_create_new = False, om_truncate = True, om_append = False\<rparr>"

definition demo_edits :: "s3_edit list" where
  "demo_edits = [EditWrite 0 [1, 2, 3, 4, 5], EditTruncate 7, EditWrite 6 [6]]"

definition demo_opened :: "bucket_state s3_vfs" where
  "demo_opened = fst (the (s3_open bucket_ops demo_s3 (rs ''/new'') demo_mode))"

definition demo_edited :: "bucket_state s3_vfs" where
  "demo_edited = fst (the (s3_run bucket_ops demo_opened 1 demo_edits))"

definition demo_closed :: "bucket_state s3_vfs" where
  "demo_closed = fst (s3_close bucket_ops demo_edited 1)"

lemma demo_s3_open: "s3_open bucket_ops demo_s3 (rs ''/new'') demo_mode = Some (demo_opened, Ok 1)"
  unfolding demo_opened_def by code_simp

lemma demo_session: "s3_run bucket_ops demo_opened 1 demo_edits = Some (demo_edited, Ok ())"
  unfolding demo_edited_def by code_simp

lemma demo_s3_close: "s3_close bucket_ops demo_edited 1 = (demo_closed, Ok ())"
  unfolding demo_closed_def by code_simp

lemma demo_s3_path: "normalize_path (rs ''/new'') = Ok [rs ''new'']"
  by code_simp

subsection \<open>Publishing\<close>

text \<open>
  C15. A session on a writable handle refines a plain file: the objects are untouched until the
  handle is closed, and a successful close makes the object of the handle's key exactly the
  opened contents under the session's writes and truncations, and changes no other object,
  whether the contents went through a buffer or through a multipart upload.
\<close>

theorem s3_session_publishes:
  assumes service: "s3_service ops (s3_bucket s) body_at etag_at part_at"
    and op: "s3_open ops s path mode = Some (s1, Ok h)" "om_write mode" "normalize_path path = Ok cs"
    and run: "s3_run ops s1 h es = Some (s2, Ok ())" and cl: "s3_close ops s2 h = (s3, Ok ())"
  shows "body_at (s3_remote s2) = body_at (s3_remote s)
    \<and> body_at (s3_remote s3) = (body_at (s3_remote s))(s3_key s cs \<mapsto>
        foldl (edited (om_append mode))
          (if om_truncate mode then [] else case body_at (s3_remote s) (s3_key s cs) of None \<Rightarrow> [] | Some b \<Rightarrow> b) es)"
  using s3_service.session_publishes [OF service op(1,2) refl op(3) run cl]
  unfolding s3_service.base_contents_def [OF service] .

theorem s3_session_publishes_witness:
  "bucket_body (s3_remote demo_edited) = bucket_body (s3_remote demo_s3)
   \<and> bucket_body (s3_remote demo_closed) (rs ''p/new'') = Some [1, 2, 3, 4, 5, 0, 6]
   \<and> bucket_body (s3_remote demo_closed) (rs ''p/old'') = Some [7, 8, 9]"
proof -
  have key: "s3_key demo_s3 [rs ''new''] = rs ''p/new''" by code_simp
  have old: "bucket_body (s3_remote demo_s3) (rs ''p/old'') = Some [7, 8, 9]" "rs ''p/old'' \<noteq> rs ''p/new''" by code_simp+
  have mode: "om_write demo_mode" "om_truncate demo_mode" by (simp_all add: demo_mode_def)
  have c: "foldl (edited (om_append demo_mode)) [] demo_edits = [1, 2, 3, 4, 5, 0, 6]" by code_simp
  show ?thesis
    using s3_session_publishes [OF bucket.s3_service_axioms demo_s3_open mode(1) demo_s3_path demo_session demo_s3_close]
    unfolding key using old by (simp add: mode c)
qed

text \<open>
  C16. No lost updates: with conditional writes on, and whatever other clients do to the store
  between the calls of a session, a close that succeeds and reaches the store finds the object in
  the revision the handle was opened on, and finds no object if the handle was opened to create
  one exclusively.
\<close>

theorem s3_no_lost_update:
  assumes service: "s3_service ops (s3_bucket s) body_at etag_at part_at"
    and op: "s3_open ops s path mode = Some (s1, Ok h)" "om_write mode" "normalize_path path = Ok cs"
    and on: "c_conditional_writes (s3_config_of s)"
    and run: "s3_run ops (s1\<lparr>s3_remote := r1\<rparr>) h es = Some (s2, Ok ())"
    and cl: "s3_close ops (s2\<lparr>s3_remote := r2\<rparr>) h = (s3, Ok ())"
  shows "s3_remote s3 = r2 \<or>
    (om_create_new mode \<longrightarrow> body_at r2 (s3_key s cs) = None)
    \<and> (body_at (s3_remote s) (s3_key s cs) \<noteq> None \<longrightarrow> etag_at r2 (s3_key s cs) = etag_at (s3_remote s) (s3_key s cs))"
  by (rule s3_service.no_lost_update [OF service op(1,2) refl op(3) on run cl])

definition demo_edit_mode :: open_mode where
  "demo_edit_mode = demo_mode\<lparr>om_truncate := False, om_create := False\<rparr>"

definition demo_reopened :: "bucket_state s3_vfs" where
  "demo_reopened = fst (the (s3_open bucket_ops demo_s3 (rs ''/old'') demo_edit_mode))"

text \<open>Another client writes another object meanwhile.\<close>

definition demo_meanwhile :: bucket_state where
  "demo_meanwhile = bucket_seed (s3_remote demo_reopened) (rs ''p/other'') [1]"

definition demo_rewritten :: "bucket_state s3_vfs" where
  "demo_rewritten = fst (the (s3_run bucket_ops (demo_reopened\<lparr>s3_remote := demo_meanwhile\<rparr>) 1 [EditWrite 1 [0]]))"

theorem s3_no_lost_update_witness:
  "s3_remote (fst (s3_close bucket_ops demo_rewritten 1)) = s3_remote demo_rewritten
   \<or> bucket_etag (s3_remote demo_rewritten) (rs ''p/old'') = bucket_etag (s3_remote demo_s3) (rs ''p/old'')"
proof -
  have op: "s3_open bucket_ops demo_s3 (rs ''/old'') demo_edit_mode = Some (demo_reopened, Ok 1)"
    unfolding demo_reopened_def by code_simp
  have mode: "om_write demo_edit_mode" by (simp add: demo_edit_mode_def demo_mode_def)
  have path: "normalize_path (rs ''/old'') = Ok [rs ''old'']" by code_simp
  have on: "c_conditional_writes (s3_config_of demo_s3)" by code_simp
  have run: "s3_run bucket_ops (demo_reopened\<lparr>s3_remote := demo_meanwhile\<rparr>) 1 [EditWrite 1 [0]] = Some (demo_rewritten, Ok ())"
    unfolding demo_rewritten_def by code_simp
  have "snd (s3_close bucket_ops demo_rewritten 1) = Ok ()" by code_simp
  then have cl: "s3_close bucket_ops (demo_rewritten\<lparr>s3_remote := s3_remote demo_rewritten\<rparr>) 1 =
      (fst (s3_close bucket_ops demo_rewritten 1), Ok ())"
    by (simp add: prod_eq_iff)
  have key: "s3_key demo_s3 [rs ''old''] = rs ''p/old''" "bucket_body (s3_remote demo_s3) (rs ''p/old'') \<noteq> None"
    by code_simp+
  show ?thesis
    using s3_no_lost_update [OF bucket.s3_service_axioms op mode path on run cl] key by auto
qed

subsection \<open>Failing\<close>





subsection \<open>Limits\<close>

text \<open>
  C18. A streamed file of at most 5 TiB stays within the limits of S3: after any successful edits it
  completes with at most 10,000 parts, every uploaded part has between 5 MiB and 5 GiB, and the
  pending tail, which is all that is held in memory, is at most 5 GiB.
\<close>

theorem s3_part_limits:
  assumes service: "s3_service ops (s3_bucket s) body_at etag_at part_at"
    and op: "s3_open ops s path mode = Some (s1, Ok h)" "om_write mode" "normalize_path path = Ok cs"
    and size: "s3_part_size s = initial_part_size"
    and run: "s3_run ops s1 h es = Some (s2, Ok ())"
    and small: "length (foldl (edited (om_append mode))
      (if om_truncate mode then [] else case body_at (s3_remote s) (s3_key s cs) of None \<Rightarrow> [] | Some b \<Rightarrow> b) es) \<le> 5 * 2 ^ 40"
    and i: "bm_get (s3_handles s2) h = Some i" "hs_staging (cell_of s2 i) = SStream st"
  shows "uploaded_parts st + 1 \<le> 10000 \<and> length (sm_buffer st) \<le> 5 * 2 ^ 30
    \<and> (\<forall>up n. sm_upload st = Some up \<longrightarrow> n < uploaded_parts st \<longrightarrow>
        (\<exists>body. part_at (s3_remote s2) (up_id up) (n + 1) = Some body \<and> 5 * 2 ^ 20 \<le> length body \<and> length body \<le> 5 * 2 ^ 30))"
proof -
  note parts = s3_service.session_parts [OF service op(1,2) refl op(3) size run
      small [folded s3_service.base_contents_def [OF service] max_object_def] i]
  show ?thesis using parts unfolding max_parts_def by blast
qed

definition demo_default :: "bucket_state s3_vfs" where
  "demo_default = demo_s3\<lparr>s3_part_size := initial_part_size\<rparr>"

theorem s3_part_limits_witness:
  "\<exists>s1 s2 st. s3_open bucket_ops demo_default (rs ''/new'') demo_mode = Some (s1, Ok 1)
    \<and> s3_run bucket_ops s1 1 [EditWrite 0 [1, 2, 3]] = Some (s2, Ok ())
    \<and> hs_staging (cell_of s2 0) = SStream st \<and> uploaded_parts st + 1 \<le> 10000"
proof -
  define s1 where "s1 = fst (the (s3_open bucket_ops demo_default (rs ''/new'') demo_mode))"
  define s2 where "s2 = fst (the (s3_run bucket_ops s1 1 [EditWrite 0 [1, 2, 3]]))"
  define st where "st = (case hs_staging (cell_of s2 0) of SStream st \<Rightarrow> st)"
  have op: "s3_open bucket_ops demo_default (rs ''/new'') demo_mode = Some (s1, Ok 1)"
    unfolding s1_def by code_simp
  have run: "s3_run bucket_ops s1 1 [EditWrite 0 [1, 2, 3]] = Some (s2, Ok ())"
    unfolding s2_def s1_def by code_simp
  have i: "bm_get (s3_handles s2) 1 = Some 0" "hs_staging (cell_of s2 0) = SStream st"
    unfolding st_def s2_def s1_def by code_simp+
  have mode: "om_write demo_mode" "om_truncate demo_mode" by (simp_all add: demo_mode_def)
  have size: "s3_part_size demo_default = initial_part_size" by (simp add: demo_default_def)
  have "length (foldl (edited (om_append demo_mode)) [] [EditWrite 0 [1, 2, 3]]) \<le> 5 * 2 ^ 40"
    by (simp add: demo_mode_def write_bytes_def)
  then have small: "length (foldl (edited (om_append demo_mode)) (if om_truncate demo_mode then []
      else case bucket_body (s3_remote demo_default) (s3_key demo_default [rs ''new'']) of None \<Rightarrow> [] | Some b \<Rightarrow> b)
      [EditWrite 0 [1, 2, 3]]) \<le> 5 * 2 ^ 40" using mode by simp
  have "uploaded_parts st + 1 \<le> 10000"
    using s3_part_limits [OF bucket.s3_service_axioms op mode(1) demo_s3_path size run small i] by simp
  then show ?thesis using op run i(2) by blast
qed

subsection \<open>Calls return\<close>

text \<open>
  C19. Every call on the S3 filesystem returns, however large the directory and whatever the
  store answers, provided that listing alone never issues infinitely many continuation tokens:
  the listing loops refuse a repeated token, and the upload loops make progress with every turn.
\<close>

theorem s3_calls_return:
  assumes "paginates ops" and "0 < s3_part_size s"
  shows "\<exists>out. s3_do ops s c = Some out"
proof -
  have "returns (s3_do ops s c)"
    using s3_paths_return [OF assms(1), of s] s3_write_returns [OF assms(2)] s3_truncate_returns [OF assms(2)]
    by (cases c) (simp_all add: returns_map)
  then show ?thesis by (simp only: returns_def)
qed

theorem s3_calls_return_witness: "\<exists>out. s3_do bucket_ops demo_s3 (CallReaddir (rs ''/'')) = Some out"
  by (rule s3_calls_return [OF bucket_paginates]) (simp add: demo_s3_def)

subsection \<open>Read-only\<close>

text \<open>
  C20. A read-only filesystem never makes a mutating request: from a fresh one, any sequence of
  calls gives the same answers and the same state for any two stores that agree on reading, and
  it refuses every creating, removing or renaming call.
\<close>

theorem s3_read_only_inert:
  assumes new: "with_ops r bkt prefix config = Ok s" and ro: "c_read_only config" and same: "same_reads ops ops'"
  shows "s3_do_all ops s cs = s3_do_all ops' s cs
    \<and> (\<forall>p q. is_ok (normalize_path p) \<longrightarrow> is_ok (normalize_path q) \<longrightarrow> s3_mkdir ops s p = Some (s, Err EACCES)
          \<and> s3_unlink ops s p = Some (s, Err EACCES) \<and> s3_rmdir ops s p = Some (s, Err EACCES)
          \<and> s3_rename ops s p q = Some (s, Err EACCES))"
proof -
  have s: "c_read_only (s3_config_of s)" "s3_cells s = []" "s3_handles s = []"
    using new ro by (auto simp: with_ops_def obind_eq_Ok)
  then have "read_only_inv s" by (simp add: read_only_inv_def)
  from inert_calls [OF same this, of cs] have "s3_do_all ops s cs = s3_do_all ops' s cs" by (simp add: inert_def)
  then show ?thesis
    using s(1) by (auto simp: s3_mkdir_def s3_unlink_def s3_rmdir_def s3_rename_def require_writable_def is_ok_iff)
qed

text \<open>A store whose mutations all fail, for the same reads.\<close>

definition broken_ops :: "bucket_state s3_ops" where
  "broken_ops = bucket_ops\<lparr>o_put := (\<lambda>r _. (r, Inl Panic)), o_delete := (\<lambda>r _. (r, Inl Panic))\<rparr>"

theorem s3_read_only_inert_witness:
  "\<exists>s. with_ops bucket_new (rs ''b'') None s3_config_read_only = Ok s
    \<and> s3_do_all bucket_ops s [CallMkdir (rs ''/d''), CallStat (rs ''/'')]
      = s3_do_all broken_ops s [CallMkdir (rs ''/d''), CallStat (rs ''/'')]
    \<and> s3_unlink bucket_ops s (rs ''/x'') = Some (s, Err EACCES)"
proof -
  define s where "s = projr (with_ops bucket_new (rs ''b'') None s3_config_read_only)"
  have new: "with_ops bucket_new (rs ''b'') None s3_config_read_only = Ok s" unfolding s_def by code_simp
  have ro: "c_read_only s3_config_read_only" by (simp add: s3_config_read_only_def)
  have same: "same_reads bucket_ops broken_ops" by (simp add: same_reads_def broken_ops_def)
  have path: "is_ok (normalize_path (rs ''/x''))" by code_simp
  show ?thesis
    using s3_read_only_inert [OF new ro same, of "[CallMkdir (rs ''/d''), CallStat (rs ''/'')]"] new path by blast
qed

end
