(* ===== verification/Mem_Snapshot.thy ===== *)
theory Mem_Snapshot
  imports Mem_Handles
begin

text \<open>
  Snapshots of the in-memory filesystem: the walk over the tree collects exactly the files
  that are linked, with their contents, and its checked counters cannot overflow in a
  state that satisfies the invariant. Unlinked files that are still open are left out.
\<close>

definition frozen :: "file_node \<Rightarrow> file_node" where
  "frozen f = \<lparr>fn_data = fn_data f, fn_links = 1, fn_open = 0\<rparr>"

definition file_len :: "(inode, file_node) bmap \<Rightarrow> inode \<Rightarrow> nat" where
  "file_len fs i = (case bm_get fs i of None \<Rightarrow> 0 | Some f \<Rightarrow> length (fn_data f))"

text \<open>What a walk over a forest with inodes \<open>I\<close> and \<open>k\<close> directories adds to the accumulator.\<close>

definition acc_extends ::
  "(inode, file_node) bmap \<Rightarrow> inode multiset \<Rightarrow> nat \<Rightarrow> snapshot_acc \<Rightarrow> snapshot_acc \<Rightarrow> bool" where
  "acc_extends fs I k acc acc' \<longleftrightarrow>
     bm_wf (ac_files acc') \<and> length (ac_files acc') = length (ac_files acc) + size I
     \<and> (\<forall>i. bm_get (ac_files acc') i =
          (if i \<in># I then map_option frozen (bm_get fs i) else bm_get (ac_files acc) i))
     \<and> bm.weight (\<lambda>f. length (fn_data f)) (ac_files acc') =
         bm.weight (\<lambda>f. length (fn_data f)) (ac_files acc) + (\<Sum>i\<in>#I. file_len fs i)
     \<and> ac_used acc' = ac_used acc + (\<Sum>i\<in>#I. file_len fs i)
     \<and> ac_count acc' = ac_count acc + size I + k"

definition acc_ready ::
  "(inode, file_node) bmap \<Rightarrow> inode multiset \<Rightarrow> nat \<Rightarrow> snapshot_acc \<Rightarrow> bool" where
  "acc_ready fs I k acc \<longleftrightarrow> bm_wf (ac_files acc)
     \<and> (\<forall>i. i \<in># I \<longrightarrow> bm_get fs i \<noteq> None \<and> bm_get (ac_files acc) i = None \<and> count I i = 1)
     \<and> ac_used acc + (\<Sum>i\<in>#I. file_len fs i) \<le> u64_max
     \<and> ac_count acc + size I + k \<le> u64_max"

definition forest_inodes :: "(rstr \<times> node) list \<Rightarrow> inode multiset" where
  "forest_inodes es = sum_list (map (\<lambda>e. inodes (snd e)) es)"

definition forest_dirs :: "(rstr \<times> node) list \<Rightarrow> nat" where
  "forest_dirs es = sum_list (map (\<lambda>e. dirs (snd e)) es)"

lemma forest_simps [simp]:
  "forest_inodes [] = {#}" "forest_inodes (e # es) = inodes (snd e) + forest_inodes es"
  "forest_dirs [] = 0" "forest_dirs (e # es) = dirs (snd e) + forest_dirs es"
  "inodes (Directory es) = forest_inodes es" "dirs (Directory es) = Suc (forest_dirs es)"
  by (simp_all add: forest_inodes_def forest_dirs_def tree_weight.simps)

text \<open>The directories below a node, the node itself not counted.\<close>

definition inner_dirs :: "node \<Rightarrow> nat" where
  "inner_dirs n = (case n of File _ \<Rightarrow> 0 | Directory es \<Rightarrow> forest_dirs es)"

lemma acc_extends_trans:
  assumes "acc_extends fs I k acc acc1" "acc_extends fs J l acc1 acc2" "acc_ready fs (I + J) m acc"
  shows "acc_extends fs (I + J) (k + l) acc acc2"
  using assms by (auto simp: acc_extends_def acc_ready_def)

lemma acc_ready_left: "acc_ready fs (I + J) (k + l) acc \<Longrightarrow> acc_ready fs I k acc"
  unfolding acc_ready_def
  by (auto simp: not_in_iff) (metis One_nat_def add_is_1 not_in_iff union_iff)+

lemma acc_ready_right:
  assumes r: "acc_ready fs (I + J) (k + l) acc" and e: "acc_extends fs I k acc acc'"
  shows "acc_ready fs J l acc'"
proof -
  have "i \<notin># I" and "count J i = 1" if "i \<in># J" for i
  proof -
    have "count I i + count J i = 1" using r that by (auto simp: acc_ready_def)
    moreover have "0 < count J i" using that by simp
    ultimately have "count I i = 0" "count J i = 1" by linarith+
    then show "i \<notin># I" "count J i = 1" by (auto simp: not_in_iff)
  qed
  then show ?thesis using r e by (auto simp: acc_ready_def acc_extends_def)
qed

lemma acc_count_dir:
  "acc_ready fs I (k + l) acc \<Longrightarrow> acc_ready fs I l (acc\<lparr>ac_count := ac_count acc + k\<rparr>)"
  by (simp add: acc_ready_def)

lemma acc_extends_dir:
  "acc_extends fs I l (acc\<lparr>ac_count := ac_count acc + k\<rparr>) acc' \<Longrightarrow> acc_extends fs I (k + l) acc acc'"
  by (simp add: acc_extends_def)

lemma collect_snapshot_ok:
  "acc_ready fs (inodes n) (inner_dirs n) acc \<Longrightarrow>
   \<exists>acc'. collect_snapshot fs n acc = Ok acc' \<and> acc_extends fs (inodes n) (inner_dirs n) acc acc'"
  "acc_ready fs (forest_inodes es) (forest_dirs es) acc \<Longrightarrow>
   \<exists>acc'. collect_snapshot_children fs es acc = Ok acc'
     \<and> acc_extends fs (forest_inodes es) (forest_dirs es) acc acc'"
proof (induction fs n acc and fs es acc rule: collect_snapshot_collect_snapshot_children.induct)
  case (1 fs i acc)
  then obtain f where f: "bm_get fs i = Some f" by (auto simp: acc_ready_def)
  have n: "bm_get (ac_files acc) i = None" "bm_wf (ac_files acc)" using 1 by (auto simp: acc_ready_def)
  show ?case
    using 1 f bm.weight_put_new [OF n(2,1), of "\<lambda>f. length (fn_data f)" "frozen f"]
      length_bm_insert_new [OF n(2,1)]
    by (auto simp: acc_ready_def acc_extends_def file_len_def try_u64_def checked_add_def
        inner_dirs_def frozen_def)
next
  case (2 fs es acc)
  then show ?case by (simp add: inner_dirs_def)
next
  case (3 fs acc)
  then show ?case by (auto simp: acc_ready_def acc_extends_def)
next
  case (4 fs e es acc)
  let ?d = "case snd e of Directory _ \<Rightarrow> 1 | File _ \<Rightarrow> (0::nat)"
  have dirs: "dirs (snd e) = ?d + inner_dirs (snd e)"
    by (cases "snd e") (simp_all add: inner_dirs_def)
  let ?acc = "acc\<lparr>ac_count := ac_count acc + ?d\<rparr>"
  have r: "acc_ready fs (inodes (snd e) + forest_inodes es) (dirs (snd e) + forest_dirs es) acc"
    using 4(3) by simp
  have le: "ac_count acc + ?d \<le> u64_max" using r dirs by (simp add: acc_ready_def)
  have r1: "acc_ready fs (inodes (snd e)) (inner_dirs (snd e)) ?acc"
    using acc_ready_left [OF r] unfolding dirs by (rule acc_count_dir)
  then obtain acc1 where a1: "collect_snapshot fs (snd e) ?acc = Ok acc1"
      "acc_extends fs (inodes (snd e)) (inner_dirs (snd e)) ?acc acc1"
    using 4(1) le by (auto simp: checked_add_def)
  have x1: "acc_extends fs (inodes (snd e)) (dirs (snd e)) acc acc1"
    using acc_extends_dir [OF a1(2)] by (simp only: dirs)
  obtain acc2 where a2: "collect_snapshot_children fs es acc1 = Ok acc2"
      "acc_extends fs (forest_inodes es) (forest_dirs es) acc1 acc2"
    using 4(2) [OF _ a1(1) acc_ready_right [OF r x1]] le by (auto simp: checked_add_def)
  show ?case
    using acc_extends_trans [OF x1 a2(2) r] a1(1) a2(1) le by (simp add: checked_add_def)
qed

subsection \<open>A snapshot of a valid state\<close>

lemma inodes_sub_files:
  assumes inv: "mem_inv q s"
  shows "inodes (root s) \<subseteq># mset (map fst (files s))"
proof (rule mset_subset_eqI)
  fix i
  note m = inv [unfolded mem_inv_def]
  have d: "distinct (map fst (files s))" by (rule bm_wf_distinct [OF inv_files_wf [OF m]])
  show "count (inodes (root s)) i \<le> count (mset (map fst (files s))) i"
  proof (cases "bm_get (files s) i")
    case None
    then show ?thesis using inv_links [OF m, of i] by simp
  next
    case (Some f)
    then have "i \<in> set (map fst (files s))" by (force dest: bm_get_mem)
    then have "count (mset (map fst (files s))) i = 1" using d by (simp add: distinct_count_atmost_1)
    then show ?thesis using inv_links [OF m, of i] inv_file [OF m Some] Some by (simp add: file_ok_def)
  qed
qed

lemma sum_keys: "(\<Sum>i\<in>#mset (map fst fs). g i) = (\<Sum>e\<leftarrow>fs. g (fst e))"
  by (induction fs) auto

lemma file_len_total:
  assumes "bm_wf fs"
  shows "(\<Sum>i\<in>#mset (map fst fs). file_len fs i) = bm.weight (\<lambda>f. length (fn_data f)) fs"
proof -
  have "map (\<lambda>e. file_len fs (fst e)) fs = map (\<lambda>e. length (fn_data (snd e))) fs"
    using bm_mem_get [OF assms] by (auto simp: file_len_def)
  then show ?thesis by (simp only: bm_weight_list sum_keys)
qed

lemma linked_file:
  assumes inv: "mem_inv q s" and i: "i \<in># inodes (root s)"
  shows "\<exists>f. bm_get (files s) i = Some f \<and> fn_links f = 1 \<and> count (inodes (root s)) i = 1"
proof -
  note m = inv [unfolded mem_inv_def]
  have pos: "0 < count (inodes (root s)) i" using i by simp
  have c: "count (inodes (root s)) i =
      (case bm_get (files s) i of None \<Rightarrow> 0 | Some f \<Rightarrow> fn_links f)"
    using inv_links [OF m, of i] by simp
  then obtain f where f: "bm_get (files s) i = Some f" using pos by (cases "bm_get (files s) i") auto
  then have "fn_links f \<le> 1" using inv_file [OF m f] by (simp add: file_ok_def)
  moreover have "count (inodes (root s)) i = fn_links f" using c f by simp
  ultimately have "fn_links f = 1" using pos by linarith
  with f \<open>count _ _ = fn_links f\<close> show ?thesis by simp
qed

lemma linked_len_le:
  assumes inv: "mem_inv q s"
  shows "(\<Sum>i\<in>#inodes (root s). file_len (files s) i) \<le> used_bytes s"
    and "size (inodes (root s)) \<le> length (files s)"
proof -
  note m = inv [unfolded mem_inv_def]
  obtain J where J: "mset (map fst (files s)) = inodes (root s) + J"
    using inodes_sub_files [OF inv] by (metis mset_subset_eq_exists_conv)
  have "used_bytes s = (\<Sum>i\<in>#mset (map fst (files s)). file_len (files s) i)"
    using inv_usage [OF m] file_len_total [OF inv_files_wf [OF m]] by (simp add: usage_ok_def)
  then show "(\<Sum>i\<in>#inodes (root s). file_len (files s) i) \<le> used_bytes s" unfolding J by simp
  show "size (inodes (root s)) \<le> length (files s)"
    using arg_cong [OF J, of size] by simp
qed

lemma mem_snapshot_ok:
  assumes inv: "mem_inv q s" and q: "quota_ok q"
  shows "\<exists>sn. mem_snapshot s = Ok sn \<and> sn_root sn = root s \<and> sn_next_inode sn = next_inode s
     \<and> bm_wf (sn_files sn) \<and> length (sn_files sn) = size (inodes (root s))
     \<and> (\<forall>i. bm_get (sn_files sn) i =
          (if i \<in># inodes (root s) then map_option frozen (bm_get (files s) i) else None))
     \<and> sn_used_bytes sn = bm.weight (\<lambda>f. length (fn_data f)) (sn_files sn)
     \<and> sn_used_bytes sn = (\<Sum>i\<in>#inodes (root s). file_len (files s) i)
     \<and> Suc (sn_file_count sn) = dirs (root s) + size (inodes (root s))"
proof -
  note m = inv [unfolded mem_inv_def]
  let ?acc = "\<lparr>ac_files = [], ac_used = 0, ac_count = 0\<rparr>"
  obtain es where es: "root s = Directory es" using inv_tree_dir [OF m] by (cases "root s") auto
  have k: "dirs (root s) = Suc (inner_dirs (root s))" by (simp add: es inner_dirs_def)
  have len: "(\<Sum>i\<in>#inodes (root s). file_len (files s) i) \<le> u64_max"
    using linked_len_le(1) [OF inv] inv_usage [OF m] q by (simp add: usage_ok_def quota_ok_def)
  have cnt: "size (inodes (root s)) + inner_dirs (root s) \<le> u64_max"
    using linked_len_le(2) [OF inv] inv_usage [OF m] q k by (simp add: usage_ok_def quota_ok_def)
  have one: "bm_get (files s) i \<noteq> None \<and> count (inodes (root s)) i = 1"
    if "i \<in># inodes (root s)" for i
    using linked_file [OF inv that] by auto
  have "acc_ready (files s) (inodes (root s)) (inner_dirs (root s)) ?acc"
    using len cnt one by (simp add: acc_ready_def)
  from collect_snapshot_ok(1) [OF this] obtain acc' where
    "collect_snapshot (files s) (root s) ?acc = Ok acc'"
    "acc_extends (files s) (inodes (root s)) (inner_dirs (root s)) ?acc acc'" by blast
  then show ?thesis using k by (simp add: mem_snapshot_def acc_extends_def)
qed

text \<open>A detached snapshot is judged against the largest quota.\<close>

definition snapshot_inv :: "snapshot_state \<Rightarrow> bool" where
  "snapshot_inv sn \<longleftrightarrow> mem_inv quota_unlimited (state_from_snapshot sn 1)"

lemma mem_inv_quota:
  assumes inv: "mem_inv q s" and "used_bytes s \<le> max_bytes q'" "file_count s \<le> max_files q'"
    and "\<And>i f. bm_get (files s) i = Some f \<Longrightarrow> length (fn_data f) \<le> max_file_size q'"
  shows "mem_inv q' s"
  using assms unfolding mem_inv_def mem_inv_p_def table_ok_def usage_ok_def file_ok_def by blast

lemma mem_inv_handle_id:
  "mem_inv q (state_from_snapshot sn n) = mem_inv q (state_from_snapshot sn m)"
  by (simp add: mem_inv_def mem_inv_parts opens_def state_from_snapshot_def)

lemma snapshot_inv_taken:
  assumes inv: "mem_inv q s" and q: "quota_ok q" and sn: "mem_snapshot s = Ok sn"
  shows "snapshot_inv sn"
proof -
  note m = inv [unfolded mem_inv_def]
  let ?s = "state_from_snapshot sn 1"
  from mem_snapshot_ok [OF inv q] sn
  have eq: "sn_root sn = root s" "sn_next_inode sn = next_inode s" "bm_wf (sn_files sn)"
      "length (sn_files sn) = size (inodes (root s))"
      "\<And>i. bm_get (sn_files sn) i =
          (if i \<in># inodes (root s) then map_option frozen (bm_get (files s) i) else None)"
      "sn_used_bytes sn = bm.weight (\<lambda>f. length (fn_data f)) (sn_files sn)"
      "sn_used_bytes sn = (\<Sum>i\<in>#inodes (root s). file_len (files s) i)"
      "Suc (sn_file_count sn) = dirs (root s) + size (inodes (root s))"
    by auto
  have fileD: "\<exists>g. bm_get (files s) i = Some g \<and> f = frozen g \<and> i \<in># inodes (root s)
      \<and> file_ok q s i g" if "bm_get (sn_files sn) i = Some f" for i f
    using that inv_file [OF m, of i] by (auto simp: eq(5) split: if_splits)
  have "tree_ok ?s" using m eq(1) by (simp add: mem_inv_p_def tree_ok_def state_from_snapshot_def)
  moreover have "links_ok ?s {#}"
    unfolding links_ok_def
  proof
    fix i
    show "count (inodes (root ?s) + {#}) i =
        (case bm_get (files ?s) i of None \<Rightarrow> 0 | Some f \<Rightarrow> fn_links f)"
    proof (cases "i \<in># inodes (root s)")
      case True
      then show ?thesis
        using linked_file [OF inv True] by (auto simp: state_from_snapshot_def eq frozen_def)
    next
      case False
      then show ?thesis by (simp add: state_from_snapshot_def eq count_eq_zero_iff)
    qed
  qed
  moreover have "table_ok quota_unlimited ?s"
    using eq(3) fileD isize_le_u64
    by (fastforce simp: table_ok_def state_from_snapshot_def file_ok_def opens_def frozen_def
        quota_unlimited_def eq(2))
  moreover have "live_ok ?s {}"
    using fileD by (fastforce simp: live_ok_def state_from_snapshot_def frozen_def)
  moreover have "usage_ok quota_unlimited ?s 0"
    using eq linked_len_le [OF inv] inv_usage [OF m] q
    by (simp add: usage_ok_def state_from_snapshot_def quota_unlimited_def quota_ok_def)
  ultimately show ?thesis by (simp add: snapshot_inv_def mem_inv_def mem_inv_p_def)
qed

lemma ensure_snapshot_fits_Ok:
  assumes "bm_wf (sn_files sn)"
  shows "ensure_snapshot_fits_quota sn q = Ok () \<longleftrightarrow>
    sn_used_bytes sn \<le> max_bytes q \<and> sn_file_count sn \<le> max_files q \<and>
    (\<forall>i f. bm_get (sn_files sn) i = Some f \<longrightarrow>
       length (fn_data f) \<le> u64_max \<and> length (fn_data f) \<le> max_file_size q)"
  using bm_ball [OF assms, of "\<lambda>_ f. length (fn_data f) \<le> u64_max \<and> length (fn_data f) \<le> max_file_size q"]
  by (auto simp: ensure_snapshot_fits_quota_def bm_values_def not_less)

lemma state_from_snapshot_inv:
  assumes sn: "snapshot_inv sn" and fit: "ensure_snapshot_fits_quota sn q = Ok ()"
  shows "mem_inv q (state_from_snapshot sn n)"
proof -
  have i: "mem_inv quota_unlimited (state_from_snapshot sn n)"
    using sn mem_inv_handle_id unfolding snapshot_inv_def by blast
  have "bm_wf (sn_files sn)"
    using inv_files_wf [OF i [unfolded mem_inv_def]] by (simp add: state_from_snapshot_def)
  then show ?thesis
    using fit by (intro mem_inv_quota [OF i])
      (auto simp: ensure_snapshot_fits_Ok state_from_snapshot_def)
qed

lemma no_panic_fits [simp]: "no_panic (ensure_snapshot_fits_quota sn q)"
  by (simp add: ensure_snapshot_fits_quota_def)

lemma restore_op_ok:
  assumes "snapshot_inv sn"
  shows "op_ok q s (mem_restore q s sn)"
  unfolding mem_restore_def
  by (intro op_ok_intros) (auto intro: state_from_snapshot_inv [OF assms])

end
