(* ===== verification/Mem_Spec.thy ===== *)
theory Mem_Spec
  imports Mem_Snapshot
begin

text \<open>
  The in-memory filesystem as a state machine: calls, the states a sequence of calls can
  reach, and what its clients rely on in them. A system is the live state with the
  snapshots taken so far; branching continues in the filesystem built from one of them.
\<close>

record mem_sys =
  live :: mem_state
  snaps :: "snapshot_state list"

datatype mem_call =
  CMkdir rstr | CRename rstr rstr | CUnlink rstr | CRmdir rstr | COpen rstr open_mode
  | CWrite file_handle nat "byte list" | CTruncate file_handle nat | CClose file_handle
  | CSnapshot | CRestore nat | CBranch nat

text \<open>The effect of a call; the values a call returns besides the state are dropped.\<close>

definition void :: "('e, 'a) outcome \<Rightarrow> ('e, unit) outcome" where
  "void r = obind r (\<lambda>_. Ok ())"

definition on_live :: "mem_sys \<Rightarrow> mem_state \<times> 'a vres \<Rightarrow> mem_sys \<times> unit vres" where
  "on_live y out = (y\<lparr>live := fst out\<rparr>, void (snd out))"

fun mem_exec :: "vfs_quota \<Rightarrow> mem_sys \<Rightarrow> mem_call \<Rightarrow> mem_sys \<times> unit vres" where
  "mem_exec q y (CMkdir p) = on_live y (mem_mkdir q (live y) p)"
| "mem_exec q y (CRename p p') = on_live y (mem_rename (live y) p p')"
| "mem_exec q y (CUnlink p) = on_live y (mem_unlink (live y) p)"
| "mem_exec q y (CRmdir p) = on_live y (mem_rmdir (live y) p)"
| "mem_exec q y (COpen p m) = on_live y (mem_open q (live y) p m)"
| "mem_exec q y (CWrite h off d) = on_live y (mem_write_at q (live y) h off d)"
| "mem_exec q y (CTruncate h n) = on_live y (mem_truncate q (live y) h n)"
| "mem_exec q y (CClose h) = on_live y (mem_close (live y) h)"
| "mem_exec q y CSnapshot =
     attempt y (mem_snapshot (live y)) (\<lambda>sn. (y\<lparr>snaps := sn # snaps y\<rparr>, Ok ()))"
| "mem_exec q y (CRestore k) =
     (if k < length (snaps y) then on_live y (mem_restore q (live y) (snaps y ! k)) else (y, Ok ()))"
| "mem_exec q y (CBranch k) =
     (if k < length (snaps y)
      then attempt y (mem_branch q (snaps y ! k)) (\<lambda>s. (y\<lparr>live := s\<rparr>, Ok ()))
      else (y, Ok ()))"

definition sys_init :: mem_sys where
  "sys_init = \<lparr>live = state_default, snaps = []\<rparr>"

fun mem_run :: "vfs_quota \<Rightarrow> mem_sys \<Rightarrow> mem_call list \<Rightarrow> mem_sys" where
  "mem_run q y [] = y"
| "mem_run q y (c # cs) = mem_run q (fst (mem_exec q y c)) cs"

inductive mem_reach :: "vfs_quota \<Rightarrow> nat \<Rightarrow> mem_sys \<Rightarrow> bool" for q :: vfs_quota where
  start: "mem_reach q 0 sys_init"
| call: "mem_reach q n y \<Longrightarrow> mem_exec q y c = (y', r) \<Longrightarrow> mem_reach q (Suc n) y'"

text \<open>A quota whose file size limit a vector can hold.\<close>

definition quota_safe :: "vfs_quota \<Rightarrow> bool" where
  "quota_safe q \<longleftrightarrow> quota_ok q \<and> max_file_size q \<le> isize_max"

definition ids_below :: "nat \<Rightarrow> mem_sys \<Rightarrow> bool" where
  "ids_below n y \<longleftrightarrow> next_inode (live y) \<le> Suc n \<and> next_handle (live y) \<le> Suc n
     \<and> (\<forall>sn\<in>set (snaps y). sn_next_inode sn \<le> Suc n)"

definition sys_inv :: "vfs_quota \<Rightarrow> mem_sys \<Rightarrow> bool" where
  "sys_inv q y \<longleftrightarrow> mem_inv q (live y) \<and> (\<forall>sn\<in>set (snaps y). snapshot_inv sn)"

subsection \<open>One call\<close>

text \<open>What every call promises from a valid system.\<close>

definition call_ok :: "vfs_quota \<Rightarrow> mem_sys \<Rightarrow> mem_sys \<times> unit vres \<Rightarrow> bool" where
  "call_ok q y out = (case out of
       (y', Inr _) \<Rightarrow> sys_inv q y'
     | (y', Inl f) \<Rightarrow> y' = y \<and> f \<noteq> Panic)"

lemma void_simps [simp]: "void (Inr v) = Ok ()" "void (Inl f) = Inl f"
  by (simp_all add: void_def)

lemma on_live_ok:
  assumes "op_ok q (live y) out" and "sys_inv q y"
  shows "call_ok q y (on_live y out)"
proof -
  obtain s r where out: "out = (s, r)" by (cases out)
  show ?thesis
  proof (cases r)
    case (Inl f)
    then show ?thesis using assms op_okD(2) [of q "live y" s f] by (auto simp: out call_ok_def on_live_def)
  qed (use assms in \<open>simp add: out call_ok_def on_live_def sys_inv_def\<close>)
qed

lemma mem_exec_ok:
  assumes inv: "sys_inv q y" and q: "quota_safe q" and ids: "ids_left (live y)"
  shows "call_ok q y (mem_exec q y c)"
proof -
  have m: "mem_inv q (live y)" and qo: "quota_ok q" and sz: "max_file_size q \<le> isize_max"
    using inv q by (auto simp: sys_inv_def quota_safe_def)
  show ?thesis
  proof (cases c)
    case CSnapshot
    have "mem_inv q (live y)" "quota_ok q" using inv q by (auto simp: sys_inv_def quota_safe_def)
    from mem_snapshot_ok [OF this] obtain sn where "mem_snapshot (live y) = Ok sn" by blast
    with snapshot_inv_taken [OF \<open>mem_inv q (live y)\<close> \<open>quota_ok q\<close> this] CSnapshot inv show ?thesis
      by (simp add: call_ok_def sys_inv_def)
  next
    case (CRestore k)
    show ?thesis
    proof (cases "k < length (snaps y)")
      case True
      then have "snapshot_inv (snaps y ! k)" using inv by (simp add: sys_inv_def)
      from on_live_ok [OF restore_op_ok [OF this] inv] show ?thesis using CRestore True by simp
    qed (use CRestore inv in \<open>simp add: call_ok_def\<close>)
  next
    case (CBranch k)
    show ?thesis
    proof (cases "k < length (snaps y)")
      case True
      then have sn: "snapshot_inv (snaps y ! k)" using inv by (simp add: sys_inv_def)
      show ?thesis
      proof (cases "ensure_snapshot_fits_quota (snaps y ! k) q")
        case (Inl f)
        then show ?thesis
          using CBranch True no_panic_fits [of "snaps y ! k" q]
          by (auto simp: mem_branch_def call_ok_def no_panic_def)
      next
        case (Inr u)
        then show ?thesis
          using CBranch True inv state_from_snapshot_inv [OF sn, of q 1]
          by (simp add: mem_branch_def call_ok_def sys_inv_def)
      qed
    qed (use CBranch inv in \<open>simp add: call_ok_def\<close>)
  qed (simp_all add: on_live_ok [OF _ inv] mkdir_op_ok [OF m qo] rename_op_ok [OF m]
      unlink_op_ok [OF m] rmdir_op_ok [OF m] open_op_ok [OF m qo ids]
      write_at_op_ok [OF m qo sz] truncate_op_ok [OF m qo size_safeI [OF sz]] close_op_ok [OF m])
qed

subsection \<open>Identifiers\<close>

definition ids_step :: "mem_state \<Rightarrow> mem_state \<Rightarrow> bool" where
  "ids_step s s' \<longleftrightarrow> next_inode s' \<le> Suc (next_inode s) \<and> next_handle s' \<le> Suc (next_handle s)"

lemma fst_attempt: "P s \<Longrightarrow> (\<And>v. r = Inr v \<Longrightarrow> P (fst (k v))) \<Longrightarrow> P (fst (attempt s r k))"
  by (cases r) auto

lemma fst_and_then:
  "P (fst r) \<Longrightarrow> (\<And>s v. P s \<Longrightarrow> P (fst (k s v))) \<Longrightarrow> P (fst (and_then r k))"
  by (cases r; cases "snd r") auto

text \<open>Neither counter moves.\<close>

definition same_ids :: "mem_state \<Rightarrow> mem_state \<Rightarrow> bool" where
  "same_ids s s' \<longleftrightarrow> next_inode s' = next_inode s \<and> next_handle s' = next_handle s"

lemma same_ids_step: "same_ids s s' \<Longrightarrow> ids_step s s'"
  by (simp add: same_ids_def ids_step_def)

lemma same_ids_upd [simp]:
  "same_ids s (t\<lparr>root := r\<rparr>) = same_ids s t" "same_ids s (t\<lparr>files := fs\<rparr>) = same_ids s t"
  "same_ids s (t\<lparr>handles := hs\<rparr>) = same_ids s t" "same_ids s (t\<lparr>used_bytes := u\<rparr>) = same_ids s t"
  "same_ids s (t\<lparr>file_count := n\<rparr>) = same_ids s t" "same_ids s s"
  by (simp_all add: same_ids_def)

lemma same_ids_release: "same_ids s t \<Longrightarrow> same_ids s (fst (release_file_if_unreferenced t i))"
  unfolding release_file_if_unreferenced_def Let_def
  by (auto split: option.split intro!: fst_attempt [where P = "same_ids s"])

lemma same_ids_remove:
  "same_ids s t \<Longrightarrow> same_ids s (fst (remove_tree t n))"
  "same_ids s t \<Longrightarrow> same_ids s (fst (remove_children t es))"
proof (induction t n and t es rule: remove_tree_remove_children.induct)
  case (1 t i)
  then show ?case
    by (auto intro!: fst_attempt [where P = "same_ids s"] same_ids_release)
next
  case (2 t es)
  have step: "same_ids s (fst (attempt t' r (\<lambda>n. (t'\<lparr>file_count := n\<rparr>, Ok ()))))"
    if "same_ids s t'" for t' and r :: "nat vres"
    using that by (intro fst_attempt [where P = "same_ids s"]) simp_all
  from 2 show ?case by (auto intro: fst_and_then [where P = "same_ids s"] step)
next
  case (4 t e es)
  show ?case
  proof (cases "remove_tree t (snd e)")
    case (Pair t' r)
    then show ?thesis using 4 by (cases r) auto
  qed
qed simp

lemma same_ids_resize: "same_ids s t \<Longrightarrow> same_ids s (fst (resize_file q t i n))"
  unfolding resize_file_def by (auto intro!: fst_attempt [where P = "same_ids s"])

text \<open>At most one identifier of each kind per call.\<close>

lemma ids_step_path:
  "same_ids s (fst (mem_mkdir q s p))" "same_ids s (fst (mem_unlink s p))"
  "same_ids s (fst (mem_rmdir s p))"
  unfolding mem_mkdir_def mem_unlink_def mem_rmdir_def Let_def
  by (auto intro!: fst_attempt [where P = "same_ids s"] same_ids_remove
      split: option.split node.split simp del: remove_tree.simps)

lemma ids_step_rename: "same_ids s (fst (mem_rename s p p'))"
  unfolding mem_rename_def Let_def
  by (auto intro!: fst_attempt [where P = "same_ids s"] same_ids_remove
      split: option.split simp del: remove_tree.simps)

lemma ids_step_data:
  "same_ids s (fst (mem_write_at q s h off d))" "same_ids s (fst (mem_truncate q s h n))"
  "same_ids s (fst (mem_close s h))"
proof -
  show "same_ids s (fst (mem_write_at q s h off d))"
    unfolding mem_write_at_def Let_def
    by (auto intro!: fst_attempt [where P = "same_ids s"] fst_and_then [where P = "same_ids s"]
        same_ids_resize)
qed (auto simp: mem_truncate_def mem_close_def Let_def intro!: fst_attempt [where P = "same_ids s"]
    same_ids_resize same_ids_release)

definition inode_step :: "mem_state \<Rightarrow> mem_state \<Rightarrow> bool" where
  "inode_step s t \<longleftrightarrow> next_inode t \<le> Suc (next_inode s) \<and> next_handle t = next_handle s"

lemma step_upd [simp]:
  "inode_step s (t\<lparr>root := r\<rparr>) = inode_step s t" "inode_step s (t\<lparr>files := fs\<rparr>) = inode_step s t"
  "inode_step s (t\<lparr>file_count := n\<rparr>) = inode_step s t" "inode_step s s"
  "inode_step s (s\<lparr>next_inode := Suc (next_inode s)\<rparr>)"
  "ids_step s (t\<lparr>files := fs\<rparr>) = ids_step s t" "ids_step s (t\<lparr>handles := hs\<rparr>) = ids_step s t"
  "ids_step s s"
  by (simp_all add: inode_step_def ids_step_def)

lemma inode_step_mint: "inode_step s t \<Longrightarrow> ids_step s (t\<lparr>next_handle := Suc (next_handle t)\<rparr>)"
  "inode_step s t \<Longrightarrow> ids_step s t"
  by (simp_all add: inode_step_def ids_step_def)

lemma inode_step_open: "inode_step s (fst (open_inode q s path m))"
proof -
  have same: "inode_step s t" if "same_ids s t" for t
    using that by (simp add: inode_step_def same_ids_def)
  have "inode_step s (fst (resize_file q s i 0))" for i
    by (rule same [OF same_ids_resize]) simp
  then show ?thesis
    unfolding open_inode_def Let_def
    by (auto intro!: fst_attempt [where P = "inode_step s"] fst_and_then [where P = "inode_step s"]
        split: sum.split node.split simp: uadd_eq_Ok)
qed

lemma ids_step_mint: "inode_step s t \<Longrightarrow> ids_step s (fst (mint_handle t i m))"
  unfolding mint_handle_def Let_def
  by (auto intro!: fst_attempt [where P = "ids_step s"] simp: uadd_eq_Ok inode_step_mint)

lemma ids_step_open: "ids_step s (fst (mem_open q s p m))"
proof -
  have "ids_step s (fst (and_then (open_inode q s path m) (\<lambda>s1 i. mint_handle s1 i m)))" for path
    using inode_step_open [of s q path m] ids_step_mint
    by (cases "open_inode q s path m"; cases "snd (open_inode q s path m)")
      (auto intro: inode_step_mint)
  then show ?thesis
    unfolding mem_open_def by (auto intro!: fst_attempt [where P = "ids_step s"])
qed

lemma snapshot_next_inode: "mem_snapshot s = Ok sn \<Longrightarrow> sn_next_inode sn = next_inode s"
  by (auto simp: mem_snapshot_def obind_eq_Ok)

lemma ids_below_live: "ids_below n y \<Longrightarrow> ids_step (live y) (fst out) \<Longrightarrow> ids_below (Suc n) (fst (on_live y out))"
  by (fastforce simp: ids_below_def ids_step_def on_live_def)

lemma ids_below_exec: "ids_below n y \<Longrightarrow> ids_below (Suc n) (fst (mem_exec q y c))"
proof (induction q y c rule: mem_exec.induct)
  case (9 q y)
  then show ?case
    by (cases "mem_snapshot (live y)") (fastforce simp: ids_below_def snapshot_next_inode)+
next
  case (10 q y k)
  have "sn_next_inode (snaps y ! k) \<le> Suc n" if "k < length (snaps y)"
    using 10 that by (simp add: ids_below_def)
  then show ?case
    using 10 by (cases "ensure_snapshot_fits_quota (snaps y ! k) q")
      (fastforce simp: ids_below_def on_live_def mem_restore_def state_from_snapshot_def)+
next
  case (11 q y k)
  have "sn_next_inode (snaps y ! k) \<le> Suc n" if "k < length (snaps y)"
    using 11 that by (simp add: ids_below_def)
  then show ?case
    using 11 by (cases "ensure_snapshot_fits_quota (snaps y ! k) q")
      (fastforce simp: ids_below_def mem_branch_def state_from_snapshot_def)+
qed (auto intro!: ids_below_live same_ids_step ids_step_path ids_step_rename ids_step_data
    ids_step_open)

subsection \<open>Reachable states\<close>

lemma reach_inv:
  assumes "mem_reach q n y" and "quota_safe q" and "n < u64_max"
  shows "sys_inv q y \<and> ids_below n y"
  using assms
proof (induction rule: mem_reach.induct)
  case start
  then show ?case
    by (simp add: sys_inv_def ids_below_def sys_init_def mem_inv_init) (simp add: state_default_def)
next
  case (call n y c y' r)
  then have i: "sys_inv q y" "ids_below n y" by auto
  then have "ids_left (live y)" using call.prems by (auto simp: ids_below_def ids_left_def)
  from mem_exec_ok [OF i(1) call.prems(1) this, of c] have "sys_inv q y'"
    using i(1) call.hyps(2) by (auto simp: call_ok_def split: sum.splits)
  with ids_below_exec [OF i(2), of q c] call.hyps(2) show ?case by simp
qed

lemma reach_ids_left:
  "mem_reach q n y \<Longrightarrow> quota_safe q \<Longrightarrow> Suc n < u64_max \<Longrightarrow> ids_left (live y)"
  using reach_inv [of q n y] by (auto simp: ids_below_def ids_left_def)

lemma mem_run_reach: "mem_reach q n y \<Longrightarrow> mem_reach q (n + length cs) (mem_run q y cs)"
proof (induction cs arbitrary: n y)
  case (Cons c cs)
  obtain y' r where "mem_exec q y c = (y', r)" by fastforce
  with Cons.prems have "mem_reach q (Suc n) y'" by (rule mem_reach.call)
  from Cons.IH [OF this] \<open>mem_exec q y c = _\<close> show ?case by simp
qed simp

end
