(* ===== verification/Mem_Properties.thy ===== *)
theory Mem_Properties
  imports Mem_Spec
begin

text \<open>
  What a client of the in-memory filesystem relies on: no panic, atomic failures, exact
  and bounded usage, no leaked files, reads that see writes, renames that move a subtree,
  unlinked files that stay readable while open, and snapshots that restore what they saw.
\<close>

text \<open>A small quota and a run of calls for the concrete instances below.\<close>

definition demo_quota :: vfs_quota where
  "demo_quota = \<lparr>max_bytes = 64, max_files = 8, max_file_size = 32\<rparr>"

definition demo_calls :: "mem_call list" where
  "demo_calls =
     [CMkdir (rs ''/d''), COpen (rs ''/d/f'') (om_set_create om_read_write),
      CWrite 1 2 [1, 2, 3], CSnapshot]"

definition demo_sys :: mem_sys where
  "demo_sys = mem_run demo_quota sys_init demo_calls"

text \<open>Evaluation of the operations on concrete states.\<close>

lemmas mem_eval = mem_mkdir_def mem_rename_def mem_unlink_def mem_rmdir_def mem_open_def
  mem_write_at_def mem_truncate_def mem_close_def mem_read_at_def mem_snapshot_def mem_restore_def
  mem_branch_def open_inode_def mint_handle_def resize_file_def release_file_if_unreferenced_def
  adjusted_used_bytes_def vec_resize_def ensure_entry_slot_def parent_dir_mut_def
  ensure_parent_is_dir_def rename_target_check_def has_prefix_def normalize_path_def
  max_path_depth_def state_default_def file_node_default_def om_validate_def om_read_write_def
  om_read_only_def om_write_only_def om_set_create_def om_set_create_new_def om_set_truncate_def
  om_set_append_def try_usize_def try_u64_def uadd_def usub_def checked_add_def u64_max_def
  usize_max_def isize_max_def on_live_def Let_def replicate_numeral

lemma demo_run:
  "demo_sys =
    \<lparr>live = \<lparr>root = Directory [(rs ''d'', Directory [(rs ''f'', File 1)])],
       files = [(1, \<lparr>fn_data = [0, 0, 1, 2, 3], fn_links = 1, fn_open = 1\<rparr>)],
       next_inode = 2, next_handle = 2,
       handles = [(1, \<lparr>h_inode = 1, h_readable = True, h_writable = True, h_append = False\<rparr>)],
       used_bytes = 5, file_count = 2\<rparr>,
     snaps = [\<lparr>sn_root = Directory [(rs ''d'', Directory [(rs ''f'', File 1)])],
       sn_files = [(1, \<lparr>fn_data = [0, 0, 1, 2, 3], fn_links = 1, fn_open = 0\<rparr>)],
       sn_next_inode = 2, sn_used_bytes = 5, sn_file_count = 2\<rparr>]\<rparr>"
  by (simp add: demo_sys_def demo_calls_def demo_quota_def sys_init_def mem_eval)

lemmas demo_eval = demo_run demo_quota_def mem_eval

lemma demo_reach: "mem_reach demo_quota 4 demo_sys"
  using mem_run_reach [OF mem_reach.start [of demo_quota], of demo_calls]
  unfolding demo_sys_def by (simp add: demo_calls_def eval_nat_numeral del: mem_run.simps)

lemma demo_quota_safe: "quota_safe demo_quota"
  by (simp add: quota_safe_def quota_ok_def demo_quota_def u64_max_def isize_max_def)

lemma demo_bounds: "(4::nat) < u64_max" "Suc 4 < u64_max"
  by (simp_all add: u64_max_def)

lemma demo_inv: "mem_inv demo_quota (live demo_sys)"
  using reach_inv [OF demo_reach demo_quota_safe demo_bounds(1)] by (simp add: sys_inv_def)

subsection \<open>Safety of every call\<close>

text \<open>
  C1: in every state that a sequence of fewer than \<open>2 ^ 64 - 2\<close> calls reaches, no call panics,
  as long as the file size limit is one a vector can hold.
\<close>

theorem mem_no_panic:
  assumes "mem_reach q n y" and "quota_safe q" and "Suc n < u64_max"
  shows "no_panic (snd (mem_exec q y c))"
proof -
  have "sys_inv q y" using reach_inv [OF assms(1,2)] assms(3) by simp
  from mem_exec_ok [OF this assms(2) reach_ids_left [OF assms], of c] show ?thesis
    by (auto simp: call_ok_def no_panic_def split: sum.splits prod.splits)
qed

theorem mem_no_panic_witness:
  "snd (mem_exec demo_quota demo_sys (CUnlink (rs ''/d''))) = Err EISDIR
   \<and> no_panic (snd (mem_exec demo_quota demo_sys (CUnlink (rs ''/d''))))"
  using mem_no_panic [OF demo_reach demo_quota_safe demo_bounds(2)] by (simp add: demo_eval)

text \<open>
  C2: a call that fails leaves the filesystem and the snapshots exactly as they were: no
  partial effect of a failed \<open>mkdir\<close>, \<open>rename\<close>, \<open>unlink\<close>, \<open>rmdir\<close>, \<open>open\<close>, \<open>write_at\<close>,
  \<open>truncate\<close>, \<open>close\<close>, \<open>snapshot\<close>, \<open>restore\<close> or \<open>branch\<close> remains.
\<close>

theorem mem_failure_atomic:
  assumes "mem_reach q n y" and "quota_safe q" and "Suc n < u64_max"
    and "mem_exec q y c = (y', Err e)"
  shows "y' = y"
proof -
  have "sys_inv q y" using reach_inv [OF assms(1,2)] assms(3) by simp
  from mem_exec_ok [OF this assms(2) reach_ids_left [OF assms(1-3)], of c] show ?thesis
    using assms(4) by (simp add: call_ok_def)
qed

theorem mem_failure_atomic_witness:
  "\<exists>y'. mem_exec demo_quota demo_sys (CTruncate 1 33) = (y', Err ENOSPC) \<and> y' = demo_sys"
  using mem_failure_atomic [OF demo_reach demo_quota_safe demo_bounds(2), of "CTruncate 1 33"]
  by (simp add: demo_eval)

text \<open>
  C3: in every reachable state the usage counters are exact and within the quota: the byte
  count is the total length of the stored files, the entry count is the number of stored
  files and directories below the root, and no file is longer than the file size limit.
\<close>

theorem mem_usage_exact:
  assumes "mem_reach q n y" and "quota_safe q" and "n < u64_max"
  shows "used_bytes (live y) = sum_list (map (\<lambda>e. length (fn_data (snd e))) (files (live y)))
    \<and> file_count (live y) + 1 = dirs (root (live y)) + length (files (live y))
    \<and> used_bytes (live y) \<le> max_bytes q \<and> file_count (live y) \<le> max_files q
    \<and> (\<forall>e\<in>set (files (live y)). length (fn_data (snd e)) \<le> max_file_size q)"
proof -
  have inv: "mem_inv_p q (live y) {#} 0 {}"
    using reach_inv [OF assms] by (simp add: sys_inv_def mem_inv_def)
  have "length (fn_data f) \<le> max_file_size q" if "(i, f) \<in> set (files (live y))" for i f
    using inv_file [OF inv bm_mem_get [OF inv_files_wf [OF inv] that]] by (simp add: file_ok_def)
  then show ?thesis using inv_usage [OF inv] by (auto simp: usage_ok_def bm_weight_list)
qed

theorem mem_usage_exact_witness:
  "used_bytes (live demo_sys) = 5 \<and> file_count (live demo_sys) + 1 =
     dirs (root (live demo_sys)) + length (files (live demo_sys))"
  using mem_usage_exact [OF demo_reach demo_quota_safe demo_bounds(1)] by (simp add: demo_run)

text \<open>
  C4: no file leaks and no file is freed early: in every reachable state a file is stored
  exactly when the tree or an open handle refers to it, its link count is the number of its
  directory entries and its open count the number of its open handles.
\<close>

theorem mem_no_leak:
  assumes "mem_reach q n y" and "quota_safe q" and "n < u64_max"
  shows "case bm_get (files (live y)) i of
      None \<Rightarrow> i \<notin># inodes (root (live y)) \<and> i \<notin> h_inode ` snd ` set (handles (live y))
    | Some f \<Rightarrow> fn_links f = count (inodes (root (live y))) i
        \<and> fn_open f = length (filter (\<lambda>e. h_inode (snd e) = i) (handles (live y)))
        \<and> 0 < fn_links f + fn_open f"
proof -
  have inv: "mem_inv_p q (live y) {#} 0 {}"
    using reach_inv [OF assms] by (simp add: sys_inv_def mem_inv_def)
  have op: "opens (live y) i = length (filter (\<lambda>e. h_inode (snd e) = i) (handles (live y)))"
    by (simp add: opens_def bm_weight_list sum_of_bool_filter)
  show ?thesis
  proof (cases "bm_get (files (live y)) i")
    case None
    have "i \<notin># inodes (root (live y))" using inv_links [OF inv, of i] None by (simp add: count_eq_zero_iff)
    moreover have "h_inode d \<noteq> i" if "(h, d) \<in> set (handles (live y))" for h d
      using inv_handle [OF inv bm_mem_get [OF inv_handles_wf [OF inv] that]] None by auto
    ultimately show ?thesis using None by fastforce
  next
    case (Some f)
    have "0 < fn_links f \<or> 0 < fn_open f" using inv Some by (simp add: mem_inv_p_def live_ok_def)
    then show ?thesis
      using inv_links [OF inv, of i] inv_file [OF inv Some] Some op by (auto simp: file_ok_def)
  qed
qed

theorem mem_no_leak_witness:
  "(case bm_get (files (live demo_sys)) 1 of None \<Rightarrow> False | Some f \<Rightarrow> fn_open f = 1)
   \<and> (case bm_get (files (live demo_sys)) 7 of None \<Rightarrow> 7 \<notin># inodes (root (live demo_sys))
      | Some f \<Rightarrow> False)"
  using mem_no_leak [OF demo_reach demo_quota_safe demo_bounds(1), of 7]
    mem_no_leak [OF demo_reach demo_quota_safe demo_bounds(1), of 1]
  by (simp add: demo_run)

subsection \<open>Reading and writing\<close>

text \<open>
  C5: a successful \<open>write_at\<close> returns the number of bytes given, and afterwards every handle
  to the file reads the old contents overwritten from the start position (the end of the
  file for an append handle), with zeros in a gap; every other file is untouched.
\<close>

theorem mem_read_after_write:
  assumes "mem_inv q s" and "quota_safe q" and "bytes \<noteq> []"
    and "mem_write_at q s h offset bytes = (s', Ok n)"
    and "bm_get (handles s) h = Some hn" and "bm_get (files s) (h_inode hn) = Some f"
    and "bm_get (handles s) g = Some gn" and "h_readable gn" and "h_inode gn = h_inode hn"
    and "pos \<le> usize_max"
  shows "n = length bytes
    \<and> mem_read_at s' g pos k =
        Ok (take k (drop pos (write_bytes (fn_data f) (write_start hn f offset) bytes)))
    \<and> (\<forall>i. i \<noteq> h_inode hn \<longrightarrow> bm_get (files s') i = bm_get (files s) i)"
proof -
  have w: "h_writable hn" and off: "offset \<le> usize_max"
    using assms(3-6) by (auto simp: mem_write_at_def try_usize_def split: if_splits)
  have q: "quota_ok q" "max_file_size q \<le> isize_max" using assms(2) by (auto simp: quota_safe_def)
  note run = write_at_eq [OF assms(1) q(1) assms(5) w assms(6,3) off size_safeI [OF q(2)]]
  show ?thesis
    using assms(4,7-10) unfolding run
    by (auto simp: Let_def mem_read_at_def try_usize_def min_def split: if_splits)
qed

theorem mem_read_after_write_witness:
  "\<exists>s'. mem_write_at demo_quota (live demo_sys) 1 4 [9, 9] = (s', Ok 2)
     \<and> mem_read_at s' 1 1 10 = Ok [0, 1, 2, 9, 9]"
  using mem_read_after_write [OF demo_inv demo_quota_safe, of "[9, 9]" 1 4 _ 2 _ _ 1 _ 1 10]
  by (simp add: demo_eval write_bytes_def write_start_def)

text \<open>
  \<open>truncate\<close> keeps the prefix of the given length, extends with zeros, and is refused
  with \<open>ENOSPC\<close> exactly when the new length exceeds the file size limit or the byte quota.
\<close>

theorem mem_truncate_spec:
  assumes "mem_inv q s" and "quota_ok q" and "size_safe q n" and "n \<le> usize_max"
    and "bm_get (handles s) h = Some hn" and "h_writable hn"
    and "bm_get (files s) (h_inode hn) = Some f"
  shows "mem_truncate q s h n =
    (if n \<le> max_file_size q \<and> used_bytes s - length (fn_data f) + n \<le> max_bytes q
     then (s\<lparr>files := bm_insert (h_inode hn)
              (f\<lparr>fn_data := take n (fn_data f) @ replicate (n - length (fn_data f)) 0\<rparr>) (files s),
             used_bytes := used_bytes s - length (fn_data f) + n\<rparr>, Ok ())
     else (s, Err ENOSPC))"
  using assms by (simp add: mem_truncate_def try_usize_def resize_file_eq Let_def)

theorem mem_truncate_spec_witness:
  "mem_truncate demo_quota (live demo_sys) 1 3 =
     ((live demo_sys)\<lparr>files := [(1, \<lparr>fn_data = [0, 0, 1], fn_links = 1, fn_open = 1\<rparr>)],
        used_bytes := 3\<rparr>, Ok ())"
  using mem_truncate_spec [OF demo_inv, of 3 1] demo_quota_safe
  by (simp add: quota_safe_def size_safe_def demo_run usize_max_def isize_max_def)
    (simp add: demo_quota_def)


subsection \<open>Paths\<close>

text \<open>
  C7: a successful \<open>rename\<close> to another path moves the whole subtree: what was below the
  source is below the target, nothing is left at the source, and every path unrelated to
  both is unaffected.
\<close>

theorem mem_rename_moves:
  assumes "mem_inv q s" and "mem_rename s from to = (s', Ok ())"
    and "normalize_path from = Ok f" and "normalize_path to = Ok t" and "f \<noteq> t"
  shows "get_node (root s') (t @ x) = get_node (root s) (f @ x)
    \<and> get_node (root s') (f @ x) = Err ENOENT
    \<and> (\<forall>p. \<not> has_prefix p f \<and> \<not> has_prefix f p \<and> \<not> has_prefix p t \<and> \<not> has_prefix t p \<longrightarrow>
         get_node (root s') p = get_node (root s) p)"
proof -
  obtain src where pre: "rename_pre s f t src" and run: "rename_commit s f t = (s', Ok ())"
    using rename_split [of s "from" to] assms(2-5) by auto
  obtain es es' where es: "get_node (root s) (butlast f) = Ok (Directory es)"
      "get_node (detached (root s) f es) (butlast t) = Ok (Directory es')"
      "root s' = set_node (detached (root s) f es) (butlast t)
          (Directory (bm_insert (last t) src es'))"
    using rename_commit_ok [OF pre assms(1)] run by auto
  have ne: "f \<noteq> []" "t \<noteq> []" and src: "get_node (root s) f = Ok src"
    using pre by (auto simp: rename_pre_def)
  have wf: "bm_wf es"
    using get_node_wf [OF inv_tree_wf [OF assms(1) [unfolded mem_inv_def]] es(1)]
    by (simp add: node_wf_dir)
  have off: "\<not> has_prefix (f @ x) t" "\<not> has_prefix t (f @ x)"
    using rename_not_below [OF pre] rename_not_above [OF pre]
    by (auto simp: has_prefix_iff append_eq_append_conv2)
  have oth: "get_node (root s') p = get_node (detached (root s) f es) p"
    if "\<not> has_prefix p t" "\<not> has_prefix t p" for p
    unfolding es(3) by (rule get_entry_other [OF ne(2) es(2) _ that]) simp
  have "get_node (root s') (f @ x) = Err ENOENT"
    unfolding oth [OF off] by (rule get_del_entry [OF ne(1) es(1) wf])
  moreover have "get_node (root s') (t @ x) = get_node (root s) (f @ x)"
    unfolding es(3) get_put_entry [OF ne(2) es(2)] by (simp add: get_node_append src)
  moreover have "get_node (root s') p = get_node (root s) p"
    if "\<not> has_prefix p f" "\<not> has_prefix f p" "\<not> has_prefix p t" "\<not> has_prefix t p" for p
    using oth [of p] get_entry_other [OF ne(1) es(1), of "bm_remove (last f) es" p] that wf by simp
  ultimately show ?thesis by blast
qed

theorem mem_rename_moves_witness:
  "\<exists>s'. mem_rename (live demo_sys) (rs ''/d/f'') (rs ''/g'') = (s', Ok ())
    \<and> get_node (root s') [rs ''g''] = Ok (File 1)
    \<and> get_node (root s') [rs ''d'', rs ''f''] = Err ENOENT"
  using mem_rename_moves [OF demo_inv, of "rs ''/d/f''" "rs ''/g''" _ "[rs ''d'', rs ''f'']" "[rs ''g'']" "[]"]
  by (simp add: demo_eval)

lemma mem_unlink_Ok:
  assumes "mem_unlink s p = (s', Ok ())" and "normalize_path p = Ok path"
  shows "\<exists>es i. path \<noteq> [] \<and> get_node (root s) (butlast path) = Ok (Directory es)
     \<and> bm_get es (last path) = Some (File i)
     \<and> remove_tree (s\<lparr>root := detached (root s) path es\<rparr>) (File i) = (s', Ok ())"
proof -
  obtain es where es: "path \<noteq> []" "parent_dir_mut (root s) path = Ok (es, last path)"
    using assms by (auto simp: mem_unlink_def attempt_eq_Ok parent_dir_mut_Ok split: if_splits)
  then obtain n where n: "bm_get es (last path) = Some n"
    using assms by (cases "bm_get es (last path)") (auto simp: mem_unlink_def)
  then show ?thesis
    using assms es by (cases n) (auto simp: mem_unlink_def parent_dir_mut_Ok simp del: remove_tree.simps)
qed

text \<open>
  C8: \<open>unlink\<close> of a file removes its path but not its contents while a handle is open: every
  handle that could read the file before reads the same bytes afterwards.
\<close>

theorem mem_unlink_open_readable:
  assumes "mem_inv q s" and "mem_unlink s p = (s', Ok ())" and "normalize_path p = Ok path"
    and "bm_get (handles s) h = Some hn"
  shows "get_node (root s') path = Err ENOENT \<and> mem_read_at s' h pos k = mem_read_at s h pos k"
proof -
  note m = assms(1) [unfolded mem_inv_def]
  obtain es i where es: "path \<noteq> []" "get_node (root s) (butlast path) = Ok (Directory es)"
      "bm_get es (last path) = Some (File i)"
      "remove_tree (s\<lparr>root := detached (root s) path es\<rparr>) (File i) = (s', Ok ())"
    using mem_unlink_Ok [OF assms(2,3)] by blast
  have wf: "bm_wf es" using get_node_wf [OF inv_tree_wf [OF m] es(2)] by (simp add: node_wf_dir)
  have "mem_inv_p q (s\<lparr>root := detached (root s) path es\<rparr>) (add_mset i {#}) 0 {}"
    using inv_del_entry [OF m es(2,3)] by simp
  from inv_unlink_file [OF this] es(4)
  have s': "root s' = detached (root s) path es" "handles s' = handles s"
      "\<And>j. j \<noteq> i \<Longrightarrow> bm_get (files s') j = bm_get (files s) j"
      "\<And>f. bm_get (files s) i = Some f \<Longrightarrow> bm_get (files s') i =
          (if 0 < fn_open f then Some (f\<lparr>fn_links := fn_links f - 1\<rparr>) else None)"
    by (auto simp del: remove_tree.simps)
  obtain f where f: "bm_get (files s) (h_inode hn) = Some f"
    using inv_handle [OF m assms(4)] by blast
  have "0 < fn_open f"
    using inv_file [OF m f] opens_close [OF assms(4), of "h_inode hn"] by (simp add: file_ok_def)
  then have "\<exists>g. bm_get (files s') (h_inode hn) = Some g \<and> fn_data g = fn_data f"
    using s'(3,4) f by (cases "h_inode hn = i") auto
  moreover have "get_node (root s') path = Err ENOENT"
    using get_del_entry [OF es(1,2) wf, of "[]"] s'(1) by simp
  ultimately show ?thesis
    using f s'(2) assms(4) by (cases "h_readable hn") (auto simp: mem_read_at_def)
qed

theorem mem_unlink_open_readable_witness:
  "\<exists>s'. mem_unlink (live demo_sys) (rs ''/d/f'') = (s', Ok ())
    \<and> get_node (root s') [rs ''d'', rs ''f''] = Err ENOENT \<and> mem_read_at s' 1 0 9 = Ok [0, 0, 1, 2, 3]"
  using mem_unlink_open_readable [OF demo_inv, of "rs ''/d/f''" _ "[rs ''d'', rs ''f'']" 1 _ 0 9]
  by (simp add: demo_eval)

lemma read_closed:
  assumes "mem_inv q s"
  shows "mem_read_at (fst (mem_close s h)) h 0 k = Err EBADF"
proof (cases "bm_get (handles s) h")
  case None
  then show ?thesis by (simp add: mem_close_def mem_read_at_def try_usize_def)
next
  case (Some d)
  note m = assms [unfolded mem_inv_def]
  obtain f where f: "bm_get (files s) (h_inode d) = Some f" using inv_handle [OF m Some] by blast
  have keep: "handles (fst (release_file_if_unreferenced t i)) = handles t" for t i
    unfolding release_file_if_unreferenced_def Let_def
    by (auto split: option.split intro!: fst_attempt [where P = "\<lambda>u. handles u = handles t"])
  have "bm_get (handles (fst (mem_close s h))) h = None"
    using Some f inv_handles_wf [OF m] keep by (cases "usub (fn_open f) 1 :: nat vres") (simp_all add: mem_close_def)
  then show ?thesis by (simp add: mem_read_at_def try_usize_def)
qed

text \<open>
  \<open>open\<close> returns a handle that no earlier \<open>open\<close> of this filesystem returned and that
  carries the requested access; after \<open>close\<close> the handle is refused with \<open>EBADF\<close>.
\<close>

lemma mem_open_fresh:
  assumes "mem_inv q s" and "quota_ok q" and "ids_left s" and "mem_open q s p mode = (s', Ok h)"
  shows "h = next_handle s \<and> next_handle s' = Suc h \<and> bm_get (handles s) h = None
    \<and> (\<exists>i f. bm_get (handles s') h = Some \<lparr>h_inode = i, h_readable = om_read mode,
          h_writable = om_write mode, h_append = om_append mode\<rparr>
        \<and> get_node (root s') (projr (normalize_path p)) = Ok (File i)
        \<and> bm_get (files s') i = Some f \<and> (om_truncate mode \<longrightarrow> fn_data f = []))
    \<and> mem_read_at (fst (mem_close s' h)) h 0 k = Err EBADF"
proof -
  note m = assms(1) [unfolded mem_inv_def]
  have ids: "next_inode s < u64_max" "next_handle s < u64_max"
    using assms(3) by (auto simp: ids_left_def)
  obtain path where path: "normalize_path p = Ok path" "valid_components path" and
    run: "and_then (open_inode q s path mode) (\<lambda>s1 i. mint_handle s1 i mode) = (s', Ok h)"
    using assms(4) by (auto simp: mem_open_def attempt_eq_Ok dest: normalize_path_valid)
  obtain t i f where t: "mem_inv q t" "next_handle t = next_handle s" "bm_get (files t) i = Some f"
      "get_node (root t) path = Ok (File i)" "om_truncate mode \<longrightarrow> fn_data f = []"
      "s' = mint_state t i f mode" "h = next_handle t"
    using open_result [OF assms(1,2) ids(1,2) path(2) run] by blast
  have "mem_read_at (fst (mem_close s' h)) h 0 k = Err EBADF"
    by (rule read_closed [OF inv_mint [OF t(1,3), of mode, folded t(6)]])
  then show ?thesis
    using handle_fresh [OF m] t path(1) by (simp add: mint_state_def)
qed

lemma mem_open_fresh_witness:
  "\<exists>s'. mem_open demo_quota (live demo_sys) (rs ''/d/f'') (om_set_truncate om_write_only) = (s', Ok 2)
    \<and> mem_read_at (fst (mem_close s' 2)) 2 0 1 = Err EBADF"
  using mem_open_fresh [OF demo_inv, of "rs ''/d/f''" "om_set_truncate om_write_only" _ 2 1]
    demo_quota_safe by (simp add: quota_safe_def demo_eval ids_left_def)

subsection \<open>Snapshots\<close>

lemma metadata_restored:
  assumes "\<And>i. i \<in># inodes n \<Longrightarrow>
      map_option fn_data (bm_get (files s') i) = map_option fn_data (bm_get (files s) i)"
  shows "metadata_for_node s' n = metadata_for_node s n"
proof (cases n)
  case (File i)
  then show ?thesis
    using assms [of i] by (cases "bm_get (files s) i"; cases "bm_get (files s') i")
      (auto simp: metadata_for_node_def)
qed (simp add: metadata_for_node_def)

lemma inodes_child:
  assumes "(c, n) \<in> set es"
  shows "inodes n \<subseteq># inodes (Directory es)"
  using assms by (induction es) (auto intro: subset_mset.order_trans [OF _ mset_subset_eq_add_right])

lemma inodes_subtree: "get_node r p = Ok n \<Longrightarrow> inodes n \<subseteq># inodes r"
proof (induction r p rule: get_node.induct)
  case (3 es c cs)
  then obtain k where "(c, k) \<in> set es" "inodes n \<subseteq># inodes k"
    by (auto split: option.splits dest: bm_get_mem)
  then show ?case using inodes_child [of c k es] by (meson subset_mset.order_trans)
qed simp_all

lemma collect_restored:
  assumes "\<And>e. e \<in> set es \<Longrightarrow> metadata_for_node s' (snd e) = metadata_for_node s (snd e)"
  shows "collect_entries s' es = collect_entries s es"
  using assms by (induction es) (fastforce intro!: obind_cong)+

text \<open>
  C9: a snapshot of a valid state can be taken, and restoring it into any filesystem with the
  same quota succeeds: every \<open>stat\<close> and \<open>readdir\<close> then answers as it did when the snapshot
  was taken, every linked file has the same contents, and no handle is open.
\<close>

theorem mem_snapshot_roundtrip:
  assumes "mem_inv q s" and "quota_ok q"
  shows "\<exists>sn s'. mem_snapshot s = Ok sn \<and> mem_restore q t sn = (s', Ok ())
    \<and> mem_stat s' p = mem_stat s p \<and> mem_readdir s' p = mem_readdir s p
    \<and> root s' = root s \<and> handles s' = []
    \<and> (\<forall>i. i \<in># inodes (root s) \<longrightarrow>
         map_option fn_data (bm_get (files s') i) = map_option fn_data (bm_get (files s) i))"
proof -
  note m = assms(1) [unfolded mem_inv_def]
  from mem_snapshot_ok [OF assms] obtain sn where sn: "mem_snapshot s = Ok sn"
    "sn_root sn = root s" "bm_wf (sn_files sn)" "length (sn_files sn) = size (inodes (root s))"
    "\<And>i. bm_get (sn_files sn) i =
          (if i \<in># inodes (root s) then map_option frozen (bm_get (files s) i) else None)"
    "sn_used_bytes sn = (\<Sum>i\<in>#inodes (root s). file_len (files s) i)"
    "Suc (sn_file_count sn) = dirs (root s) + size (inodes (root s))" by blast
  let ?s = "state_from_snapshot sn (next_handle t)"
  have "length (fn_data f) \<le> u64_max \<and> length (fn_data f) \<le> max_file_size q"
    if "bm_get (sn_files sn) i = Some f" for i f
    using that inv_file [OF m, of i] isize_le_u64
    by (auto simp: sn(5) frozen_def file_ok_def split: if_splits)
  then have "ensure_snapshot_fits_quota sn q = Ok ()"
    using linked_len_le [OF assms(1)] inv_usage [OF m] sn(6,7)
    by (auto simp: ensure_snapshot_fits_Ok [OF sn(3)] usage_ok_def)
  then have run: "mem_restore q t sn = (?s, Ok ())" by (simp add: mem_restore_def)
  have data: "map_option fn_data (bm_get (files ?s) i) = map_option fn_data (bm_get (files s) i)"
    if "i \<in># inodes (root s)" for i
    using that by (cases "bm_get (files s) i") (simp_all add: state_from_snapshot_def sn(5) frozen_def)
  have meta: "metadata_for_node ?s n = metadata_for_node s n" if "inodes n \<subseteq># inodes (root s)" for n
    using that data by (intro metadata_restored) (auto dest: mset_subset_eqD)
  have root: "root ?s = root s" by (simp add: state_from_snapshot_def sn(2))
  have kids: "metadata_for_node ?s (snd e) = metadata_for_node s (snd e)"
    if "get_node (root s) v = Ok (Directory es)" "e \<in> set es" for v es e
    using that inodes_child [of "fst e" "snd e" es] inodes_subtree [OF that(1)]
    by (intro meta) (auto intro: subset_mset.order_trans)
  have "mem_stat ?s p = mem_stat s p"
    using meta inodes_subtree by (auto simp: mem_stat_def root intro!: obind_cong)
  moreover have "mem_readdir ?s p = mem_readdir s p"
    unfolding mem_readdir_def root
    by (intro obind_cong refl) (auto split: node.splits intro!: collect_restored dest: kids)
  ultimately show ?thesis using sn(1) run root data by (auto simp: state_from_snapshot_def)
qed

theorem mem_snapshot_roundtrip_witness:
  "\<exists>sn s'. mem_snapshot (live demo_sys) = Ok sn \<and> mem_restore demo_quota state_default sn = (s', Ok ())
    \<and> mem_stat s' (rs ''/d/f'') = Ok \<lparr>md_type = RegularFile, md_len = 5\<rparr>"
  using mem_snapshot_roundtrip [OF demo_inv, of state_default "rs ''/d/f''"] demo_quota_safe
  by (auto simp: quota_safe_def)
    (simp add: demo_run mem_stat_def normalize_path_def max_path_depth_def metadata_for_node_def
      u64_max_def)

end
