(* ===== verification/Vfs_Trait.thy ===== *)
theory Vfs_Trait
  imports Mem_Properties
begin

text \<open>
  The trait \<open>Vfs\<close> of \<open>src/vfs/mod.rs\<close> as a record of operations over a backend state (a
  trait object is such a record with its state), the contract its clients use as the
  locale \<open>vfs_backend\<close>, and the in-memory filesystem as an instance.
\<close>

record 's vfs_ops =
  v_stat :: "'s \<Rightarrow> rstr \<Rightarrow> 's \<times> metadata vres"
  v_readdir :: "'s \<Rightarrow> rstr \<Rightarrow> 's \<times> dir_entry list vres"
  v_mkdir :: "'s \<Rightarrow> rstr \<Rightarrow> 's \<times> unit vres"
  v_rename :: "'s \<Rightarrow> rstr \<Rightarrow> rstr \<Rightarrow> 's \<times> unit vres"
  v_unlink :: "'s \<Rightarrow> rstr \<Rightarrow> 's \<times> unit vres"
  v_rmdir :: "'s \<Rightarrow> rstr \<Rightarrow> 's \<times> unit vres"
  v_open :: "'s \<Rightarrow> rstr \<Rightarrow> open_mode \<Rightarrow> 's \<times> file_handle vres"
  v_read_at :: "'s \<Rightarrow> file_handle \<Rightarrow> nat \<Rightarrow> nat \<Rightarrow> 's \<times> byte list vres"
  v_write_at :: "'s \<Rightarrow> file_handle \<Rightarrow> nat \<Rightarrow> byte list \<Rightarrow> 's \<times> nat vres"
  v_truncate :: "'s \<Rightarrow> file_handle \<Rightarrow> nat \<Rightarrow> 's \<times> unit vres"
  v_close :: "'s \<Rightarrow> file_handle \<Rightarrow> 's \<times> unit vres"
  v_abort :: "'s \<Rightarrow> file_handle \<Rightarrow> 's \<times> unit vres"
  v_is_fast_path :: "'s \<Rightarrow> rstr \<Rightarrow> bool"
  v_is_fast_handle :: "'s \<Rightarrow> file_handle \<Rightarrow> bool"
  v_is_fast :: "'s \<Rightarrow> bool"
  v_stats :: "'s \<Rightarrow> vfs_stats vres option"

text \<open>The in-memory filesystem; \<open>abort\<close>, \<open>is_fast_path\<close> and \<open>is_fast_handle\<close> are the defaults.\<close>

definition mem_ops :: "vfs_quota \<Rightarrow> mem_state vfs_ops" where
  "mem_ops q = \<lparr>
     v_stat = (\<lambda>s p. (s, mem_stat s p)),
     v_readdir = (\<lambda>s p. (s, mem_readdir s p)),
     v_mkdir = mem_mkdir q,
     v_rename = mem_rename,
     v_unlink = mem_unlink,
     v_rmdir = mem_rmdir,
     v_open = mem_open q,
     v_read_at = (\<lambda>s h off n. (s, mem_read_at s h off n)),
     v_write_at = mem_write_at q,
     v_truncate = mem_truncate q,
     v_close = mem_close,
     v_abort = mem_close,
     v_is_fast_path = (\<lambda>_ _. True),
     v_is_fast_handle = (\<lambda>_ _. True),
     v_is_fast = (\<lambda>_. True),
     v_stats = (\<lambda>s. Some (mem_stats s))\<rparr>"

subsection \<open>The contract\<close>

text \<open>
  A backend has states it considers valid; an operation that returns (with a value or an
  errno) leaves a valid state, and lookups do not change what is stored.
\<close>

definition returns_in :: "('s \<Rightarrow> bool) \<Rightarrow> 's \<times> 'a vres \<Rightarrow> bool" where
  "returns_in I out \<longleftrightarrow> (snd out = Inl Panic \<or> I (fst out))"

locale vfs_backend =
  fixes ops :: "'s vfs_ops" and valid :: "'s \<Rightarrow> bool"
  assumes stat_valid: "valid s \<Longrightarrow> returns_in valid (v_stat ops s p)"
    and readdir_valid: "valid s \<Longrightarrow> returns_in valid (v_readdir ops s p)"
    and mkdir_valid: "valid s \<Longrightarrow> returns_in valid (v_mkdir ops s p)"
    and rename_valid: "valid s \<Longrightarrow> returns_in valid (v_rename ops s p p')"
    and unlink_valid: "valid s \<Longrightarrow> returns_in valid (v_unlink ops s p)"
    and rmdir_valid: "valid s \<Longrightarrow> returns_in valid (v_rmdir ops s p)"
    and open_valid: "valid s \<Longrightarrow> returns_in valid (v_open ops s p m)"
    and read_valid: "valid s \<Longrightarrow> returns_in valid (v_read_at ops s h off n)"
    and write_valid: "valid s \<Longrightarrow> returns_in valid (v_write_at ops s h off d)"
    and truncate_valid: "valid s \<Longrightarrow> returns_in valid (v_truncate ops s h n)"
    and close_valid: "valid s \<Longrightarrow> returns_in valid (v_close ops s h)"
    and abort_valid: "valid s \<Longrightarrow> returns_in valid (v_abort ops s h)"

lemma returns_in_op_ok: "mem_inv q s \<Longrightarrow> op_ok q s out \<Longrightarrow> returns_in (mem_inv q) out"
  by (cases out) (auto simp: op_ok_def returns_in_def split: sum.splits fault.splits)

text \<open>Running out of identifiers is a panic, so validity survives every \<open>open\<close> that returns.\<close>

lemma returns_in_mint:
  assumes "mem_inv q t" and "bm_get (files t) i = Some f"
  shows "returns_in (mem_inv q) (mint_handle t i m)"
proof (cases "next_handle t < u64_max")
  case True
  then show ?thesis
    using mint_handle_eq [OF assms True] inv_mint [OF assms] by (simp add: returns_in_def)
next
  case False
  then show ?thesis by (simp add: mint_handle_def uadd_def Let_def returns_in_def)
qed

lemma returns_in_attempt:
  "P s \<Longrightarrow> (\<And>v. r = Inr v \<Longrightarrow> returns_in P (k v)) \<Longrightarrow> returns_in P (attempt s r k)"
  by (cases r) (auto simp: returns_in_def)

lemma returns_in_open:
  assumes inv: "mem_inv q s" and q: "quota_ok q"
  shows "returns_in (mem_inv q) (mem_open q s p m)"
  unfolding mem_open_def
proof (intro returns_in_attempt inv, goal_cases)
  case (1 u path)
  have "valid_components path" using 1(2) by (rule normalize_path_valid)
  with inv q show ?case
  proof (cases rule: open_inode_cases [where mode = m])
    case (existing i f)
    then show ?thesis using returns_in_mint [OF inv existing(2)] by simp
  next
    case (truncated i f)
    then show ?thesis using returns_in_mint [OF truncated(6), of i "f\<lparr>fn_data := []\<rparr>"] by simp
  next
    case (created es t)
    then show ?thesis
      using returns_in_mint [OF created(7), of "next_inode s" "file_node_default\<lparr>fn_links := 1\<rparr>"]
      by simp
  qed (use inv in \<open>simp_all add: returns_in_def\<close>)
qed

text \<open>The in-memory filesystem meets the contract.\<close>

definition mem_valid :: "vfs_quota \<Rightarrow> mem_state \<Rightarrow> bool" where
  "mem_valid q s \<longleftrightarrow> quota_safe q \<and> mem_inv q s"

lemma returns_in_valid:
  "quota_safe q \<Longrightarrow> returns_in (mem_inv q) out \<Longrightarrow> returns_in (mem_valid q) out"
  by (auto simp: returns_in_def mem_valid_def)

interpretation mem: vfs_backend "mem_ops q" "mem_valid q" for q
proof unfold_locales
  fix s :: mem_state
  assume "mem_valid q s"
  then have v: "quota_safe q" "mem_inv q s" "quota_ok q" "max_file_size q \<le> isize_max"
    by (auto simp: mem_valid_def quota_safe_def)
  note lift = returns_in_valid [OF v(1)] returns_in_op_ok [OF v(2)]
  note ok = mkdir_op_ok [OF v(2,3)] rename_op_ok [OF v(2)] unlink_op_ok [OF v(2)]
    rmdir_op_ok [OF v(2)] write_at_op_ok [OF v(2,3,4)] close_op_ok [OF v(2)]
    truncate_op_ok [OF v(2,3) size_safeI [OF v(4)]]
  show "returns_in (mem_valid q) (v_stat (mem_ops q) s p)"
    "returns_in (mem_valid q) (v_readdir (mem_ops q) s p)"
    "returns_in (mem_valid q) (v_read_at (mem_ops q) s h off n)" for p h off n
    using v by (simp_all add: mem_ops_def returns_in_def mem_valid_def)
  show "returns_in (mem_valid q) (v_mkdir (mem_ops q) s p)"
    "returns_in (mem_valid q) (v_rename (mem_ops q) s p p')"
    "returns_in (mem_valid q) (v_unlink (mem_ops q) s p)"
    "returns_in (mem_valid q) (v_rmdir (mem_ops q) s p)"
    "returns_in (mem_valid q) (v_write_at (mem_ops q) s h off d)"
    "returns_in (mem_valid q) (v_truncate (mem_ops q) s h n)"
    "returns_in (mem_valid q) (v_close (mem_ops q) s h)"
    "returns_in (mem_valid q) (v_abort (mem_ops q) s h)" for p p' h off d n
    by (simp_all add: mem_ops_def lift ok)
  show "returns_in (mem_valid q) (v_open (mem_ops q) s p m)" for p m
    using returns_in_open [OF v(2,3)] by (simp add: mem_ops_def lift)
qed

end
