(* ===== verification/Mount_Vfs.thy ===== *)
theory Mount_Vfs
  imports Vfs_Trait
begin

text \<open>
  The static mount table of \<open>src/vfs/mount.rs\<close>. A backend is an \<open>Arc<dyn Vfs>\<close>: the model
  numbers the backends, keeps their states in a store, and lets two mount names refer to
  the same number, since one backend may be mounted twice. The operations of backend \<open>b\<close>
  are the parameter \<open>ops b\<close>.
\<close>

type_synonym backend = nat

record mounted_handle =
  mh_vfs :: backend
  mh_inner :: file_handle

record mounted_path =
  mp_mount :: rstr
  mp_vfs :: backend
  mp_inner :: rstr
  mp_at_mount :: bool

record mounted_vfs =
  mv_mounts :: "(rstr, backend) bmap"
  mv_handles :: "(file_handle, mounted_handle) bmap"
  mv_next_handle :: "64 word"
  mv_fast :: bool

text \<open>The whole state: the table and the states of the backends behind it.\<close>

type_synonym 's mount_sys = "mounted_vfs \<times> (backend \<Rightarrow> 's)"

definition first_handle :: "64 word" where
  "first_handle = 1"

definition validate_mount_name :: "rstr \<Rightarrow> unit vres" where
  "validate_mount_name name =
     (if name = [] \<or> name = rs ''.'' \<or> name = rs ''..'' \<or> name = rs ''bin''
         \<or> slash \<in> set name \<or> 0 \<in> set name
      then Err EINVAL else Ok ())"

definition directory_metadata :: metadata where
  "directory_metadata = \<lparr>md_type = DirectoryFile, md_len = 0\<rparr>"

fun validate_mount_names :: "rstr list \<Rightarrow> unit vres" where
  "validate_mount_names [] = Ok ()"
| "validate_mount_names (n # ns) = obind (validate_mount_name n) (\<lambda>_. validate_mount_names ns)"

definition mounted_new ::
  "(backend \<Rightarrow> 's vfs_ops) \<Rightarrow> (backend \<Rightarrow> 's) \<Rightarrow> (rstr, backend) bmap \<Rightarrow> mounted_vfs vres" where
  "mounted_new ops st mounts =
     obind (validate_mount_names (map fst mounts)) (\<lambda>_.
     let fast = (\<forall>b\<in>set (map snd mounts). v_is_fast (ops b) (st b)) in
     Ok \<lparr>mv_mounts = mounts, mv_handles = [], mv_next_handle = first_handle, mv_fast = fast\<rparr>)"

definition mount_names :: "mounted_vfs \<Rightarrow> rstr list" where
  "mount_names v = map fst (mv_mounts v)"

definition mounted_path :: "mounted_vfs \<Rightarrow> rstr \<Rightarrow> mounted_path option vres" where
  "mounted_path v path =
     obind (normalize_path path) (\<lambda>components.
     case components of
       [] \<Rightarrow> Ok None
     | name # rest \<Rightarrow>
         (case bm_get (mv_mounts v) name of
            None \<Rightarrow> Err ENOENT
          | Some b \<Rightarrow>
              let at_mount = (length components = 1);
                  inner = (if at_mount then rs ''/'' else render_path rest) in
              Ok (Some \<lparr>mp_mount = name, mp_vfs = b, mp_inner = inner, mp_at_mount = at_mount\<rparr>)))"

definition mv_handle :: "mounted_vfs \<Rightarrow> file_handle \<Rightarrow> (backend \<times> file_handle) vres" where
  "mv_handle v h = obind (ok_or EBADF (bm_get (mv_handles v) h)) (\<lambda>m. Ok (mh_vfs m, mh_inner m))"

text \<open>
  The loop of \<open>insert_handle\<close>: the counter wraps around, zero is skipped, and so is a
  number that is still in use. The result is the number taken and the counter left behind.
\<close>

partial_function (option) insert_handle_loop ::
  "(file_handle, mounted_handle) bmap \<Rightarrow> 64 word \<Rightarrow> (file_handle \<times> 64 word) option" where
  "insert_handle_loop hs next =
     (let raw = next; next' = next + 1 in
      if raw = 0 then insert_handle_loop hs next'
      else if bm_get hs (unat raw) = None then Some (unat raw, next')
      else insert_handle_loop hs next')"

text \<open>\<open>None\<close> stands for a loop that never ends: every number is in use.\<close>

definition insert_handle ::
  "mounted_vfs \<Rightarrow> backend \<Rightarrow> file_handle \<Rightarrow> (mounted_vfs \<times> file_handle) option" where
  "insert_handle v b inner =
     (case insert_handle_loop (mv_handles v) (mv_next_handle v) of
        None \<Rightarrow> None
      | Some (outer, next) \<Rightarrow>
          Some (v\<lparr>mv_handles := bm_insert outer \<lparr>mh_vfs = b, mh_inner = inner\<rparr> (mv_handles v),
                  mv_next_handle := next\<rparr>, outer))"

text \<open>Calling an operation of backend \<open>b\<close>.\<close>

definition on_backend ::
  "'s mount_sys \<Rightarrow> backend \<Rightarrow> ('s \<Rightarrow> 's \<times> 'a vres) \<Rightarrow> 's mount_sys \<times> 'a vres" where
  "on_backend y b f = (case f (snd y b) of (s, r) \<Rightarrow> ((fst y, (snd y)(b := s)), r))"

subsection \<open>Operations\<close>

definition mount_stat ::
  "(backend \<Rightarrow> 's vfs_ops) \<Rightarrow> 's mount_sys \<Rightarrow> rstr \<Rightarrow> 's mount_sys \<times> metadata vres" where
  "mount_stat ops y p =
     attempt y (mounted_path (fst y) p) (\<lambda>mp. case mp of
       Some mp \<Rightarrow> on_backend y (mp_vfs mp) (\<lambda>s. v_stat (ops (mp_vfs mp)) s (mp_inner mp))
     | None \<Rightarrow> (y, Ok directory_metadata))"

definition mount_readdir ::
  "(backend \<Rightarrow> 's vfs_ops) \<Rightarrow> 's mount_sys \<Rightarrow> rstr \<Rightarrow> 's mount_sys \<times> dir_entry list vres" where
  "mount_readdir ops y p =
     attempt y (mounted_path (fst y) p) (\<lambda>mp. case mp of
       Some mp \<Rightarrow> on_backend y (mp_vfs mp) (\<lambda>s. v_readdir (ops (mp_vfs mp)) s (mp_inner mp))
     | None \<Rightarrow> (y, Ok (map (\<lambda>name. \<lparr>de_name = name, de_meta = directory_metadata\<rparr>)
                   (map fst (mv_mounts (fst y))))))"

definition mount_mkdir ::
  "(backend \<Rightarrow> 's vfs_ops) \<Rightarrow> 's mount_sys \<Rightarrow> rstr \<Rightarrow> 's mount_sys \<times> unit vres" where
  "mount_mkdir ops y p =
     (case mounted_path (fst y) p of
        Inr (Some mp) \<Rightarrow>
          if mp_at_mount mp then (y, Err EEXIST)
          else on_backend y (mp_vfs mp) (\<lambda>s. v_mkdir (ops (mp_vfs mp)) s (mp_inner mp))
      | Inr None \<Rightarrow> (y, Err EACCES)
      | Inl f \<Rightarrow> if f = Errno ENOENT then (y, Err EACCES) else (y, Inl f))"

definition mount_rename ::
  "(backend \<Rightarrow> 's vfs_ops) \<Rightarrow> 's mount_sys \<Rightarrow> rstr \<Rightarrow> rstr \<Rightarrow> 's mount_sys \<times> unit vres" where
  "mount_rename ops y from to =
     attempt y (obind (mounted_path (fst y) from) (ok_or EBUSY)) (\<lambda>from.
     if mp_at_mount from then (y, Err EBUSY)
     else attempt y (obind (case mounted_path (fst y) to of
              Inl f \<Rightarrow> if f = Errno ENOENT then Err EACCES else Inl f
            | Inr m \<Rightarrow> Ok m) (ok_or EBUSY)) (\<lambda>to.
     if mp_at_mount to then (y, Err EBUSY)
     else if mp_mount from \<noteq> mp_mount to then (y, Err EXDEV)
     else on_backend y (mp_vfs from)
            (\<lambda>s. v_rename (ops (mp_vfs from)) s (mp_inner from) (mp_inner to))))"

definition mount_unlink ::
  "(backend \<Rightarrow> 's vfs_ops) \<Rightarrow> 's mount_sys \<Rightarrow> rstr \<Rightarrow> 's mount_sys \<times> unit vres" where
  "mount_unlink ops y p =
     attempt y (mounted_path (fst y) p) (\<lambda>mp. case mp of
       Some mp \<Rightarrow>
         if mp_at_mount mp then (y, Err EISDIR)
         else on_backend y (mp_vfs mp) (\<lambda>s. v_unlink (ops (mp_vfs mp)) s (mp_inner mp))
     | None \<Rightarrow> (y, Err EISDIR))"

definition mount_rmdir ::
  "(backend \<Rightarrow> 's vfs_ops) \<Rightarrow> 's mount_sys \<Rightarrow> rstr \<Rightarrow> 's mount_sys \<times> unit vres" where
  "mount_rmdir ops y p =
     attempt y (mounted_path (fst y) p) (\<lambda>mp. case mp of
       Some mp \<Rightarrow>
         if mp_at_mount mp then (y, Err EBUSY)
         else on_backend y (mp_vfs mp) (\<lambda>s. v_rmdir (ops (mp_vfs mp)) s (mp_inner mp))
     | None \<Rightarrow> (y, Err EBUSY))"

text \<open>\<open>open\<close>; the result is \<open>None\<close> when \<open>insert_handle\<close> does not return.\<close>

definition mount_open ::
  "(backend \<Rightarrow> 's vfs_ops) \<Rightarrow> 's mount_sys \<Rightarrow> rstr \<Rightarrow> open_mode \<Rightarrow>
   ('s mount_sys \<times> file_handle vres) option" where
  "mount_open ops y p mode =
     (case obind (mounted_path (fst y) p) (ok_or EISDIR) of
        Inl f \<Rightarrow> Some (y, Inl f)
      | Inr mp \<Rightarrow>
          if mp_at_mount mp then Some (y, Err EISDIR)
          else (case on_backend y (mp_vfs mp) (\<lambda>s. v_open (ops (mp_vfs mp)) s (mp_inner mp) mode) of
              (y', Inl f) \<Rightarrow> Some (y', Inl f)
            | (y', Inr inner) \<Rightarrow>
                (case insert_handle (fst y') (mp_vfs mp) inner of
                   None \<Rightarrow> None
                 | Some (v, outer) \<Rightarrow> Some ((v, snd y'), Ok outer))))"

definition mount_read_at ::
  "(backend \<Rightarrow> 's vfs_ops) \<Rightarrow> 's mount_sys \<Rightarrow> file_handle \<Rightarrow> nat \<Rightarrow> nat \<Rightarrow>
   's mount_sys \<times> byte list vres" where
  "mount_read_at ops y h off n =
     attempt y (mv_handle (fst y) h) (\<lambda>(b, inner).
       on_backend y b (\<lambda>s. v_read_at (ops b) s inner off n))"

definition mount_write_at ::
  "(backend \<Rightarrow> 's vfs_ops) \<Rightarrow> 's mount_sys \<Rightarrow> file_handle \<Rightarrow> nat \<Rightarrow> byte list \<Rightarrow>
   's mount_sys \<times> nat vres" where
  "mount_write_at ops y h off d =
     attempt y (mv_handle (fst y) h) (\<lambda>(b, inner).
       on_backend y b (\<lambda>s. v_write_at (ops b) s inner off d))"

definition mount_truncate ::
  "(backend \<Rightarrow> 's vfs_ops) \<Rightarrow> 's mount_sys \<Rightarrow> file_handle \<Rightarrow> nat \<Rightarrow> 's mount_sys \<times> unit vres" where
  "mount_truncate ops y h n =
     attempt y (mv_handle (fst y) h) (\<lambda>(b, inner).
       on_backend y b (\<lambda>s. v_truncate (ops b) s inner n))"

text \<open>\<open>close\<close> and \<open>abort\<close> consume the handle before the backend is called.\<close>

definition mount_release ::
  "(backend \<Rightarrow> 's \<Rightarrow> file_handle \<Rightarrow> 's \<times> unit vres) \<Rightarrow> 's mount_sys \<Rightarrow> file_handle \<Rightarrow>
   's mount_sys \<times> unit vres" where
  "mount_release rel y h =
     attempt y (ok_or EBADF (bm_get (mv_handles (fst y)) h)) (\<lambda>m.
     let v = (fst y)\<lparr>mv_handles := bm_remove h (mv_handles (fst y))\<rparr> in
     on_backend (v, snd y) (mh_vfs m) (\<lambda>s. rel (mh_vfs m) s (mh_inner m)))"

definition mount_close ::
  "(backend \<Rightarrow> 's vfs_ops) \<Rightarrow> 's mount_sys \<Rightarrow> file_handle \<Rightarrow> 's mount_sys \<times> unit vres" where
  "mount_close ops = mount_release (\<lambda>b. v_close (ops b))"

definition mount_abort ::
  "(backend \<Rightarrow> 's vfs_ops) \<Rightarrow> 's mount_sys \<Rightarrow> file_handle \<Rightarrow> 's mount_sys \<times> unit vres" where
  "mount_abort ops = mount_release (\<lambda>b. v_abort (ops b))"

definition mount_is_fast_path :: "(backend \<Rightarrow> 's vfs_ops) \<Rightarrow> 's mount_sys \<Rightarrow> rstr \<Rightarrow> bool" where
  "mount_is_fast_path ops y p =
     (case mounted_path (fst y) p of
        Inr (Some mp) \<Rightarrow> v_is_fast_path (ops (mp_vfs mp)) (snd y (mp_vfs mp)) (mp_inner mp)
      | _ \<Rightarrow> True)"

definition mount_is_fast_handle ::
  "(backend \<Rightarrow> 's vfs_ops) \<Rightarrow> 's mount_sys \<Rightarrow> file_handle \<Rightarrow> bool" where
  "mount_is_fast_handle ops y h =
     (case mv_handle (fst y) h of
        Inl _ \<Rightarrow> True
      | Inr (b, inner) \<Rightarrow> v_is_fast_handle (ops b) (snd y b) inner)"

fun mount_stats_loop ::
  "(backend \<Rightarrow> 's vfs_ops) \<Rightarrow> (backend \<Rightarrow> 's) \<Rightarrow> backend list \<Rightarrow> vfs_stats \<Rightarrow> bool \<Rightarrow>
   vfs_stats vres option" where
  "mount_stats_loop ops st [] acc reported = (if reported then Some (Ok acc) else None)"
| "mount_stats_loop ops st (b # bs) acc reported =
     (case v_stats (ops b) (st b) of
        None \<Rightarrow> mount_stats_loop ops st bs acc reported
      | Some (Inl f) \<Rightarrow> Some (Inl f)
      | Some (Inr stats) \<Rightarrow>
          (case checked_add (st_used_bytes acc) (st_used_bytes stats) of
             None \<Rightarrow> Some (Err ENOSPC)
           | Some used \<Rightarrow>
               (case checked_add (st_file_count acc) (st_file_count stats) of
                  None \<Rightarrow> Some (Err ENOSPC)
                | Some n \<Rightarrow>
                    mount_stats_loop ops st bs \<lparr>st_used_bytes = used, st_file_count = n\<rparr> True)))"

definition mount_stats :: "(backend \<Rightarrow> 's vfs_ops) \<Rightarrow> 's mount_sys \<Rightarrow> vfs_stats vres option" where
  "mount_stats ops y =
     mount_stats_loop ops (snd y) (map snd (mv_mounts (fst y)))
       \<lparr>st_used_bytes = 0, st_file_count = 0\<rparr> False"

end
