(* ===== verification/Mount_Spec.thy ===== *)
theory Mount_Spec
  imports Mount_Vfs
begin

text \<open>
  The mount table routes every path to one backend, as a path that stays inside it, keeps
  the mount points fixed, and gives out handles that are never zero and never in use.
\<close>

subsection \<open>Handles\<close>

lemma unat_le_max: "unat (w :: 64 word) \<le> u64_max"
  using unsigned_less [of w, where 'a = nat] by (simp add: u64_max_def)

lemma unat_of_nat_max:
  assumes "n \<le> u64_max"
  shows "unat (of_nat n :: 64 word) = n"
proof -
  have "n < 2 ^ 64" using assms by (simp add: u64_max_def)
  then show ?thesis by (simp add: unat_of_nat)
qed

lemma loop_finds:
  "next + of_nat k = w \<Longrightarrow> w \<noteq> 0 \<Longrightarrow> bm_get hs (unat w) = None \<Longrightarrow>
   \<exists>h next'. insert_handle_loop hs next = Some (h, next') \<and> h \<noteq> 0 \<and> h \<le> u64_max \<and> bm_get hs h = None"
proof (induction k arbitrary: "next")
  case 0
  then show ?case
    using unat_le_max [of w] by (subst insert_handle_loop.simps) (simp add: Let_def unat_gt_0)
next
  case (Suc k)
  have "(next + 1) + of_nat k = w" using Suc.prems(1) by (simp add: ac_simps)
  from Suc.IH [OF this Suc.prems(2,3)] show ?case
    using unat_le_max [of "next"]
    by (subst insert_handle_loop.simps) (auto simp: Let_def unat_gt_0)
qed

lemma free_word:
  assumes "length hs < u64_max"
  shows "\<exists>w :: 64 word. w \<noteq> 0 \<and> bm_get hs (unat w) = None"
proof (rule ccontr)
  assume none: "\<not> ?thesis"
  have used: "bm_get hs (unat w) \<noteq> None" if "w \<noteq> 0" for w :: "64 word"
  proof
    assume "bm_get hs (unat w) = None"
    with that have "w \<noteq> 0 \<and> bm_get hs (unat w) = None" ..
    then have "\<exists>w :: 64 word. w \<noteq> 0 \<and> bm_get hs (unat w) = None" by (rule exI [of _ w])
    with none show False ..
  qed
  have "{1..u64_max} \<subseteq> fst ` set hs"
  proof
    fix n assume n: "n \<in> {1..u64_max}"
    then have b: "1 \<le> n" "n \<le> u64_max" by auto
    then have u: "unat (of_nat n :: 64 word) = n" by (intro unat_of_nat_max)
    then have "(of_nat n :: 64 word) \<noteq> 0" using b(1) by (metis not_one_le_zero unat_0)
    from used [OF this] show "n \<in> fst ` set hs" unfolding u by (metis map_of_eq_None_iff)
  qed
  then have "card {1..u64_max} \<le> card (fst ` set hs)" by (intro card_mono) auto
  also have "\<dots> \<le> length hs" by (meson card_image_le card_length finite_set le_trans)
  finally show False using assms by simp
qed

lemma insert_handle_total:
  assumes "length (mv_handles v) < u64_max"
  shows "\<exists>v' h. insert_handle v b inner = Some (v', h) \<and> h \<noteq> 0 \<and> h \<le> u64_max
     \<and> bm_get (mv_handles v) h = None
     \<and> mv_handles v' = bm_insert h \<lparr>mh_vfs = b, mh_inner = inner\<rparr> (mv_handles v)
     \<and> mv_mounts v' = mv_mounts v \<and> mv_fast v' = mv_fast v"
proof -
  obtain w :: "64 word" where w: "w \<noteq> 0" "bm_get (mv_handles v) (unat w) = None"
    using free_word [OF assms] by blast
  have "mv_next_handle v + of_nat (unat (w - mv_next_handle v)) = w" by simp
  from loop_finds [OF this w] show ?thesis by (auto simp: insert_handle_def)
qed

subsection \<open>Routing\<close>

text \<open>Where a path leads: the backend and the components below its mount point.\<close>

lemma mounted_path_Some:
  "mounted_path v p = Ok (Some mp) \<longleftrightarrow>
   (\<exists>name rest b. normalize_path p = Ok (name # rest) \<and> bm_get (mv_mounts v) name = Some b
     \<and> mp = \<lparr>mp_mount = name, mp_vfs = b, mp_inner = render_path rest, mp_at_mount = (rest = [])\<rparr>)"
  by (cases "normalize_path p")
    (auto simp: mounted_path_def Let_def render_path_def split: list.splits option.splits)

lemma mounted_path_None: "mounted_path v p = Ok None \<longleftrightarrow> normalize_path p = Ok []"
  by (cases "normalize_path p")
    (auto simp: mounted_path_def Let_def render_path_def split: list.splits option.splits)

lemma mounted_path_Err:
  "mounted_path v p = Inl f \<longleftrightarrow> normalize_path p = Inl f \<or>
   (\<exists>name rest. normalize_path p = Ok (name # rest) \<and> bm_get (mv_mounts v) name = None
      \<and> f = Errno ENOENT)"
  by (cases "normalize_path p")
    (auto simp: mounted_path_def Let_def render_path_def split: list.splits option.splits)

text \<open>An outcome that touched at most the backend \<open>b\<close> and left the mount table alone.\<close>

definition only_backend :: "'s mount_sys \<Rightarrow> backend \<Rightarrow> 's mount_sys \<Rightarrow> bool" where
  "only_backend y b y' \<longleftrightarrow> mv_mounts (fst y') = mv_mounts (fst y) \<and> (\<forall>c. c \<noteq> b \<longrightarrow> snd y' c = snd y c)"

lemma only_backend_refl [simp]: "only_backend y b y"
  by (simp add: only_backend_def)

lemma only_backend_call [simp]: "only_backend y b (fst (on_backend y b f))"
  by (simp add: only_backend_def on_backend_def split: prod.splits)

subsection \<open>Calls\<close>

datatype mount_call =
  MStat rstr | MReaddir rstr | MMkdir rstr | MRename rstr rstr | MUnlink rstr | MRmdir rstr
  | MOpen rstr open_mode | MRead file_handle nat nat | MWrite file_handle nat "byte list"
  | MTruncate file_handle nat | MClose file_handle | MAbort file_handle

fun mount_exec ::
  "(backend \<Rightarrow> 's vfs_ops) \<Rightarrow> 's mount_sys \<Rightarrow> mount_call \<Rightarrow> ('s mount_sys \<times> unit vres) option" where
  "mount_exec ops y (MStat p) = Some (apsnd void (mount_stat ops y p))"
| "mount_exec ops y (MReaddir p) = Some (apsnd void (mount_readdir ops y p))"
| "mount_exec ops y (MMkdir p) = Some (mount_mkdir ops y p)"
| "mount_exec ops y (MRename p p') = Some (mount_rename ops y p p')"
| "mount_exec ops y (MUnlink p) = Some (mount_unlink ops y p)"
| "mount_exec ops y (MRmdir p) = Some (mount_rmdir ops y p)"
| "mount_exec ops y (MOpen p m) = map_option (apsnd void) (mount_open ops y p m)"
| "mount_exec ops y (MRead h off n) = Some (apsnd void (mount_read_at ops y h off n))"
| "mount_exec ops y (MWrite h off d) = Some (apsnd void (mount_write_at ops y h off d))"
| "mount_exec ops y (MTruncate h n) = Some (mount_truncate ops y h n)"
| "mount_exec ops y (MClose h) = Some (mount_close ops y h)"
| "mount_exec ops y (MAbort h) = Some (mount_abort ops y h)"

text \<open>A run stops when a call panics or does not return.\<close>

fun mount_run ::
  "(backend \<Rightarrow> 's vfs_ops) \<Rightarrow> 's mount_sys \<Rightarrow> mount_call list \<Rightarrow> 's mount_sys option" where
  "mount_run ops y [] = Some y"
| "mount_run ops y (c # cs) =
     (case mount_exec ops y c of
        None \<Rightarrow> None
      | Some (y', r) \<Rightarrow> if r = Inl Panic then None else mount_run ops y' cs)"

lemma returns_in_void: "returns_in P out \<Longrightarrow> returns_in P (apsnd void out)"
  by (cases out; cases "snd out") (auto simp: returns_in_def)

lemma insert_handle_mounts:
  "insert_handle v b inner = Some (v', h) \<Longrightarrow>
   bm_wf (mv_handles v) \<Longrightarrow> bm_wf (mv_handles v') \<and> mv_mounts v' = mv_mounts v"
  by (auto simp: insert_handle_def split: option.splits)

subsection \<open>Clients of the mount table\<close>

locale mount_backends =
  fixes ops :: "backend \<Rightarrow> 's vfs_ops" and valid :: "backend \<Rightarrow> 's \<Rightarrow> bool"
  assumes backend: "vfs_backend (ops b) (valid b)"
begin

definition all_valid :: "'s mount_sys \<Rightarrow> bool" where
  "all_valid y \<longleftrightarrow> bm_wf (mv_handles (fst y)) \<and> (\<forall>b. valid b (snd y b))"

lemma call_valid:
  assumes "all_valid y" and "\<And>s. valid b s \<Longrightarrow> returns_in (valid b) (f s)"
  shows "returns_in all_valid (on_backend y b f)"
  using assms(1) assms(2) [of "snd y b"]
  by (auto simp: returns_in_def all_valid_def on_backend_def split: prod.splits)

lemma paths_valid:
  assumes "all_valid y"
  shows "returns_in all_valid (mount_stat ops y p)" "returns_in all_valid (mount_readdir ops y p)"
    "returns_in all_valid (mount_mkdir ops y p)" "returns_in all_valid (mount_unlink ops y p)"
    "returns_in all_valid (mount_rmdir ops y p)" "returns_in all_valid (mount_rename ops y p p')"
  unfolding mount_stat_def mount_readdir_def mount_mkdir_def mount_unlink_def mount_rmdir_def
    mount_rename_def
  using assms backend
  by (auto intro!: returns_in_attempt call_valid split: option.split sum.split
      simp: vfs_backend_def returns_in_def [of _ "(_, _)"])

lemma handles_valid:
  assumes "all_valid y"
  shows "returns_in all_valid (mount_read_at ops y h off n)"
    "returns_in all_valid (mount_write_at ops y h off d)"
    "returns_in all_valid (mount_truncate ops y h n)"
    "returns_in all_valid (mount_close ops y h)" "returns_in all_valid (mount_abort ops y h)"
proof -
  have drop: "all_valid ((fst y)\<lparr>mv_handles := bm_remove h (mv_handles (fst y))\<rparr>, snd y)"
    using assms by (simp add: all_valid_def)
  show "returns_in all_valid (mount_read_at ops y h off n)"
    "returns_in all_valid (mount_write_at ops y h off d)"
    "returns_in all_valid (mount_truncate ops y h n)"
    unfolding mount_read_at_def mount_write_at_def mount_truncate_def
    using assms backend
    by (auto intro!: returns_in_attempt call_valid split: prod.split simp: vfs_backend_def)
  show "returns_in all_valid (mount_close ops y h)" "returns_in all_valid (mount_abort ops y h)"
    unfolding mount_close_def mount_abort_def mount_release_def Let_def
    using assms drop backend
    by (auto intro!: returns_in_attempt call_valid simp: vfs_backend_def)
qed

lemma open_valid:
  assumes "all_valid y" and "mount_open ops y p mode = Some out"
  shows "returns_in all_valid out"
proof (cases "obind (mounted_path (fst y) p) (ok_or EISDIR)")
  case (Inl f)
  then show ?thesis using assms by (auto simp: mount_open_def returns_in_def)
next
  case (Inr mp)
  let ?out = "on_backend y (mp_vfs mp) (\<lambda>s. v_open (ops (mp_vfs mp)) s (mp_inner mp) mode)"
  have v: "returns_in all_valid ?out"
    using assms(1) backend by (intro call_valid) (auto simp: vfs_backend_def)
  obtain y' r where out: "?out = (y', r)" by fastforce
  show ?thesis
    using assms v Inr out insert_handle_mounts [of "fst y'" "mp_vfs mp"]
    by (cases "mp_at_mount mp"; cases r)
      (auto simp: mount_open_def returns_in_def all_valid_def split: option.splits)
qed

lemma exec_valid:
  assumes "all_valid y" and "mount_exec ops y c = Some out"
  shows "returns_in all_valid out"
proof (cases c)
  case (MOpen p m)
  then obtain o' where "mount_open ops y p m = Some o'" "out = apsnd void o'" using assms by auto
  then show ?thesis using returns_in_void [OF open_valid [OF assms(1)]] by simp
qed (use assms(2) paths_valid [OF assms(1)] handles_valid [OF assms(1)] in
    \<open>auto intro: returns_in_void\<close>)

lemma run_valid: "all_valid y \<Longrightarrow> mount_run ops y cs = Some y' \<Longrightarrow> all_valid y'"
proof (induction cs arbitrary: y)
  case (Cons c cs)
  then obtain y1 r where y1: "mount_exec ops y c = Some (y1, r)" "r \<noteq> Inl Panic"
      "mount_run ops y1 cs = Some y'"
    by (auto split: option.splits prod.splits if_splits)
  then have "all_valid y1" using exec_valid [OF Cons.prems(1) y1(1)] by (simp add: returns_in_def)
  then show ?case using Cons.IH y1(3) by blast
qed simp

end

interpretation mem_mounts: mount_backends "\<lambda>b. mem_ops (qs b)" "\<lambda>b. mem_valid (qs b)" for qs
  by (rule mount_backends.intro) (rule mem.vfs_backend_axioms)

subsection \<open>Properties\<close>

text \<open>Two in-memory backends behind three names, for the concrete instances.\<close>

definition demo_mounts :: mounted_vfs where
  "demo_mounts = \<lparr>mv_mounts = [(rs ''a'', 0), (rs ''b'', 1), (rs ''c'', 0)],
     mv_handles = [], mv_next_handle = first_handle, mv_fast = True\<rparr>"

definition demo_mount_sys :: "mem_state mount_sys" where
  "demo_mount_sys = (demo_mounts, \<lambda>_. state_default)"

abbreviation demo_ops :: "backend \<Rightarrow> mem_state vfs_ops" where
  "demo_ops \<equiv> \<lambda>_. mem_ops demo_quota"

lemmas mount_eval = demo_mount_sys_def demo_mounts_def first_handle_def mounted_path_def
  normalize_path_def max_path_depth_def render_path_def on_backend_def mem_ops_def
  directory_metadata_def insert_handle_def insert_handle_loop.simps demo_quota_def mem_eval

text \<open>
  C10: a mounted path is forwarded to the backend of its first component, as a path whose
  normal form is exactly the remaining components: no \<open>..\<close>, \<open>.\<close> or doubled slash in the
  request can lead outside the mount.
\<close>

theorem mount_routes_inside:
  assumes "mounted_path v p = Ok (Some mp)"
  shows "\<exists>rest. normalize_path p = Ok (mp_mount mp # rest)
    \<and> bm_get (mv_mounts v) (mp_mount mp) = Some (mp_vfs mp)
    \<and> normalize_path (mp_inner mp) = Ok rest \<and> mp_at_mount mp = (rest = [])"
proof -
  obtain name rest b where r: "normalize_path p = Ok (name # rest)"
      "bm_get (mv_mounts v) name = Some b"
      "mp = \<lparr>mp_mount = name, mp_vfs = b, mp_inner = render_path rest, mp_at_mount = (rest = [])\<rparr>"
    using assms by (auto simp: mounted_path_Some)
  have "valid_components rest"
    using normalize_path_valid [OF r(1)] by (auto simp: valid_components_def)
  then show ?thesis using r normalize_render by auto
qed

theorem mount_routes_inside_witness:
  "\<exists>mp. mounted_path demo_mounts (rs ''/x/../a//y/./z'') = Ok (Some mp) \<and> mp_vfs mp = 0
    \<and> normalize_path (mp_inner mp) = Ok [rs ''y'', rs ''z'']"
  using mount_routes_inside [of demo_mounts "rs ''/x/../a//y/./z''"] by (simp add: mount_eval)

text \<open>
  C11: an operation on a path below one mount changes no other backend and never the mount
  table, whatever the backends do.
\<close>

theorem mount_isolates:
  assumes "normalize_path p = Ok (name # rest)" and "bm_get (mv_mounts (fst y)) name = Some b"
  shows "only_backend y b (fst (mount_stat ops y p)) \<and> only_backend y b (fst (mount_readdir ops y p))
    \<and> only_backend y b (fst (mount_mkdir ops y p)) \<and> only_backend y b (fst (mount_unlink ops y p))
    \<and> only_backend y b (fst (mount_rmdir ops y p)) \<and> only_backend y b (fst (mount_rename ops y p p'))
    \<and> (\<forall>out\<in>set_option (mount_open ops y p mode). only_backend y b (fst out))"
proof -
  have mp: "mounted_path (fst y) p = Ok (Some \<lparr>mp_mount = name, mp_vfs = b,
      mp_inner = render_path rest, mp_at_mount = (rest = [])\<rparr>)"
    using assms by (simp add: mounted_path_Some)
  have "only_backend y b (fst (mount_rename ops y p p'))"
    unfolding mount_rename_def mp by (auto intro!: fst_attempt [where P = "only_backend y b"])
  moreover have "only_backend y b (fst out)" if "mount_open ops y p mode = Some out" for out
  proof -
    obtain y' r where r: "on_backend y b (\<lambda>s. v_open (ops b) s (render_path rest) mode) = (y', r)"
      by fastforce
    have "only_backend y b y'" using only_backend_call [of y b] r by (metis fst_conv)
    then show ?thesis
      using that mp r
      by (cases "rest = []"; cases r)
        (auto simp: mount_open_def only_backend_def insert_handle_def split: option.splits)
  qed
  ultimately show ?thesis
    by (auto simp: mount_stat_def mount_readdir_def mount_mkdir_def mount_unlink_def
        mount_rmdir_def mp)
qed

theorem mount_isolates_witness:
  "snd (fst (mount_mkdir demo_ops demo_mount_sys (rs ''/a/d''))) 1 = state_default
   \<and> mem_stat (snd (fst (mount_mkdir demo_ops demo_mount_sys (rs ''/a/d''))) 0) (rs ''/d'') =
       Ok directory_metadata"
  using mount_isolates [of "rs ''/a/d''" "rs ''a''" "[rs ''d'']" demo_mount_sys 0 demo_ops]
  by (simp add: mount_eval only_backend_def mount_mkdir_def mem_stat_def metadata_for_node_def)

text \<open>
  C12: the root and the mount points cannot be changed through the mount table: creating,
  removing, renaming or opening one fails with the documented errno and changes nothing.
\<close>

theorem mount_points_fixed:
  fixes y :: "'s mount_sys"
  assumes "normalize_path p = Ok cs" and "length cs \<le> 1"
  defines "known \<equiv> cs = [] \<or> bm_get (mv_mounts (fst y)) (hd cs) \<noteq> None"
  shows "mount_mkdir ops y p = (y, Err (if cs \<noteq> [] \<and> known then EEXIST else EACCES))
    \<and> mount_unlink ops y p = (y, Err (if known then EISDIR else ENOENT))
    \<and> mount_rmdir ops y p = (y, Err (if known then EBUSY else ENOENT))
    \<and> mount_rename ops y p p' = (y, Err (if known then EBUSY else ENOENT))
    \<and> mount_open ops y p mode = Some (y, Err (if known then EISDIR else ENOENT))"
proof (cases cs)
  case Nil
  then have "mounted_path (fst y) p = Ok None" using assms(1) by (simp add: mounted_path_None)
  then show ?thesis
    using Nil by (simp add: known_def mount_mkdir_def mount_unlink_def mount_rmdir_def
        mount_rename_def mount_open_def)
next
  case (Cons name rest)
  then have rest: "rest = []" using assms(2) by simp
  show ?thesis
  proof (cases "bm_get (mv_mounts (fst y)) name")
    case None
    then have "mounted_path (fst y) p = Err ENOENT"
      using assms(1) Cons by (simp add: mounted_path_Err)
    then show ?thesis
      using Cons None by (simp add: known_def mount_mkdir_def mount_unlink_def mount_rmdir_def
          mount_rename_def mount_open_def)
  next
    case (Some b)
    then have "mounted_path (fst y) p = Ok (Some \<lparr>mp_mount = name, mp_vfs = b,
        mp_inner = render_path [], mp_at_mount = True\<rparr>)"
      using assms(1) Cons rest by (simp add: mounted_path_Some)
    then show ?thesis
      using Cons Some by (simp add: known_def mount_mkdir_def mount_unlink_def mount_rmdir_def
          mount_rename_def mount_open_def)
  qed
qed

theorem mount_points_fixed_witness:
  "mount_mkdir demo_ops demo_mount_sys (rs ''/a'') = (demo_mount_sys, Err EEXIST)
   \<and> mount_rmdir demo_ops demo_mount_sys (rs ''/z'') = (demo_mount_sys, Err ENOENT)
   \<and> mount_unlink demo_ops demo_mount_sys (rs ''/'') = (demo_mount_sys, Err EISDIR)"
  using mount_points_fixed [where y = demo_mount_sys and ops = demo_ops and p = "rs ''/a''" and cs = "[rs ''a'']"]
    mount_points_fixed [where y = demo_mount_sys and ops = demo_ops and p = "rs ''/z''" and cs = "[rs ''z'']"]
    mount_points_fixed [where y = demo_mount_sys and ops = demo_ops and p = "rs ''/''" and cs = "[]"]
  by (simp add: mount_eval)

text \<open>
  A rename between two mount names is \<open>EXDEV\<close> and changes nothing, also when both names
  lead to the same backend; within one mount name it is the backend's rename.
\<close>

theorem mount_rename_spec:
  assumes "normalize_path from = Ok (m # r)" and "bm_get (mv_mounts (fst y)) m = Some b" and "r \<noteq> []"
    and "normalize_path to = Ok (m' # r')" and "bm_get (mv_mounts (fst y)) m' = Some b'" and "r' \<noteq> []"
  shows "mount_rename ops y from to =
    (if m \<noteq> m' then (y, Err EXDEV)
     else on_backend y b (\<lambda>s. v_rename (ops b) s (render_path r) (render_path r')))"
proof -
  have "mounted_path (fst y) from = Ok (Some \<lparr>mp_mount = m, mp_vfs = b,
      mp_inner = render_path r, mp_at_mount = False\<rparr>)"
    "mounted_path (fst y) to = Ok (Some \<lparr>mp_mount = m', mp_vfs = b',
      mp_inner = render_path r', mp_at_mount = False\<rparr>)"
    using assms by (simp_all add: mounted_path_Some)
  then show ?thesis by (simp add: mount_rename_def)
qed

theorem mount_rename_spec_witness:
  "mount_rename demo_ops demo_mount_sys (rs ''/a/f'') (rs ''/c/f'') = (demo_mount_sys, Err EXDEV)"
  using mount_rename_spec [of "rs ''/a/f''" "rs ''a''" "[rs ''f'']" demo_mount_sys 0
      "rs ''/c/f''" "rs ''c''" "[rs ''f'']" 0 demo_ops]
  by (simp add: mount_eval)

text \<open>
  C13: while fewer than \<open>2 ^ 64 - 1\<close> handles are open, the search for a handle number ends, also
  after the counter has wrapped around; the handle returned is not zero, not in use, and
  from then on stands for the backend's handle: reads, writes and truncations through it are
  the backend's, and all other handles keep their meaning.
\<close>

theorem mount_open_handle:
  assumes "length (mv_handles (fst y)) < u64_max"
    and "normalize_path p = Ok (m # r)" and "bm_get (mv_mounts (fst y)) m = Some b" and "r \<noteq> []"
    and "v_open (ops b) (snd y b) (render_path r) mode = (s', Ok inner)"
  shows "\<exists>v h. mount_open ops y p mode = Some ((v, (snd y)(b := s')), Ok h)
    \<and> h \<noteq> 0 \<and> bm_get (mv_handles (fst y)) h = None
    \<and> (\<forall>off n. mount_read_at ops (v, (snd y)(b := s')) h off n =
         on_backend (v, (snd y)(b := s')) b (\<lambda>s. v_read_at (ops b) s inner off n))
    \<and> (\<forall>off d. mount_write_at ops (v, (snd y)(b := s')) h off d =
         on_backend (v, (snd y)(b := s')) b (\<lambda>s. v_write_at (ops b) s inner off d))
    \<and> (\<forall>g. g \<noteq> h \<longrightarrow> mv_handle v g = mv_handle (fst y) g)"
proof -
  have mp: "mounted_path (fst y) p = Ok (Some \<lparr>mp_mount = m, mp_vfs = b,
      mp_inner = render_path r, mp_at_mount = False\<rparr>)"
    using assms(2-4) by (simp add: mounted_path_Some)
  obtain v h where ih: "insert_handle (fst y) b inner = Some (v, h)" "h \<noteq> 0"
      "bm_get (mv_handles (fst y)) h = None"
      "mv_handles v = bm_insert h \<lparr>mh_vfs = b, mh_inner = inner\<rparr> (mv_handles (fst y))"
    using insert_handle_total [OF assms(1), of b inner] by blast
  then show ?thesis
    using mp assms(5)
    by (auto simp: mount_open_def on_backend_def mount_read_at_def mount_write_at_def mv_handle_def)
qed

theorem mount_open_handle_witness:
  "\<exists>y' h. mount_open demo_ops demo_mount_sys (rs ''/b/f'') (om_set_create om_read_write) = Some (y', Ok h)
    \<and> h \<noteq> 0 \<and> snd (mount_read_at demo_ops y' h 0 4) = Ok []"
  using mount_open_handle [of demo_mount_sys "rs ''/b/f''" "rs ''b''" "[rs ''f'']" 1 demo_ops
      "om_set_create om_read_write"]
  by (auto simp: mount_eval)

text \<open>
  The statistics of the mount table are the sums over its mounts, \<open>ENOSPC\<close> when a sum does
  not fit, and absent when no backend reports any.
\<close>

lemma mount_stats_sum:
  fixes ops :: "backend \<Rightarrow> 's vfs_ops"
  assumes "\<And>b. b \<in> snd ` set (mv_mounts (fst y)) \<Longrightarrow> v_stats (ops b) (snd y b) = Some (Ok (st b))"
  defines "bs \<equiv> map snd (mv_mounts (fst y))"
  defines "used \<equiv> sum_list (map (\<lambda>b. st_used_bytes (st b)) bs)"
    and "nfiles \<equiv> sum_list (map (\<lambda>b. st_file_count (st b)) bs)"
  shows "mount_stats ops y =
    (if bs = [] then None
     else if used \<le> u64_max \<and> nfiles \<le> u64_max
       then Some (Ok \<lparr>st_used_bytes = used, st_file_count = nfiles\<rparr>)
     else Some (Err ENOSPC))"
proof -
  have loop: "mount_stats_loop ops (snd y) cs acc rep =
      (if cs = [] \<and> \<not> rep then None
       else if st_used_bytes acc + sum_list (map (\<lambda>b. st_used_bytes (st b)) cs) \<le> u64_max
         \<and> st_file_count acc + sum_list (map (\<lambda>b. st_file_count (st b)) cs) \<le> u64_max
       then Some (Ok \<lparr>st_used_bytes = st_used_bytes acc + sum_list (map (\<lambda>b. st_used_bytes (st b)) cs),
           st_file_count = st_file_count acc + sum_list (map (\<lambda>b. st_file_count (st b)) cs)\<rparr>)
       else Some (Err ENOSPC))"
    if "set cs \<subseteq> set bs" "st_used_bytes acc \<le> u64_max" "st_file_count acc \<le> u64_max" for cs acc rep
    using that
  proof (induction cs arbitrary: acc rep)
    case Nil
    then show ?case by (cases acc) simp
  next
    case (Cons c cs)
    have "v_stats (ops c) (snd y c) = Some (Ok (st c))"
      using Cons.prems(1) assms(1) [of c] by (auto simp: bs_def)
    then show ?case using Cons by (auto simp: checked_add_def add.assoc)
  qed
  show ?thesis
    using loop [of bs "\<lparr>st_used_bytes = 0, st_file_count = 0\<rparr>" False]
    by (simp add: mount_stats_def bs_def used_def nfiles_def)
qed

lemma mount_stats_sum_witness:
  "mount_stats demo_ops (demo_mounts, \<lambda>_. live demo_sys) =
     Some (Ok \<lparr>st_used_bytes = 15, st_file_count = 6\<rparr>)"
  using mount_stats_sum [where y = "(demo_mounts, \<lambda>_. live demo_sys)" and ops = demo_ops and
      st = "\<lambda>_. \<lparr>st_used_bytes = 5, st_file_count = 2\<rparr>"]
  by (simp add: mount_eval mem_stats_def demo_run)

text \<open>
  C14: whatever calls are made through a mount table over in-memory filesystems, in any order and
  on any of its mounts, every backend still satisfies its own invariant and quota.
\<close>

theorem mem_mounts_valid:
  assumes "\<forall>b. mem_valid (qs b) (snd y b)" and "bm_wf (mv_handles (fst y))"
    and "mount_run (\<lambda>b. mem_ops (qs b)) y cs = Some y'"
  shows "mem_inv (qs b) (snd y' b) \<and> used_bytes (snd y' b) \<le> max_bytes (qs b)"
proof -
  have "mem_mounts.all_valid qs y'"
    using mem_mounts.run_valid [OF _ assms(3)] assms(1,2) by (simp add: mem_mounts.all_valid_def)
  then have inv: "mem_inv (qs b) (snd y' b)" by (simp add: mem_mounts.all_valid_def mem_valid_def)
  then show ?thesis
    using inv_usage [OF inv [unfolded mem_inv_def]] by (simp add: usage_ok_def)
qed

theorem mem_mounts_valid_witness:
  "\<exists>y'. mount_run demo_ops demo_mount_sys
      [MMkdir (rs ''/a/d''), MOpen (rs ''/b/f'') (om_set_create om_write_only), MWrite 1 0 [7]] = Some y'
    \<and> mem_inv demo_quota (snd y' 1) \<and> used_bytes (snd y' 1) = 1"
proof -
  let ?cs = "[MMkdir (rs ''/a/d''), MOpen (rs ''/b/f'') (om_set_create om_write_only), MWrite 1 0 [7]]"
  have run: "\<exists>y'. mount_run demo_ops demo_mount_sys ?cs = Some y' \<and> used_bytes (snd y' 1) = 1"
    by (simp add: mount_eval mount_mkdir_def mount_open_def mount_write_at_def mv_handle_def)
  have "\<forall>b. mem_valid demo_quota (snd demo_mount_sys b)" "bm_wf (mv_handles (fst demo_mount_sys))"
    by (simp_all add: demo_mount_sys_def demo_mounts_def mem_valid_def demo_quota_safe mem_inv_init)
  from mem_mounts_valid [OF this, of ?cs _ 1] run show ?thesis by blast
qed

end
