(* ===== verification/Shell_Syntax.thy ===== *)
theory Shell_Syntax
  imports Tiny_Prelude
begin

text \<open>
  The syntax tree and the parse errors of \<open>src/shell/mod.rs\<close>. Positions are byte offsets
  into the input.
\<close>

datatype segment =
  Literal rstr bool
| Expansion rstr bool

primrec seg_quoted :: "segment \<Rightarrow> bool" where
  "seg_quoted (Literal v q) = q"
| "seg_quoted (Expansion n q) = q"

record sh_word =
  segments :: "segment list"

datatype redirect_op = RRead | RWrite | RAppend

datatype redirect_target = TWord sh_word | TFd nat

record redirect =
  rd_fd :: "nat option"
  rd_op :: redirect_op
  rd_target :: redirect_target

record assignment =
  as_name :: rstr
  as_value :: sh_word

record simple_command =
  sc_assignments :: "assignment list"
  sc_words :: "sh_word list"
  sc_redirects :: "redirect list"

datatype command = Simple simple_command

record pipeline =
  commands :: "command list"

datatype and_or_op = And | Or

record and_or =
  ao_op :: and_or_op
  ao_pipeline :: pipeline

record and_or_list =
  al_first :: pipeline
  al_rest :: "and_or list"

record shell_program =
  lists :: "and_or_list list"

datatype quote_kind = SingleQ | DoubleQ

datatype unsupported_construct =
  Glob | CommandSubstitution | Backticks | Background | Subshell | BraceExpansion | Heredoc
  | TildeExpansion | ParameterExpansion | RedirectFdDup | AnsiCString | LocaleTranslation
  | AppendAssignment | PipelineNegation

datatype parse_error_kind =
  UnexpectedEof rstr
| UnexpectedToken rstr rstr
| MissingRedirectTarget
| UnterminatedQuote quote_kind
| UnterminatedEscape
| UnterminatedBracedExpansion
| InvalidParameterExpansion
| InvalidFileDescriptor
| AmbiguousRedirect
| Unsupported unsupported_construct

record parse_error =
  pe_position :: nat
  pe_kind :: parse_error_kind

type_synonym 'a pres = "(parse_error, 'a) outcome"

abbreviation perr :: "nat \<Rightarrow> parse_error_kind \<Rightarrow> 'a pres" where
  "perr pos k \<equiv> Err \<lparr>pe_position = pos, pe_kind = k\<rparr>"

fun show_unsupported :: "unsupported_construct \<Rightarrow> rstr" where
  "show_unsupported Glob = rs ''glob pattern''"
| "show_unsupported CommandSubstitution = rs ''command substitution''"
| "show_unsupported Backticks = rs ''backtick command substitution''"
| "show_unsupported Background = rs ''background execution''"
| "show_unsupported Subshell = rs ''subshell syntax''"
| "show_unsupported BraceExpansion = rs ''brace expansion''"
| "show_unsupported Heredoc = rs ''heredoc''"
| "show_unsupported TildeExpansion = rs ''tilde expansion''"
| "show_unsupported ParameterExpansion = rs ''parameter expansion''"
| "show_unsupported RedirectFdDup = rs ''redirect fd duplication''"
| "show_unsupported AnsiCString = rs ''ANSI-C quoting''"
| "show_unsupported LocaleTranslation = rs ''locale translation quoting''"
| "show_unsupported AppendAssignment = rs ''append assignment''"
| "show_unsupported PipelineNegation = rs ''pipeline negation''"

fun show_error_kind :: "parse_error_kind \<Rightarrow> rstr" where
  "show_error_kind (UnexpectedEof e) = rs ''expected '' @ e @ rs '', found end of input''"
| "show_error_kind (UnexpectedToken e f) = rs ''expected '' @ e @ rs '', found '' @ f"
| "show_error_kind MissingRedirectTarget = rs ''missing redirect target''"
| "show_error_kind (UnterminatedQuote SingleQ) = rs ''unterminated single quote''"
| "show_error_kind (UnterminatedQuote DoubleQ) = rs ''unterminated double quote''"
| "show_error_kind UnterminatedEscape = rs ''unterminated escape''"
| "show_error_kind UnterminatedBracedExpansion = rs ''unterminated braced parameter expansion''"
| "show_error_kind InvalidParameterExpansion = rs ''invalid or unsupported parameter expansion''"
| "show_error_kind InvalidFileDescriptor = rs ''invalid file descriptor''"
| "show_error_kind AmbiguousRedirect = rs ''ambiguous redirect''"
| "show_error_kind (Unsupported c) = rs ''unsupported '' @ show_unsupported c"

definition show_parse_error :: "parse_error \<Rightarrow> rstr" where
  "show_parse_error e =
     rs ''parse error at byte '' @ show_nat (pe_position e) @ rs '': '' @ show_error_kind (pe_kind e)"

end
