(* ===== verification/Shell_Lex.thy ===== *)
theory Shell_Lex
  imports Shell_Syntax
begin

text \<open>
  The lexer of \<open>src/shell/lex.rs\<close>. The code keeps a byte position into the input; the model
  keeps the position together with the rest of the input at that position, so that
  \<open>peek_char\<close> is the head of the rest and the position stays a byte offset.
\<close>

record redirect_token =
  rt_fd :: "nat option"
  rt_op :: redirect_op
  rt_target_fd :: "nat option"

datatype token_kind =
  TkWord sh_word | TkPipe | TkAndIf | TkOrIf | TkSemi | TkNewline | TkRedirect redirect_token

record token =
  tk_kind :: token_kind
  tk_position :: nat

fun tk_description :: "token_kind \<Rightarrow> rstr" where
  "tk_description (TkWord _) = rs ''word''"
| "tk_description TkPipe = [96, 124, 96]"
| "tk_description TkAndIf = [96, 38, 38, 96]"
| "tk_description TkOrIf = [96, 124, 124, 96]"
| "tk_description TkSemi = [96, 59, 96]"
| "tk_description TkNewline = rs ''newline''"
| "tk_description (TkRedirect _) = rs ''redirect''"

text \<open>The characters the lexer distinguishes.\<close>

abbreviation c_tab :: rchar where "c_tab \<equiv> 9"
abbreviation c_nl :: rchar where "c_nl \<equiv> 10"
abbreviation c_space :: rchar where "c_space \<equiv> 32"
abbreviation c_dquote :: rchar where "c_dquote \<equiv> 34"
abbreviation c_hash :: rchar where "c_hash \<equiv> 35"
abbreviation c_dollar :: rchar where "c_dollar \<equiv> 36"
abbreviation c_amp :: rchar where "c_amp \<equiv> 38"
abbreviation c_squote :: rchar where "c_squote \<equiv> 39"
abbreviation c_lparen :: rchar where "c_lparen \<equiv> 40"
abbreviation c_rparen :: rchar where "c_rparen \<equiv> 41"
abbreviation c_star :: rchar where "c_star \<equiv> 42"
abbreviation c_plus :: rchar where "c_plus \<equiv> 43"
abbreviation c_dash :: rchar where "c_dash \<equiv> 45"
abbreviation c_colon :: rchar where "c_colon \<equiv> 58"
abbreviation c_semi :: rchar where "c_semi \<equiv> 59"
abbreviation c_lt :: rchar where "c_lt \<equiv> 60"
abbreviation c_eq :: rchar where "c_eq \<equiv> 61"
abbreviation c_gt :: rchar where "c_gt \<equiv> 62"
abbreviation c_quest :: rchar where "c_quest \<equiv> 63"
abbreviation c_at :: rchar where "c_at \<equiv> 64"
abbreviation c_lbrack :: rchar where "c_lbrack \<equiv> 91"
abbreviation c_bslash :: rchar where "c_bslash \<equiv> 92"
abbreviation c_rbrack :: rchar where "c_rbrack \<equiv> 93"
abbreviation c_under :: rchar where "c_under \<equiv> 95"
abbreviation c_btick :: rchar where "c_btick \<equiv> 96"
abbreviation c_lbrace :: rchar where "c_lbrace \<equiv> 123"
abbreviation c_pipe :: rchar where "c_pipe \<equiv> 124"
abbreviation c_rbrace :: rchar where "c_rbrace \<equiv> 125"
abbreviation c_tilde :: rchar where "c_tilde \<equiv> 126"
abbreviation c_bang :: rchar where "c_bang \<equiv> 33"

definition is_name_start :: "rchar \<Rightarrow> bool" where
  "is_name_start ch \<longleftrightarrow> is_ascii_alphabetic ch \<or> ch = c_under"

definition is_name_continue :: "rchar \<Rightarrow> bool" where
  "is_name_continue ch \<longleftrightarrow> is_ascii_alphanumeric ch \<or> ch = c_under"

definition is_rejected_special_parameter :: "rchar \<Rightarrow> bool" where
  "is_rejected_special_parameter ch \<longleftrightarrow> ch \<in> {c_dollar, c_bang, c_hash, c_star, c_at, c_dash}"

definition is_word_break :: "rchar \<Rightarrow> bool" where
  "is_word_break ch \<longleftrightarrow> ch \<in> {c_space, c_tab, c_nl, c_pipe, c_amp, c_semi, c_lt, c_gt}"

fun peek_char :: "rstr \<Rightarrow> rchar option" where
  "peek_char [] = None"
| "peek_char (c # _) = Some c"

text \<open>\<open>skip_blanks\<close> and \<open>skip_comment\<close> move the cursor.\<close>

fun skip_blanks :: "rstr \<Rightarrow> nat \<Rightarrow> rstr \<times> nat" where
  "skip_blanks [] pos = ([], pos)"
| "skip_blanks (c # rest) pos =
     (if c = c_space \<or> c = c_tab then skip_blanks rest (pos + len_utf8 c) else (c # rest, pos))"

fun skip_comment :: "rstr \<Rightarrow> nat \<Rightarrow> rstr \<times> nat" where
  "skip_comment [] pos = ([], pos)"
| "skip_comment (c # rest) pos =
     (if c \<noteq> c_nl then skip_comment rest (pos + len_utf8 c) else (c # rest, pos))"

definition push_literal :: "segment list \<Rightarrow> rstr \<Rightarrow> bool \<Rightarrow> segment list" where
  "push_literal segs lit quoted =
     (if lit = [] \<and> \<not> quoted then segs
      else if lit \<noteq> [] \<and> segs \<noteq> [] then
        (case last segs of
           Literal v q \<Rightarrow>
             if q = quoted then butlast segs @ [Literal (v @ lit) quoted]
             else segs @ [Literal lit quoted]
         | Expansion _ _ \<Rightarrow> segs @ [Literal lit quoted])
      else segs @ [Literal lit quoted])"

definition push_literal_before_expansion :: "segment list \<Rightarrow> rstr \<Rightarrow> bool \<Rightarrow> segment list" where
  "push_literal_before_expansion segs lit quoted =
     (if lit \<noteq> [] then push_literal segs lit quoted else segs)"

definition parse_fd :: "nat \<Rightarrow> rstr \<Rightarrow> nat pres" where
  "parse_fd start ds =
     (case parse_unsigned u32_max ds of
        Some n \<Rightarrow> Ok n
      | None \<Rightarrow> perr start InvalidFileDescriptor)"

fun has_closing_bracket :: "rstr \<Rightarrow> bool" where
  "has_closing_bracket [] = False"
| "has_closing_bracket (ch # rest) =
     (if ch = c_rbrack then True else if is_word_break ch then False
      else has_closing_bracket rest)"

subsection \<open>Redirects\<close>

text \<open>The part of \<open>scan_redirect\<close> after the operator: \<open>&\<close> and a descriptor.\<close>

definition scan_fd_dup ::
  "nat option \<Rightarrow> redirect_op \<Rightarrow> nat \<Rightarrow> rstr \<Rightarrow> nat \<Rightarrow> (redirect_token \<times> rstr \<times> nat) option pres" where
  "scan_fd_dup fd op operator_position rest pos =
     (if peek_char rest = Some c_amp then
        if op \<noteq> RWrite then perr operator_position (Unsupported RedirectFdDup)
        else let ds = takeWhile is_ascii_digit (tl rest);
                 after = dropWhile is_ascii_digit (tl rest) in
          if ds = [] then perr operator_position (Unsupported RedirectFdDup)
          else if (case peek_char after of Some ch \<Rightarrow> \<not> is_word_break ch | None \<Rightarrow> False)
          then perr operator_position AmbiguousRedirect
          else obind (parse_fd (pos + 1) ds) (\<lambda>n.
            Ok (Some (\<lparr>rt_fd = fd, rt_op = op, rt_target_fd = Some n\<rparr>,
              after, pos + 1 + length ds)))
      else Ok (Some (\<lparr>rt_fd = fd, rt_op = op, rt_target_fd = None\<rparr>, rest, pos)))"

definition scan_operator ::
  "nat option \<Rightarrow> rstr \<Rightarrow> nat \<Rightarrow> (redirect_token \<times> rstr \<times> nat) option pres" where
  "scan_operator fd rest pos =
     (case rest of
        [] \<Rightarrow> Ok None
      | operator # after \<Rightarrow>
          if operator = c_lt then
            if peek_char after = Some c_lt then perr pos (Unsupported Heredoc)
            else scan_fd_dup fd RRead pos after (pos + 1)
          else if operator = c_gt then
            if peek_char after = Some c_gt then scan_fd_dup fd RAppend pos (tl after) (pos + 2)
            else scan_fd_dup fd RWrite pos after (pos + 1)
          else Ok None)"

definition scan_redirect ::
  "rstr \<Rightarrow> nat \<Rightarrow> (redirect_token \<times> rstr \<times> nat) option pres" where
  "scan_redirect rest pos =
     (let ds = takeWhile is_ascii_digit rest; after = dropWhile is_ascii_digit rest in
      if ds \<noteq> [] \<and> (peek_char after = Some c_lt \<or> peek_char after = Some c_gt)
      then obind (parse_fd pos ds) (\<lambda>fd. scan_operator (Some fd) after (pos + length ds))
      else scan_operator None rest pos)"

subsection \<open>Expansions\<close>

text \<open>
  An expansion starts at a \<open>$\<close>; \<open>rest\<close> is the input after it and \<open>pos\<close> the position of
  the \<open>$\<close>. The result is the rest, the position, the segments and the pending literal.
\<close>

type_synonym scanned = "rstr \<times> nat \<times> segment list \<times> rstr"

definition push_expansion :: "segment list \<Rightarrow> rstr \<Rightarrow> rstr \<Rightarrow> bool \<Rightarrow> segment list" where
  "push_expansion segs lit name quoted =
     push_literal_before_expansion segs lit quoted @ [Expansion name quoted]"

definition scan_braced_expansion ::
  "rstr \<Rightarrow> nat \<Rightarrow> bool \<Rightarrow> segment list \<Rightarrow> rstr \<Rightarrow> scanned pres" where
  "scan_braced_expansion rest pos quoted segs lit =
     (case rest of
        [] \<Rightarrow> perr pos UnterminatedBracedExpansion
      | first # after \<Rightarrow>
          if first = c_quest then
            if peek_char after \<noteq> Some c_rbrace then perr pos InvalidParameterExpansion
            else Ok (tl after, pos + 4, push_expansion segs lit (rs ''?'') quoted, [])
          else if is_ascii_digit first \<or> is_rejected_special_parameter first
          then perr pos (Unsupported ParameterExpansion)
          else if \<not> is_name_start first then perr pos InvalidParameterExpansion
          else let name = first # takeWhile is_name_continue after;
                   tail = dropWhile is_name_continue after in
            case peek_char tail of
              None \<Rightarrow> perr pos UnterminatedBracedExpansion
            | Some c \<Rightarrow>
                if c = c_rbrace then
                  if name = rs ''_'' then perr pos (Unsupported ParameterExpansion)
                  else Ok (tl tail, pos + 2 + length name + 1, push_expansion segs lit name quoted, [])
                else perr pos InvalidParameterExpansion)"

definition scan_expansion ::
  "rstr \<Rightarrow> nat \<Rightarrow> bool \<Rightarrow> segment list \<Rightarrow> rstr \<Rightarrow> scanned pres" where
  "scan_expansion rest pos quoted segs lit =
     (case rest of
        [] \<Rightarrow> Ok ([], pos + 1, segs, lit @ [c_dollar])
      | nx # after \<Rightarrow>
          if nx = c_lparen then perr pos (Unsupported CommandSubstitution)
          else if nx = c_squote \<and> \<not> quoted then perr pos (Unsupported AnsiCString)
          else if nx = c_dquote \<and> \<not> quoted then perr pos (Unsupported LocaleTranslation)
          else if nx = c_lbrace then scan_braced_expansion after pos quoted segs lit
          else if nx = c_quest then Ok (after, pos + 2, push_expansion segs lit (rs ''?'') quoted, [])
          else if is_name_start nx then
            let name = nx # takeWhile is_name_continue after in
            if name = rs ''_'' then perr pos (Unsupported ParameterExpansion)
            else Ok (dropWhile is_name_continue after, pos + 1 + length name,
                push_expansion segs lit name quoted, [])
          else if is_ascii_digit nx \<or> is_rejected_special_parameter nx
          then perr pos (Unsupported ParameterExpansion)
          else Ok (nx # after, pos + 1, segs, lit @ [c_dollar]))"

lemma scan_braced_shorter:
  "scan_braced_expansion rest pos q segs lit = Inr (rest', x) \<Longrightarrow> length rest' < length rest"
  by (auto simp: scan_braced_expansion_def Let_def split: list.splits if_splits option.splits)
    (metis dropWhile_eq_Nil_conv length_dropWhile_le length_tl less_Suc_eq_le less_imp_diff_less
      list.sel(3) peek_char.elims)+

lemma scan_expansion_shorter:
  "scan_expansion rest pos q segs lit = Inr (rest', x) \<Longrightarrow> length rest' \<le> length rest"
  by (auto simp: scan_expansion_def Let_def length_dropWhile_le le_SucI less_imp_le
      split: list.splits if_splits dest!: scan_braced_shorter)

subsection \<open>Quotes\<close>

text \<open>The loops start after the opening quote, whose position is \<open>quote_position\<close>.\<close>

fun scan_single_quoted ::
  "nat \<Rightarrow> rstr \<Rightarrow> rstr \<Rightarrow> nat \<Rightarrow> segment list \<Rightarrow> (rstr \<times> nat \<times> segment list) pres" where
  "scan_single_quoted quote_position lit [] pos segs = perr quote_position (UnterminatedQuote SingleQ)"
| "scan_single_quoted quote_position lit (ch # rest) pos segs =
     (if ch = c_squote then Ok (rest, pos + 1, push_literal segs lit True)
      else scan_single_quoted quote_position (lit @ [ch]) rest (pos + len_utf8 ch) segs)"

text \<open>The input after a backslash at \<open>pos\<close>: the rest, the position and the literal.\<close>

definition scan_double_quoted_escape :: "rstr \<Rightarrow> nat \<Rightarrow> rstr \<Rightarrow> (rstr \<times> nat \<times> rstr) pres" where
  "scan_double_quoted_escape rest pos lit =
     (case rest of
        [] \<Rightarrow> perr pos UnterminatedEscape
      | nx # after \<Rightarrow>
          if nx = c_nl then Ok (after, pos + 2, lit)
          else Ok (after, pos + 1 + len_utf8 nx,
              lit @ (if nx \<in> {c_dollar, c_btick, c_dquote, c_bslash} then [nx] else [c_bslash, nx])))"

definition scan_unquoted_escape :: "rstr \<Rightarrow> nat \<Rightarrow> rstr \<times> nat \<times> rchar option" where
  "scan_unquoted_escape rest pos =
     (case rest of
        [] \<Rightarrow> ([], pos + 1, None)
      | nx # after \<Rightarrow>
          if nx = c_nl then (after, pos + 2, None)
          else (after, pos + 1 + len_utf8 nx, Some nx))"

lemma scan_double_quoted_escape_shorter:
  "scan_double_quoted_escape rest pos lit = Inr (rest', x) \<Longrightarrow> length rest' \<le> length rest"
  by (auto simp: scan_double_quoted_escape_def split: list.splits if_splits)

function (sequential) scan_double_quoted ::
  "nat \<Rightarrow> rstr \<Rightarrow> bool \<Rightarrow> rstr \<Rightarrow> nat \<Rightarrow> segment list \<Rightarrow> (rstr \<times> nat \<times> segment list) pres" where
  "scan_double_quoted quote_position lit had_content [] pos segs =
     perr quote_position (UnterminatedQuote DoubleQ)"
| "scan_double_quoted quote_position lit had_content (ch # rest) pos segs =
     (if ch = c_dquote then
        Ok (rest, pos + 1, if lit \<noteq> [] \<or> \<not> had_content then push_literal segs lit True else segs)
      else if ch = c_bslash then
        obind (scan_double_quoted_escape rest pos lit) (\<lambda>(rest', pos', lit').
          scan_double_quoted quote_position lit' (had_content \<or> byte_len lit' \<noteq> byte_len lit)
            rest' pos' segs)
      else if ch = c_dollar then
        obind (scan_expansion rest pos True segs lit) (\<lambda>(rest', pos', segs', lit').
          scan_double_quoted quote_position lit' True rest' pos' segs')
      else if ch = c_btick then perr pos (Unsupported Backticks)
      else scan_double_quoted quote_position (lit @ [ch]) True rest (pos + len_utf8 ch) segs)"
  by pat_completeness auto

termination
  by (relation "measure (\<lambda>(_, _, _, rest, _). length rest)")
    (auto dest: scan_double_quoted_escape_shorter scan_expansion_shorter)

lemma scan_single_quoted_shorter:
  "scan_single_quoted qp lit rest pos segs = Inr (rest', x) \<Longrightarrow> length rest' < length rest"
  by (induction qp lit rest pos segs rule: scan_single_quoted.induct) (auto split: if_splits)

lemma scan_double_quoted_shorter:
  "scan_double_quoted qp lit hc rest pos segs = Inr (rest', x) \<Longrightarrow> length rest' < length rest"
proof (induction qp lit hc rest pos segs rule: scan_double_quoted.induct)
  case (2 qp lit hc ch rest pos segs)
  then show ?case
    by (auto simp: obind_eq_Ok split: if_splits)
      (fastforce dest: scan_double_quoted_escape_shorter scan_expansion_shorter)+
qed simp

subsection \<open>Words\<close>

record word_state =
  ws_segments :: "segment list"
  ws_literal :: rstr
  ws_had_content :: bool
  ws_last_unquoted :: "rchar option"
  ws_has_equals :: bool

definition word_start :: word_state where
  "word_start = \<lparr>ws_segments = [], ws_literal = [], ws_had_content = False,
     ws_last_unquoted = None, ws_has_equals = False\<rparr>"

text \<open>\<open>push_literal(&mut segments, std::mem::take(&mut literal), false)\<close>.\<close>

definition flush_literal :: "word_state \<Rightarrow> segment list" where
  "flush_literal w = push_literal (ws_segments w) (ws_literal w) False"

definition tilde_expands :: "word_state \<Rightarrow> bool" where
  "tilde_expands w \<longleftrightarrow>
     (\<not> ws_had_content w \<and> ws_segments w = [] \<and> ws_literal w = [])
     \<or> ws_last_unquoted w = Some c_eq
     \<or> (ws_last_unquoted w = Some c_colon \<and> ws_has_equals w)"

lemma scan_unquoted_escape_shorter:
  "(rest', x) = scan_unquoted_escape rest pos \<Longrightarrow> length rest' < Suc (length rest)"
  by (auto simp: scan_unquoted_escape_def split: list.splits if_splits)

function (sequential) scan_word_loop ::
  "word_state \<Rightarrow> rstr \<Rightarrow> nat \<Rightarrow> (word_state \<times> rstr \<times> nat) pres" where
  "scan_word_loop w [] pos = Ok (w, [], pos)"
| "scan_word_loop w (ch # rest) pos =
     (if is_word_break ch then Ok (w, ch # rest, pos)
      else if ch = c_squote then
        obind (scan_single_quoted pos [] rest (pos + 1) (flush_literal w)) (\<lambda>(rest', pos', segs).
          scan_word_loop (w\<lparr>ws_segments := segs, ws_literal := [], ws_had_content := True,
            ws_last_unquoted := None\<rparr>) rest' pos')
      else if ch = c_dquote then
        obind (scan_double_quoted pos [] False rest (pos + 1) (flush_literal w))
          (\<lambda>(rest', pos', segs).
          scan_word_loop (w\<lparr>ws_segments := segs, ws_literal := [], ws_had_content := True,
            ws_last_unquoted := None\<rparr>) rest' pos')
      else if ch = c_bslash then
        (case scan_unquoted_escape rest pos of (rest', pos', escaped) \<Rightarrow>
          (case escaped of
             Some e \<Rightarrow>
               scan_word_loop (w\<lparr>ws_segments := push_literal (flush_literal w) [e] True,
                 ws_literal := [], ws_had_content := True, ws_last_unquoted := None\<rparr>) rest' pos'
           | None \<Rightarrow> scan_word_loop w rest' pos'))
      else if ch = c_dollar then
        obind (scan_expansion rest pos False (ws_segments w) (ws_literal w))
          (\<lambda>(rest', pos', segs, lit).
          scan_word_loop (w\<lparr>ws_segments := segs, ws_literal := lit, ws_had_content := True,
            ws_last_unquoted := None\<rparr>) rest' pos')
      else if ch = c_star \<or> ch = c_quest then perr pos (Unsupported Glob)
      else if ch = c_lbrack \<and> has_closing_bracket rest then perr pos (Unsupported Glob)
      else if ch = c_btick then perr pos (Unsupported Backticks)
      else if ch = c_lparen \<or> ch = c_rparen then perr pos (Unsupported Subshell)
      else if ch = c_lbrace \<or> ch = c_rbrace then perr pos (Unsupported BraceExpansion)
      else if ch = c_tilde \<and> tilde_expands w then perr pos (Unsupported TildeExpansion)
      else scan_word_loop (w\<lparr>ws_literal := ws_literal w @ [ch], ws_had_content := True,
          ws_has_equals := ws_has_equals w \<or> ch = c_eq, ws_last_unquoted := Some ch\<rparr>)
          rest (pos + len_utf8 ch))"
  by pat_completeness auto

termination
proof (relation "measure (\<lambda>(_, rest, _). length rest)", goal_cases)
  case 2
  then show ?case by (auto dest: scan_single_quoted_shorter)
next
  case 3
  then show ?case by (auto dest: scan_double_quoted_shorter)
next
  case 4
  then show ?case by (simp add: scan_unquoted_escape_shorter)
next
  case 5
  then show ?case by (simp add: scan_unquoted_escape_shorter)
qed (auto dest: scan_expansion_shorter)

definition scan_word :: "rstr \<Rightarrow> nat \<Rightarrow> (sh_word option \<times> rstr \<times> nat) pres" where
  "scan_word rest pos =
     obind (scan_word_loop word_start rest pos) (\<lambda>(w, rest', pos').
       Ok (if ws_had_content w then Some \<lparr>segments = flush_literal w\<rparr> else None, rest', pos'))"

lemma scan_word_loop_shorter:
  "scan_word_loop w rest pos = Inr (w', rest', pos') \<Longrightarrow> length rest' \<le> length rest"
proof (induction w rest pos rule: scan_word_loop.induct)
  case (2 w ch rest pos)
  obtain r1 p1 e where esc: "scan_unquoted_escape rest pos = (r1, p1, e)" by (metis prod_cases3)
  have "length r1 < Suc (length rest)" by (rule scan_unquoted_escape_shorter [OF esc [symmetric]])
  with 2 esc show ?case
    by (auto simp: obind_eq_Ok split: if_splits option.splits)
      (fastforce dest: scan_single_quoted_shorter scan_double_quoted_shorter scan_expansion_shorter)+
qed simp

lemma scan_word_shorter:
  assumes "scan_word (ch # rest) pos = Inr (word, rest', pos')" and "\<not> is_word_break ch"
  shows "length rest' < length (ch # rest)"
proof -
  obtain w where w: "scan_word_loop word_start (ch # rest) pos = Inr (w, rest', pos')"
    using assms(1) by (auto simp: scan_word_def obind_eq_Ok)
  obtain r1 p1 e where esc: "scan_unquoted_escape rest pos = (r1, p1, e)" by (metis prod_cases3)
  have "length r1 < Suc (length rest)" by (rule scan_unquoted_escape_shorter [OF esc [symmetric]])
  with w assms(2) esc show ?thesis
    by (auto simp: obind_eq_Ok split: if_splits option.splits dest!: scan_word_loop_shorter
        dest: scan_single_quoted_shorter scan_double_quoted_shorter scan_expansion_shorter)
qed

lemma skip_shorter:
  "length (fst (skip_blanks rest pos)) \<le> length rest"
  "length (fst (skip_comment rest pos)) \<le> length rest"
  by (induction rest arbitrary: pos) (auto intro: le_SucI)

lemma scan_fd_dup_shorter:
  "scan_fd_dup fd op opos rest pos = Inr (Some (t, rest', pos')) \<Longrightarrow> length rest' \<le> length rest"
  by (auto simp: scan_fd_dup_def Let_def obind_eq_Ok split: if_splits)
    (metis length_dropWhile_le length_tl diff_le_self le_trans)

lemma scan_operator_shorter:
  assumes "scan_operator fd rest pos = Inr (Some (t, rest', pos'))"
  shows "length rest' < length rest"
proof (cases rest)
  case Nil
  then show ?thesis using assms by (simp add: scan_operator_def)
next
  case (Cons c after)
  have "length (tl after) \<le> length after" by simp
  then show ?thesis
    using assms Cons by (auto simp: scan_operator_def split: if_splits dest!: scan_fd_dup_shorter)
qed

lemma scan_redirect_shorter:
  assumes "scan_redirect rest pos = Inr (Some (t, rest', pos'))"
  shows "length rest' < length rest"
  using assms length_dropWhile_le [of is_ascii_digit rest]
  by (auto simp: scan_redirect_def Let_def obind_eq_Ok split: if_splits dest!: scan_operator_shorter)

subsection \<open>The loop\<close>

abbreviation tok :: "token_kind \<Rightarrow> nat \<Rightarrow> token" where
  "tok k pos \<equiv> \<lparr>tk_kind = k, tk_position = pos\<rparr>"

text \<open>
  One token at a position that is not blank and does not start a comment or a redirect. The
  branches for \<open><\<close> and \<open>>\<close> cannot be reached, since the redirect scanner takes them.
\<close>

definition lex_other :: "rchar \<Rightarrow> rstr \<Rightarrow> nat \<Rightarrow> (token list \<times> rstr \<times> nat) pres" where
  "lex_other ch after pos =
     (if ch = c_nl then Ok ([tok TkNewline pos], after, pos + 1)
      else if ch = c_semi then Ok ([tok TkSemi pos], after, pos + 1)
      else if ch = c_pipe \<and> peek_char after = Some c_pipe
        then Ok ([tok TkOrIf pos], tl after, pos + 2)
      else if ch = c_pipe then Ok ([tok TkPipe pos], after, pos + 1)
      else if ch = c_amp \<and> peek_char after = Some c_amp
        then Ok ([tok TkAndIf pos], tl after, pos + 2)
      else if ch = c_amp then perr pos (Unsupported Background)
      else if ch = c_lt \<and> peek_char after = Some c_lt then perr pos (Unsupported Heredoc)
      else if ch = c_lt \<or> ch = c_gt then Inl Panic
      else obind (scan_word (ch # after) pos) (\<lambda>(word, rest', pos').
        Ok (case word of Some w \<Rightarrow> [tok (TkWord w) pos] | None \<Rightarrow> [], rest', pos')))"

lemma lex_other_shorter:
  assumes "lex_other ch after pos = Inr (ts, rest', pos')" and "ch \<noteq> c_space" and "ch \<noteq> c_tab"
  shows "length rest' < Suc (length after)"
proof -
  have "length (tl after) < Suc (length after)" by simp
  with assms show ?thesis
    by (auto simp: lex_other_def obind_eq_Ok is_word_break_def split: if_splits
        dest!: scan_word_shorter)
qed

lemma skip_blanks_head:
  "skip_blanks rest pos = (ch # after, pos1) \<Longrightarrow> ch \<noteq> c_space \<and> ch \<noteq> c_tab \<and> length after < length rest"
  by (induction rest pos rule: skip_blanks.induct) (auto split: if_splits)

lemma skip_comment_hash:
  "skip_comment (c_hash # after) pos = (rest, pos2) \<Longrightarrow> length rest < Suc (length after)"
  using skip_shorter(2) [of after "pos + len_utf8 c_hash"] by auto

function (sequential) lex_loop :: "rstr \<Rightarrow> nat \<Rightarrow> token list pres" where
  "lex_loop [] pos = Ok []"
| "lex_loop (c # cs) pos =
     (case skip_blanks (c # cs) pos of
        ([], pos1) \<Rightarrow> Ok []
      | (ch # after, pos1) \<Rightarrow>
          if ch = c_hash then
            (case skip_comment (ch # after) pos1 of (rest, pos2) \<Rightarrow> lex_loop rest pos2)
          else obind (scan_redirect (ch # after) pos1) (\<lambda>red.
            case red of
              Some (redirect, rest, pos2) \<Rightarrow>
                obind (lex_loop rest pos2) (\<lambda>ts. Ok (tok (TkRedirect redirect) pos1 # ts))
            | None \<Rightarrow>
                obind (lex_other ch after pos1) (\<lambda>(new, rest, pos2).
                  obind (lex_loop rest pos2) (\<lambda>ts. Ok (new @ ts)))))"
  by pat_completeness auto

termination
proof (relation "measure (\<lambda>(rest, _). length rest)", goal_cases)
  case (2 c cs pos rest1 pos1 ch after rest pos2)
  then show ?case
    using skip_blanks_head [of "c # cs" pos ch after pos1] skip_comment_hash [of after pos1 rest pos2]
    by (auto split: prod.splits)
next
  case 4
  then show ?case
    by (auto simp del: skip_blanks.simps dest!: skip_blanks_head [OF sym])
      (fastforce dest: scan_redirect_shorter)
next
  case 3
  then show ?case
    by (auto simp del: skip_blanks.simps dest!: skip_blanks_head [OF sym])
      (fastforce dest: lex_other_shorter)
qed simp

definition lex :: "rstr \<Rightarrow> token list pres" where
  "lex input = lex_loop input 0"

end
