(* ===== verification/Shell_Parse.thy ===== *)
theory Shell_Parse
  imports Shell_Lex
begin

text \<open>
  The recursive descent parser of \<open>src/shell/parse.rs\<close>. The cursor into the token vector is
  the list of tokens still to read, with the token before it for \<open>previous_position\<close>.
\<close>

record parser =
  ps_input :: rstr
  ps_prev :: "token option"
  ps_rest :: "token list"

definition parser_new :: "rstr \<Rightarrow> token list \<Rightarrow> parser" where
  "parser_new input ts = \<lparr>ps_input = input, ps_prev = None, ps_rest = ts\<rparr>"

text \<open>\<open>self.cursor += 1\<close>.\<close>

definition advance :: "parser \<Rightarrow> parser" where
  "advance p = p\<lparr>ps_prev := Some (hd (ps_rest p)), ps_rest := tl (ps_rest p)\<rparr>"

definition ps_peek :: "parser \<Rightarrow> token_kind option" where
  "ps_peek p = (case ps_rest p of [] \<Rightarrow> None | t # _ \<Rightarrow> Some (tk_kind t))"

definition is_eof :: "parser \<Rightarrow> bool" where
  "is_eof p \<longleftrightarrow> ps_rest p = []"

definition previous_position :: "parser \<Rightarrow> nat" where
  "previous_position p =
     (case ps_prev p of
        Some t \<Rightarrow> tk_position t
      | None \<Rightarrow> (case ps_rest p of t # _ \<Rightarrow> tk_position t | [] \<Rightarrow> byte_len (ps_input p)))"

definition unexpected :: "parser \<Rightarrow> rstr \<Rightarrow> 'a pres" where
  "unexpected p expected =
     (case ps_rest p of
        t # _ \<Rightarrow> perr (tk_position t) (UnexpectedToken expected (tk_description (tk_kind t)))
      | [] \<Rightarrow> perr (byte_len (ps_input p)) (UnexpectedEof expected))"

definition consume_if :: "parser \<Rightarrow> (token_kind \<Rightarrow> bool) \<Rightarrow> bool \<times> parser" where
  "consume_if p f =
     (case ps_peek p of
        Some k \<Rightarrow> if f k then (True, advance p) else (False, p)
      | None \<Rightarrow> (False, p))"

function consume_newlines :: "parser \<Rightarrow> parser" where
  "consume_newlines p =
     (case consume_if p (\<lambda>k. k = TkNewline) of
        (True, p') \<Rightarrow> consume_newlines p'
      | (False, p') \<Rightarrow> p')"
  by pat_completeness auto

termination
  by (relation "measure (\<lambda>p. length (ps_rest p))")
    (auto simp: consume_if_def ps_peek_def advance_def split: list.splits if_splits option.splits)

declare consume_newlines.simps [simp del]

definition consume_and_or :: "parser \<Rightarrow> and_or_op option \<times> parser" where
  "consume_and_or p =
     (case ps_peek p of
        Some TkAndIf \<Rightarrow> (Some And, advance p)
      | Some TkOrIf \<Rightarrow> (Some Or, advance p)
      | _ \<Rightarrow> (None, p))"

subsection \<open>Assignments\<close>

definition is_assignment_name :: "rstr \<Rightarrow> bool" where
  "is_assignment_name name =
     (case name of
        [] \<Rightarrow> False
      | ch # rest \<Rightarrow> (is_ascii_alphabetic ch \<or> ch = c_under)
          \<and> list_all (\<lambda>ch. is_ascii_alphanumeric ch \<or> ch = c_under) rest)"

text \<open>\<open>input.get(n..)\<close>: the rest at a byte offset, if the offset is a character boundary.\<close>

fun drop_bytes :: "rstr \<Rightarrow> nat \<Rightarrow> rstr option" where
  "drop_bytes [] n = (if n = 0 then Some [] else None)"
| "drop_bytes (c # s) n =
     (if n = 0 then Some (c # s)
      else if len_utf8 c \<le> n then drop_bytes s (n - len_utf8 c) else None)"

fun source_position_loop :: "rstr \<Rightarrow> nat \<Rightarrow> nat \<Rightarrow> nat \<Rightarrow> nat" where
  "source_position_loop [] cursor literal_byte target = cursor"
| "source_position_loop (ch # rest) cursor literal_byte target =
     (if literal_byte = target \<or> is_word_break ch then cursor
      else if ch = c_bslash \<and> peek_char rest = Some c_nl then
        (case rest of
           nl # rest' \<Rightarrow> source_position_loop rest' (cursor + len_utf8 ch + 1) literal_byte target
         | [] \<Rightarrow> cursor)
      else source_position_loop rest (cursor + len_utf8 ch) (literal_byte + len_utf8 ch) target)"

definition source_position_for_unquoted_literal_byte :: "rstr \<Rightarrow> nat \<Rightarrow> nat \<Rightarrow> nat" where
  "source_position_for_unquoted_literal_byte input position target =
     (case drop_bytes input position of
        None \<Rightarrow> position
      | Some rest \<Rightarrow> source_position_loop rest position 0 target)"

text \<open>\<open>str::find\<close>, counted in characters; what stands before the match is a prefix.\<close>

fun find_sub :: "'a list \<Rightarrow> 'a list \<Rightarrow> nat option" where
  "find_sub pat [] = (if pat = [] then Some 0 else None)"
| "find_sub pat (x # xs) =
     (if take (length pat) (x # xs) = pat then Some 0 else map_option Suc (find_sub pat xs))"

definition assignment_from_word ::
  "rstr \<Rightarrow> sh_word \<Rightarrow> nat \<Rightarrow> assignment option pres" where
  "assignment_from_word input word position =
     (case segments word of
        Literal v False # others \<Rightarrow>
          (case (case find_sub [c_plus, c_eq] v of
                   Some i \<Rightarrow> if is_assignment_name (take i v) then Some i else None
                 | None \<Rightarrow> None) of
             Some i \<Rightarrow>
               perr (source_position_for_unquoted_literal_byte input position (byte_len (take i v)))
                 (Unsupported AppendAssignment)
           | None \<Rightarrow>
               (case find_sub [c_eq] v of
                  None \<Rightarrow> Ok None
                | Some i \<Rightarrow>
                    if \<not> is_assignment_name (take i v) then Ok None
                    else let first_value = drop (Suc i) v in
                      Ok (Some \<lparr>as_name = take i v,
                        as_value = \<lparr>segments =
                          (if first_value \<noteq> [] then [Literal first_value False] else []) @ others\<rparr>\<rparr>)))
      | _ \<Rightarrow> Ok None)"

definition is_pipeline_negation_word :: "token_kind \<Rightarrow> bool" where
  "is_pipeline_negation_word k =
     (case k of TkWord w \<Rightarrow> segments w = [Literal [c_bang] False] | _ \<Rightarrow> False)"

subsection \<open>Commands\<close>

definition parse_redirect :: "parser \<Rightarrow> redirect_token \<Rightarrow> (redirect \<times> parser) pres" where
  "parse_redirect p rt =
     (case rt_target_fd rt of
        Some fd \<Rightarrow> Ok (\<lparr>rd_fd = rt_fd rt, rd_op = rt_op rt, rd_target = TFd fd\<rparr>, p)
      | None \<Rightarrow>
          (case ps_peek p of
             Some (TkWord w) \<Rightarrow>
               Ok (\<lparr>rd_fd = rt_fd rt, rd_op = rt_op rt, rd_target = TWord w\<rparr>, advance p)
           | _ \<Rightarrow> perr (previous_position p) MissingRedirectTarget))"

lemma parse_redirect_shorter:
  "parse_redirect p rt = Inr (r, p') \<Longrightarrow> length (ps_rest p') \<le> length (ps_rest p)"
  by (auto simp: parse_redirect_def advance_def split: option.splits token_kind.splits)

definition starts_command :: "parser \<Rightarrow> bool" where
  "starts_command p =
     (case ps_peek p of Some (TkWord _) \<Rightarrow> True | Some (TkRedirect _) \<Rightarrow> True | _ \<Rightarrow> False)"

text \<open>The elements of a simple command, and whether there was one.\<close>

function (sequential) parse_elements ::
  "parser \<Rightarrow> simple_command \<Rightarrow> bool \<Rightarrow> (simple_command \<times> bool \<times> parser) pres" where
  "parse_elements p c saw =
     (case ps_rest p of
        [] \<Rightarrow> Ok (c, saw, p)
      | t # _ \<Rightarrow>
          (case tk_kind t of
             TkWord w \<Rightarrow>
               if sc_words c = [] then
                 obind (assignment_from_word (ps_input p) w (tk_position t)) (\<lambda>a.
                   case a of
                     Some a \<Rightarrow>
                       parse_elements (advance p) (c\<lparr>sc_assignments := sc_assignments c @ [a]\<rparr>) True
                   | None \<Rightarrow> parse_elements (advance p) (c\<lparr>sc_words := sc_words c @ [w]\<rparr>) True)
               else parse_elements (advance p) (c\<lparr>sc_words := sc_words c @ [w]\<rparr>) True
           | TkRedirect rt \<Rightarrow>
               obind (parse_redirect (advance p) rt) (\<lambda>(r, p').
                 parse_elements p' (c\<lparr>sc_redirects := sc_redirects c @ [r]\<rparr>) True)
           | _ \<Rightarrow> Ok (c, saw, p)))"
  by pat_completeness auto

termination
  by (relation "measure (\<lambda>(p, _). length (ps_rest p))")
    (auto simp: advance_def dest!: parse_redirect_shorter)

declare parse_elements.simps [simp del]

lemma parse_elements_shorter:
  "parse_elements p c saw = Inr (c', saw', p') \<Longrightarrow> length (ps_rest p') \<le> length (ps_rest p)"
proof (induction p c saw rule: parse_elements.induct)
  case (1 p c saw)
  show ?case
  proof (cases "ps_rest p")
    case (Cons t ts)
    have adv: "length (ps_rest (advance p)) \<le> length (ps_rest p)" by (simp add: advance_def)
    show ?thesis
      using 1(5) Cons 1(1-4) [OF Cons] adv
      by (subst (asm) parse_elements.simps)
        (fastforce simp: obind_eq_Ok split: token_kind.splits if_splits option.splits
          dest: parse_redirect_shorter)
  qed (use 1(5) in \<open>simp add: parse_elements.simps\<close>)
qed

definition parse_command :: "parser \<Rightarrow> rstr \<Rightarrow> (command \<times> parser) pres" where
  "parse_command p expected =
     (if \<not> starts_command p then unexpected p expected
      else if (case ps_rest p of t # _ \<Rightarrow> is_pipeline_negation_word (tk_kind t) | [] \<Rightarrow> False)
      then perr (tk_position (hd (ps_rest p))) (Unsupported PipelineNegation)
      else obind (parse_elements p \<lparr>sc_assignments = [], sc_words = [], sc_redirects = []\<rparr> False)
        (\<lambda>(c, saw_element, p').
          if \<not> saw_element then unexpected p' expected else Ok (Simple c, p')))"

lemma parse_command_shorter:
  "parse_command p e = Inr (c, p') \<Longrightarrow> length (ps_rest p') \<le> length (ps_rest p)"
  by (auto simp: parse_command_def unexpected_def obind_eq_Ok split: if_splits list.splits
      dest!: parse_elements_shorter)

subsection \<open>Pipelines, lists and programs\<close>

lemma consume_if_shorter:
  "consume_if p f = (True, p') \<Longrightarrow> length (ps_rest p') < length (ps_rest p)"
  "consume_if p f = (False, p') \<Longrightarrow> p' = p"
  by (auto simp: consume_if_def ps_peek_def advance_def split: list.splits if_splits option.splits)

lemma consume_newlines_shorter: "length (ps_rest (consume_newlines p)) \<le> length (ps_rest p)"
proof (induction p rule: consume_newlines.induct)
  case (1 p)
  obtain b p' where c: "consume_if p (\<lambda>k. k = TkNewline) = (b, p')" by fastforce
  then show ?case
    using 1 [OF c [symmetric]] consume_if_shorter [of p "\<lambda>k. k = TkNewline" p']
    by (subst consume_newlines.simps) (cases b; auto)
qed

lemma consume_and_or_shorter:
  "consume_and_or p = (Some op, p') \<Longrightarrow> length (ps_rest p') < length (ps_rest p)"
  by (auto simp: consume_and_or_def ps_peek_def advance_def
      split: list.splits option.splits token_kind.splits)

function (sequential) parse_pipeline_rest ::
  "parser \<Rightarrow> command list \<Rightarrow> (command list \<times> parser) pres" where
  "parse_pipeline_rest p cs =
     (case consume_if p (\<lambda>k. k = TkPipe) of
        (True, p1) \<Rightarrow>
          obind (parse_command (consume_newlines p1) (rs ''command after pipe'')) (\<lambda>(c, p2).
            parse_pipeline_rest p2 (cs @ [c]))
      | (False, p1) \<Rightarrow> Ok (cs, p1))"
  by pat_completeness auto

termination
proof (relation "measure (\<lambda>(p, _). length (ps_rest p))", goal_cases)
  case (2 p cs b p1 v c p2)
  then show ?case
    using consume_if_shorter(1) [of p "\<lambda>k. k = TkPipe" p1] consume_newlines_shorter [of p1]
      parse_command_shorter [of "consume_newlines p1" "rs ''command after pipe''" c p2] by simp
qed simp

declare parse_pipeline_rest.simps [simp del]

definition parse_pipeline :: "parser \<Rightarrow> rstr \<Rightarrow> (pipeline \<times> parser) pres" where
  "parse_pipeline p expected =
     obind (parse_command p expected) (\<lambda>(c, p1).
     obind (parse_pipeline_rest p1 [c]) (\<lambda>(cs, p2). Ok (\<lparr>commands = cs\<rparr>, p2)))"

lemma parse_pipeline_rest_shorter:
  "parse_pipeline_rest p cs = Inr (cs', p') \<Longrightarrow> length (ps_rest p') \<le> length (ps_rest p)"
proof (induction p cs rule: parse_pipeline_rest.induct)
  case (1 p cs)
  obtain b p1 where c: "consume_if p (\<lambda>k. k = TkPipe) = (b, p1)" by fastforce
  show ?case
  proof (cases b)
    case True
    then obtain cmd p2 where p2:
      "parse_command (consume_newlines p1) (rs ''command after pipe'') = Inr (cmd, p2)"
      "parse_pipeline_rest p2 (cs @ [cmd]) = Inr (cs', p')"
      using 1(2) c by (subst (asm) parse_pipeline_rest.simps) (auto simp: obind_eq_Ok)
    have "length (ps_rest p') \<le> length (ps_rest p2)"
      using 1(1) [OF c [symmetric] _ p2(1) refl p2(2)] True by simp
    then show ?thesis
      using consume_if_shorter(1) [of p "\<lambda>k. k = TkPipe" p1] consume_newlines_shorter [of p1]
        parse_command_shorter [OF p2(1)] c True by simp
  next
    case False
    then show ?thesis
      using 1(2) c consume_if_shorter(2) [of p "\<lambda>k. k = TkPipe" p1]
      by (subst (asm) parse_pipeline_rest.simps) simp
  qed
qed

lemma parse_pipeline_shorter:
  "parse_pipeline p e = Inr (pl, p') \<Longrightarrow> length (ps_rest p') \<le> length (ps_rest p)"
  by (auto simp: parse_pipeline_def obind_eq_Ok dest!: parse_command_shorter
      parse_pipeline_rest_shorter)

definition after_op :: "and_or_op \<Rightarrow> rstr" where
  "after_op op = (case op of
      And \<Rightarrow> rs ''command after '' @ [c_btick, c_amp, c_amp, c_btick]
    | Or \<Rightarrow> rs ''command after '' @ [c_btick, c_pipe, c_pipe, c_btick])"

function (sequential) parse_and_or_rest ::
  "parser \<Rightarrow> and_or list \<Rightarrow> (and_or list \<times> parser) pres" where
  "parse_and_or_rest p rest =
     (case consume_and_or p of
        (Some op, p1) \<Rightarrow>
          obind (parse_pipeline (consume_newlines p1) (after_op op)) (\<lambda>(pl, p2).
            parse_and_or_rest p2 (rest @ [\<lparr>ao_op = op, ao_pipeline = pl\<rparr>]))
      | (None, p1) \<Rightarrow> Ok (rest, p1))"
  by pat_completeness auto

termination
proof (relation "measure (\<lambda>(p, _). length (ps_rest p))", goal_cases)
  case (2 p rest o' p1 op v pl p2)
  then show ?case
    using consume_and_or_shorter [of p op p1] consume_newlines_shorter [of p1]
      parse_pipeline_shorter [of "consume_newlines p1" "after_op op" pl p2] by simp
qed simp

declare parse_and_or_rest.simps [simp del]

definition parse_and_or_list :: "parser \<Rightarrow> (and_or_list \<times> parser) pres" where
  "parse_and_or_list p =
     obind (parse_pipeline p (rs ''command'')) (\<lambda>(first, p1).
     obind (parse_and_or_rest p1 []) (\<lambda>(rest, p2).
       Ok (\<lparr>al_first = first, al_rest = rest\<rparr>, p2)))"

lemma parse_elements_consumes:
  assumes "parse_elements p c saw = Inr (c', saw', p')" and "starts_command p"
  shows "length (ps_rest p') < length (ps_rest p)"
proof (cases "ps_rest p")
  case Nil
  then show ?thesis using assms(2) by (simp add: starts_command_def ps_peek_def)
next
  case (Cons t ts)
  have adv: "length (ps_rest (advance p)) < length (ps_rest p)" using Cons by (simp add: advance_def)
  show ?thesis
    using assms adv Cons
    by (subst (asm) parse_elements.simps)
      (auto simp: obind_eq_Ok starts_command_def ps_peek_def
        split: token_kind.splits if_splits option.splits
        dest!: parse_redirect_shorter parse_elements_shorter)
qed

lemma parse_command_consumes:
  "parse_command p e = Inr (c, p') \<Longrightarrow> length (ps_rest p') < length (ps_rest p)"
  by (auto simp: parse_command_def unexpected_def obind_eq_Ok split: if_splits list.splits
      dest!: parse_elements_consumes)

lemma parse_and_or_rest_shorter:
  "parse_and_or_rest p rest = Inr (rest', p') \<Longrightarrow> length (ps_rest p') \<le> length (ps_rest p)"
proof (induction p rest rule: parse_and_or_rest.induct)
  case (1 p rest)
  obtain op p1 where c: "consume_and_or p = (op, p1)" by fastforce
  show ?case
  proof (cases op)
    case (Some x)
    then obtain pl p2 where p2: "parse_pipeline (consume_newlines p1) (after_op x) = Inr (pl, p2)"
      "parse_and_or_rest p2 (rest @ [\<lparr>ao_op = x, ao_pipeline = pl\<rparr>]) = Inr (rest', p')"
      using 1(2) c by (subst (asm) parse_and_or_rest.simps) (auto simp: obind_eq_Ok)
    have "length (ps_rest p') \<le> length (ps_rest p2)"
      using 1(1) [OF c [symmetric] Some p2(1) refl p2(2)] .
    then show ?thesis
      using consume_and_or_shorter [of p x p1] consume_newlines_shorter [of p1]
        parse_pipeline_shorter [OF p2(1)] c Some by simp
  next
    case None
    then have "p1 = p"
      using c by (auto simp: consume_and_or_def split: option.splits token_kind.splits)
    with None show ?thesis using 1(2) c by (subst (asm) parse_and_or_rest.simps) simp
  qed
qed

lemma parse_and_or_list_consumes:
  "parse_and_or_list p = Inr (l, p') \<Longrightarrow> length (ps_rest p') < length (ps_rest p)"
  by (auto simp: parse_and_or_list_def parse_pipeline_def obind_eq_Ok
      dest!: parse_command_consumes parse_pipeline_rest_shorter parse_and_or_rest_shorter)

function (sequential) parse_program_loop ::
  "parser \<Rightarrow> and_or_list list \<Rightarrow> shell_program pres" where
  "parse_program_loop p ls =
     (if is_eof p then Ok \<lparr>lists = ls\<rparr>
      else obind (parse_and_or_list p) (\<lambda>(l, p1).
        case consume_if p1 (\<lambda>k. k = TkSemi) of
          (True, p2) \<Rightarrow>
            if is_eof (consume_newlines p2) then Ok \<lparr>lists = ls @ [l]\<rparr>
            else parse_program_loop (consume_newlines p2) (ls @ [l])
        | (False, _) \<Rightarrow>
            (case consume_if p1 (\<lambda>k. k = TkNewline) of
               (True, p2) \<Rightarrow> parse_program_loop (consume_newlines p2) (ls @ [l])
             | (False, _) \<Rightarrow>
                 if \<not> is_eof p1
                 then unexpected p1 ([c_btick, c_semi, c_btick] @ rs '', newline, or end of input'')
                 else parse_program_loop p1 (ls @ [l]))))"
  by pat_completeness auto

termination
proof (relation "measure (\<lambda>(p, _). length (ps_rest p))", goal_cases)
  case (2 p ls v l p1 b p2)
  then show ?case
    using parse_and_or_list_consumes [of p l p1] consume_if_shorter(1) [of p1 "\<lambda>k. k = TkSemi" p2]
      consume_newlines_shorter [of p2] by simp
next
  case (3 p ls v l p1 b p2 b' p3)
  then show ?case
    using parse_and_or_list_consumes [of p l p1] consume_if_shorter(1) [of p1 "\<lambda>k. k = TkNewline" p3]
      consume_newlines_shorter [of p3] by simp
next
  case (4 p ls v l p1)
  then show ?case using parse_and_or_list_consumes [of p l p1] by simp
qed simp

declare parse_program_loop.simps [simp del]

definition parse_program :: "parser \<Rightarrow> shell_program pres" where
  "parse_program p = parse_program_loop (consume_newlines p) []"

definition parse :: "rstr \<Rightarrow> shell_program pres" where
  "parse input = obind (lex input) (\<lambda>ts. parse_program (parser_new input ts))"

end
