(* ===== verification/Shell_Lex_Props.thy ===== *)
theory Shell_Lex_Props
  imports Shell_Parse
begin

text \<open>
  The lexer accounts for every byte of its input, never reaches its unreachable branch, and
  lets no shell metacharacter through in an unquoted literal.
\<close>

subsection \<open>Byte accounting\<close>

lemma byte_len_ascii: "list_all (\<lambda>c. c < 128) s \<Longrightarrow> byte_len s = length s"
  by (induction s) (auto simp: len_utf8_def)

lemma ascii_classes:
  "is_ascii_digit c \<Longrightarrow> c < 128" "is_name_continue c \<Longrightarrow> c < 128" "is_name_start c \<Longrightarrow> c < 128"
  by (auto simp: is_ascii_digit_def is_name_continue_def is_name_start_def is_ascii_alphanumeric_def
      is_ascii_alphabetic_def)

lemma byte_len_while:
  assumes "\<And>c. P c \<Longrightarrow> c < 128"
  shows "length (takeWhile P s) + byte_len (dropWhile P s) = byte_len s"
proof -
  have "list_all (\<lambda>c. c < 128) (takeWhile P s)"
    using assms by (auto simp: list_all_iff dest: set_takeWhileD)
  then have "byte_len (takeWhile P s) = length (takeWhile P s)" by (rule byte_len_ascii)
  then show ?thesis by (metis byte_len_append takeWhile_dropWhile_id)
qed

lemma byte_len_tl: "peek_char s = Some c \<Longrightarrow> byte_len s = len_utf8 c + byte_len (tl s)"
  by (cases s) auto

lemmas byte_while = byte_len_while [of is_ascii_digit, OF ascii_classes(1)]
  byte_len_while [of is_name_continue, OF ascii_classes(2)]

text \<open>
  An outcome that starts with \<open>N\<close> bytes ahead of offset \<open>0\<close>: success keeps the sum of the
  position and the bytes ahead, an error lies before the end.
\<close>

definition counts :: "nat \<Rightarrow> nat \<Rightarrow> (rstr \<times> nat \<times> 'a) pres \<Rightarrow> bool" where
  "counts N start out = (case out of
       Inr (rest, pos, _) \<Rightarrow> pos + byte_len rest = N \<and> start \<le> pos
     | Inl (Errno e) \<Rightarrow> pe_position e < N
     | Inl Panic \<Rightarrow> False)"

lemma counts_simps [simp]:
  "counts N start (Inr (rest, pos, x)) \<longleftrightarrow> pos + byte_len rest = N \<and> start \<le> pos"
  "counts N start (perr p k) \<longleftrightarrow> p < N" "\<not> counts N start (Inl Panic)"
  by (simp_all add: counts_def)

lemma counts_obind:
  assumes "counts N start r"
    and "\<And>rest pos x. r = Inr (rest, pos, x) \<Longrightarrow> pos + byte_len rest = N \<Longrightarrow> start \<le> pos \<Longrightarrow>
      counts N start (k (rest, pos, x))"
  shows "counts N start (obind r k)"
proof (cases r)
  case (Inl f)
  then show ?thesis using assms(1) by (cases f) (simp_all add: counts_def)
next
  case (Inr v)
  then show ?thesis using assms by (cases v) auto
qed

lemma len_utf8_ascii: "c < 128 \<Longrightarrow> len_utf8 c = 1"
  by (simp add: len_utf8_def)

lemma scan_braced_counts:
  assumes "pos + 2 + byte_len rest = N"
  shows "counts N (pos + 1) (scan_braced_expansion rest pos q segs lit)"
proof (cases rest)
  case Nil
  then show ?thesis using assms by (simp add: scan_braced_expansion_def)
next
  case (Cons c after)
  have b: "byte_len (tl after) + 1 = byte_len after" if "peek_char after = Some c_rbrace"
    using byte_len_tl [OF that] by (simp add: len_utf8_def)
  have d: "byte_len (tl (dropWhile is_name_continue after)) + 1 = byte_len (dropWhile is_name_continue after)"
    if "peek_char (dropWhile is_name_continue after) = Some c_rbrace"
    using byte_len_tl [OF that] by (simp add: len_utf8_def)
  have ns: "len_utf8 c = 1" if "is_name_start c" using ascii_classes(3) [OF that] by (rule len_utf8_ascii)
  have lt: "pos < N" and sum: "pos + 2 + len_utf8 c + byte_len after = N" using assms Cons by auto
  consider "c = c_quest" | "c \<noteq> c_quest" "is_name_start c" | "c \<noteq> c_quest" "\<not> is_name_start c" by blast
  then show ?thesis
  proof cases
    case 1
    then show ?thesis
      using lt sum b by (cases "peek_char after = Some c_rbrace")
        (simp_all add: Cons scan_braced_expansion_def len_utf8_ascii)
  next
    case 2
    let ?tail = "dropWhile is_name_continue after"
    have len: "pos + 2 + Suc (length (takeWhile is_name_continue after)) + byte_len ?tail = N"
      using sum ns [OF 2(2)] byte_while(2) [where s = after] by linarith
    show ?thesis
    proof (cases "peek_char ?tail = Some c_rbrace")
      case True
      then show ?thesis
        using 2 lt len d [OF True] by (simp add: Cons scan_braced_expansion_def Let_def)
    next
      case False
      then show ?thesis
        using 2 lt by (auto simp: Cons scan_braced_expansion_def Let_def split: option.split)
    qed
  next
    case 3
    then show ?thesis using lt by (simp add: Cons scan_braced_expansion_def)
  qed
qed

lemma scan_expansion_counts:
  assumes "pos + 1 + byte_len rest = N"
  shows "counts N (pos + 1) (scan_expansion rest pos q segs lit)"
proof (cases rest)
  case Nil
  then show ?thesis using assms by (simp add: scan_expansion_def)
next
  case (Cons c after)
  have br: "counts N (pos + 1) (scan_braced_expansion after pos q segs lit)" if "c = c_lbrace"
    using assms Cons that by (intro scan_braced_counts) (simp add: len_utf8_def)
  have ns: "len_utf8 c = 1" if "is_name_start c" using ascii_classes(3) [OF that] by (rule len_utf8_ascii)
  show ?thesis
    using assms Cons br ns byte_while(2) [where s = after]
    by (auto simp: scan_expansion_def Let_def len_utf8_ascii)
qed

lemma counts_later: "counts N p r \<Longrightarrow> start \<le> p \<Longrightarrow> counts N start r"
  by (auto simp: counts_def split: sum.splits fault.splits)

lemma scan_single_counts:
  assumes "pos + byte_len rest = N" "qp < N"
  shows "counts N pos (scan_single_quoted qp lit rest pos segs)"
  using assms
proof (induction qp lit rest pos segs rule: scan_single_quoted.induct)
  case (2 qp lit ch rest pos segs)
  show ?case
  proof (cases "ch = c_squote")
    case True
    then show ?thesis using 2(2) by (simp add: len_utf8_ascii)
  next
    case False
    then have "counts N (pos + len_utf8 ch) (scan_single_quoted qp (lit @ [ch]) rest (pos + len_utf8 ch) segs)"
      using 2 by simp
    then show ?thesis using False counts_later by fastforce
  qed
qed simp

lemma scan_escape_counts:
  "pos + 1 + byte_len rest = N \<Longrightarrow> counts N pos (scan_double_quoted_escape rest pos lit)"
  by (auto simp: scan_double_quoted_escape_def len_utf8_ascii split: list.splits)

lemma scan_double_counts:
  assumes "pos + byte_len rest = N" "qp < N"
  shows "counts N pos (scan_double_quoted qp lit hc rest pos segs)"
  using assms
proof (induction qp lit hc rest pos segs rule: scan_double_quoted.induct)
  case (2 qp lit hc ch rest pos segs)
  have sum: "pos + len_utf8 ch + byte_len rest = N" using 2(4) by simp
  then have lt: "pos < N" using len_utf8_pos [of ch] by linarith
  consider "ch = c_dquote" | "ch = c_bslash" | "ch = c_dollar" | "ch = c_btick"
    | "ch \<noteq> c_dquote" "ch \<noteq> c_bslash" "ch \<noteq> c_dollar" "ch \<noteq> c_btick" by blast
  then show ?case
  proof cases
    case 1
    then show ?thesis using sum by (simp add: len_utf8_ascii)
  next
    case 2
    have "counts N pos (scan_double_quoted_escape rest pos lit)"
      using sum 2 by (intro scan_escape_counts) (simp add: len_utf8_ascii)
    then have "counts N pos (obind (scan_double_quoted_escape rest pos lit) (\<lambda>(rest', pos', lit').
        scan_double_quoted qp lit' (hc \<or> byte_len lit' \<noteq> byte_len lit) rest' pos' segs))"
    proof (rule counts_obind)
      fix r p x
      assume e: "scan_double_quoted_escape rest pos lit = Inr (r, p, x)" "p + byte_len r = N" "pos \<le> p"
      show "counts N pos (case (r, p, x) of (rest', pos', lit') \<Rightarrow>
          scan_double_quoted qp lit' (hc \<or> byte_len lit' \<noteq> byte_len lit) rest' pos' segs)"
        using counts_later [OF "2.IH"(1) [OF _ 2 e(1) refl refl e(2) "2.prems"(2)] e(3)] 2 by simp
    qed
    then show ?thesis using 2 by simp
  next
    case 3
    have "counts N pos (scan_expansion rest pos True segs lit)"
      using sum 3 by (intro counts_later [OF scan_expansion_counts]) (simp_all add: len_utf8_ascii)
    then have "counts N pos (obind (scan_expansion rest pos True segs lit) (\<lambda>(rest', pos', segs', lit').
          scan_double_quoted qp lit' True rest' pos' segs'))"
    proof (rule counts_obind)
      fix r p x
      assume e: "scan_expansion rest pos True segs lit = Inr (r, p, x)" "p + byte_len r = N" "pos \<le> p"
      obtain sg l where x: "x = (sg, l)" by (cases x)
      show "counts N pos (case (r, p, x) of (rest', pos', segs', lit') \<Rightarrow>
          scan_double_quoted qp lit' True rest' pos' segs')"
        using counts_later [OF "2.IH"(2) [OF _ _ 3 e(1) [unfolded x] refl refl refl e(2) "2.prems"(2)] e(3)] 3
        by (simp add: x)
    qed
    then show ?thesis using 3 by simp
  next
    case 4
    then show ?thesis using lt by simp
  next
    case 5
    then show ?thesis
      using counts_later [OF "2.IH"(3) [OF 5 _ "2.prems"(2)], of pos] sum by simp
  qed
qed simp

text \<open>The cursor after a word, and past its first character when that does not end the word.\<close>

definition turn :: "('a \<times> rstr \<times> nat) pres \<Rightarrow> (rstr \<times> nat \<times> 'a) pres" where
  "turn r = obind r (\<lambda>(w, rest, pos). Ok (rest, pos, w))"

lemma turn_simps [simp]:
  "turn (Inr (w, rest, pos)) = Inr (rest, pos, w)" "turn (Inl f) = Inl f"
  "turn (obind r k) = obind r (\<lambda>v. turn (k v))"
  by (simp_all add: turn_def) (cases r; simp)

definition word_min :: "rstr \<Rightarrow> nat \<Rightarrow> nat" where
  "word_min rest pos = (case rest of [] \<Rightarrow> pos | ch # _ \<Rightarrow> if is_word_break ch then pos else pos + 1)"

lemma word_min_ge: "pos \<le> word_min rest pos"
  by (auto simp: word_min_def split: list.splits)

text \<open>A scanner that has moved past the first character hands over to the loop.\<close>

lemma counts_then_loop:
  assumes "counts N (Suc pos) r"
    and "\<And>rest p x. r = Inr (rest, p, x) \<Longrightarrow> p + byte_len rest = N \<Longrightarrow>
      counts N (word_min rest p) (turn (scan_word_loop (f x) rest p))"
    and "\<And>rest p x. k (rest, p, x) = turn (scan_word_loop (f x) rest p)"
  shows "counts N (Suc pos) (obind r k)"
proof (rule counts_obind [OF assms(1)])
  fix rest p x
  assume "r = Inr (rest, p, x)" "p + byte_len rest = N" "Suc pos \<le> p"
  then show "counts N (Suc pos) (k (rest, p, x))"
    using counts_later [OF assms(2)] word_min_ge [of p rest] assms(3) by (metis le_trans)
qed

lemma scan_word_loop_counts:
  assumes "pos + byte_len rest = N"
  shows "counts N (word_min rest pos) (turn (scan_word_loop w rest pos))"
  using assms
proof (induction w rest pos rule: scan_word_loop.induct)
  case (2 w ch rest pos)
  have sum: "pos + len_utf8 ch + byte_len rest = N" using 2(7) by simp
  then have lt: "pos < N" using len_utf8_pos [of ch] by linarith
  show ?case
  proof (cases "is_word_break ch")
    case True
    then show ?thesis using 2(7) by (simp add: word_min_def)
  next
    case nb: False
    have wm: "word_min (ch # rest) pos = Suc pos" using nb by (simp add: word_min_def)
    consider (sq) "ch = c_squote" | (dq) "ch = c_dquote" | (bs) "ch = c_bslash" | (dl) "ch = c_dollar"
      | (other) "ch \<notin> {c_squote, c_dquote, c_bslash, c_dollar}" by blast
    then show ?thesis
    proof cases
      case sq
      have "counts N (Suc pos) (scan_single_quoted pos [] rest (pos + 1) (flush_literal w))"
        using scan_single_counts [of "pos + 1" rest N pos] sum sq lt by (simp add: len_utf8_ascii)
      from counts_then_loop [OF this, of "\<lambda>segs. w\<lparr>ws_segments := segs, ws_literal := [],
          ws_had_content := True, ws_last_unquoted := None\<rparr>"] show ?thesis
        using 2(1) [OF nb sq] sq nb wm by (auto split: prod.splits)
    next
      case dq
      have "counts N (Suc pos) (scan_double_quoted pos [] False rest (pos + 1) (flush_literal w))"
        using scan_double_counts [of "pos + 1" rest N pos] sum dq lt by (simp add: len_utf8_ascii)
      from counts_then_loop [OF this, of "\<lambda>segs. w\<lparr>ws_segments := segs, ws_literal := [],
          ws_had_content := True, ws_last_unquoted := None\<rparr>"] show ?thesis
        using 2(2) [OF nb _ dq] dq nb wm by (auto split: prod.splits)
    next
      case dl
      have "counts N (Suc pos) (scan_expansion rest pos False (ws_segments w) (ws_literal w))"
        using scan_expansion_counts [of pos rest N] sum dl by (simp add: len_utf8_ascii)
      from counts_then_loop [OF this, of "\<lambda>(segs, lit). w\<lparr>ws_segments := segs, ws_literal := lit,
          ws_had_content := True, ws_last_unquoted := None\<rparr>"] show ?thesis
        using 2(5) [OF nb _ _ _ dl] dl nb wm by (auto split: prod.splits)
    next
      case bs
      obtain r1 p1 e where esc: "scan_unquoted_escape rest pos = (r1, p1, e)" by (metis prod_cases3)
      have p1: "p1 + byte_len r1 = N" "Suc pos \<le> p1"
        using esc sum bs
        by (auto simp: scan_unquoted_escape_def len_utf8_ascii split: list.splits if_splits)
      have le: "Suc pos \<le> word_min r1 p1" using p1(2) word_min_ge [of p1 r1] by linarith
      show ?thesis
      proof (cases e)
        case None
        show ?thesis
          using counts_later [OF 2(3) [OF nb _ _ bs esc [symmetric] refl None p1(1)] le] bs nb esc None wm
          by simp
      next
        case (Some x)
        show ?thesis
          using counts_later [OF 2(4) [OF nb _ _ bs esc [symmetric] refl Some p1(1)] le] bs nb esc Some wm
          by simp
      qed
    next
      case other
      have le: "Suc pos \<le> word_min rest (pos + len_utf8 ch)"
        using word_min_ge [of "pos + len_utf8 ch" rest] len_utf8_pos [of ch] by linarith
      show ?thesis
        using counts_later [OF 2(6) le] other nb sum lt wm by auto
    qed
  qed
qed (simp add: word_min_def)

subsection \<open>The token stream\<close>

lemma scan_word_counts:
  assumes "pos + byte_len (ch # rest) = N" "\<not> is_word_break ch"
  shows "counts N (Suc pos) (turn (scan_word (ch # rest) pos))"
proof -
  have "counts N (Suc pos) (turn (scan_word_loop word_start (ch # rest) pos))"
    using scan_word_loop_counts [OF assms(1), of word_start] assms(2) by (simp add: word_min_def)
  then show ?thesis
    by (cases "scan_word_loop word_start (ch # rest) pos")
      (auto simp: scan_word_def counts_def split: sum.splits fault.splits)
qed

lemma skip_blanks_sum:
  "skip_blanks rest pos = (rest', pos') \<Longrightarrow> pos' + byte_len rest' = pos + byte_len rest \<and> pos \<le> pos'"
  by (induction rest pos rule: skip_blanks.induct) (auto simp: len_utf8_ascii split: if_splits)

lemma skip_comment_sum:
  "skip_comment rest pos = (rest', pos') \<Longrightarrow> pos' + byte_len rest' = pos + byte_len rest \<and> pos \<le> pos'"
  by (induction rest pos rule: skip_comment.induct) (fastforce split: if_splits)+

lemma head_before_end: "pos + byte_len (c # s) = N \<Longrightarrow> pos < N"
  using len_utf8_pos [of c] by (simp del: len_utf8_pos)

text \<open>An outcome of the redirect scanner.\<close>

definition redirect_counts ::
  "nat \<Rightarrow> nat \<Rightarrow> (redirect_token \<times> rstr \<times> nat) option pres \<Rightarrow> bool" where
  "redirect_counts N start out = (case out of
       Inr None \<Rightarrow> True
     | Inr (Some (_, rest, pos)) \<Rightarrow> pos + byte_len rest = N \<and> start \<le> pos
     | Inl (Errno e) \<Rightarrow> pe_position e < N
     | Inl Panic \<Rightarrow> False)"

lemma scan_fd_dup_counts:
  assumes "pos + byte_len rest = N" "opos < N"
  shows "redirect_counts N pos (scan_fd_dup fd op opos rest pos)"
proof (cases "peek_char rest = Some c_amp")
  case False
  then show ?thesis using assms by (simp add: scan_fd_dup_def redirect_counts_def)
next
  case True
  let ?ds = "takeWhile is_ascii_digit (tl rest)" and ?after = "dropWhile is_ascii_digit (tl rest)"
  have sum: "pos + 1 + byte_len (tl rest) = N"
    using assms(1) byte_len_tl [OF True] by (simp add: len_utf8_ascii)
  then have sum': "pos + 1 + length ?ds + byte_len ?after = N"
    using byte_while(1) [where s = "tl rest"] by linarith
  have lt: "pos + 1 < N" if "?ds \<noteq> []" using sum' that by (cases ?ds) auto
  show ?thesis
  proof (cases "parse_fd (pos + 1) ?ds")
    case (Inl f)
    then have "f = Errno \<lparr>pe_position = pos + 1, pe_kind = InvalidFileDescriptor\<rparr>"
      by (auto simp: parse_fd_def split: option.splits)
    then show ?thesis
      using True assms lt Inl by (auto simp: scan_fd_dup_def redirect_counts_def Let_def split: option.split)
  next
    case (Inr n)
    then show ?thesis
      using True assms sum' by (auto simp: scan_fd_dup_def redirect_counts_def Let_def split: option.split)
  qed
qed

lemma redirect_counts_later:
  "redirect_counts N p r \<Longrightarrow> start \<le> p \<Longrightarrow> redirect_counts N start r"
  by (auto simp: redirect_counts_def split: sum.splits option.splits fault.splits)

lemma scan_operator_counts:
  assumes "pos + byte_len rest = N"
  shows "redirect_counts N (Suc pos) (scan_operator fd rest pos)"
proof (cases rest)
  case Nil
  then show ?thesis by (simp add: scan_operator_def redirect_counts_def)
next
  case (Cons c after)
  have lt: "pos < N" by (rule head_before_end [OF assms [unfolded Cons]])
  have one: "pos + 1 + byte_len after = N" if "c < 128" using assms Cons that by (simp add: len_utf8_ascii)
  have two: "pos + 2 + byte_len (tl after) = N" if "c < 128" "peek_char after = Some c_gt"
    using one [OF that(1)] byte_len_tl [OF that(2)] by (simp add: len_utf8_ascii)
  note dup = scan_fd_dup_counts [of "pos + 1" after N pos] scan_fd_dup_counts [of "pos + 2" "tl after" N pos]
  show ?thesis
    using Cons lt one two dup
    by (auto simp: scan_operator_def redirect_counts_def [of _ _ "perr _ _"]
        redirect_counts_def [of _ _ "Inr None"] intro: redirect_counts_later [OF _ le_SucI [OF order_refl]])
qed

lemma scan_redirect_counts:
  assumes "pos + byte_len rest = N"
  shows "redirect_counts N (Suc pos) (scan_redirect rest pos)"
proof -
  let ?ds = "takeWhile is_ascii_digit rest" and ?after = "dropWhile is_ascii_digit rest"
  have sum: "pos + length ?ds + byte_len ?after = N"
    using assms byte_while(1) [where s = rest] by linarith
  show ?thesis
  proof (cases "?ds \<noteq> [] \<and> (peek_char ?after = Some c_lt \<or> peek_char ?after = Some c_gt)")
    case False
    then show ?thesis
      using scan_operator_counts [OF assms, of None] by (auto simp: scan_redirect_def Let_def)
  next
    case True
    then have lt: "pos < N" using sum by (cases ?ds) auto
    show ?thesis
    proof (cases "parse_fd pos ?ds")
      case (Inl f)
      then have "f = Errno \<lparr>pe_position = pos, pe_kind = InvalidFileDescriptor\<rparr>"
        by (auto simp: parse_fd_def split: option.splits)
      then show ?thesis using True Inl lt by (simp add: scan_redirect_def Let_def redirect_counts_def)
    next
      case (Inr n)
      then show ?thesis
        using True redirect_counts_later [OF scan_operator_counts [OF sum], of "Suc pos" "Some n"]
        by (simp add: scan_redirect_def Let_def)
    qed
  qed
qed

text \<open>The redirect scanner takes every \<open><\<close> and \<open>>\<close>, so the last branch of the lexer is dead.\<close>

lemma scan_redirect_None:
  assumes "scan_redirect (ch # after) pos = Inr None"
  shows "ch \<noteq> c_lt \<and> ch \<noteq> c_gt"
proof -
  have dup: "scan_fd_dup fd op opos rest p \<noteq> Inr None" for fd op opos rest p
    by (auto simp: scan_fd_dup_def Let_def obind_eq_Ok)
  have "takeWhile is_ascii_digit (ch # after) = []" if "ch = c_lt \<or> ch = c_gt"
    using that by (auto simp: is_ascii_digit_def)
  then show ?thesis
    using assms dup by (auto simp: scan_redirect_def scan_operator_def Let_def split: if_splits)
qed

lemma lex_other_counts:
  assumes "pos + byte_len (ch # after) = N" "ch \<noteq> c_space" "ch \<noteq> c_tab" "ch \<noteq> c_lt" "ch \<noteq> c_gt"
  shows "counts N (Suc pos) (turn (lex_other ch after pos))"
proof -
  have two: "pos + 2 + byte_len (tl after) = N"
    if "ch < 128" "peek_char after = Some c" "c < 128" for c
    using assms(1) byte_len_tl [OF that(2)] that by (simp add: len_utf8_ascii)
  show ?thesis
  proof (cases "is_word_break ch")
    case True
    then show ?thesis
      using assms two by (auto simp: lex_other_def is_word_break_def len_utf8_ascii)
  next
    case False
    then have "ch \<noteq> c_nl" "ch \<noteq> c_semi" "ch \<noteq> c_pipe" "ch \<noteq> c_amp" by (auto simp: is_word_break_def)
    then show ?thesis
      using scan_word_counts [OF assms(1) False] assms(4,5)
      by (cases "scan_word (ch # after) pos") (auto simp: lex_other_def counts_def split: fault.splits)
  qed
qed

lemma lex_other_tokens:
  "lex_other ch after pos = Inr (ts, x) \<Longrightarrow> ts = [] \<or> (\<exists>k. ts = [tok k pos])"
  by (auto simp: lex_other_def obind_eq_Ok split: if_splits option.splits)

definition tokens_in :: "nat \<Rightarrow> nat \<Rightarrow> token list pres \<Rightarrow> bool" where
  "tokens_in N start out = (case out of
       Inr ts \<Rightarrow> sorted_wrt (<) (map tk_position ts) \<and> (\<forall>t\<in>set ts. start \<le> tk_position t \<and> tk_position t < N)
     | Inl (Errno e) \<Rightarrow> pe_position e < N
     | Inl Panic \<Rightarrow> False)"

lemma tokens_in_cons:
  "tokens_in N (Suc p) r \<Longrightarrow> p < N \<Longrightarrow> start \<le> p \<Longrightarrow> ts = [] \<or> (\<exists>k. ts = [tok k p]) \<Longrightarrow>
   tokens_in N start (obind r (\<lambda>us. Ok (ts @ us)))"
  by (cases r) (auto simp: tokens_in_def Suc_le_eq split: fault.splits)

lemma tokens_in_later: "tokens_in N p r \<Longrightarrow> start \<le> p \<Longrightarrow> tokens_in N start r"
  by (auto simp: tokens_in_def split: sum.splits fault.splits)

lemma lex_loop_step:
  "skip_blanks (c # cs) pos = (ch # after, pos1) \<Longrightarrow>
   lex_loop (c # cs) pos = (if ch = c_hash then
          (case skip_comment (ch # after) pos1 of (rest, pos2) \<Rightarrow> lex_loop rest pos2)
          else obind (scan_redirect (ch # after) pos1) (\<lambda>red.
            case red of
              Some (redirect, rest, pos2) \<Rightarrow>
                obind (lex_loop rest pos2) (\<lambda>ts. Ok (tok (TkRedirect redirect) pos1 # ts))
            | None \<Rightarrow>
                obind (lex_other ch after pos1) (\<lambda>(new, rest, pos2).
                  obind (lex_loop rest pos2) (\<lambda>ts. Ok (new @ ts)))))"
  by (simp del: skip_blanks.simps skip_comment.simps)

lemma lex_loop_tokens: "pos + byte_len rest = N \<Longrightarrow> tokens_in N pos (lex_loop rest pos)"
proof (induction rest pos rule: lex_loop.induct)
  case (2 c cs pos)
  obtain r1 pos1 where sk: "skip_blanks (c # cs) pos = (r1, pos1)" by fastforce
  have s1: "pos1 + byte_len r1 = N" "pos \<le> pos1" using skip_blanks_sum [OF sk] 2(4) by auto
  show ?case
  proof (cases r1)
    case Nil
    then show ?thesis using sk by (simp add: tokens_in_def del: skip_blanks.simps)
  next
    case (Cons ch after)
    have hd: "ch \<noteq> c_space" "ch \<noteq> c_tab" using skip_blanks_head [OF sk [unfolded Cons]] by auto
    have lt: "pos1 < N" by (rule head_before_end [OF s1(1) [unfolded Cons]])
    note loop = lex_loop_step [OF sk [unfolded Cons]]
    show ?thesis
    proof (cases "ch = c_hash")
      case True
      obtain r2 pos2 where sc: "skip_comment (ch # after) pos1 = (r2, pos2)" by fastforce
      have "tokens_in N pos2 (lex_loop r2 pos2)"
        using 2(1) [OF sk [unfolded Cons, symmetric] refl True sc [symmetric]] skip_comment_sum [OF sc]
          s1 Cons by simp
      then show ?thesis
        unfolding loop using True sc skip_comment_sum [OF sc] s1(2)
        by (auto simp del: skip_comment.simps intro: tokens_in_later)
    next
      case nh: False
      note rc = scan_redirect_counts [OF s1(1) [unfolded Cons]]
      show ?thesis
      proof (cases "scan_redirect (ch # after) pos1")
        case (Inl f)
        then show ?thesis
          unfolding loop using nh rc by (auto simp: tokens_in_def redirect_counts_def split: fault.splits)
      next
        case (Inr red)
        show ?thesis
        proof (cases red)
          case (Some x)
          obtain rt rest pos2 where x: "x = (rt, rest, pos2)" by (metis prod_cases3)
          have s2: "pos2 + byte_len rest = N" "Suc pos1 \<le> pos2"
            using rc Inr Some x by (auto simp: redirect_counts_def)
          have "tokens_in N pos2 (lex_loop rest pos2)"
            by (rule 2(3) [OF sk [unfolded Cons, symmetric] refl nh Inr Some x [symmetric] refl s2(1)])
          from tokens_in_cons [OF tokens_in_later [OF this s2(2)] lt s1(2),
              of "[tok (TkRedirect rt) pos1]"] show ?thesis
            unfolding loop using nh Inr Some x by simp
        next
          case None
          have ne: "ch \<noteq> c_lt" "ch \<noteq> c_gt" using scan_redirect_None Inr None by auto
          note oc = lex_other_counts [OF s1(1) [unfolded Cons] hd ne]
          show ?thesis
          proof (cases "lex_other ch after pos1")
            case (Inl f)
            then show ?thesis
              unfolding loop using nh Inr None oc
              by (auto simp: tokens_in_def counts_def split: fault.splits)
          next
            case (Inr out)
            obtain new rest pos2 where x: "out = (new, rest, pos2)" by (metis prod_cases3)
            have s2: "pos2 + byte_len rest = N" "Suc pos1 \<le> pos2" using oc Inr x by auto
            have "tokens_in N pos2 (lex_loop rest pos2)"
              by (rule 2(2) [OF sk [unfolded Cons, symmetric] refl nh
                    \<open>scan_redirect _ _ = _\<close> None Inr x [symmetric] refl s2(1)])
            from tokens_in_cons [OF tokens_in_later [OF this s2(2)] lt s1(2) lex_other_tokens] show ?thesis
              unfolding loop using nh \<open>scan_redirect _ _ = _\<close> None Inr x by simp
          qed
        qed
      qed
    qed
  qed
qed (simp add: tokens_in_def)

subsection \<open>What a word can contain\<close>

text \<open>
  The characters an unquoted literal may hold: no blank or operator, no quote, no glob, no
  command substitution, no brace and no backslash.
\<close>

definition plain_char :: "rchar \<Rightarrow> bool" where
  "plain_char c \<longleftrightarrow> \<not> is_word_break c
     \<and> c \<notin> {c_squote, c_dquote, c_bslash, c_star, c_quest, c_btick, c_lparen, c_rparen, c_lbrace, c_rbrace}"

definition expandable :: "rstr \<Rightarrow> bool" where
  "expandable name \<longleftrightarrow> name = rs ''?'' \<or> (is_assignment_name name \<and> name \<noteq> rs ''_'')"

primrec seg_ok :: "segment \<Rightarrow> bool" where
  "seg_ok (Literal v q) = (q \<or> (v \<noteq> [] \<and> list_all plain_char v))"
| "seg_ok (Expansion name q) = expandable name"

lemma push_literal_ok:
  assumes "list_all seg_ok segs" "q \<or> list_all plain_char lit"
  shows "list_all seg_ok (push_literal segs lit q)"
proof (cases "lit = [] \<or> segs = []")
  case True
  then show ?thesis using assms by (auto simp: push_literal_def)
next
  case False
  then have "segs = butlast segs @ [last segs]" by simp
  then have "list_all seg_ok (butlast segs)" "seg_ok (last segs)"
    using assms(1) by (metis list_all_append list.pred_inject(2))+
  then show ?thesis
    using assms False by (cases "last segs") (auto simp: push_literal_def)
qed

lemma name_expandable:
  "is_name_start c \<Longrightarrow> c # takeWhile is_name_continue s \<noteq> rs ''_'' \<Longrightarrow>
   expandable (c # takeWhile is_name_continue s)"
  by (auto simp: expandable_def is_assignment_name_def is_name_start_def is_name_continue_def
      list_all_iff dest: set_takeWhileD)

lemma push_expansion_ok:
  "list_all seg_ok segs \<Longrightarrow> q \<or> list_all plain_char lit \<Longrightarrow> expandable name \<Longrightarrow>
   list_all seg_ok (push_expansion segs lit name q)"
  by (simp add: push_expansion_def push_literal_before_expansion_def push_literal_ok)

lemma expandable_quest [simp]: "expandable (rs ''?'')"
  by (simp add: expandable_def)

lemma scan_braced_ok:
  assumes "scan_braced_expansion rest pos q segs lit = Inr (rest', pos', segs', lit')"
    and "list_all seg_ok segs" "q \<or> list_all plain_char lit"
  shows "list_all seg_ok segs' \<and> lit' = []"
  using assms name_expandable
  by (auto simp: scan_braced_expansion_def Let_def simp del: rs_cons
      split: list.splits if_splits option.splits intro!: push_expansion_ok)

lemma scan_expansion_ok:
  assumes "scan_expansion rest pos q segs lit = Inr (rest', pos', segs', lit')"
    and "list_all seg_ok segs" "q \<or> list_all plain_char lit"
  shows "list_all seg_ok segs' \<and> (q \<or> list_all plain_char lit')"
proof (cases "\<exists>after. rest = c_lbrace # after")
  case True
  then obtain after where "scan_braced_expansion after pos q segs lit = Inr (rest', pos', segs', lit')"
    using assms(1) by (auto simp: scan_expansion_def)
  from scan_braced_ok [OF this assms(2,3)] show ?thesis by simp
next
  case False
  have "plain_char c_dollar" by (simp add: plain_char_def is_word_break_def)
  with False show ?thesis
    using assms name_expandable
    by (auto simp: scan_expansion_def Let_def simp del: rs_cons
        split: list.splits if_splits intro!: push_expansion_ok)
qed

lemma scan_single_ok:
  "scan_single_quoted qp lit rest pos segs = Inr (rest', pos', segs') \<Longrightarrow>
   list_all seg_ok segs \<Longrightarrow> list_all seg_ok segs'"
  by (induction qp lit rest pos segs rule: scan_single_quoted.induct)
    (auto split: if_splits intro: push_literal_ok)

lemma scan_double_ok:
  "scan_double_quoted qp lit hc rest pos segs = Inr (rest', pos', segs') \<Longrightarrow>
   list_all seg_ok segs \<Longrightarrow> list_all seg_ok segs'"
proof (induction qp lit hc rest pos segs rule: scan_double_quoted.induct)
  case (2 qp lit hc ch rest pos segs)
  show ?case
  proof (cases "ch = c_dollar")
    case True
    then obtain r p sg l where e: "scan_expansion rest pos True segs lit = Inr (r, p, sg, l)"
      "scan_double_quoted qp l True r p sg = Inr (rest', pos', segs')"
      using 2(4) by (auto simp: obind_eq_Ok)
    have "list_all seg_ok sg" using scan_expansion_ok [OF e(1) 2(5)] by simp
    then show ?thesis using 2(2) [OF _ _ True e(1) refl refl refl e(2)] True by simp
  next
    case False
    then show ?thesis
      using 2(1,3,4,5) by (auto simp: obind_eq_Ok push_literal_ok split: if_splits)
  qed
qed simp

definition word_ok :: "word_state \<Rightarrow> bool" where
  "word_ok w \<longleftrightarrow> list_all seg_ok (ws_segments w) \<and> list_all plain_char (ws_literal w)"

lemma flush_ok: "word_ok w \<Longrightarrow> list_all seg_ok (flush_literal w)"
  by (simp add: word_ok_def flush_literal_def push_literal_ok)

lemma scan_word_loop_ok:
  "scan_word_loop w rest pos = Inr (w', rest', pos') \<Longrightarrow> word_ok w \<Longrightarrow> word_ok w'"
proof (induction w rest pos rule: scan_word_loop.induct)
  case (2 w ch rest pos)
  show ?case
  proof (cases "is_word_break ch")
    case True
    then show ?thesis using 2(7,8) by simp
  next
    case nb: False
    consider (sq) "ch = c_squote" | (dq) "ch = c_dquote" | (bs) "ch = c_bslash" | (dl) "ch = c_dollar"
      | (other) "ch \<notin> {c_squote, c_dquote, c_bslash, c_dollar}" by blast
    then show ?thesis
    proof cases
      case sq
      then obtain r p sg where e: "scan_single_quoted pos [] rest (pos + 1) (flush_literal w) = Inr (r, p, sg)"
        "scan_word_loop (w\<lparr>ws_segments := sg, ws_literal := [], ws_had_content := True,
            ws_last_unquoted := None\<rparr>) r p = Inr (w', rest', pos')"
        using 2(7) nb by (auto simp: obind_eq_Ok)
      show ?thesis
        using 2(1) [OF nb sq e(1) refl refl e(2)] scan_single_ok [OF e(1) flush_ok [OF 2(8)]]
        by (simp add: word_ok_def)
    next
      case dq
      then obtain r p sg where e: "scan_double_quoted pos [] False rest (pos + 1) (flush_literal w) = Inr (r, p, sg)"
        "scan_word_loop (w\<lparr>ws_segments := sg, ws_literal := [], ws_had_content := True,
            ws_last_unquoted := None\<rparr>) r p = Inr (w', rest', pos')"
        using 2(7) nb by (auto simp: obind_eq_Ok)
      show ?thesis
        using 2(2) [OF nb _ dq e(1) refl refl e(2)] scan_double_ok [OF e(1) flush_ok [OF 2(8)]] dq
        by (simp add: word_ok_def)
    next
      case dl
      then obtain r p sg l where e: "scan_expansion rest pos False (ws_segments w) (ws_literal w) = Inr (r, p, sg, l)"
        "scan_word_loop (w\<lparr>ws_segments := sg, ws_literal := l, ws_had_content := True,
            ws_last_unquoted := None\<rparr>) r p = Inr (w', rest', pos')"
        using 2(7) nb by (auto simp: obind_eq_Ok)
      show ?thesis
        using 2(5) [OF nb _ _ _ dl e(1) refl refl refl e(2)] scan_expansion_ok [OF e(1)] 2(8) dl
        by (simp add: word_ok_def)
    next
      case bs
      obtain r1 p1 e where esc: "scan_unquoted_escape rest pos = (r1, p1, e)" by (metis prod_cases3)
      show ?thesis
        using 2(3) [OF nb _ _ bs esc [symmetric] refl] 2(4) [OF nb _ _ bs esc [symmetric] refl] 2(7,8) bs nb esc
          push_literal_ok [OF flush_ok [OF 2(8)], of True]
        by (cases e) (auto simp: word_ok_def)
    next
      case other
      have "plain_char ch" if "ch \<noteq> c_star" "ch \<noteq> c_quest" "ch \<noteq> c_btick" "ch \<noteq> c_lparen"
          "ch \<noteq> c_rparen" "ch \<noteq> c_lbrace" "ch \<noteq> c_rbrace"
        using that other nb by (simp add: plain_char_def)
      then show ?thesis using 2(6-8) other nb by (auto simp: word_ok_def split: if_splits)
    qed
  qed
qed simp

lemma scan_word_ok:
  "scan_word rest pos = Inr (Some w, x) \<Longrightarrow> list_all seg_ok (segments w)"
proof -
  assume "scan_word rest pos = Inr (Some w, x)"
  then obtain w' r p where w': "scan_word_loop word_start rest pos = Inr (w', r, p)"
      "w = \<lparr>segments = flush_literal w'\<rparr>"
    by (auto simp: scan_word_def obind_eq_Ok split: if_splits)
  have "word_ok word_start" by (simp add: word_ok_def word_start_def)
  then show ?thesis using flush_ok [OF scan_word_loop_ok [OF w'(1)]] w'(2) by simp
qed

definition token_ok :: "token \<Rightarrow> bool" where
  "token_ok t = (case tk_kind t of TkWord w \<Rightarrow> list_all seg_ok (segments w) | _ \<Rightarrow> True)"

lemma lex_other_ok: "lex_other ch after pos = Inr (ts, x) \<Longrightarrow> list_all token_ok ts"
proof -
  assume *: "lex_other ch after pos = Inr (ts, x)"
  consider k where "ts = [tok k pos]" "\<And>w. k \<noteq> TkWord w"
    | w rest' where "scan_word (ch # after) pos = Inr (w, rest')"
        "ts = (case w of Some w \<Rightarrow> [tok (TkWord w) pos] | None \<Rightarrow> [])"
    using * by (auto simp: lex_other_def obind_eq_Ok split: if_splits)
  then show ?thesis
  proof cases
    case 1
    then show ?thesis by (cases k) (auto simp: token_ok_def)
  next
    case 2
    then show ?thesis by (cases w) (auto simp: token_ok_def dest: scan_word_ok)
  qed
qed

lemma lex_loop_ok: "lex_loop rest pos = Inr ts \<Longrightarrow> list_all token_ok ts"
proof (induction rest pos arbitrary: ts rule: lex_loop.induct)
  case (2 c cs pos)
  obtain r1 pos1 where sk: "skip_blanks (c # cs) pos = (r1, pos1)" by fastforce
  show ?case
  proof (cases r1)
    case Nil
    then show ?thesis using sk 2(4) by (simp del: skip_blanks.simps)
  next
    case (Cons ch after)
    note sk' = sk [unfolded Cons]
    note loop = lex_loop_step [OF sk']
    show ?thesis
    proof (cases "ch = c_hash")
      case True
      obtain r2 pos2 where sc: "skip_comment (ch # after) pos1 = (r2, pos2)" by fastforce
      show ?thesis
        using 2(1) [OF sk' [symmetric] refl True sc [symmetric]] 2(4) True sc
        unfolding loop by (simp del: skip_comment.simps)
    next
      case nh: False
      then obtain red where red: "scan_redirect (ch # after) pos1 = Inr red"
        using 2(4) unfolding loop by (auto simp: obind_eq_Ok)
      show ?thesis
      proof (cases red)
        case (Some x)
        obtain rt rest pos2 where x: "x = (rt, rest, pos2)" by (metis prod_cases3)
        then obtain us where us: "lex_loop rest pos2 = Inr us" "ts = tok (TkRedirect rt) pos1 # us"
          using 2(4) nh red Some unfolding loop by (auto simp: obind_eq_Ok)
        from 2(3) [OF sk' [symmetric] refl nh red Some x [symmetric] refl us(1)] show ?thesis
          using us(2) by (simp add: token_ok_def)
      next
        case None
        then obtain new rest pos2 us where o: "lex_other ch after pos1 = Inr (new, rest, pos2)"
          "lex_loop rest pos2 = Inr us" "ts = new @ us"
          using 2(4) nh red unfolding loop by (auto simp: obind_eq_Ok)
        from 2(2) [OF sk' [symmetric] refl nh red None o(1) refl refl o(2)] show ?thesis
          using o(3) lex_other_ok [OF o(1)] by simp
      qed
    qed
  qed
qed simp

end
