(* ===== verification/Shell_Parse_Props.thy ===== *)
theory Shell_Parse_Props
  imports Shell_Lex_Props
begin

text \<open>
  What the parser returns: a program whose words are clean and whose commands and pipelines
  are not empty, or an error positioned inside the input. And the parser reads back every
  well-formed program from its tokens.
\<close>

subsection \<open>Parser states and results\<close>

definition parser_ok :: "nat \<Rightarrow> parser \<Rightarrow> bool" where
  "parser_ok N p \<longleftrightarrow> byte_len (ps_input p) = N
     \<and> (\<forall>t\<in>set (ps_rest p). tk_position t \<le> N \<and> token_ok t)
     \<and> (\<forall>t\<in>set_option (ps_prev p). tk_position t \<le> N)"

definition gives :: "nat \<Rightarrow> ('a \<Rightarrow> bool) \<Rightarrow> ('a \<times> parser) pres \<Rightarrow> bool" where
  "gives N P out = (case out of
       Inr (x, p) \<Rightarrow> P x \<and> parser_ok N p
     | Inl (Errno e) \<Rightarrow> pe_position e \<le> N
     | Inl Panic \<Rightarrow> False)"

lemma gives_simps [simp]:
  "gives N P (Inr (x, p)) \<longleftrightarrow> P x \<and> parser_ok N p" "gives N P (Err e) \<longleftrightarrow> pe_position e \<le> N"
  "\<not> gives N P (Inl Panic)"
  by (simp_all add: gives_def)

lemma gives_obind:
  assumes "gives N P r" and "\<And>x p. r = Inr (x, p) \<Longrightarrow> P x \<Longrightarrow> parser_ok N p \<Longrightarrow> gives N Q (k (x, p))"
  shows "gives N Q (obind r k)"
proof (cases r)
  case (Inl f)
  then show ?thesis using assms(1) by (cases f) (simp_all add: gives_def)
next
  case (Inr v)
  then show ?thesis using assms by (cases v) auto
qed

lemma parser_ok_advance: "parser_ok N p \<Longrightarrow> ps_rest p \<noteq> [] \<Longrightarrow> parser_ok N (advance p)"
  by (cases "ps_rest p") (auto simp: parser_ok_def advance_def)

lemma unexpected_gives: "parser_ok N p \<Longrightarrow> gives N P (unexpected p e)"
  by (auto simp: unexpected_def parser_ok_def split: list.splits)

lemma consume_if_ok: "consume_if p f = (b, p') \<Longrightarrow> parser_ok N p \<Longrightarrow> parser_ok N p'"
  by (auto simp: consume_if_def ps_peek_def split: list.splits if_splits option.splits
      intro: parser_ok_advance)

lemma consume_newlines_ok: "parser_ok N p \<Longrightarrow> parser_ok N (consume_newlines p)"
proof (induction p rule: consume_newlines.induct)
  case (1 p)
  obtain b p' where c: "consume_if p (\<lambda>k. k = TkNewline) = (b, p')" by fastforce
  then show ?case
    using 1(1) [OF c [symmetric]] consume_if_ok [OF c 1(2)]
    by (subst consume_newlines.simps) (cases b; auto)
qed

lemma consume_and_or_ok: "consume_and_or p = (o', p') \<Longrightarrow> parser_ok N p \<Longrightarrow> parser_ok N p'"
  by (auto simp: consume_and_or_def ps_peek_def split: list.splits option.splits token_kind.splits
      intro: parser_ok_advance)

subsection \<open>Positions\<close>

lemma drop_bytes_sum: "drop_bytes s n = Some r \<Longrightarrow> n + byte_len r = byte_len s"
  by (induction s n arbitrary: r rule: drop_bytes.induct) (fastforce split: if_splits)+

lemma source_position_le: "source_position_loop rest cur lb t \<le> cur + byte_len rest"
proof (induction rest cur lb t rule: source_position_loop.induct)
  case (2 ch rest cur lb t)
  show ?case
  proof (cases "ch = c_bslash \<and> peek_char rest = Some c_nl \<and> \<not> (lb = t \<or> is_word_break ch)")
    case True
    then obtain r where r: "rest = c_nl # r" by (cases rest) auto
    then show ?thesis using 2(1) [of c_nl r] True by (simp add: len_utf8_ascii)
  next
    case False
    then show ?thesis using 2(2) by auto
  qed
qed simp

lemma source_position_bound:
  "position \<le> byte_len input \<Longrightarrow>
   source_position_for_unquoted_literal_byte input position t \<le> byte_len input"
proof (cases "drop_bytes input position")
  case (Some r)
  then show ?thesis
    using drop_bytes_sum [OF Some] source_position_le [of r position 0 t]
    by (simp add: source_position_for_unquoted_literal_byte_def)
qed (simp add: source_position_for_unquoted_literal_byte_def)

subsection \<open>Clean programs\<close>

definition word_clean :: "sh_word \<Rightarrow> bool" where
  "word_clean w \<longleftrightarrow> list_all seg_ok (segments w)"

definition assignment_clean :: "assignment \<Rightarrow> bool" where
  "assignment_clean a \<longleftrightarrow> is_assignment_name (as_name a) \<and> word_clean (as_value a)"

definition redirect_clean :: "redirect \<Rightarrow> bool" where
  "redirect_clean r = (case rd_target r of TWord w \<Rightarrow> word_clean w | TFd _ \<Rightarrow> True)"

definition simple_clean :: "simple_command \<Rightarrow> bool" where
  "simple_clean c \<longleftrightarrow> list_all assignment_clean (sc_assignments c) \<and> list_all word_clean (sc_words c)
     \<and> list_all redirect_clean (sc_redirects c)"

fun command_clean :: "command \<Rightarrow> bool" where
  "command_clean (Simple c) \<longleftrightarrow> simple_clean c
     \<and> (sc_assignments c \<noteq> [] \<or> sc_words c \<noteq> [] \<or> sc_redirects c \<noteq> [])"

definition pipeline_clean :: "pipeline \<Rightarrow> bool" where
  "pipeline_clean pl \<longleftrightarrow> commands pl \<noteq> [] \<and> list_all command_clean (commands pl)"

definition list_clean :: "and_or_list \<Rightarrow> bool" where
  "list_clean l \<longleftrightarrow> pipeline_clean (al_first l) \<and> list_all (\<lambda>a. pipeline_clean (ao_pipeline a)) (al_rest l)"

definition program_clean :: "shell_program \<Rightarrow> bool" where
  "program_clean prog \<longleftrightarrow> list_all list_clean (lists prog)"

lemma assignment_from_word_result:
  assumes "position \<le> byte_len input" and "word_clean w"
  shows "case assignment_from_word input w position of
      Inr None \<Rightarrow> True
    | Inr (Some a) \<Rightarrow> assignment_clean a
    | Inl (Errno e) \<Rightarrow> pe_position e \<le> byte_len input
    | Inl Panic \<Rightarrow> False"
proof (cases "\<exists>v others. segments w = Literal v False # others")
  case True
  then obtain v others where w: "segments w = Literal v False # others" by blast
  have "list_all plain_char (drop n v)" for n
    using assms(2) w by (auto simp: word_clean_def list_all_iff dest: in_set_dropD)
  then show ?thesis
    using assms w source_position_bound
    by (auto simp: assignment_from_word_def Let_def assignment_clean_def word_clean_def
        split: option.splits)
next
  case False
  then have "assignment_from_word input w position = Ok None"
    by (auto simp: assignment_from_word_def split: list.splits segment.splits bool.splits)
  then show ?thesis by simp
qed

lemma parse_redirect_gives:
  "parser_ok N p \<Longrightarrow> gives N redirect_clean (parse_redirect p rt)"
  by (auto simp: parse_redirect_def ps_peek_def parser_ok_def token_ok_def redirect_clean_def
      word_clean_def previous_position_def advance_def split: option.splits list.splits token_kind.splits)

text \<open>The command so far, and whether an element was seen.\<close>

definition elements_ok :: "simple_command \<times> bool \<Rightarrow> bool" where
  "elements_ok x = (case x of (c, saw) \<Rightarrow> simple_clean c
     \<and> (saw \<longrightarrow> sc_assignments c \<noteq> [] \<or> sc_words c \<noteq> [] \<or> sc_redirects c \<noteq> []))"

lemma elements_ok_pair: "elements_ok (c, saw) \<longleftrightarrow> simple_clean c
   \<and> (saw \<longrightarrow> sc_assignments c \<noteq> [] \<or> sc_words c \<noteq> [] \<or> sc_redirects c \<noteq> [])"
  by (simp add: elements_ok_def)

definition pair_up :: "('a \<times> 'b \<times> parser) pres \<Rightarrow> (('a \<times> 'b) \<times> parser) pres" where
  "pair_up r = obind r (\<lambda>(a, b, p). Ok ((a, b), p))"

lemma pair_up_simps [simp]:
  "pair_up (Inr (a, b, p)) = Inr ((a, b), p)" "pair_up (Inl f) = Inl f"
  "pair_up (obind r k) = obind r (\<lambda>v. pair_up (k v))"
  by (simp_all add: pair_up_def) (cases r; simp)

lemma parse_elements_gives:
  "parser_ok N p \<Longrightarrow> elements_ok (c, saw) \<Longrightarrow> gives N elements_ok (pair_up (parse_elements p c saw))"
proof (induction p c saw rule: parse_elements.induct)
  case (1 p c saw)
  show ?case
  proof (cases "ps_rest p")
    case Nil
    then show ?thesis using 1(5,6) by (subst parse_elements.simps) simp
  next
    case (Cons t ts)
    have adv: "parser_ok N (advance p)" using parser_ok_advance [OF 1(5)] Cons by simp
    have t: "tk_position t \<le> byte_len (ps_input p)" "token_ok t" and N: "byte_len (ps_input p) = N"
      using 1(5) Cons by (auto simp: parser_ok_def)
    show ?thesis
    proof (cases "tk_kind t")
      case (TkWord w)
      then have wc: "word_clean w" using t(2) by (simp add: token_ok_def word_clean_def)
      show ?thesis
      proof (cases "sc_words c = []")
        case True
        show ?thesis
        proof (cases "assignment_from_word (ps_input p) w (tk_position t)")
          case (Inl f)
          then show ?thesis
            using assignment_from_word_result [OF t(1) wc] Cons TkWord True N
            by (subst parse_elements.simps) (auto simp: gives_def split: fault.splits)
        next
          case (Inr a)
          show ?thesis
          proof (cases a)
            case None
            from 1(1) [OF Cons TkWord True Inr None adv] show ?thesis
              using 1(6) Cons TkWord True Inr None wc
              by (subst parse_elements.simps) (simp add: elements_ok_pair simple_clean_def)
          next
            case (Some b)
            have "assignment_clean b"
              using assignment_from_word_result [OF t(1) wc] Inr Some by simp
            with 1(2) [OF Cons TkWord True Inr Some adv] show ?thesis
              using 1(6) Cons TkWord True Inr Some
              by (subst parse_elements.simps) (simp add: elements_ok_pair simple_clean_def)
          qed
        qed
      next
        case False
        from 1(3) [OF Cons TkWord False adv] show ?thesis
          using 1(6) Cons TkWord False wc
          by (subst parse_elements.simps) (simp add: elements_ok_pair simple_clean_def)
      qed
    next
      case (TkRedirect rt)
      have "gives N elements_ok (obind (parse_redirect (advance p) rt) (\<lambda>(r, p').
          pair_up (parse_elements p' (c\<lparr>sc_redirects := sc_redirects c @ [r]\<rparr>) True)))"
      proof (rule gives_obind [OF parse_redirect_gives [OF adv]])
        fix r p'
        assume r: "parse_redirect (advance p) rt = Inr (r, p')" "redirect_clean r" "parser_ok N p'"
        show "gives N elements_ok (case (r, p') of (r, p') \<Rightarrow>
            pair_up (parse_elements p' (c\<lparr>sc_redirects := sc_redirects c @ [r]\<rparr>) True))"
          using 1(4) [OF Cons TkRedirect r(1) refl r(3)] 1(6) r(2)
          by (simp add: elements_ok_pair simple_clean_def)
      qed
      then show ?thesis
        using Cons TkRedirect by (subst parse_elements.simps) (simp add: case_prod_unfold)
    qed (use 1(5,6) Cons in \<open>subst parse_elements.simps, simp\<close>)+
  qed
qed

lemma parse_command_gives:
  assumes "parser_ok N p"
  shows "gives N command_clean (parse_command p e)"
proof (cases "\<not> starts_command p \<or>
    (case ps_rest p of t # _ \<Rightarrow> is_pipeline_negation_word (tk_kind t) | [] \<Rightarrow> False)")
  case True
  then show ?thesis
    using assms unexpected_gives [OF assms]
    by (cases "ps_rest p") (auto simp: parse_command_def parser_ok_def)
next
  case False
  let ?c = "\<lparr>sc_assignments = [], sc_words = [], sc_redirects = []\<rparr>"
  have g: "gives N elements_ok (pair_up (parse_elements p ?c False))"
    by (rule parse_elements_gives [OF assms]) (simp add: elements_ok_pair simple_clean_def)
  show ?thesis
  proof (cases "parse_elements p ?c False")
    case (Inl f)
    then show ?thesis using g False by (cases f) (simp_all add: parse_command_def)
  next
    case (Inr v)
    obtain c saw p' where v: "v = (c, saw, p')" by (metis prod_cases3)
    then show ?thesis
      using g False Inr unexpected_gives [of N p']
      by (cases saw) (simp_all add: parse_command_def elements_ok_pair)
  qed
qed

lemma parse_pipeline_rest_gives:
  "parser_ok N p \<Longrightarrow> cs \<noteq> [] \<Longrightarrow> list_all command_clean cs \<Longrightarrow>
   gives N (\<lambda>cs. cs \<noteq> [] \<and> list_all command_clean cs) (parse_pipeline_rest p cs)"
proof (induction p cs rule: parse_pipeline_rest.induct)
  case (1 p cs)
  obtain b p1 where c: "consume_if p (\<lambda>k. k = TkPipe) = (b, p1)" by fastforce
  have p1: "parser_ok N p1" by (rule consume_if_ok [OF c 1(2)])
  show ?case
  proof (cases b)
    case True
    have "gives N (\<lambda>cs. cs \<noteq> [] \<and> list_all command_clean cs)
       (obind (parse_command (consume_newlines p1) (rs ''command after pipe''))
         (\<lambda>(c, p2). parse_pipeline_rest p2 (cs @ [c])))"
      using 1(1) [OF c [symmetric] _ _ refl] True 1(3,4)
      by (intro gives_obind [OF parse_command_gives [OF consume_newlines_ok [OF p1]]]) auto
    then show ?thesis using c True by (subst parse_pipeline_rest.simps) simp
  next
    case False
    then show ?thesis using c p1 1(3,4) by (subst parse_pipeline_rest.simps) simp
  qed
qed

lemma parse_pipeline_gives:
  assumes "parser_ok N p"
  shows "gives N pipeline_clean (parse_pipeline p e)"
  unfolding parse_pipeline_def
proof (rule gives_obind [OF parse_command_gives [OF assms]], clarify)
  fix c p1
  assume "command_clean c" "parser_ok N p1"
  then have "gives N (\<lambda>cs. cs \<noteq> [] \<and> list_all command_clean cs) (parse_pipeline_rest p1 [c])"
    by (intro parse_pipeline_rest_gives) simp_all
  then show "gives N pipeline_clean (obind (parse_pipeline_rest p1 [c]) (\<lambda>(cs, p2). Ok (\<lparr>commands = cs\<rparr>, p2)))"
    by (rule gives_obind) (auto simp: pipeline_clean_def)
qed

lemma parse_and_or_rest_gives:
  "parser_ok N p \<Longrightarrow> list_all (\<lambda>a. pipeline_clean (ao_pipeline a)) rest \<Longrightarrow>
   gives N (list_all (\<lambda>a. pipeline_clean (ao_pipeline a))) (parse_and_or_rest p rest)"
proof (induction p rest rule: parse_and_or_rest.induct)
  case (1 p rest)
  obtain b p1 where c: "consume_and_or p = (b, p1)" by fastforce
  have p1: "parser_ok N p1" by (rule consume_and_or_ok [OF c 1(2)])
  show ?case
  proof (cases b)
    case (Some op)
    have "gives N (list_all (\<lambda>a. pipeline_clean (ao_pipeline a)))
       (obind (parse_pipeline (consume_newlines p1) (after_op op))
         (\<lambda>(pl, p2). parse_and_or_rest p2 (rest @ [\<lparr>ao_op = op, ao_pipeline = pl\<rparr>])))"
      using 1(1) [OF c [symmetric] Some _ refl] 1(3)
      by (intro gives_obind [OF parse_pipeline_gives [OF consume_newlines_ok [OF p1]]]) auto
    then show ?thesis using c Some by (subst parse_and_or_rest.simps) simp
  next
    case None
    then show ?thesis using c p1 1(3) by (subst parse_and_or_rest.simps) simp
  qed
qed

lemma parse_and_or_list_gives:
  assumes "parser_ok N p"
  shows "gives N list_clean (parse_and_or_list p)"
  unfolding parse_and_or_list_def
proof (rule gives_obind [OF parse_pipeline_gives [OF assms]], clarify)
  fix first p1
  assume f: "pipeline_clean first" "parser_ok N p1"
  then have "gives N (list_all (\<lambda>a. pipeline_clean (ao_pipeline a))) (parse_and_or_rest p1 [])"
    by (intro parse_and_or_rest_gives) simp_all
  then show "gives N list_clean (obind (parse_and_or_rest p1 []) (\<lambda>(rest, p2).
      Ok (\<lparr>al_first = first, al_rest = rest\<rparr>, p2)))"
    by (rule gives_obind) (auto simp: list_clean_def f)
qed

definition parsed_ok :: "nat \<Rightarrow> shell_program pres \<Rightarrow> bool" where
  "parsed_ok N out = (case out of
       Inr prog \<Rightarrow> program_clean prog
     | Inl (Errno e) \<Rightarrow> pe_position e \<le> N
     | Inl Panic \<Rightarrow> False)"

lemma parse_program_loop_ok:
  "parser_ok N p \<Longrightarrow> list_all list_clean ls \<Longrightarrow> parsed_ok N (parse_program_loop p ls)"
proof (induction p ls rule: parse_program_loop.induct)
  case (1 p ls)
  show ?case
  proof (cases "is_eof p")
    case True
    then show ?thesis
      using 1(5) by (subst parse_program_loop.simps) (simp add: parsed_ok_def program_clean_def)
  next
    case ne: False
    have g: "gives N list_clean (parse_and_or_list p)" by (rule parse_and_or_list_gives [OF 1(4)])
    show ?thesis
    proof (cases "parse_and_or_list p")
      case (Inl f)
      then show ?thesis
        using g ne by (subst parse_program_loop.simps) (auto simp: parsed_ok_def gives_def split: fault.splits)
    next
      case (Inr v)
      obtain l p1 where v: "v = (l, p1)" by fastforce
      have l: "list_clean l" "parser_ok N p1" using g Inr v by auto
      obtain b p2 where b: "consume_if p1 (\<lambda>k. k = TkSemi) = (b, p2)" by fastforce
      obtain b' p3 where b': "consume_if p1 (\<lambda>k. k = TkNewline) = (b', p3)" by fastforce
      have ok: "parser_ok N (consume_newlines p2)" "parser_ok N (consume_newlines p3)"
        using consume_newlines_ok consume_if_ok [OF b l(2)] consume_if_ok [OF b' l(2)] by auto
      have un: "parsed_ok N (unexpected p1 e)" for e
        using l(2) by (auto simp: unexpected_def parsed_ok_def parser_ok_def split: list.splits)
      note IH = 1(1-3) [OF ne Inr v [symmetric]]
      show ?thesis
        using IH(1) [OF b [symmetric]] IH(2) [OF b [symmetric] _ b' [symmetric]]
          IH(3) [OF b [symmetric] _ b' [symmetric]] ok l 1(5) ne Inr v b b' un
        by (subst parse_program_loop.simps) (cases b; cases b'; auto simp: parsed_ok_def program_clean_def)
    qed
  qed
qed

lemma parse_result: "parsed_ok (byte_len input) (parse input)"
proof -
  have t: "tokens_in (byte_len input) 0 (lex input)" by (simp add: lex_def lex_loop_tokens)
  show ?thesis
  proof (cases "lex input")
    case (Inl f)
    then show ?thesis
      using t by (cases f) (auto simp: parse_def tokens_in_def parsed_ok_def)
  next
    case (Inr ts)
    have "list_all token_ok ts" using lex_loop_ok Inr by (auto simp: lex_def)
    then have "parser_ok (byte_len input) (parser_new input ts)"
      using t Inr by (auto simp: parser_ok_def parser_new_def tokens_in_def list_all_iff less_imp_le)
    then show ?thesis
      using Inr consume_newlines_ok parse_program_loop_ok by (simp add: parse_def parse_program_def)
  qed
qed

end
