(* ===== verification/Shell_Roundtrip.thy ===== *)
theory Shell_Roundtrip
  imports Shell_Parse_Props
begin

text \<open>
  The token kinds a program is written with, and the proof that the parser reads the same
  program back from them, wherever the tokens stand.
\<close>

definition assignment_word :: "assignment \<Rightarrow> sh_word" where
  "assignment_word a =
     (case segments (as_value a) of
        Literal v False # others \<Rightarrow> \<lparr>segments = Literal (as_name a @ [c_eq] @ v) False # others\<rparr>
      | segs \<Rightarrow> \<lparr>segments = Literal (as_name a @ [c_eq]) False # segs\<rparr>)"

definition redirect_kinds :: "redirect \<Rightarrow> token_kind list" where
  "redirect_kinds r =
     (case rd_target r of
        TFd n \<Rightarrow> [TkRedirect \<lparr>rt_fd = rd_fd r, rt_op = rd_op r, rt_target_fd = Some n\<rparr>]
      | TWord w \<Rightarrow> [TkRedirect \<lparr>rt_fd = rd_fd r, rt_op = rd_op r, rt_target_fd = None\<rparr>, TkWord w])"

fun command_kinds :: "command \<Rightarrow> token_kind list" where
  "command_kinds (Simple c) =
     map (\<lambda>a. TkWord (assignment_word a)) (sc_assignments c) @ map TkWord (sc_words c)
     @ concat (map redirect_kinds (sc_redirects c))"

definition pipeline_kinds :: "pipeline \<Rightarrow> token_kind list" where
  "pipeline_kinds pl = join [TkPipe] (map command_kinds (commands pl))"

definition op_kind :: "and_or_op \<Rightarrow> token_kind" where
  "op_kind op = (case op of And \<Rightarrow> TkAndIf | Or \<Rightarrow> TkOrIf)"

definition list_kinds :: "and_or_list \<Rightarrow> token_kind list" where
  "list_kinds l = pipeline_kinds (al_first l)
     @ concat (map (\<lambda>a. op_kind (ao_op a) # pipeline_kinds (ao_pipeline a)) (al_rest l))"

definition program_kinds :: "shell_program \<Rightarrow> token_kind list" where
  "program_kinds prog = join [TkSemi] (map list_kinds (lists prog))"

text \<open>
  The programs that can be written: names are names, a first word is not an assignment and
  the first word of a command is not the negation mark.
\<close>

definition assignment_writable :: "assignment \<Rightarrow> bool" where
  "assignment_writable a \<longleftrightarrow> is_assignment_name (as_name a) \<and>
     (case segments (as_value a) of Literal v False # _ \<Rightarrow> v \<noteq> [] | _ \<Rightarrow> True)"

fun command_writable :: "command \<Rightarrow> bool" where
  "command_writable (Simple c) \<longleftrightarrow>
     (sc_assignments c \<noteq> [] \<or> sc_words c \<noteq> [] \<or> sc_redirects c \<noteq> [])
     \<and> list_all assignment_writable (sc_assignments c)
     \<and> (sc_words c \<noteq> [] \<longrightarrow> assignment_from_word [] (hd (sc_words c)) 0 = Ok None
         \<and> \<not> is_pipeline_negation_word (TkWord (hd (sc_words c))))"

definition pipeline_writable :: "pipeline \<Rightarrow> bool" where
  "pipeline_writable pl \<longleftrightarrow> commands pl \<noteq> [] \<and> list_all command_writable (commands pl)"

definition list_writable :: "and_or_list \<Rightarrow> bool" where
  "list_writable l \<longleftrightarrow> pipeline_writable (al_first l)
     \<and> list_all (\<lambda>a. pipeline_writable (ao_pipeline a)) (al_rest l)"

definition program_writable :: "shell_program \<Rightarrow> bool" where
  "program_writable prog \<longleftrightarrow> list_all list_writable (lists prog)"

subsection \<open>Assignments\<close>

lemma find_sub_Some: "find_sub pat xs = Some i \<Longrightarrow> take (length pat) (drop i xs) = pat"
  by (induction pat xs arbitrary: i rule: find_sub.induct) (auto split: if_splits)

lemma find_sub_single: "c \<notin> set xs \<Longrightarrow> find_sub [c] (xs @ c # ys) = Some (length xs)"
  by (induction xs) auto

lemma assignment_name_chars:
  "is_assignment_name n \<Longrightarrow> c \<in> set n \<Longrightarrow> is_ascii_alphanumeric c \<or> c = c_under"
  by (cases n) (auto simp: is_assignment_name_def is_ascii_alphanumeric_def list_all_iff)

lemma not_name_char: "\<not> is_ascii_alphanumeric c_plus" "\<not> is_ascii_alphanumeric c_eq"
  by (simp_all add: is_ascii_alphanumeric_def is_ascii_alphabetic_def is_ascii_digit_def)

lemma take_2_hd: "take 2 xs = [a, b] \<Longrightarrow> hd xs = a"
  by (cases xs) auto

lemma no_append_assignment:
  assumes "is_assignment_name n" and "find_sub [c_plus, c_eq] (n @ c_eq # v) = Some i"
  shows "\<not> is_assignment_name (take i (n @ c_eq # v))"
proof
  assume name: "is_assignment_name (take i (n @ c_eq # v))"
  have pre: "take 2 (drop i (n @ c_eq # v)) = [c_plus, c_eq]"
    using find_sub_Some [OF assms(2)] by (simp add: numeral_2_eq_2)
  then have ne: "drop i (n @ c_eq # v) \<noteq> []" by (metis list.distinct(1) take_Nil)
  then have lt: "i < length (n @ c_eq # v)" by (metis drop_all leI)
  have "hd (drop i (n @ c_eq # v)) = c_plus"
    by (rule take_2_hd [OF pre])
  then have i: "(n @ c_eq # v) ! i = c_plus" using hd_drop_conv_nth [OF lt] by simp
  show False
  proof (cases "i < length n")
    case True
    then have "c_plus \<in> set n" using i by (metis nth_append nth_mem)
    then show False by (auto dest!: assignment_name_chars [OF assms(1)] simp: not_name_char)
  next
    case False
    then have "i \<noteq> length n" using i by auto
    then have "c_eq \<in> set (take i (n @ c_eq # v))" using False by (cases "i - length n") auto
    then show False by (auto dest!: assignment_name_chars [OF name] simp: not_name_char simp del: take_append)
  qed
qed

lemma assignment_word_back:
  assumes "assignment_writable a"
  shows "assignment_from_word input (assignment_word a) pos = Ok (Some a)"
proof -
  let ?n = "as_name a"
  have name: "is_assignment_name ?n" using assms by (simp add: assignment_writable_def)
  have eq: "c_eq \<notin> set ?n" by (auto dest!: assignment_name_chars [OF name] simp: not_name_char)
  have step: "assignment_from_word input \<lparr>segments = Literal (?n @ c_eq # v) False # others\<rparr> pos =
      Ok (Some \<lparr>as_name = ?n, as_value = \<lparr>segments = (if v \<noteq> [] then [Literal v False] else []) @ others\<rparr>\<rparr>)"
    for v others
    using no_append_assignment [OF name, of v] find_sub_single [OF eq, of v] name
    by (auto simp: assignment_from_word_def Let_def split: option.splits)
  show ?thesis
  proof (cases "\<exists>v others. segments (as_value a) = Literal v False # others")
    case True
    then obtain v others where v: "segments (as_value a) = Literal v False # others" by blast
    then have "v \<noteq> []" using assms by (simp add: assignment_writable_def)
    have "as_value a = \<lparr>segments = Literal v False # others\<rparr>" using v by (cases "as_value a") simp
    then show ?thesis using step [of v others] v \<open>v \<noteq> []\<close>
      by (cases a) (simp add: assignment_word_def)
  next
    case False
    then have "assignment_word a = \<lparr>segments = Literal (?n @ c_eq # []) False # segments (as_value a)\<rparr>"
      by (auto simp: assignment_word_def split: list.splits segment.splits bool.splits)
    then show ?thesis using step [of "[]" "segments (as_value a)"] by (cases a) simp
  qed
qed

lemma assignment_none_any:
  "assignment_from_word [] w 0 = Ok None \<Longrightarrow> assignment_from_word input w pos = Ok None"
  by (auto simp: assignment_from_word_def Let_def split: list.splits segment.splits bool.splits
      option.splits if_splits)

subsection \<open>Commands\<close>

abbreviation kinds :: "parser \<Rightarrow> token_kind list" where
  "kinds p \<equiv> map tk_kind (ps_rest p)"

text \<open>What may follow a command: nothing, or a token that is neither a word nor a redirect.\<close>

fun stops :: "token_kind list \<Rightarrow> bool" where
  "stops [] = True"
| "stops (TkWord _ # _) = False"
| "stops (TkRedirect _ # _) = False"
| "stops (_ # _) = True"

lemma advance_kinds: "kinds p = k # ks \<Longrightarrow> kinds (advance p) = ks"
  by (auto simp: advance_def)

lemma peek_kinds: "ps_peek p = (case kinds p of [] \<Rightarrow> None | k # _ \<Rightarrow> Some k)"
  by (simp add: ps_peek_def split: list.splits)

lemma parse_redirects_back:
  "kinds p = concat (map redirect_kinds rds) @ ks \<Longrightarrow> stops ks \<Longrightarrow>
   \<exists>p'. parse_elements p c saw = Ok (c\<lparr>sc_redirects := sc_redirects c @ rds\<rparr>, saw \<or> rds \<noteq> [], p')
     \<and> kinds p' = ks"
proof (induction rds arbitrary: p c saw)
  case Nil
  then show ?case
    by (cases "ps_rest p"; cases "tk_kind (hd (ps_rest p))") (auto simp: parse_elements.simps)
next
  case (Cons r rds)
  let ?c = "c\<lparr>sc_redirects := sc_redirects c @ [r]\<rparr>"
  obtain rt p1 where step: "ps_rest p \<noteq> []" "tk_kind (hd (ps_rest p)) = TkRedirect rt"
      "parse_redirect (advance p) rt = Inr (r, p1)" "kinds p1 = concat (map redirect_kinds rds) @ ks"
  proof (cases "rd_target r")
    case (TFd n)
    let ?rt = "\<lparr>rt_fd = rd_fd r, rt_op = rd_op r, rt_target_fd = Some n\<rparr>"
    have "kinds p = TkRedirect ?rt # concat (map redirect_kinds rds) @ ks"
      using Cons.prems(1) TFd by (simp add: redirect_kinds_def [of r])
    then show thesis
      using that [of ?rt "advance p"] advance_kinds [of p] TFd
      by (cases "ps_rest p"; cases r) (auto simp: parse_redirect_def)
  next
    case (TWord w)
    let ?rt = "\<lparr>rt_fd = rd_fd r, rt_op = rd_op r, rt_target_fd = None\<rparr>"
    have k: "kinds p = TkRedirect ?rt # TkWord w # concat (map redirect_kinds rds) @ ks"
      using Cons.prems(1) TWord by (simp add: redirect_kinds_def [of r])
    note k1 = advance_kinds [OF k]
    show thesis
      using that [of ?rt "advance (advance p)"] advance_kinds [OF k1] k k1 TWord
      by (cases "ps_rest p"; cases r) (auto simp: parse_redirect_def peek_kinds)
  qed
  obtain p' where "parse_elements p1 ?c True = Ok (?c\<lparr>sc_redirects := sc_redirects ?c @ rds\<rparr>, True \<or> rds \<noteq> [], p')"
      "kinds p' = ks"
    using Cons.IH [OF step(4) Cons.prems(2), of ?c True] by blast
  then show ?case
    using step by (subst parse_elements.simps) (cases "ps_rest p"; simp)
qed

lemma parse_words_back:
  assumes "kinds p = map TkWord ws @ concat (map redirect_kinds rds) @ ks" and "stops ks"
    and "sc_words c \<noteq> []"
  shows "\<exists>p'. parse_elements p c saw = Ok (c\<lparr>sc_words := sc_words c @ ws,
       sc_redirects := sc_redirects c @ rds\<rparr>, saw \<or> ws \<noteq> [] \<or> rds \<noteq> [], p') \<and> kinds p' = ks"
  using assms
proof (induction ws arbitrary: p c saw)
  case Nil
  then show ?case using parse_redirects_back [of p rds ks c saw] by simp
next
  case (Cons w ws)
  let ?c = "c\<lparr>sc_words := sc_words c @ [w]\<rparr>"
  have k: "kinds p = TkWord w # (map TkWord ws @ concat (map redirect_kinds rds) @ ks)"
    using Cons.prems(1) by simp
  obtain p' where "parse_elements (advance p) ?c True = Ok (?c\<lparr>sc_words := sc_words ?c @ ws,
       sc_redirects := sc_redirects ?c @ rds\<rparr>, True \<or> ws \<noteq> [] \<or> rds \<noteq> [], p')" "kinds p' = ks"
    using Cons.IH [OF advance_kinds [OF k] Cons.prems(2), of ?c True] by auto
  then show ?case
    using k Cons.prems(3) by (subst parse_elements.simps) (cases "ps_rest p"; simp)
qed

lemma parse_elements_back:
  assumes "kinds p = map (\<lambda>a. TkWord (assignment_word a)) as @ map TkWord ws
      @ concat (map redirect_kinds rds) @ ks" and "stops ks"
    and "list_all assignment_writable as"
    and "ws \<noteq> [] \<longrightarrow> assignment_from_word [] (hd ws) 0 = Ok None" and "sc_words c = []"
  shows "\<exists>p'. parse_elements p c saw = Ok (c\<lparr>sc_assignments := sc_assignments c @ as, sc_words := ws,
       sc_redirects := sc_redirects c @ rds\<rparr>, saw \<or> as \<noteq> [] \<or> ws \<noteq> [] \<or> rds \<noteq> [], p') \<and> kinds p' = ks"
  using assms
proof (induction as arbitrary: p c saw)
  case Nil
  show ?case
  proof (cases ws)
    case ws: Nil
    have k: "kinds p = concat (map redirect_kinds rds) @ ks" using Nil.prems(1) ws by simp
    obtain p' where "parse_elements p c saw
        = Ok (c\<lparr>sc_redirects := sc_redirects c @ rds\<rparr>, saw \<or> rds \<noteq> [], p')" "kinds p' = ks"
      using parse_redirects_back [OF k Nil.prems(2), of c saw] by blast
    moreover have "c\<lparr>sc_redirects := sc_redirects c @ rds\<rparr>
        = c\<lparr>sc_assignments := sc_assignments c @ [], sc_words := ws, sc_redirects := sc_redirects c @ rds\<rparr>"
      using Nil.prems(5) ws by (cases c) simp
    ultimately show ?thesis using ws by auto
  next
    case (Cons w ws')
    let ?c = "c\<lparr>sc_words := [w]\<rparr>"
    have k: "kinds p = TkWord w # (map TkWord ws' @ concat (map redirect_kinds rds) @ ks)"
      using Nil.prems(1) Cons by simp
    have no: "assignment_from_word input w pos = Ok None" for input pos
      using assignment_none_any [of w input pos] Nil.prems(4) Cons by simp
    obtain p' where "parse_elements (advance p) ?c True = Ok (?c\<lparr>sc_words := sc_words ?c @ ws',
         sc_redirects := sc_redirects ?c @ rds\<rparr>, True \<or> ws' \<noteq> [] \<or> rds \<noteq> [], p')" "kinds p' = ks"
      using parse_words_back [OF advance_kinds [OF k] Nil.prems(2), of ?c True] by auto
    then show ?thesis
      using k no Nil.prems(5) Cons by (subst parse_elements.simps) (cases "ps_rest p"; simp)
  qed
next
  case (Cons a as)
  let ?c = "c\<lparr>sc_assignments := sc_assignments c @ [a]\<rparr>"
  have k: "kinds p = TkWord (assignment_word a) # (map (\<lambda>a. TkWord (assignment_word a)) as
      @ map TkWord ws @ concat (map redirect_kinds rds) @ ks)"
    using Cons.prems(1) by simp
  have yes: "assignment_from_word input (assignment_word a) pos = Ok (Some a)" for input pos
    using Cons.prems(3) by (intro assignment_word_back) simp
  obtain p' where "parse_elements (advance p) ?c True = Ok (?c\<lparr>sc_assignments := sc_assignments ?c @ as,
      sc_words := ws, sc_redirects := sc_redirects ?c @ rds\<rparr>, True \<or> as \<noteq> [] \<or> ws \<noteq> [] \<or> rds \<noteq> [], p')"
      "kinds p' = ks"
    using Cons.IH [OF advance_kinds [OF k] Cons.prems(2) _ Cons.prems(4), of ?c True] Cons.prems(3,5)
    by auto
  then show ?case
    using k yes Cons.prems(5) by (subst parse_elements.simps) (cases "ps_rest p"; simp)
qed

lemma negation_assignment: "\<not> is_pipeline_negation_word (TkWord (assignment_word a))"
  by (auto simp: is_pipeline_negation_word_def assignment_word_def append_eq_Cons_conv
      split: list.splits segment.splits bool.splits)

lemma redirect_kinds_head: "\<exists>rt ks. redirect_kinds r = TkRedirect rt # ks"
  by (cases "rd_target r") (auto simp: redirect_kinds_def)

lemma command_kinds_head:
  assumes "command_writable cmd"
  obtains k ks where "command_kinds cmd = k # ks" "\<not> is_pipeline_negation_word k" "\<not> stops [k]"
proof (cases cmd)
  case (Simple c)
  show thesis
  proof (cases "sc_assignments c")
    case (Cons a as)
    then show thesis using that Simple negation_assignment by simp
  next
    case asNil: Nil
    show thesis
    proof (cases "sc_words c")
      case (Cons w ws)
      then show thesis using that Simple asNil assms by simp
    next
      case Nil
      then obtain r rds where "sc_redirects c = r # rds"
        using assms Simple asNil by (cases "sc_redirects c") auto
      then show thesis
        using that Simple asNil Nil redirect_kinds_head [of r]
        by (auto simp: is_pipeline_negation_word_def)
    qed
  qed
qed

lemma parse_command_back:
  assumes "command_writable cmd" and "kinds p = command_kinds cmd @ ks" and "stops ks"
  shows "\<exists>p'. parse_command p e = Ok (cmd, p') \<and> kinds p' = ks"
proof -
  obtain c where c: "cmd = Simple c" by (cases cmd)
  obtain k ks' where k: "command_kinds cmd = k # ks'" "\<not> is_pipeline_negation_word k" "\<not> stops [k]"
    using command_kinds_head [OF assms(1)] by blast
  have st: "starts_command p" using k assms(2)
    by (cases k) (auto simp: starts_command_def peek_kinds)
  have ng: "\<not> (case ps_rest p of t # _ \<Rightarrow> is_pipeline_negation_word (tk_kind t) | [] \<Rightarrow> False)"
    using k assms(2) by (cases "ps_rest p") auto
  let ?c = "\<lparr>sc_assignments = [], sc_words = [], sc_redirects = []\<rparr>"
  obtain p' where "parse_elements p ?c False = Ok (?c\<lparr>sc_assignments := sc_assignments ?c @ sc_assignments c,
      sc_words := sc_words c, sc_redirects := sc_redirects ?c @ sc_redirects c\<rparr>,
      False \<or> sc_assignments c \<noteq> [] \<or> sc_words c \<noteq> [] \<or> sc_redirects c \<noteq> [], p')" "kinds p' = ks"
    using parse_elements_back [of p "sc_assignments c" "sc_words c" "sc_redirects c" ks ?c False]
      assms c by auto
  moreover have "sc_assignments c \<noteq> [] \<or> sc_words c \<noteq> [] \<or> sc_redirects c \<noteq> []"
    using assms(1) c by simp
  ultimately show ?thesis using st ng c by (cases c) (simp add: parse_command_def)
qed

subsection \<open>Pipelines, lists and programs\<close>

lemma consume_if_kinds:
  "kinds p = k # ks \<Longrightarrow> f k \<Longrightarrow> consume_if p f = (True, advance p)"
  "kinds p = [] \<or> (\<exists>k ks. kinds p = k # ks \<and> \<not> f k) \<Longrightarrow> consume_if p f = (False, p)"
  by (auto simp: consume_if_def peek_kinds)

lemma consume_newlines_none:
  "kinds p \<noteq> [] \<Longrightarrow> hd (kinds p) \<noteq> TkNewline \<Longrightarrow> consume_newlines p = p"
  by (subst consume_newlines.simps) (cases "kinds p"; auto simp: consume_if_def peek_kinds)

lemma command_no_newline:
  "command_writable cmd \<Longrightarrow> kinds p = command_kinds cmd @ ks \<Longrightarrow> consume_newlines p = p"
  by (rule command_kinds_head, assumption, rule consume_newlines_none) (auto split: token_kind.splits)

lemma join_cons: "join s (x # xs) = x @ (if xs = [] then [] else s @ join s xs)"
  by (cases xs) auto

lemma parse_pipeline_rest_back:
  assumes "list_all command_writable cmds"
    and "kinds p = concat (map (\<lambda>c. TkPipe # command_kinds c) cmds) @ ks"
    and "stops ks" and "ks \<noteq> [] \<longrightarrow> hd ks \<noteq> TkPipe"
  shows "\<exists>p'. parse_pipeline_rest p cs = Ok (cs @ cmds, p') \<and> kinds p' = ks"
  using assms
proof (induction cmds arbitrary: p cs)
  case Nil
  then have "consume_if p (\<lambda>k. k = TkPipe) = (False, p)"
    by (intro consume_if_kinds) (cases ks; auto)
  then show ?case using Nil.prems by (subst parse_pipeline_rest.simps) simp
next
  case (Cons c cmds)
  let ?ks = "concat (map (\<lambda>c. TkPipe # command_kinds c) cmds) @ ks"
  have k: "kinds p = TkPipe # (command_kinds c @ ?ks)" using Cons.prems(2) by simp
  note adv = advance_kinds [OF k]
  have st: "stops ?ks" using Cons.prems(3) by (cases cmds) auto
  have nl: "consume_newlines (advance p) = advance p"
    using Cons.prems(1) adv by (intro command_no_newline) simp_all
  obtain p1 where p1: "parse_command (advance p) (rs ''command after pipe'') = Ok (c, p1)" "kinds p1 = ?ks"
    using parse_command_back [OF _ adv st] Cons.prems(1) by auto
  obtain p' where "parse_pipeline_rest p1 (cs @ [c]) = Ok ((cs @ [c]) @ cmds, p')" "kinds p' = ks"
    using Cons.IH [OF _ p1(2) Cons.prems(3,4), of "cs @ [c]"] Cons.prems(1) by auto
  then show ?case
    using nl p1 consume_if_kinds(1) [OF k, of "\<lambda>k. k = TkPipe"]
    by (subst parse_pipeline_rest.simps) simp
qed

lemma pipeline_kinds_cons:
  "commands pl = c # cmds \<Longrightarrow>
   pipeline_kinds pl = command_kinds c @ concat (map (\<lambda>c. TkPipe # command_kinds c) cmds)"
proof (induction cmds arbitrary: c pl)
  case Nil
  then show ?case by (simp add: pipeline_kinds_def)
next
  case (Cons d cmds)
  have "pipeline_kinds \<lparr>commands = d # cmds\<rparr> =
      command_kinds d @ concat (map (\<lambda>c. TkPipe # command_kinds c) cmds)"
    using Cons.IH by simp
  then show ?case using Cons.prems by (simp add: pipeline_kinds_def)
qed

lemma parse_pipeline_back:
  assumes "pipeline_writable pl" and "kinds p = pipeline_kinds pl @ ks"
    and "stops ks" and "ks \<noteq> [] \<longrightarrow> hd ks \<noteq> TkPipe"
  shows "\<exists>p'. parse_pipeline p e = Ok (pl, p') \<and> kinds p' = ks"
proof -
  obtain c cmds where c: "commands pl = c # cmds" "command_writable c" "list_all command_writable cmds"
    using assms(1) by (cases "commands pl") (auto simp: pipeline_writable_def)
  let ?ks = "concat (map (\<lambda>c. TkPipe # command_kinds c) cmds) @ ks"
  have "stops ?ks" using assms(3) by (cases cmds) auto
  moreover have "kinds p = command_kinds c @ ?ks" using assms(2) pipeline_kinds_cons [OF c(1)] by simp
  ultimately obtain p1 where p1: "parse_command p e = Ok (c, p1)" "kinds p1 = ?ks"
    using parse_command_back [OF c(2)] by blast
  obtain p' where "parse_pipeline_rest p1 [c] = Ok ([c] @ cmds, p')" "kinds p' = ks"
    using parse_pipeline_rest_back [OF c(3) p1(2) assms(3,4)] by blast
  then show ?thesis using p1(1) c(1) by (cases pl) (simp add: parse_pipeline_def)
qed

lemma pipeline_no_newline:
  assumes "pipeline_writable pl" and "kinds p = pipeline_kinds pl @ ks"
  shows "consume_newlines p = p"
proof -
  obtain c cmds where c: "commands pl = c # cmds" "command_writable c"
    using assms(1) by (cases "commands pl") (auto simp: pipeline_writable_def)
  then show ?thesis
    using command_no_newline [OF c(2)] assms(2) pipeline_kinds_cons [OF c(1)] by simp
qed

lemma parse_and_or_rest_back:
  assumes "list_all (\<lambda>a. pipeline_writable (ao_pipeline a)) as"
    and "kinds p = concat (map (\<lambda>a. op_kind (ao_op a) # pipeline_kinds (ao_pipeline a)) as) @ ks"
    and "stops ks" and "ks \<noteq> [] \<longrightarrow> hd ks \<notin> {TkPipe, TkAndIf, TkOrIf}"
  shows "\<exists>p'. parse_and_or_rest p rest = Ok (rest @ as, p') \<and> kinds p' = ks"
  using assms
proof (induction as arbitrary: p rest)
  case Nil
  then have "consume_and_or p = (None, p)"
    by (cases ks) (auto simp: consume_and_or_def peek_kinds split: token_kind.splits)
  then show ?case using Nil.prems by (subst parse_and_or_rest.simps) simp
next
  case (Cons a as)
  let ?ks = "concat (map (\<lambda>a. op_kind (ao_op a) # pipeline_kinds (ao_pipeline a)) as) @ ks"
  have k: "kinds p = op_kind (ao_op a) # (pipeline_kinds (ao_pipeline a) @ ?ks)"
    using Cons.prems(2) by simp
  note adv = advance_kinds [OF k]
  have st: "stops ?ks" "?ks \<noteq> [] \<longrightarrow> hd ?ks \<noteq> TkPipe"
    using Cons.prems(3,4) by (cases as; auto simp: op_kind_def split: and_or_op.splits)+
  have nl: "consume_newlines (advance p) = advance p"
    using Cons.prems(1) adv by (intro pipeline_no_newline) simp_all
  have co: "consume_and_or p = (Some (ao_op a), advance p)"
    using k by (cases "ao_op a") (auto simp: consume_and_or_def peek_kinds op_kind_def)
  obtain p1 where p1: "parse_pipeline (advance p) (after_op (ao_op a)) = Ok (ao_pipeline a, p1)" "kinds p1 = ?ks"
    using parse_pipeline_back [OF _ adv st] Cons.prems(1) by auto
  obtain p' where "parse_and_or_rest p1 (rest @ [a]) = Ok ((rest @ [a]) @ as, p')" "kinds p' = ks"
    using Cons.IH [OF _ p1(2) Cons.prems(3,4), of "rest @ [a]"] Cons.prems(1) by auto
  then show ?case
    using nl p1 co by (subst parse_and_or_rest.simps) (cases a; simp)
qed

lemma parse_and_or_list_back:
  assumes "list_writable l" and "kinds p = list_kinds l @ ks"
    and "stops ks" and "ks \<noteq> [] \<longrightarrow> hd ks \<notin> {TkPipe, TkAndIf, TkOrIf}"
  shows "\<exists>p'. parse_and_or_list p = Ok (l, p') \<and> kinds p' = ks"
proof -
  let ?ks = "concat (map (\<lambda>a. op_kind (ao_op a) # pipeline_kinds (ao_pipeline a)) (al_rest l)) @ ks"
  have st: "stops ?ks" "?ks \<noteq> [] \<longrightarrow> hd ?ks \<noteq> TkPipe"
    using assms(3,4) by (cases "al_rest l"; auto simp: op_kind_def split: and_or_op.splits)+
  obtain p1 where p1: "parse_pipeline p (rs ''command'') = Ok (al_first l, p1)" "kinds p1 = ?ks"
    using parse_pipeline_back [OF _ _ st, of "al_first l" p] assms(1,2)
    by (auto simp: list_writable_def list_kinds_def)
  obtain p' where "parse_and_or_rest p1 [] = Ok ([] @ al_rest l, p')" "kinds p' = ks"
    using parse_and_or_rest_back [OF _ p1(2) assms(3,4), of "[]"] assms(1)
    by (auto simp: list_writable_def)
  then show ?thesis using p1(1) by (cases l) (simp add: parse_and_or_list_def)
qed

lemma list_no_newline:
  assumes "list_writable l" and "kinds p = list_kinds l @ ks"
  shows "consume_newlines p = p" and "\<not> is_eof p"
proof -
  have w: "pipeline_writable (al_first l)" using assms(1) by (simp add: list_writable_def)
  then obtain c cmds where c: "commands (al_first l) = c # cmds" "command_writable c"
    by (cases "commands (al_first l)") (auto simp: pipeline_writable_def)
  show "consume_newlines p = p" using pipeline_no_newline [OF w] assms(2) by (simp add: list_kinds_def)
  obtain k ks' where "command_kinds c = k # ks'" using command_kinds_head [OF c(2)] by blast
  then show "\<not> is_eof p"
    using assms(2) pipeline_kinds_cons [OF c(1)] by (cases "ps_rest p") (auto simp: is_eof_def list_kinds_def)
qed

lemma parse_program_loop_back:
  assumes "list_all list_writable ls" and "kinds p = join [TkSemi] (map list_kinds ls)"
  shows "parse_program_loop p acc = Ok \<lparr>lists = acc @ ls\<rparr>"
  using assms
proof (induction ls arbitrary: p acc)
  case Nil
  then show ?case by (subst parse_program_loop.simps) (simp add: is_eof_def)
next
  case (Cons l ls)
  let ?ks = "if ls = [] then [] else TkSemi # join [TkSemi] (map list_kinds ls)"
  have k: "kinds p = list_kinds l @ ?ks" using Cons.prems(2) by (cases ls) simp_all
  have ne: "\<not> is_eof p" using Cons.prems(1) k by (intro list_no_newline) simp_all
  have st: "stops ?ks" "?ks \<noteq> [] \<longrightarrow> hd ?ks \<notin> {TkPipe, TkAndIf, TkOrIf}" by simp_all
  obtain p1 where p1: "parse_and_or_list p = Ok (l, p1)" "kinds p1 = ?ks"
    using parse_and_or_list_back [OF _ k st] Cons.prems(1) by auto
  show ?case
  proof (cases ls)
    case Nil
    then have "kinds p1 = []" using p1(2) by simp
    then have "consume_if p1 f = (False, p1)" "is_eof p1" for f
      by (auto simp: consume_if_def peek_kinds is_eof_def)
    then show ?thesis
      using ne p1(1) Nil
      by (subst parse_program_loop.simps) (simp add: parse_program_loop.simps [of p1])
  next
    case ls: (Cons l2 ls')
    have k1: "kinds p1 = TkSemi # join [TkSemi] (map list_kinds ls)" using p1(2) ls by simp
    note adv = advance_kinds [OF k1]
    have adv': "kinds (advance p1) = list_kinds l2 @ (if ls' = [] then [] else TkSemi # join [TkSemi] (map list_kinds ls'))"
      using adv ls by (cases ls') simp_all
    have nl: "consume_newlines (advance p1) = advance p1" "\<not> is_eof (advance p1)"
      using Cons.prems(1) ls list_no_newline [OF _ adv'] by simp_all
    show ?thesis
      using ne p1(1) nl consume_if_kinds(1) [OF k1, of "\<lambda>k. k = TkSemi"]
        Cons.IH [OF _ adv, of "acc @ [l]"] Cons.prems(1)
      by (subst parse_program_loop.simps) simp
  qed
qed

lemma parse_program_back:
  assumes "program_writable prog" and "map tk_kind ts = program_kinds prog"
  shows "parse_program (parser_new input ts) = Ok prog"
proof -
  let ?p = "parser_new input ts"
  have k: "kinds ?p = join [TkSemi] (map list_kinds (lists prog))"
    using assms(2) by (simp add: parser_new_def program_kinds_def)
  have w: "list_all list_writable (lists prog)" using assms(1) by (simp add: program_writable_def)
  have "consume_newlines ?p = ?p"
  proof (cases "lists prog")
    case Nil
    then show ?thesis
      using k by (subst consume_newlines.simps) (simp add: consume_if_def ps_peek_def)
  next
    case (Cons l ls)
    then have "kinds ?p = list_kinds l @ (if ls = [] then [] else TkSemi # join [TkSemi] (map list_kinds ls))"
      using k by (cases ls) simp_all
    then show ?thesis using list_no_newline(1) w Cons by auto
  qed
  then show ?thesis
    using parse_program_loop_back [OF w k, of "[]"] by (simp add: parse_program_def)
qed

end
