(* ===== verification/Shell_Quote.thy ===== *)
theory Shell_Quote
  imports Shell_Roundtrip
begin

text \<open>
  The usual quoting of an arbitrary string for a shell, and the proof that the lexer and the
  parser give it back as one word: nothing inside the quotes is read as syntax.
\<close>

definition quote_char :: "rchar \<Rightarrow> rstr" where
  "quote_char c = (if c = c_squote then [c_squote, c_bslash, c_squote, c_squote] else [c])"

definition sh_quote :: "rstr \<Rightarrow> rstr" where
  "sh_quote s = [c_squote] @ concat (map quote_char s) @ [c_squote]"

text \<open>The text of a word all of whose segments are quoted literals.\<close>

fun quoted_text :: "segment list \<Rightarrow> rstr option" where
  "quoted_text [] = Some []"
| "quoted_text (Literal v True # segs) = map_option (\<lambda>t. v @ t) (quoted_text segs)"
| "quoted_text (_ # segs) = None"

lemma quoted_text_append:
  "quoted_text (xs @ ys) = (case quoted_text xs of None \<Rightarrow> None
     | Some t \<Rightarrow> map_option (\<lambda>u. t @ u) (quoted_text ys))"
  by (induction xs rule: quoted_text.induct; cases "quoted_text ys")
    (auto split: option.splits)

lemma quoted_text_push:
  assumes "quoted_text segs = Some v"
  shows "quoted_text (push_literal segs lit True) = Some (v @ lit)" and "push_literal segs lit True \<noteq> []"
proof -
  show "push_literal segs lit True \<noteq> []" by (auto simp: push_literal_def split: segment.splits)
  show "quoted_text (push_literal segs lit True) = Some (v @ lit)"
  proof (cases segs rule: rev_cases)
    case Nil
    then show ?thesis using assms by (simp add: push_literal_def)
  next
    case (snoc ys y)
    then show ?thesis using assms
      by (cases y; cases "seg_quoted y")
        (auto simp: push_literal_def quoted_text_append split: option.splits)
  qed
qed

definition quoted_state :: "word_state \<Rightarrow> rstr \<Rightarrow> bool" where
  "quoted_state w t \<longleftrightarrow> quoted_text (ws_segments w) = Some t \<and> ws_segments w \<noteq> [] \<and> ws_literal w = []
     \<and> ws_had_content w"

lemma flush_nothing: "ws_literal w = [] \<Longrightarrow> flush_literal w = ws_segments w"
  by (simp add: flush_literal_def push_literal_def)

lemma not_break: "\<not> is_word_break c_squote" "\<not> is_word_break c_bslash"
  by (simp_all add: is_word_break_def)

text \<open>From inside a quoted string to the end of its word.\<close>

lemma scan_quoted_body:
  assumes "quoted_text segs = Some v"
  shows "\<exists>w' pos'. quoted_state w' (v @ lit @ s) \<and>
    obind (scan_single_quoted qp lit (concat (map quote_char s) @ c_squote # rest) pos segs)
      (\<lambda>(rest', pos', segs). scan_word_loop (w\<lparr>ws_segments := segs, ws_literal := [],
         ws_had_content := True, ws_last_unquoted := None\<rparr>) rest' pos') = scan_word_loop w' rest pos'"
  using assms
proof (induction s arbitrary: qp lit pos segs v w)
  case Nil
  let ?w = "w\<lparr>ws_segments := push_literal segs lit True, ws_literal := [],
      ws_had_content := True, ws_last_unquoted := None\<rparr>"
  have "quoted_state ?w (v @ lit)"
    using quoted_text_push [OF Nil] by (simp add: quoted_state_def)
  then show ?case by (intro exI [of _ ?w] exI [of _ "pos + 1"]) simp
next
  case (Cons c s)
  show ?case
  proof (cases "c = c_squote")
    case False
    then show ?thesis
      using Cons.IH [OF Cons.prems, where lit = "lit @ [c]"] by (simp add: quote_char_def)
  next
    case True
    let ?segs = "push_literal (push_literal segs lit True) [c_squote] True"
    have q: "quoted_text ?segs = Some (v @ lit @ [c_squote])"
      using quoted_text_push(1) [OF quoted_text_push(1) [OF Cons.prems]] by simp
    show ?thesis
      using Cons.IH [OF q, where lit = "[]"] True not_break
      by (simp add: quote_char_def flush_nothing scan_unquoted_escape_def)
  qed
qed

definition at_break :: "rstr \<Rightarrow> bool" where
  "at_break rest = (case rest of [] \<Rightarrow> True | c # _ \<Rightarrow> is_word_break c)"

lemma scan_word_quoted:
  assumes "at_break rest"
  shows "\<exists>w pos'. scan_word (sh_quote s @ rest) pos = Ok (Some w, rest, pos')
    \<and> quoted_text (segments w) = Some s \<and> segments w \<noteq> []"
proof -
  obtain w' pos' where w': "quoted_state w' s"
      "scan_word_loop word_start (sh_quote s @ rest) pos = scan_word_loop w' rest pos'"
    using scan_quoted_body [of "[]" "[]" "[]" s pos rest "pos + 1" word_start]
    by (auto simp: sh_quote_def not_break word_start_def flush_nothing)
  have "scan_word_loop w' rest pos' = Ok (w', rest, pos')"
    using assms by (cases rest) (auto simp: at_break_def)
  then show ?thesis
    using w' by (auto simp: scan_word_def quoted_state_def flush_nothing)
qed

subsection \<open>Lines of quoted words\<close>

lemma lex_quoted_word:
  assumes "at_break rest"
  shows "\<exists>w pos'. lex_loop (sh_quote s @ rest) pos
      = obind (lex_loop rest pos') (\<lambda>ts. Ok (tok (TkWord w) pos # ts))
    \<and> quoted_text (segments w) = Some s \<and> segments w \<noteq> []"
proof -
  obtain body where body: "sh_quote s @ rest = c_squote # body" by (simp add: sh_quote_def)
  obtain w pos' where w: "scan_word (c_squote # body) pos = Ok (Some w, rest, pos')"
      "quoted_text (segments w) = Some s" "segments w \<noteq> []"
    using scan_word_quoted [OF assms, of s pos] body by auto
  have "scan_redirect (c_squote # body) pos = Ok None"
    by (simp add: scan_redirect_def scan_operator_def is_ascii_digit_def)
  then show ?thesis
    using w by (intro exI [of _ w] exI [of _ pos']) (simp add: body lex_other_def)
qed

lemma lex_blank: "lex_loop (c_space # rest) pos = lex_loop rest (pos + 1)"
  by (cases rest) (simp_all add: len_utf8_ascii)

definition quoted_line :: "rstr list \<Rightarrow> rstr" where
  "quoted_line args = join [c_space] (map sh_quote args)"

lemma lex_quoted_line:
  "\<exists>ts ws. lex_loop (quoted_line args) pos = Ok ts \<and> map tk_kind ts = map TkWord ws
     \<and> map (\<lambda>w. quoted_text (segments w)) ws = map Some args \<and> list_all (\<lambda>w. segments w \<noteq> []) ws"
proof (induction args arbitrary: pos)
  case Nil
  then show ?case by (auto simp: quoted_line_def)
next
  case (Cons s args)
  let ?rest = "if args = [] then [] else c_space # quoted_line args"
  have line: "quoted_line (s # args) = sh_quote s @ ?rest"
    by (cases args) (auto simp: quoted_line_def)
  have "at_break ?rest" by (simp add: at_break_def is_word_break_def)
  then obtain w pos' where w: "lex_loop (quoted_line (s # args)) pos
      = obind (lex_loop ?rest pos') (\<lambda>ts. Ok (tok (TkWord w) pos # ts))"
      "quoted_text (segments w) = Some s" "segments w \<noteq> []"
    using lex_quoted_word [of ?rest s pos] line by auto
  obtain ts ws where ts: "lex_loop (quoted_line args) (pos' + 1) = Ok ts" "map tk_kind ts = map TkWord ws"
      "map (\<lambda>w. quoted_text (segments w)) ws = map Some args" "list_all (\<lambda>w. segments w \<noteq> []) ws"
    using Cons.IH by blast
  show ?case
  proof (cases "args = []")
    case True
    then show ?thesis using w by (intro exI [of _ "[tok (TkWord w) pos]"] exI [of _ "[w]"]) simp
  next
    case False
    then show ?thesis
      using w ts by (intro exI [of _ "tok (TkWord w) pos # ts"] exI [of _ "w # ws"])
        (simp add: lex_blank del: lex_loop.simps)
  qed
qed

lemma quoted_first_word:
  assumes "quoted_text (segments w) = Some s" and "segments w \<noteq> []"
  shows "assignment_from_word input w pos = Ok None" and "\<not> is_pipeline_negation_word (TkWord w)"
  using assms
  by (cases "segments w" rule: quoted_text.cases;
      simp add: assignment_from_word_def is_pipeline_negation_word_def)+

abbreviation command_program :: "sh_word list \<Rightarrow> shell_program" where
  "command_program ws \<equiv> \<lparr>lists = [\<lparr>al_first = \<lparr>commands =
     [Simple \<lparr>sc_assignments = [], sc_words = ws, sc_redirects = []\<rparr>]\<rparr>, al_rest = []\<rparr>]\<rparr>"

lemma parse_quoted_words:
  assumes "args \<noteq> []"
  shows "\<exists>ws. parse (quoted_line args) = Ok (command_program ws)
    \<and> map (\<lambda>w. quoted_text (segments w)) ws = map Some args \<and> list_all (\<lambda>w. segments w \<noteq> []) ws"
proof -
  obtain ts ws where ts: "lex (quoted_line args) = Ok ts" "map tk_kind ts = map TkWord ws"
      "map (\<lambda>w. quoted_text (segments w)) ws = map Some args" "list_all (\<lambda>w. segments w \<noteq> []) ws"
    using lex_quoted_line [of args 0] unfolding lex_def by blast
  obtain w ws' where ws: "ws = w # ws'" using ts(3) assms by (cases ws) auto
  have "program_writable (command_program ws)"
    using ws ts(3,4) quoted_first_word [of w "hd args"] assms
    by (cases args)
      (auto simp: program_writable_def list_writable_def pipeline_writable_def)
  moreover have "map tk_kind ts = program_kinds (command_program ws)"
    using ts(2) by (simp add: program_kinds_def list_kinds_def pipeline_kinds_def)
  ultimately have "parse_program (parser_new (quoted_line args) ts) = Ok (command_program ws)"
    by (rule parse_program_back)
  then show ?thesis using ts(1,3,4) by (auto simp: parse_def)
qed

lemma parse_quoted_line:
  "args \<noteq> [] \<Longrightarrow> \<exists>ws. parse (quoted_line args) = Ok (command_program ws)
    \<and> map (\<lambda>w. quoted_text (segments w)) ws = map Some args"
  using parse_quoted_words by blast

end
