(* ===== verification/Shell_Properties.thy ===== *)
theory Shell_Properties
  imports Shell_Quote
begin

text \<open>What the lexer and the parser guarantee for every input.\<close>

text \<open>
  Lexing never panics. The tokens it returns stand in the order of the input, each at its
  own byte position inside the input, and an error is reported at a position inside the input.
\<close>

lemma lex_sound:
  "case lex input of
     Inr ts \<Rightarrow> sorted_wrt (<) (map tk_position ts) \<and> list_all (\<lambda>t. tk_position t < byte_len input) ts
   | Inl (Errno e) \<Rightarrow> pe_position e < byte_len input
   | Inl Panic \<Rightarrow> False"
proof -
  have "tokens_in (byte_len input) 0 (lex input)" by (simp add: lex_def lex_loop_tokens)
  then show ?thesis
    by (auto simp: tokens_in_def list_all_iff split: sum.splits fault.splits)
qed

text \<open>
  C21. Parsing never panics. A program it returns has no empty command, no pipeline without
  commands, only valid assignment names and expandable parameter names, and no unquoted
  operator, quote, glob, brace or substitution character in a literal; an error is reported at
  a position not after the end of the input.
\<close>

theorem parse_sound:
  "case parse input of
     Inr prog \<Rightarrow> program_clean prog
   | Inl (Errno e) \<Rightarrow> pe_position e \<le> byte_len input
   | Inl Panic \<Rightarrow> False"
  using parse_result [of input] by (simp add: parsed_ok_def)

text \<open>
  C22. Writing a program as tokens and parsing them gives the program back, at whatever
  positions the tokens stand: assignments, words, redirects, pipelines, \<open>&&\<close> and \<open>||\<close> lists
  and sequences keep their grouping and their order.
\<close>

theorem parse_roundtrip:
  assumes "program_writable prog" and "map tk_kind ts = program_kinds prog"
  shows "parse_program (parser_new input ts) = Ok prog"
  using assms by (rule parse_program_back)

theorem parse_roundtrip_witness:
  "let w = (\<lambda>s. \<lparr>segments = [Literal (rs s) False]\<rparr>);
       cmd = (\<lambda>as ws rds. \<lparr>commands = [Simple \<lparr>sc_assignments = as, sc_words = ws, sc_redirects = rds\<rparr>]\<rparr>);
       prog = \<lparr>lists = [\<lparr>al_first = cmd [\<lparr>as_name = rs ''A'', as_value = w ''1''\<rparr>] [w ''env''] [],
         al_rest = [\<lparr>ao_op = Or, ao_pipeline = cmd [] [w ''echo'', w ''no'']
           [\<lparr>rd_fd = Some 2, rd_op = RWrite, rd_target = TFd 1\<rparr>,
            \<lparr>rd_fd = None, rd_op = RAppend, rd_target = TWord (w ''log'')\<rparr>]\<rparr>]\<rparr>]\<rparr>;
       ts = map (\<lambda>k. tok k 0) (program_kinds prog)
   in length ts = 8 \<and> parse_program (parser_new [] ts) = Ok prog"
  unfolding Let_def
  by (intro conjI parse_roundtrip)
    (simp_all add: program_writable_def list_writable_def pipeline_writable_def program_kinds_def
      list_kinds_def pipeline_kinds_def redirect_kinds_def assignment_word_def assignment_writable_def
      is_assignment_name_def is_ascii_alphabetic_def is_ascii_alphanumeric_def is_ascii_digit_def
      assignment_from_word_def is_pipeline_negation_word_def rs_def)

text \<open>
  A command line made of single-quoted arguments is read as one simple command whose words
  are exactly these arguments, whatever characters they hold: no argument is split, expanded or
  read as an operator, an assignment or a redirect.
\<close>

theorem quoted_line_is_one_command:
  assumes "args \<noteq> []"
  shows "\<exists>ws. parse (quoted_line args) = Ok (command_program ws)
    \<and> map (\<lambda>w. quoted_text (segments w)) ws = map Some args"
  using assms by (rule parse_quoted_line)

theorem quoted_line_is_one_command_witness:
  "\<exists>ws. parse (quoted_line [rs ''A=1'', rs ''$(x); rm'']) = Ok (command_program ws)
    \<and> map (\<lambda>w. quoted_text (segments w)) ws = [Some (rs ''A=1''), Some (rs ''$(x); rm'')]"
  using quoted_line_is_one_command [of "[rs ''A=1'', rs ''$(x); rm'']"] by simp

end
