(* ===== verification/Capture.thy ===== *)
theory Capture
  imports Tiny_Prelude
begin

text \<open>
  The captured output of \<open>src/sandbox/mod.rs\<close>: a writer that keeps everything up to its cap
  and, once the output is longer, its first and last bytes around a marker. The byte total
  is a natural number: it counts bytes that were really produced.
\<close>

definition truncation_marker :: "byte list" where
  "truncation_marker = [10] @ utf8 (rs ''[tinysandbox: output truncated]'') @ [10]"

record capped_output =
  co_cap :: nat
  co_total :: nat
  co_pre_truncation :: "byte list"
  co_head :: "byte list"
  co_tail :: "byte list"
  co_truncated :: bool

definition capped_new :: "nat \<Rightarrow> capped_output" where
  "capped_new cap = \<lparr>co_cap = cap, co_total = 0, co_pre_truncation = [], co_head = [],
     co_tail = [], co_truncated = False\<rparr>"

definition push_tail :: "capped_output \<Rightarrow> byte list \<Rightarrow> nat \<Rightarrow> capped_output" where
  "push_tail c data limit =
     (if limit = 0 then c
      else if limit \<le> length data then c\<lparr>co_tail := drop (length data - limit) data\<rparr>
      else let overflow = saturating_add (length (co_tail c)) (length data) - limit in
        c\<lparr>co_tail := drop overflow (co_tail c) @ data\<rparr>)"

text \<open>The moment the cap is exceeded: what was kept so far is split into head and tail.\<close>

definition start_truncation :: "capped_output \<Rightarrow> capped_output" where
  "start_truncation c =
     (let m = length truncation_marker;
          c' = c\<lparr>co_truncated := True\<rparr>;
          kept =
            (if m < co_cap c then
               let keep = co_cap c - m; head_len = keep div 2; tail_len = keep - head_len;
                   n = min head_len (length (co_pre_truncation c')) in
               push_tail (c'\<lparr>co_head := co_head c' @ take n (co_pre_truncation c')\<rparr>)
                 (drop n (co_pre_truncation c')) tail_len
             else c') in
      kept\<lparr>co_pre_truncation := []\<rparr>)"

definition after_truncation :: "capped_output \<Rightarrow> byte list \<Rightarrow> capped_output" where
  "after_truncation c data =
     (let c' = c\<lparr>co_total := co_total c + length data\<rparr>; m = length truncation_marker in
      if m < co_cap c then
        let keep = co_cap c - m; tail_len = keep - keep div 2 in push_tail c' data tail_len
      else c')"

definition capped_write :: "capped_output \<Rightarrow> byte list \<Rightarrow> capped_output" where
  "capped_write c data =
     (if data = [] then c
      else if \<not> co_truncated c then
        let remaining = co_cap c - co_total c in
        if length data \<le> remaining then
          c\<lparr>co_pre_truncation := co_pre_truncation c @ data, co_total := co_total c + length data\<rparr>
        else
          after_truncation
            (start_truncation (c\<lparr>co_pre_truncation := co_pre_truncation c @ take remaining data,
               co_total := co_total c + remaining\<rparr>))
            (drop remaining data)
      else after_truncation c data)"

definition capped_finish :: "capped_output \<Rightarrow> byte list \<times> bool" where
  "capped_finish c =
     (if \<not> co_truncated c then (co_pre_truncation c, False)
      else if co_cap c \<le> length truncation_marker then (truncation_marker, True)
      else (co_head c @ truncation_marker @ co_tail c, True))"

subsection \<open>What is kept of an output\<close>

definition last_bytes :: "nat \<Rightarrow> byte list \<Rightarrow> byte list" where
  "last_bytes n xs = drop (length xs - n) xs"

definition captured :: "nat \<Rightarrow> byte list \<Rightarrow> byte list \<times> bool" where
  "captured cap out =
     (if length out \<le> cap then (out, False)
      else if cap \<le> length truncation_marker then (truncation_marker, True)
      else let keep = cap - length truncation_marker in
        (take (keep div 2) out @ truncation_marker @ last_bytes (keep - keep div 2) out, True))"

lemma last_bytes_all [simp]: "length xs \<le> n \<Longrightarrow> last_bytes n xs = xs"
  by (simp add: last_bytes_def)

lemma length_last_bytes [simp]: "length (last_bytes n xs) = min n (length xs)"
  by (simp add: last_bytes_def)

lemma take_prefix: "n \<le> length xs \<Longrightarrow> take n (xs @ ys) = take n xs"
  by simp

lemma last_bytes_drop: "n + k \<le> length xs \<Longrightarrow> last_bytes n (drop k xs) = last_bytes n xs"
  by (simp add: last_bytes_def)

lemma last_bytes_last: "last_bytes n (last_bytes n xs @ ys) = last_bytes n (xs @ ys)"
proof (cases "n \<le> length xs")
  case True
  have "last_bytes n xs @ ys = drop (length xs - n) (xs @ ys)" by (simp add: last_bytes_def)
  moreover have "last_bytes n (drop (length xs - n) (xs @ ys)) = last_bytes n (xs @ ys)"
    using True by (intro last_bytes_drop) simp
  ultimately show ?thesis by (simp only:)
qed simp

text \<open>A chunk at the end keeps the last bytes; the tail never grows beyond what fits in memory.\<close>

lemma push_tail_tail:
  assumes "co_tail c = last_bytes limit xs" and "limit + limit \<le> u64_max"
  shows "push_tail c data limit = c\<lparr>co_tail := last_bytes limit (xs @ data)\<rparr>"
proof (cases "limit = 0")
  case True
  then show ?thesis using assms(1) by (cases c) (simp add: push_tail_def last_bytes_def)
next
  case False
  show ?thesis
  proof (cases "limit \<le> length data")
    case True
    then show ?thesis using False by (simp add: push_tail_def last_bytes_def)
  next
    case short: False
    have "last_bytes limit (xs @ data) = last_bytes limit (co_tail c @ data)"
      by (simp add: assms(1) last_bytes_last)
    moreover have "length (co_tail c) + length data \<le> u64_max"
      using assms short by simp
    ultimately show ?thesis
      using False short assms(1) by (simp add: push_tail_def saturating_add_def last_bytes_def)
  qed
qed

subsection \<open>The writer keeps exactly that, however the output is cut into chunks\<close>

definition head_size :: "nat \<Rightarrow> nat" where
  "head_size cap = (cap - length truncation_marker) div 2"

definition tail_size :: "nat \<Rightarrow> nat" where
  "tail_size cap = (cap - length truncation_marker) - head_size cap"

definition capture_inv :: "capped_output \<Rightarrow> byte list \<Rightarrow> bool" where
  "capture_inv c out \<longleftrightarrow>
     co_total c = length out \<and> co_truncated c = (co_cap c < length out)
     \<and> (\<not> co_truncated c \<longrightarrow> co_pre_truncation c = out \<and> co_head c = [] \<and> co_tail c = [])
     \<and> (co_truncated c \<longrightarrow> co_pre_truncation c = []
         \<and> (length truncation_marker < co_cap c \<longrightarrow>
             co_head c = take (head_size (co_cap c)) out
             \<and> co_tail c = last_bytes (tail_size (co_cap c)) out))"

lemma after_truncation_inv:
  assumes "co_truncated c" and "co_total c = length out" and "co_cap c < length out + length data"
    and "co_pre_truncation c = []" and "co_cap c + co_cap c \<le> u64_max"
    and "length truncation_marker < co_cap c \<longrightarrow>
      co_head c = take (head_size (co_cap c)) (out @ data)
      \<and> co_tail c = last_bytes (tail_size (co_cap c)) out"
  shows "capture_inv (after_truncation c data) (out @ data)"
    and "co_cap (after_truncation c data) = co_cap c"
proof -
  have "after_truncation c data = (if length truncation_marker < co_cap c
      then c\<lparr>co_total := length (out @ data), co_tail := last_bytes (tail_size (co_cap c)) (out @ data)\<rparr>
      else c\<lparr>co_total := length (out @ data)\<rparr>)"
    using assms(2,5,6) push_tail_tail [of "c\<lparr>co_total := length (out @ data)\<rparr>" "tail_size (co_cap c)" out data]
    by (auto simp: after_truncation_def Let_def tail_size_def head_size_def)
  then show "capture_inv (after_truncation c data) (out @ data)"
    "co_cap (after_truncation c data) = co_cap c"
    using assms by (auto simp: capture_inv_def)
qed

lemma start_truncation_eq:
  assumes "co_head c = []" and "co_tail c = []" and "length (co_pre_truncation c) = co_cap c"
    and "co_cap c + co_cap c \<le> u64_max"
  shows "start_truncation c = (if length truncation_marker < co_cap c
    then c\<lparr>co_truncated := True, co_head := take (head_size (co_cap c)) (co_pre_truncation c),
      co_tail := last_bytes (tail_size (co_cap c)) (co_pre_truncation c), co_pre_truncation := []\<rparr>
    else c\<lparr>co_truncated := True, co_pre_truncation := []\<rparr>)"
proof (cases "length truncation_marker < co_cap c")
  case True
  let ?h = "head_size (co_cap c)" and ?t = "tail_size (co_cap c)" and ?pre = "co_pre_truncation c"
  let ?c = "c\<lparr>co_truncated := True, co_head := take ?h ?pre\<rparr>"
  have h: "min ?h (length ?pre) = ?h" "?t + ?h \<le> length ?pre"
    using True assms(3) by (auto simp: head_size_def tail_size_def)
  have "push_tail ?c (drop ?h ?pre) ?t = ?c\<lparr>co_tail := last_bytes ?t ([] @ drop ?h ?pre)\<rparr>"
    using assms h(2) by (intro push_tail_tail) (auto simp: last_bytes_def)
  also have "last_bytes ?t ([] @ drop ?h ?pre) = last_bytes ?t ?pre"
    using h(2) by (simp add: last_bytes_drop)
  finally show ?thesis
    using True h(1) assms(1)
    by (simp add: start_truncation_def Let_def head_size_def [symmetric]
        tail_size_def [symmetric] del: diff_diff_left)
next
  case False
  then show ?thesis by (simp add: start_truncation_def Let_def)
qed

lemma capped_write_inv:
  assumes "capture_inv c out" and "co_cap c + co_cap c \<le> u64_max"
  shows "capture_inv (capped_write c data) (out @ data)" and "co_cap (capped_write c data) = co_cap c"
proof -
  have "capture_inv (capped_write c data) (out @ data) \<and> co_cap (capped_write c data) = co_cap c"
  proof (cases "data = [] \<or> (\<not> co_truncated c \<and> length data \<le> co_cap c - co_total c)")
    case True
    then show ?thesis using assms(1) by (auto simp: capped_write_def Let_def capture_inv_def)
  next
    case long: False
    show ?thesis
    proof (cases "co_truncated c")
      case True
      then have inv: "co_total c = length out" "co_cap c < length out" "co_pre_truncation c = []"
          "length truncation_marker < co_cap c \<longrightarrow> co_head c = take (head_size (co_cap c)) out
             \<and> co_tail c = last_bytes (tail_size (co_cap c)) out"
        using assms(1) by (auto simp: capture_inv_def)
      moreover have "head_size (co_cap c) \<le> length out" using inv(2) by (simp add: head_size_def)
      ultimately have "capture_inv (after_truncation c data) (out @ data)
          \<and> co_cap (after_truncation c data) = co_cap c"
        using True assms(2) by (intro conjI after_truncation_inv) auto
      then show ?thesis using long True by (simp add: capped_write_def)
    next
      case fits: False
      let ?r = "co_cap c - co_total c"
      have inv: "co_total c = length out" "length out \<le> co_cap c" "co_pre_truncation c = out"
          "co_head c = []" "co_tail c = []"
        using assms(1) fits by (auto simp: capture_inv_def)
      obtain kept over where k: "kept = out @ take ?r data" "over = drop ?r data" by simp
      have cut: "out @ data = kept @ over" "length kept = co_cap c" "over \<noteq> []"
        using k inv long fits by auto
      let ?c1 = "c\<lparr>co_pre_truncation := kept, co_total := length kept\<rparr>"
      obtain c2 where c2: "c2 = start_truncation ?c1" by simp
      have eq: "c2 = (if length truncation_marker < co_cap c
          then ?c1\<lparr>co_truncated := True, co_head := take (head_size (co_cap c)) kept,
            co_tail := last_bytes (tail_size (co_cap c)) kept, co_pre_truncation := []\<rparr>
          else ?c1\<lparr>co_truncated := True, co_pre_truncation := []\<rparr>)"
        using start_truncation_eq [of ?c1] inv cut(2) assms(2) c2 by simp
      have f: "co_cap c2 = co_cap c" "co_truncated c2" "co_total c2 = length kept" "co_pre_truncation c2 = []"
          "length truncation_marker < co_cap c \<longrightarrow> co_head c2 = take (head_size (co_cap c)) kept
             \<and> co_tail c2 = last_bytes (tail_size (co_cap c)) kept"
        by (simp_all add: eq)
      have w: "capped_write c data = after_truncation c2 over"
        using long fits inv k cut(2) c2 by (simp add: capped_write_def Let_def)
      have h: "head_size (co_cap c) \<le> length kept" using cut(2) by (simp add: head_size_def)
      have "length truncation_marker < co_cap c2 \<longrightarrow>
          co_head c2 = take (head_size (co_cap c2)) (kept @ over)
          \<and> co_tail c2 = last_bytes (tail_size (co_cap c2)) kept"
        using f h by simp
      note step = after_truncation_inv [OF f(2,3) _ f(4) _ this]
      have "capture_inv (after_truncation c2 over) (kept @ over)"
          "co_cap (after_truncation c2 over) = co_cap c"
        using step f(1) cut(2,3) assms(2) by simp_all
      then show ?thesis using w cut(1) by simp
    qed
  qed
  then show "capture_inv (capped_write c data) (out @ data)" "co_cap (capped_write c data) = co_cap c"
    by simp_all
qed

definition capture_chunks :: "nat \<Rightarrow> byte list list \<Rightarrow> capped_output" where
  "capture_chunks cap chunks = foldl capped_write (capped_new cap) chunks"

lemma capture_chunks_inv:
  assumes "cap \<le> isize_max"
  shows "capture_inv (capture_chunks cap chunks) (concat chunks) \<and> co_cap (capture_chunks cap chunks) = cap"
proof (induction chunks rule: rev_induct)
  case Nil
  then show ?case by (simp add: capture_chunks_def capped_new_def capture_inv_def)
next
  case (snoc d ds)
  then show ?case
    using capped_write_inv [of "capture_chunks cap ds" "concat ds" d] assms
    by (simp add: capture_chunks_def isize_max_def u64_max_def)
qed

lemma capped_finish_eq:
  assumes "capture_inv c out"
  shows "capped_finish c = captured (co_cap c) out"
  using assms
  by (auto simp: capped_finish_def captured_def capture_inv_def Let_def head_size_def tail_size_def)

lemma captured_bound:
  "length (fst (captured cap out)) \<le> max cap (length truncation_marker)
   \<and> snd (captured cap out) = (cap < length out)"
  by (auto simp: captured_def Let_def)

text \<open>
  C23. However a command cuts its output into writes, the capture is the output itself when it
  fits into the cap, and otherwise its first and last bytes around the truncation marker.
\<close>

theorem capture_spec:
  assumes "cap \<le> isize_max"
  shows "capped_finish (capture_chunks cap chunks) = captured cap (concat chunks)"
  using capture_chunks_inv [OF assms] capped_finish_eq by metis

lemma marker_length: "length truncation_marker = 33"
  by (simp add: truncation_marker_def utf8_char_def)

theorem capture_spec_witness:
  "capped_finish (capture_chunks 37 [replicate 30 1, [], replicate 6 2, [3, 4], [5]]) =
     ([1, 1] @ truncation_marker @ [4, 5], True)"
proof -
  have "capped_finish (capture_chunks 37 [replicate 30 1, [], replicate 6 2, [3, 4], [5]])
      = captured 37 (concat [replicate 30 1, [], replicate 6 2, [3, 4], [5]])"
    by (rule capture_spec) (simp add: isize_max_def)
  also have "\<dots> = ([1, 1] @ truncation_marker @ [4, 5], True)"
    by (simp add: captured_def marker_length last_bytes_def replicate_numeral)
  finally show ?thesis .
qed

text \<open>
  A capture is never longer than its cap, or than the marker when the cap is smaller than
  the marker, and it is marked as truncated exactly when something was left out.
\<close>

lemma capture_bounded:
  assumes "cap \<le> isize_max"
  shows "length (fst (capped_finish (capture_chunks cap chunks))) \<le> max cap (length truncation_marker)
    \<and> snd (capped_finish (capture_chunks cap chunks)) = (cap < length (concat chunks))"
  using capture_chunks_inv [OF assms, of chunks] capped_finish_eq captured_bound by metis

lemma capture_bounded_witness:
  "length (fst (capped_finish (capture_chunks 4 [[1, 2, 3], [4, 5]]))) \<le> 33
   \<and> snd (capped_finish (capture_chunks 4 [[1, 2, 3], [4, 5]]))"
  using capture_bounded [of 4 "[[1, 2, 3], [4, 5]]"] by (auto simp: isize_max_def marker_length)

end
