(* ===== verification/Expansion.thy ===== *)
theory Expansion
  imports Ordered_Map Shell_Syntax
begin

text \<open>
  Expansion of one simple command under a byte budget, from \<open>src/sandbox/expansion.rs\<close>. The
  in-memory sizes of \<open>String\<close>, \<open>Vec<String>\<close> and \<open>ExpandedCommand\<close> that the code charges are
  the compiler's and are a parameter of the model.
\<close>

type_synonym env = "(rstr, rstr) bmap"

record layout =
  sz_string :: nat
  sz_vec :: nat
  sz_command :: nat

record expanded_command =
  ec_syntax :: simple_command
  ec_env :: env
  ec_words :: "rstr list"
  ec_targets :: "rstr list list"

text \<open>\<open>i32::to_string\<close>.\<close>

definition show_int :: "int \<Rightarrow> rstr" where
  "show_int i = (if i < 0 then rs ''-'' @ show_nat (nat (- i)) else show_nat (nat i))"

definition charge :: "nat \<Rightarrow> nat \<Rightarrow> nat option" where
  "charge budget n = (if n \<le> budget then Some (budget - n) else None)"

definition is_field_separator :: "rchar \<Rightarrow> bool" where
  "is_field_separator c \<longleftrightarrow> c = 32 \<or> c = 9 \<or> c = 10"

text \<open>\<open>str::split_inclusive\<close>: each piece ends with its separator, the last one may lack it.\<close>

fun split_inclusive :: "(rchar \<Rightarrow> bool) \<Rightarrow> rstr \<Rightarrow> rstr list" where
  "split_inclusive sep [] = []"
| "split_inclusive sep (c # cs) =
     (if sep c then [c] # split_inclusive sep cs
      else case split_inclusive sep cs of [] \<Rightarrow> [[c]] | p # ps \<Rightarrow> (c # p) # ps)"

record field_state =
  wf_fields :: "rstr list"
  wf_current :: rstr
  wf_keep :: bool

definition segment_value :: "env \<Rightarrow> int \<Rightarrow> segment \<Rightarrow> rstr" where
  "segment_value env status seg =
     (case seg of
        Literal v _ \<Rightarrow> v
      | Expansion name _ \<Rightarrow>
          if name = rs ''?'' then show_int status
          else (case bm_get env name of None \<Rightarrow> [] | Some v \<Rightarrow> v))"

definition segment_splits :: "bool \<Rightarrow> segment \<Rightarrow> bool" where
  "segment_splits split seg =
     (case seg of Literal _ _ \<Rightarrow> False | Expansion _ quoted \<Rightarrow> split \<and> \<not> quoted)"

text \<open>The loop over the parts of an unquoted expansion.\<close>

fun expand_parts ::
  "layout \<Rightarrow> nat \<Rightarrow> field_state \<Rightarrow> rstr list \<Rightarrow> (nat \<times> field_state) option" where
  "expand_parts ly budget w [] = Some (budget, w)"
| "expand_parts ly budget w (part # parts) =
     (let separated = part \<noteq> [] \<and> is_field_separator (last part);
          txt = if separated then butlast part else part;
          w1 = w\<lparr>wf_current := wf_current w @ txt, wf_keep := wf_keep w \<or> txt \<noteq> []\<rparr> in
      if separated \<and> wf_keep w1 then
        (case charge budget (sz_string ly) of
           None \<Rightarrow> None
         | Some budget' \<Rightarrow>
             expand_parts ly budget' (w1\<lparr>wf_fields := wf_fields w1 @ [wf_current w1],
               wf_current := [], wf_keep := False\<rparr>) parts)
      else expand_parts ly budget w1 parts)"

fun expand_segments ::
  "layout \<Rightarrow> env \<Rightarrow> int \<Rightarrow> bool \<Rightarrow> nat \<Rightarrow> field_state \<Rightarrow> segment list \<Rightarrow> (nat \<times> field_state) option" where
  "expand_segments ly env status split budget w [] = Some (budget, w)"
| "expand_segments ly env status split budget w (seg # segs) =
     (let v = segment_value env status seg in
      case charge budget (byte_len v) of
        None \<Rightarrow> None
      | Some budget' \<Rightarrow>
          if \<not> segment_splits split seg then
            expand_segments ly env status split budget'
              (w\<lparr>wf_current := wf_current w @ v, wf_keep := True\<rparr>) segs
          else
            (case expand_parts ly budget' w (split_inclusive is_field_separator v) of
               None \<Rightarrow> None
             | Some (budget'', w') \<Rightarrow> expand_segments ly env status split budget'' w' segs))"

definition expand_word ::
  "layout \<Rightarrow> nat \<Rightarrow> sh_word \<Rightarrow> env \<Rightarrow> int \<Rightarrow> bool \<Rightarrow> (nat \<times> rstr list) option" where
  "expand_word ly budget wd env status split =
     (case expand_segments ly env status split budget
         \<lparr>wf_fields = [], wf_current = [], wf_keep = \<not> split\<rparr> (segments wd) of
        None \<Rightarrow> None
      | Some (budget', w) \<Rightarrow>
          if wf_keep w then
            (case charge budget' (sz_string ly) of
               None \<Rightarrow> None
             | Some budget'' \<Rightarrow> Some (budget'', wf_fields w @ [wf_current w]))
          else Some (budget', wf_fields w))"

fun charge_env :: "layout \<Rightarrow> nat \<Rightarrow> env \<Rightarrow> nat option" where
  "charge_env ly budget [] = Some budget"
| "charge_env ly budget ((name, v) # rest) =
     (case charge budget (2 * sz_string ly) of
        None \<Rightarrow> None
      | Some b1 \<Rightarrow> (case charge b1 (byte_len name) of
          None \<Rightarrow> None
        | Some b2 \<Rightarrow> (case charge b2 (byte_len v) of
            None \<Rightarrow> None
          | Some b3 \<Rightarrow> charge_env ly b3 rest)))"

fun expand_assignments ::
  "layout \<Rightarrow> int \<Rightarrow> nat \<Rightarrow> env \<Rightarrow> assignment list \<Rightarrow> (nat \<times> env) option" where
  "expand_assignments ly status budget env [] = Some (budget, env)"
| "expand_assignments ly status budget env (a # as) =
     (case charge budget (sz_string ly) of
        None \<Rightarrow> None
      | Some b1 \<Rightarrow> (case charge b1 (byte_len (as_name a)) of
          None \<Rightarrow> None
        | Some b2 \<Rightarrow> (case expand_word ly b2 (as_value a) env status False of
            None \<Rightarrow> None
          | Some (b3, fds) \<Rightarrow>
              if fds = [] then None
              else expand_assignments ly status b3 (bm_insert (as_name a) (last fds) env) as)))"

fun expand_words ::
  "layout \<Rightarrow> env \<Rightarrow> int \<Rightarrow> nat \<Rightarrow> sh_word list \<Rightarrow> (nat \<times> rstr list) option" where
  "expand_words ly env status budget [] = Some (budget, [])"
| "expand_words ly env status budget (w # ws) =
     (case expand_word ly budget w env status True of
        None \<Rightarrow> None
      | Some (b1, fds) \<Rightarrow> (case expand_words ly env status b1 ws of
          None \<Rightarrow> None
        | Some (b2, rest) \<Rightarrow> Some (b2, fds @ rest)))"

fun expand_targets ::
  "layout \<Rightarrow> env \<Rightarrow> int \<Rightarrow> nat \<Rightarrow> redirect list \<Rightarrow> (nat \<times> rstr list list) option" where
  "expand_targets ly env status budget [] = Some (budget, [])"
| "expand_targets ly env status budget (r # rds) =
     (case charge budget (sz_vec ly) of
        None \<Rightarrow> None
      | Some b1 \<Rightarrow>
          (case (case rd_target r of
                   TWord w \<Rightarrow> expand_word ly b1 w env status True
                 | TFd _ \<Rightarrow> Some (b1, [])) of
             None \<Rightarrow> None
           | Some (b2, t) \<Rightarrow> (case expand_targets ly env status b2 rds of
               None \<Rightarrow> None
             | Some (b3, ts) \<Rightarrow> Some (b3, t # ts))))"

definition expand_command ::
  "layout \<Rightarrow> nat \<Rightarrow> simple_command \<Rightarrow> env \<Rightarrow> int \<Rightarrow> (nat \<times> expanded_command) option" where
  "expand_command ly budget syn base status =
     (case charge budget (sz_command ly) of
        None \<Rightarrow> None
      | Some b1 \<Rightarrow> (case charge_env ly b1 base of
          None \<Rightarrow> None
        | Some b2 \<Rightarrow> (case expand_assignments ly status b2 base (sc_assignments syn) of
            None \<Rightarrow> None
          | Some (b3, env) \<Rightarrow> (case expand_words ly base status b3 (sc_words syn) of
              None \<Rightarrow> None
            | Some (b4, ws) \<Rightarrow>
                (case expand_targets ly (if ws = [] then env else base) status b4 (sc_redirects syn) of
                   None \<Rightarrow> None
                 | Some (b5, ts) \<Rightarrow>
                     Some (b5, \<lparr>ec_syntax = syn, ec_env = env, ec_words = ws, ec_targets = ts\<rparr>))))))"

subsection \<open>What expansion means, without the budget\<close>

text \<open>
  A word is a sequence of atoms: characters, marks left by literals and quoted expansions
  (which keep a field even when it is empty), and separators from unquoted expansions. Its
  fields are the groups between separators that are not empty.
\<close>

datatype atom = Ch rchar | Mark | Sep

definition segment_atoms :: "env \<Rightarrow> int \<Rightarrow> bool \<Rightarrow> segment \<Rightarrow> atom list" where
  "segment_atoms env status split seg =
     (let v = segment_value env status seg in
      if segment_splits split seg
      then map (\<lambda>c. if is_field_separator c then Sep else Ch c) v
      else Mark # map Ch v)"

definition word_atoms :: "env \<Rightarrow> int \<Rightarrow> bool \<Rightarrow> sh_word \<Rightarrow> atom list" where
  "word_atoms env status split w =
     (if split then [] else [Mark]) @ concat (map (segment_atoms env status split) (segments w))"

definition atoms_text :: "atom list \<Rightarrow> rstr" where
  "atoms_text as = concat (map (\<lambda>a. case a of Ch c \<Rightarrow> [c] | _ \<Rightarrow> []) as)"

definition atom_fields :: "atom list \<Rightarrow> rstr list" where
  "atom_fields as = map atoms_text (filter (\<lambda>g. g \<noteq> []) (split_on Sep as))"

definition fields_of_word :: "env \<Rightarrow> int \<Rightarrow> bool \<Rightarrow> sh_word \<Rightarrow> rstr list" where
  "fields_of_word env status split w = atom_fields (word_atoms env status split w)"

definition word_cost :: "layout \<Rightarrow> env \<Rightarrow> int \<Rightarrow> bool \<Rightarrow> sh_word \<Rightarrow> nat" where
  "word_cost ly env status split w =
     sum_list (map (\<lambda>seg. byte_len (segment_value env status seg)) (segments w))
     + sz_string ly * length (fields_of_word env status split w)"

fun assignments_env :: "int \<Rightarrow> env \<Rightarrow> assignment list \<Rightarrow> env" where
  "assignments_env status env [] = env"
| "assignments_env status env (a # as) =
     assignments_env status
       (bm_insert (as_name a) (concat (map (segment_value env status) (segments (as_value a)))) env) as"

fun assignments_cost :: "layout \<Rightarrow> int \<Rightarrow> env \<Rightarrow> assignment list \<Rightarrow> nat" where
  "assignments_cost ly status env [] = 0"
| "assignments_cost ly status env (a # as) =
     sz_string ly + byte_len (as_name a) + word_cost ly env status False (as_value a)
     + assignments_cost ly status
         (bm_insert (as_name a) (concat (map (segment_value env status) (segments (as_value a)))) env) as"

definition target_fields :: "env \<Rightarrow> int \<Rightarrow> redirect \<Rightarrow> rstr list" where
  "target_fields env status r =
     (case rd_target r of TWord w \<Rightarrow> fields_of_word env status True w | TFd _ \<Rightarrow> [])"

definition target_cost :: "layout \<Rightarrow> env \<Rightarrow> int \<Rightarrow> redirect \<Rightarrow> nat" where
  "target_cost ly env status r = sz_vec ly +
     (case rd_target r of TWord w \<Rightarrow> word_cost ly env status True w | TFd _ \<Rightarrow> 0)"

definition env_cost :: "layout \<Rightarrow> env \<Rightarrow> nat" where
  "env_cost ly env = sum_list (map (\<lambda>(n, v). 2 * sz_string ly + byte_len n + byte_len v) env)"

definition command_expansion :: "simple_command \<Rightarrow> env \<Rightarrow> int \<Rightarrow> expanded_command" where
  "command_expansion syn base status =
     (let env = assignments_env status base (sc_assignments syn);
          ws = concat (map (fields_of_word base status True) (sc_words syn)) in
      \<lparr>ec_syntax = syn, ec_env = env, ec_words = ws,
       ec_targets = map (target_fields (if ws = [] then env else base) status) (sc_redirects syn)\<rparr>)"

definition command_cost :: "layout \<Rightarrow> simple_command \<Rightarrow> env \<Rightarrow> int \<Rightarrow> nat" where
  "command_cost ly syn base status =
     (let env = assignments_env status base (sc_assignments syn);
          ws = concat (map (fields_of_word base status True) (sc_words syn)) in
      sz_command ly + env_cost ly base + assignments_cost ly status base (sc_assignments syn)
      + sum_list (map (word_cost ly base status True) (sc_words syn))
      + sum_list (map (target_cost ly (if ws = [] then env else base) status) (sc_redirects syn)))"

subsection \<open>The code computes it\<close>

text \<open>Paying \<open>n\<close> from a budget before returning a value.\<close>

definition pay :: "nat \<Rightarrow> nat \<Rightarrow> 'a \<Rightarrow> (nat \<times> 'a) option" where
  "pay b n x = (if n \<le> b then Some (b - n, x) else None)"

lemma charge_then:
  "(\<And>b'. f b' = pay b' m x) \<Longrightarrow> (case charge b n of None \<Rightarrow> None | Some b' \<Rightarrow> f b') = pay b (n + m) x"
  by (auto simp: charge_def pay_def)

lemma pay_then:
  "(\<And>b'. f b' y = pay b' m x) \<Longrightarrow>
   (case pay b n y of None \<Rightarrow> None | Some (b', z) \<Rightarrow> f b' z) = pay b (n + m) x"
  by (auto simp: pay_def)

lemmas charge_pay = charge_then [OF refl]

lemma pay_0: "Some (b, x) = pay b 0 x"
  by (simp add: pay_def)

lemma split_on_snoc_sep: "split_on c (xs @ [c]) = split_on c xs @ [[]]"
  by (induction xs) (auto split: list.splits)

lemma split_on_snoc_other:
  "c \<notin> set g \<Longrightarrow> split_on c (xs @ g) = butlast (split_on c xs) @ [last (split_on c xs) @ g]"
proof (induction xs)
  case (Cons x xs)
  then show ?case by (cases "split_on c xs"; cases "tl (split_on c xs)") auto
qed (simp add: split_on_no_sep)

definition finished :: "atom list \<Rightarrow> rstr list" where
  "finished as = map atoms_text (filter (\<lambda>g. g \<noteq> []) (butlast (split_on Sep as)))"

definition state_of :: "atom list \<Rightarrow> field_state" where
  "state_of as = \<lparr>wf_fields = finished as, wf_current = atoms_text (last (split_on Sep as)),
     wf_keep = (last (split_on Sep as) \<noteq> [])\<rparr>"

lemma atoms_text_append [simp]: "atoms_text (as @ bs) = atoms_text as @ atoms_text bs"
  by (simp add: atoms_text_def)

lemma atoms_text_simps [simp]:
  "atoms_text [] = []" "atoms_text (Mark # as) = atoms_text as" "atoms_text (map Ch v) = v"
  by (simp_all add: atoms_text_def o_def)

lemma state_of_group:
  "Sep \<notin> set g \<Longrightarrow> state_of (as @ g) = (state_of as)\<lparr>
     wf_current := wf_current (state_of as) @ atoms_text g, wf_keep := wf_keep (state_of as) \<or> g \<noteq> []\<rparr>"
  "Sep \<notin> set g \<Longrightarrow> finished (as @ g) = finished as"
  by (simp_all add: state_of_def finished_def split_on_snoc_other)

lemma state_of_sep:
  "state_of (as @ [Sep]) = (state_of as)\<lparr>wf_fields := finished (as @ [Sep]), wf_current := [], wf_keep := False\<rparr>"
  "finished (as @ [Sep]) = finished as @ (if wf_keep (state_of as) then [wf_current (state_of as)] else [])"
proof -
  have "split_on Sep as = butlast (split_on Sep as) @ [last (split_on Sep as)]" by simp
  then have "filter (\<lambda>g. g \<noteq> []) (split_on Sep as)
      = filter (\<lambda>g. g \<noteq> []) (butlast (split_on Sep as)) @ filter (\<lambda>g. g \<noteq> []) [last (split_on Sep as)]"
    by (metis filter_append)
  then show "finished (as @ [Sep]) = finished as @ (if wf_keep (state_of as) then [wf_current (state_of as)] else [])"
    by (simp add: finished_def state_of_def split_on_snoc_sep)
  show "state_of (as @ [Sep]) = (state_of as)\<lparr>wf_fields := finished (as @ [Sep]), wf_current := [], wf_keep := False\<rparr>"
    by (simp add: state_of_def split_on_snoc_sep)
qed

lemma atom_fields_state:
  "atom_fields as = wf_fields (state_of as) @ (if wf_keep (state_of as) then [wf_current (state_of as)] else [])"
  using state_of_sep(2) [of as] by (simp add: atom_fields_def finished_def state_of_def split_on_snoc_sep)

abbreviation split_atom :: "rchar \<Rightarrow> atom" where
  "split_atom \<equiv> \<lambda>c. if is_field_separator c then Sep else Ch c"

text \<open>The pieces of \<open>split_inclusive\<close>: separators only at their ends, together the whole value.\<close>

lemma split_inclusive_concat: "concat (split_inclusive sep v) = v"
  by (induction v) (auto split: list.splits)

definition piece :: "(rchar \<Rightarrow> bool) \<Rightarrow> rstr \<Rightarrow> bool" where
  "piece sep p \<longleftrightarrow> p \<noteq> [] \<and> list_all (\<lambda>c. \<not> sep c) (butlast p)"

lemma split_inclusive_pieces: "list_all (piece sep) (split_inclusive sep v)"
  by (induction v) (auto simp: piece_def split: list.splits)

abbreviation done_fields :: "atom list \<Rightarrow> nat" where
  "done_fields as \<equiv> length (finished as)"

lemma done_fields_mono: "done_fields as \<le> done_fields (as @ bs)"
proof (induction bs rule: rev_induct)
  case (snoc b bs)
  then show ?case
    using state_of_sep(2) [of "as @ bs"] state_of_group(2) [of "[b]" "as @ bs"]
    by (cases "b = Sep") auto
qed simp

lemma no_keep_no_text: "\<not> wf_keep (state_of as) \<Longrightarrow> wf_current (state_of as) = []"
  by (simp add: state_of_def)

lemma state_sep:
  "wf_keep (state_of as) \<Longrightarrow> (state_of as)\<lparr>wf_fields := wf_fields (state_of as) @ [wf_current (state_of as)],
     wf_current := [], wf_keep := False\<rparr> = state_of (as @ [Sep])"
  "\<not> wf_keep (state_of as) \<Longrightarrow> state_of (as @ [Sep]) = state_of as"
  using state_of_sep [of as] by (simp_all add: state_of_def)

lemma one_more: "Suc m \<le> n \<Longrightarrow> z + z * (n - Suc m) = z * (n - m)" for z :: nat
  by (simp add: Suc_diff_Suc [symmetric])

lemma Sep_notin_Ch [simp]: "Sep \<notin> set (map Ch v)" "Sep \<notin> Ch ` V"
  by auto

lemma split_atom_plain: "list_all (\<lambda>c. \<not> is_field_separator c) v \<Longrightarrow> map split_atom v = map Ch v"
  by (simp add: list_all_iff)

lemma expand_parts_eq:
  "list_all (piece is_field_separator) parts \<Longrightarrow>
   expand_parts ly b (state_of as) parts =
     (let bs = as @ map split_atom (concat parts) in
      pay b (sz_string ly * (done_fields bs - done_fields as)) (state_of bs))"
proof (induction parts arbitrary: b as)
  case Nil
  then show ?case by (simp add: pay_def)
next
  case (Cons part parts)
  have piece: "part \<noteq> []" "list_all (\<lambda>c. \<not> is_field_separator c) (butlast part)"
    "list_all (piece is_field_separator) parts"
    using Cons.prems by (simp_all add: piece_def [of _ part])
  let ?sep = "is_field_separator (last part)"
  let ?txt = "if ?sep then butlast part else part"
  let ?mid = "as @ map Ch ?txt"
  let ?next = "as @ map split_atom part"
  let ?fin = "?next @ map split_atom (concat parts)"
  have plain: "list_all (\<lambda>c. \<not> is_field_separator c) ?txt"
    using piece(1,2) by (cases part rule: rev_cases) auto
  have nx: "?next = (if ?sep then ?mid @ [Sep] else ?mid)"
    using split_atom_plain [OF plain] piece(1) by (cases part rule: rev_cases) auto
  have mid: "(state_of as)\<lparr>wf_current := wf_current (state_of as) @ ?txt,
      wf_keep := wf_keep (state_of as) \<or> ?txt \<noteq> []\<rparr> = state_of ?mid" "finished ?mid = finished as"
    using state_of_group [of "map Ch ?txt" as] by simp_all
  have step: "expand_parts ly b (state_of as) (part # parts) =
      (if ?sep \<and> wf_keep (state_of ?mid) then
         (case charge b (sz_string ly) of None \<Rightarrow> None
          | Some b' \<Rightarrow> expand_parts ly b' (state_of ?next) parts)
       else expand_parts ly b (state_of ?next) parts)"
  proof (cases ?sep)
    case True
    then have n: "?next = ?mid @ [Sep]" using nx by simp
    show ?thesis
      unfolding n expand_parts.simps Let_def
      using mid piece(1) True state_sep [of ?mid] by (simp cong: option.case_cong)
  next
    case False
    then have n: "?next = ?mid" using nx by simp
    show ?thesis
      unfolding n expand_parts.simps Let_def using mid piece(1) False by simp
  qed
  have cnt: "done_fields ?next = done_fields as + (if ?sep \<and> wf_keep (state_of ?mid) then 1 else 0)"
    using nx mid(2) state_of_sep(2) [of ?mid] by auto
  have le: "done_fields ?next \<le> done_fields ?fin" by (rule done_fields_mono)
  have IH: "expand_parts ly b' (state_of ?next) parts =
      pay b' (sz_string ly * (done_fields ?fin - done_fields ?next)) (state_of ?fin)" for b'
    using Cons.IH [OF piece(3), of b' ?next] by (simp add: Let_def)
  show ?case
  proof (cases "?sep \<and> wf_keep (state_of ?mid)")
    case True
    have c: "done_fields ?next = Suc (done_fields as)" using cnt unfolding if_P [OF True] by simp
    note sum = one_more [OF le [unfolded c], of "sz_string ly"]
    have "expand_parts ly b (state_of as) (part # parts)
        = pay b (sz_string ly * (done_fields ?fin - done_fields as)) (state_of ?fin)"
      unfolding step IH charge_pay c sum by (rule if_P [OF True])
    then show ?thesis by (simp add: Let_def)
  next
    case False
    then show ?thesis unfolding step IH using cnt by (auto simp: Let_def)
  qed
qed

lemma expand_segments_eq:
  "expand_segments ly env status split b (state_of as) segs =
     (let bs = as @ concat (map (segment_atoms env status split) segs) in
      pay b (sum_list (map (\<lambda>seg. byte_len (segment_value env status seg)) segs)
             + sz_string ly * (done_fields bs - done_fields as)) (state_of bs))"
proof (induction segs arbitrary: b as)
  case Nil
  then show ?case by (simp add: pay_def)
next
  case (Cons seg segs)
  let ?v = "segment_value env status seg"
  let ?next = "as @ segment_atoms env status split seg"
  let ?fin = "?next @ concat (map (segment_atoms env status split) segs)"
  have le: "done_fields as \<le> done_fields ?next" "done_fields ?next \<le> done_fields ?fin"
    by (rule done_fields_mono)+
  have sum: "sz_string ly * (done_fields ?next - done_fields as)
      + sz_string ly * (done_fields ?fin - done_fields ?next) = sz_string ly * (done_fields ?fin - done_fields as)"
    using le by (simp flip: distrib_left)
  note IH = Cons.IH [of _ ?next, unfolded Let_def]
  show ?case
  proof (cases "segment_splits split seg")
    case False
    then have at: "segment_atoms env status split seg = Mark # map Ch ?v"
      by (simp add: segment_atoms_def Let_def)
    have st: "(state_of as)\<lparr>wf_current := wf_current (state_of as) @ ?v, wf_keep := True\<rparr> = state_of ?next"
      "finished ?next = finished as"
      using state_of_group [of "Mark # map Ch ?v" as] at by simp_all
    have "expand_segments ly env status split b (state_of as) (seg # segs) =
        (case charge b (byte_len ?v) of None \<Rightarrow> None | Some b' \<Rightarrow>
          expand_segments ly env status split b' (state_of ?next) segs)"
      using False st(1) by (simp add: Let_def cong: option.case_cong)
    then show ?thesis unfolding IH charge_pay using st(2) by (simp add: Let_def add.assoc)
  next
    case True
    then have at: "segment_atoms env status split seg = map split_atom ?v"
      by (simp add: segment_atoms_def Let_def)
    have parts: "expand_parts ly b' (state_of as) (split_inclusive is_field_separator ?v) =
        pay b' (sz_string ly * (done_fields ?next - done_fields as)) (state_of ?next)" for b'
      using expand_parts_eq [OF split_inclusive_pieces, of ly b' as ?v]
      by (simp add: Let_def split_inclusive_concat at)
    have "expand_segments ly env status split b (state_of as) (seg # segs) =
        (case charge b (byte_len ?v) of None \<Rightarrow> None | Some b' \<Rightarrow>
          (case pay b' (sz_string ly * (done_fields ?next - done_fields as)) (state_of ?next) of
             None \<Rightarrow> None
           | Some (b'', w) \<Rightarrow> expand_segments ly env status split b'' w segs))"
      using True parts by (simp add: Let_def cong: option.case_cong)
    also have "\<dots> = pay b (byte_len ?v + (sz_string ly * (done_fields ?next - done_fields as)
        + (sum_list (map (\<lambda>seg. byte_len (segment_value env status seg)) segs)
           + sz_string ly * (done_fields ?fin - done_fields ?next)))) (state_of ?fin)"
      by (intro charge_then pay_then IH)
    finally show ?thesis using sum by (simp add: Let_def algebra_simps)
  qed
qed

lemma initial_state:
  "\<lparr>wf_fields = [], wf_current = [], wf_keep = \<not> split\<rparr> = state_of (if split then [] else [Mark])"
  "finished (if split then [] else [Mark]) = []"
  by (simp_all add: state_of_def finished_def)

lemma expand_word_eq:
  "expand_word ly b w env status split =
     pay b (word_cost ly env status split w) (fields_of_word env status split w)"
proof -
  let ?as = "word_atoms env status split w"
  let ?n = "sum_list (map (\<lambda>seg. byte_len (segment_value env status seg)) (segments w))"
  have segs: "expand_segments ly env status split b \<lparr>wf_fields = [], wf_current = [], wf_keep = \<not> split\<rparr> (segments w)
      = pay b (?n + sz_string ly * done_fields ?as) (state_of ?as)"
    unfolding initial_state(1)
    using expand_segments_eq [of ly env status split b "if split then [] else [Mark]" "segments w"]
      initial_state(2) [of split]
    by (simp add: Let_def word_atoms_def)
  have all: "fields_of_word env status split w = finished ?as @
      (if wf_keep (state_of ?as) then [wf_current (state_of ?as)] else [])"
    by (simp add: fields_of_word_def atom_fields_state) (simp add: state_of_def)
  have "expand_word ly b w env status split = pay b (?n + sz_string ly * done_fields ?as +
      (if wf_keep (state_of ?as) then sz_string ly + 0 else 0)) (fields_of_word env status split w)"
    unfolding expand_word_def segs
    by (rule pay_then) (auto simp: all pay_def charge_def state_of_def)
  then show ?thesis by (simp add: word_cost_def all ac_simps)
qed

lemma charge_env_eq: "charge_env ly b env = map_option fst (pay b (env_cost ly env) ())"
proof (induction ly b env rule: charge_env.induct)
  case (2 ly b name v rest)
  then show ?case by (auto simp: charge_def pay_def env_cost_def)
qed (simp add: pay_def env_cost_def)

lemma fields_of_value: "fields_of_word env status False w = [concat (map (segment_value env status) (segments w))]"
proof -
  let ?as = "word_atoms env status False w"
  have one: "Sep \<notin> set (segment_atoms env status False seg) \<and>
      atoms_text (segment_atoms env status False seg) = segment_value env status seg" for seg
    by (cases seg) (auto simp: segment_atoms_def segment_splits_def Let_def)
  have "atoms_text (concat (map (segment_atoms env status False) segs)) =
      concat (map (segment_value env status) segs)" for segs
    by (induction segs) (simp_all add: one)
  then have "Sep \<notin> set ?as" "atoms_text ?as = concat (map (segment_value env status) (segments w))"
    using one by (auto simp: word_atoms_def)
  moreover have "?as \<noteq> []" by (simp add: word_atoms_def)
  ultimately show ?thesis
    by (simp add: fields_of_word_def atom_fields_def split_on_no_sep)
qed

lemma expand_assignments_eq:
  "expand_assignments ly status b env as =
     pay b (assignments_cost ly status env as) (assignments_env status env as)"
proof (induction as arbitrary: b env)
  case Nil
  then show ?case by (simp add: pay_def)
next
  case (Cons a as)
  show ?case
    unfolding expand_assignments.simps expand_word_eq fields_of_value assignments_cost.simps
      assignments_env.simps add.assoc
    by (intro charge_then pay_then) (simp add: Cons.IH)
qed

lemma expand_words_eq:
  "expand_words ly env status b ws =
     pay b (sum_list (map (word_cost ly env status True) ws))
       (concat (map (fields_of_word env status True) ws))"
proof (induction ws arbitrary: b)
  case Nil
  then show ?case by (simp add: pay_def)
next
  case (Cons w ws)
  show ?case
    unfolding expand_words.simps expand_word_eq list.map sum_list.Cons
    by (rule pay_then) (auto simp: Cons.IH pay_def)
qed

lemma expand_targets_eq:
  "expand_targets ly env status b rds =
     pay b (sum_list (map (target_cost ly env status) rds)) (map (target_fields env status) rds)"
proof (induction rds arbitrary: b)
  case Nil
  then show ?case by (simp add: pay_def)
next
  case (Cons r rds)
  have t: "(case rd_target r of TWord w \<Rightarrow> expand_word ly b' w env status True | TFd _ \<Rightarrow> Some (b', []))
      = pay b' (case rd_target r of TWord w \<Rightarrow> word_cost ly env status True w | TFd _ \<Rightarrow> 0)
          (target_fields env status r)" for b'
    by (auto simp: expand_word_eq target_fields_def pay_def split: redirect_target.splits)
  show ?case
    unfolding expand_targets.simps t list.map sum_list.Cons target_cost_def add.assoc
    by (intro charge_then pay_then) (auto simp: Cons.IH target_cost_def pay_def)
qed

lemma expand_command_eq:
  "expand_command ly b syn base status =
     pay b (command_cost ly syn base status) (command_expansion syn base status)"
proof -
  let ?env = "assignments_env status base (sc_assignments syn)"
  let ?ws = "concat (map (fields_of_word base status True) (sc_words syn))"
  have env: "(case charge_env ly b1 base of None \<Rightarrow> None | Some b2 \<Rightarrow> f b2)
      = (case pay b1 (env_cost ly base) () of None \<Rightarrow> None | Some (b2, _) \<Rightarrow> f b2)" for b1 and f :: "nat \<Rightarrow> 'z option"
    by (auto simp: charge_env_eq pay_def)
  show ?thesis
    unfolding expand_command_def env expand_assignments_eq expand_words_eq expand_targets_eq
      command_cost_def Let_def add.assoc
    by (intro charge_then pay_then) (simp add: pay_def command_expansion_def Let_def)
qed

text \<open>
  C24. Expanding a command under a budget either gives exactly its expansion (assignments see the
  earlier assignments of the same command, arguments the old environment, redirects the new
  one only when there is no command) and charges exactly its cost, or fails because that cost
  exceeds the budget.
\<close>

theorem expand_command_spec:
  "expand_command ly b syn base status =
     (if command_cost ly syn base status \<le> b
      then Some (b - command_cost ly syn base status, command_expansion syn base status)
      else None)"
  by (simp add: expand_command_eq pay_def)

subsection \<open>The budget bounds what is stored\<close>

definition fields_size :: "layout \<Rightarrow> rstr list \<Rightarrow> nat" where
  "fields_size ly fds = sum_list (map (\<lambda>f. byte_len f + sz_string ly) fds)"

lemma fields_size_append [simp]: "fields_size ly (xs @ ys) = fields_size ly xs + fields_size ly ys"
  by (simp add: fields_size_def)

lemma fields_size_concat: "fields_size ly (concat xss) = sum_list (map (fields_size ly) xss)"
  by (induction xss) (simp_all add: fields_size_def)

lemma split_on_text: "concat (map atoms_text (split_on Sep as)) = atoms_text as"
proof (induction as)
  case (Cons a as)
  then show ?case by (cases a; cases "split_on Sep as") (auto simp: atoms_text_def)
qed simp

lemma byte_len_concat: "byte_len (concat xs) = sum_list (map byte_len xs)"
  by (induction xs) simp_all

lemma sum_list_filter_le: "sum_list (map f (filter P xs)) \<le> sum_list (map f xs)" for f :: "'z \<Rightarrow> nat"
  by (induction xs) auto

lemma atom_fields_size: "fields_size ly (atom_fields as) \<le> byte_len (atoms_text as) + sz_string ly * length (atom_fields as)"
proof -
  have "sum_list (map byte_len (atom_fields as)) \<le> sum_list (map byte_len (map atoms_text (split_on Sep as)))"
    using sum_list_filter_le [of "byte_len \<circ> atoms_text"] by (simp add: atom_fields_def o_def)
  also have "\<dots> = byte_len (atoms_text as)" by (simp only: byte_len_concat [symmetric] split_on_text)
  finally show ?thesis
    by (simp add: fields_size_def sum_list_addf sum_list_triv o_def)
qed

lemma split_atoms_text: "byte_len (atoms_text (map split_atom v)) \<le> byte_len v"
  by (induction v) (auto simp: atoms_text_def)

lemma segment_atoms_text: "byte_len (atoms_text (segment_atoms env status split seg)) \<le> byte_len (segment_value env status seg)"
  using split_atoms_text by (simp add: segment_atoms_def Let_def)

lemma word_size: "fields_size ly (fields_of_word env status split w) \<le> word_cost ly env status split w"
proof -
  have "byte_len (atoms_text (concat (map (segment_atoms env status split) segs)))
      \<le> sum_list (map (\<lambda>seg. byte_len (segment_value env status seg)) segs)" for segs
    by (induction segs) (auto intro!: add_mono segment_atoms_text)
  then have "byte_len (atoms_text (word_atoms env status split w))
      \<le> sum_list (map (\<lambda>seg. byte_len (segment_value env status seg)) (segments w))"
    by (cases split) (simp_all add: word_atoms_def)
  then show ?thesis
    using atom_fields_size [of ly "word_atoms env status split w"]
    by (simp add: word_cost_def fields_of_word_def)
qed

lemma env_cost_insert: "env_cost ly (bm_insert n v env) \<le> env_cost ly env + 2 * sz_string ly + byte_len n + byte_len v"
  by (induction n v env rule: bm_insert.induct) (auto simp: env_cost_def)

lemma value_cost: "word_cost ly env status False w
    = byte_len (concat (map (segment_value env status) (segments w))) + sz_string ly"
  by (simp add: word_cost_def fields_of_value byte_len_concat o_def)

lemma assignments_size: "env_cost ly (assignments_env status env as) \<le> env_cost ly env + assignments_cost ly status env as"
proof (induction as arbitrary: env)
  case (Cons a as)
  let ?v = "concat (map (segment_value env status) (segments (as_value a)))"
  have "env_cost ly (assignments_env status env (a # as)) \<le>
      env_cost ly (bm_insert (as_name a) ?v env) + assignments_cost ly status (bm_insert (as_name a) ?v env) as"
    using Cons.IH by simp
  then show ?case using env_cost_insert [of ly "as_name a" ?v env] by (simp add: value_cost)
qed simp

lemma words_size: "fields_size ly (concat (map (fields_of_word env status split) ws))
    \<le> sum_list (map (word_cost ly env status split) ws)"
  unfolding fields_size_concat map_map o_def by (intro sum_list_mono word_size)

lemma target_size: "sz_vec ly + fields_size ly (target_fields env status r) \<le> target_cost ly env status r"
  using word_size by (auto simp: target_fields_def target_cost_def fields_size_def split: redirect_target.splits)

definition targets_size :: "layout \<Rightarrow> rstr list list \<Rightarrow> nat" where
  "targets_size ly ts = sum_list (map (\<lambda>t. sz_vec ly + fields_size ly t) ts)"

lemma targets_size_le: "targets_size ly (map (target_fields env status) rds) \<le> sum_list (map (target_cost ly env status) rds)"
  unfolding targets_size_def map_map o_def by (intro sum_list_mono target_size)

definition expanded_size :: "layout \<Rightarrow> expanded_command \<Rightarrow> nat" where
  "expanded_size ly ec = sz_command ly + env_cost ly (ec_env ec) + fields_size ly (ec_words ec)
     + targets_size ly (ec_targets ec)"

lemma expansion_size: "expanded_size ly (command_expansion syn base status) \<le> command_cost ly syn base status"
proof -
  let ?env = "assignments_env status base (sc_assignments syn)"
  let ?ws = "concat (map (fields_of_word base status True) (sc_words syn))"
  show ?thesis
    using assignments_size [of ly status base "sc_assignments syn"] words_size [of ly base status True "sc_words syn"]
      targets_size_le [of ly "if ?ws = [] then ?env else base" status "sc_redirects syn"]
    by (simp add: expanded_size_def command_expansion_def command_cost_def Let_def del: concat_eq_Nil_conv)
qed

text \<open>The stages of a pipeline share one budget.\<close>

fun expand_stages ::
  "layout \<Rightarrow> nat \<Rightarrow> simple_command list \<Rightarrow> env \<Rightarrow> int \<Rightarrow> (nat \<times> expanded_command list) option" where
  "expand_stages ly budget [] base status = Some (budget, [])"
| "expand_stages ly budget (c # cs) base status =
     (case expand_command ly budget c base status of
        None \<Rightarrow> None
      | Some (b1, ec) \<Rightarrow> (case expand_stages ly b1 cs base status of
          None \<Rightarrow> None
        | Some (b2, ecs) \<Rightarrow> Some (b2, ec # ecs)))"

lemma expand_stages_eq:
  "expand_stages ly b cs base status =
     pay b (sum_list (map (\<lambda>c. command_cost ly c base status) cs))
       (map (\<lambda>c. command_expansion c base status) cs)"
proof (induction cs arbitrary: b)
  case Nil
  then show ?case by (simp add: pay_def)
next
  case (Cons c cs)
  show ?case
    unfolding expand_stages.simps expand_command_eq list.map sum_list.Cons
    by (rule pay_then) (auto simp: Cons.IH pay_def)
qed

text \<open>
  What a whole pipeline stores for its expanded stages (environments, arguments and redirect
  targets, with the headers of their strings) never exceeds the budget it was given, however
  values are repeated or split into fields.
\<close>

lemma expand_stages_bounded:
  assumes "expand_stages ly b cs base status = Some (b', ecs)"
  shows "sum_list (map (expanded_size ly) ecs) + b' \<le> b"
proof -
  have "sum_list (map (\<lambda>c. expanded_size ly (command_expansion c base status)) cs)
      \<le> sum_list (map (\<lambda>c. command_cost ly c base status) cs)"
    by (intro sum_list_mono expansion_size)
  then show ?thesis using assms by (auto simp: expand_stages_eq pay_def o_def split: if_splits)
qed

lemma expand_stages_bounded_witness:
  "let ly = \<lparr>sz_string = 24, sz_vec = 24, sz_command = 80\<rparr>;
       w = \<lparr>segments = [Expansion (rs ''X'') False, Expansion (rs ''X'') True]\<rparr>;
       c = \<lparr>sc_assignments = [], sc_words = [w], sc_redirects = []\<rparr>
   in \<exists>b' ecs. expand_stages ly 400 [c] [(rs ''X'', rs ''a b'')] 0 = Some (b', ecs)
    \<and> map ec_words ecs = [[rs ''a'', rs ''ba b'']]
    \<and> sum_list (map (expanded_size ly) ecs) + b' \<le> 400"
proof -
  let ?ly = "\<lparr>sz_string = 24, sz_vec = 24, sz_command = 80\<rparr>"
  let ?c = "\<lparr>sc_assignments = [], sc_words =
    [\<lparr>segments = [Expansion (rs ''X'') False, Expansion (rs ''X'') True]\<rparr>], sc_redirects = []\<rparr>"
  have run: "\<exists>b' ecs. expand_stages ?ly 400 [?c] [(rs ''X'', rs ''a b'')] 0 = Some (b', ecs)
      \<and> map ec_words ecs = [[rs ''a'', rs ''ba b'']]"
    by (simp add: expand_command_def expand_word_def charge_def segment_value_def segment_splits_def
        is_field_separator_def len_utf8_def Let_def)
  then obtain b' ecs where r: "expand_stages ?ly 400 [?c] [(rs ''X'', rs ''a b'')] 0 = Some (b', ecs)"
      "map ec_words ecs = [[rs ''a'', rs ''ba b'']]"
    by (elim exE conjE)
  show ?thesis
    unfolding Let_def by (intro exI conjI, rule r, rule r, rule expand_stages_bounded [OF r(1)])
qed

end
