(* ===== verification/Sandbox_Limits.thy ===== *)
theory Sandbox_Limits
  imports Tiny_Prelude
begin

text \<open>
  The resource limits of one execution (\<open>src/sandbox/command.rs\<close>) and the capacity of the
  pools that executions share (\<open>src/sandbox/pools.rs\<close>). A \<open>Duration\<close> is a number of
  nanoseconds.
\<close>

record limits =
  wall_time :: nat
  stdout_bytes :: nat
  stderr_bytes :: nat
  max_commands :: nat
  shell_input_bytes :: nat
  host_input_bytes :: nat
  max_open_files :: nat
  lim_path_depth :: nat
  tail_input_bytes :: nat
  sort_input_bytes :: nat
  jq_input_bytes :: nat
  jq_memory_bytes :: nat
  wasm_memory_bytes :: nat
  fetch_response_bytes :: nat

definition limits_default :: limits where
  "limits_default = \<lparr>
     wall_time = 30 * 10 ^ 9,
     stdout_bytes = 1024 * 1024,
     stderr_bytes = 1024 * 1024,
     max_commands = 1024,
     shell_input_bytes = 1024 * 1024,
     host_input_bytes = 8 * 1024 * 1024,
     max_open_files = 1024,
     lim_path_depth = 256,
     tail_input_bytes = 8 * 1024 * 1024,
     sort_input_bytes = 8 * 1024 * 1024,
     jq_input_bytes = 8 * 1024 * 1024,
     jq_memory_bytes = 64 * 1024 * 1024,
     wasm_memory_bytes = 64 * 1024 * 1024,
     fetch_response_bytes = 32 * 1024 * 1024\<rparr>"

definition with_wall_time :: "limits \<Rightarrow> nat \<Rightarrow> limits" where
  "with_wall_time l v = l\<lparr>wall_time := v\<rparr>"

definition with_stdout_bytes :: "limits \<Rightarrow> nat \<Rightarrow> limits" where
  "with_stdout_bytes l v = l\<lparr>stdout_bytes := v\<rparr>"

definition with_stderr_bytes :: "limits \<Rightarrow> nat \<Rightarrow> limits" where
  "with_stderr_bytes l v = l\<lparr>stderr_bytes := v\<rparr>"

definition with_max_commands :: "limits \<Rightarrow> nat \<Rightarrow> limits" where
  "with_max_commands l v = l\<lparr>max_commands := v\<rparr>"

definition with_shell_input_bytes :: "limits \<Rightarrow> nat \<Rightarrow> limits" where
  "with_shell_input_bytes l v = l\<lparr>shell_input_bytes := v\<rparr>"

definition with_host_input_bytes :: "limits \<Rightarrow> nat \<Rightarrow> limits" where
  "with_host_input_bytes l v = l\<lparr>host_input_bytes := v\<rparr>"

definition with_max_open_files :: "limits \<Rightarrow> nat \<Rightarrow> limits" where
  "with_max_open_files l v = l\<lparr>max_open_files := v\<rparr>"

definition with_max_path_depth :: "limits \<Rightarrow> nat \<Rightarrow> limits" where
  "with_max_path_depth l v = l\<lparr>lim_path_depth := v\<rparr>"

definition with_tail_input_bytes :: "limits \<Rightarrow> nat \<Rightarrow> limits" where
  "with_tail_input_bytes l v = l\<lparr>tail_input_bytes := v\<rparr>"

definition with_sort_input_bytes :: "limits \<Rightarrow> nat \<Rightarrow> limits" where
  "with_sort_input_bytes l v = l\<lparr>sort_input_bytes := v\<rparr>"

definition with_jq_input_bytes :: "limits \<Rightarrow> nat \<Rightarrow> limits" where
  "with_jq_input_bytes l v = l\<lparr>jq_input_bytes := v\<rparr>"

definition with_jq_memory_bytes :: "limits \<Rightarrow> nat \<Rightarrow> limits" where
  "with_jq_memory_bytes l v = l\<lparr>jq_memory_bytes := v\<rparr>"

definition with_wasm_memory_bytes :: "limits \<Rightarrow> nat \<Rightarrow> limits" where
  "with_wasm_memory_bytes l v = l\<lparr>wasm_memory_bytes := v\<rparr>"

definition with_fetch_response_bytes :: "limits \<Rightarrow> nat \<Rightarrow> limits" where
  "with_fetch_response_bytes l v = l\<lparr>fetch_response_bytes := v\<rparr>"

record pool_capacity =
  pc_jq_workers :: nat
  pc_js_workers :: nat
  pc_blocking_vfs_workers :: nat
  pc_open_files :: nat
  pc_cleanup_threads :: nat

definition pool_capacity_default :: pool_capacity where
  "pool_capacity_default = \<lparr>pc_jq_workers = 16, pc_js_workers = 16,
     pc_blocking_vfs_workers = 128, pc_open_files = 16384, pc_cleanup_threads = 4\<rparr>"

definition with_jq_workers :: "pool_capacity \<Rightarrow> nat \<Rightarrow> pool_capacity" where
  "with_jq_workers c v = c\<lparr>pc_jq_workers := v\<rparr>"

definition with_js_workers :: "pool_capacity \<Rightarrow> nat \<Rightarrow> pool_capacity" where
  "with_js_workers c v = c\<lparr>pc_js_workers := v\<rparr>"

definition with_blocking_vfs_workers :: "pool_capacity \<Rightarrow> nat \<Rightarrow> pool_capacity" where
  "with_blocking_vfs_workers c v = c\<lparr>pc_blocking_vfs_workers := v\<rparr>"

definition with_open_files :: "pool_capacity \<Rightarrow> nat \<Rightarrow> pool_capacity" where
  "with_open_files c v = c\<lparr>pc_open_files := v\<rparr>"

definition with_cleanup_threads :: "pool_capacity \<Rightarrow> nat \<Rightarrow> pool_capacity" where
  "with_cleanup_threads c v = c\<lparr>pc_cleanup_threads := v\<rparr>"

text \<open>\<open>Pools::new\<close> raises every capacity to at least one.\<close>

definition pools_capacity :: "pool_capacity \<Rightarrow> pool_capacity" where
  "pools_capacity c = \<lparr>
     pc_jq_workers = max (pc_jq_workers c) 1,
     pc_js_workers = max (pc_js_workers c) 1,
     pc_blocking_vfs_workers = max (pc_blocking_vfs_workers c) 1,
     pc_open_files = max (pc_open_files c) 1,
     pc_cleanup_threads = max (pc_cleanup_threads c) 1\<rparr>"

end
