(* ===== verification/Sandbox_Fs.thy ===== *)
theory Sandbox_Fs
  imports Mount_Vfs Sandbox_Limits
begin

text \<open>
  The filesystem facade of \<open>src/sandbox/fs.rs\<close> with the admission of open files by the
  pools (\<open>pools.rs\<close>) and the execution control (\<open>control.rs\<close>).

  The world holds the backend, the pool counter, the controls of the running executions, the
  handle registries of their facades, the opens that have been admitted but not finished, and
  the queue of the cleanup threads. Time is a flag per control that says whether its deadline
  has passed. A facade call is one step, except \<open>open\<close>, which has two, since other calls can
  run while the backend opens the file.
\<close>

record control =
  ct_limits :: limits
  ct_cancelled :: bool
  ct_expired :: bool
  ct_open_files :: nat
  ct_registries :: "nat list"

record registry =
  rg_files :: "(file_handle, unit) bmap"
  rg_control :: "nat option"

type_synonym cleanup_job = "file_handle \<times> nat option"
text \<open>An admitted open: its registry, path and mode, and whether it runs on the caller's thread.\<close>

record pending_open =
  po_registry :: nat
  po_path :: rstr
  po_mode :: open_mode
  po_fast :: bool

record 's world =
  w_vfs :: 's
  w_capacity :: pool_capacity
  w_open_files :: nat
  w_controls :: "control list"
  w_registries :: "registry list"
  w_pending :: "pending_open list"
  w_cleanup :: "cleanup_job list"

record fs_facade =
  fs_bin_commands :: "rstr list"
  fs_cwd :: rstr
  fs_limits :: limits
  fs_handles :: nat

abbreviation registry_of :: "'s world \<Rightarrow> nat \<Rightarrow> registry" where
  "registry_of w r \<equiv> w_registries w ! r"

abbreviation control_of :: "'s world \<Rightarrow> nat \<Rightarrow> control" where
  "control_of w c \<equiv> w_controls w ! c"

subsection \<open>Paths\<close>

definition stream_chunk_bytes :: nat where
  "stream_chunk_bytes = 64 * 1024"

fun errno_message :: "errno \<Rightarrow> rstr" where
  "errno_message EBADF = rs ''Bad file descriptor''"
| "errno_message EBUSY = rs ''Device or resource busy''"
| "errno_message EXDEV = rs ''Invalid cross-device link''"
| "errno_message EACCES = rs ''Permission denied''"
| "errno_message EEXIST = rs ''File exists''"
| "errno_message EFBIG = rs ''File too large''"
| "errno_message EIO = rs ''Input/output error''"
| "errno_message EINVAL = rs ''Invalid argument''"
| "errno_message EISDIR = rs ''Is a directory''"
| "errno_message ENOENT = rs ''No such file or directory''"
| "errno_message ENOSPC = rs ''No space left on device''"
| "errno_message ENOTDIR = rs ''Not a directory''"
| "errno_message ENOTEMPTY = rs ''Directory not empty''"

definition join_path :: "rstr \<Rightarrow> rstr \<Rightarrow> rstr" where
  "join_path dir name = (if dir = [slash] then [slash] @ name else dir @ [slash] @ name)"

fun absolute_parts :: "rstr list \<Rightarrow> rstr list \<Rightarrow> rstr list" where
  "absolute_parts parts [] = parts"
| "absolute_parts parts (c # rest) =
     (if c = [] \<or> c = rs ''.'' then absolute_parts parts rest
      else if c = rs ''..'' then absolute_parts (butlast parts) rest
      else absolute_parts (parts @ [c]) rest)"

definition normalize_absolute :: "rstr \<Rightarrow> rstr" where
  "normalize_absolute path =
     (let parts = absolute_parts [] (split_on slash path) in
      if parts = [] then [slash] else [slash] @ join [slash] parts)"

definition starts_with :: "rstr \<Rightarrow> rstr \<Rightarrow> bool" where
  "starts_with s pre \<longleftrightarrow> take (length pre) s = pre"

definition is_bin_path :: "rstr \<Rightarrow> bool" where
  "is_bin_path path \<longleftrightarrow> path = rs ''/bin'' \<or> starts_with path (rs ''/bin/'')"

definition fs_resolve :: "fs_facade \<Rightarrow> rstr \<Rightarrow> rstr" where
  "fs_resolve f path =
     normalize_absolute
       (if starts_with path [slash] then path
        else if fs_cwd f = [slash] then [slash] @ path
        else fs_cwd f @ [slash] @ path)"

definition bin_stat :: "fs_facade \<Rightarrow> rstr \<Rightarrow> metadata vres option" where
  "bin_stat f path =
     (if path = rs ''/bin'' then Some (Ok \<lparr>md_type = DirectoryFile, md_len = 0\<rparr>)
      else if \<not> starts_with path (rs ''/bin/'') then None
      else let name = drop 5 path in
        Some (if slash \<notin> set name \<and> name \<in> set (fs_bin_commands f)
              then Ok \<lparr>md_type = RegularFile, md_len = 0\<rparr> else Err ENOENT))"

subsection \<open>Cancellation and admission\<close>

text \<open>\<open>fetch_sub(1)\<close> of an \<open>AtomicUsize\<close> wraps around.\<close>

definition fetch_sub1 :: "nat \<Rightarrow> nat" where
  "fetch_sub1 n = (if n = 0 then usize_max else n - 1)"

definition control_cancelled :: "control \<Rightarrow> bool" where
  "control_cancelled c \<longleftrightarrow> ct_cancelled c \<or> ct_expired c"

definition fs_cancelled :: "'s world \<Rightarrow> nat \<Rightarrow> bool" where
  "fs_cancelled w r =
     (case rg_control (registry_of w r) of
        None \<Rightarrow> False | Some c \<Rightarrow> control_cancelled (control_of w c))"

definition fs_check :: "'s world \<Rightarrow> nat \<Rightarrow> unit vres" where
  "fs_check w r = (if fs_cancelled w r then Err EIO else Ok ())"

definition check_path :: "'s world \<Rightarrow> fs_facade \<Rightarrow> rstr \<Rightarrow> unit vres" where
  "check_path w f path =
     obind (fs_check w (fs_handles f)) (\<lambda>_.
       if 0 \<in> set path
          \<or> min (lim_path_depth (fs_limits f)) 256 < length (filter (\<lambda>p. p \<noteq> []) (split_on slash path))
       then Err EINVAL else Ok ())"

definition update_control :: "'s world \<Rightarrow> nat \<Rightarrow> (control \<Rightarrow> control) \<Rightarrow> 's world" where
  "update_control w c g = w\<lparr>w_controls := (w_controls w)[c := g (control_of w c)]\<rparr>"

definition update_registry :: "'s world \<Rightarrow> nat \<Rightarrow> (registry \<Rightarrow> registry) \<Rightarrow> 's world" where
  "update_registry w r g = w\<lparr>w_registries := (w_registries w)[r := g (registry_of w r)]\<rparr>"

definition pools_acquire_file :: "'s world \<Rightarrow> 's world option" where
  "pools_acquire_file w =
     (if w_open_files w < pc_open_files (w_capacity w)
      then Some (w\<lparr>w_open_files := w_open_files w + 1\<rparr>) else None)"

definition pools_release_file :: "'s world \<Rightarrow> 's world" where
  "pools_release_file w = w\<lparr>w_open_files := fetch_sub1 (w_open_files w)\<rparr>"

definition control_acquire_file :: "'s world \<Rightarrow> nat \<Rightarrow> 's world \<times> unit vres" where
  "control_acquire_file w c =
     (if control_cancelled (control_of w c) then (w, Err EIO)
      else if ct_open_files (control_of w c) < max_open_files (ct_limits (control_of w c))
      then (update_control w c (\<lambda>k. k\<lparr>ct_open_files := ct_open_files k + 1\<rparr>), Ok ())
      else (w, Err ENOSPC))"

definition control_release_file :: "'s world \<Rightarrow> nat option \<Rightarrow> 's world" where
  "control_release_file w oc =
     (case oc of None \<Rightarrow> w
      | Some c \<Rightarrow> update_control w c (\<lambda>k. k\<lparr>ct_open_files := fetch_sub1 (ct_open_files k)\<rparr>))"

definition registry_reserve :: "'s world \<Rightarrow> nat \<Rightarrow> 's world \<times> unit vres" where
  "registry_reserve w r =
     (case pools_acquire_file w of
        None \<Rightarrow> (w, Err ENOSPC)
      | Some w1 \<Rightarrow>
          (case rg_control (registry_of w r) of
             None \<Rightarrow> (w1, Ok ())
           | Some c \<Rightarrow>
               (case control_acquire_file w1 c of
                  (w2, Inr u) \<Rightarrow> (w2, Ok ())
                | (w2, Inl e) \<Rightarrow> (pools_release_file w2, Inl e))))"

definition registry_release :: "'s world \<Rightarrow> nat \<Rightarrow> 's world" where
  "registry_release w r =
     control_release_file (pools_release_file w) (rg_control (registry_of w r))"

definition registry_remove :: "'s world \<Rightarrow> nat \<Rightarrow> file_handle \<Rightarrow> 's world \<times> unit vres" where
  "registry_remove w r h =
     (if bm_get (rg_files (registry_of w r)) h = None then (w, Err EBADF)
      else (update_registry w r (\<lambda>g. g\<lparr>rg_files := bm_remove h (rg_files g)\<rparr>), Ok ()))"

text \<open>The job that releases an abandoned handle; a slow backend gets it on a cleanup thread.\<close>

definition run_cleanup :: "'s vfs_ops \<Rightarrow> 's world \<Rightarrow> cleanup_job \<Rightarrow> 's world" where
  "run_cleanup ops w job =
     control_release_file
       (pools_release_file (w\<lparr>w_vfs := fst (v_abort ops (w_vfs w) (fst job))\<rparr>)) (snd job)"

definition cleanup_handle ::
  "'s vfs_ops \<Rightarrow> 's world \<Rightarrow> file_handle \<Rightarrow> nat option \<Rightarrow> 's world" where
  "cleanup_handle ops w h c =
     (if v_is_fast_handle ops (w_vfs w) h then run_cleanup ops w (h, c)
      else w\<lparr>w_cleanup := w_cleanup w @ [(h, c)]\<rparr>)"

definition registry_abandon :: "'s vfs_ops \<Rightarrow> 's world \<Rightarrow> nat \<Rightarrow> file_handle \<Rightarrow> 's world" where
  "registry_abandon ops w r h =
     (if bm_get (rg_files (registry_of w r)) h = None then w
      else cleanup_handle ops
        (update_registry w r (\<lambda>g. g\<lparr>rg_files := bm_remove h (rg_files g)\<rparr>))
        h (rg_control (registry_of w r)))"

fun cleanup_all ::
  "'s vfs_ops \<Rightarrow> 's world \<Rightarrow> file_handle list \<Rightarrow> nat option \<Rightarrow> 's world" where
  "cleanup_all ops w [] c = w"
| "cleanup_all ops w (h # hs) c = cleanup_all ops (cleanup_handle ops w h c) hs c"

definition registry_abandon_all :: "'s vfs_ops \<Rightarrow> 's world \<Rightarrow> nat \<Rightarrow> 's world" where
  "registry_abandon_all ops w r =
     cleanup_all ops (update_registry w r (\<lambda>g. g\<lparr>rg_files := []\<rparr>))
       (map fst (rg_files (registry_of w r))) (rg_control (registry_of w r))"

text \<open>\<open>ExecutionControl::cancel\<close>: the registered registries give up their handles.\<close>

definition control_cancel :: "'s vfs_ops \<Rightarrow> 's world \<Rightarrow> nat \<Rightarrow> 's world" where
  "control_cancel ops w c =
     (let rs = ct_registries (control_of w c);
          w1 = update_control w c (\<lambda>k. k\<lparr>ct_cancelled := True, ct_registries := []\<rparr>) in
      foldl (registry_abandon_all ops) w1 rs)"

text \<open>\<open>ExecutionControl::new\<close> and \<open>Fs::build\<close>.\<close>

definition control_new :: "'s world \<Rightarrow> limits \<Rightarrow> 's world \<times> nat" where
  "control_new w l =
     (w\<lparr>w_controls := w_controls w @ [\<lparr>ct_limits = l, ct_cancelled = False, ct_expired = False,
        ct_open_files = 0, ct_registries = []\<rparr>]\<rparr>, length (w_controls w))"

definition fs_build ::
  "'s world \<Rightarrow> rstr list \<Rightarrow> rstr \<Rightarrow> limits \<Rightarrow> nat option \<Rightarrow> 's world \<times> fs_facade" where
  "fs_build w bin cwd l oc =
     (let r = length (w_registries w);
          w1 = w\<lparr>w_registries := w_registries w @ [\<lparr>rg_files = [], rg_control = oc\<rparr>]\<rparr>;
          w2 = (case oc of None \<Rightarrow> w1
                | Some c \<Rightarrow> update_control w1 c (\<lambda>k. k\<lparr>ct_registries := ct_registries k @ [r]\<rparr>)) in
      (w2, \<lparr>fs_bin_commands = bin, fs_cwd = cwd, fs_limits = l, fs_handles = r\<rparr>))"

definition fs_scoped :: "'s world \<Rightarrow> rstr list \<Rightarrow> rstr \<Rightarrow> nat \<Rightarrow> 's world \<times> fs_facade" where
  "fs_scoped w bin cwd c = fs_build w bin cwd (ct_limits (control_of w c)) (Some c)"

subsection \<open>Calls\<close>

text \<open>
  \<open>dispatch\<close>: a fast backend is called directly, a slow one on a blocking thread, where a panic
  becomes \<open>EIO\<close>. The cancellation check is skipped for cleanup.
\<close>

definition dispatch ::
  "'s world \<Rightarrow> nat \<Rightarrow> bool \<Rightarrow> bool \<Rightarrow> ('s world \<Rightarrow> 's world \<times> 'a vres) \<Rightarrow> 's world \<times> 'a vres" where
  "dispatch w r fast cleanup op =
     (if \<not> cleanup \<and> fs_cancelled w r then (w, Err EIO)
      else if fast then op w
      else (case op w of (w', Inl Panic) \<Rightarrow> (w', Err EIO) | out \<Rightarrow> out))"

definition on_vfs :: "('s \<Rightarrow> 's \<times> 'a vres) \<Rightarrow> 's world \<Rightarrow> 's world \<times> 'a vres" where
  "on_vfs call w = (case call (w_vfs w) of (s, x) \<Rightarrow> (w\<lparr>w_vfs := s\<rparr>, x))"

definition dispatch_path ::
  "'s vfs_ops \<Rightarrow> 's world \<Rightarrow> fs_facade \<Rightarrow> rstr \<Rightarrow> ('s world \<Rightarrow> 's world \<times> 'a vres) \<Rightarrow> 's world \<times> 'a vres" where
  "dispatch_path ops w f path op =
     attempt w (check_path w f path) (\<lambda>_.
       dispatch w (fs_handles f) (v_is_fast_path ops (w_vfs w) path) False op)"

definition fs_stat :: "'s vfs_ops \<Rightarrow> 's world \<Rightarrow> fs_facade \<Rightarrow> rstr \<Rightarrow> 's world \<times> metadata vres" where
  "fs_stat ops w f p =
     (let path = fs_resolve f p in
      attempt w (check_path w f path) (\<lambda>_.
        case bin_stat f path of
          Some md \<Rightarrow> (w, md)
        | None \<Rightarrow> dispatch_path ops w f path (on_vfs (\<lambda>s. v_stat ops s path))))"

definition fs_readdir ::
  "'s vfs_ops \<Rightarrow> 's world \<Rightarrow> fs_facade \<Rightarrow> rstr \<Rightarrow> 's world \<times> dir_entry list vres" where
  "fs_readdir ops w f p =
     (let path = fs_resolve f p in
      attempt w (check_path w f path) (\<lambda>_.
        if path = [slash] then
          and_then (dispatch_path ops w f [slash] (on_vfs (\<lambda>s. v_readdir ops s [slash]))) (\<lambda>w' es.
            (w', Ok (sort_key de_name
              (es @ [\<lparr>de_name = rs ''bin'', de_meta = \<lparr>md_type = DirectoryFile, md_len = 0\<rparr>\<rparr>]))))
        else if path = rs ''/bin'' then
          (w, Ok (map (\<lambda>name. \<lparr>de_name = name, de_meta = \<lparr>md_type = RegularFile, md_len = 0\<rparr>\<rparr>)
            (fs_bin_commands f)))
        else if starts_with path (rs ''/bin/'') then (w, Err ENOTDIR)
        else dispatch_path ops w f path (on_vfs (\<lambda>s. v_readdir ops s path))))"

definition fs_mkdir :: "'s vfs_ops \<Rightarrow> 's world \<Rightarrow> fs_facade \<Rightarrow> rstr \<Rightarrow> 's world \<times> unit vres" where
  "fs_mkdir ops w f p =
     (let path = fs_resolve f p in
      attempt w (check_path w f path) (\<lambda>_.
        if is_bin_path path then (w, Err EACCES)
        else dispatch_path ops w f path (on_vfs (\<lambda>s. v_mkdir ops s path))))"

definition fs_rename ::
  "'s vfs_ops \<Rightarrow> 's world \<Rightarrow> fs_facade \<Rightarrow> rstr \<Rightarrow> rstr \<Rightarrow> 's world \<times> unit vres" where
  "fs_rename ops w f p p' =
     (let from = fs_resolve f p; to = fs_resolve f p' in
      if is_bin_path from \<or> is_bin_path to then (w, Err EACCES)
      else attempt w (check_path w f from) (\<lambda>_. attempt w (check_path w f to) (\<lambda>_.
        dispatch w (fs_handles f)
          (v_is_fast_path ops (w_vfs w) from \<and> v_is_fast_path ops (w_vfs w) to) False
          (on_vfs (\<lambda>s. v_rename ops s from to)))))"

definition fs_unlink :: "'s vfs_ops \<Rightarrow> 's world \<Rightarrow> fs_facade \<Rightarrow> rstr \<Rightarrow> 's world \<times> unit vres" where
  "fs_unlink ops w f p =
     (let path = fs_resolve f p in
      attempt w (check_path w f path) (\<lambda>_.
        if is_bin_path path then (w, Err EACCES)
        else dispatch_path ops w f path (on_vfs (\<lambda>s. v_unlink ops s path))))"

definition fs_rmdir :: "'s vfs_ops \<Rightarrow> 's world \<Rightarrow> fs_facade \<Rightarrow> rstr \<Rightarrow> 's world \<times> unit vres" where
  "fs_rmdir ops w f p =
     (let path = fs_resolve f p in
      attempt w (check_path w f path) (\<lambda>_.
        if is_bin_path path then (w, Err EACCES)
        else dispatch_path ops w f path (on_vfs (\<lambda>s. v_rmdir ops s path))))"

text \<open>
  \<open>open\<close>: the first step resolves the path, checks it and reserves a file; the second calls the
  backend, registers the handle, and gives it up again when the execution was cancelled
  meanwhile.
\<close>

definition open_start ::
  "'s vfs_ops \<Rightarrow> 's world \<Rightarrow> fs_facade \<Rightarrow> rstr \<Rightarrow> open_mode \<Rightarrow> 's world \<times> pending_open vres" where
  "open_start ops w f p mode =
     (let path = fs_resolve f p in
      attempt w (check_path w f path) (\<lambda>_.
        if is_bin_path path then
          (w, Err (if path = rs ''/bin'' then EISDIR
                   else if \<not> om_write mode \<and> drop 5 path \<notin> set (fs_bin_commands f) then ENOENT
                   else EACCES))
        else
          dispatch_path ops w f path (\<lambda>w1.
            and_then (registry_reserve w1 (fs_handles f)) (\<lambda>w2 _.
              let po = \<lparr>po_registry = fs_handles f, po_path = path, po_mode = mode,
                po_fast = v_is_fast_path ops (w_vfs w) path\<rparr> in
              (w2\<lparr>w_pending := w_pending w2 @ [po]\<rparr>, Ok po)))))"

definition open_finish ::
  "'s vfs_ops \<Rightarrow> 's world \<Rightarrow> pending_open \<Rightarrow> 's world \<times> file_handle vres" where
  "open_finish ops w0 po =
     (let w = w0\<lparr>w_pending := remove1 po (w_pending w0)\<rparr>; r = po_registry po in
      case on_vfs (\<lambda>s. v_open ops s (po_path po) (po_mode po)) w of
        (w1, Inl (Errno e)) \<Rightarrow> (registry_release w1 r, Err e)
      | (w1, Inl Panic) \<Rightarrow> (w1, if po_fast po then Inl Panic else Err EIO)
      | (w1, Inr h) \<Rightarrow>
          let w2 = update_registry w1 r (\<lambda>g. g\<lparr>rg_files := bm_insert h () (rg_files g)\<rparr>) in
          if fs_cancelled w2 r then
            and_then (registry_remove w2 r h) (\<lambda>w3 _.
              (registry_release (w3\<lparr>w_vfs := fst (v_abort ops (w_vfs w3) h)\<rparr>) r, Err EIO))
          else (w2, Ok h))"

definition fs_open ::
  "'s vfs_ops \<Rightarrow> 's world \<Rightarrow> fs_facade \<Rightarrow> rstr \<Rightarrow> open_mode \<Rightarrow> 's world \<times> file_handle vres" where
  "fs_open ops w f p mode = and_then (open_start ops w f p mode) (open_finish ops)"

definition max_io_bytes :: "fs_facade \<Rightarrow> nat" where
  "max_io_bytes f = max (host_input_bytes (fs_limits f)) stream_chunk_bytes"

definition fs_read_at ::
  "'s vfs_ops \<Rightarrow> 's world \<Rightarrow> fs_facade \<Rightarrow> file_handle \<Rightarrow> nat \<Rightarrow> nat \<Rightarrow> 's world \<times> byte list vres" where
  "fs_read_at ops w f h off n =
     (if max_io_bytes f < n then (w, Err EFBIG)
      else dispatch w (fs_handles f) (v_is_fast_handle ops (w_vfs w) h) False (\<lambda>w1.
        and_then (on_vfs (\<lambda>s. v_read_at ops s h off n) w1) (\<lambda>w2 bytes.
          if n < length bytes then (w2, Err EIO) else (w2, Ok bytes))))"

definition fs_write_at ::
  "'s vfs_ops \<Rightarrow> 's world \<Rightarrow> fs_facade \<Rightarrow> file_handle \<Rightarrow> nat \<Rightarrow> byte list \<Rightarrow> 's world \<times> nat vres" where
  "fs_write_at ops w f h off data =
     (if max_io_bytes f < length data then (w, Err EFBIG)
      else dispatch w (fs_handles f) (v_is_fast_handle ops (w_vfs w) h) False (\<lambda>w1.
        and_then (on_vfs (\<lambda>s. v_write_at ops s h off data) w1) (\<lambda>w2 n.
          if length data < n then (w2, Err EIO) else (w2, Ok n))))"

definition fs_truncate ::
  "'s vfs_ops \<Rightarrow> 's world \<Rightarrow> fs_facade \<Rightarrow> file_handle \<Rightarrow> nat \<Rightarrow> 's world \<times> unit vres" where
  "fs_truncate ops w f h n =
     dispatch w (fs_handles f) (v_is_fast_handle ops (w_vfs w) h) False
       (on_vfs (\<lambda>s. v_truncate ops s h n))"

definition fs_finish ::
  "'s vfs_ops \<Rightarrow> 's world \<Rightarrow> fs_facade \<Rightarrow> file_handle \<Rightarrow> bool \<Rightarrow> 's world \<times> unit vres" where
  "fs_finish ops w f h abort =
     (let r = fs_handles f in
      dispatch w r (v_is_fast_handle ops (w_vfs w) h) True (\<lambda>w1.
        and_then (registry_remove w1 r h) (\<lambda>w2 _.
          case on_vfs (\<lambda>s. if abort \<or> fs_cancelled w2 r then v_abort ops s h else v_close ops s h) w2 of
            (w3, x) \<Rightarrow> (registry_release w3 r, x))))"

definition fs_close :: "'s vfs_ops \<Rightarrow> 's world \<Rightarrow> fs_facade \<Rightarrow> file_handle \<Rightarrow> 's world \<times> unit vres" where
  "fs_close ops w f h = fs_finish ops w f h False"

definition fs_abort :: "'s vfs_ops \<Rightarrow> 's world \<Rightarrow> fs_facade \<Rightarrow> file_handle \<Rightarrow> 's world \<times> unit vres" where
  "fs_abort ops w f h = fs_finish ops w f h True"

subsection \<open>Whole files\<close>

text \<open>
  The loops of \<open>read_file_bounded\<close> and \<open>write_file\<close>. Both make progress: a read that returns
  nothing ends the first, a write that accepts nothing ends the second.
\<close>

function read_loop ::
  "'s vfs_ops \<Rightarrow> 's world \<Rightarrow> fs_facade \<Rightarrow> file_handle \<Rightarrow> nat \<Rightarrow> byte list \<Rightarrow> 's world \<times> byte list vres" where
  "read_loop ops w f h limit out =
     attempt w (fs_check w (fs_handles f)) (\<lambda>_.
       let want = min stream_chunk_bytes (saturating_add (limit - length out) 1) in
       case fs_read_at ops w f h (length out) want of
         (w1, Inl e) \<Rightarrow> (w1, Inl e)
       | (w1, Inr bytes) \<Rightarrow>
           if bytes = [] then (w1, Ok out)
           else if limit - length out < length bytes then (w1, Err EFBIG)
           else read_loop ops w1 f h limit (out @ bytes))"
  by pat_completeness auto

termination
proof (relation "measure (\<lambda>(_, _, _, _, limit, out). limit - length out)", goal_cases)
  case (2 ops w f h limit out u want out' w1 bytes)
  have "limit - (length out + length bytes) < limit - length out"
    if "0 < length bytes" "length bytes \<le> limit - length out" using that by linarith
  with 2 show ?case by auto
qed simp

declare read_loop.simps [simp del]

definition read_file_bounded ::
  "'s vfs_ops \<Rightarrow> 's world \<Rightarrow> fs_facade \<Rightarrow> rstr \<Rightarrow> nat \<Rightarrow> 's world \<times> byte list vres" where
  "read_file_bounded ops w f p lim =
     (let path = fs_resolve f p in
      attempt w (check_path w f path) (\<lambda>_.
        if path = rs ''/bin'' then (w, Err EISDIR)
        else if starts_with path (rs ''/bin/'') then
          (w, if drop 5 path \<in> set (fs_bin_commands f) then Ok [] else Err ENOENT)
        else
          let limit = min lim (host_input_bytes (fs_limits f)) in
          and_then (fs_open ops w f path om_read_only) (\<lambda>w1 h.
            case read_loop ops w1 f h limit [] of
              (w2, Inl Panic) \<Rightarrow> (registry_abandon ops w2 (fs_handles f) h, Inl Panic)
            | (w2, result) \<Rightarrow>
                (case fs_close ops w2 f h of
                   (w3, closed) \<Rightarrow>
                     (registry_abandon ops w3 (fs_handles f) h,
                      obind result (\<lambda>data. obind closed (\<lambda>_. Ok data)))))))"

definition read_file ::
  "'s vfs_ops \<Rightarrow> 's world \<Rightarrow> fs_facade \<Rightarrow> rstr \<Rightarrow> 's world \<times> byte list vres" where
  "read_file ops w f p = read_file_bounded ops w f p (host_input_bytes (fs_limits f))"

function write_loop ::
  "'s vfs_ops \<Rightarrow> 's world \<Rightarrow> fs_facade \<Rightarrow> file_handle \<Rightarrow> byte list \<Rightarrow> nat \<Rightarrow> 's world \<times> unit vres" where
  "write_loop ops w f h data written =
     (if \<not> written < length data then (w, Ok ())
      else attempt w (fs_check w (fs_handles f)) (\<lambda>_.
        let stop = min (length data) (saturating_add written stream_chunk_bytes) in
        case fs_write_at ops w f h written (take (stop - written) (drop written data)) of
          (w1, Inl e) \<Rightarrow> (w1, Inl e)
        | (w1, Inr n) \<Rightarrow>
            if n = 0 then (w1, Err ENOSPC)
            else write_loop ops w1 f h data (written + n)))"
  by pat_completeness auto

termination
  by (relation "measure (\<lambda>(_, _, _, _, data, written). length data - written)") auto

declare write_loop.simps [simp del]

definition write_file ::
  "'s vfs_ops \<Rightarrow> 's world \<Rightarrow> fs_facade \<Rightarrow> rstr \<Rightarrow> byte list \<Rightarrow> bool \<Rightarrow> 's world \<times> unit vres" where
  "write_file ops w f p data app =
     (if host_input_bytes (fs_limits f) < length data then (w, Err EFBIG)
      else
        let mode = (if app then om_set_append (om_set_create om_write_only)
                    else om_set_truncate (om_set_create om_write_only)) in
        and_then (fs_open ops w f p mode) (\<lambda>w1 h.
          case write_loop ops w1 f h data 0 of
            (w2, Inl Panic) \<Rightarrow> (registry_abandon ops w2 (fs_handles f) h, Inl Panic)
          | (w2, Inl e) \<Rightarrow>
              (registry_abandon ops (fst (fs_abort ops w2 f h)) (fs_handles f) h, Inl e)
          | (w2, Inr u) \<Rightarrow>
              (case fs_close ops w2 f h of
                 (w3, closed) \<Rightarrow> (registry_abandon ops w3 (fs_handles f) h, closed))))"

definition fs_touch :: "'s vfs_ops \<Rightarrow> 's world \<Rightarrow> fs_facade \<Rightarrow> rstr \<Rightarrow> 's world \<times> unit vres" where
  "fs_touch ops w f p =
     and_then (fs_open ops w f p (om_set_create om_write_only)) (\<lambda>w1 h.
       case fs_close ops w1 f h of
         (w2, closed) \<Rightarrow> (registry_abandon ops w2 (fs_handles f) h, closed))"

subsection \<open>Streams\<close>

text \<open>
  \<open>FsStreamReader\<close>: bytes of the last chunk that were not handed out yet, and the offset of the
  next chunk. A read that is polled again until it is ready is one step.
\<close>

record stream_reader =
  sr_handle :: "file_handle option"
  sr_offset :: nat
  sr_pending :: "byte list"
  sr_pending_start :: nat

definition stream_reader_from_handle :: "file_handle \<Rightarrow> stream_reader" where
  "stream_reader_from_handle h =
     \<lparr>sr_handle = Some h, sr_offset = 0, sr_pending = [], sr_pending_start = 0\<rparr>"

definition close_handle ::
  "'s vfs_ops \<Rightarrow> 's world \<Rightarrow> fs_facade \<Rightarrow> stream_reader \<Rightarrow> 's world \<times> stream_reader" where
  "close_handle ops w f rd =
     (case sr_handle rd of
        None \<Rightarrow> (w, rd)
      | Some h \<Rightarrow> (registry_abandon ops w (fs_handles f) h, rd\<lparr>sr_handle := None\<rparr>))"

definition copy_pending :: "stream_reader \<Rightarrow> nat \<Rightarrow> (byte list \<times> stream_reader) option" where
  "copy_pending rd remaining =
     (if sr_pending_start rd = length (sr_pending rd) \<or> remaining = 0 then None
      else let n = min (length (sr_pending rd) - sr_pending_start rd) remaining in
        Some (take n (drop (sr_pending_start rd) (sr_pending rd)),
              rd\<lparr>sr_pending_start := sr_pending_start rd + n\<rparr>))"

definition poll_read ::
  "'s vfs_ops \<Rightarrow> 's world \<Rightarrow> fs_facade \<Rightarrow> stream_reader \<Rightarrow> nat
   \<Rightarrow> ('s world \<times> stream_reader) \<times> byte list vres" where
  "poll_read ops w f rd remaining =
     (case copy_pending rd remaining of
        Some (bytes, rd') \<Rightarrow> ((w, rd'), Ok bytes)
      | None \<Rightarrow>
          if remaining = 0 then ((w, rd), Ok [])
          else case sr_handle rd of
            None \<Rightarrow> ((w, rd), Ok [])
          | Some h \<Rightarrow>
              (case fs_read_at ops w f h (sr_offset rd) stream_chunk_bytes of
                 (w1, Inl e) \<Rightarrow> (close_handle ops w1 f rd, Inl e)
               | (w1, Inr bytes) \<Rightarrow>
                   if bytes = [] then (close_handle ops w1 f rd, Ok [])
                   else
                     let rd1 = rd\<lparr>sr_offset := saturating_add (sr_offset rd) (length bytes),
                           sr_pending := bytes, sr_pending_start := 0\<rparr> in
                     (case copy_pending rd1 remaining of
                        Some (out, rd2) \<Rightarrow> ((w1, rd2), Ok out)
                      | None \<Rightarrow> ((w1, rd1), Ok []))))"

end
