(* ===== verification/Fs_Paths.thy ===== *)
theory Fs_Paths
  imports Sandbox_Fs
begin

text \<open>
  The paths a facade hands to its backend: its own normalisation agrees with the one of the
  backends, and the command directory cannot be changed through it.
\<close>

subsection \<open>Two normalisers\<close>

lemma absolute_parts_agree:
  "normalize_components acc cs = Ok r \<Longrightarrow> absolute_parts acc cs = r"
  by (induction acc cs rule: normalize_components.induct) (auto split: if_splits)

lemma normalize_absolute_render:
  "normalize_absolute p = render_path (absolute_parts [] (split_on slash p))"
  by (auto simp: normalize_absolute_def render_path_def Let_def)

text \<open>Names without slashes that are neither empty nor dots.\<close>

definition plain_name :: "rstr \<Rightarrow> bool" where
  "plain_name c \<longleftrightarrow> c \<noteq> [] \<and> c \<noteq> rs ''.'' \<and> c \<noteq> rs ''..'' \<and> slash \<notin> set c"

lemma absolute_parts_plain:
  "list_all plain_name acc \<Longrightarrow> \<forall>c\<in>set cs. slash \<notin> set c \<Longrightarrow> list_all plain_name (absolute_parts acc cs)"
proof (induction acc cs rule: absolute_parts.induct)
  case (2 acc c rest)
  have b: "list_all plain_name (butlast acc)"
    using 2(4) by (auto simp: list_all_iff dest: in_set_butlastD)
  have s: "\<forall>c\<in>set rest. slash \<notin> set c" "slash \<notin> set c" using 2(5) by simp_all
  consider "c = [] \<or> c = rs ''.''" | "c = rs ''..''" | "plain_name c"
    using s(2) unfolding plain_name_def by blast
  then show ?case
  proof cases
    case 1
    then show ?thesis using 2(1) [OF 1 2(4) s(1)] by simp
  next
    case 3
    then show ?thesis using 2(3) [OF _ _ _ s(1)] 2(4) unfolding plain_name_def by simp
  qed (use 2(2) [OF _ _ b s(1)] in simp)
qed simp

lemma resolved_plain: "list_all plain_name (absolute_parts [] (split_on slash p))"
  by (rule absolute_parts_plain) (auto dest: split_on_pieces)

lemma split_render:
  assumes "list_all plain_name cs"
  shows "split_on slash (render_path cs) = [] # (if cs = [] then [[]] else cs)"
  using assms split_join [of cs slash] by (auto simp: render_path_def plain_name_def list_all_iff)

lemma filter_render:
  "list_all plain_name cs \<Longrightarrow> filter (\<lambda>p. p \<noteq> []) (split_on slash (render_path cs)) = cs"
  unfolding split_render by (auto simp: list_all_iff plain_name_def filter_id_conv)

lemma absolute_parts_id: "list_all plain_name cs \<Longrightarrow> absolute_parts acc cs = acc @ cs"
  by (induction cs arbitrary: acc) (auto simp: plain_name_def)

lemma normalize_absolute_idem: "normalize_absolute (normalize_absolute p) = normalize_absolute p"
  unfolding normalize_absolute_render split_render [OF resolved_plain]
  using absolute_parts_id [OF resolved_plain [of p], of "[]"] by simp

lemma fs_resolve_render: obtains cs where "fs_resolve f p = render_path cs" "list_all plain_name cs"
  using resolved_plain normalize_absolute_render unfolding fs_resolve_def by metis

text \<open>A path that passes \<open>check_path\<close> is accepted by the backend with the same components.\<close>

lemma check_path_valid:
  assumes "check_path w f (render_path cs) = Ok ()" and "list_all plain_name cs"
  shows "valid_components cs" and "length cs \<le> lim_path_depth (fs_limits f)"
    and "normalize_path (render_path cs) = Ok cs"
proof -
  have c: "0 \<notin> set (render_path cs)" "length cs \<le> min (lim_path_depth (fs_limits f)) 256"
    using assms(1) filter_render [OF assms(2)]
    by (auto simp: check_path_def obind_eq_Ok split: if_splits)
  have nul: "0 \<notin> set c" if "c \<in> set cs" for c
  proof
    assume "0 \<in> set c"
    moreover have "set c \<subseteq> set (join [slash] cs)"
      using that by (induction "[slash]" cs rule: join.induct) auto
    ultimately show False using c(1) by (auto simp: render_path_def)
  qed
  show "valid_components cs"
    using c(2) assms(2) nul
    by (auto simp: valid_components_def valid_name_def plain_name_def list_all_iff max_path_depth_def)
  then show "normalize_path (render_path cs) = Ok cs" by (rule normalize_render)
  show "length cs \<le> lim_path_depth (fs_limits f)" using c(2) by simp
qed

subsection \<open>The command directory\<close>

text \<open>The first component of an absolute path.\<close>

definition first_component :: "rstr \<Rightarrow> rstr" where
  "first_component path = takeWhile (\<lambda>c. c \<noteq> slash) (tl path)"

lemma first_component_render:
  assumes "slash \<notin> set c"
  shows "first_component (render_path (c # rest)) = c"
proof -
  have all: "\<And>x. x \<in> set c \<Longrightarrow> x \<noteq> slash" using assms by auto
  have "takeWhile (\<lambda>x. x \<noteq> slash) (c @ t) = c @ takeWhile (\<lambda>x. x \<noteq> slash) t" for t
    using all by (rule takeWhile_append2)
  from this [of "[]"] this [of "slash # join [slash] rest"] show ?thesis
    by (cases rest) (simp_all add: first_component_def render_path_def)
qed

lemma is_bin_first: "is_bin_path path \<Longrightarrow> first_component path = rs ''bin''"
proof -
  assume "is_bin_path path"
  then consider "path = rs ''/bin''" | "take 5 path = rs ''/bin/''"
    by (auto simp: is_bin_path_def starts_with_def numeral_eq_Suc)
  then show ?thesis
  proof cases
    case 2
    have "path = take 5 path @ drop 5 path" by simp
    then have "path = rs ''/bin/'' @ drop 5 path" unfolding 2 .
    then obtain t where "path = rs ''/bin/'' @ t" by blast
    then show ?thesis by (simp add: first_component_def)
  qed (simp add: first_component_def)
qed

lemma is_bin_render:
  assumes "list_all plain_name cs"
  shows "is_bin_path (render_path cs) \<longleftrightarrow> cs \<noteq> [] \<and> hd cs = rs ''bin''"
proof
  assume bin: "is_bin_path (render_path cs)"
  show "cs \<noteq> [] \<and> hd cs = rs ''bin''"
  proof (cases cs)
    case Nil
    then show ?thesis using is_bin_first [OF bin] by (simp add: first_component_def render_path_def)
  next
    case (Cons c rest)
    then show ?thesis
      using is_bin_first [OF bin] first_component_render [of c rest] assms by (simp add: plain_name_def)
  qed
next
  assume "cs \<noteq> [] \<and> hd cs = rs ''bin''"
  then obtain rest where "cs = rs ''bin'' # rest" by (cases cs) auto
  then show "is_bin_path (render_path cs)"
    by (cases rest) (simp_all add: is_bin_path_def render_path_def starts_with_def)
qed

subsection \<open>Properties\<close>

text \<open>
  The facade's own path normalisation gives the path the backends' normalisation stands for,
  whenever the latter accepts the path.
\<close>

theorem normalisers_agree:
  assumes "normalize_path p = Ok cs"
  shows "normalize_absolute p = render_path cs"
proof -
  have "normalize_components [] (split_on slash p) = Ok cs"
    using assms by (simp add: normalize_path_def split: if_splits)
  then show ?thesis by (simp add: normalize_absolute_render absolute_parts_agree)
qed

theorem normalisers_agree_witness:
  "normalize_absolute (rs ''/a/./b//../c'') = render_path [rs ''a'', rs ''c'']"
  by (rule normalisers_agree) (simp add: normalize_path_def max_path_depth_def)

text \<open>
  C25. Whatever path and directory a command uses, a resolved path that passes the facade's check
  is accepted by every backend, unchanged, within the depth limit and without dots: it cannot
  climb above the root.
\<close>

theorem resolved_path_accepted:
  assumes "check_path w f (fs_resolve f p) = Ok ()"
  shows "\<exists>cs. fs_resolve f p = render_path cs \<and> normalize_path (fs_resolve f p) = Ok cs
    \<and> list_all plain_name cs \<and> length cs \<le> lim_path_depth (fs_limits f)"
proof -
  obtain cs where cs: "fs_resolve f p = render_path cs" "list_all plain_name cs"
    by (rule fs_resolve_render)
  show ?thesis
    using check_path_valid [OF assms [unfolded cs(1)] cs(2)] cs by auto
qed

definition demo_fs :: fs_facade where
  "demo_fs = \<lparr>fs_bin_commands = [rs ''cat'', rs ''ls''], fs_cwd = rs ''/work'',
     fs_limits = limits_default, fs_handles = 0\<rparr>"

definition demo_world :: "'s \<Rightarrow> 's world" where
  "demo_world s = \<lparr>w_vfs = s, w_capacity = pools_capacity pool_capacity_default, w_open_files = 0,
     w_controls = [], w_registries = [\<lparr>rg_files = [], rg_control = None\<rparr>],
     w_pending = [], w_cleanup = []\<rparr>"

definition plain_ops :: "mem_state vfs_ops" where
  "plain_ops = mem_ops \<lparr>max_bytes = 64, max_files = 8, max_file_size = 32\<rparr>"

theorem resolved_path_accepted_witness:
  "\<exists>cs. fs_resolve demo_fs (rs ''../../x/y'') = render_path cs
    \<and> normalize_path (fs_resolve demo_fs (rs ''../../x/y'')) = Ok cs \<and> length cs \<le> 256"
proof -
  have "check_path (demo_world ()) demo_fs (fs_resolve demo_fs (rs ''../../x/y'')) = Ok ()"
    by (simp add: check_path_def fs_check_def fs_cancelled_def demo_world_def demo_fs_def
        fs_resolve_def normalize_absolute_def starts_with_def limits_default_def)
  from resolved_path_accepted [OF this] show ?thesis
    by (auto simp: demo_fs_def limits_default_def)
qed

text \<open>
  C26. Nothing below \<open>/bin\<close> can be created, removed, renamed or opened through the facade, however
  the path is spelled: every such call fails and changes nothing.
\<close>

theorem bin_read_only:
  assumes "fs_resolve f p = render_path (rs ''bin'' # rest)" and "list_all plain_name rest"
  shows "fst (fs_mkdir ops w f p) = w \<and> \<not> is_ok (snd (fs_mkdir ops w f p))
    \<and> fst (fs_unlink ops w f p) = w \<and> \<not> is_ok (snd (fs_unlink ops w f p))
    \<and> fst (fs_rmdir ops w f p) = w \<and> \<not> is_ok (snd (fs_rmdir ops w f p))
    \<and> fs_rename ops w f p q = (w, Err EACCES) \<and> fs_rename ops w f q p = (w, Err EACCES)
    \<and> fst (fs_open ops w f p mode) = w \<and> \<not> is_ok (snd (fs_open ops w f p mode))"
proof -
  have "is_bin_path (fs_resolve f p)"
    unfolding assms(1) using assms(2) by (subst is_bin_render) (auto simp: plain_name_def)
  then show ?thesis
    by (cases "check_path w f (fs_resolve f p)")
      (simp_all add: fs_mkdir_def fs_unlink_def fs_rmdir_def fs_rename_def fs_open_def open_start_def Let_def)
qed

theorem bin_read_only_witness:
  "snd (fs_unlink plain_ops (demo_world state_default) demo_fs (rs ''../bin//./ls'')) = Err EACCES
   \<and> fst (fs_unlink plain_ops (demo_world state_default) demo_fs (rs ''../bin//./ls'')) = demo_world state_default"
proof -
  have r: "fs_resolve demo_fs (rs ''../bin//./ls'') = render_path (rs ''bin'' # [rs ''ls''])"
    by (simp add: demo_fs_def fs_resolve_def normalize_absolute_def starts_with_def render_path_def)
  have "fst (fs_unlink plain_ops (demo_world state_default) demo_fs (rs ''../bin//./ls'')) = demo_world state_default"
    using bin_read_only [OF r, where ops = plain_ops and w = "demo_world state_default"] by (simp add: plain_name_def)
  moreover have "snd (fs_unlink plain_ops (demo_world state_default) demo_fs (rs ''../bin//./ls'')) = Err EACCES"
    unfolding fs_unlink_def r Let_def
    by (simp add: check_path_def fs_check_def fs_cancelled_def demo_world_def demo_fs_def
        limits_default_def render_path_def is_bin_path_def starts_with_def)
  ultimately show ?thesis by simp
qed

end
