(* ===== verification/Fs_Admission.thy ===== *)
theory Fs_Admission
  imports Fs_Paths
begin

text \<open>
  Admission of open files. A backend promises fresh handles (locale \<open>handle_backend\<close>, provided
  by the in-memory filesystem); the facade's steps then keep the pool counter and every
  execution's counter equal to what is really held, whatever the interleaving of calls,
  cancellations and cleanup jobs.
\<close>

subsection \<open>What a backend promises about handles\<close>

definition quiet :: "('s \<Rightarrow> bool) \<Rightarrow> ('s \<Rightarrow> file_handle set) \<Rightarrow> 's \<Rightarrow> 's \<times> 'a vres \<Rightarrow> bool" where
  "quiet valid opened s out \<longleftrightarrow> valid (fst out) \<and> opened (fst out) = opened s"

locale handle_backend =
  fixes ops :: "'s vfs_ops" and valid :: "'s \<Rightarrow> bool" and opened :: "'s \<Rightarrow> file_handle set"
  assumes stat_quiet: "valid s \<Longrightarrow> quiet valid opened s (v_stat ops s p)"
    and readdir_quiet: "valid s \<Longrightarrow> quiet valid opened s (v_readdir ops s p)"
    and mkdir_quiet: "valid s \<Longrightarrow> quiet valid opened s (v_mkdir ops s p)"
    and rename_quiet: "valid s \<Longrightarrow> quiet valid opened s (v_rename ops s p p')"
    and unlink_quiet: "valid s \<Longrightarrow> quiet valid opened s (v_unlink ops s p)"
    and rmdir_quiet: "valid s \<Longrightarrow> quiet valid opened s (v_rmdir ops s p)"
    and read_quiet: "valid s \<Longrightarrow> quiet valid opened s (v_read_at ops s h off n)"
    and write_quiet: "valid s \<Longrightarrow> quiet valid opened s (v_write_at ops s h off d)"
    and truncate_quiet: "valid s \<Longrightarrow> quiet valid opened s (v_truncate ops s h n)"
    and open_valid: "valid s \<Longrightarrow> valid (fst (v_open ops s p m))"
    and open_fresh: "valid s \<Longrightarrow> v_open ops s p m = (s', Inr h) \<Longrightarrow> h \<notin> opened s \<and> opened s' = insert h (opened s)"
    and open_failed: "valid s \<Longrightarrow> v_open ops s p m = (s', Inl e) \<Longrightarrow> opened s' = opened s"
    and close_live: "valid s \<Longrightarrow> valid (fst (v_close ops s h)) \<and> opened (fst (v_close ops s h)) = opened s - {h}"
    and abort_live: "valid s \<Longrightarrow> valid (fst (v_abort ops s h)) \<and> opened (fst (v_abort ops s h)) = opened s - {h}"

subsection \<open>What is held\<close>

definition reg_held :: "registry \<Rightarrow> (file_handle \<times> nat option) multiset" where
  "reg_held g = image_mset (\<lambda>e. (fst e, rg_control g)) (mset (rg_files g))"

definition held :: "'s world \<Rightarrow> (file_handle \<times> nat option) multiset" where
  "held w = (\<Sum>g\<in>#mset (w_registries w). reg_held g) + mset (w_cleanup w)"

definition holds :: "'s world \<Rightarrow> file_handle multiset" where
  "holds w = {#fst e. e \<in># held w#}"

definition pending_claims :: "'s world \<Rightarrow> nat option multiset" where
  "pending_claims w = image_mset (\<lambda>po. rg_control (registry_of w (po_registry po))) (mset (w_pending w))"

definition claims :: "'s world \<Rightarrow> nat option multiset" where
  "claims w = image_mset snd (held w) + pending_claims w"

definition wf_world :: "'s world \<Rightarrow> bool" where
  "wf_world w \<longleftrightarrow>
     (\<forall>g\<in>set (w_registries w). bm_wf (rg_files g) \<and> (\<forall>c. rg_control g = Some c \<longrightarrow> c < length (w_controls w)))
     \<and> (\<forall>po\<in>set (w_pending w). po_registry po < length (w_registries w))
     \<and> (\<forall>j\<in>set (w_cleanup w). \<forall>c. snd j = Some c \<longrightarrow> c < length (w_controls w))
     \<and> (\<forall>k\<in>set (w_controls w). \<forall>r\<in>set (ct_registries k). r < length (w_registries w))"

definition counters :: "'s world \<Rightarrow> nat option multiset \<Rightarrow> bool" where
  "counters w M \<longleftrightarrow> w_open_files w = size M \<and> size M \<le> pc_open_files (w_capacity w)
     \<and> (\<forall>c<length (w_controls w). ct_open_files (control_of w c) = count M (Some c)
         \<and> count M (Some c) \<le> max_open_files (ct_limits (control_of w c)))"

text \<open>
  The invariant, with the claims \<open>X\<close> of a call that has reserved a file but not registered it,
  or removed it but not released it.
\<close>

definition adm :: "('s \<Rightarrow> bool) \<Rightarrow> ('s \<Rightarrow> file_handle set) \<Rightarrow> nat option multiset \<Rightarrow> 's world \<Rightarrow> bool" where
  "adm valid opened X w \<longleftrightarrow> valid (w_vfs w) \<and> wf_world w
     \<and> (\<forall>h. count (holds w) h \<le> 1)
     \<and> set_mset (holds w) \<subseteq> opened (w_vfs w)
     \<and> counters w (claims w + X)"

lemma held_vfs [simp]: "held (w\<lparr>w_vfs := s\<rparr>) = held w" "holds (w\<lparr>w_vfs := s\<rparr>) = holds w"
  "claims (w\<lparr>w_vfs := s\<rparr>) = claims w" "wf_world (w\<lparr>w_vfs := s\<rparr>) = wf_world w"
  "counters (w\<lparr>w_vfs := s\<rparr>) M = counters w M"
  by (simp_all add: holds_def held_def claims_def pending_claims_def wf_world_def counters_def)

lemma holds_add: "held w = add_mset e (held w') \<Longrightarrow> holds w = add_mset (fst e) (holds w')"
  by (simp add: holds_def)

lemma sum_mset_update:
  "i < length xs \<Longrightarrow> (\<Sum>x\<in>#mset (xs[i := y]). f x) + f (xs ! i) = (\<Sum>x\<in>#mset xs. f x) + f y"
  for f :: "'z \<Rightarrow> 'y::comm_monoid_add"
proof (induction xs arbitrary: i)
  case (Cons x xs)
  then show ?case by (cases i) (simp_all add: ac_simps)
qed simp

lemma held_update:
  assumes "r < length (w_registries w)"
  shows "held (update_registry w r g) + reg_held (registry_of w r) = held w + reg_held (g (registry_of w r))"
  using sum_mset_update [OF assms, of reg_held "g (registry_of w r)"]
  by (simp add: held_def update_registry_def ac_simps)

lemma pending_update:
  assumes "rg_control (g (registry_of w r)) = rg_control (registry_of w r)"
  shows "pending_claims (update_registry w r g) = pending_claims w"
proof -
  have "rg_control ((w_registries w)[r := g (registry_of w r)] ! i) = rg_control (registry_of w i)" for i
    using assms by (cases "i = r"; cases "r < length (w_registries w)") (simp_all add: list_update_beyond)
  then show ?thesis by (simp add: pending_claims_def update_registry_def)
qed

text \<open>Taking a handle out of a registry.\<close>

abbreviation drop_handle :: "file_handle \<Rightarrow> registry \<Rightarrow> registry" where
  "drop_handle h \<equiv> \<lambda>g. g\<lparr>rg_files := bm_remove h (rg_files g)\<rparr>"

lemma reg_held_drop:
  "bm_get (rg_files g) h = Some u \<Longrightarrow> reg_held g = add_mset (h, rg_control g) (reg_held (drop_handle h g))"
  using mset_bm_remove [of "rg_files g" h u] by (simp add: reg_held_def)

lemma held_drop:
  assumes "r < length (w_registries w)" and "bm_get (rg_files (registry_of w r)) h = Some u"
  shows "held w = add_mset (h, rg_control (registry_of w r)) (held (update_registry w r (drop_handle h)))"
  using held_update [OF assms(1), of "drop_handle h"] reg_held_drop [OF assms(2)] by simp

lemma reg_held_insert:
  "bm_wf (rg_files g) \<Longrightarrow> bm_get (rg_files g) h = None \<Longrightarrow>
   reg_held (g\<lparr>rg_files := bm_insert h () (rg_files g)\<rparr>) = add_mset (h, rg_control g) (reg_held g)"
  by (simp add: reg_held_def mset_bm_insert_lt bm_remove_absent)

lemma reg_held_member: "bm_get (rg_files g) h = Some u \<Longrightarrow> (h, rg_control g) \<in># reg_held g"
  using reg_held_drop by auto

lemma held_member:
  assumes "r < length (w_registries w)" and "bm_get (rg_files (registry_of w r)) h = Some u"
  shows "h \<in># holds w"
  using holds_add [OF held_drop [OF assms]] by simp

subsection \<open>Counters\<close>

lemma held_control [simp]:
  "held (update_control w c g) = held w" "claims (update_control w c g) = claims w"
  "holds (update_control w c g) = holds w" "holds (w\<lparr>w_open_files := n\<rparr>) = holds w"
  "held (w\<lparr>w_open_files := n\<rparr>) = held w" "claims (w\<lparr>w_open_files := n\<rparr>) = claims w"
  "wf_world (w\<lparr>w_open_files := n\<rparr>) = wf_world w" "w_vfs (update_control w c g) = w_vfs w"
  "w_registries (update_control w c g) = w_registries w" "w_pending (update_control w c g) = w_pending w"
  "w_cleanup (update_control w c g) = w_cleanup w"
  by (simp_all add: holds_def held_def claims_def pending_claims_def wf_world_def update_control_def)

lemma wf_update_control:
  assumes "wf_world w" and "set (ct_registries (g (control_of w c))) \<subseteq> {..<length (w_registries w)}"
  shows "wf_world (update_control w c g)"
  using assms set_update_subset_insert [of "w_controls w" c "g (control_of w c)"]
  by (auto simp: wf_world_def update_control_def subset_iff)

lemma control_registries_bound:
  "wf_world w \<Longrightarrow> c < length (w_controls w) \<Longrightarrow> set (ct_registries (control_of w c)) \<subseteq> {..<length (w_registries w)}"
  by (auto simp: wf_world_def)

text \<open>Taking and giving back one claim.\<close>

lemma counters_acquire:
  assumes "counters w M" and "w_open_files w < pc_open_files (w_capacity w)"
    and "\<And>c. oc = Some c \<Longrightarrow> ct_open_files (control_of w c) < max_open_files (ct_limits (control_of w c))"
  shows "counters (case oc of None \<Rightarrow> w\<lparr>w_open_files := w_open_files w + 1\<rparr>
    | Some c \<Rightarrow> update_control (w\<lparr>w_open_files := w_open_files w + 1\<rparr>) c
        (\<lambda>k. k\<lparr>ct_open_files := ct_open_files k + 1\<rparr>)) (add_mset oc M)"
  using assms
  by (auto simp: counters_def update_control_def nth_list_update split: option.splits)

lemma counters_release:
  assumes "counters w (add_mset oc M)"
  shows "counters (control_release_file (pools_release_file w) oc) M"
  using assms
  by (cases oc) (auto simp: counters_def control_release_file_def pools_release_file_def
      update_control_def nth_list_update fetch_sub1_def split: if_splits)

lemma release_frame [simp]:
  "held (control_release_file w oc) = held w" "claims (control_release_file w oc) = claims w"
  "w_vfs (control_release_file w oc) = w_vfs w" "w_registries (control_release_file w oc) = w_registries w"
  "w_pending (control_release_file w oc) = w_pending w" "w_cleanup (control_release_file w oc) = w_cleanup w"
  "holds (control_release_file w oc) = holds w" "holds (pools_release_file w) = holds w"
  "held (pools_release_file w) = held w" "claims (pools_release_file w) = claims w"
  "w_vfs (pools_release_file w) = w_vfs w" "w_registries (pools_release_file w) = w_registries w"
  "w_pending (pools_release_file w) = w_pending w" "w_controls (pools_release_file w) = w_controls w"
  "w_cleanup (pools_release_file w) = w_cleanup w" "wf_world (pools_release_file w) = wf_world w"
  by (simp_all add: control_release_file_def pools_release_file_def split: option.splits)

lemma wf_release:
  assumes "wf_world w" and "\<And>c. oc = Some c \<Longrightarrow> c < length (w_controls w)"
  shows "wf_world (control_release_file w oc)"
  using assms control_registries_bound [OF assms(1)]
  by (cases oc) (simp_all add: control_release_file_def wf_update_control)

lemma adm_release:
  assumes "adm valid opened (add_mset oc X) w" and "\<And>c. oc = Some c \<Longrightarrow> c < length (w_controls w)"
  shows "adm valid opened X (control_release_file (pools_release_file w) oc)"
  using assms counters_release [of w oc "claims w + X"]
  by (simp add: adm_def wf_release)

lemma adm_registry_control:
  "adm valid opened X w \<Longrightarrow> r < length (w_registries w) \<Longrightarrow> rg_control (registry_of w r) = Some c \<Longrightarrow>
   c < length (w_controls w)"
  by (auto simp: adm_def wf_world_def)

lemma fetch_sub1_Suc [simp]: "fetch_sub1 (Suc n) = n"
  by (simp add: fetch_sub1_def)

text \<open>A reservation either takes one claim of the registry's execution or changes nothing.\<close>

lemma reserve_cases:
  assumes "adm valid opened X w" and "r < length (w_registries w)"
  obtains (taken) w' where "registry_reserve w r = (w', Ok ())"
      "adm valid opened (add_mset (rg_control (registry_of w r)) X) w'"
      "w_registries w' = w_registries w" "w_pending w' = w_pending w" "w_vfs w' = w_vfs w"
  | (refused) e where "registry_reserve w r = (w, Err e)"
proof (cases "w_open_files w < pc_open_files (w_capacity w)")
  case False
  then show thesis using refused by (simp add: registry_reserve_def pools_acquire_file_def)
next
  case room: True
  let ?w1 = "w\<lparr>w_open_files := w_open_files w + 1\<rparr>"
  have cnt: "counters w (claims w + X)" using assms(1) by (simp add: adm_def)
  show thesis
  proof (cases "rg_control (registry_of w r)")
    case None
    then show thesis
      using taken [of ?w1] counters_acquire [OF cnt room, of None] room assms(1)
      by (simp add: registry_reserve_def pools_acquire_file_def adm_def)
  next
    case (Some c)
    have c: "c < length (w_controls w)" using adm_registry_control [OF assms Some] .
    show thesis
    proof (cases "control_cancelled (control_of w c)
        \<or> \<not> ct_open_files (control_of w c) < max_open_files (ct_limits (control_of w c))")
      case True
      then show thesis
        using room Some refused [of EIO] refused [of ENOSPC]
        by (cases "control_cancelled (control_of w c)")
          (simp_all add: registry_reserve_def pools_acquire_file_def control_acquire_file_def
            pools_release_file_def)
    next
      case False
      let ?w2 = "update_control ?w1 c (\<lambda>k. k\<lparr>ct_open_files := ct_open_files k + 1\<rparr>)"
      have "counters ?w2 (add_mset (Some c) (claims w + X))"
        using counters_acquire [OF cnt room, of "Some c"] False by simp
      moreover have "wf_world ?w2"
        using assms(1) c control_registries_bound [of w c] by (intro wf_update_control) (auto simp: adm_def)
      ultimately have "adm valid opened (add_mset (Some c) X) ?w2"
        using assms(1) by (simp add: adm_def)
      then show thesis
        using taken [of ?w2] room Some False
        by (simp add: registry_reserve_def pools_acquire_file_def control_acquire_file_def)
    qed
  qed
qed

subsection \<open>Handles change hands\<close>

lemma wf_update_registry:
  assumes "wf_world w" and "bm_wf (rg_files (g (registry_of w r)))"
    and "rg_control (g (registry_of w r)) = rg_control (registry_of w r)"
  shows "wf_world (update_registry w r g)"
proof (cases "r < length (w_registries w)")
  case True
  then have old: "\<forall>c. rg_control (registry_of w r) = Some c \<longrightarrow> c < length (w_controls w)"
    using assms(1) nth_mem by (auto simp: wf_world_def)
  have "x \<in> set (w_registries w) \<or> x = g (registry_of w r)" if "x \<in> set (w_registries (update_registry w r g))" for x
    using that set_update_subset_insert [of "w_registries w" r "g (registry_of w r)"]
    by (auto simp: update_registry_def)
  then have "\<forall>x\<in>set (w_registries (update_registry w r g)). bm_wf (rg_files x)
      \<and> (\<forall>c. rg_control x = Some c \<longrightarrow> c < length (w_controls w))"
    using assms old unfolding wf_world_def by metis
  then show ?thesis using assms(1) by (simp add: wf_world_def update_registry_def)
next
  case False
  then show ?thesis using assms(1) by (simp add: update_registry_def list_update_beyond)
qed

lemma registry_frame [simp]:
  "w_vfs (update_registry w r g) = w_vfs w" "w_controls (update_registry w r g) = w_controls w"
  "w_pending (update_registry w r g) = w_pending w" "w_cleanup (update_registry w r g) = w_cleanup w"
  "length (w_registries (update_registry w r g)) = length (w_registries w)"
  "counters (update_registry w r g) M = counters w M"
  by (simp_all add: update_registry_def counters_def)

lemma adm_wf: "adm valid opened X w \<Longrightarrow> wf_world w"
  by (simp add: adm_def)

lemma adm_files_wf: "adm valid opened X w \<Longrightarrow> r < length (w_registries w) \<Longrightarrow> bm_wf (rg_files (registry_of w r))"
  by (auto simp: adm_def wf_world_def)

text \<open>A handle leaves its registry: its claim is carried by the call.\<close>

lemma adm_drop:
  assumes "adm valid opened X w" and "r < length (w_registries w)"
    and "bm_get (rg_files (registry_of w r)) h = Some u"
  shows "adm valid opened (add_mset (rg_control (registry_of w r)) X) (update_registry w r (drop_handle h))"
    and "h \<notin># holds (update_registry w r (drop_handle h))" and "h \<in> opened (w_vfs w)"
proof -
  let ?w = "update_registry w r (drop_handle h)"
  note held = held_drop [OF assms(2,3)]
  have holds: "holds w = add_mset h (holds ?w)" using holds_add [OF held] by simp
  have pend: "pending_claims ?w = pending_claims w" by (rule pending_update) simp
  have one: "count (holds w) h \<le> 1" using assms(1) by (simp add: adm_def)
  then show "h \<notin># holds ?w" unfolding holds by (simp add: not_in_iff)
  show "h \<in> opened (w_vfs w)" using assms(1) held_member [OF assms(2,3)] by (auto simp: adm_def)
  have le: "count (holds ?w) h' \<le> 1" for h'
  proof -
    have "count (holds w) h' \<le> 1" using assms(1) unfolding adm_def by blast
    then show ?thesis unfolding holds by (simp split: if_splits)
  qed
  have "claims w = add_mset (rg_control (registry_of w r)) (claims ?w)"
    unfolding claims_def pend held by simp
  moreover have "wf_world ?w"
    using adm_wf [OF assms(1)] adm_files_wf [OF assms(1,2)] by (intro wf_update_registry) auto
  moreover have "set_mset (holds ?w) \<subseteq> set_mset (holds w)"
    unfolding holds by auto
  ultimately show "adm valid opened (add_mset (rg_control (registry_of w r)) X) ?w"
    using assms(1) le by (auto simp: adm_def)
qed

text \<open>A fresh handle enters a registry and takes over the claim of its call.\<close>

lemma adm_insert:
  assumes "adm valid opened (add_mset (rg_control (registry_of w r)) X) w" and "r < length (w_registries w)"
    and "valid s'" and "h \<notin> opened (w_vfs w)" and "opened s' = insert h (opened (w_vfs w))"
  shows "adm valid opened X (update_registry (w\<lparr>w_vfs := s'\<rparr>) r (\<lambda>g. g\<lparr>rg_files := bm_insert h () (rg_files g)\<rparr>))"
    (is "adm _ _ _ ?w")
proof -
  let ?g = "\<lambda>g. g\<lparr>rg_files := bm_insert h () (rg_files g)\<rparr>"
  have new: "h \<notin># holds w" using assms(1,4) by (auto simp: adm_def)
  then have "bm_get (rg_files (registry_of w r)) h = None"
    using held_member [OF assms(2)] by (cases "bm_get (rg_files (registry_of w r)) h") auto
  then have held: "held ?w = add_mset (h, rg_control (registry_of w r)) (held w)"
    using held_update [of r "w\<lparr>w_vfs := s'\<rparr>" ?g] assms(2) reg_held_insert adm_files_wf [OF assms(1,2)]
    by (simp add: ac_simps)
  then have holds: "holds ?w = add_mset h (holds w)" using holds_add by fastforce
  have pend: "pending_claims ?w = pending_claims w"
    using pending_update [of ?g "w\<lparr>w_vfs := s'\<rparr>" r] by (simp add: pending_claims_def)
  have "claims ?w = add_mset (rg_control (registry_of w r)) (claims w)"
    unfolding claims_def pend held by simp
  moreover have "wf_world ?w"
    using adm_wf [OF assms(1)] adm_files_wf [OF assms(1,2)] by (intro wf_update_registry) auto
  moreover have "count (holds ?w) h' \<le> 1" for h'
  proof -
    have "count (holds w) h' \<le> 1" using assms(1) unfolding adm_def by blast
    then show ?thesis unfolding holds using new by (auto simp: not_in_iff)
  qed
  ultimately show ?thesis
    using assms(1,3,5) unfolding adm_def by (auto simp: holds)
qed

lemma adm_claim_pending:
  "adm valid opened (add_mset (rg_control (registry_of w (po_registry po))) X) w \<Longrightarrow>
   po_registry po < length (w_registries w) \<Longrightarrow> adm valid opened X (w\<lparr>w_pending := w_pending w @ [po]\<rparr>)"
  by (simp add: adm_def holds_def claims_def pending_claims_def held_def wf_world_def counters_def)

lemma image_mset_remove1:
  "x \<in> set xs \<Longrightarrow> image_mset g (mset xs) = add_mset (g x) (image_mset g (mset (remove1 x xs)))"
  using image_mset_add_mset [of g x "mset xs - {#x#}"] by simp

lemma adm_unclaim_pending:
  assumes "adm valid opened X w" and "po \<in> set (w_pending w)"
  shows "adm valid opened (add_mset (rg_control (registry_of w (po_registry po))) X)
      (w\<lparr>w_pending := remove1 po (w_pending w)\<rparr>)"
proof -
  let ?w = "w\<lparr>w_pending := remove1 po (w_pending w)\<rparr>" and ?c = "\<lambda>po. rg_control (registry_of w (po_registry po))"
  have "image_mset ?c (mset (w_pending w)) = add_mset (?c po) (image_mset ?c (mset (remove1 po (w_pending w))))"
    using assms(2) by (rule image_mset_remove1)
  then have "pending_claims w = add_mset (?c po) (pending_claims ?w)" by (simp add: pending_claims_def del: mset_remove1)
  moreover have "set (remove1 po (w_pending w)) \<subseteq> set (w_pending w)" by (rule set_remove1_subset)
  ultimately show ?thesis
    using assms(1) by (auto simp: adm_def holds_def claims_def held_def wf_world_def counters_def)
qed

context handle_backend
begin

abbreviation ok :: "nat option multiset \<Rightarrow> 's world \<Rightarrow> bool" where
  "ok \<equiv> adm valid opened"

lemma quiet_call:
  "ok X w \<Longrightarrow> quiet valid opened (w_vfs w) (call (w_vfs w)) \<Longrightarrow> ok X (fst (on_vfs call w))"
  by (auto simp: quiet_def adm_def on_vfs_def split: prod.splits)

lemma dispatch_ok: "ok X w \<Longrightarrow> ok X (fst (op w)) \<Longrightarrow> ok X (fst (dispatch w r fast cl op))"
  by (auto simp: dispatch_def split: prod.splits sum.splits fault.splits)

lemma dispatch_path_ok: "ok X w \<Longrightarrow> ok X (fst (op w)) \<Longrightarrow> ok X (fst (dispatch_path ops w f p op))"
  using dispatch_ok [of X w op] by (cases "check_path w f p") (simp_all add: dispatch_path_def)

lemma adm_valid: "ok X w \<Longrightarrow> valid (w_vfs w)"
  by (simp add: adm_def)

lemma gone_ok:
  assumes "ok X w" and "h \<notin># holds w"
  shows "ok X (w\<lparr>w_vfs := fst (v_abort ops (w_vfs w) h)\<rparr>)" "ok X (w\<lparr>w_vfs := fst (v_close ops (w_vfs w) h)\<rparr>)"
  using assms abort_live [OF adm_valid [OF assms(1)], of h] close_live [OF adm_valid [OF assms(1)], of h]
  by (auto simp: adm_def)

lemma run_cleanup_ok:
  assumes "ok (add_mset c X) w" and "h \<notin># holds w"
    and "\<And>k. c = Some k \<Longrightarrow> k < length (w_controls w)"
  shows "ok X (run_cleanup ops w (h, c))"
  using adm_release [OF gone_ok(1) [OF assms(1,2)]] assms(3) by (simp add: run_cleanup_def)

lemma cleanup_handle_ok:
  assumes "ok (add_mset c X) w" and "h \<notin># holds w" and "h \<in> opened (w_vfs w)"
    and "\<And>k. c = Some k \<Longrightarrow> k < length (w_controls w)"
  shows "ok X (cleanup_handle ops w h c)"
proof (cases "v_is_fast_handle ops (w_vfs w) h")
  case True
  then show ?thesis using run_cleanup_ok [OF assms(1,2,4)] by (simp add: cleanup_handle_def)
next
  case False
  have "count (holds w) h' \<le> 1" for h' using assms(1) unfolding adm_def by blast
  with False assms show ?thesis
    by (auto simp: cleanup_handle_def adm_def holds_def claims_def held_def pending_claims_def
        wf_world_def counters_def not_in_iff)
qed

lemma registry_abandon_ok:
  assumes "ok X w" and "r < length (w_registries w)"
  shows "ok X (registry_abandon ops w r h)"
proof (cases "bm_get (rg_files (registry_of w r)) h")
  case None
  then show ?thesis using assms(1) by (simp add: registry_abandon_def)
next
  case (Some u)
  have "h \<in> opened (w_vfs (update_registry w r (drop_handle h)))"
    using adm_drop(3) [OF assms Some] by simp
  then have "ok X (cleanup_handle ops (update_registry w r (drop_handle h)) h (rg_control (registry_of w r)))"
    using adm_drop(1,2) [OF assms Some] adm_registry_control [OF assms] by (intro cleanup_handle_ok) simp_all
  then show ?thesis using Some by (simp add: registry_abandon_def)
qed

lemma cleanup_frame:
  "w_registries (cleanup_handle ops w h c) = w_registries w" "w_pending (cleanup_handle ops w h c) = w_pending w"
  "length (w_controls (cleanup_handle ops w h c)) = length (w_controls w)"
  "opened (w_vfs w) - {h} \<subseteq> opened (w_vfs (cleanup_handle ops w h c)) \<or> \<not> valid (w_vfs w)"
  "set_mset (holds (cleanup_handle ops w h c)) \<subseteq> insert h (set_mset (holds w))"
  using abort_live [of "w_vfs w" h]
  by (auto simp: cleanup_handle_def run_cleanup_def control_release_file_def update_control_def
      pools_release_file_def holds_def held_def split: option.splits)

lemma cleanup_all_ok:
  assumes "ok (replicate_mset (length hs) c + X) w" and "distinct hs"
    and "set hs \<inter> set_mset (holds w) = {}" and "set hs \<subseteq> opened (w_vfs w)"
    and "\<And>k. c = Some k \<Longrightarrow> k < length (w_controls w)"
  shows "ok X (cleanup_all ops w hs c)"
  using assms
proof (induction hs arbitrary: w)
  case (Cons h hs)
  let ?w = "cleanup_handle ops w h c"
  have "ok (replicate_mset (length hs) c + X) ?w"
    using Cons.prems by (intro cleanup_handle_ok) auto
  moreover have "set hs \<inter> set_mset (holds ?w) = {}"
    using Cons.prems(2,3) cleanup_frame(5) [of w h c] by auto
  moreover have "set hs \<subseteq> opened (w_vfs ?w)"
    using Cons.prems(2,4) cleanup_frame(4) [of w h c] adm_valid [OF Cons.prems(1)] by auto
  ultimately show ?case using Cons.IH [of ?w] Cons.prems(2,5) by (simp add: cleanup_frame(3))
qed simp

end

text \<open>A registry that lets go of all its handles.\<close>

abbreviation clear_files :: "registry \<Rightarrow> registry" where
  "clear_files \<equiv> \<lambda>g. g\<lparr>rg_files := []\<rparr>"

lemma held_clear:
  assumes "r < length (w_registries w)"
  shows "held w = held (update_registry w r clear_files) + reg_held (registry_of w r)"
  using held_update [OF assms, of clear_files] by (simp add: reg_held_def)

lemma reg_held_parts:
  "image_mset fst (reg_held g) = mset (map fst (rg_files g))"
  "image_mset snd (reg_held g) = replicate_mset (length (rg_files g)) (rg_control g)"
  by (simp_all add: reg_held_def image_mset.compositionality comp_def image_mset_const_eq)

lemma adm_clear:
  assumes "adm valid opened X w" and "r < length (w_registries w)"
  defines "hs \<equiv> map fst (rg_files (registry_of w r))" and "w' \<equiv> update_registry w r clear_files"
  shows "adm valid opened (replicate_mset (length hs) (rg_control (registry_of w r)) + X) w'"
    and "distinct hs" "set hs \<inter> set_mset (holds w') = {}" "set hs \<subseteq> opened (w_vfs w')"
proof -
  have held: "held w = held w' + reg_held (registry_of w r)"
    unfolding w'_def by (rule held_clear [OF assms(2)])
  have holds: "holds w = holds w' + mset hs"
    by (simp only: holds_def held image_mset_union reg_held_parts hs_def)
  have one: "count (holds w') h + count (mset hs) h \<le> 1" for h
  proof -
    have "count (holds w) h \<le> 1" using assms(1) unfolding adm_def by blast
    then show ?thesis unfolding holds by simp
  qed
  show "distinct hs"
    using adm_files_wf [OF assms(1,2)] by (simp add: hs_def bm_wf_def strict_sorted_iff)
  show "set hs \<inter> set_mset (holds w') = {}"
  proof (rule ccontr)
    assume "set hs \<inter> set_mset (holds w') \<noteq> {}"
    then obtain h where "h \<in># mset hs" "h \<in># holds w'" by auto
    then show False using one [of h] by (simp add: count_greater_zero_iff [symmetric] del: count_greater_zero_iff set_mset_mset)
  qed
  have sub: "set_mset (holds w) \<subseteq> opened (w_vfs w)" using assms(1) by (simp add: adm_def)
  then show "set hs \<subseteq> opened (w_vfs w')" unfolding holds w'_def by simp
  have pend: "pending_claims w' = pending_claims w" unfolding w'_def by (rule pending_update) simp
  have "claims w = claims w' + replicate_mset (length hs) (rg_control (registry_of w r))"
    unfolding claims_def pend held by (simp add: reg_held_parts hs_def)
  moreover have "wf_world w'"
    unfolding w'_def using adm_wf [OF assms(1)] by (intro wf_update_registry) (simp_all add: bm_wf_def)
  moreover have "count (holds w') h \<le> 1" for h using one [of h] by simp
  moreover have "counters w' M = counters w M" "w_vfs w' = w_vfs w" for M unfolding w'_def by simp_all
  ultimately show "adm valid opened (replicate_mset (length hs) (rg_control (registry_of w r)) + X) w'"
    using assms(1) sub unfolding holds adm_def by (simp add: ac_simps)
qed

text \<open>Every step of the facade keeps the invariant.\<close>

lemma adm_control_frame:
  assumes "adm valid opened X w"
    and "ct_open_files (g (control_of w c)) = ct_open_files (control_of w c)"
    and "ct_limits (g (control_of w c)) = ct_limits (control_of w c)"
    and "set (ct_registries (g (control_of w c))) \<subseteq> {..<length (w_registries w)}"
  shows "adm valid opened X (update_control w c g)"
proof -
  have "ct_open_files ((w_controls w)[c := g (control_of w c)] ! i) = ct_open_files (control_of w i)"
    "ct_limits ((w_controls w)[c := g (control_of w c)] ! i) = ct_limits (control_of w i)" for i
    using assms(2,3)
    by (cases "i = c"; cases "c < length (w_controls w)"; simp add: list_update_beyond)+
  then have "counters (update_control w c g) M = counters w M" for M
    by (simp add: counters_def update_control_def)
  then show ?thesis using assms(1) wf_update_control [of w g c, OF adm_wf [OF assms(1)] assms(4)]
    by (simp add: adm_def)
qed

lemma adm_new_control:
  assumes "adm valid opened X w" and "Some (length (w_controls w)) \<notin># X"
  shows "adm valid opened X (fst (control_new w l))"
proof -
  let ?w = "fst (control_new w l)"
  have same: "held ?w = held w" "claims ?w = claims w" "holds ?w = holds w" "w_vfs ?w = w_vfs w"
    by (simp_all add: control_new_def held_def claims_def pending_claims_def holds_def)
  have wf: "wf_world w" by (rule adm_wf [OF assms(1)])
  have "Some (length (w_controls w)) \<notin># image_mset snd (held w)"
  proof
    assume "Some (length (w_controls w)) \<in># image_mset snd (held w)"
    then consider g where "g \<in> set (w_registries w)" "rg_control g = Some (length (w_controls w))"
      | j where "j \<in> set (w_cleanup w)" "snd j = Some (length (w_controls w))"
      by (auto simp: held_def reg_held_def)
    then show False using wf unfolding wf_world_def by cases blast+
  qed
  moreover have "Some (length (w_controls w)) \<notin># pending_claims w"
  proof
    assume "Some (length (w_controls w)) \<in># pending_claims w"
    then obtain po where "po \<in> set (w_pending w)"
      and rc: "rg_control (registry_of w (po_registry po)) = Some (length (w_controls w))"
      by (auto simp: pending_claims_def)
    then have "po_registry po < length (w_registries w)" using wf by (simp add: wf_world_def)
    from adm_registry_control [OF assms(1) this rc] show False by simp
  qed
  ultimately have "Some (length (w_controls w)) \<notin># claims w + X"
    using assms(2) by (simp add: claims_def)
  then have "counters ?w (claims w + X)"
    using assms(1) by (auto simp: adm_def counters_def control_new_def nth_append not_in_iff less_Suc_eq)
  moreover have "wf_world ?w"
    using wf by (simp add: wf_world_def control_new_def ball_Un) (meson less_SucI)
  ultimately show ?thesis
    using assms(1) by (simp add: adm_def same)
qed

end
