(* ===== verification/Fs_Steps.thy ===== *)
theory Fs_Steps
  imports Fs_Admission
begin

text \<open>
  The facade as a state machine. An event is a call, the completion of an admitted open, a
  cancellation, the passing of a deadline, a job of the cleanup threads, a dropped registry, or
  a new execution or facade; \<open>fs_reach\<close> closes the initial worlds under every order of events.
\<close>

datatype fs_event =
    EStat fs_facade rstr | EReaddir fs_facade rstr | EMkdir fs_facade rstr
  | ERename fs_facade rstr rstr | EUnlink fs_facade rstr | ERmdir fs_facade rstr
  | EReadAt fs_facade file_handle nat nat | EWriteAt fs_facade file_handle nat "byte list"
  | ETruncate fs_facade file_handle nat
  | EOpen fs_facade rstr open_mode | EOpened pending_open
  | EFinish fs_facade file_handle bool | EAbandon nat file_handle | EDropRegistry nat
  | ECancel nat | EExpire nat | ECleanup cleanup_job
  | ENewControl limits | ENewFs "rstr list" rstr limits "nat option"

definition fs_expire :: "'s world \<Rightarrow> nat \<Rightarrow> 's world" where
  "fs_expire w c = update_control w c (\<lambda>k. k\<lparr>ct_expired := True\<rparr>)"

definition take_job :: "'s world \<Rightarrow> cleanup_job \<Rightarrow> 's world" where
  "take_job w j = w\<lparr>w_cleanup := remove1 j (w_cleanup w)\<rparr>"

fun fs_exec :: "'s vfs_ops \<Rightarrow> 's world \<Rightarrow> fs_event \<Rightarrow> 's world" where
  "fs_exec ops w (EStat f p) = fst (fs_stat ops w f p)"
| "fs_exec ops w (EReaddir f p) = fst (fs_readdir ops w f p)"
| "fs_exec ops w (EMkdir f p) = fst (fs_mkdir ops w f p)"
| "fs_exec ops w (ERename f p p') = fst (fs_rename ops w f p p')"
| "fs_exec ops w (EUnlink f p) = fst (fs_unlink ops w f p)"
| "fs_exec ops w (ERmdir f p) = fst (fs_rmdir ops w f p)"
| "fs_exec ops w (EReadAt f h off n) = fst (fs_read_at ops w f h off n)"
| "fs_exec ops w (EWriteAt f h off d) = fst (fs_write_at ops w f h off d)"
| "fs_exec ops w (ETruncate f h n) = fst (fs_truncate ops w f h n)"
| "fs_exec ops w (EOpen f p m) = fst (open_start ops w f p m)"
| "fs_exec ops w (EOpened po) = fst (open_finish ops w po)"
| "fs_exec ops w (EFinish f h ab) = fst (fs_finish ops w f h ab)"
| "fs_exec ops w (EAbandon r h) = registry_abandon ops w r h"
| "fs_exec ops w (EDropRegistry r) = registry_abandon_all ops w r"
| "fs_exec ops w (ECancel c) = control_cancel ops w c"
| "fs_exec ops w (EExpire c) = fs_expire w c"
| "fs_exec ops w (ECleanup j) = run_cleanup ops (take_job w j) j"
| "fs_exec ops w (ENewControl l) = fst (control_new w l)"
| "fs_exec ops w (ENewFs bin cwd l oc) = fst (fs_build w bin cwd l oc)"

text \<open>The admission slots an event loses: those of an open whose backend call panics.\<close>

fun fs_leaks :: "'s vfs_ops \<Rightarrow> 's world \<Rightarrow> fs_event \<Rightarrow> nat option multiset" where
  "fs_leaks ops w (EOpened po) =
     (if snd (v_open ops (w_vfs w) (po_path po) (po_mode po)) = Inl Panic
      then {#rg_control (registry_of w (po_registry po))#} else {#})"
| "fs_leaks ops w e = {#}"

definition facade_ok :: "'s world \<Rightarrow> fs_facade \<Rightarrow> bool" where
  "facade_ok w f \<longleftrightarrow> fs_handles f < length (w_registries w)"

text \<open>What can happen: calls on existing objects.\<close>

fun enabled :: "'s world \<Rightarrow> fs_event \<Rightarrow> bool" where
  "enabled w (EOpened po) = (po \<in> set (w_pending w))"
| "enabled w (EOpen f p m) = facade_ok w f"
| "enabled w (EFinish f h ab) = facade_ok w f"
| "enabled w (EAbandon r h) = (r < length (w_registries w))"
| "enabled w (EDropRegistry r) = (r < length (w_registries w))"
| "enabled w (ECancel c) = (c < length (w_controls w))"
| "enabled w (EExpire c) = (c < length (w_controls w))"
| "enabled w (ECleanup j) = (j \<in> set (w_cleanup w))"
| "enabled w (ENewFs bin cwd l oc) = (case oc of None \<Rightarrow> True | Some c \<Rightarrow> c < length (w_controls w))"
| "enabled w e = True"

definition world_new :: "'s \<Rightarrow> pool_capacity \<Rightarrow> 's world" where
  "world_new s cap = \<lparr>w_vfs = s, w_capacity = cap, w_open_files = 0, w_controls = [],
     w_registries = [], w_pending = [], w_cleanup = []\<rparr>"

inductive fs_reach :: "'s vfs_ops \<Rightarrow> ('s \<Rightarrow> bool) \<Rightarrow> 's world \<Rightarrow> nat option multiset \<Rightarrow> bool"
  for ops :: "'s vfs_ops" and valid :: "'s \<Rightarrow> bool" where
  start: "valid s \<Longrightarrow> fs_reach ops valid (world_new s cap) {#}"
| event: "fs_reach ops valid w L \<Longrightarrow> enabled w e \<Longrightarrow> fs_reach ops valid (fs_exec ops w e) (fs_leaks ops w e + L)"

subsection \<open>Calls keep the admission invariant\<close>

lemmas fs_quiet_defs = fs_stat_def fs_readdir_def fs_mkdir_def fs_rename_def fs_unlink_def
  fs_rmdir_def fs_read_at_def fs_write_at_def fs_truncate_def

lemma fst_attempt_keeps: "P w \<Longrightarrow> (\<And>v. P (fst (k v))) \<Longrightarrow> P (fst (attempt w r k))"
  by (cases r) simp_all

lemma fst_and_then_keeps: "P (fst out) \<Longrightarrow> (\<And>w v. P w \<Longrightarrow> P (fst (k w v))) \<Longrightarrow> P (fst (and_then out k))"
  by (cases out; cases "snd out") auto

context handle_backend
begin

lemma quiet_ok:
  assumes "ok X w"
  shows "ok X (fst (fs_stat ops w f p))" "ok X (fst (fs_readdir ops w f p))" "ok X (fst (fs_mkdir ops w f p))"
    "ok X (fst (fs_rename ops w f p p'))" "ok X (fst (fs_unlink ops w f p))" "ok X (fst (fs_rmdir ops w f p))"
    "ok X (fst (fs_read_at ops w f h off n))" "ok X (fst (fs_write_at ops w f h off d))"
    "ok X (fst (fs_truncate ops w f h n))"
proof -
  note v = adm_valid [OF assms]
  note steps = fst_attempt_keeps [where P = "ok X"] dispatch_ok dispatch_path_ok assms v quiet_call
    stat_quiet readdir_quiet mkdir_quiet rename_quiet unlink_quiet rmdir_quiet truncate_quiet
    read_quiet write_quiet fst_and_then_keeps [where P = "ok X"]
  show "ok X (fst (fs_stat ops w f p))" "ok X (fst (fs_mkdir ops w f p))"
    "ok X (fst (fs_rename ops w f p p'))" "ok X (fst (fs_unlink ops w f p))" "ok X (fst (fs_rmdir ops w f p))"
    "ok X (fst (fs_truncate ops w f h n))"
    unfolding fs_quiet_defs Let_def by (auto intro!: steps split: option.split)
  show "ok X (fst (fs_readdir ops w f p))" "ok X (fst (fs_read_at ops w f h off n))"
    "ok X (fst (fs_write_at ops w f h off d))"
    unfolding fs_quiet_defs Let_def by (auto intro!: steps)
qed

lemma open_start_ok:
  assumes "ok X w" and "fs_handles f < length (w_registries w)"
  shows "ok X (fst (open_start ops w f p m))"
proof -
  let ?po = "\<lparr>po_registry = fs_handles f, po_path = fs_resolve f p, po_mode = m,
      po_fast = v_is_fast_path ops (w_vfs w) (fs_resolve f p)\<rparr>"
  from assms have "ok X (fst (and_then (registry_reserve w (fs_handles f)) (\<lambda>w2 _.
      (w2\<lparr>w_pending := w_pending w2 @ [?po]\<rparr>, Ok ?po))))"
  proof (cases rule: reserve_cases)
    case (taken w')
    then show ?thesis using adm_claim_pending [of valid opened w' ?po X] assms(2) by simp
  qed (use assms(1) in simp)
  then show ?thesis
    unfolding open_start_def Let_def
    by (auto intro!: fst_attempt_keeps [where P = "ok X"] dispatch_path_ok assms(1))
qed

lemma registry_release_ok:
  assumes "ok (add_mset (rg_control (registry_of w r)) X) w" and "r < length (w_registries w)"
  shows "ok X (registry_release w r)"
  using adm_release [OF assms(1)] adm_registry_control [OF assms] by (simp add: registry_release_def)

text \<open>The claim of a removed handle returns with its release, whatever the backend answered.\<close>

lemma removed_ok:
  assumes "ok X w" and "r < length (w_registries w)"
    and "bm_get (rg_files (registry_of w r)) h = Some u"
  defines "w' \<equiv> update_registry w r (drop_handle h)"
  shows "ok X (registry_release (w'\<lparr>w_vfs := fst (v_abort ops (w_vfs w') h)\<rparr>) r)"
    "ok X (registry_release (w'\<lparr>w_vfs := fst (v_close ops (w_vfs w') h)\<rparr>) r)"
proof -
  have rc: "rg_control (registry_of w' r) = rg_control (registry_of w r)"
    using assms(2) by (simp add: w'_def update_registry_def)
  have r: "r < length (w_registries w')" using assms(2) by (simp add: w'_def)
  note gone = gone_ok [OF adm_drop(1,2) [OF assms(1-3)], folded w'_def]
  show "ok X (registry_release (w'\<lparr>w_vfs := fst (v_abort ops (w_vfs w') h)\<rparr>) r)"
    using registry_release_ok [of "w'\<lparr>w_vfs := fst (v_abort ops (w_vfs w') h)\<rparr>" r X] gone(1) rc r by simp
  show "ok X (registry_release (w'\<lparr>w_vfs := fst (v_close ops (w_vfs w') h)\<rparr>) r)"
    using registry_release_ok [of "w'\<lparr>w_vfs := fst (v_close ops (w_vfs w') h)\<rparr>" r X] gone(2) rc r by simp
qed

lemma finish_ok:
  assumes "ok X w" and "fs_handles f < length (w_registries w)"
  shows "ok X (fst (fs_finish ops w f h ab))"
proof (cases "bm_get (rg_files (registry_of w (fs_handles f))) h")
  case None
  then show ?thesis
    using assms(1) unfolding fs_finish_def Let_def
    by (intro dispatch_ok) (simp_all add: registry_remove_def)
next
  case (Some u)
  show ?thesis
    using assms(1) removed_ok [OF assms Some] Some unfolding fs_finish_def Let_def
    by (intro dispatch_ok)
      (auto simp: registry_remove_def on_vfs_def split: prod.splits dest: arg_cong [of _ _ fst])
qed

lemma open_finish_ok:
  assumes "ok X w" and "po \<in> set (w_pending w)"
  shows "ok (fs_leaks ops w (EOpened po) + X) (fst (open_finish ops w po))"
proof -
  let ?w = "w\<lparr>w_pending := remove1 po (w_pending w)\<rparr>" and ?r = "po_registry po"
  let ?c = "rg_control (registry_of w ?r)"
  have r: "?r < length (w_registries w)" using adm_wf [OF assms(1)] assms(2) by (simp add: wf_world_def)
  have ok: "ok (add_mset ?c X) ?w" by (rule adm_unclaim_pending [OF assms])
  have v: "valid (w_vfs w)" by (rule adm_valid [OF assms(1)])
  obtain s x where out: "v_open ops (w_vfs w) (po_path po) (po_mode po) = (s, x)" by fastforce
  have s: "valid s" using open_valid [OF v, of "po_path po" "po_mode po"] out by simp
  show ?thesis
  proof (cases x)
    case (Inl e)
    then have "opened s = opened (w_vfs w)" using open_failed [OF v out [unfolded Inl]] by simp
    then have ok': "ok (add_mset ?c X) (?w\<lparr>w_vfs := s\<rparr>)" using ok s by (simp add: adm_def)
    then show ?thesis
      using registry_release_ok [of "?w\<lparr>w_vfs := s\<rparr>" ?r X] r out Inl
      by (cases e) (simp_all add: open_finish_def on_vfs_def Let_def)
  next
    case (Inr h)
    have fresh: "h \<notin> opened (w_vfs w)" "opened s = insert h (opened (w_vfs w))"
      using open_fresh [OF v out [unfolded Inr]] by auto
    let ?ins = "\<lambda>g. g\<lparr>rg_files := bm_insert h () (rg_files g)\<rparr>"
    let ?w2 = "update_registry (?w\<lparr>w_vfs := s\<rparr>) ?r ?ins"
    have ok2: "ok X ?w2" using ok r s fresh by (intro adm_insert) simp_all
    have get: "bm_get (rg_files (registry_of ?w2 ?r)) h = Some ()"
      using r by (simp add: update_registry_def)
    have r2: "?r < length (w_registries ?w2)" using r by simp
    have "ok X (fst (open_finish ops w po))"
      using ok2 removed_ok(1) [OF ok2 r2 get] get out Inr
      by (simp add: open_finish_def on_vfs_def Let_def registry_remove_def)
    then show ?thesis using out Inr by simp
  qed
qed

lemma abandon_all_ok:
  assumes "ok X w" and "r < length (w_registries w)"
  shows "ok X (registry_abandon_all ops w r)"
  unfolding registry_abandon_all_def
  using adm_clear [OF assms] adm_registry_control [OF assms] by (intro cleanup_all_ok) simp_all

lemma cleanup_all_registries:
  "w_registries (cleanup_all ops w hs c) = w_registries w"
  by (induction hs arbitrary: w) (simp_all add: cleanup_frame(1))

lemma abandon_all_registries:
  "w_registries (registry_abandon_all ops w r) = (w_registries w)[r := clear_files (registry_of w r)]"
  by (simp add: registry_abandon_all_def cleanup_all_registries) (simp add: update_registry_def)

lemma cancel_ok:
  assumes "ok X w" and "c < length (w_controls w)"
  shows "ok X (control_cancel ops w c)"
proof -
  let ?w = "update_control w c (\<lambda>k. k\<lparr>ct_cancelled := True, ct_registries := []\<rparr>)"
  have "ok X (foldl (registry_abandon_all ops) v rs)"
    if "ok X v" "set rs \<subseteq> {..<length (w_registries v)}" for v rs
    using that
    by (induction rs arbitrary: v) (simp_all add: abandon_all_ok abandon_all_registries)
  moreover have "ok X ?w" using assms(1) by (intro adm_control_frame) simp_all
  moreover have "set (ct_registries (control_of w c)) \<subseteq> {..<length (w_registries ?w)}"
    using control_registries_bound [OF adm_wf [OF assms(1)] assms(2)] by simp
  ultimately show ?thesis by (simp add: control_cancel_def Let_def)
qed

lemma cleanup_job_ok:
  assumes "ok X w" and "j \<in> set (w_cleanup w)"
  shows "ok X (run_cleanup ops (take_job w j) j)"
proof -
  let ?w = "take_job w j"
  obtain h c where j: "j = (h, c)" by fastforce
  have q: "mset (w_cleanup w) = add_mset j (mset (remove1 j (w_cleanup w)))" using assms(2) by simp
  have held: "held w = add_mset (h, c) (held ?w)"
    unfolding held_def q by (simp add: take_job_def j del: mset_remove1)
  have holds: "holds w = add_mset h (holds ?w)" using holds_add [OF held] by simp
  have one: "count (holds w) h' \<le> 1" for h' using assms(1) unfolding adm_def by blast
  have le: "count (holds ?w) h' \<le> 1" for h' using one [of h'] unfolding holds by (simp split: if_splits)
  have "claims w = add_mset c (claims ?w)"
    using held by (simp add: claims_def pending_claims_def take_job_def)
  moreover have "set (remove1 j (w_cleanup w)) \<subseteq> set (w_cleanup w)" by (rule set_remove1_subset)
  then have "wf_world ?w" using adm_wf [OF assms(1)] by (auto simp: wf_world_def take_job_def)
  moreover have "counters ?w M = counters w M" "w_vfs ?w = w_vfs w" for M
    by (simp_all add: counters_def take_job_def)
  ultimately have "ok (add_mset c X) ?w"
    using assms(1) le unfolding adm_def holds by auto
  moreover have "h \<notin># holds ?w" using one [of h] unfolding holds by (simp add: not_in_iff)
  moreover have "k < length (w_controls ?w)" if "c = Some k" for k
    using adm_wf [OF assms(1)] assms(2) that j by (auto simp: wf_world_def take_job_def)
  ultimately show ?thesis unfolding j by (intro run_cleanup_ok)
qed

end

lemma adm_new_registry:
  assumes "adm valid opened X w" and "\<And>c. oc = Some c \<Longrightarrow> c < length (w_controls w)"
  shows "adm valid opened X (w\<lparr>w_registries := w_registries w @ [\<lparr>rg_files = [], rg_control = oc\<rparr>]\<rparr>)"
    (is "adm _ _ _ ?w")
proof -
  have wf: "wf_world w" by (rule adm_wf [OF assms(1)])
  have "pending_claims ?w = pending_claims w"
    using wf by (auto simp: pending_claims_def wf_world_def nth_append intro!: image_mset_cong)
  then have same: "held ?w = held w" "claims ?w = claims w" "holds ?w = holds w" "w_vfs ?w = w_vfs w"
    by (simp_all add: held_def reg_held_def claims_def holds_def)
  have "counters ?w M = counters w M" for M by (simp add: counters_def)
  moreover have "wf_world ?w"
    using wf assms(2) by (simp add: wf_world_def) (meson less_SucI)
  ultimately show ?thesis using assms(1) by (simp add: adm_def same)
qed

lemma adm_build:
  assumes "adm valid opened X w" and "\<And>c. oc = Some c \<Longrightarrow> c < length (w_controls w)"
  shows "adm valid opened X (fst (fs_build w bin cwd l oc))"
proof (cases oc)
  case None
  then show ?thesis using adm_new_registry [OF assms(1), of None] by (simp add: fs_build_def Let_def)
next
  case (Some c)
  let ?w = "w\<lparr>w_registries := w_registries w @ [\<lparr>rg_files = [], rg_control = oc\<rparr>]\<rparr>"
  have "set (ct_registries (control_of w c)) \<subseteq> {..<length (w_registries w)}"
    using control_registries_bound [OF adm_wf [OF assms(1)] assms(2) [OF Some]] .
  then have "adm valid opened X
      (update_control ?w c (\<lambda>k. k\<lparr>ct_registries := ct_registries k @ [length (w_registries w)]\<rparr>))"
    using adm_new_registry [OF assms] by (intro adm_control_frame) auto
  then show ?thesis using Some by (simp add: fs_build_def Let_def)
qed

subsection \<open>Cancelled executions hold no handle\<close>

text \<open>
  The registries of a live execution are registered with its control, and those of a cancelled
  one are empty.
\<close>

definition guarded :: "'s world \<Rightarrow> bool" where
  "guarded w \<longleftrightarrow> (\<forall>r<length (w_registries w). \<forall>c. rg_control (registry_of w r) = Some c \<longrightarrow>
     (if ct_cancelled (control_of w c) then rg_files (registry_of w r) = []
      else r \<in> set (ct_registries (control_of w c))))"

text \<open>Most steps leave cancellation and registration alone and put no handle into an empty registry.\<close>

definition steady :: "'s world \<Rightarrow> 's world \<Rightarrow> bool" where
  "steady w w' \<longleftrightarrow> length (w_registries w') = length (w_registries w)
     \<and> length (w_controls w') = length (w_controls w)
     \<and> (\<forall>r<length (w_registries w). rg_control (registry_of w' r) = rg_control (registry_of w r)
          \<and> (rg_files (registry_of w r) = [] \<longrightarrow> rg_files (registry_of w' r) = []))
     \<and> (\<forall>c. ct_cancelled (control_of w' c) = ct_cancelled (control_of w c)
          \<and> ct_registries (control_of w' c) = ct_registries (control_of w c))"

lemma steady_refl [simp]: "steady w w"
  by (simp add: steady_def)

lemma steady_trans: "steady u v \<Longrightarrow> steady v w \<Longrightarrow> steady u w"
  unfolding steady_def by auto

lemma steady_guarded: "steady w w' \<Longrightarrow> guarded w \<Longrightarrow> guarded w'"
  unfolding steady_def guarded_def by simp

lemma steady_upd [simp]:
  "steady u (w\<lparr>w_vfs := s\<rparr>) = steady u w" "steady u (w\<lparr>w_open_files := n\<rparr>) = steady u w"
  "steady u (w\<lparr>w_pending := ps\<rparr>) = steady u w" "steady u (w\<lparr>w_cleanup := js\<rparr>) = steady u w"
  by (simp_all add: steady_def)

lemma steady_control:
  assumes "steady u w" and "\<And>k. ct_cancelled (g k) = ct_cancelled k \<and> ct_registries (g k) = ct_registries k"
  shows "steady u (update_control w c g)"
proof -
  have "ct_cancelled ((w_controls w)[c := g (control_of w c)] ! i) = ct_cancelled (control_of w i)"
    "ct_registries ((w_controls w)[c := g (control_of w c)] ! i) = ct_registries (control_of w i)" for i
    using assms(2)
    by (cases "i = c"; cases "c < length (w_controls w)"; simp add: list_update_beyond)+
  then show ?thesis using assms(1) by (simp add: steady_def update_control_def)
qed

lemma steady_registry:
  assumes "steady u w" and "\<And>g. rg_control (k g) = rg_control g \<and> (rg_files g = [] \<longrightarrow> rg_files (k g) = [])"
  shows "steady u (update_registry w r k)"
proof -
  have "rg_control ((w_registries w)[r := k (registry_of w r)] ! i) = rg_control (registry_of w i)
     \<and> (rg_files (registry_of w i) = [] \<longrightarrow> rg_files ((w_registries w)[r := k (registry_of w r)] ! i) = [])" for i
    using assms(2)
    by (cases "i = r"; cases "r < length (w_registries w)") (simp_all add: list_update_beyond)
  then show ?thesis using assms(1) by (simp add: steady_def update_registry_def)
qed

lemma steady_release: "steady u w \<Longrightarrow> steady u (pools_release_file w)"
  "steady u w \<Longrightarrow> steady u (control_release_file w oc)" "steady u w \<Longrightarrow> steady u (registry_release w r)"
proof -
  show release: "steady u (control_release_file w oc)" if "steady u w" for w oc
    using that by (auto simp: control_release_file_def intro: steady_control split: option.splits)
  show "steady u (pools_release_file w)" if "steady u w" using that by (simp add: pools_release_file_def)
  then show "steady u (registry_release w r)" if "steady u w"
    using that release by (simp add: registry_release_def)
qed

lemma steady_cleanup: "steady u w \<Longrightarrow> steady u (run_cleanup ops w j)"
  "steady u w \<Longrightarrow> steady u (cleanup_handle ops w h c)"
  by (simp_all add: run_cleanup_def cleanup_handle_def steady_release)

lemma steady_abandon: "steady u w \<Longrightarrow> steady u (registry_abandon ops w r h)"
  unfolding registry_abandon_def by (auto intro!: steady_cleanup steady_registry)

lemma steady_cleanup_all: "steady u w \<Longrightarrow> steady u (cleanup_all ops w hs c)"
  by (induction hs arbitrary: w) (simp_all add: steady_cleanup)

lemma steady_abandon_all: "steady u w \<Longrightarrow> steady u (registry_abandon_all ops w r)"
  unfolding registry_abandon_all_def by (intro steady_cleanup_all steady_registry) simp_all

lemma steady_reserve: "steady u w \<Longrightarrow> steady u (fst (registry_reserve w r))"
  by (auto simp: registry_reserve_def pools_acquire_file_def control_acquire_file_def
      intro!: steady_control steady_release split: option.splits)

lemma steady_dispatch: "steady u w \<Longrightarrow> steady u (fst (op w)) \<Longrightarrow> steady u (fst (dispatch w r fast cl op))"
  by (auto simp: dispatch_def split: prod.splits sum.splits fault.splits)

lemma steady_dispatch_path:
  "steady u w \<Longrightarrow> steady u (fst (op w)) \<Longrightarrow> steady u (fst (dispatch_path ops w f p op))"
  using steady_dispatch [of u w op] by (cases "check_path w f p") (simp_all add: dispatch_path_def)

lemma steady_on_vfs: "steady u w \<Longrightarrow> steady u (fst (on_vfs call w))"
  by (simp add: on_vfs_def split: prod.splits)

lemma steady_remove: "steady u w \<Longrightarrow> steady u (fst (registry_remove w r h))"
  by (auto simp: registry_remove_def intro!: steady_registry)

lemma steady_calls:
  "steady w (fst (fs_stat ops w f p))" "steady w (fst (fs_readdir ops w f p))" "steady w (fst (fs_mkdir ops w f p))"
  "steady w (fst (fs_rename ops w f p p'))" "steady w (fst (fs_unlink ops w f p))"
  "steady w (fst (fs_rmdir ops w f p))" "steady w (fst (fs_read_at ops w f h off n))"
  "steady w (fst (fs_write_at ops w f h off d))" "steady w (fst (fs_truncate ops w f h n))"
  "steady w (fst (open_start ops w f p m))" "steady w (fst (fs_finish ops w f h ab))"
proof -
  note steps = fst_attempt_keeps [where P = "steady w"] fst_and_then_keeps [where P = "steady w"]
    steady_dispatch steady_dispatch_path steady_on_vfs steady_reserve steady_release steady_remove
  show "steady w (fst (fs_stat ops w f p))" "steady w (fst (fs_readdir ops w f p))"
    "steady w (fst (fs_mkdir ops w f p))" "steady w (fst (fs_rename ops w f p p'))"
    "steady w (fst (fs_unlink ops w f p))" "steady w (fst (fs_rmdir ops w f p))"
    "steady w (fst (fs_read_at ops w f h off n))" "steady w (fst (fs_write_at ops w f h off d))"
    "steady w (fst (fs_truncate ops w f h n))"
    unfolding fs_quiet_defs Let_def by (auto intro!: steps split: option.split)
  show "steady w (fst (open_start ops w f p m))"
    unfolding open_start_def Let_def by (auto intro!: steps)
  have "steady w (fst (case on_vfs call v of (v', x) \<Rightarrow> (registry_release v' r, x)))"
    if "steady w v" for call v r
    using steady_on_vfs [OF that, of call] by (auto intro: steady_release split: prod.split)
  then show "steady w (fst (fs_finish ops w f h ab))"
    unfolding fs_finish_def Let_def by (auto intro!: steps)
qed

lemma update_registry_twice:
  "update_registry (update_registry w r a) r b = update_registry w r (\<lambda>g. b (a g))"
  by (cases "r < length (w_registries w)") (simp_all add: update_registry_def list_update_beyond)

lemma guarded_insert:
  assumes "guarded w" and "\<not> fs_cancelled w r"
  shows "guarded (update_registry w r (\<lambda>g. g\<lparr>rg_files := bm_insert h () (rg_files g)\<rparr>))"
  unfolding guarded_def
proof (intro allI impI)
  let ?w = "update_registry w r (\<lambda>g. g\<lparr>rg_files := bm_insert h () (rg_files g)\<rparr>)"
  fix i c assume "i < length (w_registries ?w)" and "rg_control (registry_of ?w i) = Some c"
  then have "i < length (w_registries w)" "rg_control (registry_of w i) = Some c"
    by (cases "i = r"; simp add: update_registry_def)+
  then show "if ct_cancelled (control_of ?w c) then rg_files (registry_of ?w i) = []
      else i \<in> set (ct_registries (control_of ?w c))"
    using assms unfolding guarded_def
    by (cases "i = r") (auto simp: update_registry_def fs_cancelled_def control_cancelled_def)
qed

lemma fs_cancelled_registry:
  "(\<And>g. rg_control (k g) = rg_control g) \<Longrightarrow> fs_cancelled (update_registry w r k) r = fs_cancelled w r"
  by (cases "r < length (w_registries w)")
    (simp_all add: fs_cancelled_def update_registry_def list_update_beyond split: option.split)

lemma guarded_opened:
  assumes "guarded w"
  shows "guarded (fst (open_finish ops w po))"
proof -
  obtain s x where out: "v_open ops (w_vfs w) (po_path po) (po_mode po) = (s, x)" by fastforce
  let ?r = "po_registry po"
  let ?w = "w\<lparr>w_pending := remove1 po (w_pending w), w_vfs := s\<rparr>"
  have st: "steady w ?w" by simp
  have g: "guarded ?w" by (rule steady_guarded [OF st assms])
  show ?thesis
  proof (cases x)
    case (Inl e)
    then have "steady w (fst (open_finish ops w po))"
      using out steady_release(3) [OF st]
      by (cases e) (simp_all add: open_finish_def on_vfs_def Let_def)
    then show ?thesis using assms by (rule steady_guarded)
  next
    case (Inr h)
    let ?w2 = "update_registry ?w ?r (\<lambda>g. g\<lparr>rg_files := bm_insert h () (rg_files g)\<rparr>)"
    let ?w3 = "update_registry ?w2 ?r (drop_handle h)"
    show ?thesis
    proof (cases "fs_cancelled ?w ?r")
      case True
      have "steady ?w ?w3"
        unfolding update_registry_twice by (rule steady_registry) simp_all
      then have "steady ?w (registry_release (?w3\<lparr>w_vfs := t\<rparr>) ?r)" for t
        by (intro steady_release(3)) simp
      then have rel: "guarded (registry_release (?w3\<lparr>w_vfs := t\<rparr>) ?r)" for t
        using g steady_guarded by blast
      have "guarded ?w2" if "bm_get (rg_files (registry_of ?w2 ?r)) h = None"
        using that steady_guarded [OF st assms]
        by (cases "?r < length (w_registries w)") (simp_all add: update_registry_def list_update_beyond)
      with True rel show ?thesis
        using out Inr
        by (simp add: open_finish_def on_vfs_def Let_def registry_remove_def fs_cancelled_registry)
    next
      case False
      then show ?thesis
        using out Inr guarded_insert [OF g False, of h]
        by (simp add: open_finish_def on_vfs_def Let_def fs_cancelled_registry)
    qed
  qed
qed

lemma abandon_all_empty:
  assumes "r < length (w_registries w)"
  shows "rg_files (registry_of (registry_abandon_all ops w r) r) = []"
proof -
  have "steady (update_registry w r clear_files) (registry_abandon_all ops w r)"
    unfolding registry_abandon_all_def by (rule steady_cleanup_all) simp
  then show ?thesis using assms by (simp add: steady_def) (simp add: update_registry_def)
qed

lemma abandon_registries:
  assumes "set ids \<subseteq> {..<length (w_registries w)}"
  shows "steady w (foldl (registry_abandon_all ops) w ids)
    \<and> (\<forall>r\<in>set ids. rg_files (registry_of (foldl (registry_abandon_all ops) w ids) r) = [])"
  using assms
proof (induction ids arbitrary: w)
  case (Cons r ids)
  let ?w = "registry_abandon_all ops w r"
  have st: "steady w ?w" by (rule steady_abandon_all) simp
  then have len: "length (w_registries ?w) = length (w_registries w)" by (simp add: steady_def)
  let ?v = "foldl (registry_abandon_all ops) ?w ids"
  have "set ids \<subseteq> {..<length (w_registries ?w)}" using Cons.prems len by simp
  then have v: "steady ?w ?v" "\<forall>r\<in>set ids. rg_files (registry_of ?v r) = []"
    using Cons.IH [of ?w] by simp_all
  have "rg_files (registry_of ?w r) = []" using Cons.prems by (intro abandon_all_empty) simp
  moreover have "r < length (w_registries ?w)" using Cons.prems len by simp
  ultimately have "rg_files (registry_of ?v r) = []" using v(1) unfolding steady_def by blast
  then show ?case using v steady_trans [OF st v(1)] by simp
qed simp

lemma cancel_holds_nothing:
  assumes "guarded w" and "wf_world w" and "c < length (w_controls w)"
  shows "guarded (control_cancel ops w c)" "ct_cancelled (control_of (control_cancel ops w c) c)"
    "length (w_controls (control_cancel ops w c)) = length (w_controls w)"
proof -
  let ?rs = "ct_registries (control_of w c)"
  let ?w = "update_control w c (\<lambda>k. k\<lparr>ct_cancelled := True, ct_registries := []\<rparr>)"
  obtain v where v: "v = foldl (registry_abandon_all ops) ?w ?rs" by simp
  have cancel: "control_cancel ops w c = v" by (simp add: control_cancel_def Let_def v)
  have "set ?rs \<subseteq> {..<length (w_registries ?w)}"
    using control_registries_bound [OF assms(2,3)] by simp
  from abandon_registries [OF this, of ops] have st: "steady ?w v"
    and empty: "\<And>r. r \<in> set ?rs \<Longrightarrow> rg_files (registry_of v r) = []" by (auto simp: v)
  have ctl: "control_of ?w c' = (if c' = c then (control_of w c)\<lparr>ct_cancelled := True, ct_registries := []\<rparr>
      else control_of w c')" for c'
    using assms(3) by (simp add: update_control_def)
  show "ct_cancelled (control_of (control_cancel ops w c) c)"
    "length (w_controls (control_cancel ops w c)) = length (w_controls w)"
    using st ctl [of c] unfolding cancel by (simp_all add: steady_def) (simp add: update_control_def)
  show "guarded (control_cancel ops w c)"
    unfolding cancel guarded_def
  proof (intro allI impI)
    fix r c' assume r: "r < length (w_registries v)" and rc: "rg_control (registry_of v r) = Some c'"
    have r': "r < length (w_registries w)" and rc': "rg_control (registry_of w r) = Some c'"
      and keep: "rg_files (registry_of w r) = [] \<Longrightarrow> rg_files (registry_of v r) = []"
      and ctl': "ct_cancelled (control_of v c') = ct_cancelled (control_of ?w c')"
        "ct_registries (control_of v c') = ct_registries (control_of ?w c')"
      using st r rc by (simp_all add: steady_def)
    show "if ct_cancelled (control_of v c') then rg_files (registry_of v r) = []
        else r \<in> set (ct_registries (control_of v c'))"
      using assms(1) r' rc' keep empty unfolding ctl' ctl guarded_def
      by (cases "c' = c") (fastforce split: if_splits)+
  qed
qed

lemma guarded_new:
  assumes "guarded w" and "wf_world w"
  shows "guarded (fst (control_new w l))" 
    and "\<And>oc. (\<And>c. oc = Some c \<Longrightarrow> c < length (w_controls w)) \<Longrightarrow> guarded (fst (fs_build w bin cwd l oc))"
proof -
  have bound: "c < length (w_controls w)"
    if "r < length (w_registries w)" "rg_control (registry_of w r) = Some c" for r c
    using assms(2) that nth_mem unfolding wf_world_def by blast
  show "guarded (fst (control_new w l))"
    using assms(1) bound by (auto simp: guarded_def control_new_def nth_append)
  fix oc assume oc: "\<And>c. oc = Some c \<Longrightarrow> c < length (w_controls w)"
  show "guarded (fst (fs_build w bin cwd l oc))"
  proof (cases oc)
    case None
    then show ?thesis
      using assms(1) by (auto simp: guarded_def fs_build_def Let_def nth_append less_Suc_eq split: if_splits)
  next
    case (Some c)
    then show ?thesis
      using assms(1) oc [OF Some]
      by (auto simp: guarded_def fs_build_def Let_def update_control_def nth_append nth_list_update less_Suc_eq
          split: if_splits)
  qed
qed

end
