(* ===== verification/Fs_Properties.thy ===== *)
theory Fs_Properties
  imports Fs_Steps Mem_Properties
begin

text \<open>
  What the facade promises in every reachable world: exact admission counters within their
  limits, and that a cancelled execution gives back everything it held. The in-memory
  filesystem provides the backend's laws.
\<close>

definition leaks_known :: "'s world \<Rightarrow> nat option multiset \<Rightarrow> bool" where
  "leaks_known w L \<longleftrightarrow> (\<forall>c. Some c \<in># L \<longrightarrow> c < length (w_controls w))"

lemma leaks_known_mono:
  "leaks_known w L \<Longrightarrow> length (w_controls w) \<le> length (w_controls w') \<Longrightarrow> leaks_known w' L"
  by (auto simp: leaks_known_def dest: order.strict_trans2)

text \<open>Controls are never dropped.\<close>

lemma steady_length: "steady w w' \<Longrightarrow> length (w_controls w') = length (w_controls w)"
  by (simp add: steady_def)

lemma registry_release_length: "length (w_controls (registry_release w r)) = length (w_controls w)"
  by (rule steady_length [OF steady_release(3)]) simp

lemma open_finish_length: "length (w_controls (fst (open_finish ops w po))) = length (w_controls w)"
  by (auto simp: open_finish_def on_vfs_def Let_def registry_remove_def registry_release_length
      split: prod.splits sum.splits fault.splits)

context handle_backend
begin

definition fs_inv :: "'s world \<Rightarrow> nat option multiset \<Rightarrow> bool" where
  "fs_inv w L \<longleftrightarrow> ok L w \<and> guarded w \<and> leaks_known w L"

lemma inv_steady: "fs_inv w L \<Longrightarrow> ok L w' \<Longrightarrow> steady w w' \<Longrightarrow> fs_inv w' L"
  using steady_guarded [of w w'] leaks_known_mono [of w L w'] steady_length [of w w'] by (simp add: fs_inv_def)

lemma inv_event:
  assumes "fs_inv w L" and "enabled w e"
  shows "fs_inv (fs_exec ops w e) (fs_leaks ops w e + L)"
proof -
  have ok: "ok L w" and g: "guarded w" and lk: "leaks_known w L" using assms(1) by (simp_all add: fs_inv_def)
  have wf: "wf_world w" by (rule adm_wf [OF ok])
  show ?thesis
  proof (cases e)
    case (EOpened po)
    have r: "po_registry po < length (w_registries w)" using wf assms(2) EOpened by (simp add: wf_world_def)
    have "leaks_known w (fs_leaks ops w e + L)"
      using lk adm_registry_control [OF ok r] EOpened by (auto simp: leaks_known_def)
    then show ?thesis
      using open_finish_ok [OF ok] assms(2) guarded_opened [OF g, of ops po] EOpened
        leaks_known_mono [of w _ "fst (open_finish ops w po)"] open_finish_length [of ops w po]
      by (simp add: fs_inv_def)
  next
    case (ECancel c)
    then show ?thesis
      using assms(2) cancel_ok [OF ok] cancel_holds_nothing [OF g wf]
        leaks_known_mono [OF lk, of "control_cancel ops w c"] by (simp add: fs_inv_def)
  next
    case (ENewControl l)
    have "Some (length (w_controls w)) \<notin># L" using lk by (auto simp: leaks_known_def)
    then show ?thesis
      using adm_new_control [OF ok] guarded_new(1) [OF g wf] leaks_known_mono [OF lk, of "fst (control_new w l)"] ENewControl
      by (simp add: fs_inv_def control_new_def)
  next
    case (ENewFs bin cwd l oc)
    then have oc: "\<And>c. oc = Some c \<Longrightarrow> c < length (w_controls w)" using assms(2) by simp
    have "length (w_controls (fst (fs_build w bin cwd l oc))) = length (w_controls w)"
      by (simp add: fs_build_def Let_def update_control_def split: option.split)
    then show ?thesis
      using adm_build [OF ok oc] guarded_new(2) [OF g wf oc]
        leaks_known_mono [OF lk, of "fst (fs_build w bin cwd l oc)"] ENewFs
      by (simp add: fs_inv_def)
  next
    case (EExpire c)
    have "ok L (fs_expire w c)"
      unfolding fs_expire_def using control_registries_bound [OF wf] assms(2) EExpire
      by (intro adm_control_frame [OF ok]) simp_all
    then show ?thesis
      using EExpire steady_control [of w w] by (auto simp: fs_expire_def intro!: inv_steady [OF assms(1)])
  next
    case (ECleanup j)
    have "steady w (run_cleanup ops (take_job w j) j)"
      by (rule steady_cleanup) (simp add: take_job_def)
    then show ?thesis
      using cleanup_job_ok [OF ok, of j] assms(2) ECleanup by (simp add: inv_steady [OF assms(1)])
  qed (use assms(2) in \<open>auto simp: facade_ok_def
      intro!: inv_steady [OF assms(1)] quiet_ok [OF ok] open_start_ok [OF ok] finish_ok [OF ok]
        registry_abandon_ok [OF ok] abandon_all_ok [OF ok] steady_calls steady_abandon steady_abandon_all\<close>)
qed

lemma world_inv: "fs_reach ops valid w L \<Longrightarrow> fs_inv w L"
proof (induction rule: fs_reach.induct)
  case (start s cap)
  then show ?case
    by (simp add: fs_inv_def adm_def world_new_def wf_world_def holds_def held_def counters_def claims_def
        pending_claims_def guarded_def leaks_known_def)
next
  case (event w L e)
  then show ?case using inv_event by blast
qed

lemma inv_cancelled_count:
  assumes "fs_inv w L" and "c < length (w_controls w)" and "ct_cancelled (control_of w c)"
    and "w_pending w = []" and "w_cleanup w = []"
  shows "ct_open_files (control_of w c) = count L (Some c)"
proof -
  have "Some c \<notin># image_mset snd (reg_held g)" if g: "g \<in> set (w_registries w)" for g
  proof -
    obtain r where r: "r < length (w_registries w)" "registry_of w r = g"
      using g unfolding in_set_conv_nth by blast
    show ?thesis
    proof (cases "rg_control g = Some c")
      case True
      then have "rg_files g = []" using assms(1,3) r by (auto simp: fs_inv_def guarded_def)
      then show ?thesis by (simp add: reg_held_def)
    qed (simp add: reg_held_parts)
  qed
  then have "count (image_mset snd (held w)) (Some c) = 0"
    using assms(5) by (fastforce simp: held_def not_in_iff [symmetric] simp del: image_mset_union)
  then have "count (claims w) (Some c) = 0"
    using assms(4) by (simp add: claims_def pending_claims_def)
  then show ?thesis using assms(1,2) by (simp add: fs_inv_def adm_def counters_def)
qed

end

subsection \<open>Settling\<close>

text \<open>The admitted opens finish, then the cleanup threads run the queued jobs.\<close>

fun finish_opens ::
  "'s vfs_ops \<Rightarrow> 's world \<times> nat option multiset \<Rightarrow> pending_open list \<Rightarrow> 's world \<times> nat option multiset" where
  "finish_opens ops y [] = y"
| "finish_opens ops y (po # ps) =
     finish_opens ops (fs_exec ops (fst y) (EOpened po), fs_leaks ops (fst y) (EOpened po) + snd y) ps"

fun run_jobs :: "'s vfs_ops \<Rightarrow> 's world \<Rightarrow> cleanup_job list \<Rightarrow> 's world" where
  "run_jobs ops w [] = w"
| "run_jobs ops w (j # js) = run_jobs ops (fs_exec ops w (ECleanup j)) js"

definition settle :: "'s vfs_ops \<Rightarrow> 's world \<Rightarrow> nat option multiset \<Rightarrow> 's world \<times> nat option multiset" where
  "settle ops w L =
     (case finish_opens ops (w, L) (w_pending w) of (w1, L1) \<Rightarrow> (run_jobs ops w1 (w_cleanup w1), L1))"

lemma open_finish_frame:
  "w_pending (fst (open_finish ops w po)) = remove1 po (w_pending w)"
  "ct_cancelled (control_of (fst (open_finish ops w po)) c) = ct_cancelled (control_of w c)"
proof -
  have rel: "w_pending (registry_release v r) = w_pending v"
    "ct_cancelled (control_of (registry_release v r) c) = ct_cancelled (control_of v c)" for v :: "'a world" and r
    using steady_release(3) [of v v r] by (simp_all add: registry_release_def steady_def)
  show "w_pending (fst (open_finish ops w po)) = remove1 po (w_pending w)"
    "ct_cancelled (control_of (fst (open_finish ops w po)) c) = ct_cancelled (control_of w c)"
    by (auto simp: open_finish_def on_vfs_def Let_def registry_remove_def rel
        split: prod.splits sum.splits fault.splits)
qed

lemma cleanup_job_frame:
  "w_pending (run_cleanup ops (take_job w j) j) = w_pending w"
  "w_cleanup (run_cleanup ops (take_job w j) j) = remove1 j (w_cleanup w)"
  "ct_cancelled (control_of (run_cleanup ops (take_job w j) j) c) = ct_cancelled (control_of w c)"
  "length (w_controls (run_cleanup ops (take_job w j) j)) = length (w_controls w)"
proof -
  show "w_pending (run_cleanup ops (take_job w j) j) = w_pending w"
    "w_cleanup (run_cleanup ops (take_job w j) j) = remove1 j (w_cleanup w)"
    by (simp_all add: run_cleanup_def take_job_def)
  have "steady w (run_cleanup ops (take_job w j) j)" by (rule steady_cleanup) (simp add: take_job_def)
  then show "ct_cancelled (control_of (run_cleanup ops (take_job w j) j) c) = ct_cancelled (control_of w c)"
    "length (w_controls (run_cleanup ops (take_job w j) j)) = length (w_controls w)"
    by (simp_all add: steady_def)
qed

lemma finish_opens_result:
  assumes "fs_reach ops valid (fst y) (snd y)" and "w_pending (fst y) = ps"
  shows "fs_reach ops valid (fst (finish_opens ops y ps)) (snd (finish_opens ops y ps))
    \<and> w_pending (fst (finish_opens ops y ps)) = []
    \<and> length (w_controls (fst (finish_opens ops y ps))) = length (w_controls (fst y))
    \<and> (\<forall>c. ct_cancelled (control_of (fst (finish_opens ops y ps)) c) = ct_cancelled (control_of (fst y) c))"
  using assms
proof (induction ps arbitrary: y)
  case (Cons po ps)
  let ?y = "(fs_exec ops (fst y) (EOpened po), fs_leaks ops (fst y) (EOpened po) + snd y)"
  have "enabled (fst y) (EOpened po)" using Cons.prems(2) by simp
  then have reach: "fs_reach ops valid (fst ?y) (snd ?y)"
    using fs_reach.event [OF Cons.prems(1)] by (simp del: fs_exec.simps fs_leaks.simps)
  show ?case
    using Cons.IH [OF reach] Cons.prems(2)
    by (simp add: open_finish_frame open_finish_length del: fs_leaks.simps)
qed simp

lemma run_jobs_result:
  assumes "fs_reach ops valid w L" and "w_cleanup w = js"
  shows "fs_reach ops valid (run_jobs ops w js) L \<and> w_pending (run_jobs ops w js) = w_pending w
    \<and> w_cleanup (run_jobs ops w js) = []
    \<and> length (w_controls (run_jobs ops w js)) = length (w_controls w)
    \<and> (\<forall>c. ct_cancelled (control_of (run_jobs ops w js) c) = ct_cancelled (control_of w c))"
  using assms
proof (induction js arbitrary: w)
  case (Cons j js)
  have "enabled w (ECleanup j)" using Cons.prems(2) by simp
  then have "fs_reach ops valid (run_cleanup ops (take_job w j) j) L"
    using fs_reach.event [OF Cons.prems(1), of "ECleanup j"] by simp
  from Cons.IH [OF this] show ?case using Cons.prems(2) by (simp add: cleanup_job_frame)
qed simp

lemma settle_result:
  assumes "fs_reach ops valid w L" and "settle ops w L = (w', L')"
  shows "fs_reach ops valid w' L'" "w_pending w' = []" "w_cleanup w' = []"
    "length (w_controls w') = length (w_controls w)"
    "ct_cancelled (control_of w' c) = ct_cancelled (control_of w c)"
proof -
  obtain w1 L1 where f: "finish_opens ops (w, L) (w_pending w) = (w1, L1)" by fastforce
  then have w': "w' = run_jobs ops w1 (w_cleanup w1)" "L' = L1" using assms(2) by (simp_all add: settle_def)
  have r1: "fs_reach ops valid w1 L1" "w_pending w1 = []" "length (w_controls w1) = length (w_controls w)"
    "\<And>c. ct_cancelled (control_of w1 c) = ct_cancelled (control_of w c)"
    using finish_opens_result [of ops valid "(w, L)"] assms(1) f by simp_all
  show "fs_reach ops valid w' L'" "w_pending w' = []" "w_cleanup w' = []"
    "length (w_controls w') = length (w_controls w)"
    "ct_cancelled (control_of w' c) = ct_cancelled (control_of w c)"
    using run_jobs_result [OF r1(1) refl] r1 by (simp_all add: w')
qed

context handle_backend
begin

lemma cancelled_returns_all:
  assumes "fs_reach ops valid w L" and "c < length (w_controls w)"
    and "settle ops (control_cancel ops w c) L = (w', L')"
  shows "fs_reach ops valid w' L'" "ct_open_files (control_of w' c) = count L' (Some c)"
proof -
  have inv: "guarded w" "wf_world w" using world_inv [OF assms(1)] adm_wf by (auto simp: fs_inv_def)
  have reach: "fs_reach ops valid (control_cancel ops w c) L"
    using fs_reach.event [OF assms(1), of "ECancel c"] assms(2) by simp
  note fin = settle_result [OF reach assms(3)]
  show "fs_reach ops valid w' L'" by (rule fin)
  show "ct_open_files (control_of w' c) = count L' (Some c)"
    using inv_cancelled_count [OF world_inv [OF fin(1)]] fin(2-5) assms(2)
      cancel_holds_nothing [OF inv assms(2)] by simp
qed

end

subsection \<open>The in-memory filesystem provides the laws\<close>

definition same_handles :: "mem_state \<Rightarrow> mem_state \<Rightarrow> bool" where
  "same_handles s t \<longleftrightarrow> handles t = handles s"

lemma same_handles_upd [simp]:
  "same_handles s (t\<lparr>root := r\<rparr>) = same_handles s t" "same_handles s (t\<lparr>files := fs\<rparr>) = same_handles s t"
  "same_handles s (t\<lparr>next_inode := n\<rparr>) = same_handles s t" "same_handles s (t\<lparr>used_bytes := u\<rparr>) = same_handles s t"
  "same_handles s (t\<lparr>file_count := n\<rparr>) = same_handles s t" "same_handles s s"
  by (simp_all add: same_handles_def)

lemmas keep_handles = fst_attempt [where P = "same_handles s" for s] fst_and_then [where P = "same_handles s" for s]

lemma same_handles_release: "same_handles s t \<Longrightarrow> same_handles s (fst (release_file_if_unreferenced t i))"
  unfolding release_file_if_unreferenced_def Let_def by (auto intro!: keep_handles split: option.split)

lemma same_handles_remove:
  "same_handles s t \<Longrightarrow> same_handles s (fst (remove_tree t n))"
  "same_handles s t \<Longrightarrow> same_handles s (fst (remove_children t es))"
proof (induction t n and t es rule: remove_tree_remove_children.induct)
  case (1 t i)
  then show ?case by (auto intro!: keep_handles same_handles_release)
next
  case (2 t es)
  then show ?case by (auto intro!: keep_handles)
next
  case (4 t e es)
  then show ?case by (cases "remove_tree t (snd e)"; cases "snd (remove_tree t (snd e))") auto
qed simp

lemma same_handles_resize: "same_handles s t \<Longrightarrow> same_handles s (fst (resize_file q t i n))"
  unfolding resize_file_def by (auto intro!: keep_handles)

lemma same_handles_calls:
  "same_handles s (fst (mem_mkdir q s p))" "same_handles s (fst (mem_rename s p p'))"
  "same_handles s (fst (mem_unlink s p))" "same_handles s (fst (mem_rmdir s p))"
  "same_handles s (fst (mem_write_at q s h off d))" "same_handles s (fst (mem_truncate q s h n))"
  unfolding mem_mkdir_def mem_rename_def mem_unlink_def mem_rmdir_def mem_write_at_def mem_truncate_def Let_def
  by (auto intro!: keep_handles same_handles_remove same_handles_resize
      split: option.split node.split simp del: remove_tree.simps)

lemma same_handles_open: "same_handles s (fst (open_inode q s path m))"
  unfolding open_inode_def Let_def
  by (auto intro!: keep_handles same_handles_resize split: sum.split node.split)

lemma mem_close_handles: "handles (fst (mem_close s h)) = bm_remove h (handles s)"
proof -
  let ?s = "s\<lparr>handles := bm_remove h (handles s)\<rparr>"
  have "same_handles ?s (fst (mem_close s h))"
  proof (cases "bm_get (handles s) h")
    case None
    then show ?thesis by (simp add: mem_close_def same_handles_def bm_remove_absent)
  next
    case (Some d)
    then show ?thesis
      by (auto simp: mem_close_def Let_def
          intro!: fst_attempt [where P = "same_handles ?s"] same_handles_release)
  qed
  then show ?thesis by (simp add: same_handles_def)
qed

text \<open>Every outcome of \<open>open\<close> leaves a valid state; only success adds a handle, a new one.\<close>

lemma mint_outcome:
  assumes inv: "mem_inv q t" and f: "bm_get (files t) i = Some f"
  obtains (minted) "mint_handle t i m = (mint_state t i f m, Ok (next_handle t))"
      "mem_inv q (mint_state t i f m)" "bm_get (handles t) (next_handle t) = None"
  | (exhausted) "mint_handle t i m = (t, Inl Panic)"
proof (cases "next_handle t < u64_max")
  case True
  show thesis
    by (rule minted [OF mint_handle_eq [OF inv f True] inv_mint [OF inv f]
          handle_fresh [OF inv [unfolded mem_inv_def]]])
next
  case False
  then show thesis using exhausted by (simp add: mint_handle_def uadd_def Let_def)
qed

definition mem_opened :: "mem_state \<Rightarrow> file_handle set" where
  "mem_opened s = dom (map_of (handles s))"

definition open_good :: "vfs_quota \<Rightarrow> mem_state \<Rightarrow> mem_state \<times> file_handle vres \<Rightarrow> bool" where
  "open_good q s out \<longleftrightarrow> mem_inv q (fst out)
     \<and> (case snd out of Inl e \<Rightarrow> mem_opened (fst out) = mem_opened s
        | Inr h \<Rightarrow> h \<notin> mem_opened s \<and> mem_opened (fst out) = insert h (mem_opened s))"

lemma open_good_mint:
  assumes "mem_inv q t" and "bm_get (files t) i = Some f" and "handles t = handles s"
  shows "open_good q s (mint_handle t i m)"
  using assms(1,2)
proof (cases rule: mint_outcome [where m = m])
  case minted
  have wf: "bm_wf (handles t)" using inv_handles_wf assms(1) [unfolded mem_inv_def] by blast
  show ?thesis
    using minted assms(3) wf by (auto simp: open_good_def mem_opened_def mint_state_def)
next
  case exhausted
  then show ?thesis using assms by (simp add: open_good_def mem_opened_def)
qed

lemma open_good_open:
  assumes inv: "mem_inv q s" and q: "quota_ok q"
  shows "open_good q s (mem_open q s p m)"
proof -
  have same: "open_good q s (s, Inl e)" for e using inv by (simp add: open_good_def)
  have "open_good q s (and_then (open_inode q s path m) (\<lambda>s1 i. mint_handle s1 i m))"
    if "valid_components path" for path
  proof -
    have h: "handles (fst (open_inode q s path m)) = handles s"
      using same_handles_open [of s q path m] by (simp add: same_handles_def)
    from inv q that show ?thesis
    proof (cases rule: open_inode_cases [where mode = m])
      case (existing i f)
      then show ?thesis using open_good_mint [OF inv existing(2)] by simp
    next
      case (truncated i f)
      then show ?thesis using open_good_mint [OF truncated(6), of i "f\<lparr>fn_data := []\<rparr>"] by simp
    next
      case (created es t)
      then show ?thesis
        using open_good_mint [OF created(7), of "next_inode s" "file_node_default\<lparr>fn_links := 1\<rparr>"] h by simp
    qed (simp_all add: same)
  qed
  then show ?thesis
    using normalize_path_valid same
    by (auto simp: mem_open_def attempt_def split: sum.split)
qed

lemma op_ok_valid: "mem_inv q s \<Longrightarrow> op_ok q s out \<Longrightarrow> mem_inv q (fst out)"
  by (cases out) (auto simp: op_ok_def split: sum.splits fault.splits)

interpretation mem_files: handle_backend "mem_ops q" "mem_valid q" mem_opened for q
proof unfold_locales
  fix s :: mem_state
  assume "mem_valid q s"
  then have v: "quota_safe q" "mem_inv q s" "quota_ok q" "max_file_size q \<le> isize_max"
    by (auto simp: mem_valid_def quota_safe_def)
  note okv = op_ok_valid [OF v(2)]
  note same = same_handles_calls [unfolded same_handles_def]
  show "quiet (mem_valid q) mem_opened s (v_stat (mem_ops q) s p)"
    "quiet (mem_valid q) mem_opened s (v_readdir (mem_ops q) s p)"
    "quiet (mem_valid q) mem_opened s (v_read_at (mem_ops q) s h off n)" for p h off n
    using v by (simp_all add: quiet_def mem_ops_def mem_valid_def)
  show "quiet (mem_valid q) mem_opened s (v_mkdir (mem_ops q) s p)"
    "quiet (mem_valid q) mem_opened s (v_rename (mem_ops q) s p p')"
    "quiet (mem_valid q) mem_opened s (v_unlink (mem_ops q) s p)"
    "quiet (mem_valid q) mem_opened s (v_rmdir (mem_ops q) s p)"
    "quiet (mem_valid q) mem_opened s (v_write_at (mem_ops q) s h off d)"
    "quiet (mem_valid q) mem_opened s (v_truncate (mem_ops q) s h n)" for p p' h off d n
    using v okv [OF mkdir_op_ok [OF v(2,3)]] okv [OF rename_op_ok [OF v(2)]] okv [OF unlink_op_ok [OF v(2)]]
      okv [OF rmdir_op_ok [OF v(2)]] okv [OF write_at_op_ok [OF v(2,3,4)]]
      okv [OF truncate_op_ok [OF v(2,3) size_safeI [OF v(4)]]]
    by (simp_all add: quiet_def mem_ops_def mem_valid_def mem_opened_def same)
  note open_ok = open_good_open [OF v(2,3)]
  show "mem_valid q (fst (v_open (mem_ops q) s p m))" for p m
    using open_ok [of p m] v by (simp add: open_good_def mem_ops_def mem_valid_def)
  show "h \<notin> mem_opened s \<and> mem_opened s' = insert h (mem_opened s)"
    if "v_open (mem_ops q) s p m = (s', Ok h)" for p m s' h
    using open_ok [of p m] that by (simp add: open_good_def mem_ops_def)
  show "mem_opened s' = mem_opened s" if "v_open (mem_ops q) s p m = (s', Inl e)" for p m s' e
    using open_ok [of p m] that by (simp add: open_good_def mem_ops_def)
  have "bm_wf (handles s)" using inv_handles_wf v(2) [unfolded mem_inv_def] by blast
  then have "mem_valid q (fst (mem_close s h)) \<and> mem_opened (fst (mem_close s h)) = mem_opened s - {h}" for h
    using v okv [OF close_op_ok [OF v(2)]] by (auto simp: mem_valid_def mem_opened_def mem_close_handles)
  then show "mem_valid q (fst (v_close (mem_ops q) s h)) \<and> mem_opened (fst (v_close (mem_ops q) s h)) = mem_opened s - {h}"
    "mem_valid q (fst (v_abort (mem_ops q) s h)) \<and> mem_opened (fst (v_abort (mem_ops q) s h)) = mem_opened s - {h}" for h
    by (simp_all add: mem_ops_def)
qed

subsection \<open>Properties\<close>

text \<open>
  A run for the concrete instances: one execution with a facade opens a file, and is asked for
  another one it does not get to finish.
\<close>

definition demo_cap :: pool_capacity where
  "demo_cap = pools_capacity pool_capacity_default"

definition demo_facade :: fs_facade where
  "demo_facade = \<lparr>fs_bin_commands = [], fs_cwd = rs ''/'', fs_limits = limits_default, fs_handles = 0\<rparr>"

definition demo_pending :: pending_open where
  "demo_pending = \<lparr>po_registry = 0, po_path = rs ''/a'', po_mode = om_set_create om_read_write, po_fast = True\<rparr>"

definition demo_open_world :: "mem_state world" where
  "demo_open_world =
     foldl (fs_exec (mem_ops demo_quota)) (world_new state_default demo_cap)
       [ENewControl limits_default, ENewFs [] (rs ''/'') limits_default (Some 0),
        EOpen demo_facade (rs ''a'') (om_set_create om_read_write), EOpened demo_pending,
        EOpen demo_facade (rs ''a'') (om_set_create om_read_write)]"

lemmas fs_eval = world_new_def control_new_def fs_build_def open_start_def open_finish_def dispatch_path_def
  dispatch_def check_path_def fs_check_def fs_cancelled_def control_cancelled_def registry_reserve_def
  pools_acquire_file_def control_acquire_file_def update_control_def update_registry_def on_vfs_def
  fs_resolve_def normalize_absolute_def starts_with_def is_bin_path_def limits_default_def demo_cap_def
  pools_capacity_def pool_capacity_default_def demo_facade_def demo_pending_def mem_ops_def

lemma demo_open_world_eq:
  "demo_open_world = \<lparr>w_vfs = \<lparr>root = Directory [(rs ''a'', File 1)],
       files = [(1, \<lparr>fn_data = [], fn_links = 1, fn_open = 1\<rparr>)], next_inode = 2, next_handle = 2,
       handles = [(1, \<lparr>h_inode = 1, h_readable = True, h_writable = True, h_append = False\<rparr>)],
       used_bytes = 0, file_count = 1\<rparr>, w_capacity = demo_cap, w_open_files = 2,
     w_controls = [\<lparr>ct_limits = limits_default, ct_cancelled = False, ct_expired = False,
       ct_open_files = 2, ct_registries = [0]\<rparr>],
     w_registries = [\<lparr>rg_files = [(1, ())], rg_control = Some 0\<rparr>],
     w_pending = [demo_pending], w_cleanup = []\<rparr>"
  by (simp add: demo_open_world_def fs_eval demo_quota_def mem_eval)

fun leakless :: "'s vfs_ops \<Rightarrow> 's world \<Rightarrow> fs_event list \<Rightarrow> bool" where
  "leakless ops w [] = True"
| "leakless ops w (e # es) = (enabled w e \<and> fs_leaks ops w e = {#} \<and> leakless ops (fs_exec ops w e) es)"

lemma reach_run: "fs_reach ops valid w L \<Longrightarrow> leakless ops w es \<Longrightarrow> fs_reach ops valid (foldl (fs_exec ops) w es) L"
proof (induction es arbitrary: w)
  case (Cons e es)
  then show ?case using fs_reach.event [OF Cons.prems(1), of e] by simp
qed simp

lemma demo_reach_world: "fs_reach (mem_ops demo_quota) (mem_valid demo_quota) demo_open_world {#}"
  unfolding demo_open_world_def
proof (rule reach_run)
  have "mem_valid demo_quota state_default" by (simp add: mem_valid_def demo_quota_safe mem_inv_init)
  then show "fs_reach (mem_ops demo_quota) (mem_valid demo_quota) (world_new state_default demo_cap) {#}"
    by (rule fs_reach.start)
qed (simp add: fs_eval facade_ok_def demo_quota_def mem_eval)

text \<open>
  C27. Whatever calls, completions, cancellations and cleanup jobs have run in whatever order, the
  pool counter and the counter of every execution equal the files really held, admitted or lost
  to a panicking open, they stay within their limits, and no open handle has two owners.
\<close>

theorem admission_exact:
  assumes "fs_reach (mem_ops q) (mem_valid q) w L"
  shows "w_open_files w = size (claims w + L) \<and> w_open_files w \<le> pc_open_files (w_capacity w)
    \<and> (\<forall>c<length (w_controls w). ct_open_files (control_of w c) = count (claims w + L) (Some c)
        \<and> ct_open_files (control_of w c) \<le> max_open_files (ct_limits (control_of w c)))
    \<and> (\<forall>h. count (holds w) h \<le> 1)
    \<and> (\<forall>h. h \<in># holds w \<longrightarrow> bm_get (handles (w_vfs w)) h \<noteq> None)"
  using mem_files.world_inv [OF assms]
  by (auto simp: mem_files.fs_inv_def adm_def counters_def mem_opened_def)

theorem admission_exact_witness:
  "w_open_files demo_open_world = size (claims demo_open_world) \<and> w_open_files demo_open_world = 2"
  using admission_exact [OF demo_reach_world] by (simp add: demo_open_world_eq)

text \<open>
  C28. A cancelled execution gives back every file: once its admitted opens have finished and the
  cleanup jobs have run, its counter is the number of its opens that panicked in the backend.
\<close>

theorem cancelled_execution_drains:
  assumes "fs_reach (mem_ops q) (mem_valid q) w L" and "c < length (w_controls w)"
    and "settle (mem_ops q) (control_cancel (mem_ops q) w c) L = (w', L')"
  shows "fs_reach (mem_ops q) (mem_valid q) w' L' \<and> w_pending w' = [] \<and> w_cleanup w' = []
    \<and> ct_open_files (control_of w' c) = count L' (Some c)"
proof -
  have "fs_reach (mem_ops q) (mem_valid q) (control_cancel (mem_ops q) w c) L"
    using fs_reach.event [OF assms(1), of "ECancel c"] assms(2) by simp
  from settle_result [OF this assms(3)] show ?thesis
    using mem_files.cancelled_returns_all [OF assms] by simp
qed

theorem cancelled_execution_drains_witness:
  "ct_open_files (control_of demo_open_world 0) = 2
   \<and> (\<exists>w'. settle (mem_ops demo_quota) (control_cancel (mem_ops demo_quota) demo_open_world 0) {#} = (w', {#})
      \<and> ct_open_files (control_of w' 0) = 0)"
proof -
  obtain w' L' where out: "settle (mem_ops demo_quota) (control_cancel (mem_ops demo_quota) demo_open_world 0) {#} = (w', L')"
    by fastforce
  then have "L' = {#}"
    by (simp add: settle_def demo_open_world_eq control_cancel_def registry_abandon_all_def cleanup_handle_def
        run_cleanup_def control_release_file_def pools_release_file_def registry_release_def registry_remove_def
        fetch_sub1_def fs_eval demo_quota_def mem_eval)
  then show ?thesis
    using cancelled_execution_drains [OF demo_reach_world _ out] out by (simp add: demo_open_world_eq)
qed

end
