(* ===== verification/Exec_Io.thy ===== *)
theory Exec_Io
  imports Sandbox_Fs Capture Expansion
begin

text \<open>
  The byte streams of an execution (\<open>src/sandbox/mod.rs\<close>): the captured output, the bounded pipes
  between the stages of a pipeline and the files that redirects write, with the shared state
  all of them act on. A pipe is tokio's \<open>duplex\<close> stream under the counting writer; a redirect
  file is one open description that duplicated descriptors share.
\<close>

datatype io_error = BrokenPipe | VfsFault errno

datatype 'a poll = Pending | Ready 'a

datatype capture_fd = CaptureStdout | CaptureStderr

datatype output_destination = CaptureTo capture_fd | FileTo nat

record pipe =
  pp_buffer :: "byte list"
  pp_bytes :: nat
  pp_broken :: bool
  pp_reader :: bool
  pp_writer :: bool

text \<open>
  The state of a \<open>RedirectFile\<close>. \<open>rf_task\<close> is what the spawned writer still has to write; while
  it is not empty the writer holds the lock.
\<close>

record redirect_file =
  rf_path :: rstr
  rf_fs :: fs_facade
  rf_handle :: "file_handle option"
  rf_offset :: nat
  rf_error :: "errno option"
  rf_task :: "byte list"

record 's io =
  io_world :: "'s world"
  io_stdout :: capped_output
  io_stderr :: capped_output
  io_pipes :: "pipe list"
  io_files :: "redirect_file list"

datatype writer = CaptureWriter capture_fd | PipeWriter nat | RedirectWriter nat

datatype reader = EmptyReader | PipeReader nat | FileReader stream_reader

abbreviation file_of :: "'s io \<Rightarrow> nat \<Rightarrow> redirect_file" where
  "file_of s i \<equiv> io_files s ! i"

abbreviation pipe_of :: "'s io \<Rightarrow> nat \<Rightarrow> pipe" where
  "pipe_of s i \<equiv> io_pipes s ! i"

definition set_file :: "'s io \<Rightarrow> nat \<Rightarrow> redirect_file \<Rightarrow> 's io" where
  "set_file s i f = s\<lparr>io_files := (io_files s)[i := f]\<rparr>"

definition set_pipe :: "'s io \<Rightarrow> nat \<Rightarrow> pipe \<Rightarrow> 's io" where
  "set_pipe s i p = s\<lparr>io_pipes := (io_pipes s)[i := p]\<rparr>"

subsection \<open>Pipes\<close>

definition pipe_capacity_bytes :: nat where
  "pipe_capacity_bytes = stream_chunk_bytes"

definition pipe_new :: pipe where
  "pipe_new = \<lparr>pp_buffer = [], pp_bytes = 0, pp_broken = False, pp_reader = True, pp_writer = True\<rparr>"

text \<open>\<open>SharedCountingPipeWriter::poll_write\<close>: accepted bytes are counted, a broken pipe is remembered.\<close>

definition pipe_write :: "pipe \<Rightarrow> byte list \<Rightarrow> pipe \<times> (io_error, nat) outcome poll" where
  "pipe_write p data =
     (if \<not> pp_reader p then (p\<lparr>pp_broken := True\<rparr>, Ready (Err BrokenPipe))
      else let avail = pipe_capacity_bytes - length (pp_buffer p); n = min (length data) avail in
        if avail = 0 then (p, Pending)
        else (p\<lparr>pp_buffer := pp_buffer p @ take n data, pp_bytes := pp_bytes p + n\<rparr>, Ready (Ok n)))"

definition pipe_read :: "pipe \<Rightarrow> nat \<Rightarrow> pipe \<times> byte list poll" where
  "pipe_read p n =
     (if pp_buffer p = [] \<and> pp_writer p then (p, Pending)
      else (p\<lparr>pp_buffer := drop n (pp_buffer p)\<rparr>, Ready (take n (pp_buffer p))))"

subsection \<open>Redirect files\<close>

text \<open>\<open>RedirectWriter::poll_write\<close>: at most one chunk is accepted and handed to the writer task.\<close>

definition redirect_write :: "redirect_file \<Rightarrow> byte list \<Rightarrow> redirect_file \<times> (io_error, nat) outcome poll" where
  "redirect_write f data =
     (if rf_task f \<noteq> [] then (f, Pending)
      else case rf_error f of
        Some e \<Rightarrow> (f, Ready (Err (VfsFault e)))
      | None \<Rightarrow>
          (case rf_handle f of
             None \<Rightarrow> (f, Ready (Err (VfsFault EBADF)))
           | Some h \<Rightarrow>
               let n = min (length data) stream_chunk_bytes in
               if n = 0 then (f, Ready (Ok 0))
               else (f\<lparr>rf_task := take n data\<rparr>, Ready (Ok n))))"

text \<open>One turn of the writer task's loop.\<close>

definition redirect_step :: "'s vfs_ops \<Rightarrow> 's io \<Rightarrow> nat \<Rightarrow> 's io" where
  "redirect_step ops s i =
     (let f = file_of s i in
      case rf_handle f of
        None \<Rightarrow> set_file s i (f\<lparr>rf_task := []\<rparr>)
      | Some h \<Rightarrow>
          if rf_task f = [] then s
          else
            (case fs_write_at ops (io_world s) (rf_fs f) h (rf_offset f) (rf_task f) of
               (w, Inl e) \<Rightarrow>
                 set_file (s\<lparr>io_world := w\<rparr>) i
                   (f\<lparr>rf_task := [], rf_error := Some (case e of Errno e \<Rightarrow> e | Panic \<Rightarrow> EIO)\<rparr>)
             | (w, Inr n) \<Rightarrow>
                 set_file (s\<lparr>io_world := w\<rparr>) i
                   (if n = 0 then f\<lparr>rf_task := [], rf_error := Some ENOSPC\<rparr>
                    else
                      let g = f\<lparr>rf_offset := saturating_add (rf_offset f) n\<rparr> in
                      if \<not> is_ok (fs_check w (fs_handles (rf_fs f)))
                      then g\<lparr>rf_task := [], rf_error := Some EIO\<rparr>
                      else g\<lparr>rf_task := drop n (rf_task f)\<rparr>)))"

lemma redirect_step_shorter:
  assumes "i < length (io_files s)" and "rf_task (file_of s i) \<noteq> []"
  shows "length (rf_task (file_of (redirect_step ops s i) i)) < length (rf_task (file_of s i))"
  using assms
  by (auto simp: redirect_step_def set_file_def Let_def split: option.split prod.split sum.split)

text \<open>Waiting for the lock: the writer task runs to its end.\<close>

function redirect_drain :: "'s vfs_ops \<Rightarrow> 's io \<Rightarrow> nat \<Rightarrow> 's io" where
  "redirect_drain ops s i =
     (if i < length (io_files s) \<and> rf_task (file_of s i) \<noteq> []
      then redirect_drain ops (redirect_step ops s i) i else s)"
  by pat_completeness auto

termination
  by (relation "measure (\<lambda>(ops, s, i). length (rf_task (file_of s i)))") (auto simp: redirect_step_shorter)

declare redirect_drain.simps [simp del]

text \<open>\<open>RedirectFile::finish\<close>.\<close>

definition redirect_finish :: "'s vfs_ops \<Rightarrow> 's io \<Rightarrow> nat \<Rightarrow> 's io \<times> (rstr \<times> errno, unit) outcome" where
  "redirect_finish ops s0 i =
     (let s = redirect_drain ops s0 i; f = file_of s i in
      case rf_handle f of
        None \<Rightarrow> (s, case rf_error f of None \<Rightarrow> Ok () | Some e \<Rightarrow> Err (rf_path f, e))
      | Some h \<Rightarrow>
          (case fs_finish ops (io_world s) (rf_fs f) h
                  (rf_error f \<noteq> None \<or> fs_cancelled (io_world s) (fs_handles (rf_fs f))) of
             (w, Inl Panic) \<Rightarrow> (set_file (s\<lparr>io_world := w\<rparr>) i (f\<lparr>rf_handle := None\<rparr>), Inl Panic)
           | (w, r) \<Rightarrow>
               let err = (case rf_error f of Some e \<Rightarrow> Some e
                          | None \<Rightarrow> (case r of Inl (Errno e) \<Rightarrow> Some e | _ \<Rightarrow> None)) in
               (set_file (s\<lparr>io_world := w\<rparr>) i (f\<lparr>rf_handle := None, rf_error := err\<rparr>),
                case err of None \<Rightarrow> Ok () | Some e \<Rightarrow> Err (rf_path f, e))))"

subsection \<open>Writers\<close>

definition capture_append :: "'s io \<Rightarrow> capture_fd \<Rightarrow> byte list \<Rightarrow> 's io" where
  "capture_append s fd data =
     (case fd of
        CaptureStdout \<Rightarrow> s\<lparr>io_stdout := capped_write (io_stdout s) data\<rparr>
      | CaptureStderr \<Rightarrow> s\<lparr>io_stderr := capped_write (io_stderr s) data\<rparr>)"

definition poll_write :: "'s io \<Rightarrow> writer \<Rightarrow> byte list \<Rightarrow> 's io \<times> (io_error, nat) outcome poll" where
  "poll_write s wr data =
     (case wr of
        CaptureWriter fd \<Rightarrow> (capture_append s fd data, Ready (Ok (length data)))
      | PipeWriter i \<Rightarrow> (case pipe_write (pipe_of s i) data of (p, r) \<Rightarrow> (set_pipe s i p, r))
      | RedirectWriter i \<Rightarrow> (case redirect_write (file_of s i) data of (f, r) \<Rightarrow> (set_file s i f, r)))"

end
