(* ===== verification/Exec_Session.thy ===== *)
theory Exec_Session
  imports Exec_Io Shell_Parse
begin

text \<open>
  The shell session and the builtins the shell interprets itself, \<open>cd\<close>, \<open>export\<close> and \<open>unset\<close>
  (\<open>run_shell_builtin_stage\<close> of \<open>src/sandbox/mod.rs\<close>).
\<close>

record session =
  se_cwd :: rstr
  se_env :: env
  se_last_status :: int

datatype shell_builtin = Cd | Export | Unset

fun builtin_name :: "shell_builtin \<Rightarrow> rstr" where
  "builtin_name Cd = rs ''cd''"
| "builtin_name Export = rs ''export''"
| "builtin_name Unset = rs ''unset''"

text \<open>\<open>ShellBuiltinContext\<close>: what a builtin reads and changes.\<close>

record 's builtin_context =
  bc_world :: "'s world"
  bc_session :: session
  bc_env :: env
  bc_stdout :: "byte list"
  bc_stderr :: "byte list"

abbreviation newline :: rstr where
  "newline \<equiv> [10]"

definition say_err :: "'s builtin_context \<Rightarrow> rstr \<Rightarrow> 's builtin_context" where
  "say_err x t = x\<lparr>bc_stderr := bc_stderr x @ utf8 (t @ newline)\<rparr>"

definition say_out :: "'s builtin_context \<Rightarrow> rstr \<Rightarrow> 's builtin_context" where
  "say_out x t = x\<lparr>bc_stdout := bc_stdout x @ utf8 (t @ newline)\<rparr>"

definition session_env :: "'s builtin_context \<Rightarrow> env \<Rightarrow> 's builtin_context" where
  "session_env x e = x\<lparr>bc_session := (bc_session x)\<lparr>se_env := e\<rparr>\<rparr>"

definition run_cd ::
  "'s vfs_ops \<Rightarrow> fs_facade \<Rightarrow> rstr list \<Rightarrow> 's builtin_context \<Rightarrow> 's builtin_context \<times> (unit, int) outcome" where
  "run_cd ops f args x =
     (if 1 < length args then (say_err x (rs ''cd: too many arguments''), Ok 1)
      else
        case (case args of t # _ \<Rightarrow> Some t | [] \<Rightarrow> bm_get (se_env (bc_session x)) (rs ''HOME'')) of
          None \<Rightarrow> (say_err x (rs ''cd: HOME not set''), Ok 1)
        | Some target \<Rightarrow>
            let path = fs_resolve f target in
            (case fs_stat ops (bc_world x) f path of
               (w, Inr md) \<Rightarrow>
                 let y = x\<lparr>bc_world := w\<rparr>; old = se_cwd (bc_session x) in
                 if md_type md = DirectoryFile then
                   (y\<lparr>bc_session := (bc_session y)\<lparr>se_cwd := path,
                        se_env := bm_insert (rs ''PWD'') path (bm_insert (rs ''OLDPWD'') old (se_env (bc_session y)))\<rparr>,
                      bc_env := bm_insert (rs ''PWD'') path (bm_insert (rs ''OLDPWD'') old (bc_env y))\<rparr>, Ok 0)
                 else (say_err y (rs ''cd: '' @ target @ rs '': Not a directory''), Ok 1)
             | (w, Inl (Errno e)) \<Rightarrow>
                 (say_err (x\<lparr>bc_world := w\<rparr>) (rs ''cd: '' @ target @ rs '': '' @ errno_message e), Ok 1)
             | (w, Inl Panic) \<Rightarrow> (x\<lparr>bc_world := w\<rparr>, Inl Panic)))"

definition not_identifier :: "rstr \<Rightarrow> rstr \<Rightarrow> rstr" where
  "not_identifier cmd arg = cmd @ rs '': `'' @ arg @ [39] @ rs '': not a valid identifier''"

fun print_env :: "env \<Rightarrow> 's builtin_context \<Rightarrow> 's builtin_context" where
  "print_env [] x = x"
| "print_env ((key, v) # e) x = print_env e (say_out x (rs ''declare -x '' @ key @ rs ''='' @ [34] @ v @ [34]))"

fun export_args :: "rstr list \<Rightarrow> 's builtin_context \<Rightarrow> 's builtin_context \<times> int" where
  "export_args [] x = (x, 0)"
| "export_args (arg # args) x =
     (case split_once 61 arg of
        Some (name, v) \<Rightarrow>
          if is_assignment_name name then
            export_args args (session_env (x\<lparr>bc_env := bm_insert name v (bc_env x)\<rparr>)
              (bm_insert name v (se_env (bc_session x))))
          else (say_err x (not_identifier (rs ''export'') arg), 1)
      | None \<Rightarrow>
          if is_assignment_name arg then
            export_args args (case bm_get (se_env (bc_session x)) arg of
                Some _ \<Rightarrow> x
              | None \<Rightarrow> session_env x (bm_insert arg [] (se_env (bc_session x))))
          else (say_err x (not_identifier (rs ''export'') arg), 1))"

fun unset_args :: "rstr list \<Rightarrow> 's builtin_context \<Rightarrow> 's builtin_context \<times> int" where
  "unset_args [] x = (x, 0)"
| "unset_args (arg # args) x =
     (if is_assignment_name arg then
        unset_args args (session_env (x\<lparr>bc_env := bm_remove arg (bc_env x)\<rparr>)
          (bm_remove arg (se_env (bc_session x))))
      else (say_err x (not_identifier (rs ''unset'') arg), 1))"

definition run_shell_builtin_stage ::
  "'s vfs_ops \<Rightarrow> fs_facade \<Rightarrow> shell_builtin \<Rightarrow> rstr list \<Rightarrow> 's builtin_context
   \<Rightarrow> 's builtin_context \<times> (unit, int) outcome" where
  "run_shell_builtin_stage ops f b args x =
     (case b of
        Cd \<Rightarrow> run_cd ops f args x
      | Export \<Rightarrow>
          if args = [] then (print_env (se_env (bc_session x)) x, Ok 0)
          else (case export_args args x of (y, st) \<Rightarrow> (y, Ok st))
      | Unset \<Rightarrow> (case unset_args args x of (y, st) \<Rightarrow> (y, Ok st)))"

subsection \<open>Redirects\<close>

record input_redirect =
  ir_path :: rstr
  ir_handle :: file_handle

record prepared_redirects =
  pr_stdin :: "input_redirect option"
  pr_stdout :: output_destination
  pr_stderr :: output_destination

definition prepared_default :: prepared_redirects where
  "prepared_default = \<lparr>pr_stdin = None, pr_stdout = CaptureTo CaptureStdout, pr_stderr = CaptureTo CaptureStderr\<rparr>"

definition apply_fd_redirect ::
  "prepared_redirects \<Rightarrow> redirect \<Rightarrow> nat \<Rightarrow> (rstr \<times> errno, prepared_redirects) outcome" where
  "apply_fd_redirect rd red target_fd =
     (let fd = (case rd_fd red of None \<Rightarrow> 1 | Some n \<Rightarrow> n) in
      if \<not> (fd = 1 \<or> fd = 2) \<or> \<not> (target_fd = 1 \<or> target_fd = 2) then Err (show_nat target_fd, EINVAL)
      else
        let target = (if target_fd = 1 then pr_stdout rd else pr_stderr rd) in
        Ok (if fd = 1 then rd\<lparr>pr_stdout := target\<rparr> else rd\<lparr>pr_stderr := target\<rparr>))"

fun default_redirect_fd :: "redirect_op \<Rightarrow> nat" where
  "default_redirect_fd RRead = 0"
| "default_redirect_fd RWrite = 1"
| "default_redirect_fd RAppend = 1"

text \<open>A facade call from the redirect code: an error carries the path it is about.\<close>

definition on_world ::
  "'s io \<Rightarrow> rstr \<Rightarrow> 's world \<times> 'a vres \<Rightarrow> 's io \<times> (rstr \<times> errno, 'a) outcome" where
  "on_world s path out =
     (case out of (w, r) \<Rightarrow>
        (s\<lparr>io_world := w\<rparr>,
         case r of Inr v \<Rightarrow> Ok v | Inl (Errno e) \<Rightarrow> Err (path, e) | Inl Panic \<Rightarrow> Inl Panic))"

definition redirect_input ::
  "'s vfs_ops \<Rightarrow> fs_facade \<Rightarrow> 's io \<Rightarrow> prepared_redirects \<Rightarrow> rstr
   \<Rightarrow> 's io \<times> prepared_redirects \<times> (rstr \<times> errno, unit) outcome" where
  "redirect_input ops f s rd path =
     (case on_world s path (fs_open ops (io_world s) f path om_read_only) of
        (s1, Inl e) \<Rightarrow> (s1, rd, Inl e)
      | (s1, Inr h) \<Rightarrow>
          let rd1 = rd\<lparr>pr_stdin := Some \<lparr>ir_path = path, ir_handle = h\<rparr>\<rparr> in
          (case pr_stdin rd of
             None \<Rightarrow> (s1, rd1, Ok ())
           | Some old \<Rightarrow>
               (case on_world s1 (ir_path old) (fs_close ops (io_world s1) f (ir_handle old)) of
                  (s2, r) \<Rightarrow> (s2, rd1, r))))"

definition redirect_output ::
  "'s vfs_ops \<Rightarrow> fs_facade \<Rightarrow> 's io \<Rightarrow> prepared_redirects \<Rightarrow> nat \<Rightarrow> bool \<Rightarrow> rstr
   \<Rightarrow> 's io \<times> prepared_redirects \<times> (rstr \<times> errno, unit) outcome" where
  "redirect_output ops f s rd fd app path =
     (let mode = (if app then om_set_append (om_set_create om_write_only)
                  else om_set_truncate (om_set_create om_write_only)) in
      case on_world s path (fs_open ops (io_world s) f path mode) of
        (s1, Inl e) \<Rightarrow> (s1, rd, Inl e)
      | (s1, Inr h) \<Rightarrow>
          let target = FileTo (length (io_files s1));
              file = \<lparr>rf_path = path, rf_fs = f, rf_handle = Some h, rf_offset = 0, rf_error = None, rf_task = []\<rparr> in
          (s1\<lparr>io_files := io_files s1 @ [file]\<rparr>,
           (if fd = 1 then rd\<lparr>pr_stdout := target\<rparr> else rd\<lparr>pr_stderr := target\<rparr>), Ok ()))"

definition apply_redirect ::
  "'s vfs_ops \<Rightarrow> fs_facade \<Rightarrow> 's io \<Rightarrow> prepared_redirects \<Rightarrow> redirect \<Rightarrow> rstr list
   \<Rightarrow> 's io \<times> prepared_redirects \<times> (rstr \<times> errno, unit) outcome" where
  "apply_redirect ops f s rd red words =
     (case rd_target red of
        TFd fd \<Rightarrow>
          (case apply_fd_redirect rd red fd of Inl e \<Rightarrow> (s, rd, Inl e) | Inr rd1 \<Rightarrow> (s, rd1, Ok ()))
      | TWord _ \<Rightarrow>
          (case words of
             [] \<Rightarrow> (s, rd, Err ([], ENOENT))
           | path # others \<Rightarrow>
               if others \<noteq> [] then (s, rd, Err (path, EINVAL))
               else
                 let fd = (case rd_fd red of None \<Rightarrow> default_redirect_fd (rd_op red) | Some n \<Rightarrow> n) in
                 if fd = 0 \<and> rd_op red = RRead then redirect_input ops f s rd path
                 else if (fd = 1 \<or> fd = 2) \<and> rd_op red \<noteq> RRead
                 then redirect_output ops f s rd fd (rd_op red = RAppend) path
                 else (s, rd, Err (path, EINVAL))))"

fun apply_redirects ::
  "'s vfs_ops \<Rightarrow> fs_facade \<Rightarrow> 's io \<Rightarrow> prepared_redirects \<Rightarrow> (redirect \<times> rstr list) list
   \<Rightarrow> 's io \<times> prepared_redirects \<times> (rstr \<times> errno, unit) outcome" where
  "apply_redirects ops f s rd [] = (s, rd, Ok ())"
| "apply_redirects ops f s rd ((red, words) # others) =
     (if \<not> is_ok (fs_check (io_world s) (fs_handles f)) then (s, rd, Err (rs ''redirect'', EIO))
      else case apply_redirect ops f s rd red words of
        (s1, rd1, Inl e) \<Rightarrow> (s1, rd1, Inl e)
      | (s1, rd1, Inr _) \<Rightarrow> apply_redirects ops f s1 rd1 others)"

definition close_stdin_redirect ::
  "'s vfs_ops \<Rightarrow> fs_facade \<Rightarrow> 's io \<Rightarrow> input_redirect option \<Rightarrow> 's io \<times> (rstr \<times> errno, unit) outcome" where
  "close_stdin_redirect ops f s red =
     (case red of
        None \<Rightarrow> (s, Ok ())
      | Some r \<Rightarrow>
          (case fs_close ops (io_world s) f (ir_handle r) of
             (w, Inl Panic) \<Rightarrow> (s\<lparr>io_world := w\<rparr>, Inl Panic)
           | (w, _) \<Rightarrow> (s\<lparr>io_world := w\<rparr>, Ok ())))"

text \<open>
  The clean-up loop at the end of \<open>prepare_redirects\<close> over the files it opened: after an error all
  of them are finished, otherwise those that a later redirect superseded.
\<close>

definition still_used :: "prepared_redirects \<Rightarrow> nat \<Rightarrow> bool" where
  "still_used rd i \<longleftrightarrow> pr_stdout rd = FileTo i \<or> pr_stderr rd = FileTo i"

fun finish_superseded ::
  "'s vfs_ops \<Rightarrow> 's io \<Rightarrow> prepared_redirects \<Rightarrow> (rstr \<times> errno, unit) outcome \<Rightarrow> nat list
   \<Rightarrow> 's io \<times> (rstr \<times> errno, unit) outcome" where
  "finish_superseded ops s rd result [] = (s, result)"
| "finish_superseded ops s rd result (i # is) =
     (if is_ok result \<and> still_used rd i then finish_superseded ops s rd result is
      else case redirect_finish ops s i of
        (s1, Inl Panic) \<Rightarrow> (s1, Inl Panic)
      | (s1, closed) \<Rightarrow> finish_superseded ops s1 rd (if is_ok result then closed else result) is)"

definition prepare_redirects ::
  "'s vfs_ops \<Rightarrow> fs_facade \<Rightarrow> 's io \<Rightarrow> simple_command \<Rightarrow> rstr list list
   \<Rightarrow> 's io \<times> (rstr \<times> errno, prepared_redirects) outcome" where
  "prepare_redirects ops f s simple targets =
     (case apply_redirects ops f s prepared_default (zip (sc_redirects simple) targets) of
        (s1, rd, Inl Panic) \<Rightarrow> (s1, Inl Panic)
      | (s1, rd, result) \<Rightarrow>
          (case finish_superseded ops s1 rd result [length (io_files s) ..< length (io_files s1)] of
             (s2, Inl Panic) \<Rightarrow> (s2, Inl Panic)
           | (s2, Inl (Errno e)) \<Rightarrow>
               and_then (close_stdin_redirect ops f s2 (pr_stdin rd)) (\<lambda>s3 _. (s3, Err e))
           | (s2, Inr _) \<Rightarrow> (s2, Ok rd)))"

fun finish_destinations ::
  "'s vfs_ops \<Rightarrow> 's io \<Rightarrow> (rstr \<times> errno, unit) outcome \<Rightarrow> output_destination list
   \<Rightarrow> 's io \<times> (rstr \<times> errno, unit) outcome" where
  "finish_destinations ops s result [] = (s, result)"
| "finish_destinations ops s result (CaptureTo fd # ds) = finish_destinations ops s result ds"
| "finish_destinations ops s result (FileTo i # ds) =
     (case redirect_finish ops s i of
        (s1, Inl Panic) \<Rightarrow> (s1, Inl Panic)
      | (s1, closed) \<Rightarrow> finish_destinations ops s1 (if is_ok result then closed else result) ds)"

definition finish_redirects ::
  "'s vfs_ops \<Rightarrow> 's io \<Rightarrow> prepared_redirects \<Rightarrow> 's io \<times> (rstr \<times> errno, unit) outcome" where
  "finish_redirects ops s rd = finish_destinations ops s (Ok ()) [pr_stdout rd, pr_stderr rd]"

end
