(* ===== verification/Exec.thy ===== *)
theory Exec
  imports Exec_Session Fs_Steps
begin

text \<open>
  Execution of shell programs (\<open>Sandbox::exec\<close> and below, \<open>src/sandbox/mod.rs\<close>).

  A registered command is host code: it is a future that is polled and acts on the shared state
  through the context it was started with, so its start and its \<open>poll\<close> function are parameters.
  The scheduler is a list of choices: which stage is polled next, which redirect writer runs,
  when the deadline passes. When the list ends the execution has been stopped by its timeout, so
  every function below is total and a list of choices stands for one possible run.
\<close>

record command_result =
  cr_exit_code :: int
  cr_peak :: "nat option"

definition result_new :: "int \<Rightarrow> command_result" where
  "result_new code = \<lparr>cr_exit_code = code, cr_peak = None\<rparr>"

record command_context =
  cc_args :: "rstr list"
  cc_env :: env
  cc_cwd :: rstr
  cc_stdin :: reader
  cc_stdout :: writer
  cc_stderr :: writer
  cc_fs :: fs_facade
  cc_limits :: limits
  cc_commands :: "rstr list"

datatype 'h registered = Handler "command_context \<Rightarrow> 'h" | Shell shell_builtin

datatype 'h progress = HPending 'h | HReady command_result | HPanic

text \<open>
  The parts of \<open>Sandbox\<close> that an execution only reads, and the text tokio has for a panicked task.
\<close>

record ('s, 'h) engine =
  en_ops :: "'s vfs_ops"
  en_poll :: "'h \<Rightarrow> 's io \<Rightarrow> 's io \<times> 'h progress"
  en_layout :: layout
  en_commands :: "(rstr, 'h registered) bmap"
  en_limits :: limits
  en_persist :: bool
  en_join_error :: rstr

definition en_names :: "('s, 'h) engine \<Rightarrow> rstr list" where
  "en_names en = map fst (en_commands en)"

datatype stage_kind = KCommand | KAssignmentOnly | KFailed rstr

record 'h prepared_stage =
  ps_name :: rstr
  ps_args :: "rstr list"
  ps_env :: env
  ps_cwd :: rstr
  ps_fs :: fs_facade
  ps_command :: "'h registered option"
  ps_redirects :: prepared_redirects
  ps_counts :: bool
  ps_kind :: stage_kind

datatype choice = Poll nat | Flush nat | Expire

record 's exec_state =
  ex_io :: "'s io"
  ex_sched :: "choice list"
  ex_control :: nat
  ex_session :: session
  ex_timings :: "(rstr \<times> int) list"
  ex_pipe_bytes :: "nat list"
  ex_last_status :: int
  ex_command_count :: nat
  ex_limit_hit :: bool
  ex_peak :: "nat option"

abbreviation ex_world :: "'s exec_state \<Rightarrow> 's world" where
  "ex_world x \<equiv> io_world (ex_io x)"

definition exec_state_new :: "'s world \<Rightarrow> choice list \<Rightarrow> nat \<Rightarrow> session \<Rightarrow> limits \<Rightarrow> 's exec_state" where
  "exec_state_new w sched c se l =
     \<lparr>ex_io = \<lparr>io_world = w, io_stdout = capped_new (stdout_bytes l), io_stderr = capped_new (stderr_bytes l),
        io_pipes = [], io_files = []\<rparr>,
      ex_sched = sched, ex_control = c, ex_session = se, ex_timings = [], ex_pipe_bytes = [],
      ex_last_status = se_last_status se, ex_command_count = 0, ex_limit_hit = False, ex_peak = None\<rparr>"

definition write_stderr :: "'s exec_state \<Rightarrow> rstr \<Rightarrow> 's exec_state" where
  "write_stderr x t = x\<lparr>ex_io := capture_append (ex_io x) CaptureStderr (utf8 t)\<rparr>"

definition record_peak :: "'s exec_state \<Rightarrow> nat option \<Rightarrow> 's exec_state" where
  "record_peak x p =
     (case p of None \<Rightarrow> x
      | Some b \<Rightarrow> x\<lparr>ex_peak := Some (case ex_peak x of None \<Rightarrow> b | Some c \<Rightarrow> max c b)\<rparr>)"

definition exec_cancelled :: "'s exec_state \<Rightarrow> bool" where
  "exec_cancelled x \<longleftrightarrow> control_cancelled (control_of (ex_world x) (ex_control x))"

definition set_world :: "'s exec_state \<Rightarrow> 's world \<Rightarrow> 's exec_state" where
  "set_world x w = x\<lparr>ex_io := (ex_io x)\<lparr>io_world := w\<rparr>\<rparr>"

text \<open>\<open>task::yield_now\<close>: the deadline may pass here, or the timeout drop the execution.\<close>

definition yield_now :: "'s exec_state \<Rightarrow> 's exec_state \<times> (unit, unit) outcome" where
  "yield_now x =
     (case ex_sched x of
        [] \<Rightarrow> (x, Err ())
      | Expire # r \<Rightarrow> (set_world (x\<lparr>ex_sched := r\<rparr>) (fs_expire (ex_world x) (ex_control x)), Ok ())
      | _ # r \<Rightarrow> (x\<lparr>ex_sched := r\<rparr>, Ok ()))"

subsection \<open>Stage tasks\<close>

text \<open>
  A task before its first poll, a command's future, or a sequence of \<open>write_all\<close> calls (strict
  when a failed write ends the stage with a failure) with the result that follows them.
\<close>

datatype 'h stage_task =
    Start "'h prepared_stage" reader writer writer
  | Running 'h
  | Writes bool "(writer \<times> byte list) list" command_result

datatype 'h stage_turn = Continue "'h stage_task" | Finished command_result | Crashed

fun write_turn :: "'s io \<Rightarrow> bool \<Rightarrow> (writer \<times> byte list) list \<Rightarrow> command_result \<Rightarrow> 's io \<times> 'h stage_turn" where
  "write_turn s strict [] res = (s, Finished res)"
| "write_turn s strict ((wr, data) # rest) res =
     (if data = [] then (s, Continue (Writes strict rest res))
      else
        let failed = (if strict then Finished (result_new 1) else Continue (Writes strict rest res)) in
        case poll_write s wr data of
          (s1, Pending) \<Rightarrow> (s1, Continue (Writes strict ((wr, data) # rest) res))
        | (s1, Ready (Inl e)) \<Rightarrow> (s1, failed)
        | (s1, Ready (Inr n)) \<Rightarrow>
            (s1, if n = 0 then failed else Continue (Writes strict ((wr, drop n data) # rest) res)))"

text \<open>\<open>str::parse\<close> to \<open>i32\<close>.\<close>

definition parse_i32 :: "rstr \<Rightarrow> int option" where
  "parse_i32 t =
     (case t of
        [] \<Rightarrow> None
      | c # r \<Rightarrow>
          if c = 45 then map_option (\<lambda>n. - int n) (parse_unsigned (2 ^ 31) r)
          else if c = 43 then map_option int (parse_unsigned (2 ^ 31 - 1) r)
          else map_option int (parse_unsigned (2 ^ 31 - 1) t))"

text \<open>\<open>run_registered_stage\<close> up to its first await.\<close>

definition start_registered ::
  "('s, 'h) engine \<Rightarrow> 's io \<Rightarrow> 'h prepared_stage \<Rightarrow> reader \<Rightarrow> writer \<Rightarrow> writer \<Rightarrow> 's io \<times> 'h stage_turn" where
  "start_registered en s st inp out err =
     (case ps_command st of
        Some (Shell b) \<Rightarrow>
          let status = (case bm_get (ps_env st) (rs ''?'') of None \<Rightarrow> None | Some t \<Rightarrow> parse_i32 t);
              se = \<lparr>se_cwd = ps_cwd st, se_env = ps_env st,
                se_last_status = (case status of None \<Rightarrow> 0 | Some n \<Rightarrow> n)\<rparr>;
              x = \<lparr>bc_world = io_world s, bc_session = se, bc_env = ps_env st, bc_stdout = [], bc_stderr = []\<rparr> in
          (case run_shell_builtin_stage (en_ops en) (ps_fs st) b (ps_args st) x of
             (y, Inl _) \<Rightarrow> (s\<lparr>io_world := bc_world y\<rparr>, Crashed)
           | (y, Inr status) \<Rightarrow>
               (s\<lparr>io_world := bc_world y\<rparr>,
                Continue (Writes True [(out, bc_stdout y), (err, bc_stderr y)] (result_new status))))
      | Some (Handler c) \<Rightarrow>
          (s, Continue (Running (c \<lparr>cc_args = ps_args st, cc_env = ps_env st, cc_cwd = ps_cwd st, cc_stdin = inp,
             cc_stdout = out, cc_stderr = err, cc_fs = ps_fs st, cc_limits = en_limits en,
             cc_commands = en_names en\<rparr>)))
      | None \<Rightarrow>
          (s, Continue (Writes False [(err, utf8 (ps_name st @ rs '': command not found'' @ newline))] (result_new 127))))"

definition task_turn :: "('s, 'h) engine \<Rightarrow> 's io \<Rightarrow> 'h stage_task \<Rightarrow> 's io \<times> 'h stage_turn" where
  "task_turn en s t =
     (case t of
        Start st inp out err \<Rightarrow>
          (case ps_kind st of
             KFailed m \<Rightarrow> (s, Continue (Writes False [(err, utf8 m)] (result_new 1)))
           | KAssignmentOnly \<Rightarrow> (s, Finished (result_new 0))
           | KCommand \<Rightarrow> start_registered en s st inp out err)
      | Running h \<Rightarrow>
          (case en_poll en h s of
             (s1, HPending h1) \<Rightarrow> (s1, Continue (Running h1))
           | (s1, HReady r) \<Rightarrow> (s1, Finished r)
           | (s1, HPanic) \<Rightarrow> (s1, Crashed))
      | Writes strict ws r \<Rightarrow> write_turn s strict ws r)"

text \<open>The choices that do not poll a task.\<close>

definition background :: "('s, 'h) engine \<Rightarrow> nat \<Rightarrow> 's io \<Rightarrow> choice \<Rightarrow> 's io" where
  "background en c s ch =
     (case ch of
        Poll i \<Rightarrow> s
      | Flush i \<Rightarrow> if i < length (io_files s) then redirect_step (en_ops en) s i else s
      | Expire \<Rightarrow> s\<lparr>io_world := fs_expire (io_world s) c\<rparr>)"

text \<open>A command that is awaited by itself.\<close>

fun await_task ::
  "('s, 'h) engine \<Rightarrow> nat \<Rightarrow> choice list \<Rightarrow> 's io \<Rightarrow> 'h stage_task
   \<Rightarrow> (choice list \<times> 's io) \<times> (unit, command_result) outcome" where
  "await_task en c [] s t = (([], s), Err ())"
| "await_task en c (Poll i # sched) s t =
     (case task_turn en s t of
        (s1, Continue t1) \<Rightarrow> await_task en c sched s1 t1
      | (s1, Finished r) \<Rightarrow> ((sched, s1), Ok r)
      | (s1, Crashed) \<Rightarrow> ((sched, s1), Inl Panic))"
| "await_task en c (ch # sched) s t = await_task en c sched (background en c s ch) t"

subsection \<open>Destinations\<close>

definition writer_for_destination :: "output_destination \<Rightarrow> nat option \<Rightarrow> writer" where
  "writer_for_destination d pipe =
     (case d of
        CaptureTo CaptureStdout \<Rightarrow> (case pipe of Some i \<Rightarrow> PipeWriter i | None \<Rightarrow> CaptureWriter CaptureStdout)
      | CaptureTo CaptureStderr \<Rightarrow> CaptureWriter CaptureStderr
      | FileTo i \<Rightarrow> RedirectWriter i)"

fun sinks_of :: "output_destination \<Rightarrow> nat list" where
  "sinks_of (CaptureTo fd) = []"
| "sinks_of (FileTo i) = [i]"

definition stdin_for :: "input_redirect option \<Rightarrow> nat option \<Rightarrow> reader" where
  "stdin_for red pipe =
     (case red of
        Some r \<Rightarrow> FileReader (stream_reader_from_handle (ir_handle r))
      | None \<Rightarrow> (case pipe of Some i \<Rightarrow> PipeReader i | None \<Rightarrow> EmptyReader))"

text \<open>Waiting for the files a command wrote: the messages of those that failed.\<close>

fun await_sinks ::
  "'s vfs_ops \<Rightarrow> 's io \<Rightarrow> rstr \<Rightarrow> nat list \<Rightarrow> 's io \<times> (unit, rstr list) outcome" where
  "await_sinks ops s name [] = (s, Ok [])"
| "await_sinks ops s name (i # is) =
     (case redirect_finish ops s i of
        (s1, Inl Panic) \<Rightarrow> (s1, Inl Panic)
      | (s1, Inl (Errno (path, e))) \<Rightarrow>
          and_then (await_sinks ops s1 name is) (\<lambda>s2 msgs.
            (s2, Ok ((name @ rs '': '' @ path @ rs '': '' @ errno_message e @ newline) # msgs)))
      | (s1, Inr _) \<Rightarrow> await_sinks ops s1 name is)"

subsection \<open>One simple command\<close>

definition report :: "'s exec_state \<Rightarrow> rstr \<Rightarrow> rstr \<times> errno \<Rightarrow> 's exec_state" where
  "report x name pe =
     write_stderr x (name @ rs '': '' @ fst pe @ rs '': '' @ errno_message (snd pe) @ newline)"

definition limit_exceeded :: "'s exec_state \<Rightarrow> rstr \<Rightarrow> 's exec_state \<times> (unit, int) outcome" where
  "limit_exceeded x t = ((write_stderr x (t @ newline))\<lparr>ex_limit_hit := True\<rparr>, Ok 125)"

text \<open>The last value of the facade of a command goes out of scope.\<close>

definition drop_fs :: "'s vfs_ops \<Rightarrow> fs_facade \<Rightarrow> 's exec_state \<times> 'a \<Rightarrow> 's exec_state \<times> 'a" where
  "drop_fs ops f out =
     (case out of (x, r) \<Rightarrow> (set_world x (registry_abandon_all ops (ex_world x) (fs_handles f)), r))"

text \<open>An io computation inside an execution.\<close>

definition in_io :: "'s exec_state \<Rightarrow> 's io \<times> 'r \<Rightarrow> 's exec_state \<times> 'r" where
  "in_io x out = (case out of (s, r) \<Rightarrow> (x\<lparr>ex_io := s\<rparr>, r))"

definition finish_command ::
  "('s, 'h) engine \<Rightarrow> rstr \<Rightarrow> nat list \<Rightarrow> 'h stage_task \<Rightarrow> 's exec_state \<Rightarrow> 's exec_state \<times> (unit, int) outcome" where
  "finish_command en name sinks t x =
     (case await_task en (ex_control x) (ex_sched x) (ex_io x) t of
        ((sched, s), Inl e) \<Rightarrow> (x\<lparr>ex_sched := sched, ex_io := s\<rparr>, Inl e)
      | ((sched, s), Inr r) \<Rightarrow>
          let x1 = record_peak (x\<lparr>ex_sched := sched, ex_io := s\<rparr>) (cr_peak r) in
          and_then (in_io x1 (await_sinks (en_ops en) s name sinks)) (\<lambda>x2 msgs.
            let x3 = foldl write_stderr x2 msgs;
                status = (if msgs = [] then cr_exit_code r else 1) in
            (x3\<lparr>ex_timings := ex_timings x3 @ [(name, status)]\<rparr>, Ok status)))"

definition run_builtin_here ::
  "('s, 'h) engine \<Rightarrow> fs_facade \<Rightarrow> shell_builtin \<Rightarrow> rstr list \<Rightarrow> env \<Rightarrow> 's exec_state
   \<Rightarrow> 's exec_state \<times> (unit, (byte list \<times> byte list) \<times> int) outcome" where
  "run_builtin_here en f b args env x =
     (case run_shell_builtin_stage (en_ops en) f b args
             \<lparr>bc_world = ex_world x, bc_session = ex_session x, bc_env = env, bc_stdout = [], bc_stderr = []\<rparr> of
        (y, Inl e) \<Rightarrow> ((set_world x (bc_world y))\<lparr>ex_session := bc_session y\<rparr>, Inl e)
      | (y, Inr status) \<Rightarrow>
          ((set_world x (bc_world y))\<lparr>ex_session := bc_session y\<rparr>, Ok ((bc_stdout y, bc_stderr y), status)))"

definition with_redirects ::
  "('s, 'h) engine \<Rightarrow> fs_facade \<Rightarrow> expanded_command \<Rightarrow> prepared_redirects \<Rightarrow> 's exec_state
   \<Rightarrow> 's exec_state \<times> (unit, int) outcome" where
  "with_redirects en f ec rd x =
     (case ec_words ec of
        [] \<Rightarrow>
          (case in_io x (close_stdin_redirect (en_ops en) f (ex_io x) (pr_stdin rd)) of
             (x1, Inl _) \<Rightarrow> (x1, Inl Panic)
           | (x1, Inr _) \<Rightarrow>
               (case in_io x1 (finish_redirects (en_ops en) (ex_io x1) rd) of
                  (x2, Inl Panic) \<Rightarrow> (x2, Inl Panic)
                | (x2, Inl (Errno pe)) \<Rightarrow> (report x2 (rs ''tinysandbox'') pe, Ok 1)
                | (x2, Inr _) \<Rightarrow> (x2, Ok 0)))
      | name # args \<Rightarrow>
          let env = bm_insert (rs ''?'') (show_int (ex_last_status x)) (ec_env ec);
              out = writer_for_destination (pr_stdout rd) None;
              err = writer_for_destination (pr_stderr rd) None;
              sinks = sinks_of (pr_stdout rd) @ sinks_of (pr_stderr rd) in
          (case bm_get (en_commands en) name of
             Some (Shell b) \<Rightarrow>
               and_then (run_builtin_here en f b args env x) (\<lambda>x1 ((so, se), status).
                 case in_io x1 (close_stdin_redirect (en_ops en) f (ex_io x1) (pr_stdin rd)) of
                   (x2, Inl _) \<Rightarrow> (x2, Inl Panic)
                 | (x2, Inr _) \<Rightarrow>
                     finish_command en name sinks (Writes False [(out, so), (err, se)] (result_new status)) x2)
           | cmd \<Rightarrow>
               finish_command en name sinks
                 (Start \<lparr>ps_name = name, ps_args = args, ps_env = env, ps_cwd = se_cwd (ex_session x), ps_fs = f,
                    ps_command = cmd, ps_redirects = rd, ps_counts = True, ps_kind = KCommand\<rparr>
                  (stdin_for (pr_stdin rd) None) out err) x))"

definition exec_single_simple ::
  "('s, 'h) engine \<Rightarrow> 's exec_state \<Rightarrow> expanded_command \<Rightarrow> 's exec_state \<times> (unit, int) outcome" where
  "exec_single_simple en x ec =
     (if max_commands (en_limits en) \<le> ex_command_count x
      then limit_exceeded x (rs ''tinysandbox: maximum command count exceeded'')
      else
        let x1 = x\<lparr>ex_command_count := ex_command_count x + 1\<rparr>;
            base = se_env (ex_session x1);
            null = (ec_words ec = []);
            x2 = (if null then x1\<lparr>ex_session := (ex_session x1)\<lparr>se_env := ec_env ec\<rparr>\<rparr> else x1);
            ec1 = (if null then ec\<lparr>ec_env := base\<rparr> else ec);
            name = (case ec_words ec of [] \<Rightarrow> rs ''tinysandbox'' | n # _ \<Rightarrow> n) in
        case fs_scoped (ex_world x2) (en_names en) (se_cwd (ex_session x2)) (ex_control x2) of
          (w, f) \<Rightarrow>
            drop_fs (en_ops en) f
              (case in_io x2 (prepare_redirects (en_ops en) f ((ex_io x2)\<lparr>io_world := w\<rparr>) (ec_syntax ec1) (ec_targets ec1)) of
                 (x3, Inl Panic) \<Rightarrow> (x3, Inl Panic)
               | (x3, Inl (Errno pe)) \<Rightarrow> (report x3 name pe, Ok 1)
               | (x3, Inr rd) \<Rightarrow> with_redirects en f ec1 rd x3))"

subsection \<open>Pipelines\<close>

definition prepare_stage ::
  "('s, 'h) engine \<Rightarrow> 's exec_state \<Rightarrow> expanded_command \<Rightarrow> 's exec_state \<times> (unit, 'h prepared_stage) outcome" where
  "prepare_stage en x ec =
     (let name = (case ec_words ec of n # _ \<Rightarrow> n
            | [] \<Rightarrow> (case sc_assignments (ec_syntax ec) of a # _ \<Rightarrow> as_name a | [] \<Rightarrow> rs ''<empty>''));
          cwd = se_cwd (ex_session x);
          env = bm_insert (rs ''?'') (show_int (ex_last_status x)) (ec_env ec) in
      case fs_scoped (ex_world x) (en_names en) cwd (ex_control x) of
        (w, f) \<Rightarrow>
          (case in_io x (prepare_redirects (en_ops en) f ((ex_io x)\<lparr>io_world := w\<rparr>) (ec_syntax ec) (ec_targets ec)) of
             (x1, Inl Panic) \<Rightarrow> (x1, Inl Panic)
           | (x1, Inl (Errno (path, e))) \<Rightarrow>
               (x1, Ok \<lparr>ps_name = name, ps_args = [], ps_env = env, ps_cwd = cwd, ps_fs = f, ps_command = None,
                  ps_redirects = prepared_default, ps_counts = (ec_words ec \<noteq> []),
                  ps_kind = KFailed (name @ rs '': '' @ path @ rs '': '' @ errno_message e @ newline)\<rparr>)
           | (x1, Inr rd) \<Rightarrow>
               (x1, Ok \<lparr>ps_name = name, ps_args = tl (ec_words ec), ps_env = env, ps_cwd = cwd, ps_fs = f,
                  ps_command = bm_get (en_commands en) name, ps_redirects = rd, ps_counts = (ec_words ec \<noteq> []),
                  ps_kind = (if ec_words ec = [] then KAssignmentOnly else KCommand)\<rparr>)))"

record stage_outcome =
  oc_name :: rstr
  oc_exit_code :: int
  oc_peak :: "nat option"
  oc_errors :: "rstr list"
  oc_counts :: bool

text \<open>A spawned stage with its ends of the neighbouring pipes; \<open>sl_task\<close> is \<open>None\<close> once it has ended.\<close>

record 'h slot =
  sl_task :: "'h stage_task option"
  sl_name :: rstr
  sl_counts :: bool
  sl_fs :: fs_facade
  sl_sinks :: "nat list"
  sl_input :: "nat option"
  sl_output :: "nat option"

definition close_reader :: "'s io \<Rightarrow> nat option \<Rightarrow> 's io" where
  "close_reader s oi = (case oi of None \<Rightarrow> s | Some i \<Rightarrow> set_pipe s i ((pipe_of s i)\<lparr>pp_reader := False\<rparr>))"

definition close_writer :: "'s io \<Rightarrow> nat option \<Rightarrow> 's io" where
  "close_writer s oi = (case oi of None \<Rightarrow> s | Some i \<Rightarrow> set_pipe s i ((pipe_of s i)\<lparr>pp_writer := False\<rparr>))"

definition uses_pipe :: "writer \<Rightarrow> nat option" where
  "uses_pipe wr = (case wr of PipeWriter i \<Rightarrow> Some i | _ \<Rightarrow> None)"

text \<open>
  Wiring stage \<open>k\<close> of \<open>n\<close>: the pipe before it and after it are \<open>base + k - 1\<close> and \<open>base + k\<close>.
  An end that the stage does not use is dropped at once.
\<close>

definition spawn_stage :: "'s io \<Rightarrow> nat \<Rightarrow> nat \<Rightarrow> nat \<Rightarrow> 'h prepared_stage \<Rightarrow> 's io \<times> 'h slot" where
  "spawn_stage s base n k st =
     (let rd = ps_redirects st;
          input = (if k = 0 then None else Some (base + k - 1));
          piped = (if k + 1 < n then Some (base + k) else None);
          out = writer_for_destination (pr_stdout rd) piped;
          err = writer_for_destination (pr_stderr rd) (if pr_stderr rd = CaptureTo CaptureStdout then piped else None);
          uses_in = (if pr_stdin rd = None then input else None);
          uses_out = (if uses_pipe out = None then uses_pipe err else uses_pipe out);
          s1 = (if uses_in = None then close_reader s input else s);
          s2 = (if uses_out = None then close_writer s1 piped else s1) in
      (s2, \<lparr>sl_task = Some (Start st (stdin_for (pr_stdin rd) input) out err), sl_name = ps_name st,
         sl_counts = ps_counts st, sl_fs = ps_fs st, sl_sinks = sinks_of (pr_stdout rd) @ sinks_of (pr_stderr rd),
         sl_input = uses_in, sl_output = uses_out\<rparr>))"

fun spawn_stages :: "'s io \<Rightarrow> nat \<Rightarrow> nat \<Rightarrow> nat \<Rightarrow> 'h prepared_stage list \<Rightarrow> 's io \<times> 'h slot list" where
  "spawn_stages s base n k [] = (s, [])"
| "spawn_stages s base n k (st # sts) =
     (case spawn_stage s base n k st of (s1, sl) \<Rightarrow>
        (case spawn_stages s1 base n (k + 1) sts of (s2, sls) \<Rightarrow> (s2, sl # sls)))"

text \<open>The ends of the pipes and the facade of a task that ends are dropped.\<close>

definition drop_stage :: "'s vfs_ops \<Rightarrow> 's io \<Rightarrow> 'h slot \<Rightarrow> 's io" where
  "drop_stage ops s sl =
     (let s1 = close_writer (close_reader s (sl_input sl)) (sl_output sl) in
      s1\<lparr>io_world := registry_abandon_all ops (io_world s1) (fs_handles (sl_fs sl))\<rparr>)"

text \<open>The rest of \<open>run_stage_task\<close> once the command has returned.\<close>

definition stage_result ::
  "'s vfs_ops \<Rightarrow> 's io \<Rightarrow> 'h slot \<Rightarrow> command_result \<Rightarrow> 's io \<times> (unit, stage_outcome) outcome" where
  "stage_result ops s sl r =
     and_then (await_sinks ops s (sl_name sl) (sl_sinks sl)) (\<lambda>s1 msgs.
       let broken = (case sl_output sl of None \<Rightarrow> False | Some i \<Rightarrow> pp_broken (pipe_of s1 i));
           code = (if msgs \<noteq> [] then 1
                   else if cr_exit_code r \<noteq> 0 \<and> broken then 141 else cr_exit_code r) in
       (drop_stage ops s1 sl,
        Ok \<lparr>oc_name = sl_name sl, oc_exit_code = code, oc_peak = cr_peak r, oc_errors = msgs, oc_counts = sl_counts sl\<rparr>))"

definition crashed_outcome :: "('s, 'h) engine \<Rightarrow> stage_outcome" where
  "crashed_outcome en = \<lparr>oc_name = rs ''<task>'', oc_exit_code = 1, oc_peak = None,
     oc_errors = [rs ''tinysandbox: command task failed: '' @ en_join_error en @ newline], oc_counts = True\<rparr>"

text \<open>
  One poll of stage \<open>k\<close>. A task that panics is reported by \<open>join_next\<close> without its index, and its
  outcome is stored at index 0.
\<close>

definition poll_stage ::
  "('s, 'h) engine \<Rightarrow> 's io \<Rightarrow> 'h slot list \<Rightarrow> stage_outcome option list \<Rightarrow> nat
   \<Rightarrow> 's io \<times> 'h slot list \<times> stage_outcome option list" where
  "poll_stage en s slots outs k =
     (if \<not> k < length slots then (s, slots, outs)
      else case sl_task (slots ! k) of
        None \<Rightarrow> (s, slots, outs)
      | Some t \<Rightarrow>
          let ended = slots[k := (slots ! k)\<lparr>sl_task := None\<rparr>] in
          (case task_turn en s t of
             (s1, Continue t1) \<Rightarrow> (s1, slots[k := (slots ! k)\<lparr>sl_task := Some t1\<rparr>], outs)
           | (s1, Finished r) \<Rightarrow>
               (case stage_result (en_ops en) s1 (slots ! k) r of
                  (s2, Inr oc) \<Rightarrow> (s2, ended, outs[k := Some oc])
                | (s2, Inl _) \<Rightarrow> (drop_stage (en_ops en) s2 (slots ! k), ended, outs[0 := Some (crashed_outcome en)]))
           | (s1, Crashed) \<Rightarrow>
               (drop_stage (en_ops en) s1 (slots ! k), ended, outs[0 := Some (crashed_outcome en)])))"

definition all_ended :: "'h slot list \<Rightarrow> bool" where
  "all_ended slots \<longleftrightarrow> list_all (\<lambda>sl. sl_task sl = None) slots"

fun join_stages ::
  "('s, 'h) engine \<Rightarrow> nat \<Rightarrow> choice list \<Rightarrow> 's io \<Rightarrow> 'h slot list \<Rightarrow> stage_outcome option list
   \<Rightarrow> (choice list \<times> 's io) \<times> (unit, stage_outcome option list) outcome" where
  "join_stages en c [] s slots outs = (if all_ended slots then (([], s), Ok outs) else (([], s), Err ()))"
| "join_stages en c (ch # sched) s slots outs =
     (if all_ended slots then ((ch # sched, s), Ok outs)
      else case ch of
        Poll k \<Rightarrow>
          (case poll_stage en s slots outs k of (s1, slots1, outs1) \<Rightarrow> join_stages en c sched s1 slots1 outs1)
      | _ \<Rightarrow> join_stages en c sched (background en c s ch) slots outs)"

definition record_outcome :: "'s exec_state \<times> int \<Rightarrow> stage_outcome \<Rightarrow> 's exec_state \<times> int" where
  "record_outcome y oc =
     (case y of (x, _) \<Rightarrow>
        let x1 = record_peak (foldl write_stderr x (oc_errors oc)) (oc_peak oc) in
        (if oc_counts oc then x1\<lparr>ex_timings := ex_timings x1 @ [(oc_name oc, oc_exit_code oc)]\<rparr> else x1,
         oc_exit_code oc))"

definition run_pipeline_stages ::
  "('s, 'h) engine \<Rightarrow> 's exec_state \<Rightarrow> 'h prepared_stage list \<Rightarrow> 's exec_state \<times> (unit, int) outcome" where
  "run_pipeline_stages en x stages =
     (if stages = [] then (x, Ok 0)
      else
        let n = length stages; base = length (io_pipes (ex_io x));
            s0 = (ex_io x)\<lparr>io_pipes := io_pipes (ex_io x) @ replicate (n - 1) pipe_new\<rparr> in
        case spawn_stages s0 base n 0 stages of
          (s1, slots) \<Rightarrow>
            (case join_stages en (ex_control x) (ex_sched x) s1 slots (replicate n None) of
               ((sched, s2), Inl e) \<Rightarrow> (x\<lparr>ex_sched := sched, ex_io := s2\<rparr>, Inl e)
             | ((sched, s2), Inr outs) \<Rightarrow>
                 (case foldl record_outcome (x\<lparr>ex_sched := sched, ex_io := s2\<rparr>, 0)
                         (map the (filter (\<lambda>oc. oc \<noteq> None) outs)) of
                    (x1, status) \<Rightarrow>
                      (x1\<lparr>ex_pipe_bytes := ex_pipe_bytes x1 @
                         map (\<lambda>i. pp_bytes (pipe_of s2 i)) [base ..< base + (n - 1)]\<rparr>, Ok status))))"

text \<open>The loops of \<open>exec_pipeline\<close>: a status is an early return.\<close>

fun expand_all ::
  "('s, 'h) engine \<Rightarrow> 's exec_state \<Rightarrow> nat \<Rightarrow> command list
   \<Rightarrow> 's exec_state \<times> (unit, int + expanded_command list) outcome" where
  "expand_all en x budget [] = (x, Ok (Inr []))"
| "expand_all en x budget (Simple c # cs) =
     and_then (yield_now x) (\<lambda>x1 _.
       if exec_cancelled x1 then (x1, Ok (Inl 124))
       else case expand_command (en_layout en) budget c (se_env (ex_session x1)) (ex_last_status x1) of
         None \<Rightarrow>
           and_then (limit_exceeded x1 (rs ''tinysandbox: shell expansion limit exceeded'')) (\<lambda>x2 st. (x2, Ok (Inl st)))
       | Some (budget1, ec) \<Rightarrow>
           and_then (expand_all en x1 budget1 cs) (\<lambda>x2 r.
             (x2, Ok (case r of Inl st \<Rightarrow> Inl st | Inr ecs \<Rightarrow> Inr (ec # ecs)))))"

fun prepare_all ::
  "('s, 'h) engine \<Rightarrow> 's exec_state \<Rightarrow> expanded_command list
   \<Rightarrow> 's exec_state \<times> (unit, int + 'h prepared_stage list) outcome" where
  "prepare_all en x [] = (x, Ok (Inr []))"
| "prepare_all en x (ec # ecs) =
     and_then (yield_now x) (\<lambda>x1 _.
       if exec_cancelled x1 then (x1, Ok (Inl 124))
       else
         and_then (prepare_stage en x1 ec) (\<lambda>x2 st.
         and_then (prepare_all en x2 ecs) (\<lambda>x3 r.
           (x3, Ok (case r of Inl status \<Rightarrow> Inl status | Inr sts \<Rightarrow> Inr (st # sts))))))"

definition exec_pipeline ::
  "('s, 'h) engine \<Rightarrow> 's exec_state \<Rightarrow> pipeline \<Rightarrow> 's exec_state \<times> (unit, int) outcome" where
  "exec_pipeline en x pl =
     and_then (yield_now x) (\<lambda>x1 _.
       if exec_cancelled x1 then (x1, Ok 124)
       else if max_commands (en_limits en) - ex_command_count x1 < length (commands pl)
       then limit_exceeded x1 (rs ''tinysandbox: maximum command count exceeded'')
       else
         and_then (expand_all en x1 (max (shell_input_bytes (en_limits en)) (host_input_bytes (en_limits en))) (commands pl))
           (\<lambda>x2 r. case r of
              Inl status \<Rightarrow> (x2, Ok status)
            | Inr [ec] \<Rightarrow> exec_single_simple en x2 ec
            | Inr ecs \<Rightarrow>
                and_then (prepare_all en x2 ecs) (\<lambda>x3 q. case q of
                   Inl status \<Rightarrow> (x3, Ok status)
                 | Inr stages \<Rightarrow>
                     run_pipeline_stages en
                       (x3\<lparr>ex_command_count := ex_command_count x3 + length stages\<rparr>) stages)))"

subsection \<open>Lists and programs\<close>

fun exec_rest ::
  "('s, 'h) engine \<Rightarrow> 's exec_state \<Rightarrow> int \<Rightarrow> and_or list \<Rightarrow> 's exec_state \<times> (unit, int) outcome" where
  "exec_rest en x status [] = (x, Ok status)"
| "exec_rest en x status (it # its) =
     (if (case ao_op it of And \<Rightarrow> status = 0 | Or \<Rightarrow> status \<noteq> 0) then
        and_then (exec_pipeline en x (ao_pipeline it)) (\<lambda>x1 st.
          let x2 = x1\<lparr>ex_last_status := st\<rparr> in
          if ex_limit_hit x2 then (x2, Ok st) else exec_rest en x2 st its)
      else if ex_limit_hit x then (x, Ok status)
      else exec_rest en x status its)"

definition exec_and_or_list ::
  "('s, 'h) engine \<Rightarrow> 's exec_state \<Rightarrow> and_or_list \<Rightarrow> 's exec_state \<times> (unit, int) outcome" where
  "exec_and_or_list en x l =
     and_then (exec_pipeline en x (al_first l)) (\<lambda>x1 st.
       exec_rest en (x1\<lparr>ex_last_status := st\<rparr>) st (al_rest l))"

fun exec_lists ::
  "('s, 'h) engine \<Rightarrow> 's exec_state \<Rightarrow> and_or_list list \<Rightarrow> 's exec_state \<times> (unit, unit) outcome" where
  "exec_lists en x [] = (x, Ok ())"
| "exec_lists en x (l # ls) =
     and_then (yield_now x) (\<lambda>x1 _.
       if exec_cancelled x1 then (x1, Ok ())
       else
         and_then (exec_and_or_list en x1 l) (\<lambda>x2 st.
           let x3 = x2\<lparr>ex_last_status := st\<rparr> in
           if ex_limit_hit x3 then (x3, Ok ()) else exec_lists en x3 ls))"

record exec_result =
  er_stdout :: "byte list"
  er_stderr :: "byte list"
  er_exit_code :: int
  er_commands :: "(rstr \<times> int) list"
  er_pipe_bytes :: "nat list"
  er_stdout_truncated :: bool
  er_stderr_truncated :: bool
  er_peak :: "nat option"

definition plain_result :: "rstr \<Rightarrow> int \<Rightarrow> exec_result" where
  "plain_result msg code = \<lparr>er_stdout = [], er_stderr = utf8 (msg @ newline), er_exit_code = code, er_commands = [],
     er_pipe_bytes = [], er_stdout_truncated = False, er_stderr_truncated = False, er_peak = None\<rparr>"

text \<open>The mutable parts of \<open>Sandbox\<close>.\<close>

record 's sandbox =
  sb_world :: "'s world"
  sb_session :: session
  sb_commands_run :: nat

definition finish_exec :: "('s, 'h) engine \<Rightarrow> 's sandbox \<Rightarrow> 's exec_state \<Rightarrow> 's sandbox \<times> exec_result" where
  "finish_exec en sb x =
     (let se = (ex_session x)\<lparr>se_last_status := ex_last_status x\<rparr>;
          sb1 = sb\<lparr>sb_world := ex_world x,
            sb_session := (if en_persist en \<and> \<not> exec_cancelled x then se else sb_session sb),
            sb_commands_run := (sb_commands_run sb + min (ex_command_count x) u64_max) mod 2 ^ 64\<rparr>;
          out = capped_finish (io_stdout (ex_io x)); err = capped_finish (io_stderr (ex_io x)) in
      (sb1, \<lparr>er_stdout = fst out, er_stderr = fst err, er_exit_code = ex_last_status x,
        er_commands = ex_timings x, er_pipe_bytes = ex_pipe_bytes x, er_stdout_truncated = snd out,
        er_stderr_truncated = snd err, er_peak = ex_peak x\<rparr>))"

definition exec_inner ::
  "('s, 'h) engine \<Rightarrow> 's sandbox \<Rightarrow> choice list \<Rightarrow> nat \<Rightarrow> rstr \<Rightarrow> 's sandbox \<times> (unit, exec_result) outcome" where
  "exec_inner en sb sched c input =
     (if shell_input_bytes (en_limits en) < byte_len input
      then (sb, Ok (plain_result (rs ''tinysandbox: shell input limit exceeded'') 125))
      else case parse input of
        Inl (Errno e) \<Rightarrow> (sb, Ok (plain_result (show_parse_error e) 2))
      | Inl Panic \<Rightarrow> (sb, Inl Panic)
      | Inr program \<Rightarrow>
          (case exec_lists en (exec_state_new (sb_world sb) sched c (sb_session sb) (en_limits en)) (lists program) of
             (x, Inl e) \<Rightarrow> (sb\<lparr>sb_world := ex_world x\<rparr>, Inl e)
           | (x, Inr _) \<Rightarrow> (case finish_exec en sb x of (sb1, r) \<Rightarrow> (sb1, Ok r))))"

text \<open>
  \<open>Sandbox::exec\<close>: a new control, the timeout, and the guard that cancels the control when the
  execution ends in whatever way. A panic unwinds through the caller.
\<close>

definition exec :: "('s, 'h) engine \<Rightarrow> 's sandbox \<Rightarrow> choice list \<Rightarrow> rstr \<Rightarrow> 's sandbox \<times> (unit, exec_result) outcome" where
  "exec en sb sched input =
     (case control_new (sb_world sb) (en_limits en) of
        (w, c) \<Rightarrow>
          (case exec_inner en (sb\<lparr>sb_world := w\<rparr>) sched c input of
             (sb1, r) \<Rightarrow>
               (sb1\<lparr>sb_world := control_cancel (en_ops en) (sb_world sb1) c\<rparr>,
                case r of
                  Inl Panic \<Rightarrow> Inl Panic
                | Inl (Errno _) \<Rightarrow> Ok (plain_result (rs ''tinysandbox: command timed out'') 124)
                | Inr res \<Rightarrow>
                    Ok (if control_cancelled (control_of (sb_world sb1) c)
                        then plain_result (rs ''tinysandbox: command timed out'') 124 else res))))"

end
