(* ===== verification/Exec_World.thy ===== *)
theory Exec_World
  imports Exec Fs_Properties
begin

text \<open>
  An execution acts on the filesystem only through facade events. \<open>evolves\<close> is the closure of
  the facade's step; every function of the engine moves the world along it, provided the
  commands act through the streams and the facade they are given.
\<close>

inductive evolves :: "'s vfs_ops \<Rightarrow> 's world \<Rightarrow> 's world \<Rightarrow> bool" for ops :: "'s vfs_ops" where
  evolves_refl: "evolves ops w w"
| evolves_step: "evolves ops u w \<Longrightarrow> enabled w e \<Longrightarrow> evolves ops u (fs_exec ops w e)"

lemma evolves_trans: "evolves ops v w \<Longrightarrow> evolves ops u v \<Longrightarrow> evolves ops u w"
  by (induction rule: evolves.induct) (auto intro: evolves.intros)

lemma evolves_event: "enabled w e \<Longrightarrow> evolves ops w (fs_exec ops w e)"
  by (rule evolves_step [OF evolves_refl])

lemma evolves_reach:
  "evolves ops u w \<Longrightarrow> fs_reach ops valid u L \<Longrightarrow> \<exists>L'. fs_reach ops valid w L'"
  by (induction rule: evolves.induct) (auto intro: fs_reach.event)

text \<open>Registries and controls are never removed.\<close>

definition grows :: "'s world \<Rightarrow> 's world \<Rightarrow> bool" where
  "grows w w' \<longleftrightarrow> length (w_registries w) \<le> length (w_registries w')
     \<and> length (w_controls w) \<le> length (w_controls w')"

lemma steady_grows: "steady w w' \<Longrightarrow> grows w w'"
  by (simp add: steady_def grows_def)

lemma open_finish_registries:
  "length (w_registries (fst (open_finish ops w po))) = length (w_registries w)"
proof -
  have "length (w_registries (registry_release v r)) = length (w_registries v)" for v :: "'a world" and r
    using steady_release(3) [of v v r] by (simp add: steady_def)
  then show ?thesis
    by (auto simp: open_finish_def on_vfs_def Let_def registry_remove_def
        split: prod.splits sum.splits fault.splits)
qed

lemma cancel_grows: "grows w (control_cancel ops w c)"
proof -
  have fold: "grows v (foldl (registry_abandon_all ops) v ids)" for v ids
  proof (induction ids arbitrary: v)
    case (Cons r ids)
    have "grows v (registry_abandon_all ops v r)" by (rule steady_grows [OF steady_abandon_all]) simp
    then show ?case using Cons.IH [of "registry_abandon_all ops v r"] by (auto simp: grows_def)
  qed (simp add: grows_def)
  show ?thesis
    using fold [of "update_control w c (\<lambda>k. k\<lparr>ct_cancelled := True, ct_registries := []\<rparr>)"]
    by (simp add: control_cancel_def Let_def grows_def) (simp add: update_control_def)
qed

lemma event_grows: "grows w (fs_exec ops w e)"
proof (cases e)
  case (EExpire c)
  have "steady w (fs_expire w c)" unfolding fs_expire_def by (rule steady_control) simp_all
  then show ?thesis using EExpire by (simp add: steady_grows)
next
  case (ECleanup j)
  have "steady w (run_cleanup ops (take_job w j) j)" by (rule steady_cleanup) (simp add: take_job_def)
  then show ?thesis using ECleanup by (simp add: steady_grows)
next
  case (EOpened po)
  then show ?thesis by (simp add: grows_def open_finish_length open_finish_registries)
next
  case (ENewControl l)
  then show ?thesis by (simp add: grows_def control_new_def)
next
  case (ENewFs bin cwd l oc)
  then show ?thesis by (simp add: grows_def fs_build_def Let_def update_control_def split: option.split)
qed (simp_all add: cancel_grows steady_grows steady_calls steady_abandon steady_abandon_all)

lemma evolves_grows: "evolves ops u w \<Longrightarrow> grows u w"
proof (induction rule: evolves.induct)
  case (evolves_step u w e)
  then show ?case using event_grows [of w ops e] by (auto simp: grows_def)
qed (simp add: grows_def)

lemma facade_ok_later: "facade_ok u f \<Longrightarrow> evolves ops u w \<Longrightarrow> facade_ok w f"
  using evolves_grows [of ops u w] by (simp add: facade_ok_def grows_def)

subsection \<open>Facade calls as events\<close>

text \<open>A fresh admitted open is the last of the pending ones, and finishing it is an event.\<close>

lemma open_start_pending:
  "open_start ops w f p m = (w', Inr po) \<Longrightarrow> po \<in> set (w_pending w')"
  by (auto simp: open_start_def Let_def dispatch_path_def dispatch_def attempt_cases and_then_cases
      split: if_splits prod.splits sum.splits fault.splits)

lemma evolves_open:
  assumes "facade_ok w f"
  shows "evolves ops w (fst (fs_open ops w f p m))"
proof -
  have start: "evolves ops w (fst (open_start ops w f p m))"
    using evolves_event [of w "EOpen f p m" ops] assms by simp
  show ?thesis
  proof (cases "open_start ops w f p m")
    case (Pair w1 r)
    show ?thesis
    proof (cases r)
      case (Inr po)
      then have "evolves ops w1 (fst (open_finish ops w1 po))"
        using evolves_event [of w1 "EOpened po" ops] open_start_pending Pair by fastforce
      then show ?thesis using start Pair Inr by (simp add: fs_open_def) (rule evolves_trans)
    qed (use start Pair in \<open>simp add: fs_open_def\<close>)
  qed
qed

lemma evolves_calls:
  assumes "facade_ok w f"
  shows "evolves ops w (fst (fs_stat ops w f p))" "evolves ops w (fst (fs_write_at ops w f h off d))"
    "evolves ops w (fst (fs_finish ops w f h ab))" "evolves ops w (fst (fs_close ops w f h))"
    "evolves ops w (registry_abandon_all ops w (fs_handles f))"
  using assms evolves_event [of w "EStat f p" ops] evolves_event [of w "EWriteAt f h off d" ops]
    evolves_event [of w "EFinish f h ab" ops] evolves_event [of w "EFinish f h False" ops]
    evolves_event [of w "EDropRegistry (fs_handles f)" ops]
  by (simp_all add: fs_close_def facade_ok_def)

lemma evolves_expire: "c < length (w_controls w) \<Longrightarrow> evolves ops w (fs_expire w c)"
  using evolves_event [of w "EExpire c" ops] by simp

lemma evolves_scoped:
  assumes "c < length (w_controls w)" and "fs_scoped w bin cwd c = (w', f)"
  shows "evolves ops w w'" "facade_ok w' f"
proof -
  have "w' = fst (fs_build w bin cwd (ct_limits (control_of w c)) (Some c))"
    using assms(2) by (simp add: fs_scoped_def)
  then show "evolves ops w w'"
    using evolves_event [of w "ENewFs bin cwd (ct_limits (control_of w c)) (Some c)" ops] assms(1) by simp
  show "facade_ok w' f"
    using assms(2) by (auto simp: fs_scoped_def fs_build_def Let_def facade_ok_def update_control_def)
qed

subsection \<open>The shared state of an execution\<close>

text \<open>
  What a step of the engine keeps, for the control \<open>c\<close> of the execution: the world evolves and
  every redirect file has a live facade.
\<close>

definition files_ok :: "'s io \<Rightarrow> bool" where
  "files_ok s \<longleftrightarrow> (\<forall>f\<in>set (io_files s). facade_ok (io_world s) (rf_fs f))"

text \<open>A capture that some sequence of writes has filled.\<close>

definition filled :: "nat \<Rightarrow> capped_output \<Rightarrow> bool" where
  "filled cap c \<longleftrightarrow> (\<exists>ds. c = capture_chunks cap ds)"

lemma filled_new [simp]: "filled cap (capped_new cap)"
  unfolding filled_def by (rule exI [of _ "[]"]) (simp add: capture_chunks_def)

lemma filled_write: "filled cap c \<Longrightarrow> filled cap (capped_write c d)"
  unfolding filled_def capture_chunks_def by (metis foldl_Cons foldl_Nil foldl_append)

lemma filled_bound:
  assumes "filled cap c" and "cap \<le> isize_max"
  shows "length (fst (capped_finish c)) \<le> max cap (length truncation_marker)"
  using assms capture_chunks_inv capped_finish_eq captured_bound by (metis filled_def)

definition captures_ok :: "nat \<Rightarrow> nat \<Rightarrow> 's io \<Rightarrow> bool" where
  "captures_ok n m s \<longleftrightarrow> filled n (io_stdout s) \<and> filled m (io_stderr s)"

lemma captures_ok_append: "captures_ok n m s \<Longrightarrow> captures_ok n m (capture_append s fd d)"
  by (simp add: captures_ok_def capture_append_def filled_write split: capture_fd.split)

lemma captures_ok_upd [simp]:
  "captures_ok n m (s\<lparr>io_world := w\<rparr>) = captures_ok n m s" "captures_ok n m (s\<lparr>io_pipes := ps\<rparr>) = captures_ok n m s"
  "captures_ok n m (s\<lparr>io_files := fs\<rparr>) = captures_ok n m s" "captures_ok n m (set_pipe s i p) = captures_ok n m s"
  "captures_ok n m (set_file s i f) = captures_ok n m s"
  by (simp_all add: captures_ok_def set_pipe_def set_file_def)

definition io_moves :: "'s vfs_ops \<Rightarrow> 's io \<Rightarrow> 's io \<Rightarrow> bool" where
  "io_moves ops s s' \<longleftrightarrow> evolves ops (io_world s) (io_world s') \<and> length (io_files s) \<le> length (io_files s')
     \<and> (files_ok s \<longrightarrow> files_ok s') \<and> (\<forall>n m. captures_ok n m s \<longrightarrow> captures_ok n m s')"

lemma io_moves_refl [simp]: "io_moves ops s s"
  by (simp add: io_moves_def evolves_refl)

lemma io_moves_trans: "io_moves ops t u \<Longrightarrow> io_moves ops s t \<Longrightarrow> io_moves ops s u"
  by (force simp: io_moves_def intro: evolves_trans)

lemma files_ok_later:
  assumes "files_ok s" and "evolves ops (io_world s) w"
  shows "files_ok (s\<lparr>io_world := w\<rparr>)"
  using assms facade_ok_later by (fastforce simp: files_ok_def)

lemma io_moves_world: "evolves ops (io_world s) w \<Longrightarrow> io_moves ops s (s\<lparr>io_world := w\<rparr>)"
  by (auto simp: io_moves_def intro: files_ok_later)

lemma io_moves_upd [simp]:
  "io_moves ops s (t\<lparr>io_pipes := ps\<rparr>) = io_moves ops s t" "io_moves ops s (set_pipe t i p) = io_moves ops s t"
  by (simp_all add: io_moves_def files_ok_def) (simp_all add: set_pipe_def)

lemma io_moves_append [simp]: "io_moves ops s t \<Longrightarrow> io_moves ops s (capture_append t fd d)"
proof -
  have "files_ok (capture_append t fd d) = files_ok t" "io_world (capture_append t fd d) = io_world t"
    "io_files (capture_append t fd d) = io_files t"
    by (simp_all add: files_ok_def capture_append_def split: capture_fd.split)
  then show "io_moves ops s t \<Longrightarrow> io_moves ops s (capture_append t fd d)"
    by (auto simp: io_moves_def captures_ok_append)
qed

lemma files_ok_set:
  "files_ok s \<Longrightarrow> facade_ok (io_world s) (rf_fs f) \<Longrightarrow> files_ok (set_file s i f)"
  using set_update_subset_insert [of "io_files s" i f] by (auto simp: files_ok_def set_file_def)

text \<open>Replacing the state of a file, its facade kept.\<close>

lemma io_moves_file:
  assumes "io_moves ops s t" and "i < length (io_files t) \<Longrightarrow> rf_fs f = rf_fs (file_of t i)"
  shows "io_moves ops s (set_file t i f)"
proof (cases "i < length (io_files t)")
  case True
  then have "files_ok (set_file t i f)" if "files_ok t"
    using that assms(2) nth_mem [of i "io_files t"] by (intro files_ok_set) (auto simp: files_ok_def)
  then show ?thesis using assms(1) by (simp add: io_moves_def set_file_def)
next
  case False
  then show ?thesis using assms(1) by (simp add: set_file_def list_update_beyond)
qed

lemma io_moves_call:
  "io_moves ops s t \<Longrightarrow> evolves ops (io_world t) w \<Longrightarrow> io_moves ops s (t\<lparr>io_world := w\<rparr>)"
  by (rule io_moves_trans [OF io_moves_world])

lemma file_facade: "files_ok s \<Longrightarrow> i < length (io_files s) \<Longrightarrow> facade_ok (io_world s) (rf_fs (file_of s i))"
  by (simp add: files_ok_def)

lemma redirect_step_moves:
  assumes "files_ok s" and "i < length (io_files s)"
  shows "io_moves ops s (redirect_step ops s i)"
proof -
  let ?f = "file_of s i"
  have same: "io_moves ops s (set_file s i (?f\<lparr>rf_task := []\<rparr>))" by (rule io_moves_file) simp_all
  have call: "io_moves ops s (set_file (s\<lparr>io_world := fst (fs_write_at ops (io_world s) (rf_fs ?f) h off d)\<rparr>) i g)"
    if "rf_fs g = rf_fs ?f" for h off d g
    using evolves_calls(2) [OF file_facade [OF assms]] that
    by (intro io_moves_file io_moves_world) simp_all
  show ?thesis
    unfolding redirect_step_def Let_def
    using same call by (auto split: option.split prod.split sum.split simp: case_prod_beta')
qed

lemma io_moves_files_ok: "io_moves ops s t \<Longrightarrow> files_ok s \<Longrightarrow> files_ok t"
  by (simp add: io_moves_def)

lemma io_moves_length: "io_moves ops s t \<Longrightarrow> i < length (io_files s) \<Longrightarrow> i < length (io_files t)"
  by (auto simp: io_moves_def)

lemma redirect_drain_moves: "files_ok s \<Longrightarrow> io_moves ops s (redirect_drain ops s i)"
proof (induction ops s i rule: redirect_drain.induct)
  case (1 ops s i)
  show ?case
  proof (cases "i < length (io_files s) \<and> rf_task (file_of s i) \<noteq> []")
    case True
    note step = redirect_step_moves [OF 1(2) conjunct1 [OF True], of ops]
    show ?thesis
      using io_moves_trans [OF 1(1) [OF True io_moves_files_ok [OF step 1(2)]] step] True
      by (subst redirect_drain.simps) simp
  next
    case False
    then show ?thesis by (subst redirect_drain.simps) auto
  qed
qed

lemma redirect_finish_moves:
  assumes "files_ok s" and "i < length (io_files s)"
  shows "io_moves ops s (fst (redirect_finish ops s i))"
proof -
  let ?t = "redirect_drain ops s i"
  let ?f = "file_of ?t i"
  have t: "io_moves ops s ?t" by (rule redirect_drain_moves [OF assms(1)])
  have fac: "facade_ok (io_world ?t) (rf_fs ?f)"
    using io_moves_files_ok [OF t assms(1)] io_moves_length [OF t assms(2)] by (rule file_facade)
  have fin: "io_moves ops s (set_file (?t\<lparr>io_world := fst (fs_finish ops (io_world ?t) (rf_fs ?f) h ab)\<rparr>) i g)"
    if "rf_fs g = rf_fs ?f" for h ab g
    using evolves_calls(3) [OF fac] that by (intro io_moves_file io_moves_call [OF t]) simp_all
  show ?thesis
    unfolding redirect_finish_def Let_def
    using t fin by (auto split: option.split prod.split sum.split fault.split simp: case_prod_beta')
qed

text \<open>Writing and reading streams touches no file of the backend.\<close>

lemma poll_write_moves: "io_moves ops s (fst (poll_write s wr d))"
proof (cases wr)
  case (RedirectWriter i)
  have "rf_fs (fst (redirect_write (file_of s i) d)) = rf_fs (file_of s i)"
    by (simp add: redirect_write_def Let_def split: option.split)
  then show ?thesis
    using RedirectWriter io_moves_file [of ops s s i "fst (redirect_write (file_of s i) d)"]
    by (simp add: poll_write_def case_prod_beta')
qed (simp_all add: poll_write_def case_prod_beta')

subsection \<open>Commands\<close>

text \<open>
  What a command may do to the shared state: call the facade, write to a stream, read from a
  pipe. Commands supplied by the host are assumed to do nothing else.
\<close>

inductive io_act :: "'s vfs_ops \<Rightarrow> 's io \<Rightarrow> 's io \<Rightarrow> bool" for ops :: "'s vfs_ops" where
  act_fs: "enabled (io_world s) e \<Longrightarrow> io_act ops s (s\<lparr>io_world := fs_exec ops (io_world s) e\<rparr>)"
| act_write: "io_act ops s (fst (poll_write s wr d))"
| act_read: "i < length (io_pipes s) \<Longrightarrow> io_act ops s (set_pipe s i (fst (pipe_read (pipe_of s i) n)))"

definition handlers_tame :: "('s, 'h) engine \<Rightarrow> bool" where
  "handlers_tame en \<longleftrightarrow> (\<forall>h s. (io_act (en_ops en))\<^sup>*\<^sup>* s (fst (en_poll en h s)))"

lemma io_act_moves: "io_act ops s t \<Longrightarrow> io_moves ops s t"
  by (induction rule: io_act.induct) (auto intro: io_moves_world evolves_event poll_write_moves)

lemma io_acts_move: "(io_act ops)\<^sup>*\<^sup>* s t \<Longrightarrow> io_moves ops s t"
  by (induction rule: rtranclp_induct) (auto intro: io_moves_trans io_act_moves)

fun task_ok :: "'s world \<Rightarrow> 'h stage_task \<Rightarrow> bool" where
  "task_ok w (Start st inp out err) = facade_ok w (ps_fs st)"
| "task_ok w t = True"

lemma builtin_moves:
  assumes "facade_ok (bc_world x) f"
  shows "evolves ops (bc_world x) (bc_world (fst (run_shell_builtin_stage ops f b args x)))"
proof -
  have print: "bc_world (print_env e y) = bc_world y" for e and y :: "'a builtin_context"
    by (induction e y rule: print_env.induct) (simp_all add: say_out_def)
  have exp: "bc_world (fst (export_args as y)) = bc_world y" for as and y :: "'a builtin_context"
    by (induction as y rule: export_args.induct) (auto simp: session_env_def say_err_def split: option.splits)
  have uns: "bc_world (fst (unset_args as y)) = bc_world y" for as and y :: "'a builtin_context"
    by (induction as y rule: unset_args.induct) (auto simp: session_env_def say_err_def)
  have cd: "evolves ops (bc_world x) (bc_world (fst (run_cd ops f args x)))"
    using evolves_calls(1) [OF assms, of ops] evolves_refl [of ops "bc_world x"]
    by (auto simp: run_cd_def Let_def say_err_def split: list.split option.split prod.split sum.split fault.split)
       (metis fst_conv)+
  show ?thesis
    using cd evolves_refl [of ops "bc_world x"]
    by (auto simp: run_shell_builtin_stage_def print exp uns case_prod_beta' split: shell_builtin.split)
qed

lemma write_turn_moves: "io_moves ops s (fst (write_turn s strict ws res))"
proof (cases ws)
  case (Cons w ws')
  then show ?thesis
    using poll_write_moves [of ops s "fst w" "snd w"]
    by (cases w) (auto simp: Let_def split: prod.split poll.split sum.split)
qed simp

lemma start_registered_moves:
  assumes "facade_ok (io_world s) (ps_fs st)"
  shows "io_moves (en_ops en) s (fst (start_registered en s st inp out err))"
proof (cases "ps_command st")
  case (Some r)
  show ?thesis
  proof (cases r)
    case (Shell b)
    obtain x where x: "x = \<lparr>bc_world = io_world s, bc_session = \<lparr>se_cwd = ps_cwd st, se_env = ps_env st,
        se_last_status = (case (case bm_get (ps_env st) (rs ''?'') of None \<Rightarrow> None | Some t \<Rightarrow> parse_i32 t)
          of None \<Rightarrow> 0 | Some n \<Rightarrow> n)\<rparr>, bc_env = ps_env st, bc_stdout = [], bc_stderr = []\<rparr>" by simp
    then have w: "bc_world x = io_world s" by simp
    have "evolves (en_ops en) (io_world s)
        (bc_world (fst (run_shell_builtin_stage (en_ops en) (ps_fs st) b (ps_args st) x)))"
      using builtin_moves [of x "ps_fs st" "en_ops en" b "ps_args st"] assms unfolding w .
    from io_moves_world [OF this] show ?thesis
      using Some Shell unfolding start_registered_def Let_def x
      by (auto split: prod.split sum.split)
  qed (use Some in \<open>simp add: start_registered_def\<close>)
qed (simp add: start_registered_def)

lemma task_turn_moves:
  assumes "handlers_tame en" and "task_ok (io_world s) t"
  shows "io_moves (en_ops en) s (fst (task_turn en s t))"
proof (cases t)
  case (Start st inp out err)
  then show ?thesis
    using start_registered_moves assms(2) by (auto simp: task_turn_def split: stage_kind.split)
next
  case (Running h)
  have "io_moves (en_ops en) s (fst (en_poll en h s))"
    using assms(1) io_acts_move unfolding handlers_tame_def by blast
  then show ?thesis using Running by (auto simp: task_turn_def split: prod.split progress.split)
next
  case (Writes strict ws r)
  then show ?thesis using write_turn_moves by (simp add: task_turn_def)
qed

text \<open>After its first turn a task owns no facade of its own.\<close>

lemma task_turn_ok: "task_turn en s t = (s', Continue t') \<Longrightarrow> task_ok w t'"
proof (cases t)
  case (Writes strict ws r)
  assume "task_turn en s t = (s', Continue t')"
  then show ?thesis
    using Writes by (cases "(s, strict, ws, r)" rule: write_turn.cases)
      (auto simp: task_turn_def Let_def split: if_splits prod.splits poll.splits sum.splits)
qed (auto simp: task_turn_def start_registered_def Let_def
    split: stage_kind.splits option.splits registered.splits prod.splits sum.splits progress.splits)

lemma background_moves:
  assumes "files_ok s" and "c < length (w_controls (io_world s))"
  shows "io_moves (en_ops en) s (background en c s ch)"
  using assms redirect_step_moves evolves_expire [of c "io_world s" "en_ops en"]
  by (auto simp: background_def intro: io_moves_world split: choice.split)

lemma io_moves_controls:
  "io_moves ops s t \<Longrightarrow> c < length (w_controls (io_world s)) \<Longrightarrow> c < length (w_controls (io_world t))"
  using evolves_grows by (fastforce simp: io_moves_def grows_def)

lemma task_ok_later: "task_ok (io_world s) t \<Longrightarrow> io_moves ops s s' \<Longrightarrow> task_ok (io_world s') t"
  by (cases t) (auto simp: io_moves_def dest: facade_ok_later)

lemma await_task_moves:
  assumes "handlers_tame en"
  shows "files_ok s \<Longrightarrow> c < length (w_controls (io_world s)) \<Longrightarrow> task_ok (io_world s) t \<Longrightarrow>
    io_moves (en_ops en) s (snd (fst (await_task en c sched s t)))"
proof (induction sched arbitrary: s t)
  case (Cons ch sched)
  have bg: ?case if "\<And>i. ch \<noteq> Poll i"
  proof -
    let ?s = "background en c s ch"
    have m: "io_moves (en_ops en) s ?s" by (rule background_moves [OF Cons.prems(1,2)])
    have "io_moves (en_ops en) ?s (snd (fst (await_task en c sched ?s t)))"
      using Cons.prems m by (intro Cons.IH io_moves_files_ok [OF m] io_moves_controls [OF m] task_ok_later [OF _ m])
    then show ?thesis using io_moves_trans [OF _ m] that by (cases ch) auto
  qed
  show ?case
  proof (cases ch)
    case (Poll i)
    obtain s1 tn where tt: "task_turn en s t = (s1, tn)" by fastforce
    have m: "io_moves (en_ops en) s s1" using task_turn_moves [OF assms Cons.prems(3)] tt by simp
    show ?thesis
    proof (cases tn)
      case (Continue t1)
      then have "io_moves (en_ops en) s1 (snd (fst (await_task en c sched s1 t1)))"
        using Cons.prems task_turn_ok tt
        by (intro Cons.IH io_moves_files_ok [OF m] io_moves_controls [OF m]) auto
      then show ?thesis using io_moves_trans [OF _ m] Poll tt Continue by simp
    qed (use m Poll tt in simp_all)
  qed (use bg in auto)
qed simp

subsection \<open>Redirects\<close>

fun dest_ok :: "'s io \<Rightarrow> output_destination \<Rightarrow> bool" where
  "dest_ok s (FileTo i) = (i < length (io_files s))"
| "dest_ok s (CaptureTo fd) = True"

definition redirects_ok :: "'s io \<Rightarrow> prepared_redirects \<Rightarrow> bool" where
  "redirects_ok s rd \<longleftrightarrow> dest_ok s (pr_stdout rd) \<and> dest_ok s (pr_stderr rd)"

lemma redirects_ok_default [simp]: "redirects_ok s prepared_default"
  by (simp add: redirects_ok_def prepared_default_def)

lemma dest_ok_later: "dest_ok s d \<Longrightarrow> io_moves ops s t \<Longrightarrow> dest_ok t d"
  by (cases d) (auto simp: io_moves_def)

lemma redirects_ok_later: "redirects_ok s rd \<Longrightarrow> io_moves ops s t \<Longrightarrow> redirects_ok t rd"
  by (auto simp: redirects_ok_def intro: dest_ok_later)

lemma sinks_ok: "dest_ok s d \<Longrightarrow> i \<in> set (sinks_of d) \<Longrightarrow> i < length (io_files s)"
  by (cases d) auto

lemma on_world_moves:
  "evolves ops (io_world s) (fst out) \<Longrightarrow> io_moves ops s (fst (on_world s path out))"
  by (simp add: on_world_def case_prod_beta' io_moves_world)

lemma close_stdin_moves:
  assumes "facade_ok (io_world s) f"
  shows "io_moves ops s (fst (close_stdin_redirect ops f s red))"
proof (cases red)
  case (Some r)
  have "io_moves ops s (s\<lparr>io_world := fst (fs_close ops (io_world s) f (ir_handle r))\<rparr>)"
    by (intro io_moves_world evolves_calls assms)
  then show ?thesis using Some by (auto simp: close_stdin_redirect_def split: prod.split sum.split fault.split)
qed (simp add: close_stdin_redirect_def)

text \<open>Applying one redirect, then all of them.\<close>

lemma redirect_input_moves:
  assumes "facade_ok (io_world s) f" and "redirects_ok s rd" and "redirect_input ops f s rd path = (t, rd', r)"
  shows "io_moves ops s t \<and> redirects_ok t rd'"
proof -
  obtain s1 q where o: "on_world s path (fs_open ops (io_world s) f path om_read_only) = (s1, q)" by fastforce
  have m1: "io_moves ops s s1"
    using on_world_moves [OF evolves_open [OF assms(1), of ops path om_read_only], of path] o by simp
  have f1: "facade_ok (io_world s1) f" using assms(1) m1 facade_ok_later by (auto simp: io_moves_def)
  have close: "io_moves ops s (fst (on_world s1 p (fs_close ops (io_world s1) f h)))" for p h
    by (rule io_moves_trans [OF on_world_moves m1]) (rule evolves_calls [OF f1])
  have "io_moves ops s t"
  proof (cases q)
    case (Inr h)
    then show ?thesis
      using assms(3) o m1 close
      by (auto simp: redirect_input_def Let_def split: option.splits prod.splits) (metis fst_conv)
  qed (use assms(3) o m1 in \<open>auto simp: redirect_input_def\<close>)
  moreover have "pr_stdout rd' = pr_stdout rd" "pr_stderr rd' = pr_stderr rd"
    using assms(3) by (auto simp: redirect_input_def Let_def split: option.splits prod.splits sum.splits)
  ultimately show ?thesis using redirects_ok_later [OF assms(2)] by (simp add: redirects_ok_def)
qed

lemma redirect_output_moves:
  assumes "facade_ok (io_world s) f" and "redirects_ok s rd" and "redirect_output ops f s rd fd app path = (t, rd', r)"
  shows "io_moves ops s t \<and> redirects_ok t rd'"
proof -
  obtain m where m: "m = (if app then om_set_append (om_set_create om_write_only)
      else om_set_truncate (om_set_create om_write_only))" by simp
  obtain s1 q where o: "on_world s path (fs_open ops (io_world s) f path m) = (s1, q)" by fastforce
  have m1: "io_moves ops s s1"
    using on_world_moves [OF evolves_open [OF assms(1), of ops path m], of path] o by simp
  have f1: "facade_ok (io_world s1) f" using assms(1) m1 facade_ok_later by (auto simp: io_moves_def)
  have rd1: "redirects_ok s1 rd" by (rule redirects_ok_later [OF assms(2) m1])
  note eq = assms(3) [unfolded redirect_output_def Let_def, folded m, unfolded o]
  show ?thesis
  proof (cases q)
    case (Inl e)
    then show ?thesis using eq m1 rd1 by simp
  next
    case (Inr h)
    let ?g = "\<lparr>rf_path = path, rf_fs = f, rf_handle = Some h, rf_offset = 0, rf_error = None, rf_task = []\<rparr>"
    have t: "t = s1\<lparr>io_files := io_files s1 @ [?g]\<rparr>" using eq Inr by simp
    have "io_moves ops s1 t" using f1 by (auto simp: t io_moves_def evolves_refl files_ok_def)
    moreover from redirects_ok_later [OF rd1 this] have "redirects_ok t rd'"
      using eq Inr by (auto simp: redirects_ok_def t)
    ultimately show ?thesis using io_moves_trans [OF _ m1] by blast
  qed
qed

lemma apply_redirect_moves:
  assumes "facade_ok (io_world s) f" and "redirects_ok s rd" and "apply_redirect ops f s rd red words = (t, rd', r)"
  shows "io_moves ops s t \<and> redirects_ok t rd'"
proof (cases "rd_target red")
  case (TFd fd)
  then show ?thesis
    using assms(2,3)
    by (auto simp: apply_redirect_def apply_fd_redirect_def redirects_ok_def Let_def split: if_splits)
next
  case (TWord w)
  then show ?thesis
    using assms redirect_input_moves [OF assms(1,2)] redirect_output_moves [OF assms(1,2)]
    by (auto simp: apply_redirect_def Let_def split: list.splits if_splits)
qed

lemma apply_redirects_moves:
  assumes "facade_ok (io_world s) f" and "redirects_ok s rd" and "apply_redirects ops f s rd rws = (t, rd', r)"
  shows "io_moves ops s t \<and> redirects_ok t rd'"
  using assms
proof (induction rws arbitrary: s rd)
  case (Cons rw rws)
  obtain red words where rw: "rw = (red, words)" by fastforce
  obtain s1 rd1 r1 where one: "apply_redirect ops f s rd red words = (s1, rd1, r1)" by (metis prod_cases3)
  note m1 = apply_redirect_moves [OF Cons.prems(1,2) one]
  have f1: "facade_ok (io_world s1) f" using Cons.prems(1) m1 facade_ok_later by (auto simp: io_moves_def)
  show ?case
  proof (cases "is_ok (fs_check (io_world s) (fs_handles f)) \<and> is_ok r1")
    case True
    then have "apply_redirects ops f s1 rd1 rws = (t, rd', r)"
      using Cons.prems(3) rw one by (auto simp: is_ok_iff)
    from Cons.IH [OF f1 conjunct2 [OF m1] this] show ?thesis using io_moves_trans m1 by blast
  next
    case False
    then show ?thesis
      using Cons.prems rw one m1 by (auto simp: is_ok_iff split: if_splits sum.splits)
  qed
qed auto

lemma finish_superseded_moves:
  "files_ok s \<Longrightarrow> \<forall>i\<in>set is. i < length (io_files s) \<Longrightarrow>
   io_moves ops s (fst (finish_superseded ops s rd r is))"
proof (induction "is" arbitrary: s r)
  case (Cons i "is")
  have m: "io_moves ops s (fst (redirect_finish ops s i))"
    using Cons.prems by (intro redirect_finish_moves) simp_all
  have rest: "io_moves ops s (fst (finish_superseded ops (fst (redirect_finish ops s i)) rd q is))" for q
    using Cons.prems io_moves_length [OF m]
    by (intro io_moves_trans [OF Cons.IH m] io_moves_files_ok [OF m]) auto
  show ?case
    using rest m Cons by (auto split: prod.split sum.split fault.split)
qed simp

lemma prepare_redirects_moves:
  assumes "facade_ok (io_world s) f" and "files_ok s" and "prepare_redirects ops f s simple targets = (t, r)"
  shows "io_moves ops s t \<and> (case r of Inr rd \<Rightarrow> redirects_ok t rd | Inl _ \<Rightarrow> True)"
proof -
  obtain s1 rd q where a: "apply_redirects ops f s prepared_default (zip (sc_redirects simple) targets) = (s1, rd, q)"
    by (metis prod_cases3)
  note m1 = apply_redirects_moves [OF assms(1) redirects_ok_default a]
  obtain s2 q2 where b: "finish_superseded ops s1 rd q [length (io_files s) ..< length (io_files s1)] = (s2, q2)"
    by fastforce
  have "files_ok s1" using m1 io_moves_files_ok assms(2) by blast
  then have "io_moves ops s1 s2"
    using finish_superseded_moves [of s1 "[length (io_files s) ..< length (io_files s1)]" ops rd q] b by simp
  then have m2: "io_moves ops s s2" "redirects_ok s2 rd"
    using m1 io_moves_trans redirects_ok_later by blast+
  have f2: "facade_ok (io_world s2) f" using assms(1) m2(1) facade_ok_later by (auto simp: io_moves_def)
  have m3: "io_moves ops s (fst (close_stdin_redirect ops f s2 x))" for x
    by (rule io_moves_trans [OF close_stdin_moves [OF f2] m2(1)])
  show ?thesis
    using assms(3) m1 m2 m3 a b
    by (auto simp: prepare_redirects_def and_then_def split: prod.splits sum.splits fault.splits) (metis fst_conv)+
qed

lemma finish_destinations_moves:
  "files_ok s \<Longrightarrow> list_all (dest_ok s) ds \<Longrightarrow> io_moves ops s (fst (finish_destinations ops s r ds))"
proof (induction ops s r ds rule: finish_destinations.induct)
  case (3 ops s r i ds)
  have m: "io_moves ops s (fst (redirect_finish ops s i))"
    using 3 by (intro redirect_finish_moves) simp_all
  have later: "list_all (dest_ok (fst (redirect_finish ops s i))) ds"
    using 3 dest_ok_later [OF _ m] by (auto simp: list_all_iff)
  note ok = io_moves_files_ok [OF m "3.prems"(1)]
  show ?case
    using 3 m later ok io_moves_trans [OF _ m] by (auto split: prod.split sum.split fault.split)
qed simp_all

lemma fst_and_then_pure: "fst (and_then out (\<lambda>s v. (s, Ok (g v)))) = fst out"
  by (cases out; cases "snd out") auto

lemma await_sinks_moves:
  "files_ok s \<Longrightarrow> \<forall>i\<in>set is. i < length (io_files s) \<Longrightarrow> io_moves ops s (fst (await_sinks ops s name is))"
proof (induction "is" arbitrary: s)
  case (Cons i "is")
  have m: "io_moves ops s (fst (redirect_finish ops s i))"
    using Cons.prems by (intro redirect_finish_moves) simp_all
  have rest: "io_moves ops s (fst (await_sinks ops (fst (redirect_finish ops s i)) name is))"
    using Cons.prems io_moves_length [OF m]
    by (intro io_moves_trans [OF Cons.IH m] io_moves_files_ok [OF m]) auto
  show ?case
    using rest m by (auto simp: fst_and_then_pure split: prod.split sum.split fault.split)
qed simp

subsection \<open>The engine\<close>

definition ex_moves :: "('s, 'h) engine \<Rightarrow> 's exec_state \<Rightarrow> 's exec_state \<Rightarrow> bool" where
  "ex_moves en x y \<longleftrightarrow> io_moves (en_ops en) (ex_io x) (ex_io y) \<and> ex_control y = ex_control x"

definition ex_ok :: "'s exec_state \<Rightarrow> bool" where
  "ex_ok x \<longleftrightarrow> files_ok (ex_io x) \<and> ex_control x < length (w_controls (ex_world x))"

lemma ex_moves_refl [simp]: "ex_moves en x x"
  by (simp add: ex_moves_def)

lemma ex_moves_trans: "ex_moves en y z \<Longrightarrow> ex_moves en x y \<Longrightarrow> ex_moves en x z"
  by (auto simp: ex_moves_def intro: io_moves_trans)

lemma ex_ok_later: "ex_ok x \<Longrightarrow> ex_moves en x y \<Longrightarrow> ex_ok y"
  using io_moves_files_ok io_moves_controls by (auto simp: ex_moves_def ex_ok_def)

lemma ex_moves_upd [simp]:
  "ex_moves en x (y\<lparr>ex_sched := a\<rparr>) = ex_moves en x y" "ex_moves en x (y\<lparr>ex_session := b\<rparr>) = ex_moves en x y"
  "ex_moves en x (y\<lparr>ex_timings := c\<rparr>) = ex_moves en x y" "ex_moves en x (y\<lparr>ex_pipe_bytes := d\<rparr>) = ex_moves en x y"
  "ex_moves en x (y\<lparr>ex_last_status := e\<rparr>) = ex_moves en x y" "ex_moves en x (y\<lparr>ex_command_count := f\<rparr>) = ex_moves en x y"
  "ex_moves en x (y\<lparr>ex_limit_hit := g\<rparr>) = ex_moves en x y" "ex_moves en x (y\<lparr>ex_peak := h\<rparr>) = ex_moves en x y"
  "ex_moves en x (record_peak y p) = ex_moves en x y"
  by (simp_all add: ex_moves_def record_peak_def split: option.split)

lemma ex_moves_write [simp]:
  "ex_moves en x y \<Longrightarrow> ex_moves en x (write_stderr y t)" "ex_moves en x y \<Longrightarrow> ex_moves en x (report y n pe)"
  by (simp_all add: ex_moves_def write_stderr_def report_def)

lemma ex_moves_from [simp]:
  "ex_moves en (y\<lparr>ex_sched := a\<rparr>) x = ex_moves en y x" "ex_moves en (y\<lparr>ex_session := b\<rparr>) x = ex_moves en y x"
  "ex_moves en (y\<lparr>ex_last_status := e\<rparr>) x = ex_moves en y x" "ex_moves en (y\<lparr>ex_command_count := f\<rparr>) x = ex_moves en y x"
  by (simp_all add: ex_moves_def)

lemma ex_ok_upd [simp]:
  "ex_ok (y\<lparr>ex_sched := a\<rparr>) = ex_ok y" "ex_ok (y\<lparr>ex_session := b\<rparr>) = ex_ok y"
  "ex_ok (y\<lparr>ex_last_status := e\<rparr>) = ex_ok y" "ex_ok (y\<lparr>ex_command_count := f\<rparr>) = ex_ok y"
  by (simp_all add: ex_ok_def)

lemma ex_moves_io: "io_moves (en_ops en) (ex_io x) s \<Longrightarrow> ex_moves en x (x\<lparr>ex_io := s\<rparr>)"
  by (simp add: ex_moves_def)

lemma ex_moves_in_io: "io_moves (en_ops en) (ex_io x) (fst out) \<Longrightarrow> ex_moves en x (fst (in_io x out))"
  by (simp add: in_io_def case_prod_beta' ex_moves_io)

lemma ex_moves_world: "evolves (en_ops en) (ex_world x) w \<Longrightarrow> ex_moves en x (set_world x w)"
  by (simp add: set_world_def ex_moves_io io_moves_world)

lemma ex_moves_stderrs [simp]: "ex_moves en x y \<Longrightarrow> ex_moves en x (foldl write_stderr y msgs)"
  by (induction msgs arbitrary: y) simp_all

lemma fst_and_then_moves:
  "ex_moves en x (fst out) \<Longrightarrow> (\<And>y v. out = (y, Inr v) \<Longrightarrow> ex_moves en x (fst (k y v))) \<Longrightarrow>
   ex_moves en x (fst (and_then out k))"
  by (cases out; cases "snd out") auto

lemma yield_moves: "ex_ok x \<Longrightarrow> ex_moves en x (fst (yield_now x))"
  using evolves_expire [of "ex_control x" "ex_world x" "en_ops en"] ex_moves_world [of en "x\<lparr>ex_sched := r\<rparr>" for r]
  by (auto simp: yield_now_def ex_ok_def split: list.split choice.split)

lemma finish_command_moves:
  assumes "handlers_tame en" and "ex_ok x" and "task_ok (ex_world x) t"
    and "\<forall>i\<in>set sinks. i < length (io_files (ex_io x))"
  shows "ex_moves en x (fst (finish_command en name sinks t x))"
proof -
  obtain sched s r where a: "await_task en (ex_control x) (ex_sched x) (ex_io x) t = ((sched, s), r)"
    by (metis surj_pair)
  have m: "io_moves (en_ops en) (ex_io x) s"
    using await_task_moves [OF assms(1), of "ex_io x" "ex_control x" t "ex_sched x"] assms(2,3) a
    by (simp add: ex_ok_def)
  have "files_ok s" using io_moves_files_ok [OF m] assms(2) by (simp add: ex_ok_def)
  then have "io_moves (en_ops en) s (fst (await_sinks (en_ops en) s name sinks))"
    using assms(4) io_moves_length [OF m] by (intro await_sinks_moves) auto
  from io_moves_trans [OF this m]
  have sinks: "io_moves (en_ops en) (ex_io x) (fst (await_sinks (en_ops en) s name sinks))" .
  show ?thesis
  proof (cases r)
    case (Inl e)
    then show ?thesis using a m by (simp add: finish_command_def ex_moves_def)
  next
    case (Inr res)
    obtain s2 q where w: "await_sinks (en_ops en) s name sinks = (s2, q)" by fastforce
    have peak: "ex_io (record_peak y p) = ex_io y" "ex_control (record_peak y p) = ex_control y" for y :: "'a exec_state" and p
      by (simp_all add: record_peak_def split: option.split)
    have "ex_moves en x ((record_peak y p)\<lparr>ex_io := s2\<rparr>)" if "ex_control y = ex_control x" for y p
      using sinks w that by (simp add: ex_moves_def peak)
    then show ?thesis
      using a Inr w by (cases q) (simp_all add: finish_command_def in_io_def Let_def)
  qed
qed

end
