(* ===== verification/Exec_Programs.thy ===== *)
theory Exec_Programs
  imports Exec_World
begin

text \<open>
  From one command to a whole execution: simple commands, pipelines with their concurrent
  stages, lists and \<open>exec\<close> itself move the world only by facade events.
\<close>

subsection \<open>Simple commands\<close>

lemma run_builtin_here_moves:
  assumes "facade_ok (ex_world x) f"
  shows "ex_moves en x (fst (run_builtin_here en f b args env x))"
proof -
  obtain c where c: "c = \<lparr>bc_world = ex_world x, bc_session = ex_session x, bc_env = env, bc_stdout = [], bc_stderr = []\<rparr>"
    by simp
  obtain y r where out: "run_shell_builtin_stage (en_ops en) f b args c = (y, r)" by fastforce
  have "evolves (en_ops en) (ex_world x) (bc_world y)"
    using builtin_moves [of c f "en_ops en" b args] assms out by (simp add: c)
  from ex_moves_world [OF this] show ?thesis
    using out unfolding run_builtin_here_def c by (cases r) simp_all
qed

lemma ex_moves_facade: "ex_moves en x y \<Longrightarrow> facade_ok (ex_world x) f \<Longrightarrow> facade_ok (ex_world y) f"
  by (auto simp: ex_moves_def io_moves_def dest: facade_ok_later)

lemma ex_moves_redirects: "ex_moves en x y \<Longrightarrow> redirects_ok (ex_io x) rd \<Longrightarrow> redirects_ok (ex_io y) rd"
  using redirects_ok_later by (auto simp: ex_moves_def)

lemma redirect_sinks:
  "redirects_ok s rd \<Longrightarrow> \<forall>i\<in>set (sinks_of (pr_stdout rd) @ sinks_of (pr_stderr rd)). i < length (io_files s)"
  by (auto simp: redirects_ok_def dest: sinks_ok)

lemma close_stdin_here:
  "facade_ok (ex_world x) f \<Longrightarrow> ex_moves en x (fst (in_io x (close_stdin_redirect (en_ops en) f (ex_io x) red)))"
  by (intro ex_moves_in_io close_stdin_moves)

lemma with_redirects_moves:
  assumes "handlers_tame en" and "ex_ok x" and "facade_ok (ex_world x) f" and "redirects_ok (ex_io x) rd"
  shows "ex_moves en x (fst (with_redirects en f ec rd x))"
proof (cases "ec_words ec")
  case Nil
  obtain x1 r1 where c: "in_io x (close_stdin_redirect (en_ops en) f (ex_io x) (pr_stdin rd)) = (x1, r1)" by fastforce
  have m1: "ex_moves en x x1" using close_stdin_here [OF assms(3)] c by (metis fst_conv)
  have "io_moves (en_ops en) (ex_io x1) (fst (finish_redirects (en_ops en) (ex_io x1) rd))"
    using ex_ok_later [OF assms(2) m1] ex_moves_redirects [OF m1 assms(4)] unfolding finish_redirects_def
    by (intro finish_destinations_moves) (simp_all add: ex_ok_def redirects_ok_def)
  then have "ex_moves en x (fst (in_io x1 (finish_redirects (en_ops en) (ex_io x1) rd)))"
    by (intro ex_moves_trans [OF ex_moves_in_io m1])
  then show ?thesis
    using Nil c m1 by (auto simp: with_redirects_def split: prod.splits sum.splits fault.splits)
next
  case (Cons name args)
  obtain env where env: "env = bm_insert (rs ''?'') (show_int (ex_last_status x)) (ec_env ec)" by simp
  let ?sinks = "sinks_of (pr_stdout rd) @ sinks_of (pr_stderr rd)"
  have sinks: "\<forall>i\<in>set ?sinks. i < length (io_files (ex_io y))" if "ex_moves en x y" for y
    using redirect_sinks [OF ex_moves_redirects [OF that assms(4)]] .
  have fin: "ex_moves en x (fst (finish_command en name ?sinks t y))"
    if "ex_moves en x y" "task_ok (ex_world y) t" for y t
    using finish_command_moves [OF assms(1) ex_ok_later [OF assms(2) that(1)] that(2) sinks [OF that(1)], of name]
    by (rule ex_moves_trans [OF _ that(1)])
  have handler: "ex_moves en x (fst (finish_command en name ?sinks (Start st inp out err) x))"
    if "ps_fs st = f" for st inp out err
    using that assms(3) by (intro fin) simp_all
  have tail: "ex_moves en x (fst (case in_io x1 (close_stdin_redirect (en_ops en) f (ex_io x1) (pr_stdin rd)) of
        (x2, Inl _) \<Rightarrow> (x2, Inl Panic)
      | (x2, Inr _) \<Rightarrow> finish_command en name ?sinks (Writes False ws res) x2))"
    if m1: "ex_moves en x x1" for x1 ws res
  proof -
    obtain x2 r2 where c: "in_io x1 (close_stdin_redirect (en_ops en) f (ex_io x1) (pr_stdin rd)) = (x2, r2)"
      by fastforce
    have "ex_moves en x1 x2" using close_stdin_here [OF ex_moves_facade [OF m1 assms(3)]] c by (metis fst_conv)
    from ex_moves_trans [OF this m1] show ?thesis using c fin [of x2] by (simp split: sum.split)
  qed
  have start: "ex_moves en x (fst (run_builtin_here en f b args env x))" for b
    by (rule run_builtin_here_moves [OF assms(3)])
  have builtin: "ex_moves en x (fst (and_then (run_builtin_here en f b args env x) (\<lambda>x1 ((so, se), status).
      case in_io x1 (close_stdin_redirect (en_ops en) f (ex_io x1) (pr_stdin rd)) of
        (x2, Inl _) \<Rightarrow> (x2, Inl Panic)
      | (x2, Inr _) \<Rightarrow> finish_command en name ?sinks (Writes False [(out, so), (err, se)] (result_new status)) x2)))"
    for b out err
    using start [of b] tail by (cases "run_builtin_here en f b args env x"; cases "snd (run_builtin_here en f b args env x)") auto
  show ?thesis
    using handler builtin unfolding with_redirects_def Cons env Let_def
    by (auto split: option.split registered.split)
qed

lemma drop_fs_moves:
  assumes "ex_moves en x (fst out)" and "facade_ok (ex_world (fst out)) f"
  shows "ex_moves en x (fst (drop_fs (en_ops en) f out))"
  using ex_moves_trans [OF ex_moves_world [OF evolves_calls(5) [OF assms(2), of "en_ops en"]] assms(1)]
  by (simp add: drop_fs_def case_prod_beta')

text \<open>Creating the facade of a command and preparing its redirects.\<close>

lemma scoped_prepared:
  assumes "ex_ok x" and "fs_scoped (ex_world x) bin cwd (ex_control x) = (w, f)"
    and "in_io x (prepare_redirects (en_ops en) f ((ex_io x)\<lparr>io_world := w\<rparr>) simple targets) = (y, r)"
  shows "ex_moves en x y" "facade_ok (ex_world y) f" "\<And>rd. r = Inr rd \<Longrightarrow> redirects_ok (ex_io y) rd"
proof -
  let ?s = "(ex_io x)\<lparr>io_world := w\<rparr>"
  have w: "evolves (en_ops en) (ex_world x) w" "facade_ok w f"
    using evolves_scoped [OF _ assms(2)] assms(1) by (simp_all add: ex_ok_def)
  have s: "io_moves (en_ops en) (ex_io x) ?s" by (rule io_moves_world [OF w(1)])
  obtain t where t: "prepare_redirects (en_ops en) f ?s simple targets = (t, r)" "y = x\<lparr>ex_io := t\<rparr>"
    using assms(3) by (auto simp: in_io_def split: prod.splits)
  have ok: "files_ok ?s" using io_moves_files_ok [OF s] assms(1) by (simp add: ex_ok_def)
  have p: "io_moves (en_ops en) ?s t \<and> (case r of Inr rd \<Rightarrow> redirects_ok t rd | Inl _ \<Rightarrow> True)"
    using prepare_redirects_moves [OF _ ok t(1)] w(2) by simp
  then have m: "io_moves (en_ops en) (ex_io x) t" using io_moves_trans [OF _ s] by blast
  show "ex_moves en x y" using m t(2) by (simp add: ex_moves_def)
  show "facade_ok (ex_world y) f" using p w(2) t(2) facade_ok_later by (auto simp: io_moves_def)
  show "\<And>rd. r = Inr rd \<Longrightarrow> redirects_ok (ex_io y) rd" using p t(2) by simp
qed

lemma exec_single_simple_moves:
  assumes "handlers_tame en" and "ex_ok x"
  shows "ex_moves en x (fst (exec_single_simple en x ec))"
proof (cases "max_commands (en_limits en) \<le> ex_command_count x")
  case True
  then show ?thesis by (simp add: exec_single_simple_def limit_exceeded_def)
next
  case False
  let ?x1 = "x\<lparr>ex_command_count := ex_command_count x + 1\<rparr>"
  obtain x2 where x2: "x2 = (if ec_words ec = [] then ?x1\<lparr>ex_session := (ex_session ?x1)\<lparr>se_env := ec_env ec\<rparr>\<rparr> else ?x1)"
    by simp
  obtain ec1 where ec1: "ec1 = (if ec_words ec = [] then ec\<lparr>ec_env := se_env (ex_session ?x1)\<rparr> else ec)" by simp
  have same: "ex_moves en x y = ex_moves en x2 y" "ex_ok x2" for y using assms(2) by (simp_all add: x2)
  obtain w f where sc: "fs_scoped (ex_world x2) (en_names en) (se_cwd (ex_session x2)) (ex_control x2) = (w, f)"
    by fastforce
  obtain x3 r where pr: "in_io x2 (prepare_redirects (en_ops en) f ((ex_io x2)\<lparr>io_world := w\<rparr>) (ec_syntax ec1) (ec_targets ec1)) = (x3, r)"
    by fastforce
  note p = scoped_prepared [OF same(2) sc pr]
  let ?body = "case (x3, r) of (x3, Inl Panic) \<Rightarrow> (x3, Inl Panic)
      | (x3, Inl (Errno pe)) \<Rightarrow> (report x3 (case ec_words ec of [] \<Rightarrow> rs ''tinysandbox'' | n # _ \<Rightarrow> n) pe, Ok 1)
      | (x3, Inr rd) \<Rightarrow> with_redirects en f ec1 rd x3"
  have body: "ex_moves en x3 (fst ?body)"
    using with_redirects_moves [OF assms(1) ex_ok_later [OF same(2) p(1)] p(2)] p(3)
    by (auto split: sum.split fault.split)
  have "ex_moves en x2 (fst (drop_fs (en_ops en) f ?body))"
    using ex_moves_trans [OF body p(1)] ex_moves_facade [OF body p(2)] by (rule drop_fs_moves)
  then show ?thesis
    using False sc pr unfolding same exec_single_simple_def Let_def
    by (simp add: x2 [symmetric] ec1 [symmetric] del: split_paired_All)
qed

subsection \<open>Pipelines\<close>

definition stage_ok :: "'s io \<Rightarrow> 'h prepared_stage \<Rightarrow> bool" where
  "stage_ok s st \<longleftrightarrow> facade_ok (io_world s) (ps_fs st) \<and> redirects_ok s (ps_redirects st)"

definition slot_ok :: "'s io \<Rightarrow> 'h slot \<Rightarrow> bool" where
  "slot_ok s sl \<longleftrightarrow> facade_ok (io_world s) (sl_fs sl) \<and> (\<forall>i\<in>set (sl_sinks sl). i < length (io_files s))
     \<and> (\<forall>t. sl_task sl = Some t \<longrightarrow> task_ok (io_world s) t)"

lemma io_moves_facade: "io_moves ops s t \<Longrightarrow> facade_ok (io_world s) f \<Longrightarrow> facade_ok (io_world t) f"
  by (auto simp: io_moves_def dest: facade_ok_later)

lemma stage_ok_later: "stage_ok s st \<Longrightarrow> io_moves ops s t \<Longrightarrow> stage_ok t st"
  unfolding stage_ok_def by (blast intro: redirects_ok_later io_moves_facade)

lemma slot_ok_later: "slot_ok s sl \<Longrightarrow> io_moves ops s t \<Longrightarrow> slot_ok t sl"
  unfolding slot_ok_def by (blast intro: task_ok_later io_moves_facade io_moves_length)

lemma prepare_stage_moves:
  assumes "ex_ok x" and "prepare_stage en x ec = (y, r)"
  shows "ex_moves en x y" "\<And>st. r = Inr st \<Longrightarrow> stage_ok (ex_io y) st"
proof -
  obtain w f where sc: "fs_scoped (ex_world x) (en_names en) (se_cwd (ex_session x)) (ex_control x) = (w, f)"
    by fastforce
  obtain x1 q where pr: "in_io x (prepare_redirects (en_ops en) f ((ex_io x)\<lparr>io_world := w\<rparr>) (ec_syntax ec) (ec_targets ec)) = (x1, q)"
    by fastforce
  note p = scoped_prepared [OF assms(1) sc pr]
  have y: "y = x1" and st: "\<And>st. r = Inr st \<Longrightarrow> ps_fs st = f \<and> (ps_redirects st = prepared_default \<or> q = Inr (ps_redirects st))"
    using assms(2) sc pr by (auto simp: prepare_stage_def Let_def split: sum.splits fault.splits)
  show "ex_moves en x y" using p(1) y by simp
  fix st assume "r = Inr st"
  from st [OF this] show "stage_ok (ex_io y) st" using p(2,3) y by (auto simp: stage_ok_def)
qed

lemma close_end_moves [simp]:
  "io_moves ops s (close_reader t i) = io_moves ops s t" "io_moves ops s (close_writer t i) = io_moves ops s t"
  by (simp_all add: close_reader_def close_writer_def split: option.split)

lemma spawn_stage_moves:
  assumes "stage_ok s st" and "spawn_stage s base n k st = (t, sl)"
  shows "io_moves ops s t" "slot_ok t sl"
proof -
  show m: "io_moves ops s t" for ops using assms(2) by (auto simp: spawn_stage_def Let_def)
  have "facade_ok (io_world s) (sl_fs sl)" "\<forall>i\<in>set (sl_sinks sl). i < length (io_files s)"
    "\<forall>t. sl_task sl = Some t \<longrightarrow> task_ok (io_world s) t"
    using assms redirect_sinks [of s "ps_redirects st"] by (auto simp: spawn_stage_def Let_def stage_ok_def)
  then have "slot_ok s sl" by (simp add: slot_ok_def)
  then show "slot_ok t sl" using m by (rule slot_ok_later)
qed

lemma spawn_stages_moves:
  "list_all (stage_ok s) sts \<Longrightarrow> spawn_stages s base n k sts = (t, sls) \<Longrightarrow>
   io_moves ops s t \<and> list_all (slot_ok t) sls"
proof (induction sts arbitrary: s k t sls)
  case (Cons st sts)
  obtain s1 sl where one: "spawn_stage s base n k st = (s1, sl)" by fastforce
  obtain sls1 where rest: "spawn_stages s1 base n (k + 1) sts = (t, sls1)" "sls = sl # sls1"
    using Cons.prems(2) one by (auto split: prod.splits)
  have m1: "io_moves ops s s1" "slot_ok s1 sl" for ops
    using spawn_stage_moves [OF _ one] Cons.prems(1) by simp_all
  have "list_all (stage_ok s1) sts"
    using Cons.prems(1) stage_ok_later [OF _ m1(1)] by (auto simp: list_all_iff)
  then have m2: "io_moves ops s1 t \<and> list_all (slot_ok t) sls1" using Cons.IH rest(1) by blast
  then show ?case
    using m1(1) [of ops] m1(2) rest(2) io_moves_trans slot_ok_later by fastforce
qed auto

lemma drop_stage_moves:
  assumes "io_moves ops s t" and "facade_ok (io_world s) (sl_fs sl)"
  shows "io_moves ops s (drop_stage ops t sl)"
proof -
  let ?t = "close_writer (close_reader t (sl_input sl)) (sl_output sl)"
  have m: "io_moves ops s ?t" using assms(1) by simp
  have "facade_ok (io_world ?t) (sl_fs sl)" using m assms(2) facade_ok_later by (auto simp: io_moves_def)
  then show ?thesis unfolding drop_stage_def Let_def by (intro io_moves_call [OF m] evolves_calls)
qed

lemma stage_result_moves:
  assumes "files_ok s" and "slot_ok s sl"
  shows "io_moves ops s (fst (stage_result ops s sl r))"
proof -
  have m: "io_moves ops s (fst (await_sinks ops s (sl_name sl) (sl_sinks sl)))"
    using assms by (intro await_sinks_moves) (simp_all add: slot_ok_def)
  have "facade_ok (io_world s) (sl_fs sl)" using assms(2) by (simp add: slot_ok_def)
  note d = drop_stage_moves [OF m this]
  show ?thesis
    using m d by (cases "await_sinks ops s (sl_name sl) (sl_sinks sl)";
        cases "snd (await_sinks ops s (sl_name sl) (sl_sinks sl))") (auto simp: stage_result_def Let_def)
qed

lemma slots_ok_update:
  "list_all (slot_ok s) slots \<Longrightarrow> slot_ok s sl \<Longrightarrow> list_all (slot_ok s) (slots[k := sl])"
  using set_update_subset_insert [of slots k sl] by (auto simp: list_all_iff)

lemma poll_stage_moves:
  assumes "handlers_tame en" and "files_ok s" and "list_all (slot_ok s) slots"
    and "poll_stage en s slots outs k = (t, slots', outs')"
  shows "io_moves (en_ops en) s t \<and> list_all (slot_ok t) slots'"
proof (cases "k < length slots \<and> sl_task (slots ! k) \<noteq> None")
  case False
  then show ?thesis
    using assms(3,4) by (cases "k < length slots"; cases "sl_task (slots ! k)") (auto simp: poll_stage_def)
next
  case True
  then obtain tk where tk: "sl_task (slots ! k) = Some tk" and k: "k < length slots" by auto
  let ?sl = "slots ! k"
  have sl: "slot_ok s ?sl" using assms(3) k by (simp add: list_all_length)
  have fac: "facade_ok (io_world s) (sl_fs ?sl)" using sl by (simp add: slot_ok_def)
  obtain s1 tn where tt: "task_turn en s tk = (s1, tn)" by fastforce
  have m1: "io_moves (en_ops en) s s1"
    using task_turn_moves [OF assms(1), of s tk] sl tk tt by (simp add: slot_ok_def)
  have sl1: "slot_ok s1 ?sl" by (rule slot_ok_later [OF sl m1])
  have keep: "list_all (slot_ok u) (slots[k := ?sl\<lparr>sl_task := q\<rparr>])"
    if "io_moves (en_ops en) s u" "\<And>t. q = Some t \<Longrightarrow> task_ok (io_world u) t" for u q
  proof (rule slots_ok_update)
    show "list_all (slot_ok u) slots"
      using assms(3) slot_ok_later [OF _ that(1)] by (auto simp: list_all_iff)
    show "slot_ok u (?sl\<lparr>sl_task := q\<rparr>)"
      using slot_ok_later [OF sl that(1)] that(2) by (simp add: slot_ok_def)
  qed
  have res: "io_moves (en_ops en) s (fst (stage_result (en_ops en) s1 ?sl r))" for r
    using io_moves_trans [OF stage_result_moves [OF io_moves_files_ok [OF m1 assms(2)] sl1] m1] .
  show ?thesis
  proof (cases tn)
    case (Continue t1)
    then show ?thesis
      using assms(4) tk k tt m1 keep [OF m1, of "Some t1"]
        task_turn_ok [OF tt [unfolded Continue], of "io_world s1"]
      by (auto simp: poll_stage_def Let_def)
  next
    case (Finished r)
    show ?thesis
      using assms(4) tk k tt Finished res [of r] keep [of _ None] drop_stage_moves [OF res [of r] fac]
      by (auto simp: poll_stage_def Let_def split: prod.splits sum.splits)
  next
    case Crashed
    then show ?thesis
      using assms(4) tk k tt keep [of _ None] drop_stage_moves [OF m1 fac]
      by (auto simp: poll_stage_def Let_def)
  qed
qed

lemma join_stages_moves:
  assumes "handlers_tame en"
  shows "files_ok s \<Longrightarrow> c < length (w_controls (io_world s)) \<Longrightarrow> list_all (slot_ok s) slots \<Longrightarrow>
    io_moves (en_ops en) s (snd (fst (join_stages en c sched s slots outs)))"
proof (induction sched arbitrary: s slots outs)
  case (Cons ch sched)
  show ?case
  proof (cases ch)
    case (Poll k)
    obtain s1 sl1 o1 where p: "poll_stage en s slots outs k = (s1, sl1, o1)" by (metis prod_cases3)
    have m: "io_moves (en_ops en) s s1 \<and> list_all (slot_ok s1) sl1"
      by (rule poll_stage_moves [OF assms Cons.prems(1,3) p])
    then have "io_moves (en_ops en) s1 (snd (fst (join_stages en c sched s1 sl1 o1)))"
      using Cons.prems io_moves_files_ok io_moves_controls by (intro Cons.IH) blast+
    then show ?thesis using m io_moves_trans p Poll by fastforce
  next
    case (Flush i)
    let ?s = "background en c s ch"
    have m: "io_moves (en_ops en) s ?s" by (rule background_moves [OF Cons.prems(1,2)])
    have "list_all (slot_ok ?s) slots" using Cons.prems(3) slot_ok_later [OF _ m] by (auto simp: list_all_iff)
    then have "io_moves (en_ops en) ?s (snd (fst (join_stages en c sched ?s slots outs)))"
      using Cons.prems by (intro Cons.IH io_moves_files_ok [OF m] io_moves_controls [OF m])
    then show ?thesis using io_moves_trans [OF _ m] Flush by simp
  next
    case Expire
    let ?s = "background en c s ch"
    have m: "io_moves (en_ops en) s ?s" by (rule background_moves [OF Cons.prems(1,2)])
    have "list_all (slot_ok ?s) slots" using Cons.prems(3) slot_ok_later [OF _ m] by (auto simp: list_all_iff)
    then have "io_moves (en_ops en) ?s (snd (fst (join_stages en c sched ?s slots outs)))"
      using Cons.prems by (intro Cons.IH io_moves_files_ok [OF m] io_moves_controls [OF m])
    then show ?thesis using io_moves_trans [OF _ m] Expire by simp
  qed
qed simp

lemma record_outcome_moves: "ex_moves en x y \<Longrightarrow> ex_moves en x (fst (record_outcome (y, st) oc))"
  by (simp add: record_outcome_def Let_def)

lemma record_outcomes_move: "ex_moves en x y \<Longrightarrow> ex_moves en x (fst (foldl record_outcome (y, st) ocs))"
proof (induction ocs arbitrary: y st)
  case (Cons oc ocs)
  then show ?case
    using record_outcome_moves [of en x y st oc] by (cases "record_outcome (y, st) oc") simp
qed simp

lemma run_pipeline_stages_moves:
  assumes "handlers_tame en" and "ex_ok x" and "list_all (stage_ok (ex_io x)) stages"
  shows "ex_moves en x (fst (run_pipeline_stages en x stages))"
proof (cases "stages = []")
  case True
  then show ?thesis by (simp add: run_pipeline_stages_def)
next
  case False
  let ?n = "length stages" and ?base = "length (io_pipes (ex_io x))"
  let ?s0 = "(ex_io x)\<lparr>io_pipes := io_pipes (ex_io x) @ replicate (?n - 1) pipe_new\<rparr>"
  obtain s1 slots where sp: "spawn_stages ?s0 ?base ?n 0 stages = (s1, slots)" by fastforce
  have m0: "io_moves (en_ops en) (ex_io x) ?s0" by simp
  have "list_all (stage_ok ?s0) stages" using assms(3) stage_ok_later [OF _ m0] by (auto simp: list_all_iff)
  from spawn_stages_moves [OF this sp] have m1: "io_moves (en_ops en) (ex_io x) s1" and ok: "list_all (slot_ok s1) slots"
    using io_moves_trans [OF _ m0] by blast+
  obtain sched s2 r where j: "join_stages en (ex_control x) (ex_sched x) s1 slots (replicate ?n None) = ((sched, s2), r)"
    by (metis surj_pair)
  have "io_moves (en_ops en) s1 s2"
    using join_stages_moves [OF assms(1), of s1 "ex_control x" slots "ex_sched x" "replicate ?n None"] j ok
      io_moves_files_ok [OF m1] io_moves_controls [OF m1] assms(2) by (simp add: ex_ok_def)
  from io_moves_trans [OF this m1] have m2: "ex_moves en x (x\<lparr>ex_sched := sched, ex_io := s2\<rparr>)"
    by (simp add: ex_moves_def)
  then have "ex_moves en x (fst (foldl record_outcome (x\<lparr>ex_sched := sched, ex_io := s2\<rparr>, 0) ocs))" for ocs
    by (simp add: record_outcomes_move)
  then show ?thesis
    using False sp j m2 by (cases r) (simp_all add: run_pipeline_stages_def Let_def case_prod_beta')
qed

lemma expand_all_moves: "ex_ok x \<Longrightarrow> ex_moves en x (fst (expand_all en x budget cs))"
proof (induction en x budget cs rule: expand_all.induct)
  case (2 en x budget c cs)
  show ?case
    unfolding expand_all.simps
  proof (rule fst_and_then_moves)
    show y: "ex_moves en x (fst (yield_now x))" by (rule yield_moves [OF "2.prems"])
    fix x1 u assume q: "yield_now x = (x1, Inr u)"
    then have m: "ex_moves en x x1" using y by simp
    have ok: "ex_ok x1" by (rule ex_ok_later [OF "2.prems" m])
    have rest: "ex_moves en x (fst (expand_all en x1 b cs))"
      if "\<not> exec_cancelled x1" "expand_command (en_layout en) budget c (se_env (ex_session x1)) (ex_last_status x1) = Some (b, ec)" for b ec
      using ex_moves_trans [OF "2.IH" m] q that ok by simp
    show "ex_moves en x (fst (if exec_cancelled x1 then (x1, Ok (Inl 124))
       else case expand_command (en_layout en) budget c (se_env (ex_session x1)) (ex_last_status x1) of
         None \<Rightarrow> and_then (limit_exceeded x1 (rs ''tinysandbox: shell expansion limit exceeded'')) (\<lambda>x2 st. (x2, Ok (Inl st)))
       | Some (budget1, ec) \<Rightarrow> and_then (expand_all en x1 budget1 cs) (\<lambda>x2 r.
             (x2, Ok (case r of Inl st \<Rightarrow> Inl st | Inr ecs \<Rightarrow> Inr (ec # ecs))))))"
      using m rest by (auto simp: limit_exceeded_def fst_and_then_pure split: option.split)
  qed
qed simp

lemma prepare_all_moves:
  "ex_ok x \<Longrightarrow> prepare_all en x ecs = (y, r) \<Longrightarrow>
   ex_moves en x y \<and> (\<forall>sts. r = Inr (Inr sts) \<longrightarrow> list_all (stage_ok (ex_io y)) sts)"
proof (induction ecs arbitrary: x y r)
  case (Cons ec ecs)
  obtain x1 q1 where q: "yield_now x = (x1, q1)" by fastforce
  have m1: "ex_moves en x x1" using yield_moves [OF Cons.prems(1)] q by (metis fst_conv)
  note ok1 = ex_ok_later [OF Cons.prems(1) m1]
  obtain x2 q2 where p: "prepare_stage en x1 ec = (x2, q2)" by fastforce
  note m2 = prepare_stage_moves [OF ok1 p]
  obtain x3 q3 where a: "prepare_all en x2 ecs = (x3, q3)" by fastforce
  note m3 = Cons.IH [OF ex_ok_later [OF ok1 m2(1)] a]
  have m13: "ex_moves en x x2" "ex_moves en x x3"
    using ex_moves_trans [OF m2(1) m1] ex_moves_trans [OF conjunct1 [OF m3] ex_moves_trans [OF m2(1) m1]] .
  have st: "stage_ok (ex_io x3) st" if "q2 = Inr st" for st
    using m2(2) [OF that] m3 stage_ok_later by (auto simp: ex_moves_def)
  show ?case
    using Cons.prems(2) q p a m1 m13 m3 st
    by (cases q1; cases q2; cases q3) (auto split: if_splits sum.splits)
qed auto

lemma exec_pipeline_moves:
  assumes "handlers_tame en" and "ex_ok x"
  shows "ex_moves en x (fst (exec_pipeline en x pl))"
  unfolding exec_pipeline_def
proof (rule fst_and_then_moves)
  show y: "ex_moves en x (fst (yield_now x))" by (rule yield_moves [OF assms(2)])
  fix x1 u assume "yield_now x = (x1, Inr u)"
  then have m1: "ex_moves en x x1" using y by simp
  let ?budget = "max (shell_input_bytes (en_limits en)) (host_input_bytes (en_limits en))"
  let ?k = "\<lambda>x2 r. case r of Inl status \<Rightarrow> (x2, Ok status) | Inr [ec] \<Rightarrow> exec_single_simple en x2 ec
    | Inr ecs \<Rightarrow> and_then (prepare_all en x2 ecs) (\<lambda>x3 q. case q of Inl status \<Rightarrow> (x3, Ok status)
       | Inr stages \<Rightarrow> run_pipeline_stages en (x3\<lparr>ex_command_count := ex_command_count x3 + length stages\<rparr>) stages)"
  have e: "ex_moves en x (fst (expand_all en x1 ?budget (commands pl)))"
    by (rule ex_moves_trans [OF expand_all_moves [OF ex_ok_later [OF assms(2) m1]] m1])
  have k: "ex_moves en x (fst (?k x2 r))" if "expand_all en x1 ?budget (commands pl) = (x2, Inr r)" for x2 r
  proof -
    have m2: "ex_moves en x x2" using e that by simp
    note ok2 = ex_ok_later [OF assms(2) m2]
    have single: "ex_moves en x (fst (exec_single_simple en x2 ec))" for ec
      by (rule ex_moves_trans [OF exec_single_simple_moves [OF assms(1) ok2] m2])
    have stages: "ex_moves en x (fst (and_then (prepare_all en x2 ecs) (\<lambda>x3 q. case q of Inl status \<Rightarrow> (x3, Ok status)
       | Inr stages \<Rightarrow> run_pipeline_stages en (x3\<lparr>ex_command_count := ex_command_count x3 + length stages\<rparr>) stages)))" for ecs
    proof -
      obtain x3 q where p: "prepare_all en x2 ecs = (x3, q)" by fastforce
      note m3 = prepare_all_moves [OF ok2 p]
      have run: "ex_moves en x (fst (run_pipeline_stages en (x3\<lparr>ex_command_count := n\<rparr>) sts))"
        if "q = Inr (Inr sts)" for sts n
        using run_pipeline_stages_moves [OF assms(1), of "x3\<lparr>ex_command_count := n\<rparr>" sts] m3 that
          ex_ok_later [OF ok2 conjunct1 [OF m3]] ex_moves_trans [OF _ ex_moves_trans [OF conjunct1 [OF m3] m2]]
        by simp
      show ?thesis
        using p m2 m3 run ex_moves_trans by (cases q) (auto split: sum.split)
    qed
    show ?thesis using m2 single stages by (cases r) (auto split: list.split simp del: prepare_all.simps)
  qed
  show "ex_moves en x (fst (if exec_cancelled x1 then (x1, Ok 124)
      else if max_commands (en_limits en) - ex_command_count x1 < length (commands pl)
      then limit_exceeded x1 (rs ''tinysandbox: maximum command count exceeded'')
      else and_then (expand_all en x1 ?budget (commands pl)) ?k))"
    using m1 e k fst_and_then_moves [of en x "expand_all en x1 ?budget (commands pl)" ?k]
    by (simp add: limit_exceeded_def)
qed

subsection \<open>Lists, programs and executions\<close>

lemma exec_rest_moves:
  "handlers_tame en \<Longrightarrow> ex_ok x \<Longrightarrow> ex_moves en x (fst (exec_rest en x st its))"
proof (induction its arbitrary: x st)
  case (Cons it its)
  have p: "ex_moves en x (fst (exec_pipeline en x (ao_pipeline it)))" by (rule exec_pipeline_moves [OF Cons.prems])
  have rest: "ex_moves en x (fst (exec_rest en (y\<lparr>ex_last_status := s1\<rparr>) s1 its))"
    if "exec_pipeline en x (ao_pipeline it) = (y, Inr s1)" for y s1
  proof -
    have "ex_moves en x y" using p that by simp
    from ex_moves_trans [OF Cons.IH [OF Cons.prems(1)], of "y\<lparr>ex_last_status := s1\<rparr>" x s1]
    show ?thesis using ex_ok_later [OF Cons.prems(2) \<open>ex_moves en x y\<close>] \<open>ex_moves en x y\<close> by simp
  qed
  have run: "ex_moves en x (fst (and_then (exec_pipeline en x (ao_pipeline it)) (\<lambda>x1 s1.
      let x2 = x1\<lparr>ex_last_status := s1\<rparr> in if ex_limit_hit x2 then (x2, Ok s1) else exec_rest en x2 s1 its)))"
    using p rest by (intro fst_and_then_moves) (auto simp: Let_def)
  show ?case using run Cons.IH [OF Cons.prems] by simp
qed simp

lemma exec_and_or_list_moves:
  assumes "handlers_tame en" and "ex_ok x"
  shows "ex_moves en x (fst (exec_and_or_list en x l))"
  unfolding exec_and_or_list_def
proof (rule fst_and_then_moves)
  show p: "ex_moves en x (fst (exec_pipeline en x (al_first l)))" by (rule exec_pipeline_moves [OF assms])
  fix y st assume "exec_pipeline en x (al_first l) = (y, Inr st)"
  then have m: "ex_moves en x y" using p by simp
  show "ex_moves en x (fst (exec_rest en (y\<lparr>ex_last_status := st\<rparr>) st (al_rest l)))"
    using exec_rest_moves [OF assms(1), of "y\<lparr>ex_last_status := st\<rparr>"] ex_ok_later [OF assms(2) m] ex_moves_trans [OF _ m]
    by simp
qed

lemma exec_lists_moves:
  "handlers_tame en \<Longrightarrow> ex_ok x \<Longrightarrow> ex_moves en x (fst (exec_lists en x ls))"
proof (induction ls arbitrary: x)
  case (Cons l ls)
  have y: "ex_moves en x (fst (yield_now x))" by (rule yield_moves [OF Cons.prems(2)])
  have list: "ex_moves en x (fst (exec_and_or_list en x1 l))" if "ex_moves en x x1" for x1
    by (rule ex_moves_trans [OF exec_and_or_list_moves [OF Cons.prems(1) ex_ok_later [OF Cons.prems(2) that]] that])
  have rest: "ex_moves en x (fst (exec_lists en (x2\<lparr>ex_last_status := st\<rparr>) ls))" if "ex_moves en x x2" for x2 st
    using ex_moves_trans [OF Cons.IH [OF Cons.prems(1)], of "x2\<lparr>ex_last_status := st\<rparr>" x]
      ex_ok_later [OF Cons.prems(2) that] that by simp
  have "ex_moves en x (fst (and_then (exec_and_or_list en x1 l) (\<lambda>x2 st.
      let x3 = x2\<lparr>ex_last_status := st\<rparr> in if ex_limit_hit x3 then (x3, Ok ()) else exec_lists en x3 ls)))"
    if "ex_moves en x x1" for x1
    using list [OF that] rest by (intro fst_and_then_moves) (auto simp: Let_def)
  then show ?case using y by (simp only: exec_lists.simps) (intro fst_and_then_moves, auto)
qed simp

lemma exec_inner_evolves:
  assumes "handlers_tame en" and "c < length (w_controls (sb_world sb))"
  shows "evolves (en_ops en) (sb_world sb) (sb_world (fst (exec_inner en sb sched c input)))"
proof -
  let ?x = "exec_state_new (sb_world sb) sched c (sb_session sb) (en_limits en)"
  have "ex_ok ?x" using assms(2) by (simp add: ex_ok_def exec_state_new_def files_ok_def)
  then have "ex_moves en ?x (fst (exec_lists en ?x ls))" for ls by (rule exec_lists_moves [OF assms(1)])
  then have "evolves (en_ops en) (sb_world sb) (ex_world (fst (exec_lists en ?x ls)))" for ls
    by (simp add: ex_moves_def io_moves_def exec_state_new_def)
  then show ?thesis
    by (auto simp: exec_inner_def finish_exec_def Let_def evolves_refl split: sum.split fault.split prod.split)
       (metis fst_conv)+
qed

lemma exec_world:
  assumes "handlers_tame en"
  obtains w where "evolves (en_ops en) (sb_world sb) w" "length (w_controls (sb_world sb)) < length (w_controls w)"
    "sb_world (fst (exec en sb sched input)) = control_cancel (en_ops en) w (length (w_controls (sb_world sb)))"
proof -
  let ?c = "length (w_controls (sb_world sb))"
  obtain w0 where w0: "control_new (sb_world sb) (en_limits en) = (w0, ?c)" by (simp add: control_new_def)
  have m0: "evolves (en_ops en) (sb_world sb) w0" and c0: "?c < length (w_controls w0)"
    using evolves_event [of "sb_world sb" "ENewControl (en_limits en)" "en_ops en"] w0
    by (auto simp: control_new_def)
  let ?sb = "fst (exec_inner en (sb\<lparr>sb_world := w0\<rparr>) sched ?c input)"
  have m1: "evolves (en_ops en) w0 (sb_world ?sb)"
    using exec_inner_evolves [OF assms, of ?c "sb\<lparr>sb_world := w0\<rparr>" sched input] c0 by simp
  show thesis
  proof (rule that [of "sb_world ?sb"])
    show "evolves (en_ops en) (sb_world sb) (sb_world ?sb)" by (rule evolves_trans [OF m1 m0])
    show "?c < length (w_controls (sb_world ?sb))" using evolves_grows [OF m1] c0 by (simp add: grows_def)
    show "sb_world (fst (exec en sb sched input)) = control_cancel (en_ops en) (sb_world ?sb) ?c"
      using w0 by (simp add: exec_def split: prod.split)
  qed
qed

end
