(* ===== verification/Exec_Budget.thy ===== *)
theory Exec_Budget
  imports Exec
begin

text \<open>
  The command budget: no execution counts more commands than \<open>max_commands\<close> allows, and it
  reports at most as many command timings as it counted.
\<close>

text \<open>A part of an execution that counts no command and reports at most \<open>k\<close> timings.\<close>

definition adds :: "nat \<Rightarrow> 's exec_state \<Rightarrow> 's exec_state \<Rightarrow> bool" where
  "adds k x y \<longleftrightarrow> ex_command_count y = ex_command_count x
     \<and> length (ex_timings y) \<le> length (ex_timings x) + k"

lemma adds_refl [simp]: "adds k x x"
  by (simp add: adds_def)

lemma adds_trans: "adds k x y \<Longrightarrow> adds l y z \<Longrightarrow> adds (k + l) x z"
  by (simp add: adds_def)

lemma adds_upd [simp]:
  "adds k x (y\<lparr>ex_io := a\<rparr>) = adds k x y" "adds k x (y\<lparr>ex_sched := b\<rparr>) = adds k x y"
  "adds k x (y\<lparr>ex_session := c\<rparr>) = adds k x y" "adds k x (y\<lparr>ex_limit_hit := d\<rparr>) = adds k x y"
  "adds k x (y\<lparr>ex_pipe_bytes := e\<rparr>) = adds k x y" "adds k x (y\<lparr>ex_last_status := f\<rparr>) = adds k x y"
  "adds k x (write_stderr y t) = adds k x y" "adds k x (record_peak y p) = adds k x y"
  "adds k x (report y n pe) = adds k x y" "adds k x (set_world y w) = adds k x y"
  "adds k x (fst (drop_fs ops fa (y, q))) = adds k x y" "adds k x (fst (in_io y out)) = adds k x y"
  by (simp_all add: adds_def write_stderr_def record_peak_def report_def set_world_def drop_fs_def in_io_def
      case_prod_beta' split: option.split)

lemma adds_stderrs [simp]: "adds k x (foldl write_stderr y msgs) = adds k x y"
  by (induction msgs arbitrary: y) simp_all

lemma adds_yield: "adds k x (fst (yield_now x))"
  by (auto simp: yield_now_def split: list.split choice.split)

lemma adds_timing: "adds k x y \<Longrightarrow> adds (Suc k) x (y\<lparr>ex_timings := ex_timings y @ [t]\<rparr>)"
  by (simp add: adds_def)

lemma adds_le: "adds k x y \<Longrightarrow> k \<le> l \<Longrightarrow> adds l x y"
  by (simp add: adds_def)

lemma fst_and_then_adds:
  "adds k x (fst out) \<Longrightarrow> (\<And>y v. out = (y, Inr v) \<Longrightarrow> adds k x (fst (c y v))) \<Longrightarrow> adds k x (fst (and_then out c))"
  by (cases out; cases "snd out") auto

lemma finish_command_adds: "adds 1 x (fst (finish_command en name sinks t x))"
proof -
  obtain sched s r where a: "await_task en (ex_control x) (ex_sched x) (ex_io x) t = ((sched, s), r)"
    by (metis surj_pair)
  show ?thesis
  proof (cases r)
    case (Inr res)
    obtain s2 q where w: "await_sinks (en_ops en) s name sinks = (s2, q)" by fastforce
    have "adds 0 x (foldl write_stderr ((record_peak (x\<lparr>ex_sched := sched, ex_io := s\<rparr>) p)\<lparr>ex_io := s2\<rparr>) msgs)" for p msgs
      by simp
    from adds_timing [OF this] adds_refl show ?thesis
      using a Inr w by (cases q) (simp_all add: finish_command_def in_io_def Let_def)
  qed (use a in \<open>simp add: finish_command_def\<close>)
qed

lemma run_builtin_here_adds: "adds k x (fst (run_builtin_here en f b args env x))"
  by (simp add: run_builtin_here_def split: prod.split sum.split)

lemma with_redirects_adds: "adds 1 x (fst (with_redirects en f ec rd x))"
proof (cases "ec_words ec")
  case Nil
  then show ?thesis
    by (auto simp: with_redirects_def in_io_def split: prod.split sum.split fault.split)
next
  case (Cons name args)
  have tail: "adds 1 x (fst (case in_io x1 (close_stdin_redirect (en_ops en) f (ex_io x1) (pr_stdin rd)) of (x2, Inl _) \<Rightarrow> (x2, Inl Panic)
      | (x2, Inr _) \<Rightarrow> finish_command en name sinks t x2))"
    if "adds 0 x x1" for x1 sinks t
  proof -
    obtain x2 r2 where c: "in_io x1 (close_stdin_redirect (en_ops en) f (ex_io x1) (pr_stdin rd)) = (x2, r2)" by fastforce
    then have "adds 0 x x2" using that by (auto simp: in_io_def split: prod.splits)
    from adds_trans [OF this finish_command_adds] show ?thesis
      using c adds_le [OF \<open>adds 0 x x2\<close>, of 1] by (cases r2) simp_all
  qed
  have "adds 1 x (fst (and_then (run_builtin_here en f b args env x) (\<lambda>x1 ((so, se), status).
      case in_io x1 (close_stdin_redirect (en_ops en) f (ex_io x1) (pr_stdin rd)) of (x2, Inl _) \<Rightarrow> (x2, Inl Panic)
      | (x2, Inr _) \<Rightarrow> finish_command en name sinks (Writes False [(out, so), (err, se)] (result_new status)) x2)))"
    for b env sinks out err
    using run_builtin_here_adds [of 0 x en f b args env] run_builtin_here_adds [of 1 x en f b args env] tail
    by (cases "run_builtin_here en f b args env x"; cases "snd (run_builtin_here en f b args env x)") auto
  then show ?thesis
    using finish_command_adds unfolding with_redirects_def Cons Let_def
    by (auto split: option.split registered.split)
qed

lemma exec_single_simple_count:
  fixes x :: "'s exec_state"
  defines "y en ec \<equiv> fst (exec_single_simple en x ec)"
  assumes "length (ex_timings x) \<le> ex_command_count x" and "ex_command_count x \<le> max_commands (en_limits en)"
  shows "length (ex_timings (y en ec)) \<le> ex_command_count (y en ec)
    \<and> ex_command_count (y en ec) \<le> max_commands (en_limits en)"
proof (cases "max_commands (en_limits en) \<le> ex_command_count x")
  case True
  then show ?thesis using assms(2,3) by (simp add: y_def exec_single_simple_def limit_exceeded_def write_stderr_def)
next
  case False
  let ?x1 = "x\<lparr>ex_command_count := ex_command_count x + 1\<rparr>"
  obtain x2 where x2: "x2 = (if ec_words ec = [] then ?x1\<lparr>ex_session := (ex_session ?x1)\<lparr>se_env := ec_env ec\<rparr>\<rparr> else ?x1)"
    by simp
  have "adds 0 ?x1 x2" by (simp add: x2)
  have body: "adds 1 x2 (fst (drop_fs ops f (case in_io x2 out of (x3, Inl Panic) \<Rightarrow> (x3, Inl Panic)
      | (x3, Inl (Errno pe)) \<Rightarrow> (report x3 name pe, Ok 1) | (x3, Inr rd) \<Rightarrow> with_redirects en f ec1 rd x3)))"
    for ops f name ec1 and out :: "'s io \<times> (rstr \<times> errno, prepared_redirects) outcome"
  proof -
    obtain x3 r where c: "in_io x2 out = (x3, r)" by fastforce
    then have "adds 0 x2 x3" by (auto simp: in_io_def split: prod.splits)
    from adds_trans [OF this with_redirects_adds] adds_le [OF this, of 1]
    have w: "adds 1 x2 (fst (with_redirects en f ec1 rd x3))" "adds 1 x2 x3" for rd by simp_all
    have drop: "adds (Suc 0) x2 (fst (drop_fs ops f z))" if "adds (Suc 0) x2 (fst z)" for z :: "'s exec_state \<times> (unit, int) outcome"
      using that by (cases z) simp
    show ?thesis using c w by (cases r) (auto intro!: drop split: fault.split)
  qed
  then have "adds 1 x2 (y en ec)"
    using False unfolding y_def exec_single_simple_def Let_def
    by (simp add: x2 [symmetric] split: prod.split)
  then show ?thesis using False assms(2) \<open>adds 0 ?x1 x2\<close> by (simp add: adds_def)
qed

subsection \<open>Pipelines\<close>

lemma record_outcome_adds: "adds k x y \<Longrightarrow> adds (Suc k) x (fst (record_outcome (y, st) oc))"
  using adds_timing [of k x "record_peak (foldl write_stderr y (oc_errors oc)) (oc_peak oc)"]
  by (simp add: record_outcome_def Let_def adds_le)

lemma record_outcomes_adds: "adds k x y \<Longrightarrow> adds (k + length ocs) x (fst (foldl record_outcome (y, st) ocs))"
proof (induction ocs arbitrary: k y st)
  case (Cons oc ocs)
  obtain y1 st1 where r: "record_outcome (y, st) oc = (y1, st1)" by fastforce
  then have "adds (Suc k) x y1" using record_outcome_adds [OF Cons.prems, of st oc] by simp
  from Cons.IH [OF this, of st1] r show ?case by simp
qed simp

lemma poll_stage_length: "poll_stage en s slots outs k = (t, slots', outs') \<Longrightarrow> length outs' = length outs"
  by (auto simp: poll_stage_def Let_def split: if_splits option.splits prod.splits stage_turn.splits sum.splits)

lemma join_stages_length:
  "join_stages en c sched s slots outs = (z, Inr outs') \<Longrightarrow> length outs' = length outs"
proof (induction sched arbitrary: s slots outs)
  case (Cons ch sched)
  show ?case
  proof (cases "all_ended slots")
    case False
    show ?thesis
    proof (cases ch)
      case (Poll k)
      obtain s1 sl1 o1 where p: "poll_stage en s slots outs k = (s1, sl1, o1)" by (metis prod_cases3)
      then show ?thesis using Cons.IH [of s1 sl1 o1] Cons.prems False Poll poll_stage_length [OF p] by simp
    qed (use Cons False in auto)
  qed (use Cons in simp)
qed (simp split: if_splits)

lemma run_pipeline_stages_adds: "adds (length stages) x (fst (run_pipeline_stages en x stages))"
proof (cases "stages = []")
  case False
  let ?n = "length stages"
  let ?s0 = "(ex_io x)\<lparr>io_pipes := io_pipes (ex_io x) @ replicate (?n - 1) pipe_new\<rparr>"
  obtain s1 slots where sp: "spawn_stages ?s0 (length (io_pipes (ex_io x))) ?n 0 stages = (s1, slots)" by fastforce
  obtain sched s2 r where j: "join_stages en (ex_control x) (ex_sched x) s1 slots (replicate ?n None) = ((sched, s2), r)"
    by (metis surj_pair)
  show ?thesis
  proof (cases r)
    case (Inr outs)
    let ?ocs = "map the (filter (\<lambda>oc. oc \<noteq> None) outs)"
    have "length ?ocs \<le> ?n"
      using join_stages_length j Inr by (metis length_filter_le length_map length_replicate)
    moreover have "adds (0 + length ?ocs) x (fst (foldl record_outcome (x\<lparr>ex_sched := sched, ex_io := s2\<rparr>, 0) ?ocs))"
      by (rule record_outcomes_adds) simp
    ultimately show ?thesis
      using False sp j Inr adds_le by (simp add: run_pipeline_stages_def Let_def case_prod_beta')
  qed (use False sp j in \<open>simp add: run_pipeline_stages_def Let_def\<close>)
qed (simp add: run_pipeline_stages_def)

lemma expand_all_adds:
  "adds 0 x (fst (expand_all en x b cs))
   \<and> (\<forall>ecs. snd (expand_all en x b cs) = Inr (Inr ecs) \<longrightarrow> length ecs = length cs)"
proof (induction en x b cs rule: expand_all.induct)
  case (2 en x b c cs)
  obtain x1 q where y: "yield_now x = (x1, q)" by fastforce
  then have m: "adds 0 x x1" using adds_yield [of 0 x] by simp
  show ?case
  proof (cases q)
    case (Inr u)
    show ?thesis
    proof (cases "expand_command (en_layout en) b c (se_env (ex_session x1)) (ex_last_status x1)")
      case (Some r)
      obtain b1 ec where r: "r = (b1, ec)" by fastforce
      show ?thesis
      proof (cases "exec_cancelled x1")
        case False
        obtain x2 z where e: "expand_all en x1 b1 cs = (x2, z)" by fastforce
        have IH: "adds 0 x1 x2" "\<And>ecs. z = Inr (Inr ecs) \<Longrightarrow> length ecs = length cs"
          using "2.IH" [OF _ False Some [unfolded r]] y Inr e by auto
        then have "adds 0 x x2" using adds_trans [OF m] by fastforce
        then show ?thesis using y Inr Some r False e IH(2) by (cases z) (auto split: sum.splits)
      qed (use y m Inr in simp)
    qed (use y m Inr in \<open>simp add: limit_exceeded_def\<close>)
  qed (use y m in simp)
qed simp

lemma prepare_stage_adds: "adds k x (fst (prepare_stage en x ec))"
  by (auto simp: prepare_stage_def Let_def in_io_def split: prod.split sum.split fault.split)

lemma prepare_all_adds:
  "prepare_all en x ecs = (y, r) \<Longrightarrow> adds 0 x y \<and> (\<forall>sts. r = Inr (Inr sts) \<longrightarrow> length sts = length ecs)"
proof (induction ecs arbitrary: x y r)
  case (Cons ec ecs)
  obtain x1 q1 where q: "yield_now x = (x1, q1)" by fastforce
  obtain x2 q2 where p: "prepare_stage en x1 ec = (x2, q2)" by fastforce
  obtain x3 q3 where a: "prepare_all en x2 ecs = (x3, q3)" by fastforce
  have m: "adds 0 x x1" "adds 0 x1 x2" "adds 0 x2 x3"
    using adds_yield [of 0 x] prepare_stage_adds [of 0 x1 en ec] Cons.IH [OF a] q p by simp_all
  then have m': "adds 0 x x2" "adds 0 x x3" by (simp_all add: adds_def)
  show ?case
    using Cons.prems Cons.IH [OF a] q p a m m' by (cases q1; cases q2; cases q3) (auto split: if_splits sum.splits)
qed auto

subsection \<open>Programs\<close>

definition within :: "('s, 'h) engine \<Rightarrow> 's exec_state \<Rightarrow> bool" where
  "within en x \<longleftrightarrow> length (ex_timings x) \<le> ex_command_count x \<and> ex_command_count x \<le> max_commands (en_limits en)"

lemma within_adds: "within en x \<Longrightarrow> adds 0 x y \<Longrightarrow> within en y"
  by (simp add: within_def adds_def)

lemma within_upd [simp]: "within en (x\<lparr>ex_last_status := st\<rparr>) = within en x"
  by (simp add: within_def)

lemma within_single: "within en x \<Longrightarrow> within en (fst (exec_single_simple en x ec))"
  using exec_single_simple_count [of x en ec] by (simp add: within_def)

lemma within_stages:
  assumes "within en x" and "length ecs \<le> max_commands (en_limits en) - ex_command_count x"
  shows "within en (fst (and_then (prepare_all en x ecs) (\<lambda>x3 q. case q of
      Inl status \<Rightarrow> (x3, Ok status)
    | Inr stages \<Rightarrow> run_pipeline_stages en (x3\<lparr>ex_command_count := ex_command_count x3 + length stages\<rparr>) stages)))"
proof -
  obtain x3 q where p: "prepare_all en x ecs = (x3, q)" by fastforce
  note a = prepare_all_adds [OF p]
  have w: "within en x3" using within_adds assms(1) a by blast
  have "within en (fst (run_pipeline_stages en (x3\<lparr>ex_command_count := ex_command_count x3 + length sts\<rparr>) sts))"
    if "q = Inr (Inr sts)" for sts
    using run_pipeline_stages_adds [of sts "x3\<lparr>ex_command_count := ex_command_count x3 + length sts\<rparr>" en] a that w assms
    by (simp add: within_def adds_def)
  then show ?thesis using p w by (cases q) (auto split: sum.split)
qed

lemma within_pipeline:
  assumes "within en x"
  shows "within en (fst (exec_pipeline en x pl))"
proof -
  obtain x1 q where y: "yield_now x = (x1, q)" by fastforce
  have w1: "within en x1" using within_adds [OF assms adds_yield] y by (metis fst_conv)
  show ?thesis
  proof (cases "is_ok q \<and> \<not> exec_cancelled x1
      \<and> length (commands pl) \<le> max_commands (en_limits en) - ex_command_count x1")
    case False
    have "within en (fst (limit_exceeded x1 t))" for t
      using w1 by (simp add: limit_exceeded_def within_def write_stderr_def)
    then show ?thesis using False y w1 by (cases q) (auto simp: exec_pipeline_def)
  next
    case True
    let ?b = "max (shell_input_bytes (en_limits en)) (host_input_bytes (en_limits en))"
    obtain x2 r where e: "expand_all en x1 ?b (commands pl) = (x2, r)" by fastforce
    have a: "adds 0 x1 x2" "\<And>ecs. r = Inr (Inr ecs) \<Longrightarrow> length ecs = length (commands pl)"
      using expand_all_adds [of x1 en ?b "commands pl"] e by auto
    have w2: "within en x2" by (rule within_adds [OF w1 a(1)])
    have room: "length ecs \<le> max_commands (en_limits en) - ex_command_count x2" if "r = Inr (Inr ecs)" for ecs
      using a(2) [OF that] a(1) True by (simp add: adds_def)
    show ?thesis
    proof (cases r)
      case (Inr v)
      then show ?thesis
        using True y e w2 within_single [OF w2] within_stages [OF w2 room]
        by (cases v) (auto simp: exec_pipeline_def is_ok_iff split: list.split simp del: prepare_all.simps)
    qed (use True y e w2 in \<open>auto simp: exec_pipeline_def is_ok_iff\<close>)
  qed
qed

lemma within_rest: "within en x \<Longrightarrow> within en (fst (exec_rest en x st its))"
proof (induction its arbitrary: x st)
  case (Cons it its)
  have "within en (fst (and_then (exec_pipeline en x (ao_pipeline it)) (\<lambda>x1 s1.
      let x2 = x1\<lparr>ex_last_status := s1\<rparr> in if ex_limit_hit x2 then (x2, Ok s1) else exec_rest en x2 s1 its)))"
    using within_pipeline [OF Cons.prems, of "ao_pipeline it"] Cons.IH
    by (cases "exec_pipeline en x (ao_pipeline it)"; cases "snd (exec_pipeline en x (ao_pipeline it))") (auto simp: Let_def)
  then show ?case using Cons by simp
qed simp

lemma within_list: "within en x \<Longrightarrow> within en (fst (exec_and_or_list en x l))"
  using within_pipeline [of en x "al_first l"] within_rest [of en]
  by (cases "exec_pipeline en x (al_first l)"; cases "snd (exec_pipeline en x (al_first l))")
    (auto simp: exec_and_or_list_def)

lemma within_lists: "within en x \<Longrightarrow> within en (fst (exec_lists en x ls))"
proof (induction ls arbitrary: x)
  case (Cons l ls)
  obtain x1 q where y: "yield_now x = (x1, q)" by fastforce
  have w1: "within en x1" using within_adds [OF Cons.prems adds_yield] y by (metis fst_conv)
  obtain x2 r where e: "exec_and_or_list en x1 l = (x2, r)" by fastforce
  have w2: "within en x2" using within_list [OF w1, of l] e by simp
  then have "within en (fst (exec_lists en (x2\<lparr>ex_last_status := st\<rparr>) ls))" for st
    using Cons.IH [of "x2\<lparr>ex_last_status := st\<rparr>"] by simp
  then show ?case using y w1 e w2 by (cases q; cases r) (auto simp: Let_def)
qed simp

end
