(* ===== verification/Mount_Files.thy ===== *)
theory Mount_Files
  imports Mount_Spec Fs_Properties
begin

text \<open>
  The mount table as a filesystem. A sandbox always runs on a \<open>MountedVfs\<close>, so the contract that
  the facade relies on (locale \<open>handle_backend\<close>) has to hold for the table itself: it does for
  any backends that satisfy it, since the table hands out its own handles.
\<close>

text \<open>
  An \<open>open\<close> whose search for a handle number does not return keeps its admission slot, like one
  that panics.
\<close>

definition mount_ops :: "(backend \<Rightarrow> 's vfs_ops) \<Rightarrow> 's mount_sys vfs_ops" where
  "mount_ops ops = \<lparr>
     v_stat = mount_stat ops, v_readdir = mount_readdir ops, v_mkdir = mount_mkdir ops,
     v_rename = mount_rename ops, v_unlink = mount_unlink ops, v_rmdir = mount_rmdir ops,
     v_open = (\<lambda>y p m. case mount_open ops y p m of None \<Rightarrow> (y, Inl Panic) | Some out \<Rightarrow> out),
     v_read_at = mount_read_at ops, v_write_at = mount_write_at ops, v_truncate = mount_truncate ops,
     v_close = mount_close ops, v_abort = mount_abort ops,
     v_is_fast_path = mount_is_fast_path ops, v_is_fast_handle = mount_is_fast_handle ops,
     v_is_fast = (\<lambda>y. mv_fast (fst y)), v_stats = mount_stats ops\<rparr>"

definition mount_opened :: "'s mount_sys \<Rightarrow> file_handle set" where
  "mount_opened y = dom (map_of (mv_handles (fst y)))"

lemma loop_free:
  assumes "insert_handle_loop hs n = Some (h, n')"
  shows "map_of hs h = None"
proof -
  have "map_of hs (fst (h, n')) = None"
    by (rule insert_handle_loop.raw_induct [where P = "\<lambda>hs n r. map_of hs (fst r) = None", OF _ assms])
       (auto simp: Let_def split: if_splits)
  then show ?thesis by simp
qed

lemma insert_handle_fresh:
  assumes "insert_handle v b inner = Some (v', h)"
  shows "map_of (mv_handles v) h = None" "map_of (mv_handles v') = (map_of (mv_handles v))(h \<mapsto> \<lparr>mh_vfs = b, mh_inner = inner\<rparr>)"
  using assms loop_free by (auto simp: insert_handle_def split: option.splits)

locale mounted_handles =
  fixes ops :: "backend \<Rightarrow> 's vfs_ops" and valid :: "backend \<Rightarrow> 's \<Rightarrow> bool"
    and opened :: "backend \<Rightarrow> 's \<Rightarrow> file_handle set"
  assumes backends: "handle_backend (ops b) (valid b) (opened b)"
begin

definition mounts_valid :: "'s mount_sys \<Rightarrow> bool" where
  "mounts_valid y \<longleftrightarrow> bm_wf (mv_handles (fst y)) \<and> (\<forall>b. valid b (snd y b))"

lemma backend_quiet:
  assumes "mounts_valid y" and "\<And>s. valid b s \<Longrightarrow> valid b (fst (f s))"
  shows "quiet mounts_valid mount_opened y (on_backend y b f)"
  using assms(1) assms(2) [of "snd y b"]
  by (auto simp: quiet_def mounts_valid_def mount_opened_def on_backend_def split: prod.split)

lemma quiet_refl: "mounts_valid y \<Longrightarrow> quiet mounts_valid mount_opened y (y, r)"
  by (simp add: quiet_def)

lemma quiet_attempt:
  assumes "mounts_valid y" and "\<And>v. r = Inr v \<Longrightarrow> quiet mounts_valid mount_opened y (k v)"
  shows "quiet mounts_valid mount_opened y (attempt y r k)"
  using assms by (cases r) (auto simp: quiet_refl)

lemma backend_valid:
  assumes "valid b s"
  shows "valid b (fst (v_stat (ops b) s p))" "valid b (fst (v_readdir (ops b) s p))"
    "valid b (fst (v_mkdir (ops b) s p))" "valid b (fst (v_rename (ops b) s p p'))"
    "valid b (fst (v_unlink (ops b) s p))" "valid b (fst (v_rmdir (ops b) s p))"
    "valid b (fst (v_read_at (ops b) s h off n))" "valid b (fst (v_write_at (ops b) s h off d))"
    "valid b (fst (v_truncate (ops b) s h n))" "valid b (fst (v_open (ops b) s p m))"
    "valid b (fst (v_close (ops b) s h))" "valid b (fst (v_abort (ops b) s h))"
  using backends [of b] assms by (simp_all add: handle_backend_def quiet_def)

lemma release_spec:
  assumes "mounts_valid y" and "\<And>b s h. valid b s \<Longrightarrow> valid b (fst (rel b s h))"
  shows "mounts_valid (fst (mount_release rel y h)) \<and> mount_opened (fst (mount_release rel y h)) = mount_opened y - {h}"
proof (cases "map_of (mv_handles (fst y)) h")
  case None
  then show ?thesis using assms(1) by (auto simp: mount_release_def mount_opened_def)
next
  case (Some m)
  let ?y = "((fst y)\<lparr>mv_handles := bm_remove h (mv_handles (fst y))\<rparr>, snd y)"
  have y: "mounts_valid ?y" "mount_opened ?y = mount_opened y - {h}"
    using assms(1) by (auto simp: mounts_valid_def mount_opened_def)
  show ?thesis
    using backend_quiet [OF y(1), of "mh_vfs m" "\<lambda>s. rel (mh_vfs m) s (mh_inner m)"] assms(2) y(2) Some
    by (simp add: mount_release_def quiet_def)
qed

lemma open_outcome:
  assumes "mounts_valid y" and "mount_open ops y p m = Some (y', r)"
  shows "mounts_valid y' \<and> (case r of Inl _ \<Rightarrow> mount_opened y' = mount_opened y
    | Inr h \<Rightarrow> h \<notin> mount_opened y \<and> mount_opened y' = insert h (mount_opened y))"
proof (cases "obind (mounted_path (fst y) p) (ok_or EISDIR)")
  case (Inl f)
  then show ?thesis using assms by (auto simp: mount_open_def)
next
  case (Inr mp)
  obtain y1 q where out: "on_backend y (mp_vfs mp) (\<lambda>s. v_open (ops (mp_vfs mp)) s (mp_inner mp) m) = (y1, q)"
    by fastforce
  have y1: "mounts_valid y1" "mount_opened y1 = mount_opened y"
    using backend_quiet [OF assms(1), of "mp_vfs mp" "\<lambda>s. v_open (ops (mp_vfs mp)) s (mp_inner mp) m"]
      backend_valid(10) out by (simp_all add: quiet_def)
  show ?thesis
  proof (cases q)
    case (Inl e)
    then show ?thesis using assms Inr out y1 by (auto simp: mount_open_def split: if_splits)
  next
    case (Inr inner)
    show ?thesis
    proof (cases "mp_at_mount mp")
      case True
      then show ?thesis using assms \<open>obind _ _ = Inr mp\<close> by (auto simp: mount_open_def)
    next
      case False
      then obtain v h where ih: "insert_handle (fst y1) (mp_vfs mp) inner = Some (v, h)" "y' = (v, snd y1)" "r = Ok h"
        using assms(2) \<open>obind _ _ = Inr mp\<close> out Inr by (auto simp: mount_open_def split: option.splits)
      then show ?thesis
        using insert_handle_fresh [OF ih(1)] insert_handle_mounts [OF ih(1)] y1
        by (auto simp: mounts_valid_def mount_opened_def)
    qed
  qed
qed

lemma mount_handles: "handle_backend (mount_ops ops) mounts_valid mount_opened"
proof
  fix y :: "'s mount_sys"
  assume v: "mounts_valid y"
  note q = quiet_attempt [OF v] quiet_refl [OF v] backend_quiet [OF v] backend_valid
  show "quiet mounts_valid mount_opened y (v_stat (mount_ops ops) y p)"
    "quiet mounts_valid mount_opened y (v_readdir (mount_ops ops) y p)"
    "quiet mounts_valid mount_opened y (v_mkdir (mount_ops ops) y p)"
    "quiet mounts_valid mount_opened y (v_unlink (mount_ops ops) y p)"
    "quiet mounts_valid mount_opened y (v_rmdir (mount_ops ops) y p)" for p
    by (auto simp: mount_ops_def mount_stat_def mount_readdir_def mount_mkdir_def mount_unlink_def mount_rmdir_def
        intro!: q split: option.split sum.split)
  show "quiet mounts_valid mount_opened y (v_rename (mount_ops ops) y p p')" for p p'
    by (auto simp: mount_ops_def mount_rename_def intro!: q)
  show "quiet mounts_valid mount_opened y (v_read_at (mount_ops ops) y h off n)"
    "quiet mounts_valid mount_opened y (v_write_at (mount_ops ops) y h off d)"
    "quiet mounts_valid mount_opened y (v_truncate (mount_ops ops) y h n)" for h off n d
    by (auto simp: mount_ops_def mount_read_at_def mount_write_at_def mount_truncate_def intro!: q)
  show "mounts_valid (fst (v_open (mount_ops ops) y p m))" for p m
    using open_outcome [OF v, of p m] v by (auto simp: mount_ops_def split: option.split)
  show "h \<notin> mount_opened y \<and> mount_opened y' = insert h (mount_opened y)"
    if "v_open (mount_ops ops) y p m = (y', Ok h)" for p m y' h
    using open_outcome [OF v, of p m] that by (auto simp: mount_ops_def split: option.splits)
  show "mount_opened y' = mount_opened y" if "v_open (mount_ops ops) y p m = (y', Inl e)" for p m y' e
    using open_outcome [OF v, of p m] that by (auto simp: mount_ops_def split: option.splits)
  show "mounts_valid (fst (v_close (mount_ops ops) y h)) \<and> mount_opened (fst (v_close (mount_ops ops) y h)) = mount_opened y - {h}"
    "mounts_valid (fst (v_abort (mount_ops ops) y h)) \<and> mount_opened (fst (v_abort (mount_ops ops) y h)) = mount_opened y - {h}" for h
    using release_spec [OF v] backend_valid(11,12) by (simp_all add: mount_ops_def mount_close_def mount_abort_def)
qed

end

interpretation mem_tables: mounted_handles "\<lambda>b. mem_ops (qs b)" "\<lambda>b. mem_valid (qs b)" "\<lambda>_. mem_opened" for qs
  by (rule mounted_handles.intro) (rule mem_files.handle_backend_axioms)

interpretation mount_files: handle_backend "mount_ops (\<lambda>b. mem_ops (qs b))" "mem_tables.mounts_valid qs" mount_opened for qs
  by (rule mem_tables.mount_handles)

end
