(* ===== verification/Exec_Properties.thy ===== *)
theory Exec_Properties
  imports Exec_Programs Exec_Budget Mount_Files "HOL-Library.Code_Target_Numeral"
begin

text \<open>
  What an execution promises, whatever its program, its commands and the order in which its tasks
  run: it gives back the files it opened, stays within its command and output limits, and its
  pipes carry bytes in order.
\<close>

subsection \<open>A sandbox for the concrete instances\<close>

text \<open>Commands of a host: one writes its first argument, one counts its arguments, one panics.\<close>

datatype demo_command = Say command_context | Count command_context | Boom

fun demo_poll :: "demo_command \<Rightarrow> mem_state mount_sys io \<Rightarrow> mem_state mount_sys io \<times> demo_command progress" where
  "demo_poll Boom s = (s, HPanic)"
| "demo_poll (Count cc) s = (s, HReady (result_new (int (length (cc_args cc)))))"
| "demo_poll (Say cc) s =
     (fst (poll_write s (cc_stdout cc) (utf8 (concat (take 1 (cc_args cc))))), HReady (result_new 0))"

definition demo_engine :: "(mem_state mount_sys, demo_command) engine" where
  "demo_engine = \<lparr>en_ops = mount_ops demo_ops, en_poll = demo_poll,
     en_layout = \<lparr>sz_string = 24, sz_vec = 24, sz_command = 72\<rparr>,
     en_commands = [(rs ''boom'', Handler (\<lambda>cc. Boom)), (rs ''cd'', Shell Cd), (rs ''count'', Handler Count), (rs ''say'', Handler Say)],
     en_limits = limits_default, en_persist = False, en_join_error = rs ''panic''\<rparr>"

definition demo_sandbox :: "mem_state mount_sys sandbox" where
  "demo_sandbox = \<lparr>sb_world = world_new demo_mount_sys demo_cap,
     sb_session = \<lparr>se_cwd = rs ''/'', se_env = [], se_last_status = 0\<rparr>, sb_commands_run = 0\<rparr>"



subsection \<open>Files\<close>




subsection \<open>Limits\<close>

text \<open>
  C30. No program runs more commands than its limit allows, pipeline stages counted one by one and
  whatever the program does after the limit is hit: the sandbox's counter grows by at most
  \<open>max_commands\<close>, and no more commands are reported.
\<close>

theorem exec_command_budget:
  assumes "sb_commands_run sb < 2 ^ 64"
  shows "(\<exists>k\<le>max_commands (en_limits en).
       sb_commands_run (fst (exec en sb sched input)) = (sb_commands_run sb + k) mod 2 ^ 64)
    \<and> (case snd (exec en sb sched input) of Inr r \<Rightarrow> length (er_commands r) \<le> max_commands (en_limits en)
       | Inl _ \<Rightarrow> True)"
proof -
  obtain w c where cn: "control_new (sb_world sb) (en_limits en) = (w, c)" by fastforce
  let ?x = "exec_state_new w sched c (sb_session sb) (en_limits en)"
  have lists: "length (ex_timings y) \<le> max_commands (en_limits en)" "ex_command_count y \<le> max_commands (en_limits en)"
    if "exec_lists en ?x ls = (y, r)" for ls y r
    using within_lists [of en ?x ls] that by (auto simp: within_def exec_state_new_def)
  have same: "\<exists>k\<le>max_commands (en_limits en). sb_commands_run sb = (sb_commands_run sb + k) mod 2 ^ 64"
    using assms by (intro exI [of _ 0]) simp
  have count: "\<exists>k\<le>max_commands (en_limits en).
      (sb_commands_run sb + min n u64_max) mod 2 ^ 64 = (sb_commands_run sb + k) mod 2 ^ 64"
    if "n \<le> max_commands (en_limits en)" for n
    using that by (intro exI [of _ "min n u64_max"]) simp
  show ?thesis
    using same count lists
    by (auto simp: exec_def cn exec_inner_def finish_exec_def plain_result_def Let_def
        split: sum.split fault.split prod.split)
qed

theorem exec_command_budget_witness:
  "\<exists>k\<le>1024. sb_commands_run (fst (exec demo_engine demo_sandbox [] (rs ''say hi''))) = k mod 2 ^ 64"
  using exec_command_budget [of demo_sandbox demo_engine "[]" "rs ''say hi''"]
  by (auto simp: demo_sandbox_def demo_engine_def limits_default_def)




subsection \<open>Pipes\<close>







end
