(* ===== verification/Exec_Arguments.thy ===== *)
theory Exec_Arguments
  imports Exec_Properties Shell_Quote
begin

text \<open>
  From a line of quoted arguments to the command that gets them: lexer, parser, expansion and
  engine together.
\<close>

text \<open>A word that is a quoted literal expands to itself, at the cost of its bytes.\<close>

lemma quoted_atoms:
  "quoted_text segs = Some t \<Longrightarrow> segs \<noteq> [] \<Longrightarrow>
   \<exists>as. concat (map (segment_atoms env status True) segs) = as \<and> Sep \<notin> set as \<and> as \<noteq> [] \<and> atoms_text as = t"
proof (induction segs arbitrary: t rule: quoted_text.induct)
  case (2 v segs)
  have one: "segment_atoms env status True (Literal v True) = Mark # map Ch v"
    by (simp add: segment_atoms_def segment_splits_def segment_value_def)
  show ?case
  proof (cases "segs = []")
    case True
    then show ?thesis using 2 one by auto
  next
    case False
    then show ?thesis using 2 one by fastforce
  qed
qed simp_all

lemma quoted_fields:
  assumes "quoted_text (segments w) = Some t" and "segments w \<noteq> []"
  shows "fields_of_word env status True w = [t]"
  using quoted_atoms [OF assms, of env status]
  by (auto simp: fields_of_word_def word_atoms_def atom_fields_def split_on_no_sep)

lemma quoted_bytes:
  "quoted_text segs = Some t \<Longrightarrow> sum_list (map (\<lambda>seg. byte_len (segment_value env status seg)) segs) = byte_len t"
  by (induction segs arbitrary: t rule: quoted_text.induct) (auto simp: segment_value_def)

definition arguments_cost :: "layout \<Rightarrow> env \<Rightarrow> rstr list \<Rightarrow> nat" where
  "arguments_cost ly env args =
     sz_command ly + env_cost ly env + sum_list (map (\<lambda>a. byte_len a + sz_string ly) args)"

lemma quoted_words_fields:
  "map (\<lambda>w. quoted_text (segments w)) ws = map Some args \<Longrightarrow> list_all (\<lambda>w. segments w \<noteq> []) ws \<Longrightarrow>
   concat (map (fields_of_word env status True) ws) = args
   \<and> sum_list (map (word_cost ly env status True) ws) = sum_list (map (\<lambda>a. byte_len a + sz_string ly) args)"
proof (induction ws arbitrary: args)
  case (Cons w ws)
  then obtain a as where args: "args = a # as" "quoted_text (segments w) = Some a" by (cases args) auto
  then have "fields_of_word env status True w = [a]" using Cons.prems quoted_fields by simp
  then show ?case using Cons args quoted_bytes [OF args(2)] by (simp add: word_cost_def)
qed simp

lemma expand_quoted:
  assumes "map (\<lambda>w. quoted_text (segments w)) ws = map Some args" and "list_all (\<lambda>w. segments w \<noteq> []) ws"
    and "arguments_cost ly env args \<le> b"
  shows "\<exists>b'. expand_command ly b \<lparr>sc_assignments = [], sc_words = ws, sc_redirects = []\<rparr> env status =
    Some (b', \<lparr>ec_syntax = \<lparr>sc_assignments = [], sc_words = ws, sc_redirects = []\<rparr>, ec_env = env,
      ec_words = args, ec_targets = []\<rparr>)"
  using assms(3) quoted_words_fields [OF assms(1,2)]
  by (simp add: expand_command_eq pay_def command_cost_def command_expansion_def arguments_cost_def Let_def)

text \<open>The engine on one command without redirects, whose handler returns at its first poll.\<close>

lemma fresh_control:
  assumes "control_new w l = (w1, c)"
  shows "c < length (w_controls w1)" "\<not> control_cancelled (control_of w1 c)"
  using assms by (auto simp: control_new_def control_cancelled_def)

lemma scoped_cancelled:
  assumes "fs_scoped w bin cwd c = (w1, f)" and "c < length (w_controls w)"
  shows "control_cancelled (control_of (registry_abandon_all ops w1 (fs_handles f)) c)
    = control_cancelled (control_of w c)"
proof -
  have "registry_of w1 (fs_handles f) = \<lparr>rg_files = [], rg_control = Some c\<rparr>"
    using assms by (auto simp: fs_scoped_def fs_build_def update_control_def Let_def)
  then have "w_controls (registry_abandon_all ops w1 (fs_handles f)) = w_controls w1"
    by (simp add: registry_abandon_all_def update_registry_def)
  then show ?thesis
    using assms by (auto simp: fs_scoped_def fs_build_def update_control_def control_cancelled_def Let_def)
qed

lemma single_simple_returns:
  assumes "bm_get (en_commands en) name = Some (Handler g)" and "ec_words ec = name # args"
    and "sc_redirects (ec_syntax ec) = []"
    and "ex_command_count x < max_commands (en_limits en)"
    and "ex_sched x = Poll a # Poll b # sched" and "ex_control x < length (w_controls (ex_world x))"
    and "\<And>ctx s. en_poll en (g ctx) s = (s, HReady (result_new (status (cc_args ctx))))"
  shows "\<exists>y. exec_single_simple en x ec = (y, Ok (status args))
    \<and> ex_limit_hit y = ex_limit_hit x \<and> ex_timings y = ex_timings x @ [(name, status args)]
    \<and> io_stdout (ex_io y) = io_stdout (ex_io x) \<and> io_stderr (ex_io y) = io_stderr (ex_io x)
    \<and> ex_session y = ex_session x \<and> ex_control y = ex_control x \<and> exec_cancelled y = exec_cancelled x"
proof -
  obtain w f where f: "fs_scoped (ex_world x) (en_names en) (se_cwd (ex_session x)) (ex_control x) = (w, f)"
    by fastforce
  have prep: "prepare_redirects (en_ops en) f s (ec_syntax ec) ts = (s, Ok prepared_default)" for s ts
    using assms(3) by (simp add: prepare_redirects_def)
  note flags = scoped_cancelled [OF f assms(6), of "en_ops en"]
  show ?thesis
    using assms f prep flags
    by (auto simp: exec_single_simple_def Let_def drop_fs_def in_io_def with_redirects_def prepared_default_def
        finish_command_def writer_for_destination_def task_turn_def start_registered_def result_new_def
        record_peak_def set_world_def exec_cancelled_def)
qed

text \<open>The program of one quoted command line, up to its result.\<close>

lemma exec_arguments:
  assumes "bm_get (en_commands en) name = Some (Handler g)"
    and "\<And>ctx s. en_poll en (g ctx) s = (s, HReady (result_new (status (cc_args ctx))))"
    and "arguments_cost (en_layout en) (se_env (sb_session sb)) (name # args)
      \<le> max (shell_input_bytes (en_limits en)) (host_input_bytes (en_limits en))"
    and "byte_len (quoted_line (name # args)) \<le> shell_input_bytes (en_limits en)"
    and "0 < max_commands (en_limits en)"
    and "sched = Poll a # Poll b # Poll c # Poll d # Poll e # rest"
  shows "\<exists>r. snd (exec en sb sched (quoted_line (name # args))) = Ok r
    \<and> er_exit_code r = status args \<and> er_commands r = [(name, status args)]"
proof -
  obtain w k where cn: "control_new (sb_world sb) (en_limits en) = (w, k)" by fastforce
  note fresh = fresh_control [OF cn]
  let ?x = "exec_state_new w sched k (sb_session sb) (en_limits en)"
  let ?x1 = "?x\<lparr>ex_sched := Poll d # Poll e # rest\<rparr>"
  obtain ws where ws: "parse (quoted_line (name # args)) = Ok (command_program ws)"
      "map (\<lambda>w. quoted_text (segments w)) ws = map Some (name # args)" "list_all (\<lambda>w. segments w \<noteq> []) ws"
    using parse_quoted_words [of "name # args"] by auto
  let ?syn = "\<lparr>sc_assignments = [], sc_words = ws, sc_redirects = []\<rparr>"
  let ?ec = "\<lparr>ec_syntax = ?syn, ec_env = se_env (sb_session sb), ec_words = name # args, ec_targets = []\<rparr>"
  obtain b' where ex: "expand_command (en_layout en) (max (shell_input_bytes (en_limits en)) (host_input_bytes (en_limits en)))
      ?syn (se_env (sb_session sb)) (se_last_status (sb_session sb)) = Some (b', ?ec)"
    using expand_quoted [OF ws(2,3) assms(3)] by blast
  obtain y where y: "exec_single_simple en ?x1 ?ec = (y, Ok (status args))" "\<not> ex_limit_hit y"
      "ex_timings y = [(name, status args)]" "ex_control y = k" "\<not> exec_cancelled y"
    using single_simple_returns [OF assms(1), of ?ec args ?x1 d e rest status] assms(2,5) fresh
    by (auto simp: exec_state_new_def exec_cancelled_def)
  have "\<not> exec_cancelled (?x\<lparr>ex_sched := s\<rparr>)" for s
    using fresh by (simp add: exec_cancelled_def exec_state_new_def)
  then have "exec_lists en ?x (lists (command_program ws)) = (y\<lparr>ex_last_status := status args\<rparr>, Ok ())"
    using ex y assms(5,6)
    by (simp add: exec_and_or_list_def exec_pipeline_def yield_now_def exec_state_new_def)
  then show ?thesis
    using assms(4) ws(1) y
    by (simp add: exec_def cn exec_inner_def finish_exec_def exec_cancelled_def Let_def)
qed

end
