(* ===== verification/Js_Globals.thy ===== *)
theory Js_Globals
  imports Shell_Parse Sandbox_Fs "HOL-Library.Sublist"
begin

text \<open>
  The registry of host globals for sandboxed JavaScript (\<open>src/sandbox/mod.rs\<close>): dotted names bound
  to host functions, changed as a whole so that a rejected change leaves it as it was. The
  functions are an arbitrary type.
\<close>

type_synonym 'g js_globals = "(rstr, 'g) bmap"

type_synonym 'a js_result = "(rstr, 'a) outcome"

abbreviation dot :: rchar where
  "dot \<equiv> 46"

definition reserved_js_globals :: "rstr list" where
  "reserved_js_globals = map rs
     [''Buffer'', ''Headers'', ''Response'', ''__dirname'', ''__filename'', ''console'', ''exports'', ''fetch'',
      ''globalThis'', ''module'', ''process'', ''require'', ''setTimeout'', ''clearTimeout'', ''setInterval'',
      ''clearInterval'', ''setImmediate'', ''clearImmediate'']"

definition is_js_global_name :: "rstr \<Rightarrow> bool" where
  "is_js_global_name name \<longleftrightarrow> name \<noteq> [] \<and> list_all is_assignment_name (split_on dot name)"

definition quoted_name :: "rstr \<Rightarrow> rstr" where
  "quoted_name name = [39] @ name @ [39]"

definition check_js_global_name :: "rstr \<Rightarrow> unit js_result" where
  "check_js_global_name name =
     (if \<not> is_js_global_name name
      then Err (rs ''cannot register invalid name '' @ quoted_name name
        @ rs ''; names are dot-separated paths of [A-Za-z_][A-Za-z0-9_]* segments'')
      else
        let root = hd (split_on dot name) in
        if root \<in> set reserved_js_globals
        then Err (rs ''cannot register reserved name '' @ quoted_name name @ rs ''; '' @ quoted_name root
          @ rs '' is provided by the JavaScript runtime'')
        else Ok ())"

text \<open>The test works on bytes.\<close>

definition is_inside :: "rstr \<Rightarrow> rstr \<Rightarrow> bool" where
  "is_inside namespace path \<longleftrightarrow>
     byte_len namespace < byte_len path \<and> utf8 path ! byte_len namespace = 46 \<and> starts_with path namespace"

definition paths_conflict :: "rstr \<Rightarrow> rstr \<Rightarrow> bool" where
  "paths_conflict left right \<longleftrightarrow> left = right \<or> is_inside left right \<or> is_inside right left"

fun merge_loop :: "'g js_globals \<Rightarrow> rstr set \<Rightarrow> (rstr \<times> 'g) list \<Rightarrow> 'g js_globals js_result" where
  "merge_loop merged added [] = Ok merged"
| "merge_loop merged added ((name, g) # entries) =
     obind (check_js_global_name name) (\<lambda>_.
       if name \<in> added then Err (rs ''cannot register duplicate name '' @ quoted_name name)
       else
         let kept = bm_remove name merged in
         case find (\<lambda>other. paths_conflict other name) (map fst kept) of
           Some other \<Rightarrow>
             Err (rs ''cannot register '' @ quoted_name name @ rs ''; it conflicts with '' @ quoted_name other)
         | None \<Rightarrow> merge_loop (bm_insert name g kept) (insert name added) entries)"

definition merge_js_globals :: "'g js_globals \<Rightarrow> (rstr \<times> 'g) list \<Rightarrow> 'g js_globals js_result" where
  "merge_js_globals merged entries = merge_loop merged {} entries"

text \<open>A rejected set panics in the builder.\<close>

definition build_js_global_registry :: "(rstr \<times> 'g) list \<Rightarrow> 'g js_globals js_result" where
  "build_js_global_registry entries =
     (case merge_js_globals [] entries of Inl _ \<Rightarrow> Inl Panic | Inr m \<Rightarrow> Ok m)"

definition mutate_js_globals ::
  "'g js_globals \<Rightarrow> ('g js_globals \<Rightarrow> 'g js_globals js_result) \<Rightarrow> 'g js_globals \<times> unit js_result" where
  "mutate_js_globals m change = (case change m of Inl e \<Rightarrow> (m, Inl e) | Inr n \<Rightarrow> (n, Ok ()))"

definition set_js_global :: "'g js_globals \<Rightarrow> rstr \<Rightarrow> 'g \<Rightarrow> 'g js_globals \<times> unit js_result" where
  "set_js_global m name g = mutate_js_globals m (\<lambda>cur. merge_js_globals cur [(name, g)])"

definition extend_js_globals :: "'g js_globals \<Rightarrow> (rstr \<times> 'g) list \<Rightarrow> 'g js_globals \<times> unit js_result" where
  "extend_js_globals m entries = mutate_js_globals m (\<lambda>cur. merge_js_globals cur entries)"

definition replace_js_globals :: "'g js_globals \<Rightarrow> (rstr \<times> 'g) list \<Rightarrow> 'g js_globals \<times> unit js_result" where
  "replace_js_globals m entries = mutate_js_globals m (\<lambda>_. merge_js_globals [] entries)"

definition remove_js_global :: "'g js_globals \<Rightarrow> rstr \<Rightarrow> 'g js_globals \<times> bool" where
  "remove_js_global m name = (if bm_get m name = None then (m, False) else (bm_remove name m, True))"

definition js_global_names :: "'g js_globals \<Rightarrow> rstr list" where
  "js_global_names m = map fst m"

subsection \<open>Names as paths\<close>

lemma split_on_append: "split_on c (xs @ c # ys) = split_on c xs @ split_on c ys"
proof (induction xs)
  case (Cons x xs)
  then show ?case by (cases "split_on c xs") auto
qed simp

lemma join_append:
  "as \<noteq> [] \<Longrightarrow> bs \<noteq> [] \<Longrightarrow> join c (as @ bs) = join c as @ c @ join c bs"
proof (induction c as rule: join.induct)
  case (2 c x)
  then show ?case by (cases bs) auto
qed auto

lemma ascii_bytes: "list_all (\<lambda>c. c < 128) s \<Longrightarrow> byte_len s = length s \<and> utf8 s = map of_nat s"
  by (induction s) (auto simp: len_utf8_def utf8_char_def)

lemma js_name_ascii: "is_js_global_name name \<Longrightarrow> list_all (\<lambda>c. c < 128) name"
proof -
  assume "is_js_global_name name"
  then have "\<forall>p\<in>set (split_on dot name). is_assignment_name p" by (simp add: is_js_global_name_def list_all_iff)
  then have pieces: "c < 128" if "p \<in> set (split_on dot name)" "c \<in> set p" for p c
    using that by (cases p) (fastforce simp: is_assignment_name_def is_ascii_alphabetic_def
        is_ascii_alphanumeric_def is_ascii_digit_def list_all_iff)+
  have "set name \<subseteq> {dot} \<union> \<Union> (set ` set (split_on dot name))"
    using set_join [of "[dot]" "split_on dot name"] by (simp add: join_split)
  then show ?thesis using pieces by (fastforce simp: list_all_iff)
qed

text \<open>One name lies inside another exactly when its path continues it.\<close>

lemma is_inside_iff:
  assumes "is_js_global_name ns" and "is_js_global_name path"
  shows "is_inside ns path \<longleftrightarrow> strict_prefix (split_on dot ns) (split_on dot path)"
proof
  note ascii = js_name_ascii [OF assms(1)] js_name_ascii [OF assms(2)]
  note bytes = ascii_bytes [OF ascii(1)] ascii_bytes [OF ascii(2)]
  assume "is_inside ns path"
  then have l: "length ns < length path" and d: "(of_nat (path ! length ns) :: byte) = 46" and t: "take (length ns) path = ns"
    using bytes by (auto simp: is_inside_def starts_with_def)
  have "path ! length ns < 128" using ascii(2) l by (simp add: list_all_length)
  moreover have "unat (of_nat (path ! length ns) :: byte) = unat (46 :: byte)" using d by simp
  ultimately have "path ! length ns = dot" by (simp add: unat_of_nat)
  then have "path = ns @ dot # drop (Suc (length ns)) path"
    using l t id_take_nth_drop [OF l] by simp
  then show "strict_prefix (split_on dot ns) (split_on dot path)"
    using split_on_append [of dot ns "drop (Suc (length ns)) path"]
    by (metis append_self_conv prefixI split_on_neq_Nil strict_prefix_def)
next
  assume "strict_prefix (split_on dot ns) (split_on dot path)"
  then obtain bs where bs: "split_on dot path = split_on dot ns @ bs" "bs \<noteq> []"
    by (auto simp: strict_prefix_def prefix_def)
  then have "path = ns @ dot # join [dot] bs"
    using join_append [of "split_on dot ns" bs "[dot]"] join_split [of dot path] join_split [of dot ns] by simp
  then show "is_inside ns path"
    using ascii_bytes [OF js_name_ascii [OF assms(1)]] ascii_bytes [OF js_name_ascii [OF assms(2)]]
    by (simp add: is_inside_def starts_with_def nth_append)
qed

lemma paths_conflict_iff:
  assumes "is_js_global_name a" and "is_js_global_name b"
  shows "paths_conflict a b \<longleftrightarrow> prefix (split_on dot a) (split_on dot b) \<or> prefix (split_on dot b) (split_on dot a)"
proof -
  have "a = b" if "split_on dot a = split_on dot b" using that by (metis join_split)
  then show ?thesis
    unfolding paths_conflict_def is_inside_iff [OF assms] is_inside_iff [OF assms(2,1)] strict_prefix_def
    by (metis prefix_order.order_refl)
qed

subsection \<open>The registry\<close>

text \<open>
  A set of names is a surface when every name is admissible and none is a namespace of another:
  exactly then the names can be installed as the leaves of nested objects.
\<close>

definition admissible :: "rstr \<Rightarrow> bool" where
  "admissible name \<longleftrightarrow> is_js_global_name name \<and> hd (split_on dot name) \<notin> set reserved_js_globals"

definition surface :: "rstr set \<Rightarrow> bool" where
  "surface N \<longleftrightarrow> (\<forall>a\<in>N. admissible a) \<and> (\<forall>a\<in>N. \<forall>b\<in>N. prefix (split_on dot a) (split_on dot b) \<longrightarrow> a = b)"

definition registry_ok :: "'g js_globals \<Rightarrow> bool" where
  "registry_ok m \<longleftrightarrow> bm_wf m \<and> surface (fst ` set m)"

lemma check_name_iff: "is_ok (check_js_global_name name) \<longleftrightarrow> admissible name"
  by (simp add: check_js_global_name_def admissible_def Let_def)

lemma surface_conflict:
  assumes "surface N" and "admissible name" and "name \<notin> N"
  shows "surface (insert name N) \<longleftrightarrow> (\<forall>other\<in>N. \<not> paths_conflict other name)"
  using assms paths_conflict_iff [of _ name] unfolding surface_def admissible_def by (metis insert_iff)

lemma surface_subset: "surface N \<Longrightarrow> M \<subseteq> N \<Longrightarrow> surface M"
  unfolding surface_def by blast

lemma merge_loop_step:
  "merge_loop m added ((name, g) # es) =
     (if admissible name \<and> name \<notin> added \<and> (\<forall>other\<in>fst ` set (bm_remove name m). \<not> paths_conflict other name)
      then merge_loop (bm_insert name g (bm_remove name m)) (insert name added) es
      else merge_loop m added ((name, g) # es))"
proof -
  have "find (\<lambda>other. paths_conflict other name) (map fst (bm_remove name m)) = None"
    if "\<forall>other\<in>fst ` set (bm_remove name m). \<not> paths_conflict other name"
    using that by (simp add: find_None_iff)
  then show ?thesis using check_name_iff [of name] by (auto simp: is_ok_iff)
qed

lemma merge_loop_accepts:
  assumes "merge_loop m added ((name, g) # es) = Inr m'"
  shows "admissible name \<and> name \<notin> added \<and> (\<forall>other\<in>fst ` set (bm_remove name m). \<not> paths_conflict other name)"
proof -
  have a: "check_js_global_name name = Ok ()" "name \<notin> added"
    "find (\<lambda>other. paths_conflict other name) (map fst (bm_remove name m)) = None"
    using assms by (auto simp: obind_eq_Ok Let_def split: if_splits option.splits)
  then show ?thesis using check_name_iff [of name] by (auto simp: find_None_iff)
qed

declare merge_loop.simps(2) [simp del]

text \<open>One entry: it is accepted exactly when it fits the surface, and then it is bound.\<close>

lemma merge_loop_spec:
  assumes "registry_ok m" and "added \<subseteq> fst ` set m"
  shows "(is_ok (merge_loop m added es) \<longleftrightarrow>
       distinct (map fst es) \<and> added \<inter> fst ` set es = {} \<and> surface (fst ` set m \<union> fst ` set es))
    \<and> (\<forall>m'. merge_loop m added es = Inr m' \<longrightarrow> registry_ok m' \<and> map_of m' = map_of m ++ map_of es)"
  using assms
proof (induction es arbitrary: m added)
  case Nil
  then show ?case by (simp add: registry_ok_def)
next
  case (Cons e es)
  obtain name g where e: "e = (name, g)" by fastforce
  let ?kept = "bm_remove name m" and ?m = "bm_insert name g (bm_remove name m)"
  have wf: "bm_wf m" and sf: "surface (fst ` set m)" using Cons.prems(1) by (auto simp: registry_ok_def)
  have keys: "fst ` set ?kept = fst ` set m - {name}" using keys_bm_remove wf by blast
  have keys': "fst ` set ?m = insert name (fst ` set m)" using keys by (auto simp: set_bm_insert)
  show ?case
  proof (cases "admissible name \<and> name \<notin> added \<and> (\<forall>other\<in>fst ` set ?kept. \<not> paths_conflict other name)")
    case True
    then have step: "merge_loop m added (e # es) = merge_loop ?m (insert name added) es"
      using merge_loop_step [of m added name g es] e by simp
    have "surface (insert name (fst ` set m - {name}))"
      using surface_conflict [of "fst ` set m - {name}" name] surface_subset [OF sf] True keys by auto
    then have ok: "registry_ok ?m" using wf keys' by (auto simp: registry_ok_def insert_absorb)
    have same: "map_of ?m ++ map_of es = map_of m ++ map_of (e # es)" if "name \<notin> fst ` set es"
    proof -
      have "map_of es name = None" using that by (simp add: map_of_eq_None_iff)
      then show ?thesis using wf e by (auto simp: fun_eq_iff map_add_def split: option.split)
    qed
    have "insert name added \<subseteq> fst ` set ?m" using Cons.prems(2) keys' by auto
    note ih = Cons.IH [OF ok this]
    have "is_ok (merge_loop m added (e # es)) \<longleftrightarrow> distinct (map fst (e # es)) \<and> added \<inter> fst ` set (e # es) = {}
        \<and> surface (fst ` set m \<union> fst ` set (e # es))"
      unfolding step conjunct1 [OF ih] keys' using True e by auto
    moreover have "registry_ok m' \<and> map_of m' = map_of m ++ map_of (e # es)" if "merge_loop m added (e # es) = Inr m'" for m'
    proof -
      have "name \<notin> fst ` set es" using conjunct1 [OF ih] that unfolding step by (auto simp: is_ok_iff)
      from same [OF this] show ?thesis using conjunct2 [OF ih] that unfolding step by (simp only:)
    qed
    ultimately show ?thesis by blast
  next
    case False
    have "merge_loop m added (e # es) \<noteq> Inr m'" for m'
      using False merge_loop_accepts [of m added name g es m'] unfolding e by fast
    moreover have "\<not> (name \<notin> added \<and> surface (fst ` set m \<union> fst ` set (e # es)))"
    proof
      assume a: "name \<notin> added \<and> surface (fst ` set m \<union> fst ` set (e # es))"
      then have adm: "admissible name" using e by (simp add: surface_def)
      have "surface (insert name (fst ` set m - {name}))"
        using e by (intro surface_subset [OF conjunct2 [OF a]]) auto
      moreover have "surface (fst ` set m - {name})" by (rule surface_subset [OF sf]) auto
      ultimately have "\<forall>other\<in>fst ` set ?kept. \<not> paths_conflict other name"
        using surface_conflict [of "fst ` set m - {name}" name] adm keys by simp
      then show False using False adm a by simp
    qed
    ultimately show ?thesis using e by (auto simp: is_ok_iff)
  qed
qed

text \<open>The registries a sandbox can have: built, then changed by calls that may fail.\<close>

datatype 'g js_change = SetGlobal rstr 'g | ExtendGlobals "(rstr \<times> 'g) list" | ReplaceGlobals "(rstr \<times> 'g) list"
  | RemoveGlobal rstr

fun js_apply :: "'g js_globals \<Rightarrow> 'g js_change \<Rightarrow> 'g js_globals" where
  "js_apply m (SetGlobal name g) = fst (set_js_global m name g)"
| "js_apply m (ExtendGlobals es) = fst (extend_js_globals m es)"
| "js_apply m (ReplaceGlobals es) = fst (replace_js_globals m es)"
| "js_apply m (RemoveGlobal name) = fst (remove_js_global m name)"

lemma registry_ok_nil: "registry_ok []"
  by (simp add: registry_ok_def surface_def)

lemmas merge_spec = merge_loop_spec [where added = "{}", simplified, folded merge_js_globals_def]

lemma mutate_ok:
  assumes "registry_ok m" and "\<And>n. change m = Inr n \<Longrightarrow> registry_ok n"
  shows "registry_ok (fst (mutate_js_globals m change))"
  using assms by (auto simp: mutate_js_globals_def split: sum.split)

lemma js_apply_ok: "registry_ok m \<Longrightarrow> registry_ok (js_apply m c)"
proof (cases c)
  case (RemoveGlobal name)
  assume "registry_ok m"
  then have "registry_ok (bm_remove name m)"
    using surface_subset [of "fst ` set m" "fst ` set (bm_remove name m)"] set_bm_remove [of name m]
    by (auto simp: registry_ok_def)
  then show ?thesis using RemoveGlobal \<open>registry_ok m\<close> by (simp add: remove_js_global_def)
qed (use merge_spec registry_ok_nil in
  \<open>auto simp: set_js_global_def extend_js_globals_def replace_js_globals_def intro!: mutate_ok\<close>)

text \<open>
  C35. Whatever sequence of calls a sandbox has seen, its JavaScript globals form a surface: every
  name is a dotted path of identifiers outside the runtime's own names, and no name is a
  namespace of another. A set of globals is added exactly when the result is a surface and no
  name is given twice, and then the new bindings override the old; otherwise nothing changes.
\<close>

theorem js_globals_surface:
  assumes "build_js_global_registry es0 = Inr m0" and "m = foldl js_apply m0 calls"
  shows "surface (set (js_global_names m))
    \<and> (snd (extend_js_globals m es) = Ok () \<longleftrightarrow>
         distinct (map fst es) \<and> surface (set (js_global_names m) \<union> fst ` set es))
    \<and> map_of (fst (extend_js_globals m es)) =
        (if snd (extend_js_globals m es) = Ok () then map_of m ++ map_of es else map_of m)"
proof -
  have "registry_ok m0"
    using assms(1) merge_spec [OF registry_ok_nil, of es0]
    by (auto simp: build_js_global_registry_def split: sum.splits)
  moreover have "registry_ok n \<Longrightarrow> registry_ok (foldl js_apply n cs)" for n and cs :: "'a js_change list"
    by (induction cs arbitrary: n) (simp_all add: js_apply_ok)
  ultimately have ok: "registry_ok m" using assms(2) by simp
  note spec = merge_spec [OF ok, of es]
  have sf: "surface (set (js_global_names m))" using ok by (simp add: registry_ok_def js_global_names_def)
  show ?thesis
  proof (cases "merge_js_globals m es")
    case (Inl e)
    then have "\<not> (distinct (map fst es) \<and> surface (fst ` set m \<union> fst ` set es))" using spec by simp
    then show ?thesis using sf Inl by (simp add: extend_js_globals_def mutate_js_globals_def js_global_names_def)
  next
    case (Inr m')
    then have "distinct (map fst es) \<and> surface (fst ` set m \<union> fst ` set es)" "map_of m' = map_of m ++ map_of es"
      using spec by simp_all
    then show ?thesis using sf Inr by (simp add: extend_js_globals_def mutate_js_globals_def js_global_names_def)
  qed
qed

theorem js_globals_surface_witness:
  "\<not> snd (extend_js_globals [(rs ''tools.search'', 1 :: nat)] [(rs ''tools'', 2)]) = Ok ()
   \<and> surface {rs ''tools.search''}"
proof -
  have b: "build_js_global_registry [(rs ''tools.search'', 1 :: nat)] = Inr [(rs ''tools.search'', 1)]"
    by code_simp
  have "prefix (split_on dot (rs ''tools'')) (split_on dot (rs ''tools.search''))" by simp
  moreover have "rs ''tools'' \<noteq> rs ''tools.search''" by simp
  ultimately have "\<not> surface ({rs ''tools.search''} \<union> {rs ''tools''})" unfolding surface_def by blast
  moreover have "set (js_global_names [(rs ''tools.search'', 1 :: nat)]) = {rs ''tools.search''}"
    "fst ` set [(rs ''tools'', 2 :: nat)] = {rs ''tools''}" by (simp_all only: js_global_names_def list.map list.set fst_conv image_insert image_empty)
  moreover note js_globals_surface [OF b, of "[(rs ''tools.search'', 1)]" "[]" "[(rs ''tools'', 2)]"]
  ultimately show ?thesis by (simp only: foldl_Nil refl) blast
qed

end
