(* ===== verification/Builtin_Lines.thy ===== *)
theory Builtin_Lines
  imports Sandbox_Fs
begin

text \<open>
  The streams of the builtin commands (\<open>src/sandbox/builtins.rs\<close>) and their line input.

  A source is a function that answers one \<open>read\<close> with at most the given number of bytes, no
  bytes being the end of the input; its state is the list of the chunks still to come for
  standard input, and the world with a stream reader for a file. A sink collects what
  \<open>write_all\<close> was given and may refuse a call after taking a part of it.
\<close>

datatype io_fault = Disconnected | InvalidData rstr | OtherFault "errno option"

type_synonym 'a io_result = "(io_fault, 'a) outcome"

type_synonym 'r source = "'r \<Rightarrow> nat \<Rightarrow> 'r \<times> byte list io_result"

fun chunk_read :: "byte list io_result list source" where
  "chunk_read [] n = ([], Ok [])"
| "chunk_read (Inl f # cs) n = (cs, Inl f)"
| "chunk_read (Inr c # cs) n = (if length c \<le> n then cs else Inr (drop n c) # cs, Ok (take n c))"

fun stream_fault :: "errno fault \<Rightarrow> io_fault fault" where
  "stream_fault (Errno e) = Errno (OtherFault (Some e))"
| "stream_fault Panic = Panic"

definition file_read :: "'s vfs_ops \<Rightarrow> fs_facade \<Rightarrow> ('s world \<times> stream_reader) source" where
  "file_read ops f x n =
     (case poll_read ops (fst x) f (snd x) n of
        (y, Inl e) \<Rightarrow> (y, Inl (stream_fault e)) | (y, Inr bytes) \<Rightarrow> (y, Ok bytes))"

text \<open>\<open>sk_refusals\<close> answers the next calls: \<open>Some (n, e)\<close> takes \<open>n\<close> bytes and fails.\<close>

record sink =
  sk_data :: "byte list"
  sk_refusals :: "(nat \<times> io_fault) option list"

definition write_all :: "sink \<Rightarrow> byte list \<Rightarrow> sink \<times> unit io_result" where
  "write_all k data =
     (if data = [] then (k, Ok ())
      else case sk_refusals k of
        Some (n, e) # rest \<Rightarrow> (k\<lparr>sk_data := sk_data k @ take n data, sk_refusals := rest\<rparr>, Err e)
      | answers \<Rightarrow> (k\<lparr>sk_data := sk_data k @ data, sk_refusals := drop 1 answers\<rparr>, Ok ()))"

definition open_sink :: "byte list \<Rightarrow> sink" where
  "open_sink data = \<lparr>sk_data = data, sk_refusals = []\<rparr>"

lemma write_all_open [simp]: "write_all (open_sink a) b = (open_sink (a @ b), Ok ())"
  by (simp add: write_all_def open_sink_def)

lemma sk_data_open [simp]: "sk_data (open_sink a) = a"
  by (simp add: open_sink_def)

subsection \<open>Lines\<close>

definition max_stream_line_bytes :: nat where
  "max_stream_line_bytes = 1024 * 1024"

definition line_too_long :: rstr where
  "line_too_long = rs ''line too long''"

definition line_too_long_error :: io_fault where
  "line_too_long_error = InvalidData line_too_long"

abbreviation nl :: byte where
  "nl \<equiv> 10"

record line_buffer =
  lb_bytes :: "byte list"
  lb_start :: nat
  lb_scanned :: nat
  lb_eof :: bool

definition line_buffer_default :: line_buffer where
  "line_buffer_default = \<lparr>lb_bytes = [], lb_start = 0, lb_scanned = 0, lb_eof = False\<rparr>"

text \<open>\<open>Iterator::position\<close>.\<close>

fun position :: "('a \<Rightarrow> bool) \<Rightarrow> 'a list \<Rightarrow> nat option" where
  "position p [] = None"
| "position p (x # xs) = (if p x then Some 0 else map_option Suc (position p xs))"

text \<open>The unread suffix is moved to the front before a read.\<close>

definition compact :: "line_buffer \<Rightarrow> line_buffer" where
  "compact b =
     (if 0 < lb_start b
      then b\<lparr>lb_bytes := drop (lb_start b) (lb_bytes b), lb_scanned := lb_scanned b - lb_start b, lb_start := 0\<rparr>
      else b)"

function read_line ::
  "'r source \<Rightarrow> 'r \<Rightarrow> line_buffer \<Rightarrow> ('r \<times> line_buffer) \<times> byte list option io_result" where
  "read_line rd r b =
     (case position (\<lambda>x. x = nl) (drop (lb_scanned b) (lb_bytes b)) of
        Some pos \<Rightarrow>
          let e = lb_scanned b + pos + 1 in
          if max_stream_line_bytes < e - lb_start b then ((r, b), Err line_too_long_error)
          else ((r, b\<lparr>lb_start := e, lb_scanned := e\<rparr>), Ok (Some (drop (lb_start b) (take e (lb_bytes b)))))
      | None \<Rightarrow>
          let b1 = b\<lparr>lb_scanned := length (lb_bytes b)\<rparr> in
          if max_stream_line_bytes < length (lb_bytes b) - lb_start b then ((r, b1), Err line_too_long_error)
          else if lb_eof b then
            if lb_start b = length (lb_bytes b) then ((r, b1), Ok None)
            else ((r, b1\<lparr>lb_start := length (lb_bytes b)\<rparr>), Ok (Some (drop (lb_start b) (lb_bytes b))))
          else
            let b2 = compact b1 in
            (case rd r 8192 of
               (r1, Inl f) \<Rightarrow> ((r1, b2), Inl f)
             | (r1, Inr chunk) \<Rightarrow> read_line rd r1 (b2\<lparr>lb_eof := (chunk = []), lb_bytes := lb_bytes b2 @ chunk\<rparr>)))"
  by pat_completeness auto

termination
proof (relation "measure (\<lambda>(rd, r, b). if lb_eof b then 0
    else max_stream_line_bytes + 2 - (length (lb_bytes b) - lb_start b))", goal_cases)
  case (2 rd r b b1 b2 p r1 chunk)
  then show ?case by (cases "chunk = []") (auto simp: compact_def intro!: diff_less_mono2)
qed simp

declare read_line.simps [simp del]

text \<open>The loop \<open>while let Some(line) = read_line(reader, &mut pending).await?\<close> with its body.\<close>

partial_function (option) while_lines ::
  "'r source \<Rightarrow> ('x \<Rightarrow> byte list \<Rightarrow> 'x \<times> unit io_result) \<Rightarrow> 'r \<Rightarrow> line_buffer \<Rightarrow> 'x
   \<Rightarrow> (('r \<times> line_buffer) \<times> 'x \<times> unit io_result) option" where
  "while_lines rd body r b x =
     (case read_line rd r b of
        ((r1, b1), Inl f) \<Rightarrow> Some ((r1, b1), x, Inl f)
      | ((r1, b1), Inr None) \<Rightarrow> Some ((r1, b1), x, Ok ())
      | ((r1, b1), Inr (Some line)) \<Rightarrow>
          (case body x line of
             (x1, Inl f) \<Rightarrow> Some ((r1, b1), x1, Inl f)
           | (x1, Inr _) \<Rightarrow> while_lines rd body r1 b1 x1))"

subsection \<open>The lines of a byte string\<close>

text \<open>Every line with its terminator; the last one may have none.\<close>

fun lines_of :: "byte list \<Rightarrow> byte list list" where
  "lines_of [] = []"
| "lines_of (x # xs) =
     (if x = nl then [nl] # lines_of xs else case lines_of xs of [] \<Rightarrow> [[x]] | l # ls \<Rightarrow> (x # l) # ls)"

lemma concat_lines [simp]: "concat (lines_of data) = data"
  by (induction data rule: lines_of.induct) (auto split: list.splits)

lemma lines_of_eq_Nil [simp]: "lines_of data = [] \<longleftrightarrow> data = []"
  by (cases data) (auto split: list.splits)

lemma lines_of_line: "nl \<notin> set pre \<Longrightarrow> lines_of (pre @ nl # rest) = (pre @ [nl]) # lines_of rest"
  by (induction pre) auto

lemma lines_of_last: "nl \<notin> set pre \<Longrightarrow> pre \<noteq> [] \<Longrightarrow> lines_of pre = [pre]"
proof (induction pre)
  case (Cons x pre)
  then show ?case by (cases "pre = []") auto
qed simp

lemma lines_of_prefix:
  assumes "nl \<notin> set pre" "lines_of (pre @ rest) = l # ls"
  shows "length pre \<le> length l"
  using assms
proof (induction pre arbitrary: l)
  case (Cons x pre)
  then show ?case by (cases "lines_of (pre @ rest)") auto
qed simp

lemma position_None: "position p xs = None \<longleftrightarrow> (\<forall>x\<in>set xs. \<not> p x)"
  by (induction xs) auto

lemma position_Some:
  "position (\<lambda>y. y = x) xs = Some i \<Longrightarrow> xs = take i xs @ x # drop (Suc i) xs \<and> x \<notin> set (take i xs) \<and> i < length xs"
proof (induction xs arbitrary: i)
  case (Cons y xs)
  then show ?case by (auto split: if_splits)
qed simp

text \<open>What the loop does, line by line.\<close>

fun run_lines :: "('x \<Rightarrow> byte list \<Rightarrow> 'x \<times> unit io_result) \<Rightarrow> 'x \<Rightarrow> byte list list \<Rightarrow> 'x \<times> unit io_result" where
  "run_lines body x [] = (x, Ok ())"
| "run_lines body x (l # ls) =
     (if max_stream_line_bytes < length l then (x, Err line_too_long_error)
      else case body x l of (x1, Inl f) \<Rightarrow> (x1, Inl f) | (x1, Inr _) \<Rightarrow> run_lines body x1 ls)"

subsection \<open>Line buffers\<close>

definition unread :: "line_buffer \<Rightarrow> byte list" where
  "unread b = drop (lb_start b) (lb_bytes b)"

definition buffer_ok :: "line_buffer \<Rightarrow> bool" where
  "buffer_ok b \<longleftrightarrow> lb_start b \<le> lb_scanned b \<and> lb_scanned b \<le> length (lb_bytes b)
     \<and> nl \<notin> set (drop (lb_start b) (take (lb_scanned b) (lb_bytes b)))"

lemma buffer_default [simp]: "buffer_ok line_buffer_default" "unread line_buffer_default = []"
    "\<not> lb_eof line_buffer_default"
  by (simp_all add: buffer_ok_def line_buffer_default_def unread_def)

lemma drop_split: "i \<le> e \<Longrightarrow> e \<le> length xs \<Longrightarrow> drop i xs = drop i (take e xs) @ drop e xs"
proof -
  assume "i \<le> e" "e \<le> length xs"
  then have "drop i (take e xs @ drop e xs) = drop i (take e xs) @ drop e xs" by (simp only: drop_append) (simp add: min_def)
  then show ?thesis by simp
qed

lemma first_split: "xs @ x # ys = zs @ x # ws \<Longrightarrow> x \<notin> set xs \<Longrightarrow> x \<notin> set zs \<Longrightarrow> zs = xs \<and> ws = ys"
proof (induction xs arbitrary: zs)
  case Nil
  then show ?case by (cases zs) auto
next
  case (Cons y xs)
  then show ?case by (cases zs) auto
qed

lemma unread_scanned: "buffer_ok b \<Longrightarrow> unread b =
    drop (lb_start b) (take (lb_scanned b) (lb_bytes b)) @ drop (lb_scanned b) (lb_bytes b)"
  unfolding unread_def buffer_ok_def by (rule drop_split) simp_all

text \<open>The buffer after a read.\<close>

definition refill :: "line_buffer \<Rightarrow> byte list \<Rightarrow> line_buffer" where
  "refill b chunk =
     (let b2 = compact (b\<lparr>lb_scanned := length (lb_bytes b)\<rparr>) in b2\<lparr>lb_eof := (chunk = []), lb_bytes := lb_bytes b2 @ chunk\<rparr>)"

lemma refill_ok:
  assumes "buffer_ok b" "nl \<notin> set (unread b)"
  shows "unread (refill b chunk) = unread b @ chunk" "buffer_ok (refill b chunk)"
    "lb_eof (refill b chunk) = (chunk = [])"
  using assms by (auto simp: refill_def Let_def compact_def unread_def buffer_ok_def)

text \<open>One round of \<open>read_line\<close>, in terms of the unread bytes.\<close>

lemma read_line_found:
  assumes "buffer_ok b" "unread b = pre @ nl # rest" "nl \<notin> set pre"
  obtains b1 where "read_line rd r b = (if max_stream_line_bytes < Suc (length pre)
      then ((r, b), Err line_too_long_error) else ((r, b1), Ok (Some (pre @ [nl]))))"
    "buffer_ok b1" "unread b1 = rest" "lb_eof b1 = lb_eof b"
proof -
  define old where "old = drop (lb_start b) (take (lb_scanned b) (lb_bytes b))"
  define post where "post = drop (lb_scanned b) (lb_bytes b)"
  have ok: "lb_start b \<le> lb_scanned b" "lb_scanned b \<le> length (lb_bytes b)" "nl \<notin> set old"
    using assms(1) by (auto simp: buffer_ok_def old_def)
  have un: "unread b = old @ post" using unread_scanned [OF assms(1)] by (simp add: old_def post_def)
  have "nl \<in> set (old @ post)" using assms(2) by (simp flip: un)
  then have "nl \<in> set post" using ok(3) by simp
  then obtain pos where pos: "position (\<lambda>x. x = nl) post = Some pos" by (cases "position (\<lambda>x. x = nl) post") (auto simp: position_None)
  from position_Some [OF pos] have post: "post = take pos post @ nl # drop (Suc pos) post" "nl \<notin> set (take pos post)" "pos < length post"
    by simp_all
  have "(old @ take pos post) @ nl # drop (Suc pos) post = old @ post" by (simp flip: post(1))
  then have "(old @ take pos post) @ nl # drop (Suc pos) post = pre @ nl # rest" by (simp only: un [symmetric] assms(2))
  moreover have "nl \<notin> set (old @ take pos post)" using ok(3) post(2) by simp
  ultimately have "pre = old @ take pos post \<and> rest = drop (Suc pos) post" using assms(3) by (rule first_split)
  then have pre: "pre = old @ take pos post" "rest = drop (Suc pos) post" by auto
  define e where "e = lb_scanned b + pos + 1"
  have e: "drop e (lb_bytes b) = rest" "e \<le> length (lb_bytes b)" "lb_start b \<le> e"
    using post(3) ok(1) by (simp_all add: e_def post_def pre(2) add.commute)
  have "(pre @ [nl]) @ rest = drop (lb_start b) (take e (lb_bytes b)) @ rest"
    using drop_split [OF e(3,2)] assms(2) e(1) by (simp add: unread_def)
  then have line: "drop (lb_start b) (take e (lb_bytes b)) = pre @ [nl]" by simp
  have le: "e - lb_start b = Suc (length pre)" using arg_cong [OF line, of length] e(2) by simp
  show thesis
  proof (rule that)
    show "read_line rd r b = (if max_stream_line_bytes < Suc (length pre) then ((r, b), Err line_too_long_error)
        else ((r, b\<lparr>lb_start := e, lb_scanned := e\<rparr>), Ok (Some (pre @ [nl]))))"
      unfolding le [symmetric] line [symmetric]
      by (subst read_line.simps) (simp add: post_def [symmetric] pos Let_def e_def)
  qed (use e in \<open>simp_all add: buffer_ok_def unread_def\<close>)
qed

lemma read_line_missing:
  assumes "buffer_ok b" "nl \<notin> set (unread b)"
  shows "read_line rd r b =
    (let b1 = b\<lparr>lb_scanned := length (lb_bytes b)\<rparr> in
     if max_stream_line_bytes < length (unread b) then ((r, b1), Err line_too_long_error)
     else if lb_eof b then
       if unread b = [] then ((r, b1), Ok None) else ((r, b1\<lparr>lb_start := length (lb_bytes b)\<rparr>), Ok (Some (unread b)))
     else (case rd r 8192 of
         (r1, Inl f) \<Rightarrow> ((r1, compact b1), Inl f)
       | (r1, Inr chunk) \<Rightarrow> read_line rd r1 (refill b chunk)))"
proof -
  have "position (\<lambda>x. x = nl) (drop (lb_scanned b) (lb_bytes b)) = None"
    using assms unread_scanned [OF assms(1)] by (auto simp: position_None)
  moreover have "lb_start b = length (lb_bytes b) \<longleftrightarrow> unread b = []" using assms(1) by (auto simp: unread_def buffer_ok_def)
  moreover have "length (lb_bytes b) - lb_start b = length (unread b)" by (simp add: unread_def)
  ultimately show ?thesis
    by (subst read_line.simps) (simp add: unread_def [symmetric] refill_def Let_def split: prod.split sum.split)
qed

subsection \<open>Sources that deliver their data\<close>

text \<open>
  \<open>holds r data\<close>: reading on from \<open>r\<close> gives \<open>data\<close> in pieces of any size and then the end, without
  a fault.
\<close>

locale byte_source =
  fixes rd :: "'r source" and holds :: "'r \<Rightarrow> byte list \<Rightarrow> bool"
  assumes read_done: "holds r [] \<Longrightarrow> 0 < n \<Longrightarrow> \<exists>r1. rd r n = (r1, Ok []) \<and> holds r1 []"
    and read_next: "holds r data \<Longrightarrow> data \<noteq> [] \<Longrightarrow> 0 < n
      \<Longrightarrow> \<exists>r1 c data1. rd r n = (r1, Ok c) \<and> c \<noteq> [] \<and> data = c @ data1 \<and> holds r1 data1"
begin

lemma read_cases:
  assumes "holds r data" "0 < n"
  obtains r1 c data1 where "rd r n = (r1, Ok c)" "data = c @ data1" "holds r1 data1" "c = [] \<Longrightarrow> data1 = []"
proof (cases "data = []")
  case True
  then show thesis using read_done [of r n] assms that by fastforce
next
  case False
  then show thesis using read_next [of r data n] assms that by blast
qed

lemma read_line_spec:
  assumes "buffer_ok b" "holds r data" "lb_eof b \<longrightarrow> data = []" "lines_of (unread b @ data) = l # ls"
    "length l \<le> max_stream_line_bytes"
  obtains r1 b1 data1 where "read_line rd r b = ((r1, b1), Ok (Some l))" "buffer_ok b1" "holds r1 data1"
    "lb_eof b1 \<longrightarrow> data1 = []" "lines_of (unread b1 @ data1) = ls"
  using assms
proof (induction "length data + (if lb_eof b then 0 else 1)" arbitrary: r b data thesis rule: less_induct)
  case less
  show thesis
  proof (cases "nl \<in> set (unread b)")
    case True
    then obtain pre rest where sp: "unread b = pre @ nl # rest" "nl \<notin> set pre" by (metis split_list_first)
    obtain b1 where b1: "read_line rd r b = (if max_stream_line_bytes < Suc (length pre)
      then ((r, b), Err line_too_long_error) else ((r, b1), Ok (Some (pre @ [nl]))))"
      "buffer_ok b1" "unread b1 = rest" "lb_eof b1 = lb_eof b"
      using read_line_found [OF less.prems(2) sp] by metis
    have "l = pre @ [nl]" "ls = lines_of (rest @ data)" using less.prems(5) lines_of_line [OF sp(2), of "rest @ data"] sp(1) by simp_all
    then show thesis using less.prems(1) [of r b1 data] b1 less.prems(3,4,6) by simp
  next
    case False
    note step = read_line_missing [OF less.prems(2) False, of rd r, unfolded Let_def]
    have "length (unread b) \<le> length l" by (rule lines_of_prefix [OF False less.prems(5)])
    then have short: "\<not> max_stream_line_bytes < length (unread b)" using less.prems(6) by simp
    show thesis
    proof (cases "lb_eof b")
      case True
      then have "lines_of (unread b) = l # ls" using less.prems(4,5) by simp
      moreover from this have "unread b \<noteq> []" by auto
      ultimately have l: "unread b \<noteq> []" "l = unread b" "ls = []" using lines_of_last [OF False] by auto
      then show thesis
        using step short True less.prems(1) [of r "b\<lparr>lb_scanned := length (lb_bytes b), lb_start := length (lb_bytes b)\<rparr>" "[]"] less.prems(3,4)
        by (simp add: buffer_ok_def unread_def)
    next
      case eof: False
      obtain r2 c data2 where rd: "rd r 8192 = (r2, Ok c)" "data = c @ data2" "holds r2 data2" "c = [] \<Longrightarrow> data2 = []"
        using read_cases [OF less.prems(3), of 8192] by auto
      note f = refill_ok [OF less.prems(2) False, of c]
      have "read_line rd r b = read_line rd r2 (refill b c)" using step short eof rd(1) by simp
      moreover have "length data2 + (if lb_eof (refill b c) then 0 else 1) < length data + (if lb_eof b then 0 else 1)"
        using f(3) rd(2) eof by (cases c) auto
      moreover have "lb_eof (refill b c) \<longrightarrow> data2 = []" "lines_of (unread (refill b c) @ data2) = l # ls"
        using f rd(2,4) less.prems(5) by simp_all
      ultimately obtain r1 b1 data1 where "read_line rd r b = ((r1, b1), Ok (Some l))" "buffer_ok b1" "holds r1 data1"
          "lb_eof b1 \<longrightarrow> data1 = []" "lines_of (unread b1 @ data1) = ls"
        using less.hyps [of data2 "refill b c" r2, OF _ _ f(2) rd(3) _ _ less.prems(6)] by metis
      then show thesis by (rule less.prems(1))
    qed
  qed
qed

lemma read_line_stops:
  assumes "buffer_ok b" "holds r data" "lb_eof b \<longrightarrow> data = []"
    "case lines_of (unread b @ data) of [] \<Rightarrow> True | l # ls \<Rightarrow> max_stream_line_bytes < length l"
  obtains r1 b1 where "read_line rd r b =
    ((r1, b1), if unread b @ data = [] then Ok None else Err line_too_long_error)"
  using assms
proof (induction "length data + (if lb_eof b then 0 else 1)" arbitrary: r b data thesis rule: less_induct)
  case less
  show thesis
  proof (cases "nl \<in> set (unread b)")
    case True
    then obtain pre rest where sp: "unread b = pre @ nl # rest" "nl \<notin> set pre" by (metis split_list_first)
    have "max_stream_line_bytes < Suc (length pre)"
      using less.prems(5) lines_of_line [OF sp(2), of "rest @ data"] sp(1) by simp
    then show thesis using read_line_found [OF less.prems(2) sp, of rd r] less.prems(1) sp(1) by auto
  next
    case False
    note step = read_line_missing [OF less.prems(2) False, of rd r, unfolded Let_def]
    show thesis
    proof (cases "max_stream_line_bytes < length (unread b)")
      case True
      then have "unread b \<noteq> []" by auto
      with step True less.prems(1) show thesis by simp
    next
      case short: False
      show thesis
      proof (cases "lb_eof b")
        case True
        have "unread b = []"
        proof (rule ccontr)
          assume "unread b \<noteq> []"
          from lines_of_last [OF False this] show False using less.prems(4,5) short True by simp
        qed
        then show thesis using step short True less.prems(1,4) by simp
      next
        case eof: False
        obtain r2 c data2 where rd: "rd r 8192 = (r2, Ok c)" "data = c @ data2" "holds r2 data2" "c = [] \<Longrightarrow> data2 = []"
          using read_cases [OF less.prems(3), of 8192] by auto
        note f = refill_ok [OF less.prems(2) False, of c]
        have "read_line rd r b = read_line rd r2 (refill b c)" using step short eof rd(1) by simp
        moreover have "length data2 + (if lb_eof (refill b c) then 0 else 1) < length data + (if lb_eof b then 0 else 1)"
          using f(3) rd(2) eof by (cases c) auto
        moreover have "lb_eof (refill b c) \<longrightarrow> data2 = []"
            "case lines_of (unread (refill b c) @ data2) of [] \<Rightarrow> True | l # ls \<Rightarrow> max_stream_line_bytes < length l"
          using f rd(2,4) less.prems(5) by simp_all
        ultimately obtain r1 b1 where "read_line rd r b = ((r1, b1),
            if unread (refill b c) @ data2 = [] then Ok None else Err line_too_long_error)"
          using less.hyps [of data2 "refill b c" r2, OF _ _ f(2) rd(3)] by metis
        moreover have "unread (refill b c) @ data2 = unread b @ data" using f(1) rd(2) by simp
        ultimately show thesis using less.prems(1) by metis
      qed
    qed
  qed
qed

text \<open>The loop ends, and does what its body does on the lines one after the other.\<close>

lemma while_lines_buffered:
  assumes "buffer_ok b" "holds r data" "lb_eof b \<longrightarrow> data = []"
  shows "\<exists>rb. while_lines rd body r b x = Some (rb, run_lines body x (lines_of (unread b @ data)))"
  using assms
proof (induction "lines_of (unread b @ data)" arbitrary: r b data x)
  case Nil
  then have "unread b @ data = []" by (metis lines_of_eq_Nil)
  moreover from this obtain r1 b1 where "read_line rd r b = ((r1, b1), Ok None)"
    using read_line_stops [OF Nil.prems] by auto
  ultimately show ?case by (subst while_lines.simps) simp
next
  case (Cons l ls)
  show ?case
  proof (cases "length l \<le> max_stream_line_bytes")
    case True
    obtain r1 b1 data1 where rl: "read_line rd r b = ((r1, b1), Ok (Some l))" "buffer_ok b1" "holds r1 data1"
      "lb_eof b1 \<longrightarrow> data1 = []" "lines_of (unread b1 @ data1) = ls"
      by (rule read_line_spec [OF Cons.prems Cons.hyps(2) [symmetric] True])
    obtain x1 res where body: "body x l = (x1, res)" by fastforce
    show ?thesis
      using Cons.hyps(1) [OF rl(5) [symmetric] rl(2-4), of x1] True rl(1,5) body
      by (subst while_lines.simps) (auto simp: Cons.hyps(2) [symmetric] split: sum.split)
  next
    case False
    then obtain r1 b1 where "read_line rd r b = ((r1, b1), Err line_too_long_error)"
      using read_line_stops [OF Cons.prems] Cons.hyps(2) by (metis (mono_tags) leI lines_of_eq_Nil list.distinct(1) list.simps(5))
    with False show ?thesis by (subst while_lines.simps) (simp add: Cons.hyps(2) [symmetric])
  qed
qed

lemma while_lines_spec:
  "holds r data \<Longrightarrow> \<exists>rb. while_lines rd body r line_buffer_default x = Some (rb, run_lines body x (lines_of data))"
  using while_lines_buffered [of line_buffer_default r data body x] by simp

end

subsection \<open>Standard input\<close>

text \<open>Chunks that arrive without a fault deliver their concatenation.\<close>

definition delivers :: "byte list io_result list \<Rightarrow> byte list \<Rightarrow> bool" where
  "delivers cs data \<longleftrightarrow> (\<exists>chunks. cs = map Inr chunks \<and> [] \<notin> set chunks \<and> data = concat chunks)"

lemma delivers_more:
  assumes "delivers cs data" "data \<noteq> []"
  obtains c chunks where "cs = Inr c # map Inr chunks" "c \<noteq> []" "[] \<notin> set chunks" "data = c @ concat chunks"
proof -
  obtain all where all: "cs = map Inr all" "[] \<notin> set all" "data = concat all" using assms(1) by (auto simp: delivers_def)
  with assms(2) obtain c chunks where "all = c # chunks" by (cases all) auto
  with all that [of c chunks] show thesis by auto
qed

interpretation stdin: byte_source chunk_read delivers
proof
  fix cs :: "byte list io_result list" and n :: nat
  assume "delivers cs []" "0 < n"
  then show "\<exists>r1. chunk_read cs n = (r1, Ok []) \<and> delivers r1 []"
    by (cases cs) (auto simp: delivers_def)
next
  fix cs :: "byte list io_result list" and data and n :: nat
  assume *: "delivers cs data" "data \<noteq> []" "0 < n"
  from *(1,2) obtain c chunks where cs: "cs = Inr c # map Inr chunks" "c \<noteq> []" "[] \<notin> set chunks" "data = c @ concat chunks"
    by (rule delivers_more)
  define cs1 :: "byte list io_result list" where "cs1 = (if length c \<le> n then map Inr chunks else Inr (drop n c) # map Inr chunks)"
  have "delivers cs1 (drop n c @ concat chunks)"
    unfolding delivers_def cs1_def using cs(3)
    by (intro exI [of _ "if length c \<le> n then chunks else drop n c # chunks"]) auto
  moreover have "chunk_read cs n = (cs1, Ok (take n c))" by (simp add: cs(1) cs1_def)
  moreover have "data = take n c @ drop n c @ concat chunks" using cs(4) by (simp flip: append_assoc)
  ultimately show "\<exists>r1 c data1. chunk_read cs n = (r1, Ok c) \<and> c \<noteq> [] \<and> data = c @ data1 \<and> delivers r1 data1"
    using cs(2) *(3) by (metis neq0_conv take_eq_Nil)
qed

end
