(* ===== verification/Builtin_Files.thy ===== *)
theory Builtin_Files
  imports Builtin_Lines
begin

text \<open>
  The tree operations of the file builtins (\<open>mkdir -p\<close>, \<open>cp\<close>, \<open>rm\<close>, \<open>ls\<close>, \<open>grep -r\<close>) over the
  filesystem facade, and the bounded readers of whole inputs (\<open>src/sandbox/builtins.rs\<close>). A
  directory walk has one iterator per level on an explicit stack; it need not end on a backend
  that keeps inventing directories, so its result is \<open>None\<close> when it runs for ever.
\<close>

definition is_directory :: "metadata vres \<Rightarrow> bool" where
  "is_directory r = (case r of Inr md \<Rightarrow> md_type md = DirectoryFile | Inl _ \<Rightarrow> False)"

definition builtin_basename :: "rstr \<Rightarrow> rstr" where
  "builtin_basename path =
     (let name = last (split_on slash (rev (dropWhile (\<lambda>c. c = slash) (rev path)))) in
      if name = [] then [slash] else name)"

subsection \<open>Directories\<close>

definition ensure_directory :: "'s vfs_ops \<Rightarrow> 's world \<Rightarrow> fs_facade \<Rightarrow> rstr \<Rightarrow> 's world \<times> unit vres" where
  "ensure_directory ops w f path =
     (case fs_mkdir ops w f path of
        (w1, Inr _) \<Rightarrow> (w1, Ok ())
      | (w1, Inl e) \<Rightarrow>
          if e = Errno EEXIST then
            and_then (fs_stat ops w1 f path) (\<lambda>w2 md.
              (w2, if md_type md = DirectoryFile then Ok () else Err ENOTDIR))
          else (w1, Inl e))"

fun ensure_parts :: "'s vfs_ops \<Rightarrow> 's world \<Rightarrow> fs_facade \<Rightarrow> rstr \<Rightarrow> rstr list \<Rightarrow> 's world \<times> unit vres" where
  "ensure_parts ops w f current [] = (w, Ok ())"
| "ensure_parts ops w f current (part # parts) =
     (let next = current @ [slash] @ part in
      and_then (ensure_directory ops w f next) (\<lambda>w1 _. ensure_parts ops w1 f next parts))"

definition mkdir_p :: "'s vfs_ops \<Rightarrow> 's world \<Rightarrow> fs_facade \<Rightarrow> rstr \<Rightarrow> 's world \<times> unit vres" where
  "mkdir_p ops w f p =
     ensure_parts ops w f [] (filter (\<lambda>part. part \<noteq> []) (split_on slash (fs_resolve f p)))"

definition list_dir ::
  "'s vfs_ops \<Rightarrow> 's world \<Rightarrow> fs_facade \<Rightarrow> rstr \<Rightarrow> bool \<Rightarrow> 's world \<times> (rstr \<times> metadata) list vres" where
  "list_dir ops w f p every =
     and_then (fs_readdir ops w f p) (\<lambda>w1 es.
       let entries = map (\<lambda>e. (de_name e, de_meta e)) (filter (\<lambda>e. every \<or> \<not> starts_with (de_name e) (rs ''.'')) es);
           dots = map (\<lambda>n. (n, \<lparr>md_type = DirectoryFile, md_len = 0\<rparr>)) [rs ''.'', rs ''..''] in
       (w1, Ok (sort_key fst (if every then dots @ entries else entries))))"

definition destination_for :: "'s vfs_ops \<Rightarrow> 's world \<Rightarrow> fs_facade \<Rightarrow> rstr \<Rightarrow> rstr \<Rightarrow> 's world \<times> rstr" where
  "destination_for ops w f source dest =
     (case fs_stat ops w f dest of
        (w1, r) \<Rightarrow> (w1, if is_directory r then join_path dest (builtin_basename source) else dest))"

subsection \<open>Copying\<close>

function copy_write ::
  "'s vfs_ops \<Rightarrow> 's world \<Rightarrow> fs_facade \<Rightarrow> file_handle \<Rightarrow> nat \<Rightarrow> byte list \<Rightarrow> nat \<Rightarrow> 's world \<times> unit vres" where
  "copy_write ops w f h offset bytes written =
     (if \<not> written < length bytes then (w, Ok ())
      else attempt w (fs_check w (fs_handles f)) (\<lambda>_.
        attempt w (uadd offset written) (\<lambda>start.
          case fs_write_at ops w f h start (drop written bytes) of
            (w1, Inl e) \<Rightarrow> (w1, Inl e)
          | (w1, Inr taken) \<Rightarrow>
              if taken = 0 \<or> length bytes - written < taken then (w1, Err EIO)
              else copy_write ops w1 f h offset bytes (written + taken))))"
  by pat_completeness auto

termination
  by (relation "measure (\<lambda>(ops, w, f, h, offset, bytes, written). length bytes - written)") auto

declare copy_write.simps [simp del]

function copy_loop ::
  "'s vfs_ops \<Rightarrow> 's world \<Rightarrow> fs_facade \<Rightarrow> file_handle \<Rightarrow> file_handle \<Rightarrow> nat \<Rightarrow> 's world \<times> unit vres" where
  "copy_loop ops w f source dest offset =
     attempt w (fs_check w (fs_handles f)) (\<lambda>_.
       case fs_read_at ops w f source offset stream_chunk_bytes of
         (w1, Inl e) \<Rightarrow> (w1, Inl e)
       | (w1, Inr bytes) \<Rightarrow>
           if bytes = [] then (w1, Ok ())
           else if stream_chunk_bytes < length bytes then (w1, Err EIO)
           else
             (case copy_write ops w1 f dest offset bytes 0 of
                (w2, Inl e) \<Rightarrow> (w2, Inl e)
              | (w2, Inr _) \<Rightarrow>
                  (case checked_add offset (length bytes) of
                     None \<Rightarrow> (w2, Err EFBIG)
                   | Some next \<Rightarrow> copy_loop ops w2 f source dest next)))"
  by pat_completeness auto

termination
proof (relation "measure (\<lambda>(ops, w, f, source, dest, offset). u64_max - offset)", goal_cases)
  case (2 ops w f source dest offset u p w1 bytes q w2 v nx)
  then show ?case by (cases bytes) (auto simp: checked_add_def split: if_splits)
qed simp

declare copy_loop.simps [simp del]

text \<open>A failed copy aborts the destination, so that a staged file is not committed.\<close>

definition copy_file :: "'s vfs_ops \<Rightarrow> 's world \<Rightarrow> fs_facade \<Rightarrow> rstr \<Rightarrow> rstr \<Rightarrow> 's world \<times> unit vres" where
  "copy_file ops w f source dest =
     and_then (fs_open ops w f source om_read_only) (\<lambda>w1 sh.
       case fs_open ops w1 f dest (om_set_truncate (om_set_create om_write_only)) of
         (w2, Inl Panic) \<Rightarrow> (w2, Inl Panic)
       | (w2, Inl (Errno e)) \<Rightarrow>
           (case fs_close ops w2 f sh of (w3, Inl Panic) \<Rightarrow> (w3, Inl Panic) | (w3, _) \<Rightarrow> (w3, Err e))
       | (w2, Inr dh) \<Rightarrow>
           (case copy_loop ops w2 f sh dh 0 of
              (w3, Inl Panic) \<Rightarrow> (w3, Inl Panic)
            | (w3, result) \<Rightarrow>
                (case fs_close ops w3 f sh of
                   (w4, Inl Panic) \<Rightarrow> (w4, Inl Panic)
                 | (w4, closed) \<Rightarrow>
                     (case obind result (\<lambda>_. closed) of
                        Inl e \<Rightarrow> (case fs_abort ops w4 f dh of (w5, Inl Panic) \<Rightarrow> (w5, Inl Panic) | (w5, _) \<Rightarrow> (w5, Inl e))
                      | Inr _ \<Rightarrow> fs_close ops w4 f dh))))"

type_synonym copy_frame = "rstr \<times> rstr \<times> dir_entry list"

partial_function (option) copy_tree ::
  "'s vfs_ops \<Rightarrow> 's world \<Rightarrow> fs_facade \<Rightarrow> copy_frame list \<Rightarrow> ('s world \<times> unit vres) option" where
  "copy_tree ops w f stack =
     (case stack of
        [] \<Rightarrow> Some (w, Ok ())
      | (source, dest, entries) # rest \<Rightarrow>
          (case fs_check w (fs_handles f) of
             Inl e \<Rightarrow> Some (w, Inl e)
           | Inr _ \<Rightarrow>
               (case entries of
                  [] \<Rightarrow> copy_tree ops w f rest
                | entry # es \<Rightarrow>
                    let child_source = join_path source (de_name entry);
                        child_dest = join_path dest (de_name entry) in
                    if md_type (de_meta entry) = DirectoryFile then
                      (case ensure_directory ops w f child_dest of
                         (w1, Inl e) \<Rightarrow> Some (w1, Inl e)
                       | (w1, Inr _) \<Rightarrow>
                           (case fs_readdir ops w1 f child_source of
                              (w2, Inl e) \<Rightarrow> Some (w2, Inl e)
                            | (w2, Inr new) \<Rightarrow>
                                copy_tree ops w2 f ((child_source, child_dest, new) # (source, dest, es) # rest)))
                    else
                      (case copy_file ops w f child_source child_dest of
                         (w1, Inl e) \<Rightarrow> Some (w1, Inl e)
                       | (w1, Inr _) \<Rightarrow> copy_tree ops w1 f ((source, dest, es) # rest)))))"

definition copy_path ::
  "'s vfs_ops \<Rightarrow> 's world \<Rightarrow> fs_facade \<Rightarrow> rstr \<Rightarrow> rstr \<Rightarrow> bool \<Rightarrow> ('s world \<times> unit vres) option" where
  "copy_path ops w f p p' recursive =
     (let source = fs_resolve f p; dest = fs_resolve f p' in
      case fs_stat ops w f source of
        (w1, Inl e) \<Rightarrow> Some (w1, Inl e)
      | (w1, Inr md) \<Rightarrow>
          if source = dest \<or> md_type md = DirectoryFile \<and> (source = [slash] \<or> starts_with dest (source @ [slash]))
          then Some (w1, Err EINVAL)
          else if md_type md \<noteq> DirectoryFile then Some (copy_file ops w1 f source dest)
          else if \<not> recursive then Some (w1, Err EISDIR)
          else
            (case ensure_directory ops w1 f dest of
               (w2, Inl e) \<Rightarrow> Some (w2, Inl e)
             | (w2, Inr _) \<Rightarrow>
                 (case fs_readdir ops w2 f source of
                    (w3, Inl e) \<Rightarrow> Some (w3, Inl e)
                  | (w3, Inr entries) \<Rightarrow> copy_tree ops w3 f [(source, dest, entries)])))"

subsection \<open>Removing\<close>

partial_function (option) rm_tree ::
  "'s vfs_ops \<Rightarrow> 's world \<Rightarrow> fs_facade \<Rightarrow> (rstr \<times> dir_entry list) list \<Rightarrow> ('s world \<times> unit vres) option" where
  "rm_tree ops w f stack =
     (case stack of
        [] \<Rightarrow> Some (w, Ok ())
      | (path, entries) # rest \<Rightarrow>
          (case fs_check w (fs_handles f) of
             Inl e \<Rightarrow> Some (w, Inl e)
           | Inr _ \<Rightarrow>
               (case entries of
                  [] \<Rightarrow>
                    (case fs_rmdir ops w f path of
                       (w1, Inl e) \<Rightarrow> Some (w1, Inl e) | (w1, Inr _) \<Rightarrow> rm_tree ops w1 f rest)
                | entry # es \<Rightarrow>
                    let child = join_path path (de_name entry) in
                    if md_type (de_meta entry) = DirectoryFile then
                      (case fs_readdir ops w f child of
                         (w1, Inl e) \<Rightarrow> Some (w1, Inl e)
                       | (w1, Inr new) \<Rightarrow> rm_tree ops w1 f ((child, new) # (path, es) # rest))
                    else
                      (case fs_unlink ops w f child of
                         (w1, Inl e) \<Rightarrow> Some (w1, Inl e)
                       | (w1, Inr _) \<Rightarrow> rm_tree ops w1 f ((path, es) # rest)))))"

definition remove_path :: "'s vfs_ops \<Rightarrow> 's world \<Rightarrow> fs_facade \<Rightarrow> rstr \<Rightarrow> bool \<Rightarrow> ('s world \<times> unit vres) option" where
  "remove_path ops w f path recursive =
     (case fs_stat ops w f path of
        (w1, Inl e) \<Rightarrow> Some (w1, Inl e)
      | (w1, Inr md) \<Rightarrow>
          if md_type md \<noteq> DirectoryFile then Some (fs_unlink ops w1 f path)
          else if \<not> recursive then Some (w1, Err EISDIR)
          else
            (case fs_readdir ops w1 f path of
               (w2, Inl e) \<Rightarrow> Some (w2, Inl e)
             | (w2, Inr entries) \<Rightarrow> rm_tree ops w2 f [(path, entries)]))"

subsection \<open>The inputs of grep\<close>

datatype grep_input = GrepPath rstr | GrepFailed rstr "errno fault" | GrepCancelled

record grep_inputs =
  gi_roots :: "rstr list"
  gi_directories :: "(rstr \<times> dir_entry list) list"
  gi_recursive :: bool

definition grep_inputs_new :: "rstr list \<Rightarrow> bool \<Rightarrow> grep_inputs" where
  "grep_inputs_new paths recursive = \<lparr>gi_roots = paths, gi_directories = [], gi_recursive = recursive\<rparr>"

text \<open>The next path from the innermost directory, or from the arguments when no directory is open.\<close>

fun next_entry :: "(rstr \<times> dir_entry list) list \<Rightarrow> ((rstr \<times> dir_entry list) list \<times> rstr) option" where
  "next_entry [] = None"
| "next_entry ((parent, []) # ds) = next_entry ds"
| "next_entry ((parent, entry # es) # ds) = Some ((parent, es) # ds, join_path parent (de_name entry))"

definition next_path :: "grep_inputs \<Rightarrow> (grep_inputs \<times> rstr) option" where
  "next_path g =
     (case next_entry (gi_directories g) of
        Some (ds, path) \<Rightarrow> Some (g\<lparr>gi_directories := ds\<rparr>, path)
      | None \<Rightarrow>
          (case gi_roots g of
             [] \<Rightarrow> None
           | path # roots \<Rightarrow> Some (g\<lparr>gi_roots := roots, gi_directories := []\<rparr>, path)))"

partial_function (option) grep_next ::
  "'s vfs_ops \<Rightarrow> 's world \<Rightarrow> fs_facade \<Rightarrow> grep_inputs \<Rightarrow> (('s world \<times> grep_inputs) \<times> grep_input option) option" where
  "grep_next ops w f g =
     (case next_path g of
        None \<Rightarrow> Some ((w, g\<lparr>gi_directories := []\<rparr>), None)
      | Some (g1, path) \<Rightarrow>
          if \<not> is_ok (fs_check w (fs_handles f)) then
            Some ((w, g1\<lparr>gi_roots := [], gi_directories := []\<rparr>), Some GrepCancelled)
          else if path = rs ''-'' then Some ((w, g1), Some (GrepPath path))
          else
            (case fs_stat ops w f path of
               (w1, Inl e) \<Rightarrow> Some ((w1, g1), Some (GrepFailed path e))
             | (w1, Inr md) \<Rightarrow>
                 if \<not> gi_recursive g1 \<or> md_type md \<noteq> DirectoryFile then Some ((w1, g1), Some (GrepPath path))
                 else
                   (case fs_readdir ops w1 f path of
                      (w2, Inl e) \<Rightarrow> Some ((w2, g1), Some (GrepFailed path e))
                    | (w2, Inr entries) \<Rightarrow>
                        grep_next ops w2 f (g1\<lparr>gi_directories := (path, entries) # gi_directories g1\<rparr>))))"

end
