(* ===== verification/Mem_Contents.thy ===== *)
theory Mem_Contents
  imports Mem_Spec
begin

text \<open>
  The in-memory filesystem seen from outside: the bytes of the file at each path, and what opening,
  writing through a handle and closing do to them. A file has one path, so a write through a handle
  changes what is stored at that path only.
\<close>

definition contents :: "mem_state \<Rightarrow> rstr list \<Rightarrow> byte list option" where
  "contents s p = (case get_node (root s) p of Inr (File i) \<Rightarrow> map_option fn_data (bm_get (files s) i) | _ \<Rightarrow> None)"

lemma contents_file: "get_node (root s) p = Ok (File i) \<Longrightarrow> contents s p = map_option fn_data (bm_get (files s) i)"
  by (simp add: contents_def)

lemma contents_Some: "contents s p = Some d \<longleftrightarrow>
    (\<exists>i f. get_node (root s) p = Ok (File i) \<and> bm_get (files s) i = Some f \<and> fn_data f = d)"
  by (auto simp: contents_def split: sum.splits node.splits)

subsection \<open>One path per file\<close>

lemma shared_inode:
  "node_wf r \<Longrightarrow> get_node r p = Ok (File i) \<Longrightarrow> get_node r p' = Ok (File i) \<Longrightarrow> p \<noteq> p' \<Longrightarrow> 2 \<le> count (inodes r) i"
proof (induction r p arbitrary: p' rule: get_node.induct)
  case (1 n)
  then show ?case by (cases p') auto
next
  case (3 es c cs)
  from 3(4) obtain c' cs' where p': "p' = c' # cs'" by (cases p') auto
  obtain m where m: "bm_get es c = Some m" "get_node m cs = Ok (File i)" using 3(3) by (auto split: option.splits)
  obtain m' where m': "bm_get es c' = Some m'" "get_node m' cs' = Ok (File i)" using 3(4) p' by (auto split: option.splits)
  have wf: "node_wf m" "node_wf m'" "bm_wf es" using 3(2) m(1) m'(1) by (auto simp: node_wf_dir)
  note w = bm.weight_del [OF m(1), of inodes]
  show ?case
  proof (cases "c = c'")
    case True
    then have "2 \<le> count (inodes m) i" using 3(1) [OF m(1) wf(1) m(2)] m m' 3(5) p' by simp
    then show ?thesis by (simp add: tree_weight_dir w)
  next
    case False
    then have "bm_get (bm_remove c es) c' = Some m'" using m'(1) wf(3) by simp
    note w' = bm.weight_del [OF this, of inodes]
    have "1 \<le> count (inodes m) i" "1 \<le> count (inodes m') i"
      using inode_mem_path [OF wf(1) m(2)] inode_mem_path [OF wf(2) m'(2)] by (simp_all only: count_greater_eq_one_iff)
    then show ?thesis by (simp only: tree_weight_dir w w' count_union)
  qed
qed simp

lemma path_of_file_unique:
  assumes "mem_inv q s" "get_node (root s) p = Ok (File i)" "get_node (root s) p' = Ok (File i)"
  shows "p = p'"
proof (rule ccontr)
  assume "p \<noteq> p'"
  note i = assms(1) [unfolded mem_inv_def]
  have "2 \<le> count (inodes (root s)) i" by (rule shared_inode [OF inv_tree_wf [OF i] assms(2,3) \<open>p \<noteq> p'\<close>])
  then show False
    using inv_links [OF i, of i] inv_file [OF i, of i] by (auto simp: file_ok_def split: option.splits)
qed

lemma contents_linked:
  assumes "mem_inv q s" "get_node (root s) p = Ok (File i)"
  obtains f where "bm_get (files s) i = Some f" "0 < fn_links f"
proof -
  note i = assms(1) [unfolded mem_inv_def]
  have "0 < count (inodes (root s)) i" using inode_mem_path [OF inv_tree_wf [OF i] assms(2)] by (simp only: count_greater_zero_iff)
  then show thesis using inv_links [OF i, of i] that
    by (cases "bm_get (files s) i") (simp_all del: count_greater_zero_iff)
qed

subsection \<open>Effects\<close>

text \<open>A file replaced in the table changes its own path only.\<close>

lemma contents_replace:
  assumes "root t = root s" "\<forall>j. j \<noteq> i \<longrightarrow> bm_get (files t) j = bm_get (files s) j"
    "get_node (root s) path = Ok (File i)" "mem_inv q s" "p \<noteq> path"
  shows "contents t p = contents s p"
proof -
  have "get_node (root s) p \<noteq> Ok (File i)" using path_of_file_unique [OF assms(4) _ assms(3)] assms(5) by blast
  then show ?thesis using assms(1,2) by (auto simp: contents_def split: sum.split node.split)
qed

lemma contents_same_data:
  assumes "root t = root s" "\<And>i. map_option fn_data (bm_get (files t) i) = map_option fn_data (bm_get (files s) i)"
  shows "contents t = contents s"
  by (rule ext) (auto simp: contents_def assms split: sum.split node.split)

lemma contents_mint [simp]:
  assumes "bm_get (files s) i = Some f"
  shows "contents (mint_state s i f m) = contents s"
  using assms by (intro contents_same_data) (auto simp: mint_state_def)

lemma mint_Ok:
  assumes "mint_handle s i m = (s', Ok h)"
  obtains f where "bm_get (files s) i = Some f" "s' = mint_state s i f m" "h = next_handle s"
proof -
  have run: "attempt s (uadd (next_handle s) 1) (\<lambda>nh.
      let s1 = s\<lparr>next_handle := nh, handles := bm_insert (next_handle s) \<lparr>h_inode = i, h_readable = om_read m,
        h_writable = om_write m, h_append = om_append m\<rparr> (handles s)\<rparr> in
      attempt s1 (ok_or ENOENT (bm_get (files s) i)) (\<lambda>f.
      attempt s1 (uadd (fn_open f) 1) (\<lambda>n. (s1\<lparr>files := bm_insert i (f\<lparr>fn_open := n\<rparr>) (files s)\<rparr>, Ok (next_handle s)))))
      = (s', Ok h)"
    using assms by (simp add: mint_handle_def Let_def)
  obtain nh where nh: "(uadd (next_handle s) 1 :: nat vres) = Ok nh"
    using run by (cases "uadd (next_handle s) 1 :: nat vres") auto
  obtain f where f: "bm_get (files s) i = Some f" using run nh by (cases "bm_get (files s) i") (auto simp: Let_def)
  obtain n where n: "(uadd (fn_open f) 1 :: nat vres) = Ok n"
    using run nh f by (cases "uadd (fn_open f) 1 :: nat vres") (auto simp: Let_def)
  have v: "nh = Suc (next_handle s)" "n = Suc (fn_open f)" using nh n by (simp_all add: uadd_eq_Ok)
  have "s' = s\<lparr>next_handle := nh, handles := bm_insert (next_handle s) \<lparr>h_inode = i, h_readable = om_read m,
        h_writable = om_write m, h_append = om_append m\<rparr> (handles s), files := bm_insert i (f\<lparr>fn_open := n\<rparr>) (files s)\<rparr>"
      "h = next_handle s"
    using run nh f n by (auto simp: Let_def)
  then show thesis using that [OF f] v by (simp add: mint_state_def)
qed

text \<open>A created entry is a new file without contents; no other path is affected.\<close>

lemma created_files:
  assumes inv: "mem_inv q s" and p: "path \<noteq> []" "get_node (root s) (butlast path) = Ok (Directory es)"
    "bm_get es (last path) = None"
    and t: "root t = set_node (root s) (butlast path) (Directory (bm_insert (last path) (File i) es))"
    and ne: "p' \<noteq> path"
  shows "get_node (root t) p' = Ok (File j) \<longleftrightarrow> get_node (root s) p' = Ok (File j)"
proof -
  note m = inv [unfolded mem_inv_def]
  have absent: "get_node (root s) path = Err ENOENT" using get_node_last [OF p(1,2)] p(3) by simp
  consider x where "p' = path @ x" "x \<noteq> []" | "has_prefix path p'" | "\<not> has_prefix p' path" "\<not> has_prefix path p'"
    using ne by (auto simp: has_prefix_iff)
  then show ?thesis
  proof cases
    case 1
    then have "get_node (root t) p' = Err ENOTDIR" using get_put_entry [OF p(1,2), of "File i" x] t by (cases x) auto
    moreover have "get_node (root s) p' = Err ENOENT" using absent 1 by (simp add: get_node_append)
    ultimately show ?thesis by simp
  next
    case 2
    from get_entry_prefix [OF p(1,2) 2 ne inv_tree_wf [OF m], of "bm_insert (last path) (File i) es"]
    show ?thesis using t by auto
  next
    case 3
    have "get_node (root t) p' = get_node (root s) p'"
      unfolding t by (rule get_entry_other [OF p(1,2) _ 3]) simp
    then show ?thesis by simp
  qed
qed

lemma contents_agree:
  assumes "\<And>j. get_node (root t) p = Ok (File j) \<longleftrightarrow> get_node (root s) p = Ok (File j)"
    "\<And>j. get_node (root s) p = Ok (File j) \<Longrightarrow> bm_get (files t) j = bm_get (files s) j"
  shows "contents t p = contents s p"
proof (cases "\<exists>j. get_node (root s) p = Ok (File j)")
  case True
  then obtain j where j: "get_node (root s) p = Ok (File j)" by blast
  then have "get_node (root t) p = Ok (File j)" using assms(1) by blast
  then show ?thesis using j assms(2) by (simp add: contents_def)
next
  case False
  then show ?thesis using assms(1) by (auto simp: contents_def split: sum.split node.split)
qed

lemma next_inode_fresh: "mem_inv q s \<Longrightarrow> bm_get (files s) (next_inode s) = None"
proof (rule ccontr)
  assume inv: "mem_inv q s" and "bm_get (files s) (next_inode s) \<noteq> None"
  then obtain f where "bm_get (files s) (next_inode s) = Some f" by auto
  from inv_file [OF inv [unfolded mem_inv_def] this] show False by (simp add: file_ok_def)
qed

text \<open>
  What a successful open yields: a file at the path, new, emptied or as it was, and a new handle on
  it; \<open>file_ready\<close> is the state before the handle.
\<close>

definition file_ready :: "mem_state \<Rightarrow> mem_state \<Rightarrow> rstr list \<Rightarrow> open_mode \<Rightarrow> inode \<Rightarrow> bool" where
  "file_ready s t path mode i \<longleftrightarrow>
     handles t = handles s \<and> get_node (root t) path = Ok (File i)
     \<and> contents t path = (if om_truncate mode \<or> contents s path = None then Some [] else contents s path)
     \<and> (\<forall>p. p \<noteq> path \<longrightarrow> contents t p = contents s p)
     \<and> (\<forall>p j. p \<noteq> path \<longrightarrow> (get_node (root t) p = Ok (File j) \<longleftrightarrow> get_node (root s) p = Ok (File j)))
     \<and> (\<forall>j. j \<noteq> i \<longrightarrow> bm_get (files t) j = bm_get (files s) j)
     \<and> (if contents s path = None then bm_get (files s) i = None \<and> (om_create mode \<or> om_create_new mode)
        else get_node (root s) path = Ok (File i))"

lemma file_ready_existing:
  assumes "get_node (root s) path = Ok (File i)" "bm_get (files s) i = Some f" "\<not> om_truncate mode"
  shows "file_ready s s path mode i"
  using assms by (simp add: file_ready_def contents_file)

lemma file_ready_truncated:
  assumes "mem_inv q s" "get_node (root s) path = Ok (File i)" "bm_get (files s) i = Some f" "om_truncate mode"
    "t = s\<lparr>files := bm_insert i (f\<lparr>fn_data := []\<rparr>) (files s), used_bytes := n\<rparr>"
  shows "file_ready s t path mode i"
proof -
  have "contents t p = contents s p" if "p \<noteq> path" for p
    by (rule contents_replace [OF _ _ assms(2,1) that]) (simp_all add: assms(5))
  then show ?thesis using assms by (simp add: file_ready_def contents_file)
qed

lemma file_ready_created:
  assumes "mem_inv q s" "path \<noteq> []" "get_node (root s) (butlast path) = Ok (Directory es)" "bm_get es (last path) = None"
    "om_create mode \<or> om_create_new mode"
    "t = s\<lparr>next_inode := Suc (next_inode s), files := bm_insert (next_inode s) (file_node_default\<lparr>fn_links := 1\<rparr>) (files s),
        root := set_node (root s) (butlast path) (Directory (bm_insert (last path) (File (next_inode s)) es)),
        file_count := n\<rparr>"
  shows "file_ready s t path mode (next_inode s)"
proof -
  have nodes: "get_node (root t) p = Ok (File j) \<longleftrightarrow> get_node (root s) p = Ok (File j)" if "p \<noteq> path" for p j
    by (rule created_files [OF assms(1-4) _ that]) (simp add: assms(6))
  moreover have "contents t p = contents s p" if "p \<noteq> path" for p
  proof (rule contents_agree [OF nodes [OF that]])
    fix j assume "get_node (root s) p = Ok (File j)"
    from contents_linked [OF assms(1) this] obtain f where "bm_get (files s) j = Some f" .
    then have "j \<noteq> next_inode s" using next_inode_fresh [OF assms(1)] by auto
    then show "bm_get (files t) j = bm_get (files s) j" by (simp add: assms(6))
  qed
  moreover have "get_node (root t) path = Ok (File (next_inode s))"
    using get_put_entry [OF assms(2,3), of "File (next_inode s)" "[]"] by (simp add: assms(6))
  moreover have "contents s path = None" using get_node_last [OF assms(2,3)] assms(4) by (simp add: contents_def)
  moreover have "contents t path = Some []"
    using \<open>get_node (root t) path = _\<close> by (simp add: contents_file) (simp add: assms(6) file_node_default_def)
  moreover have "handles t = handles s" "\<forall>j. j \<noteq> next_inode s \<longrightarrow> bm_get (files t) j = bm_get (files s) j"
    by (simp_all add: assms(6))
  ultimately show ?thesis using assms(5) next_inode_fresh [OF assms(1)] by (simp add: file_ready_def)
qed

lemma mem_open_ready:
  assumes inv: "mem_inv q s" and q: "quota_ok q" and run: "mem_open q s p mode = (s', Ok h)"
  obtains path i f t where "normalize_path p = Ok path" "mem_inv q t" "file_ready s t path mode i"
    "bm_get (files t) i = Some f" "s' = mint_state t i f mode" "h = next_handle t"
proof -
  obtain path where path: "normalize_path p = Ok path" "valid_components path" and
    run': "and_then (open_inode q s path mode) (\<lambda>s1 i. mint_handle s1 i mode) = (s', Ok h)"
    using run by (auto simp: mem_open_def attempt_eq_Ok dest: normalize_path_valid)
  note result = that
  have fin: thesis if "open_inode q s path mode = (t, Ok i)" "mem_inv q t" "file_ready s t path mode i" for t i
  proof -
    have "mint_handle t i mode = (s', Ok h)" using run' that(1) by simp
    then obtain f where "bm_get (files t) i = Some f" "s' = mint_state t i f mode" "h = next_handle t" by (rule mint_Ok)
    then show thesis by (rule result [OF path(1) that(2,3)])
  qed
  from inv q path(2) show thesis
  proof (cases rule: open_inode_cases [where mode = mode])
    case (existing i f)
    show thesis by (rule fin [OF existing(5) inv file_ready_existing [OF existing(1,2,4)]])
  next
    case (truncated i f)
    show thesis by (rule fin [OF truncated(5,6) file_ready_truncated [OF inv truncated(1,2,4) refl]])
  next
    case (created es t)
    show thesis by (rule fin [OF created(6,7) file_ready_created [OF inv created(1-5)]])
  qed (use run' in simp_all)
qed

text \<open>Through a handle opened for it, the file and the handle are what was asked for.\<close>

lemma mem_open_effect:
  assumes inv: "mem_inv q s" and q: "quota_ok q" and run: "mem_open q s p mode = (s', Ok h)"
  obtains path i where "normalize_path p = Ok path" "mem_inv q s'" "file_ready s (s'\<lparr>handles := handles s\<rparr>) path mode i"
    "bm_get (handles s) h = None" "handles s' = bm_insert h \<lparr>h_inode = i, h_readable = om_read mode,
       h_writable = om_write mode, h_append = om_append mode\<rparr> (handles s)"
proof -
  obtain path i f t where t: "normalize_path p = Ok path" "mem_inv q t" "file_ready s t path mode i"
    "bm_get (files t) i = Some f" "s' = mint_state t i f mode" "h = next_handle t"
    by (rule mem_open_ready [OF assms])
  have h: "handles t = handles s" using t(3) by (simp add: file_ready_def)
  have "contents (s'\<lparr>handles := handles s\<rparr>) = contents t"
    using t(4) by (intro contents_same_data) (auto simp: t(5) mint_state_def)
  then have "file_ready s (s'\<lparr>handles := handles s\<rparr>) path mode i"
    using t(3) by (simp add: file_ready_def t(5)) (simp add: mint_state_def)
  moreover have "bm_get (handles s) h = None" using handle_fresh [OF t(2) [unfolded mem_inv_def]] h t(6) by simp
  ultimately show thesis
    using that [OF t(1)] inv_mint [OF t(2,4), of mode] h t(5,6) by (simp add: mint_state_def)
qed

text \<open>A write that succeeds takes all the bytes.\<close>

lemma mem_write_effect:
  assumes "mem_inv q s" "quota_safe q" "bm_get (handles s) h = Some hn" "\<not> h_append hn"
    "bm_get (files s) (h_inode hn) = Some f" "bytes \<noteq> []" "mem_write_at q s h offset bytes = (s', Ok n)"
  obtains u where "n = length bytes" "mem_inv q s'"
    "s' = s\<lparr>files := bm_insert (h_inode hn) (f\<lparr>fn_data := write_bytes (fn_data f) offset bytes\<rparr>) (files s), used_bytes := u\<rparr>"
proof -
  have w: "h_writable hn" and off: "offset \<le> usize_max"
    using assms(3-7) by (auto simp: mem_write_at_def try_usize_def split: if_splits)
  have q: "quota_ok q" "max_file_size q \<le> isize_max" using assms(2) by (auto simp: quota_safe_def)
  note run = write_at_eq [OF assms(1) q(1) assms(3) w assms(5,6) off size_safeI [OF q(2)]]
  have "op_ok q s (mem_write_at q s h offset bytes)" by (rule write_at_op_ok [OF assms(1) q(1) q(2)])
  then have "mem_inv q s'" using assms(7) by (simp add: op_ok_def)
  moreover have "write_start hn f offset = offset" using assms(4) by (simp add: write_start_def)
  ultimately show thesis using that assms(7) unfolding run by (auto simp: Let_def split: if_splits)
qed

text \<open>Closing a handle of a file that still has its path keeps the file.\<close>

lemma mem_close_effect:
  assumes "mem_inv q s" "bm_get (handles s) h = Some hn" "get_node (root s) path = Ok (File (h_inode hn))"
    "mem_close s h = (s', Ok u)"
  shows "mem_inv q s'" "root s' = root s" "handles s' = bm_remove h (handles s)"
    "map_option fn_data (bm_get (files s') i) = map_option fn_data (bm_get (files s) i)" "contents s' = contents s"
proof -
  obtain f where f: "bm_get (files s) (h_inode hn) = Some f" "0 < fn_links f" by (rule contents_linked [OF assms(1,3)])
  have "op_ok q s (mem_close s h)" by (rule close_op_ok [OF assms(1)])
  then show "mem_inv q s'" using assms(4) by (simp add: op_ok_def)
  obtain n where n: "(usub (fn_open f) 1 :: nat vres) = Ok n"
    using assms(2,4) f by (cases "usub (fn_open f) 1 :: nat vres") (auto simp: mem_close_def Let_def)
  have s': "s' = s\<lparr>handles := bm_remove h (handles s), files := bm_insert (h_inode hn) (f\<lparr>fn_open := n\<rparr>) (files s)\<rparr>"
    using assms(2,4) f n by (auto simp: mem_close_def Let_def release_file_if_unreferenced_def)
  show r: "root s' = root s" "handles s' = bm_remove h (handles s)" by (simp_all add: s')
  have d: "map_option fn_data (bm_get (files s') i) = map_option fn_data (bm_get (files s) i)" for i
    using f(1) by (auto simp: s')
  then show "map_option fn_data (bm_get (files s') i) = map_option fn_data (bm_get (files s) i)" .
  show "contents s' = contents s" by (rule contents_same_data [OF r(1) d])
qed

text \<open>Handles are no part of what is stored.\<close>

lemma contents_handles [simp]: "contents (s\<lparr>handles := hs\<rparr>) = contents s"
  by (rule contents_same_data) simp_all

end
