(* ===== verification/Builtin_Copy.thy ===== *)
theory Builtin_Copy
  imports Builtin_Files Mem_Contents Vfs_Trait Fs_Paths
begin

text \<open>
  Copying a file over the in-memory filesystem: the destination gets exactly the bytes of the source,
  and no other file changes.
\<close>

subsection \<open>The facade on the in-memory filesystem\<close>

lemma vfs_frames [simp]:
  "w_vfs (update_registry w r g) = w_vfs w" "w_vfs (update_control w c k) = w_vfs w"
  "w_vfs (pools_release_file w) = w_vfs w" "w_vfs (control_release_file w oc) = w_vfs w"
  "w_vfs (registry_release w r) = w_vfs w"
  by (simp_all add: update_registry_def update_control_def pools_release_file_def control_release_file_def
      registry_release_def split: option.split)

lemma vfs_reserve: "registry_reserve w r = (w1, x) \<Longrightarrow> w_vfs w1 = w_vfs w"
  by (auto simp: registry_reserve_def pools_acquire_file_def control_acquire_file_def split: option.splits sum.splits prod.splits if_splits)

lemma vfs_remove: "registry_remove w r h = (w1, x) \<Longrightarrow> w_vfs w1 = w_vfs w"
  by (auto simp: registry_remove_def split: if_splits)

lemma open_start_mem:
  assumes "open_start (mem_ops q) w f p mode = (w1, Ok po)"
  shows "w_vfs w1 = w_vfs w" "po_path po = fs_resolve f p" "po_mode po = mode" "check_path w f (fs_resolve f p) = Ok ()"
  using assms
  by (auto dest!: vfs_reserve simp: open_start_def Let_def attempt_eq_Ok dispatch_path_def dispatch_def and_then_eq_Ok mem_ops_def split: if_splits)

lemma open_finish_mem:
  assumes "open_finish (mem_ops q) w po = (w1, Ok h)"
  shows "mem_open q (w_vfs w) (po_path po) (po_mode po) = (w_vfs w1, Ok h)"
  using assms
  by (auto simp: open_finish_def on_vfs_def Let_def mem_ops_def and_then_eq_Ok split: prod.splits sum.splits fault.splits if_splits)

lemma fs_open_mem:
  assumes "fs_open (mem_ops q) w f p mode = (w', Ok h)"
  shows "mem_open q (w_vfs w) (fs_resolve f p) mode = (w_vfs w', Ok h)" "check_path w f (fs_resolve f p) = Ok ()"
proof -
  obtain w1 po where "open_start (mem_ops q) w f p mode = (w1, Ok po)" "open_finish (mem_ops q) w1 po = (w', Ok h)"
    using assms by (auto simp: fs_open_def and_then_eq_Ok)
  with open_start_mem [OF this(1)] open_finish_mem [OF this(2)]
  show "mem_open q (w_vfs w) (fs_resolve f p) mode = (w_vfs w', Ok h)" "check_path w f (fs_resolve f p) = Ok ()" by simp_all
qed

lemma fs_read_at_mem:
  assumes "fs_read_at (mem_ops q) w f h off n = (w', Ok bytes)"
  shows "w_vfs w' = w_vfs w" "mem_read_at (w_vfs w) h off n = Ok bytes"
  using assms by (auto simp: fs_read_at_def dispatch_def on_vfs_def mem_ops_def and_then_eq_Ok split: if_splits)

lemma fs_write_at_mem:
  assumes "fs_write_at (mem_ops q) w f h off data = (w', Ok n)"
  shows "mem_write_at q (w_vfs w) h off data = (w_vfs w', Ok n)"
  using assms
  by (auto simp: fs_write_at_def dispatch_def on_vfs_def mem_ops_def and_then_eq_Ok split: if_splits prod.splits)

lemma fs_finish_mem:
  assumes "fs_finish (mem_ops q) w f h ab = (w', Ok u)"
  shows "mem_close (w_vfs w) h = (w_vfs w', Ok u)"
proof -
  obtain w1 where w1: "registry_remove w (fs_handles f) h = (w1, Ok ())"
    "(case mem_close (w_vfs w1) h of (s, x) \<Rightarrow> (registry_release (w1\<lparr>w_vfs := s\<rparr>) (fs_handles f), x)) = (w', Ok u)"
    using assms by (auto simp: fs_finish_def Let_def dispatch_def on_vfs_def mem_ops_def and_then_eq_Ok split: if_splits prod.splits)
  then show ?thesis using vfs_remove [OF w1(1)] by (auto split: prod.splits)
qed

lemma fs_close_mem:
  assumes "fs_close (mem_ops q) w f h = (w', Ok u)"
  shows "mem_close (w_vfs w) h = (w_vfs w', Ok u)"
  using assms unfolding fs_close_def by (rule fs_finish_mem)

subsection \<open>The loop\<close>

text \<open>
  A copy in progress: both files are open, the destination holds the first \<open>n\<close> bytes of the source,
  and everything else is as in \<open>s0\<close>.
\<close>

definition copying ::
  "vfs_quota \<Rightarrow> mem_state \<Rightarrow> rstr list \<Rightarrow> rstr list \<Rightarrow> file_handle \<Rightarrow> file_handle \<Rightarrow> byte list \<Rightarrow> nat \<Rightarrow> mem_state \<Rightarrow> bool" where
  "copying q s0 sp dp sh dh d n s \<longleftrightarrow>
     mem_inv q s \<and> sp \<noteq> dp \<and> sh \<noteq> dh \<and> n \<le> length d \<and> contents s sp = Some d \<and> contents s dp = Some (take n d)
     \<and> (\<forall>p. p \<noteq> dp \<longrightarrow> contents s p = contents s0 p)
     \<and> (\<exists>hs. bm_get (handles s) sh = Some hs \<and> h_readable hs \<and> get_node (root s) sp = Ok (File (h_inode hs)))
     \<and> (\<exists>hd. bm_get (handles s) dh = Some hd \<and> \<not> h_append hd \<and> get_node (root s) dp = Ok (File (h_inode hd)))"

lemma copying_read:
  assumes "copying q s0 sp dp sh dh d n s" "mem_read_at s sh n k = Ok bytes"
  shows "bytes = take k (drop n d)"
proof -
  obtain hs where "bm_get (handles s) sh = Some hs" "get_node (root s) sp = Ok (File (h_inode hs))" "contents s sp = Some d"
    using assms(1) by (auto simp: copying_def)
  then show ?thesis
    using assms(2) by (auto simp: mem_read_at_def contents_file try_usize_def min_def Let_def obind_eq_Ok split: if_splits)
qed

lemma copying_write:
  assumes c: "copying q s0 sp dp sh dh d n s" and q: "quota_safe q" and b: "bytes = take k (drop n d)" "bytes \<noteq> []"
    and run: "mem_write_at q s dh n bytes = (s', Ok m)"
  shows "m = length bytes" "copying q s0 sp dp sh dh d (n + length bytes) s'"
proof -
  obtain hd where hd: "bm_get (handles s) dh = Some hd" "\<not> h_append hd" "get_node (root s) dp = Ok (File (h_inode hd))"
    and inv: "mem_inv q s" and n: "n \<le> length d" "contents s dp = Some (take n d)" and ne: "sp \<noteq> dp"
    using c by (auto simp: copying_def)
  obtain g where g: "bm_get (files s) (h_inode hd) = Some g" "fn_data g = take n d"
    using n(2) contents_file [OF hd(3)] by auto
  obtain u where u: "m = length bytes" "mem_inv q s'"
    "s' = s\<lparr>files := bm_insert (h_inode hd) (g\<lparr>fn_data := write_bytes (fn_data g) n bytes\<rparr>) (files s), used_bytes := u\<rparr>"
    by (rule mem_write_effect [OF inv q hd(1,2) g(1) b(2) run])
  have "write_bytes (take n d) n bytes = take n d @ bytes" using n(1) by (simp add: write_bytes_def)
  moreover have "take (length bytes) (drop n d) = bytes" using b(1) by (simp add: min_def)
  then have "take n d @ bytes = take (n + length bytes) d" by (simp only: take_add)
  ultimately have "contents s' dp = Some (take (n + length bytes) d)"
    using hd(3) g(2) by (simp add: contents_file u(3))
  moreover have frame: "contents s' p = contents s p" if "p \<noteq> dp" for p
    by (rule contents_replace [OF _ _ hd(3) inv that]) (simp_all add: u(3))
  moreover have "n + length bytes \<le> length d" using b(1) n(1) by auto
  ultimately show "m = length bytes" "copying q s0 sp dp sh dh d (n + length bytes) s'"
    using c u frame [OF ne] by (auto simp: copying_def)
qed

lemma copy_write_copies:
  assumes "copying q s0 sp dp sh dh d n (w_vfs w)" "quota_safe q" "bytes = take k (drop n d)" "bytes \<noteq> []"
    "copy_write (mem_ops q) w f dh n bytes 0 = (w', Ok ())"
  shows "copying q s0 sp dp sh dh d (n + length bytes) (w_vfs w')"
proof -
  obtain w1 m where m: "fs_write_at (mem_ops q) w f dh n bytes = (w1, Ok m)"
    "(if m = 0 \<or> length bytes < m then (w1, Err EIO) else copy_write (mem_ops q) w1 f dh n bytes (0 + m)) = (w', Ok ())"
    using assms(4) assms(5) [unfolded copy_write.simps [of "mem_ops q" w f dh n bytes 0]]
    by (auto simp: attempt_eq_Ok uadd_eq_Ok split: prod.splits sum.splits)
  note w = copying_write [OF assms(1-4) fs_write_at_mem [OF m(1)]]
  have "w' = w1" using m(2) assms(4) w(1) by (simp add: copy_write.simps)
  then show ?thesis using w(2) by simp
qed

lemma copy_loop_copies:
  assumes "copying q s0 sp dp sh dh d n (w_vfs w)" "quota_safe q" "copy_loop (mem_ops q) w f sh dh n = (w', Ok ())"
  shows "copying q s0 sp dp sh dh d (length d) (w_vfs w')"
  using assms
proof (induction "length d - n" arbitrary: n w rule: less_induct)
  case less
  obtain w1 bytes where r: "fs_read_at (mem_ops q) w f sh n stream_chunk_bytes = (w1, Ok bytes)"
    and rest: "(if bytes = [] then (w1, Ok ()) else if stream_chunk_bytes < length bytes then (w1, Err EIO)
      else (case copy_write (mem_ops q) w1 f dh n bytes 0 of
          (w2, Inl e) \<Rightarrow> (w2, Inl e)
        | (w2, Inr _) \<Rightarrow> (case checked_add n (length bytes) of
              None \<Rightarrow> (w2, Err EFBIG) | Some nx \<Rightarrow> copy_loop (mem_ops q) w2 f sh dh nx))) = (w', Ok ())"
    using less.prems(3) [unfolded copy_loop.simps [of "mem_ops q" w f sh dh n]]
    by (auto simp: attempt_eq_Ok split: prod.splits sum.splits)
  note read = fs_read_at_mem [OF r]
  have b: "bytes = take stream_chunk_bytes (drop n d)" by (rule copying_read [OF less.prems(1) read(2)])
  have c: "copying q s0 sp dp sh dh d n (w_vfs w1)" using less.prems(1) read(1) by simp
  have n: "n \<le> length d" using c by (simp add: copying_def)
  show ?case
  proof (cases "bytes = []")
    case True
    then have "n = length d" using b n by (auto simp: stream_chunk_bytes_def)
    then show ?thesis using True rest c by simp
  next
    case False
    then obtain w2 nx where w2: "copy_write (mem_ops q) w1 f dh n bytes 0 = (w2, Ok ())" "checked_add n (length bytes) = Some nx"
        "copy_loop (mem_ops q) w2 f sh dh nx = (w', Ok ())"
      using rest by (auto split: if_splits prod.splits sum.splits option.splits)
    have nx: "nx = n + length bytes" using w2(2) by (auto simp: checked_add_def split: if_splits)
    have c2: "copying q s0 sp dp sh dh d nx (w_vfs w2)"
      unfolding nx by (rule copy_write_copies [OF c less.prems(2) b False w2(1)])
    have "length d - nx < length d - n" using False b n by (auto simp: nx)
    from less.hyps [OF this c2 less.prems(2) w2(3)] show ?thesis .
  qed
qed

subsection \<open>Whole copies\<close>

lemma resolved_components:
  assumes "check_path w f (fs_resolve f p) = Ok ()" "normalize_path (fs_resolve f p) = Ok cs"
  shows "fs_resolve f p = render_path cs"
proof -
  obtain ds where ds: "fs_resolve f p = render_path ds" "list_all plain_name ds" by (rule fs_resolve_render)
  then show ?thesis using check_path_valid(3) [of w f ds] assms by simp
qed

text \<open>The source is open: nothing has changed yet.\<close>

lemma source_opened:
  assumes "mem_inv q s" "quota_safe q" "mem_open q s p om_read_only = (s1, Ok h)"
  obtains path i d where "normalize_path p = Ok path" "mem_inv q s1" "contents s1 = contents s" "contents s path = Some d"
    "bm_get (handles s1) h = Some \<lparr>h_inode = i, h_readable = True, h_writable = False, h_append = False\<rparr>"
    "get_node (root s1) path = Ok (File i)"
proof -
  have "quota_ok q" using assms(2) by (simp add: quota_safe_def)
  then obtain path i where o: "normalize_path p = Ok path" "mem_inv q s1"
      "file_ready s (s1\<lparr>handles := handles s\<rparr>) path om_read_only i"
      "handles s1 = bm_insert h \<lparr>h_inode = i, h_readable = om_read om_read_only, h_writable = om_write om_read_only,
         h_append = om_append om_read_only\<rparr> (handles s)"
    using mem_open_effect [OF assms(1) _ assms(3)] by metis
  have "contents s path \<noteq> None"
  proof
    assume none: "contents s path = None"
    have "\<not> (om_create om_read_only \<or> om_create_new om_read_only)" by (simp add: om_read_only_def)
    then show False using o(3) none by (simp add: file_ready_def)
  qed
  moreover have "contents s1 = contents s"
  proof
    fix p'
    show "contents s1 p' = contents s p'"
      using o(3) \<open>contents s path \<noteq> None\<close> by (cases "p' = path") (auto simp: file_ready_def om_read_only_def)
  qed
  ultimately show thesis using that [OF o(1,2)] o(3,4) by (auto simp: file_ready_def om_read_only_def)
qed

abbreviation copy_mode :: open_mode where
  "copy_mode \<equiv> om_set_truncate (om_set_create om_write_only)"

lemma destination_opened:
  assumes "mem_inv q s" "quota_safe q" "mem_open q s p copy_mode = (s1, Ok h)"
  obtains path i where "normalize_path p = Ok path" "mem_inv q s1" "contents s1 path = Some []"
    "\<forall>p'. p' \<noteq> path \<longrightarrow> contents s1 p' = contents s p'"
    "\<forall>p' j. p' \<noteq> path \<longrightarrow> get_node (root s) p' = Ok (File j) \<longrightarrow> get_node (root s1) p' = Ok (File j)"
    "bm_get (handles s) h = None"
    "handles s1 = bm_insert h \<lparr>h_inode = i, h_readable = False, h_writable = True, h_append = False\<rparr> (handles s)"
    "get_node (root s1) path = Ok (File i)"
proof -
  have "quota_ok q" using assms(2) by (simp add: quota_safe_def)
  then obtain path i where o: "normalize_path p = Ok path" "mem_inv q s1"
      "file_ready s (s1\<lparr>handles := handles s\<rparr>) path copy_mode i" "bm_get (handles s) h = None"
      "handles s1 = bm_insert h \<lparr>h_inode = i, h_readable = om_read copy_mode, h_writable = om_write copy_mode,
         h_append = om_append copy_mode\<rparr> (handles s)"
    using mem_open_effect [OF assms(1) _ assms(3)] by metis
  have m: "om_truncate copy_mode" "\<not> om_read copy_mode" "om_write copy_mode" "\<not> om_append copy_mode"
    by (simp_all add: om_set_truncate_def om_set_create_def om_write_only_def)
  show thesis using that [OF o(1,2) _ _ _ o(4), of i] o(3,5) m by (simp add: file_ready_def)
qed

lemma copy_file_steps:
  assumes "copy_file ops w f src dst = (w', Ok ())"
  obtains w1 sh w2 dh w3 w4 where "fs_open ops w f src om_read_only = (w1, Ok sh)" "fs_open ops w1 f dst copy_mode = (w2, Ok dh)"
    "copy_loop ops w2 f sh dh 0 = (w3, Ok ())" "fs_close ops w3 f sh = (w4, Ok ())" "fs_close ops w4 f dh = (w', Ok ())"
proof -
  obtain w1 sh where o1: "fs_open ops w f src om_read_only = (w1, Ok sh)"
    using assms by (auto simp: copy_file_def and_then_eq_Ok)
  obtain w2 r2 where o2: "fs_open ops w1 f dst copy_mode = (w2, r2)" by fastforce
  then obtain dh where dh: "r2 = Ok dh"
    using assms o1 by (cases r2) (auto simp: copy_file_def split: fault.splits prod.splits sum.splits)
  obtain w3 r3 where l: "copy_loop ops w2 f sh dh 0 = (w3, r3)" by fastforce
  obtain w4 r4 where c: "fs_close ops w3 f sh = (w4, r4)" by fastforce
  have r: "r3 = Ok ()"
    using assms o1 o2 dh l c by (cases r3) (auto simp: copy_file_def split: fault.splits prod.splits sum.splits)
  then have r4: "r4 = Ok ()"
    using assms o1 o2 dh l c by (cases r4) (auto simp: copy_file_def split: fault.splits prod.splits sum.splits)
  show thesis using that [OF o1] o2 dh l c r r4 assms o1 by (simp add: copy_file_def)
qed

lemma copy_file_copies:
  assumes inv: "mem_inv q (w_vfs w)" and q: "quota_safe q" and ne: "fs_resolve f src \<noteq> fs_resolve f dst"
    and run: "copy_file (mem_ops q) w f src dst = (w', Ok ())"
  obtains sp dp d where "normalize_path (fs_resolve f src) = Ok sp" "normalize_path (fs_resolve f dst) = Ok dp"
    "sp \<noteq> dp" "mem_inv q (w_vfs w')" "contents (w_vfs w) sp = Some d" "contents (w_vfs w') dp = Some d"
    "\<forall>p. p \<noteq> dp \<longrightarrow> contents (w_vfs w') p = contents (w_vfs w) p"
proof -
  obtain w1 sh w2 dh w3 w4 where st: "fs_open (mem_ops q) w f src om_read_only = (w1, Ok sh)"
      "fs_open (mem_ops q) w1 f dst copy_mode = (w2, Ok dh)" "copy_loop (mem_ops q) w2 f sh dh 0 = (w3, Ok ())"
      "fs_close (mem_ops q) w3 f sh = (w4, Ok ())" "fs_close (mem_ops q) w4 f dh = (w', Ok ())"
    by (rule copy_file_steps [OF run])
  note o1 = fs_open_mem [OF st(1)] and o2 = fs_open_mem [OF st(2)]
  obtain sp si d where a: "normalize_path (fs_resolve f src) = Ok sp" "mem_inv q (w_vfs w1)"
      "contents (w_vfs w1) = contents (w_vfs w)" "contents (w_vfs w) sp = Some d"
      "bm_get (handles (w_vfs w1)) sh = Some \<lparr>h_inode = si, h_readable = True, h_writable = False, h_append = False\<rparr>"
      "get_node (root (w_vfs w1)) sp = Ok (File si)"
    by (rule source_opened [OF inv q o1(1)])
  obtain dp di where b: "normalize_path (fs_resolve f dst) = Ok dp" "mem_inv q (w_vfs w2)" "contents (w_vfs w2) dp = Some []"
      "\<forall>p'. p' \<noteq> dp \<longrightarrow> contents (w_vfs w2) p' = contents (w_vfs w1) p'"
      "\<forall>p' j. p' \<noteq> dp \<longrightarrow> get_node (root (w_vfs w1)) p' = Ok (File j) \<longrightarrow> get_node (root (w_vfs w2)) p' = Ok (File j)"
      "bm_get (handles (w_vfs w1)) dh = None"
      "handles (w_vfs w2) = bm_insert dh \<lparr>h_inode = di, h_readable = False, h_writable = True, h_append = False\<rparr> (handles (w_vfs w1))"
      "get_node (root (w_vfs w2)) dp = Ok (File di)"
    by (rule destination_opened [OF a(2) q o2(1)])
  have sd: "sp \<noteq> dp" using resolved_components [OF o1(2) a(1)] resolved_components [OF o2(2) b(1)] ne by auto
  have "sh \<noteq> dh" using a(5) b(6) by auto
  then have c: "copying q (w_vfs w) sp dp sh dh d 0 (w_vfs w2)" using a b sd by (simp add: copying_def)
  note c3 = copy_loop_copies [OF c q st(3)]
  obtain hs hd where h: "bm_get (handles (w_vfs w3)) sh = Some hs" "get_node (root (w_vfs w3)) sp = Ok (File (h_inode hs))"
      "bm_get (handles (w_vfs w3)) dh = Some hd" "get_node (root (w_vfs w3)) dp = Ok (File (h_inode hd))"
      and inv3: "mem_inv q (w_vfs w3)"
    using c3 by (auto simp: copying_def)
  note k1 = mem_close_effect [OF inv3 h(1,2) fs_close_mem [OF st(4)]]
  have hwf: "bm_wf (handles (w_vfs w3))" using inv_handles_wf [OF inv3 [unfolded mem_inv_def]] .
  have "bm_get (handles (w_vfs w4)) dh = Some hd" using k1(3) h(3) \<open>sh \<noteq> dh\<close> hwf by simp
  moreover have "get_node (root (w_vfs w4)) dp = Ok (File (h_inode hd))" using k1(2) h(4) by simp
  ultimately have k2: "mem_inv q (w_vfs w')" "contents (w_vfs w') = contents (w_vfs w4)"
    using mem_close_effect [OF k1(1) _ _ fs_close_mem [OF st(5)]] by metis+
  have fin: "contents (w_vfs w') = contents (w_vfs w3)" using k1(5) k2(2) by simp
  show thesis
    by (rule that [OF a(1) b(1) sd k2(1) a(4)]) (use c3 in \<open>simp_all add: fin copying_def\<close>)
qed

end
