(* ===== verification/Builtin_Text.thy ===== *)
theory Builtin_Text
  imports Builtin_Lines
begin

text \<open>
  The text builtins that work on byte streams (\<open>src/sandbox/builtins.rs\<close>): the readers of \<open>cat\<close>,
  \<open>wc\<close>, \<open>head\<close> and \<open>tail\<close>, and what they compute on a source that delivers its data, whatever
  the sizes of the pieces it arrives in.
\<close>

text \<open>\<open>format!("{:>width$}", n)\<close>.\<close>

definition pad_left :: "nat \<Rightarrow> rstr \<Rightarrow> rstr" where
  "pad_left width s = replicate (width - length s) 32 @ s"

subsection \<open>cat\<close>

record cat_flags =
  cf_number :: bool
  cf_number_nonblank :: bool
  cf_squeeze :: bool
  cf_show_ends :: bool
  cf_show_tabs :: bool

definition cat_plain :: "cat_flags \<Rightarrow> bool" where
  "cat_plain fl \<longleftrightarrow> \<not> (cf_number fl \<or> cf_number_nonblank fl \<or> cf_squeeze fl \<or> cf_show_ends fl \<or> cf_show_tabs fl)"

record cat_state =
  ca_line :: nat
  ca_prev_blank :: bool

definition cat_state_default :: cat_state where
  "cat_state_default = \<lparr>ca_line = 0, ca_prev_blank = False\<rparr>"

text \<open>One turn of the loop of \<open>cat_transform\<close>: a line without its terminator.\<close>

definition cat_line :: "cat_flags \<Rightarrow> cat_state \<Rightarrow> byte list \<Rightarrow> bool \<Rightarrow> cat_state \<times> byte list" where
  "cat_line fl st content had_newline =
     (let blank = (content = [] \<and> had_newline) in
      if cf_squeeze fl \<and> blank \<and> ca_prev_blank st then (st, [])
      else
        let numbered = (if cf_number_nonblank fl then \<not> blank else cf_number fl);
            line = (if numbered then ca_line st + 1 else ca_line st);
            number = (if numbered then utf8 (pad_left 6 (show_nat line) @ [9]) else []);
            text = (if cf_show_tabs fl then concat (map (\<lambda>b. if b = 9 then [94, 73] else [b]) content) else content);
            ending = (if had_newline then (if cf_show_ends fl then [36, nl] else [nl]) else []) in
        (\<lparr>ca_line = line, ca_prev_blank = blank\<rparr>, number @ text @ ending))"

function cat_transform :: "byte list \<Rightarrow> cat_flags \<Rightarrow> cat_state \<Rightarrow> byte list \<Rightarrow> cat_state \<times> byte list" where
  "cat_transform rest fl st out =
     (if rest = [] then (st, out)
      else
        let (content, had_newline, rest1) =
          (case position (\<lambda>b. b = nl) rest of
             Some pos \<Rightarrow> (take pos rest, True, drop (pos + 1) rest)
           | None \<Rightarrow> (rest, False, []));
          (st1, text) = cat_line fl st content had_newline in
        cat_transform rest1 fl st1 (out @ text))"
  by pat_completeness auto

termination
  by (relation "measure (\<lambda>(rest, fl, st, out). length rest)") (auto split: option.splits)

declare cat_transform.simps [simp del]

text \<open>The two loops of \<open>cat_stream\<close>.\<close>

partial_function (option) cat_copy ::
  "'r source \<Rightarrow> 'r \<Rightarrow> sink \<Rightarrow> ('r \<times> sink \<times> unit io_result) option" where
  "cat_copy rd r out =
     (case rd r (64 * 1024) of
        (r1, Inl f) \<Rightarrow> Some (r1, out, Inl f)
      | (r1, Inr bytes) \<Rightarrow>
          if bytes = [] then Some (r1, out, Ok ())
          else
            (case write_all out bytes of
               (out1, Inl f) \<Rightarrow> Some (r1, out1, Inl f)
             | (out1, Inr _) \<Rightarrow> cat_copy rd r1 out1))"

definition cat_body :: "cat_flags \<Rightarrow> cat_state \<times> sink \<Rightarrow> byte list \<Rightarrow> (cat_state \<times> sink) \<times> unit io_result" where
  "cat_body fl x line =
     (case cat_transform line fl (fst x) [] of
        (st, text) \<Rightarrow> (case write_all (snd x) text of (out, res) \<Rightarrow> ((st, out), res)))"

definition cat_stream ::
  "'r source \<Rightarrow> 'r \<Rightarrow> sink \<Rightarrow> cat_flags \<Rightarrow> cat_state \<Rightarrow> ('r \<times> (cat_state \<times> sink) \<times> unit io_result) option" where
  "cat_stream rd r out fl st =
     (if cat_plain fl then map_option (\<lambda>(r1, out1, res). (r1, (st, out1), res)) (cat_copy rd r out)
      else map_option (\<lambda>((r1, _), x, res). (r1, x, res)) (while_lines rd (cat_body fl) r line_buffer_default (st, out)))"

subsection \<open>wc\<close>

record wc_counts =
  cn_lines :: nat
  cn_words :: nat
  cn_bytes :: nat

definition counts_default :: wc_counts where
  "counts_default = \<lparr>cn_lines = 0, cn_words = 0, cn_bytes = 0\<rparr>"

definition counts_add :: "wc_counts \<Rightarrow> wc_counts \<Rightarrow> wc_counts" where
  "counts_add a b = \<lparr>cn_lines = cn_lines a + cn_lines b, cn_words = cn_words a + cn_words b, cn_bytes = cn_bytes a + cn_bytes b\<rparr>"

text \<open>\<open>u8::is_ascii_whitespace\<close>.\<close>

definition is_ascii_whitespace :: "byte \<Rightarrow> bool" where
  "is_ascii_whitespace b \<longleftrightarrow> b = 32 \<or> b = 9 \<or> b = 10 \<or> b = 12 \<or> b = 13"

fun count_bytes :: "byte list \<Rightarrow> wc_counts \<Rightarrow> bool \<Rightarrow> wc_counts \<times> bool" where
  "count_bytes [] c in_word = (c, in_word)"
| "count_bytes (b # bs) c in_word =
     (let c1 = (if b = nl then c\<lparr>cn_lines := cn_lines c + 1\<rparr> else c) in
      if is_ascii_whitespace b then count_bytes bs c1 False
      else if \<not> in_word then count_bytes bs (c1\<lparr>cn_words := cn_words c1 + 1\<rparr>) True
      else count_bytes bs c1 in_word)"

partial_function (option) counts_loop ::
  "'r source \<Rightarrow> 'r \<Rightarrow> wc_counts \<Rightarrow> bool \<Rightarrow> ('r \<times> wc_counts io_result) option" where
  "counts_loop rd r c in_word =
     (case rd r (64 * 1024) of
        (r1, Inl f) \<Rightarrow> Some (r1, Inl f)
      | (r1, Inr bytes) \<Rightarrow>
          if bytes = [] then Some (r1, Ok c)
          else
            (case count_bytes bytes (c\<lparr>cn_bytes := cn_bytes c + length bytes\<rparr>) in_word of
               (c1, w) \<Rightarrow> counts_loop rd r1 c1 w))"

definition counts_reader :: "'r source \<Rightarrow> 'r \<Rightarrow> ('r \<times> wc_counts io_result) option" where
  "counts_reader rd r = counts_loop rd r counts_default False"

definition selected_counts :: "wc_counts \<Rightarrow> bool \<Rightarrow> bool \<Rightarrow> bool \<Rightarrow> nat list" where
  "selected_counts c show_lines show_words show_bytes =
     (if show_lines then [cn_lines c] else []) @ (if show_words then [cn_words c] else [])
     @ (if show_bytes then [cn_bytes c] else [])"

definition decimal_width :: "nat \<Rightarrow> nat" where
  "decimal_width n = byte_len (show_nat n)"

definition counts_text :: "wc_counts \<Rightarrow> rstr option \<Rightarrow> bool \<Rightarrow> bool \<Rightarrow> bool \<Rightarrow> nat \<Rightarrow> rstr" where
  "counts_text c name show_lines show_words show_bytes width =
     (let o1 = (if show_lines then pad_left width (show_nat (cn_lines c)) else []);
          o2 = (if show_words then (if show_lines then [32] else []) @ pad_left width (show_nat (cn_words c)) else []);
          o3 = (if show_bytes then (if show_lines \<or> show_words then [32] else []) @ pad_left width (show_nat (cn_bytes c)) else []);
          o4 = (case name of None \<Rightarrow> [] | Some t \<Rightarrow> [32] @ t) in
      o1 @ o2 @ o3 @ o4 @ [10])"

subsection \<open>head and tail\<close>

datatype tail_count = LastLines nat | FromLine nat

record head_tail_settings =
  ht_count :: tail_count
  ht_head :: bool
  ht_window :: nat

text \<open>\<open>str::parse::<usize>\<close> accepts one plus sign.\<close>

definition parse_usize :: "rstr \<Rightarrow> nat option" where
  "parse_usize s = (case s of c # t \<Rightarrow> if c = 43 then parse_unsigned usize_max t else parse_unsigned usize_max s | [] \<Rightarrow> None)"

definition parse_head_tail_count :: "rstr \<Rightarrow> bool \<Rightarrow> tail_count option" where
  "parse_head_tail_count v head_mode =
     (if starts_with v [43] then
        if head_mode then None else map_option (\<lambda>n. FromLine (max n 1)) (parse_usize (drop 1 v))
      else map_option LastLines (parse_usize v))"

fun head_loop ::
  "'r source \<Rightarrow> nat \<Rightarrow> 'r \<Rightarrow> line_buffer \<Rightarrow> sink \<Rightarrow> ('r \<times> line_buffer) \<times> sink \<times> unit io_result" where
  "head_loop rd 0 r b out = ((r, b), out, Ok ())"
| "head_loop rd (Suc n) r b out =
     (case read_line rd r b of
        (rb, Inl f) \<Rightarrow> (rb, out, Inl f)
      | (rb, Inr None) \<Rightarrow> (rb, out, Ok ())
      | ((r1, b1), Inr (Some line)) \<Rightarrow>
          (case write_all out line of
             (out1, Inl f) \<Rightarrow> ((r1, b1), out1, Inl f)
           | (out1, Inr _) \<Rightarrow> head_loop rd n r1 b1 out1))"

text \<open>The first line leaves the window.\<close>

fun pop_line :: "byte list \<Rightarrow> byte list" where
  "pop_line [] = []"
| "pop_line (b # bs) = (if b = nl then bs else pop_line bs)"

definition tail_too_large :: io_fault where
  "tail_too_large = InvalidData (rs ''retained input too large for tinysandbox tail'')"

definition tail_body :: "nat \<Rightarrow> nat \<Rightarrow> byte list \<times> nat \<Rightarrow> byte list \<Rightarrow> (byte list \<times> nat) \<times> unit io_result" where
  "tail_body limit window_bytes x line =
     (if limit = 0 then (x, Ok ())
      else
        let (window, retained) = (if snd x = limit then (pop_line (fst x), snd x - 1) else x) in
        if window_bytes < saturating_add (length window) (length line) then ((window, retained), Err tail_too_large)
        else ((window @ line, retained + 1), Ok ()))"

definition from_body :: "nat \<Rightarrow> nat \<times> sink \<Rightarrow> byte list \<Rightarrow> (nat \<times> sink) \<times> unit io_result" where
  "from_body start x line =
     (if start \<le> fst x then
        (case write_all (snd x) line of
           (out, Inl f) \<Rightarrow> ((fst x, out), Inl f) | (out, Inr _) \<Rightarrow> ((fst x + 1, out), Ok ()))
      else ((fst x + 1, snd x), Ok ()))"

text \<open>\<open>wrap\<close> is where the ring buffer of the window wraps (\<open>VecDeque::as_slices\<close>).\<close>

definition head_tail_lines ::
  "'r source \<Rightarrow> (byte list \<Rightarrow> nat) \<Rightarrow> 'r \<Rightarrow> sink \<Rightarrow> head_tail_settings \<Rightarrow> ('r \<times> sink \<times> unit io_result) option" where
  "head_tail_lines rd wrap r out se =
     (case ht_count se of
        LastLines limit \<Rightarrow>
          if ht_head se then
            (case head_loop rd limit r line_buffer_default out of ((r1, _), out1, res) \<Rightarrow> Some (r1, out1, res))
          else
            map_option
              (\<lambda>((r1, _), (window, _), res).
                case res of
                  Inl f \<Rightarrow> (r1, out, Inl f)
                | Inr _ \<Rightarrow>
                    (case write_all out (take (wrap window) window) of
                       (out1, Inl f) \<Rightarrow> (r1, out1, Inl f)
                     | (out1, Inr _) \<Rightarrow> (case write_all out1 (drop (wrap window) window) of (out2, res2) \<Rightarrow> (r1, out2, res2))))
              (while_lines rd (tail_body limit (ht_window se)) r line_buffer_default ([], 0))
      | FromLine start \<Rightarrow>
          map_option (\<lambda>((r1, _), (_, out1), res). (r1, out1, res))
            (while_lines rd (from_body start) r line_buffer_default (1, out)))"

definition head_tail_reader ::
  "'r source \<Rightarrow> (byte list \<Rightarrow> nat) \<Rightarrow> 'r \<Rightarrow> sink \<Rightarrow> rstr \<Rightarrow> bool \<Rightarrow> head_tail_settings \<Rightarrow> nat
   \<Rightarrow> ('r \<times> sink \<times> unit io_result) option" where
  "head_tail_reader rd wrap r out label show_header se index =
     (case (if show_header \<and> 0 < index then write_all out [nl] else (out, Ok ())) of
        (out1, Inl f) \<Rightarrow> Some (r, out1, Inl f)
      | (out1, Inr _) \<Rightarrow>
          (case (if show_header then write_all out1 (utf8 (rs ''==> '' @ label @ rs '' <=='' @ [10])) else (out1, Ok ())) of
             (out2, Inl f) \<Rightarrow> Some (r, out2, Inl f)
           | (out2, Inr _) \<Rightarrow> head_tail_lines rd wrap r out2 se))"

end
