(* ===== verification/Builtin_Streams.thy ===== *)
theory Builtin_Streams
  imports Builtin_Text
begin

text \<open>
  What the stream builtins compute. Each reader is compared with a function of the whole input,
  for every source that delivers it.
\<close>

lemma lines_induct [case_names empty unterminated line]:
  assumes "P []" "\<And>pre. nl \<notin> set pre \<Longrightarrow> pre \<noteq> [] \<Longrightarrow> P pre"
    "\<And>pre rest. nl \<notin> set pre \<Longrightarrow> P rest \<Longrightarrow> P (pre @ nl # rest)"
  shows "P data"
proof (induction "length data" arbitrary: data rule: less_induct)
  case less
  show ?case
  proof (cases "nl \<in> set data")
    case True
    then obtain pre rest where "data = pre @ nl # rest" "nl \<notin> set pre" by (metis split_list_first)
    then show ?thesis using assms(3) less by simp
  next
    case False
    then show ?thesis using assms(1,2) by (cases "data = []") simp_all
  qed
qed

definition short_lines :: "byte list \<Rightarrow> bool" where
  "short_lines data \<longleftrightarrow> (\<forall>l\<in>set (lines_of data). length l \<le> max_stream_line_bytes)"

lemma short_lines_line [simp]:
  "nl \<notin> set pre \<Longrightarrow> short_lines (pre @ nl # rest) \<longleftrightarrow> length pre < max_stream_line_bytes \<and> short_lines rest"
  by (auto simp: short_lines_def lines_of_line)

lemma run_lines_writes:
  "\<forall>l\<in>set ls. length l \<le> max_stream_line_bytes \<Longrightarrow> run_lines write_all (open_sink a) ls = (open_sink (a @ concat ls), Ok ())"
  by (induction ls arbitrary: a) auto

subsection \<open>cat\<close>

lemma position_line: "nl \<notin> set pre \<Longrightarrow> position (\<lambda>b. b = nl) (pre @ nl # rest) = Some (length pre)"
  by (induction pre) auto

lemma cat_transform_line:
  assumes "nl \<notin> set pre"
  shows "cat_transform (pre @ nl # rest) fl st out =
    (let (st1, tx) = cat_line fl st pre True in cat_transform rest fl st1 (out @ tx))"
  using position_line [OF assms, of rest] by (subst cat_transform.simps) (simp add: Let_def split: prod.split)

lemma cat_transform_last:
  assumes "nl \<notin> set pre" "pre \<noteq> []"
  shows "cat_transform pre fl st out = (let (st1, tx) = cat_line fl st pre False in (st1, out @ tx))"
proof -
  have "position (\<lambda>b. b = nl) pre = None" using assms(1) by (auto simp: position_None)
  then show ?thesis
    using assms(2) by (subst cat_transform.simps) (simp add: Let_def cat_transform.simps [of "[]"] split: prod.split)
qed

lemma cat_transform_Nil [simp]: "cat_transform [] fl st out = (st, out)"
  by (simp add: cat_transform.simps)

lemma cat_transform_out: "cat_transform data fl st out = (let (st1, tx) = cat_transform data fl st [] in (st1, out @ tx))"
proof (induction data arbitrary: st out rule: lines_induct)
  case (line pre rest)
  obtain st1 tx where c: "cat_line fl st pre True = (st1, tx)" by fastforce
  show ?case
    using line.IH [of st1 "out @ tx"] line.IH [of st1 tx]
    by (simp add: cat_transform_line [OF line.hyps] c Let_def split: prod.split)
qed (simp_all add: cat_transform_last Let_def split: prod.split)

text \<open>Line by line is the same as all at once: the numbering and the blank runs carry over.\<close>

lemma cat_lines:
  assumes "short_lines data" "cat_transform data fl st [] = (st1, tx)"
  shows "run_lines (cat_body fl) (st, open_sink a) (lines_of data) = ((st1, open_sink (a @ tx)), Ok ())"
  using assms
proof (induction data arbitrary: st a tx rule: lines_induct)
  case (unterminated pre)
  then show ?case by (simp add: lines_of_last short_lines_def cat_body_def)
next
  case (line pre rest)
  obtain st2 t2 where c: "cat_line fl st pre True = (st2, t2)" by fastforce
  obtain t3 where t: "cat_transform rest fl st2 [] = (st1, t3)" "tx = t2 @ t3"
    using line.prems(2) cat_transform_out [of rest fl st2 t2] c
    by (auto simp: cat_transform_line [OF line.hyps] Let_def split: prod.splits)
  have "cat_transform (pre @ [nl]) fl st [] = (st2, t2)" by (simp add: cat_transform_line [OF line.hyps] c)
  then show ?case
    using line.IH [OF _ t(1), of "a @ t2"] line.prems(1) line.hyps
    by (simp add: lines_of_line cat_body_def t(2) Let_def not_less Suc_le_eq)
qed simp

subsection \<open>wc\<close>

text \<open>A word starts at a byte that is not white space and follows white space or nothing.\<close>

definition word_starts :: "byte list \<Rightarrow> nat" where
  "word_starts data = length (filter (\<lambda>(p, b). is_ascii_whitespace p \<and> \<not> is_ascii_whitespace b) (zip (32 # data) data))"

lemma count_bytes_append:
  "count_bytes (xs @ ys) c w = (let (c1, w1) = count_bytes xs c w in count_bytes ys c1 w1)"
  by (induction xs c w rule: count_bytes.induct) (auto simp: Let_def)

lemma count_bytes_bytes:
  "count_bytes xs (c\<lparr>cn_bytes := n\<rparr>) w = (let (c1, w1) = count_bytes xs c w in (c1\<lparr>cn_bytes := n\<rparr>, w1))"
proof (induction xs arbitrary: c w)
  case (Cons b bs)
  obtain k l m where c: "c = \<lparr>cn_lines = k, cn_words = l, cn_bytes = m\<rparr>" by (cases c)
  have "count_bytes bs \<lparr>cn_lines = k1, cn_words = l1, cn_bytes = n\<rparr> w1 =
      (let (c1, w1) = count_bytes bs \<lparr>cn_lines = k1, cn_words = l1, cn_bytes = m\<rparr> w1 in (c1\<lparr>cn_bytes := n\<rparr>, w1))" for k1 l1 w1
    using Cons.IH [of "\<lparr>cn_lines = k1, cn_words = l1, cn_bytes = m\<rparr>" w1] by simp
  then show ?case by (simp add: c Let_def)
qed simp

lemma count_bytes_spec:
  "is_ascii_whitespace p \<longleftrightarrow> \<not> w \<Longrightarrow> fst (count_bytes data c w) =
    \<lparr>cn_lines = cn_lines c + count_list data nl,
     cn_words = cn_words c + length (filter (\<lambda>(p, b). is_ascii_whitespace p \<and> \<not> is_ascii_whitespace b) (zip (p # data) data)),
     cn_bytes = cn_bytes c\<rparr>"
proof (induction data c w arbitrary: p rule: count_bytes.induct)
  case (2 b bs c w)
  show ?case
  proof (cases "is_ascii_whitespace b")
    case True
    then show ?thesis using 2(1) [OF refl True, of b] by (auto simp: Let_def)
  next
    case False
    then have "b \<noteq> nl" by (auto simp: is_ascii_whitespace_def)
    then show ?thesis using False 2(2,3) [OF refl False, of b] 2(4) by (auto simp: Let_def)
  qed
qed simp

definition counts_of :: "byte list \<Rightarrow> wc_counts" where
  "counts_of data = \<lparr>cn_lines = count_list data nl, cn_words = word_starts data, cn_bytes = length data\<rparr>"

subsection \<open>tail\<close>

definition lastn :: "nat \<Rightarrow> 'a list \<Rightarrow> 'a list" where
  "lastn n xs = drop (length xs - n) xs"

lemma lastn_snoc: "lastn (Suc n) (xs @ [x]) = lastn n xs @ [x]"
  by (simp add: lastn_def)

lemma lastn_step: "0 < n \<Longrightarrow> lastn n (xs @ [x]) = (if length xs < n then xs else drop 1 (lastn n xs)) @ [x]"
proof (cases n)
  case (Suc k)
  then have "\<not> length xs < n \<Longrightarrow> length xs - k = Suc (length xs - n)" by simp
  then show ?thesis using Suc by (auto simp: lastn_snoc) (auto simp: lastn_def)
qed simp

lemma length_lastn [simp]: "length (lastn n xs) = min n (length xs)"
  by (simp add: lastn_def)

definition terminated :: "byte list \<Rightarrow> bool" where
  "terminated l \<longleftrightarrow> (\<exists>pre. l = pre @ [nl] \<and> nl \<notin> set pre)"

lemma pop_terminated: "terminated l \<Longrightarrow> pop_line (l @ rest) = rest"
proof -
  have "nl \<notin> set pre \<Longrightarrow> pop_line (pre @ nl # rest) = rest" for pre by (induction pre) auto
  then show "terminated l \<Longrightarrow> pop_line (l @ rest) = rest" by (auto simp: terminated_def)
qed

lemma lines_terminated: "l \<in> set (butlast (lines_of data)) \<Longrightarrow> terminated l"
proof (induction data rule: lines_induct)
  case (line pre rest)
  then show ?case by (auto simp: lines_of_line terminated_def split: if_splits)
qed (simp_all add: lines_of_last)

text \<open>The window never has to hold more than the budget.\<close>

definition window_fits :: "nat \<Rightarrow> nat \<Rightarrow> byte list list \<Rightarrow> bool" where
  "window_fits limit budget ls \<longleftrightarrow> (\<forall>k\<le>length ls. length (concat (lastn limit (take k ls))) \<le> budget)"

definition tail_window :: "nat \<Rightarrow> byte list list \<Rightarrow> byte list \<times> nat" where
  "tail_window limit ls = (concat (lastn limit ls), min limit (length ls))"

lemma tail_body_step:
  assumes "\<forall>l\<in>set old. terminated l" "budget < u64_max"
  shows "tail_body limit budget (tail_window limit old) l =
    (if length (concat (lastn limit (old @ [l]))) \<le> budget then (tail_window limit (old @ [l]), Ok ())
     else (fst (tail_body limit budget (tail_window limit old) l), Err tail_too_large))"
proof (cases "limit = 0")
  case True
  then show ?thesis by (simp add: tail_body_def tail_window_def lastn_def)
next
  case False
  have "pop_line (concat (lastn limit old)) = concat (drop 1 (lastn limit old))" if "limit \<le> length old"
  proof -
    from that False obtain h t where h: "lastn limit old = h # t" by (metis length_lastn list.exhaust list.size(3) min.absorb1)
    then have "h \<in> set old" by (metis in_set_dropD lastn_def list.set_intros(1))
    then show ?thesis using h assms(1) pop_terminated by simp
  qed
  then have win: "(if snd (tail_window limit old) = limit then (pop_line (fst (tail_window limit old)), snd (tail_window limit old) - 1)
      else tail_window limit old) = (concat (if length old < limit then old else drop 1 (lastn limit old)), min (limit - 1) (length old))"
    by (auto simp: tail_window_def lastn_def)
  have cmp: "budget < saturating_add a b \<longleftrightarrow> budget < a + b" for a b using assms(2) by (auto simp: saturating_add_def)
  have fill: "min (limit - 1) (length old) + 1 = min limit (length (old @ [l]))" using False by auto
  show ?thesis
    using False unfolding tail_body_def win cmp
    by (auto simp: lastn_step fill tail_window_def [of limit "old @ [l]"] simp del: One_nat_def)
qed

lemma run_tail_lines:
  assumes "\<forall>l\<in>set (old @ butlast ls). terminated l" "\<forall>l\<in>set ls. length l \<le> max_stream_line_bytes" "budget < u64_max"
    "\<forall>k\<le>length old. length (concat (lastn limit (take k old))) \<le> budget"
  shows "if window_fits limit budget (old @ ls)
    then run_lines (tail_body limit budget) (tail_window limit old) ls = (tail_window limit (old @ ls), Ok ())
    else snd (run_lines (tail_body limit budget) (tail_window limit old) ls) = Err tail_too_large"
  using assms
proof (induction ls arbitrary: old)
  case Nil
  then show ?case by (simp add: window_fits_def)
next
  case (Cons l ls)
  have old: "\<forall>l\<in>set old. terminated l" using Cons.prems(1) by simp
  note step = tail_body_step [OF old Cons.prems(3), of limit l]
  show ?case
  proof (cases "length (concat (lastn limit (old @ [l]))) \<le> budget")
    case True
    have "\<forall>k\<le>length (old @ [l]). length (concat (lastn limit (take k (old @ [l])))) \<le> budget"
      using Cons.prems(4) True by (auto simp: le_Suc_eq)
    moreover have "\<forall>x\<in>set ((old @ [l]) @ butlast ls). terminated x \<or> ls = []" using Cons.prems(1) by auto
    ultimately show ?thesis
      using Cons.IH [of "old @ [l]"] Cons.prems(2,3) step True
      by (cases "ls = []") (auto simp: window_fits_def)
  next
    case False
    have "\<not> window_fits limit budget (old @ l # ls)"
      using False by (auto simp: window_fits_def intro!: exI [of _ "Suc (length old)"])
    moreover have "snd (tail_body limit budget (tail_window limit old) l) = Err tail_too_large"
      by (subst step) (simp add: False)
    ultimately show ?thesis using Cons.prems(2) by (auto split: prod.split)
  qed
qed

lemma run_from:
  "\<forall>l\<in>set ls. length l \<le> max_stream_line_bytes \<Longrightarrow>
    run_lines (from_body start) (n, open_sink a) ls = ((n + length ls, open_sink (a @ concat (drop (start - n) ls))), Ok ())"
proof (induction ls arbitrary: n a)
  case (Cons l ls)
  show ?case
  proof (cases "start \<le> n")
    case True
    then show ?thesis using Cons by (simp add: from_body_def)
  next
    case False
    then have "start - n = Suc (start - Suc n)" by simp
    then show ?thesis using Cons False by (simp add: from_body_def)
  qed
qed simp

subsection \<open>Readers over any source\<close>

context byte_source
begin

lemma cat_copy_spec: "holds r data \<Longrightarrow> \<exists>r1. cat_copy rd r (open_sink a) = Some (r1, open_sink (a @ data), Ok ())"
proof (induction "length data" arbitrary: r data a rule: less_induct)
  case less
  obtain r1 c data1 where c: "rd r (64 * 1024) = (r1, Ok c)" "data = c @ data1" "holds r1 data1" "c = [] \<Longrightarrow> data1 = []"
    using read_cases [OF less.prems, of "64 * 1024"] by (metis mult_pos_pos zero_less_numeral)
  show ?case
  proof (cases "c = []")
    case True
    then show ?thesis using c by (subst cat_copy.simps) simp
  next
    case False
    then have "length data1 < length data" using c(2) by simp
    from less.hyps [OF this c(3), of "a @ c"] show ?thesis
      using c(1,2) False by (subst cat_copy.simps) simp
  qed
qed

lemma counts_loop_spec:
  "holds r data \<Longrightarrow> \<exists>r1. counts_loop rd r c w = Some (r1, Ok (fst (count_bytes data (c\<lparr>cn_bytes := cn_bytes c + length data\<rparr>) w)))"
proof (induction "length data" arbitrary: r data c w rule: less_induct)
  case less
  obtain r1 bs data1 where b: "rd r (64 * 1024) = (r1, Ok bs)" "data = bs @ data1" "holds r1 data1" "bs = [] \<Longrightarrow> data1 = []"
    using read_cases [OF less.prems, of "64 * 1024"] by (metis mult_pos_pos zero_less_numeral)
  show ?case
  proof (cases "bs = []")
    case True
    then show ?thesis using b by (subst counts_loop.simps) simp
  next
    case False
    then have shorter: "length data1 < length data" using b(2) by simp
    obtain c1 w1 where cb: "count_bytes bs c w = (c1, w1)" by fastforce
    have "\<exists>r2. counts_loop rd r1 (c1\<lparr>cn_bytes := cn_bytes c + length bs\<rparr>) w1 = Some (r2, Ok (fst
        (count_bytes data1 (c1\<lparr>cn_bytes := cn_bytes c + length bs + length data1\<rparr>) w1)))"
      using less.hyps [OF shorter b(3), of "c1\<lparr>cn_bytes := cn_bytes c + length bs\<rparr>" w1] by simp
    then show ?thesis
      using b(1,2) False cb
      by (subst counts_loop.simps) (simp add: count_bytes_bytes count_bytes_append Let_def add.assoc)
  qed
qed

lemma counts_reader_spec: "holds r data \<Longrightarrow> \<exists>r1. counts_reader rd r = Some (r1, Ok (counts_of data))"
  using counts_loop_spec [of r data counts_default False]
    count_bytes_spec [of 32 False data "counts_default\<lparr>cn_bytes := length data\<rparr>"]
  by (simp add: counts_reader_def counts_of_def word_starts_def counts_default_def is_ascii_whitespace_def)

lemma head_loop_buffered:
  assumes "buffer_ok b" "holds r data" "lb_eof b \<longrightarrow> data = []"
  shows "\<exists>rb. head_loop rd n r b out = (rb, run_lines write_all out (take n (lines_of (unread b @ data))))"
  using assms
proof (induction n arbitrary: r b data out)
  case (Suc n)
  show ?case
  proof (cases "lines_of (unread b @ data)")
    case Nil
    then have "unread b @ data = []" by (metis lines_of_eq_Nil)
    moreover from this obtain r1 b1 where "read_line rd r b = ((r1, b1), Ok None)"
      using read_line_stops [OF Suc.prems] by auto
    ultimately show ?thesis by simp
  next
    case (Cons l ls)
    show ?thesis
    proof (cases "length l \<le> max_stream_line_bytes")
      case True
      obtain r1 b1 data1 where rl: "read_line rd r b = ((r1, b1), Ok (Some l))" "buffer_ok b1" "holds r1 data1"
        "lb_eof b1 \<longrightarrow> data1 = []" "lines_of (unread b1 @ data1) = ls"
        by (rule read_line_spec [OF Suc.prems Cons True])
      obtain o1 res where "write_all out l = (o1, res)" by fastforce
      then show ?thesis using Suc.IH [OF rl(2-4), of o1] True rl(1,5) Cons by (auto split: sum.split)
    next
      case False
      then obtain r1 b1 where "read_line rd r b = ((r1, b1), Err line_too_long_error)"
        using read_line_stops [OF Suc.prems] Cons
        by (metis (mono_tags) leI lines_of_eq_Nil list.distinct(1) list.simps(5))
      with False Cons show ?thesis by simp
    qed
  qed
qed simp

lemma head_loop_spec:
  "holds r data \<Longrightarrow> \<exists>rb. head_loop rd n r line_buffer_default out = (rb, run_lines write_all out (take n (lines_of data)))"
  using head_loop_buffered [of line_buffer_default r data n out] by simp

end

end
