(* ===== verification/Builtin_Words.thy ===== *)
theory Builtin_Words
  imports Builtin_Text
begin

text \<open>
  The text builtins that decode their input (\<open>src/sandbox/builtins.rs\<close>): the escapes of
  \<open>echo\<close>, the readers of \<open>grep\<close>, \<open>uniq\<close> and \<open>sed\<close>, the script of \<open>sed\<close> and the input checks of \<open>jq\<close>.
  The regular expression engine is a library: a compiled expression is what it answers, whether a
  line matches and which pieces of it were captured where.
\<close>

subsection \<open>Decoding\<close>

definition is_cont :: "byte \<Rightarrow> bool" where
  "is_cont b \<longleftrightarrow> 128 \<le> b \<and> b < 192"

text \<open>The second byte allowed after a lead byte, which excludes overlong forms and surrogates.\<close>

definition second_ok :: "byte \<Rightarrow> byte \<Rightarrow> bool" where
  "second_ok a b \<longleftrightarrow>
     (if a = 224 then 160 \<le> b \<and> b < 192 else if a = 237 then 128 \<le> b \<and> b < 160
      else if a = 240 then 144 \<le> b \<and> b < 192 else if a = 244 then 128 \<le> b \<and> b < 144 else is_cont b)"

abbreviation replacement_character :: rchar where
  "replacement_character \<equiv> 65533"

definition cont_bits :: "byte \<Rightarrow> nat" where
  "cont_bits b = unat b - 128"

text \<open>\<open>String::from_utf8_lossy\<close>: a maximal invalid prefix of a character is one replacement.\<close>

function from_utf8_lossy :: "byte list \<Rightarrow> rstr" where
  "from_utf8_lossy [] = []"
| "from_utf8_lossy (a # xs) =
     (if a < 128 then unat a # from_utf8_lossy xs
      else if 194 \<le> a \<and> a < 224 then
        (case xs of
           b # ys \<Rightarrow> if is_cont b then ((unat a - 192) * 64 + cont_bits b) # from_utf8_lossy ys
             else replacement_character # from_utf8_lossy xs
         | [] \<Rightarrow> [replacement_character])
      else if 224 \<le> a \<and> a < 240 then
        (case xs of
           b # ys \<Rightarrow>
             if \<not> second_ok a b then replacement_character # from_utf8_lossy xs
             else
               (case ys of
                  c # zs \<Rightarrow>
                    if is_cont c
                    then ((unat a - 224) * 4096 + cont_bits b * 64 + cont_bits c) # from_utf8_lossy zs
                    else replacement_character # from_utf8_lossy ys
                | [] \<Rightarrow> [replacement_character])
         | [] \<Rightarrow> [replacement_character])
      else if 240 \<le> a \<and> a < 245 then
        (case xs of
           b # ys \<Rightarrow>
             if \<not> second_ok a b then replacement_character # from_utf8_lossy xs
             else
               (case ys of
                  c # zs \<Rightarrow>
                    if \<not> is_cont c then replacement_character # from_utf8_lossy ys
                    else
                      (case zs of
                         d # ds \<Rightarrow>
                           if is_cont d
                           then ((unat a - 240) * 262144 + cont_bits b * 4096 + cont_bits c * 64 + cont_bits d) # from_utf8_lossy ds
                           else replacement_character # from_utf8_lossy zs
                       | [] \<Rightarrow> [replacement_character])
                | [] \<Rightarrow> [replacement_character])
         | [] \<Rightarrow> [replacement_character])
      else replacement_character # from_utf8_lossy xs)"
  by pat_completeness auto

termination
  by (relation "measure length") auto

declare from_utf8_lossy.simps(2) [simp del]

text \<open>\<open>strip_suffix\<close> with a character, keeping a string that does not end in it.\<close>

definition strip_last :: "rchar \<Rightarrow> rstr \<Rightarrow> rstr" where
  "strip_last c s = (if s \<noteq> [] \<and> last s = c then butlast s else s)"

definition line_text_lossy :: "byte list \<Rightarrow> rstr" where
  "line_text_lossy line = strip_last 13 (strip_last 10 (from_utf8_lossy line))"

subsection \<open>echo\<close>

text \<open>\<open>char::to_digit\<close> and \<open>char::from_u32\<close>.\<close>

definition to_digit :: "nat \<Rightarrow> rchar \<Rightarrow> nat option" where
  "to_digit radix c =
     (let d = (if 48 \<le> c \<and> c \<le> 57 then Some (c - 48) else if 97 \<le> c \<and> c \<le> 122 then Some (c - 87)
               else if 65 \<le> c \<and> c \<le> 90 then Some (c - 55) else None) in
      case d of Some v \<Rightarrow> if v < radix then Some v else None | None \<Rightarrow> None)"

definition char_from_u32 :: "nat \<Rightarrow> rchar option" where
  "char_from_u32 v = (if v < 55296 \<or> (57344 \<le> v \<and> v \<le> 1114111) then Some v else None)"

text \<open>At most \<open>k\<close> digits from the front: their value, their number and what follows.\<close>

fun scan_digits :: "nat \<Rightarrow> nat \<Rightarrow> nat \<Rightarrow> nat \<Rightarrow> rstr \<Rightarrow> nat \<times> nat \<times> rstr" where
  "scan_digits radix 0 v n cs = (v, n, cs)"
| "scan_digits radix (Suc k) v n [] = (v, n, [])"
| "scan_digits radix (Suc k) v n (c # cs) =
     (case to_digit radix c of None \<Rightarrow> (v, n, c # cs) | Some d \<Rightarrow> scan_digits radix k (v * radix + d) (n + 1) cs)"

lemma scan_digits_shorter: "scan_digits radix k v n cs = (v1, n1, cs1) \<Longrightarrow> length cs1 \<le> length cs"
  by (induction radix k v n cs rule: scan_digits.induct) (force split: option.splits)+

definition push_hex_escape :: "rstr \<Rightarrow> rstr \<Rightarrow> nat \<Rightarrow> rchar \<Rightarrow> rstr \<times> rstr" where
  "push_hex_escape out cs width marker =
     (case scan_digits 16 width 0 0 cs of
        (v, n, rest) \<Rightarrow>
          (if n = 0 then out @ [92, marker] else case char_from_u32 v of Some c \<Rightarrow> out @ [c] | None \<Rightarrow> out, rest))"

lemma push_hex_shorter: "push_hex_escape out cs width marker = (out1, cs1) \<Longrightarrow> length cs1 \<le> length cs"
  by (auto simp: push_hex_escape_def dest!: scan_digits_shorter split: prod.splits)

text \<open>The escapes that stand for one character.\<close>

definition simple_escape :: "rchar \<Rightarrow> rchar option" where
  "simple_escape c = map_of [(97, 7), (110, 10), (116, 9), (114, 13), (98, 8), (101, 27), (69, 27), (102, 12), (118, 11), (92, 92)] c"

function expand_escapes :: "rstr \<Rightarrow> rstr \<Rightarrow> rstr \<times> bool" where
  "expand_escapes out [] = (out, False)"
| "expand_escapes out (c # cs) =
     (if c \<noteq> 92 then expand_escapes (out @ [c]) cs
      else case cs of
        [] \<Rightarrow> (out @ [92], False)
      | d # ds \<Rightarrow>
          if d = 48 then
            (case scan_digits 8 3 0 0 ds of
               (v, _, rest) \<Rightarrow> expand_escapes (out @ [case char_from_u32 v of Some u \<Rightarrow> u | None \<Rightarrow> 0]) rest)
          else if d = 120 then
            (case scan_digits 16 2 0 0 ds of
               (v, n, rest) \<Rightarrow>
                 expand_escapes (if n = 0 then out @ [92, 120]
                   else out @ [case char_from_u32 v of Some u \<Rightarrow> u | None \<Rightarrow> 0]) rest)
          else if d = 117 then (case push_hex_escape out ds 4 117 of (out1, rest) \<Rightarrow> expand_escapes out1 rest)
          else if d = 85 then (case push_hex_escape out ds 8 85 of (out1, rest) \<Rightarrow> expand_escapes out1 rest)
          else if d = 99 then (out, True)
          else (case simple_escape d of
             Some u \<Rightarrow> expand_escapes (out @ [u]) ds
           | None \<Rightarrow> expand_escapes (out @ [92, d]) ds))"
  by pat_completeness auto

termination
  by (relation "measure (\<lambda>(out, cs). length cs)")
    (auto split: prod.split dest!: sym [THEN scan_digits_shorter] push_hex_shorter)

declare expand_escapes.simps(2) [simp del]

definition expand_echo_escapes :: "rstr \<Rightarrow> rstr \<times> bool" where
  "expand_echo_escapes s = expand_escapes [] s"

text \<open>The leading option arguments: whether to end with a newline, and whether to expand escapes.\<close>

fun echo_options :: "rstr list \<Rightarrow> bool \<Rightarrow> bool \<Rightarrow> bool \<times> bool \<times> rstr list" where
  "echo_options [] newline escapes = (newline, escapes, [])"
| "echo_options (arg # args) newline escapes =
     (if byte_len arg \<le> 1 \<or> \<not> starts_with arg [45] \<or> \<not> list_all (\<lambda>c. c \<in> {110, 101, 69}) (drop 1 arg)
      then (newline, escapes, arg # args)
      else
        let newline1 = newline \<and> 110 \<notin> set (drop 1 arg);
            escapes1 = foldl (\<lambda>e c. if c = 101 then True else if c = 69 then False else e) escapes (drop 1 arg) in
        echo_options args newline1 escapes1)"

definition echo_text :: "rstr list \<Rightarrow> rstr" where
  "echo_text args =
     (case echo_options args True False of
        (newline, escapes, rest) \<Rightarrow>
          let out = join [32] rest;
              (out1, stop) = (if escapes then expand_echo_escapes out else (out, False)) in
          if newline \<and> \<not> stop then out1 @ [10] else out1)"

subsection \<open>uniq\<close>

definition write_uniq_line :: "sink \<Rightarrow> rstr \<Rightarrow> nat \<Rightarrow> bool \<Rightarrow> bool \<Rightarrow> bool \<Rightarrow> sink \<times> unit io_result" where
  "write_uniq_line out line n show_count repeated unique_only =
     (if repeated \<and> n = 1 then (out, Ok ())
      else if unique_only \<and> n \<noteq> 1 then (out, Ok ())
      else if show_count then write_all out (utf8 (pad_left 7 (show_nat n) @ [32] @ line @ [10]))
      else write_all out (utf8 (line @ [10])))"

type_synonym uniq_state = "(rstr \<times> nat) option \<times> sink"

definition uniq_body :: "bool \<Rightarrow> bool \<Rightarrow> bool \<Rightarrow> uniq_state \<Rightarrow> byte list \<Rightarrow> uniq_state \<times> unit io_result" where
  "uniq_body show_count repeated unique_only x bytes =
     (let line = line_text_lossy bytes in
      case x of
        (Some (old, n), out) \<Rightarrow>
          if old = line then ((Some (old, n + 1), out), Ok ())
          else
            (case write_uniq_line out old n show_count repeated unique_only of
               (out1, Inl f) \<Rightarrow> ((None, out1), Inl f)
             | (out1, Inr _) \<Rightarrow> ((Some (line, 1), out1), Ok ()))
      | (None, out) \<Rightarrow> ((Some (line, 1), out), Ok ()))"

definition uniq_reader ::
  "'r source \<Rightarrow> 'r \<Rightarrow> sink \<Rightarrow> bool \<Rightarrow> bool \<Rightarrow> bool \<Rightarrow> ('r \<times> sink \<times> unit io_result) option" where
  "uniq_reader rd r out show_count repeated unique_only =
     map_option
       (\<lambda>((r1, _), (current, out1), res).
         case res of
           Inl f \<Rightarrow> (r1, out1, Inl f)
         | Inr _ \<Rightarrow>
             (case current of
                None \<Rightarrow> (r1, out1, Ok ())
              | Some (line, n) \<Rightarrow>
                  (case write_uniq_line out1 line n show_count repeated unique_only of (out2, res2) \<Rightarrow> (r1, out2, res2))))
       (while_lines rd (uniq_body show_count repeated unique_only) r line_buffer_default (None, out))"

subsection \<open>grep\<close>

record grep_flags =
  gf_ignore_case :: bool
  gf_invert :: bool
  gf_line_numbers :: bool
  gf_count :: bool
  gf_recursive :: bool

definition grep_prefix :: "rstr \<Rightarrow> bool \<Rightarrow> byte list" where
  "grep_prefix path show_path = (if show_path then utf8 (path @ [58]) else [])"

text \<open>Three writes make an output line; an empty one does nothing.\<close>

fun write_parts :: "sink \<Rightarrow> byte list list \<Rightarrow> sink \<times> unit io_result" where
  "write_parts out [] = (out, Ok ())"
| "write_parts out (p # ps) =
     (case write_all out p of (out1, Inl f) \<Rightarrow> (out1, Inl f) | (out1, Inr _) \<Rightarrow> write_parts out1 ps)"

definition grep_body ::
  "(rstr \<Rightarrow> bool) \<Rightarrow> grep_flags \<Rightarrow> rstr \<Rightarrow> bool \<Rightarrow> (nat \<times> nat) \<times> sink \<Rightarrow> byte list \<Rightarrow> ((nat \<times> nat) \<times> sink) \<times> unit io_result" where
  "grep_body is_match fl path show_path x bytes =
     (case x of ((matched, line_no), out) \<Rightarrow>
        let line = line_text_lossy bytes in
        if is_match line = gf_invert fl then (((matched, line_no + 1), out), Ok ())
        else if gf_count fl then (((matched + 1, line_no + 1), out), Ok ())
        else
          (case write_parts out
                  [grep_prefix path show_path,
                   if gf_line_numbers fl then utf8 (show_nat (line_no + 1) @ [58]) else [],
                   utf8 (line @ [10])] of
             (out1, res) \<Rightarrow> (((matched + 1, line_no + 1), out1), res)))"

definition grep_reader ::
  "(rstr \<Rightarrow> bool) \<Rightarrow> 'r source \<Rightarrow> 'r \<Rightarrow> sink \<Rightarrow> rstr \<Rightarrow> grep_flags \<Rightarrow> bool \<Rightarrow> ('r \<times> sink \<times> bool io_result) option" where
  "grep_reader is_match rd r out path fl show_path =
     map_option
       (\<lambda>((r1, _), ((matched, _), out1), res).
         case res of
           Inl f \<Rightarrow> (r1, out1, Inl f)
         | Inr _ \<Rightarrow>
             (case (if gf_count fl then write_parts out1 [grep_prefix path show_path, utf8 (show_nat matched @ [10])]
                    else (out1, Ok ())) of
                (out2, Inl f) \<Rightarrow> (r1, out2, Inl f)
              | (out2, Inr _) \<Rightarrow> (r1, out2, Ok (0 < matched))))
       (while_lines rd (grep_body is_match fl path show_path) r line_buffer_default ((0, 0), out))"

subsection \<open>sed\<close>

record sed_substitution =
  ss_pattern :: rstr
  ss_replacement :: rstr
  ss_global :: bool
  ss_ignore_case :: bool

fun sed_parts :: "rchar \<Rightarrow> rstr list \<Rightarrow> rstr \<Rightarrow> rstr \<Rightarrow> rstr list \<times> rstr" where
  "sed_parts delimiter parts current [] = (parts, current)"
| "sed_parts delimiter parts current [c] =
     (if c = 92 then (parts, current @ [92])
      else if c = delimiter \<and> length parts < 2 then (parts @ [current], []) else (parts, current @ [c]))"
| "sed_parts delimiter parts current (c # d # cs) =
     (if c = 92 then
        if d = delimiter then sed_parts delimiter parts (current @ [delimiter]) cs
        else sed_parts delimiter parts (current @ [92]) (d # cs)
      else if c = delimiter \<and> length parts < 2 then sed_parts delimiter (parts @ [current]) [] (d # cs)
      else sed_parts delimiter parts (current @ [c]) (d # cs))"

definition split_sed_parts :: "rstr \<Rightarrow> rchar \<Rightarrow> (rstr \<times> rstr \<times> rstr) option" where
  "split_sed_parts input delimiter =
     (case sed_parts delimiter [] [] input of ([a, b], current) \<Rightarrow> Some (a, b, current) | _ \<Rightarrow> None)"

definition parse_sed_substitution :: "rstr \<Rightarrow> sed_substitution option" where
  "parse_sed_substitution script =
     (case script of
        c # delimiter # rest \<Rightarrow>
          if c \<noteq> 115 then None
          else
            (case split_sed_parts rest delimiter of
               None \<Rightarrow> None
             | Some (pattern, replacement, flags) \<Rightarrow>
                 if list_ex (\<lambda>fl. fl \<noteq> 103 \<and> fl \<noteq> 105) flags then None
                 else Some \<lparr>ss_pattern = pattern, ss_replacement = replacement,
                   ss_global = (103 \<in> set flags), ss_ignore_case = (105 \<in> set flags)\<rparr>)
      | _ \<Rightarrow> None)"

fun validate_sed_replacement :: "rstr \<Rightarrow> nat \<Rightarrow> (nat, unit) outcome" where
  "validate_sed_replacement [] captures_len = Ok ()"
| "validate_sed_replacement [c] captures_len = Ok ()"
| "validate_sed_replacement (c # d # cs) captures_len =
     (if c \<noteq> 92 then validate_sed_replacement (d # cs) captures_len
      else if 49 \<le> d \<and> d \<le> 57 \<and> captures_len \<le> d - 48 then Err (d - 48)
      else validate_sed_replacement cs captures_len)"

text \<open>\<open>write_sed_piece\<close> writes chunks of the stream size.\<close>

function write_sed_piece :: "sink \<Rightarrow> byte list \<Rightarrow> sink \<times> unit io_result" where
  "write_sed_piece out bytes =
     (if bytes = [] then (out, Ok ())
      else (case write_all out (take stream_chunk_bytes bytes) of
          (out1, Inl f) \<Rightarrow> (out1, Inl f)
        | (out1, Inr _) \<Rightarrow> write_sed_piece out1 (drop stream_chunk_bytes bytes)))"
  by pat_completeness auto

termination
  by (relation "measure (\<lambda>(out, bytes). length bytes)") (auto simp: stream_chunk_bytes_def)

declare write_sed_piece.simps [simp del]

text \<open>A match: where it starts and ends, in bytes of the line, and the text of each group.\<close>

record sed_match =
  sm_start :: nat
  sm_end :: nat
  sm_groups :: "rstr option list"

definition sed_group :: "sed_match \<Rightarrow> nat \<Rightarrow> rstr option" where
  "sed_group m i = (if i < length (sm_groups m) then sm_groups m ! i else None)"

function write_sed_replacement :: "sink \<Rightarrow> rstr \<Rightarrow> sed_match \<Rightarrow> sink \<times> unit io_result" where
  "write_sed_replacement out replacement m =
     (let plain = takeWhile (\<lambda>c. c \<noteq> 38 \<and> c \<noteq> 92) replacement;
          rest = dropWhile (\<lambda>c. c \<noteq> 38 \<and> c \<noteq> 92) replacement;
          group = (\<lambda>k g. case g of None \<Rightarrow> (k, Ok ()) | Some t \<Rightarrow> write_sed_piece k (utf8 t)) in
      case write_sed_piece out (utf8 plain) of
        (out1, Inl f) \<Rightarrow> (out1, Inl f)
      | (out1, Inr _) \<Rightarrow>
          (case rest of
             [] \<Rightarrow> (out1, Ok ())
           | c # after \<Rightarrow>
               if c = 38 then
                 (case group out1 (sed_group m 0) of
                    (out2, Inl f) \<Rightarrow> (out2, Inl f) | (out2, Inr _) \<Rightarrow> write_sed_replacement out2 after m)
               else
                 (case after of
                    [] \<Rightarrow> write_all out1 [92]
                  | d # ds \<Rightarrow>
                      (case (if d = 110 then write_all out1 [10] else if d = 116 then write_all out1 [9]
                             else if 49 \<le> d \<and> d \<le> 57 then group out1 (sed_group m (d - 48))
                             else write_all out1 (utf8 [d])) of
                         (out2, Inl f) \<Rightarrow> (out2, Inl f)
                       | (out2, Inr _) \<Rightarrow> write_sed_replacement out2 ds m))))"
  by pat_completeness auto

termination
proof -
  have "length (dropWhile P xs) \<le> length xs" for P and xs :: rstr by (rule length_dropWhile_le)
  then have "c # r = dropWhile P xs \<Longrightarrow> length r < length xs" "c # d # r = dropWhile P xs \<Longrightarrow> length r < length xs"
    for c d r P and xs :: rstr by (metis Suc_le_lessD length_Cons Suc_lessD)+
  then show ?thesis
    by (relation "measure (\<lambda>(out, replacement, m). length replacement)") (auto dest!: sym [of _ "dropWhile _ _"])
qed

declare write_sed_replacement.simps [simp del]

text \<open>\<open>&bytes[a..b]\<close> panics out of range.\<close>

definition sub_bytes :: "byte list \<Rightarrow> nat \<Rightarrow> nat \<Rightarrow> byte list io_result" where
  "sub_bytes xs a b = (if a \<le> b \<and> b \<le> length xs then Ok (drop a (take b xs)) else Inl Panic)"

fun sed_matches ::
  "sed_substitution \<Rightarrow> byte list \<Rightarrow> sink \<Rightarrow> nat \<Rightarrow> sed_match list \<Rightarrow> (sink \<times> nat) \<times> unit io_result" where
  "sed_matches sub body out copied [] = ((out, copied), Ok ())"
| "sed_matches sub body out copied (m # ms) =
     (case sub_bytes body copied (sm_start m) of
        Inl f \<Rightarrow> ((out, copied), Inl f)
      | Inr piece \<Rightarrow>
          (case write_sed_piece out piece of
             (out1, Inl f) \<Rightarrow> ((out1, copied), Inl f)
           | (out1, Inr _) \<Rightarrow>
               (case write_sed_replacement out1 (ss_replacement sub) m of
                  (out2, Inl f) \<Rightarrow> ((out2, copied), Inl f)
                | (out2, Inr _) \<Rightarrow>
                    if \<not> ss_global sub then ((out2, sm_end m), Ok ())
                    else sed_matches sub body out2 (sm_end m) ms)))"

definition sed_body ::
  "(rstr \<Rightarrow> sed_match list) \<Rightarrow> sed_substitution \<Rightarrow> sink \<Rightarrow> byte list \<Rightarrow> sink \<times> unit io_result" where
  "sed_body captures_iter sub out bytes =
     (let line = from_utf8_lossy bytes; body = strip_last 10 line; raw = utf8 body in
      case sed_matches sub raw out 0 (captures_iter body) of
        ((out1, copied), Inl f) \<Rightarrow> (out1, Inl f)
      | ((out1, copied), Inr _) \<Rightarrow>
          (case sub_bytes raw copied (length raw) of
             Inl f \<Rightarrow> (out1, Inl f)
           | Inr piece \<Rightarrow>
               (case write_sed_piece out1 piece of
                  (out2, Inl f) \<Rightarrow> (out2, Inl f)
                | (out2, Inr _) \<Rightarrow> write_all out2 (if body = line then [] else [nl]))))"

definition sed_reader ::
  "(rstr \<Rightarrow> sed_match list) \<Rightarrow> 'r source \<Rightarrow> 'r \<Rightarrow> sink \<Rightarrow> sed_substitution \<Rightarrow> ('r \<times> sink \<times> unit io_result) option" where
  "sed_reader captures_iter rd r out sub =
     map_option (\<lambda>((r1, _), x). (r1, x)) (while_lines rd (sed_body captures_iter sub) r line_buffer_default out)"

subsection \<open>jq input\<close>

definition max_jq_json_nesting :: nat where
  "max_jq_json_nesting = 1024"

record json_scan =
  js_depth :: nat
  js_in_string :: bool
  js_escaped :: bool
  js_in_comment :: bool

text \<open>One byte; \<open>None\<close> when the depth is exceeded.\<close>

definition json_step :: "json_scan \<Rightarrow> byte \<Rightarrow> json_scan option" where
  "json_step s b =
     (if js_in_comment s then Some (if b = 10 then s\<lparr>js_in_comment := False\<rparr> else s)
      else if js_in_string s then
        Some (if js_escaped s then s\<lparr>js_escaped := False\<rparr>
              else if b = 92 then s\<lparr>js_escaped := True\<rparr>
              else if b = 34 then s\<lparr>js_in_string := False\<rparr> else s)
      else if b = 34 then Some (s\<lparr>js_in_string := True\<rparr>)
      else if b = 35 then Some (s\<lparr>js_in_comment := True\<rparr>)
      else if b = 91 \<or> b = 123 then
        if max_jq_json_nesting < js_depth s + 1 then None else Some (s\<lparr>js_depth := js_depth s + 1\<rparr>)
      else if b = 93 \<or> b = 125 then Some (s\<lparr>js_depth := js_depth s - 1\<rparr>)
      else Some s)"

fun json_scan_all :: "json_scan \<Rightarrow> byte list \<Rightarrow> json_scan option" where
  "json_scan_all s [] = Some s"
| "json_scan_all s (b # bs) = (case json_step s b of None \<Rightarrow> None | Some s1 \<Rightarrow> json_scan_all s1 bs)"

definition validate_jq_json_nesting :: "byte list \<Rightarrow> bool" where
  "validate_jq_json_nesting data \<longleftrightarrow>
     json_scan_all \<lparr>js_depth = 0, js_in_string = False, js_escaped = False, js_in_comment = False\<rparr> data \<noteq> None"

function read_jq_reader :: "'r source \<Rightarrow> 'r \<Rightarrow> nat \<Rightarrow> nat \<Rightarrow> byte list \<Rightarrow> 'r \<times> nat \<times> byte list io_result" where
  "read_jq_reader rd r limit sofar input =
     (case rd r (64 * 1024) of
        (r1, Inl f) \<Rightarrow> (r1, sofar, Inl f)
      | (r1, Inr bytes) \<Rightarrow>
          if bytes = [] then (r1, sofar, Ok input)
          else if limit < saturating_add sofar (length bytes) then
            (r1, sofar, Err (InvalidData (rs ''input too large for tinysandbox jq'')))
          else
            (case uadd sofar (length bytes) of
               Inl f \<Rightarrow> (r1, sofar, Inl f)
             | Inr nxt \<Rightarrow> read_jq_reader rd r1 limit nxt (input @ bytes)))"
  by pat_completeness auto

termination
proof (relation "measure (\<lambda>(rd, r, limit, sofar, input). u64_max - sofar)", goal_cases)
  case (2 rd r limit sofar input p r1 bytes nxt)
  then show ?case by (cases bytes) (auto simp: uadd_def split: if_splits)
qed simp

declare read_jq_reader.simps [simp del]

end
