(* ===== verification/Builtin_Commands.thy ===== *)
theory Builtin_Commands
  imports Builtin_Files Builtin_Words
begin

text \<open>
  The builtin commands (\<open>src/sandbox/builtins.rs\<close>), from their arguments to their exit code. A command
  runs on the world, its standard input and its two output sinks; no other stage acts between its
  awaits. \<open>None\<close> is a run that does not end.
\<close>

datatype input = StdinInput | FileInput stream_reader

type_synonym 's feed = "('s world \<times> byte list io_result list) \<times> input"

definition feed_read :: "'s vfs_ops \<Rightarrow> fs_facade \<Rightarrow> 's feed source" where
  "feed_read ops f r n =
     (case r of
        ((w, cs), StdinInput) \<Rightarrow> (case chunk_read cs n of (cs1, res) \<Rightarrow> (((w, cs1), StdinInput), res))
      | ((w, cs), FileInput rd) \<Rightarrow>
          (case file_read ops f (w, rd) n of ((w1, rd1), res) \<Rightarrow> (((w1, cs), FileInput rd1), res)))"

record 's builtin_run =
  bn_world :: "'s world"
  bn_stdin :: "byte list io_result list"
  bn_stdout :: sink
  bn_stderr :: sink

type_synonym 's command_end = "'s builtin_run \<times> (unit, int) outcome"

text \<open>\<open>let _ = write_all(...)\<close>: a failing write is ignored.\<close>

definition tell_err :: "'s builtin_run \<Rightarrow> rstr \<Rightarrow> 's builtin_run" where
  "tell_err st t = st\<lparr>bn_stderr := fst (write_all (bn_stderr st) (utf8 t))\<rparr>"

definition tell_out :: "'s builtin_run \<Rightarrow> rstr \<Rightarrow> 's builtin_run" where
  "tell_out st t = st\<lparr>bn_stdout := fst (write_all (bn_stdout st) (utf8 t))\<rparr>"

definition print_or_fail :: "'s builtin_run \<Rightarrow> rstr \<Rightarrow> 's command_end" where
  "print_or_fail st t =
     (case write_all (bn_stdout st) (utf8 t) of (out, res) \<Rightarrow> (st\<lparr>bn_stdout := out\<rparr>, Ok (if is_ok res then 0 else 1)))"

definition unsupported_with_code :: "rstr \<Rightarrow> rstr \<Rightarrow> 's builtin_run \<Rightarrow> int \<Rightarrow> 's command_end" where
  "unsupported_with_code cmd flag st code =
     (tell_err st (cmd @ rs '': unsupported option '' @ [39] @ flag @ [39, 10]), Ok code)"

definition unsupported :: "rstr \<Rightarrow> rstr \<Rightarrow> 's builtin_run \<Rightarrow> 's command_end" where
  "unsupported cmd flag st = unsupported_with_code cmd flag st 1"

definition is_flag :: "rstr \<Rightarrow> bool" where
  "is_flag arg \<longleftrightarrow> starts_with arg [45] \<and> arg \<noteq> [45]"

definition unsupported_flag :: "rstr list \<Rightarrow> rstr option" where
  "unsupported_flag args = find is_flag args"

definition write_vfs_error :: "'s builtin_run \<Rightarrow> rstr \<Rightarrow> rstr \<Rightarrow> errno \<Rightarrow> 's builtin_run" where
  "write_vfs_error st cmd path e = tell_err st (cmd @ rs '': '' @ path @ rs '': '' @ errno_message e @ [10])"

fun io_error_to_vfs :: "io_fault \<Rightarrow> errno option" where
  "io_error_to_vfs Disconnected = None"
| "io_error_to_vfs (OtherFault (Some e)) = Some e"
| "io_error_to_vfs _ = Some EINVAL"

definition report_stream_error :: "'s builtin_run \<Rightarrow> rstr \<Rightarrow> rstr \<Rightarrow> io_fault \<Rightarrow> 's builtin_run \<times> bool" where
  "report_stream_error st cmd path err =
     (case err of
        Disconnected \<Rightarrow> (st, False)
      | InvalidData m \<Rightarrow> (tell_err st (cmd @ rs '': '' @ path @ rs '': '' @ m @ [10]), True)
      | _ \<Rightarrow> (case io_error_to_vfs err of Some e \<Rightarrow> (write_vfs_error st cmd path e, True) | None \<Rightarrow> (st, False)))"

text \<open>
  The flag loop the commands share: every character of a flag argument is one flag, and the first
  unknown one ends the command.
\<close>

fun flag_chars :: "(rchar \<Rightarrow> 'a \<Rightarrow> 'a option) \<Rightarrow> rstr \<Rightarrow> 'a \<Rightarrow> (rchar, 'a) outcome" where
  "flag_chars set_flag [] fl = Ok fl"
| "flag_chars set_flag (c # cs) fl =
     (case set_flag c fl of None \<Rightarrow> Err c | Some fl1 \<Rightarrow> flag_chars set_flag cs fl1)"

fun parse_flags :: "(rchar \<Rightarrow> 'a \<Rightarrow> 'a option) \<Rightarrow> rstr list \<Rightarrow> 'a \<Rightarrow> rstr list \<Rightarrow> (rchar, 'a \<times> rstr list) outcome" where
  "parse_flags set_flag [] fl paths = Ok (fl, paths)"
| "parse_flags set_flag (arg # args) fl paths =
     (if is_flag arg
      then obind (flag_chars set_flag (drop 1 arg) fl) (\<lambda>fl1. parse_flags set_flag args fl1 paths)
      else parse_flags set_flag args fl (paths @ [arg]))"

definition with_flags ::
  "rstr \<Rightarrow> int \<Rightarrow> (rchar \<Rightarrow> 'a \<Rightarrow> 'a option) \<Rightarrow> 'a \<Rightarrow> rstr list \<Rightarrow> 's builtin_run
   \<Rightarrow> ('a \<Rightarrow> rstr list \<Rightarrow> 's command_end option) \<Rightarrow> 's command_end option" where
  "with_flags cmd code set_flag fl args st k =
     (case parse_flags set_flag args fl [] of
        Inr (fl1, paths) \<Rightarrow> k fl1 paths
      | Inl (Errno c) \<Rightarrow> Some (unsupported_with_code cmd [45, c] st code)
      | Inl Panic \<Rightarrow> Some (st, Inl Panic))"

text \<open>
  A reader over standard input for the path \<open>-\<close> and over a stream of the file otherwise, which is
  closed when the reader is dropped. The error is the one of the opening.
\<close>

definition drop_input :: "'s vfs_ops \<Rightarrow> 's world \<Rightarrow> fs_facade \<Rightarrow> input \<Rightarrow> 's world" where
  "drop_input ops w f inp =
     (case inp of StdinInput \<Rightarrow> w | FileInput rd \<Rightarrow> fst (close_handle ops w f rd))"

definition with_input ::
  "'s vfs_ops \<Rightarrow> fs_facade \<Rightarrow> 's builtin_run \<Rightarrow> rstr \<Rightarrow> ('s feed \<Rightarrow> ('s feed \<times> 'y) option)
   \<Rightarrow> ('s builtin_run \<times> 'y vres) option" where
  "with_input ops f st path run =
     (if path = rs ''-'' then
        map_option (\<lambda>(((w, cs), _), y). (st\<lparr>bn_world := w, bn_stdin := cs\<rparr>, Ok y))
          (run ((bn_world st, bn_stdin st), StdinInput))
      else
        (case fs_open ops (bn_world st) f path om_read_only of
           (w1, Inl e) \<Rightarrow> Some (st\<lparr>bn_world := w1\<rparr>, Inl e)
         | (w1, Inr h) \<Rightarrow>
             map_option (\<lambda>(((w2, cs), inp), y). (st\<lparr>bn_world := drop_input ops w2 f inp, bn_stdin := cs\<rparr>, Ok y))
               (run ((w1, bn_stdin st), FileInput (stream_reader_from_handle h)))))"

subsection \<open>cat\<close>

definition cat_flag :: "rchar \<Rightarrow> cat_flags \<Rightarrow> cat_flags option" where
  "cat_flag c fl =
     (if c = 110 then Some (fl\<lparr>cf_number := True\<rparr>) else if c = 98 then Some (fl\<lparr>cf_number_nonblank := True\<rparr>)
      else if c = 115 then Some (fl\<lparr>cf_squeeze := True\<rparr>) else if c = 69 then Some (fl\<lparr>cf_show_ends := True\<rparr>)
      else if c = 84 then Some (fl\<lparr>cf_show_tabs := True\<rparr>) else None)"

definition cat_flags_default :: cat_flags where
  "cat_flags_default = \<lparr>cf_number = False, cf_number_nonblank = False, cf_squeeze = False, cf_show_ends = False,
     cf_show_tabs = False\<rparr>"

fun cat_paths ::
  "'s vfs_ops \<Rightarrow> fs_facade \<Rightarrow> cat_flags \<Rightarrow> rstr list \<Rightarrow> 's builtin_run \<Rightarrow> cat_state \<Rightarrow> int \<Rightarrow> 's command_end option" where
  "cat_paths ops f fl [] st ca code = Some (st, Ok code)"
| "cat_paths ops f fl (path # paths) st ca code =
     (case with_input ops f st path (\<lambda>r. cat_stream (feed_read ops f) r (bn_stdout st) fl ca) of
        None \<Rightarrow> None
      | Some (st1, Inl Panic) \<Rightarrow> Some (st1, Inl Panic)
      | Some (st1, Inl (Errno e)) \<Rightarrow> cat_paths ops f fl paths (write_vfs_error st1 (rs ''cat'') path e) ca 1
      | Some (st1, Inr ((ca1, out), res)) \<Rightarrow>
          let st2 = st1\<lparr>bn_stdout := out\<rparr> in
          (case res of
             Inr _ \<Rightarrow> cat_paths ops f fl paths st2 ca1 code
           | Inl Panic \<Rightarrow> Some (st2, Inl Panic)
           | Inl (Errno err) \<Rightarrow>
               (case report_stream_error st2 (rs ''cat'') path err of
                  (st3, True) \<Rightarrow> cat_paths ops f fl paths st3 ca1 1
                | (st3, False) \<Rightarrow> Some (st3, Ok 1))))"

definition cat :: "'s vfs_ops \<Rightarrow> fs_facade \<Rightarrow> rstr list \<Rightarrow> 's builtin_run \<Rightarrow> 's command_end option" where
  "cat ops f args st =
     with_flags (rs ''cat'') 1 cat_flag cat_flags_default args st (\<lambda>fl paths.
       cat_paths ops f fl (if paths = [] then [rs ''-''] else paths) st cat_state_default 0)"

subsection \<open>echo, pwd, true, false, which\<close>

definition echo :: "rstr list \<Rightarrow> 's builtin_run \<Rightarrow> 's command_end" where
  "echo args st = print_or_fail st (echo_text args)"

definition pwd :: "rstr \<Rightarrow> rstr list \<Rightarrow> 's builtin_run \<Rightarrow> 's command_end" where
  "pwd cwd args st =
     (case unsupported_flag args of
        Some flag \<Rightarrow> unsupported (rs ''pwd'') flag st
      | None \<Rightarrow> print_or_fail st (cwd @ [10]))"

definition true_cmd :: "'s builtin_run \<Rightarrow> 's command_end" where
  "true_cmd st = (st, Ok 0)"

definition false_cmd :: "'s builtin_run \<Rightarrow> 's command_end" where
  "false_cmd st = (st, Ok 1)"

fun which_names :: "rstr list \<Rightarrow> rstr list \<Rightarrow> 's builtin_run \<Rightarrow> int \<Rightarrow> 's command_end" where
  "which_names commands [] st code = (st, Ok code)"
| "which_names commands (name # names) st code =
     (if name \<in> set commands then which_names commands names (tell_out st (rs ''/bin/'' @ name @ [10])) code
      else which_names commands names st 1)"

definition which :: "rstr list \<Rightarrow> rstr list \<Rightarrow> 's builtin_run \<Rightarrow> 's command_end" where
  "which commands args st =
     (if args = [] then (tell_err st (rs ''which: missing operand'' @ [10]), Ok 1)
      else which_names commands args st 0)"

subsection \<open>ls, stat\<close>

definition ls_flag :: "rchar \<Rightarrow> bool \<times> bool \<Rightarrow> (bool \<times> bool) option" where
  "ls_flag c fl = (if c = 97 then Some (True, snd fl) else if c = 108 then Some (fst fl, True) else None)"

definition write_ls_entry :: "'s builtin_run \<Rightarrow> rstr \<Rightarrow> metadata \<Rightarrow> bool \<Rightarrow> 's builtin_run" where
  "write_ls_entry st name md long =
     (if long then
        tell_out st ((if md_type md = DirectoryFile then rs ''drwxr-xr-x'' else rs ''-rw-r--r--'')
          @ rs '' 1 0 0 '' @ pad_left 6 (show_nat (md_len md)) @ rs '' Jan  1 00:00 '' @ name @ [10])
      else tell_out st (name @ [10]))"

definition write_ls_entries :: "'s builtin_run \<Rightarrow> (rstr \<times> metadata) list \<Rightarrow> bool \<Rightarrow> 's builtin_run" where
  "write_ls_entries st entries long = foldl (\<lambda>st (name, md). write_ls_entry st name md long) st entries"

fun ls_paths ::
  "'s vfs_ops \<Rightarrow> fs_facade \<Rightarrow> bool \<Rightarrow> bool \<Rightarrow> bool \<Rightarrow> nat \<Rightarrow> rstr list \<Rightarrow> 's builtin_run \<Rightarrow> int \<Rightarrow> 's command_end" where
  "ls_paths ops f every long multiple index [] st code = (st, Ok code)"
| "ls_paths ops f every long multiple index (path # paths) st code =
     (case fs_stat ops (bn_world st) f path of
        (w1, Inl Panic) \<Rightarrow> (st\<lparr>bn_world := w1\<rparr>, Inl Panic)
      | (w1, Inl (Errno e)) \<Rightarrow>
          ls_paths ops f every long multiple (index + 1) paths
            (write_vfs_error (st\<lparr>bn_world := w1\<rparr>) (rs ''ls'') path e) 2
      | (w1, Inr md) \<Rightarrow>
          let st1 = st\<lparr>bn_world := w1\<rparr> in
          if md_type md = DirectoryFile then
            let st2 = (if multiple \<and> 0 < index then tell_out st1 [10] else st1);
                st3 = (if multiple then tell_out st2 (path @ [58, 10]) else st2) in
            (case list_dir ops w1 f path every of
               (w2, Inl Panic) \<Rightarrow> (st3\<lparr>bn_world := w2\<rparr>, Inl Panic)
             | (w2, Inl (Errno e)) \<Rightarrow>
                 ls_paths ops f every long multiple (index + 1) paths
                   (write_vfs_error (st3\<lparr>bn_world := w2\<rparr>) (rs ''ls'') path e) 1
             | (w2, Inr entries) \<Rightarrow>
                 ls_paths ops f every long multiple (index + 1) paths
                   (write_ls_entries (st3\<lparr>bn_world := w2\<rparr>) entries long) code)
          else
            ls_paths ops f every long multiple (index + 1) paths
              (write_ls_entry st1 (builtin_basename path) md long) code)"

definition ls :: "'s vfs_ops \<Rightarrow> fs_facade \<Rightarrow> rstr list \<Rightarrow> 's builtin_run \<Rightarrow> 's command_end option" where
  "ls ops f args st =
     with_flags (rs ''ls'') 1 ls_flag (False, False) args st (\<lambda>(every, long) paths.
       let ps = (if paths = [] then [rs ''.''] else paths) in
       Some (ls_paths ops f every long (1 < length ps) 0 ps st 0))"

fun stat_paths :: "'s vfs_ops \<Rightarrow> fs_facade \<Rightarrow> rstr list \<Rightarrow> 's builtin_run \<Rightarrow> int \<Rightarrow> 's command_end" where
  "stat_paths ops f [] st code = (st, Ok code)"
| "stat_paths ops f (path # paths) st code =
     (case fs_stat ops (bn_world st) f path of
        (w1, Inl Panic) \<Rightarrow> (st\<lparr>bn_world := w1\<rparr>, Inl Panic)
      | (w1, Inl (Errno e)) \<Rightarrow>
          stat_paths ops f paths (write_vfs_error (st\<lparr>bn_world := w1\<rparr>) (rs ''stat'') path e) 1
      | (w1, Inr md) \<Rightarrow>
          stat_paths ops f paths
            (tell_out (st\<lparr>bn_world := w1\<rparr>)
              (rs ''  File: '' @ path @ [10] @ rs ''  Size: '' @ show_nat (md_len md) @ [10] @ rs ''  Type: ''
               @ (if md_type md = DirectoryFile then rs ''directory'' else rs ''regular file'') @ [10])) code)"

definition stat :: "'s vfs_ops \<Rightarrow> fs_facade \<Rightarrow> rstr list \<Rightarrow> 's builtin_run \<Rightarrow> 's command_end" where
  "stat ops f args st =
     (if args = [] then (tell_err st (rs ''stat: missing operand'' @ [10]), Ok 1) else stat_paths ops f args st 0)"

end
