(* ===== verification/Builtin_Filters.thy ===== *)
theory Builtin_Filters
  imports Builtin_Commands
begin

text \<open>
  The builtins that filter text: \<open>head\<close>, \<open>tail\<close>, \<open>wc\<close>, \<open>uniq\<close>, \<open>sort\<close>, \<open>grep\<close> and \<open>sed\<close>
  (\<open>src/sandbox/builtins.rs\<close>). The regular expression library and the reading of floating point numbers
  are arguments.
\<close>

record regex =
  rx_is_match :: "rstr \<Rightarrow> bool"
  rx_captures_len :: nat
  rx_captures_iter :: "rstr \<Rightarrow> sed_match list"

text \<open>\<open>RegexBuilder::new(pattern).case_insensitive(flag).build()\<close>, with the message of a failure.\<close>

type_synonym regex_build = "rstr \<Rightarrow> bool \<Rightarrow> rstr + regex"

text \<open>A command that ends when an input fails: its report, and the exit code for it.\<close>

definition stop_on_error ::
  "rstr \<Rightarrow> rstr \<Rightarrow> int \<Rightarrow> ('s builtin_run \<times> (sink \<times> unit io_result) vres) option
   \<Rightarrow> ('s builtin_run \<Rightarrow> 's command_end option) \<Rightarrow> 's command_end option" where
  "stop_on_error cmd path code out k =
     (case out of
        None \<Rightarrow> None
      | Some (st1, Inl Panic) \<Rightarrow> Some (st1, Inl Panic)
      | Some (st1, Inl (Errno e)) \<Rightarrow> Some (write_vfs_error st1 cmd path e, Ok code)
      | Some (st1, Inr (sk, Inl Panic)) \<Rightarrow> Some (st1\<lparr>bn_stdout := sk\<rparr>, Inl Panic)
      | Some (st1, Inr (sk, Inl (Errno err))) \<Rightarrow>
          (case report_stream_error (st1\<lparr>bn_stdout := sk\<rparr>) cmd path err of
             (st2, True) \<Rightarrow> Some (st2, Ok code) | (st2, False) \<Rightarrow> Some (st2, Ok 1))
      | Some (st1, Inr (sk, Inr _)) \<Rightarrow> k (st1\<lparr>bn_stdout := sk\<rparr>))"

subsection \<open>head and tail\<close>

datatype head_tail_error = MissingCount | BadCount rstr | BadFlag rstr

fun head_tail_args ::
  "bool \<Rightarrow> rstr list \<Rightarrow> tail_count \<Rightarrow> bool \<Rightarrow> rstr list \<Rightarrow> (head_tail_error, tail_count \<times> bool \<times> rstr list) outcome" where
  "head_tail_args head_mode [] n verbose paths = Ok (n, verbose, paths)"
| "head_tail_args head_mode (arg # args) n verbose paths =
     (if arg = rs ''-v'' then head_tail_args head_mode args n True paths
      else if arg = rs ''-n'' then
        (case args of
           [] \<Rightarrow> Err MissingCount
         | v # rest \<Rightarrow>
             (case parse_head_tail_count v head_mode of
                None \<Rightarrow> Err (BadCount v) | Some n1 \<Rightarrow> head_tail_args head_mode rest n1 verbose paths))
      else if starts_with arg [45] then Err (BadFlag arg)
      else head_tail_args head_mode args n verbose (paths @ [arg]))"

fun head_tail_paths ::
  "'s vfs_ops \<Rightarrow> (byte list \<Rightarrow> nat) \<Rightarrow> fs_facade \<Rightarrow> rstr \<Rightarrow> bool \<Rightarrow> head_tail_settings \<Rightarrow> nat \<Rightarrow> rstr list
   \<Rightarrow> 's builtin_run \<Rightarrow> 's command_end option" where
  "head_tail_paths ops wrap f cmd headers se index [] st = Some (st, Ok 0)"
| "head_tail_paths ops wrap f cmd headers se index (path # paths) st =
     stop_on_error cmd path 1
       (with_input ops f st path (\<lambda>r. head_tail_reader (feed_read ops f) wrap r (bn_stdout st) path headers se index))
       (\<lambda>st1. head_tail_paths ops wrap f cmd headers se (index + 1) paths st1)"

definition head_tail ::
  "'s vfs_ops \<Rightarrow> (byte list \<Rightarrow> nat) \<Rightarrow> fs_facade \<Rightarrow> limits \<Rightarrow> bool \<Rightarrow> rstr list \<Rightarrow> 's builtin_run \<Rightarrow> 's command_end option" where
  "head_tail ops wrap f l head_mode args st =
     (let cmd = (if head_mode then rs ''head'' else rs ''tail'') in
      case head_tail_args head_mode args (LastLines 10) False [] of
        Inl Panic \<Rightarrow> Some (st, Inl Panic)
      | Inl (Errno MissingCount) \<Rightarrow>
          Some (tell_err st (cmd @ rs '': option requires an argument -- '' @ [39, 110, 39, 10]), Ok 1)
      | Inl (Errno (BadCount v)) \<Rightarrow>
          Some (tell_err st (cmd @ rs '': invalid number of lines: '' @ [39] @ v @ [39, 10]), Ok 1)
      | Inl (Errno (BadFlag flag)) \<Rightarrow> Some (unsupported cmd flag st)
      | Inr (n, verbose, paths) \<Rightarrow>
          let headers = (verbose \<or> 1 < length paths);
              se = \<lparr>ht_count = n, ht_head = head_mode, ht_window = tail_input_bytes l\<rparr> in
          if paths = [] then
            stop_on_error cmd (rs ''-'') 1
              (with_input ops f st (rs ''-'')
                (\<lambda>r. head_tail_reader (feed_read ops f) wrap r (bn_stdout st) (rs ''standard input'') False se 0))
              (\<lambda>st1. Some (st1, Ok 0))
          else head_tail_paths ops wrap f cmd headers se 0 paths st)"

subsection \<open>wc\<close>

definition wc_flag :: "rchar \<Rightarrow> bool \<times> bool \<times> bool \<Rightarrow> (bool \<times> bool \<times> bool) option" where
  "wc_flag c fl =
     (case fl of (l, w, b) \<Rightarrow>
        if c = 108 then Some (True, w, b) else if c = 119 then Some (l, True, b)
        else if c = 99 then Some (l, w, True) else None)"

text \<open>The rows that were counted, their sum, and whether an input failed.\<close>

fun wc_paths ::
  "'s vfs_ops \<Rightarrow> fs_facade \<Rightarrow> rstr list \<Rightarrow> (wc_counts \<times> rstr) list \<Rightarrow> wc_counts \<Rightarrow> 's builtin_run \<Rightarrow> int
   \<Rightarrow> ('s builtin_run \<times> (int fault + (wc_counts \<times> rstr) list \<times> wc_counts \<times> int)) option" where
  "wc_paths ops f [] rows totals st code = Some (st, Inr (rows, totals, code))"
| "wc_paths ops f (path # paths) rows totals st code =
     (case with_input ops f st path (counts_reader (feed_read ops f)) of
        None \<Rightarrow> None
      | Some (st1, Inl Panic) \<Rightarrow> Some (st1, Inl Panic)
      | Some (st1, Inl (Errno e)) \<Rightarrow> wc_paths ops f paths rows totals (write_vfs_error st1 (rs ''wc'') path e) 1
      | Some (st1, Inr (Inr c)) \<Rightarrow> wc_paths ops f paths (rows @ [(c, path)]) (counts_add totals c) st1 code
      | Some (st1, Inr (Inl Panic)) \<Rightarrow> Some (st1, Inl Panic)
      | Some (st1, Inr (Inl (Errno err))) \<Rightarrow>
          (case report_stream_error st1 (rs ''wc'') path err of
             (st2, True) \<Rightarrow> wc_paths ops f paths rows totals st2 1
           | (st2, False) \<Rightarrow> Some (st2, Inl (Errno 1))))"

definition write_rows :: "'s builtin_run \<Rightarrow> bool \<times> bool \<times> bool \<Rightarrow> nat \<Rightarrow> (wc_counts \<times> rstr) list \<Rightarrow> 's builtin_run" where
  "write_rows st fl width rows =
     (case fl of (l, w, b) \<Rightarrow> foldl (\<lambda>st (c, name). tell_out st (counts_text c (Some name) l w b width)) st rows)"

definition wc_width :: "bool \<times> bool \<times> bool \<Rightarrow> (wc_counts \<times> rstr) list \<Rightarrow> nat" where
  "wc_width fl rows =
     (case fl of (l, w, b) \<Rightarrow>
        let widths = map decimal_width (concat (map (\<lambda>(c, _). selected_counts c l w b) rows)) in
        if widths = [] then 1 else Max (set widths))"

definition wc :: "'s vfs_ops \<Rightarrow> fs_facade \<Rightarrow> rstr list \<Rightarrow> 's builtin_run \<Rightarrow> 's command_end option" where
  "wc ops f args st =
     with_flags (rs ''wc'') 1 wc_flag (False, False, False) args st (\<lambda>fl0 paths.
       let fl = (if fl0 = (False, False, False) then (True, True, True) else fl0) in
       if paths = [] then
         (case with_input ops f st (rs ''-'') (counts_reader (feed_read ops f)) of
            None \<Rightarrow> None
          | Some (st1, Inl e) \<Rightarrow> Some (st1, Inl Panic)
          | Some (st1, Inr (Inr c)) \<Rightarrow>
              Some (case fl of (l, w, b) \<Rightarrow> tell_out st1 (counts_text c None l w b 7), Ok 0)
          | Some (st1, Inr (Inl Panic)) \<Rightarrow> Some (st1, Inl Panic)
          | Some (st1, Inr (Inl (Errno err))) \<Rightarrow> Some (fst (report_stream_error st1 (rs ''wc'') (rs ''-'') err), Ok 1))
       else
         (case wc_paths ops f paths [] counts_default st 0 of
            None \<Rightarrow> None
          | Some (st1, Inl Panic) \<Rightarrow> Some (st1, Inl Panic)
          | Some (st1, Inl (Errno code)) \<Rightarrow> Some (st1, Ok code)
          | Some (st1, Inr (rows, totals, code)) \<Rightarrow>
              let rows1 = (if 1 < length paths then rows @ [(totals, rs ''total'')] else rows) in
              Some (write_rows st1 fl (wc_width fl rows1) rows1, Ok code)))"

subsection \<open>uniq\<close>

fun uniq_args ::
  "rstr list \<Rightarrow> bool \<Rightarrow> bool \<Rightarrow> bool \<Rightarrow> rstr list \<Rightarrow> (rstr, (bool \<times> bool \<times> bool) \<times> rstr list) outcome" where
  "uniq_args [] c d u paths = Ok ((c, d, u), paths)"
| "uniq_args (arg # args) c d u paths =
     (if arg = rs ''-c'' then uniq_args args True d u paths
      else if arg = rs ''-d'' then uniq_args args c True u paths
      else if arg = rs ''-u'' then uniq_args args c d True paths
      else if starts_with arg [45] then Err arg
      else uniq_args args c d u (paths @ [arg]))"

definition uniq :: "'s vfs_ops \<Rightarrow> fs_facade \<Rightarrow> rstr list \<Rightarrow> 's builtin_run \<Rightarrow> 's command_end option" where
  "uniq ops f args st =
     (case uniq_args args False False False [] of
        Inl Panic \<Rightarrow> Some (st, Inl Panic)
      | Inl (Errno flag) \<Rightarrow> Some (unsupported (rs ''uniq'') flag st)
      | Inr ((show_count, repeated, unique_only), paths) \<Rightarrow>
          if 1 < length paths then Some (tell_err st (rs ''uniq: extra operand'' @ [10]), Ok 1)
          else
            let path = (case paths of [] \<Rightarrow> rs ''-'' | p # _ \<Rightarrow> p) in
            stop_on_error (rs ''uniq'') path 1
              (with_input ops f st path
                (\<lambda>r. uniq_reader (feed_read ops f) r (bn_stdout st) show_count repeated unique_only))
              (\<lambda>st1. Some (st1, Ok 0)))"

subsection \<open>sort\<close>

text \<open>\<open>read_input_bounded\<close>: the budget is shared by all inputs and probed by one byte more.\<close>

function read_input_bounded ::
  "'s vfs_ops \<Rightarrow> fs_facade \<Rightarrow> 's feed \<Rightarrow> byte list \<Rightarrow> nat \<Rightarrow> 's feed \<times> byte list \<times> unit io_result" where
  "read_input_bounded ops f r input limit =
     (case fs_check (fst (fst r)) (fs_handles f) of
        Inl e \<Rightarrow> (r, input, Inl (stream_fault e))
      | Inr _ \<Rightarrow>
          (case feed_read ops f r (min stream_chunk_bytes (saturating_add (limit - length input) 1)) of
             (r1, Inl e) \<Rightarrow> (r1, input, Inl e)
           | (r1, Inr bytes) \<Rightarrow>
               if bytes = [] then (r1, input, Ok ())
               else if limit - length input < length bytes then
                 (r1, input, Err (InvalidData (rs ''input too large'')))
               else read_input_bounded ops f r1 (input @ bytes) limit))"
  by pat_completeness auto

termination
proof (relation "measure (\<lambda>(ops, f, r, input, limit). limit - length input)", goal_cases)
  case (2 ops f r input limit u p r1 bytes)
  then show ?case by (cases bytes) auto
qed simp

declare read_input_bounded.simps [simp del]

text \<open>\<open>read_inputs\<close>: all input, or the exit code of the failure that was reported.\<close>

fun read_inputs ::
  "'s vfs_ops \<Rightarrow> fs_facade \<Rightarrow> rstr list \<Rightarrow> byte list \<Rightarrow> nat \<Rightarrow> rstr \<Rightarrow> 's builtin_run
   \<Rightarrow> ('s builtin_run \<times> (int, byte list) outcome) option" where
  "read_inputs ops f [] input limit cmd st = Some (st, Ok input)"
| "read_inputs ops f (path # paths) input limit cmd st =
     (case with_input ops f st path (\<lambda>r. Some (read_input_bounded ops f r input limit)) of
        None \<Rightarrow> None
      | Some (st1, out) \<Rightarrow>
          (case (case out of Inl e \<Rightarrow> Inl (stream_fault e) | Inr (bytes, res) \<Rightarrow> obind res (\<lambda>_. Ok bytes)) of
             Inr bytes \<Rightarrow> read_inputs ops f paths bytes limit cmd st1
           | Inl Panic \<Rightarrow> Some (st1, Inl Panic)
           | Inl (Errno err) \<Rightarrow>
               if fs_cancelled (bn_world st1) (fs_handles f) then Some (st1, Err 124)
               else
                 Some (case err of
                     InvalidData _ \<Rightarrow> tell_err st1 (cmd @ rs '': input too large for tinysandbox '' @ cmd @ [10])
                   | _ \<Rightarrow> fst (report_stream_error st1 cmd path err), Err 2)))"

definition sort_flag :: "rchar \<Rightarrow> bool \<times> bool \<times> bool \<Rightarrow> (bool \<times> bool \<times> bool) option" where
  "sort_flag c fl =
     (case fl of (r, n, u) \<Rightarrow>
        if c = 114 then Some (True, n, u) else if c = 110 then Some (r, True, u)
        else if c = 117 then Some (r, n, True) else None)"

text \<open>\<open>str::lines\<close>.\<close>

definition str_lines :: "rstr \<Rightarrow> rstr list" where
  "str_lines s =
     (let pieces = split_on 10 s in
      map (strip_last 13) (butlast pieces) @ (if last pieces = [] then [] else [last pieces]))"

text \<open>The longest prefix \<open>numeric_key\<close> reads as a number; without a digit the key is zero.\<close>

definition numeric_prefix :: "rstr \<Rightarrow> rstr option" where
  "numeric_prefix line =
     (let t = dropWhile is_whitespace line;
          sign = (case t of c # _ \<Rightarrow> if c = 43 \<or> c = 45 then [c] else [] | [] \<Rightarrow> []);
          t1 = drop (length sign) t;
          digits = takeWhile is_ascii_digit t1;
          t2 = drop (length digits) t1;
          frac = (case t2 of c # cs \<Rightarrow> if c = 46 then [46] @ takeWhile is_ascii_digit cs else [] | [] \<Rightarrow> []) in
      if digits = [] then None else Some (sign @ digits @ frac))"

text \<open>\<open>num\<close> reads a number of that form and ranks it; \<open>num []\<close> is the rank of zero.\<close>

definition numeric_key :: "(rstr \<Rightarrow> 'k) \<Rightarrow> rstr \<Rightarrow> 'k" where
  "numeric_key num line = num (case numeric_prefix line of None \<Rightarrow> [] | Some t \<Rightarrow> t)"

fun dedup_by :: "('a \<Rightarrow> 'k) \<Rightarrow> 'a list \<Rightarrow> 'a list" where
  "dedup_by key [] = []"
| "dedup_by key [x] = [x]"
| "dedup_by key (x # y # ys) = (if key x = key y then dedup_by key (x # ys) else x # dedup_by key (y # ys))"

definition sort_lines :: "(rstr \<Rightarrow> 'k::linorder) \<Rightarrow> bool \<times> bool \<times> bool \<Rightarrow> rstr list \<Rightarrow> rstr list" where
  "sort_lines num fl lines =
     (case fl of (reverse, numeric, unique) \<Rightarrow>
        let sorted = (if numeric then sort_key (numeric_key num) (sort lines) else sort lines);
            kept = (if unique then if numeric then dedup_by (numeric_key num) sorted else remdups_adj sorted else sorted) in
        if reverse then rev kept else kept)"

fun sort_output :: "fs_facade \<Rightarrow> nat \<Rightarrow> rstr list \<Rightarrow> 's builtin_run \<Rightarrow> 's command_end" where
  "sort_output f index [] st = (st, Ok 0)"
| "sort_output f index (line # lines) st =
     (if index mod 1024 = 0 \<and> \<not> is_ok (fs_check (bn_world st) (fs_handles f)) then (st, Ok 124)
      else
        (case write_parts (bn_stdout st) [utf8 line, [nl]] of
           (out, Inl e) \<Rightarrow> (st\<lparr>bn_stdout := out\<rparr>, Ok 1)
         | (out, Inr _) \<Rightarrow> sort_output f (index + 1) lines (st\<lparr>bn_stdout := out\<rparr>)))"

definition sort_cmd ::
  "'s vfs_ops \<Rightarrow> (rstr \<Rightarrow> 'k::linorder) \<Rightarrow> fs_facade \<Rightarrow> limits \<Rightarrow> rstr list \<Rightarrow> 's builtin_run \<Rightarrow> 's command_end option" where
  "sort_cmd ops num f l args st =
     with_flags (rs ''sort'') 2 sort_flag (False, False, False) args st (\<lambda>fl paths.
       case read_inputs ops f (if paths = [] then [rs ''-''] else paths) [] (sort_input_bytes l) (rs ''sort'') st of
         None \<Rightarrow> None
       | Some (st1, Inl Panic) \<Rightarrow> Some (st1, Inl Panic)
       | Some (st1, Inl (Errno code)) \<Rightarrow> Some (st1, Ok code)
       | Some (st1, Inr bytes) \<Rightarrow>
           Some (if \<not> is_ok (fs_check (bn_world st1) (fs_handles f)) then (st1, Ok 124)
             else sort_output f 0 (sort_lines num fl (str_lines (from_utf8_lossy bytes))) st1))"

subsection \<open>grep\<close>

definition grep_flag :: "rchar \<Rightarrow> grep_flags \<Rightarrow> grep_flags option" where
  "grep_flag c fl =
     (if c = 105 then Some (fl\<lparr>gf_ignore_case := True\<rparr>) else if c = 118 then Some (fl\<lparr>gf_invert := True\<rparr>)
      else if c = 110 then Some (fl\<lparr>gf_line_numbers := True\<rparr>) else if c = 99 then Some (fl\<lparr>gf_count := True\<rparr>)
      else if c = 114 \<or> c = 82 then Some (fl\<lparr>gf_recursive := True\<rparr>) else None)"

definition grep_flags_default :: grep_flags where
  "grep_flags_default = \<lparr>gf_ignore_case = False, gf_invert = False, gf_line_numbers = False, gf_count = False,
     gf_recursive = False\<rparr>"

partial_function (option) grep_loop ::
  "'s vfs_ops \<Rightarrow> regex \<Rightarrow> fs_facade \<Rightarrow> grep_flags \<Rightarrow> bool \<Rightarrow> grep_inputs \<Rightarrow> 's builtin_run \<Rightarrow> bool \<Rightarrow> bool
   \<Rightarrow> 's command_end option" where
  "grep_loop ops rx f fl show_path g st had_error matched_any =
     Option.bind (grep_next ops (bn_world st) f g) (\<lambda>((w, g1), next_input).
       let st0 = st\<lparr>bn_world := w\<rparr> in
       case next_input of
         None \<Rightarrow> Some (st0, Ok (if had_error then 2 else if matched_any then 0 else 1))
       | Some GrepCancelled \<Rightarrow> Some (st0, Ok 124)
       | Some (GrepFailed path Panic) \<Rightarrow> Some (st0, Inl Panic)
       | Some (GrepFailed path (Errno e)) \<Rightarrow>
           grep_loop ops rx f fl show_path g1 (write_vfs_error st0 (rs ''grep'') path e) True matched_any
       | Some (GrepPath path) \<Rightarrow>
           let label = (if path = rs ''-'' then rs ''(standard input)'' else path) in
           Option.bind
             (with_input ops f st0 path (\<lambda>r. grep_reader (rx_is_match rx) (feed_read ops f) r (bn_stdout st0) label fl show_path))
             (\<lambda>(st1, out).
               case out of
                 Inl Panic \<Rightarrow> Some (st1, Inl Panic)
               | Inl (Errno e) \<Rightarrow>
                   grep_loop ops rx f fl show_path g1 (write_vfs_error st1 (rs ''grep'') path e) True matched_any
               | Inr (sk, res) \<Rightarrow>
                   let st2 = st1\<lparr>bn_stdout := sk\<rparr> in
                   (case res of
                      Inr matched \<Rightarrow> grep_loop ops rx f fl show_path g1 st2 had_error (matched_any \<or> matched)
                    | Inl Panic \<Rightarrow> Some (st2, Inl Panic)
                    | Inl (Errno err) \<Rightarrow>
                        (case report_stream_error st2 (rs ''grep'') path err of
                           (st3, told) \<Rightarrow>
                             if told then grep_loop ops rx f fl show_path g1 st3 True matched_any
                             else Some (st3, Ok 1)))))"

definition grep ::
  "'s vfs_ops \<Rightarrow> regex_build \<Rightarrow> fs_facade \<Rightarrow> rstr list \<Rightarrow> 's builtin_run \<Rightarrow> 's command_end option" where
  "grep ops build f args st =
     with_flags (rs ''grep'') 2 grep_flag grep_flags_default args st (\<lambda>fl positional.
       case positional of
         [] \<Rightarrow> Some (tell_err st (rs ''grep: missing pattern'' @ [10]), Ok 2)
       | pattern # paths \<Rightarrow>
           (case build pattern (gf_ignore_case fl) of
              Inl message \<Rightarrow> Some (tell_err st (rs ''grep: '' @ message @ [10]), Ok 2)
            | Inr rx \<Rightarrow>
                if paths = [] then
                  (case with_input ops f st (rs ''-'')
                      (\<lambda>r. grep_reader (rx_is_match rx) (feed_read ops f) r (bn_stdout st) [] fl False) of
                     None \<Rightarrow> None
                   | Some (st1, Inl e) \<Rightarrow> Some (st1, Inl Panic)
                   | Some (st1, Inr (sk, Inr matched)) \<Rightarrow> Some (st1\<lparr>bn_stdout := sk\<rparr>, Ok (if matched then 0 else 1))
                   | Some (st1, Inr (sk, Inl Panic)) \<Rightarrow> Some (st1\<lparr>bn_stdout := sk\<rparr>, Inl Panic)
                   | Some (st1, Inr (sk, Inl (Errno err))) \<Rightarrow>
                       (case report_stream_error (st1\<lparr>bn_stdout := sk\<rparr>) (rs ''grep'') (rs ''-'') err of
                          (st2, True) \<Rightarrow> Some (st2, Ok 2) | (st2, False) \<Rightarrow> Some (st2, Ok 1)))
                else grep_loop ops rx f fl (gf_recursive fl \<or> 1 < length paths)
                  (grep_inputs_new paths (gf_recursive fl)) st False False))"

subsection \<open>sed\<close>

fun sed_paths ::
  "'s vfs_ops \<Rightarrow> regex \<Rightarrow> sed_substitution \<Rightarrow> fs_facade \<Rightarrow> rstr list \<Rightarrow> 's builtin_run \<Rightarrow> 's command_end option" where
  "sed_paths ops rx sub f [] st = Some (st, Ok 0)"
| "sed_paths ops rx sub f (path # paths) st =
     stop_on_error (rs ''sed'') path 2
       (with_input ops f st path (\<lambda>r. sed_reader (rx_captures_iter rx) (feed_read ops f) r (bn_stdout st) sub))
       (\<lambda>st1. sed_paths ops rx sub f paths st1)"

definition sed ::
  "'s vfs_ops \<Rightarrow> regex_build \<Rightarrow> fs_facade \<Rightarrow> rstr list \<Rightarrow> 's builtin_run \<Rightarrow> 's command_end option" where
  "sed ops build f args st =
     (case args of
        [] \<Rightarrow> Some (tell_err st (rs ''sed: missing command'' @ [10]), Ok 1)
      | script # paths \<Rightarrow>
          (case parse_sed_substitution script of
             None \<Rightarrow>
               Some (tell_err st (rs ''sed: unsupported command; tinysandbox supports s/// with g and i flags'' @ [10]), Ok 1)
           | Some sub \<Rightarrow>
               (case build (ss_pattern sub) (ss_ignore_case sub) of
                  Inl message \<Rightarrow> Some (tell_err st (rs ''sed: '' @ message @ [10]), Ok 1)
                | Inr rx \<Rightarrow>
                    (case validate_sed_replacement (ss_replacement sub) (rx_captures_len rx) of
                       Inl (Errno i) \<Rightarrow>
                         Some (tell_err st (rs ''sed: invalid reference '' @ [92] @ show_nat i @ rs '' on `s'' @ [39]
                           @ rs '' command'' @ [39] @ rs ''s RHS'' @ [10]), Ok 1)
                     | Inl Panic \<Rightarrow> Some (st, Inl Panic)
                     | Inr _ \<Rightarrow> sed_paths ops rx sub f (if paths = [] then [rs ''-''] else paths) st))))"

end
