(* ===== verification/Builtin_Sources.thy ===== *)
theory Builtin_Sources
  imports Builtin_Copy Builtin_Streams Builtin_Filters
begin

text \<open>
  The inputs of a command as byte sources: standard input delivers its chunks, a stream reader over
  an open file of the in-memory filesystem delivers the bytes it has buffered and those it has not
  read yet.
\<close>

definition readable :: "mem_state \<Rightarrow> file_handle \<Rightarrow> byte list \<Rightarrow> bool" where
  "readable s h data \<longleftrightarrow>
     (\<exists>hn fn. bm_get (handles s) h = Some hn \<and> h_readable hn \<and> bm_get (files s) (h_inode hn) = Some fn \<and> fn_data fn = data)"

definition file_holds :: "fs_facade \<Rightarrow> mem_state world \<times> stream_reader \<Rightarrow> byte list \<Rightarrow> bool" where
  "file_holds f x data \<longleftrightarrow>
     (case x of (w, rd) \<Rightarrow>
        sr_pending_start rd \<le> length (sr_pending rd)
        \<and> (case sr_handle rd of
             None \<Rightarrow> data = drop (sr_pending_start rd) (sr_pending rd)
           | Some h \<Rightarrow>
               \<not> fs_cancelled w (fs_handles f)
               \<and> (\<exists>all. readable (w_vfs w) h all \<and> length all \<le> u64_max \<and> sr_offset rd \<le> length all
                    \<and> data = drop (sr_pending_start rd) (sr_pending rd) @ drop (sr_offset rd) all)))"

lemma fs_read_at_readable:
  assumes "readable (w_vfs w) h all" "\<not> fs_cancelled w (fs_handles f)" "off \<le> usize_max" "n \<le> stream_chunk_bytes"
  shows "fs_read_at (mem_ops q) w f h off n = (w, Ok (take n (drop off all)))"
proof -
  have "mem_read_at (w_vfs w) h off n = Ok (take n (drop off all))"
    using assms(1,3) by (auto simp: readable_def mem_read_at_def try_usize_def Let_def min_def)
  moreover have "\<not> max_io_bytes f < n" using assms(4) by (simp add: max_io_bytes_def)
  ultimately show ?thesis using assms(2) by (simp add: fs_read_at_def dispatch_def on_vfs_def mem_ops_def)
qed

text \<open>Bytes that are buffered are handed out first.\<close>

lemma file_read_buffered:
  assumes "file_holds f (w, rd) data" "sr_pending_start rd < length (sr_pending rd)" "0 < n"
  obtains rd1 c data1 where "file_read ops f (w, rd) n = ((w, rd1), Ok c)" "c \<noteq> []" "data = c @ data1" "file_holds f (w, rd1) data1"
proof -
  define k where "k = min (length (sr_pending rd) - sr_pending_start rd) n"
  define rd1 where "rd1 = rd\<lparr>sr_pending_start := sr_pending_start rd + k\<rparr>"
  have k: "0 < k" "sr_pending_start rd + k \<le> length (sr_pending rd)" using assms(2,3) by (auto simp: k_def)
  let ?c = "take k (drop (sr_pending_start rd) (sr_pending rd))"
  have "copy_pending rd n = Some (?c, rd1)" using assms(2,3) by (simp add: copy_pending_def k_def rd1_def Let_def)
  then have "file_read ops f (w, rd) n = ((w, rd1), Ok ?c)" by (simp add: file_read_def poll_read_def)
  moreover have "?c \<noteq> []" using k assms(2) by auto
  moreover have "\<exists>data1. data = ?c @ data1 \<and> file_holds f (w, rd1) data1"
  proof -
    have parts: "drop (sr_pending_start rd) (sr_pending rd) = ?c @ drop (sr_pending_start rd + k) (sr_pending rd)"
      by (metis append_take_drop_id drop_drop add.commute)
    show ?thesis
    proof (cases "sr_handle rd")
      case None
      then have "data = drop (sr_pending_start rd) (sr_pending rd)" using assms(1) by (simp add: file_holds_def)
      then have "data = ?c @ drop (sr_pending_start rd + k) (sr_pending rd)" using parts by simp
      moreover have "file_holds f (w, rd1) (drop (sr_pending_start rd + k) (sr_pending rd))"
        using None k(2) by (simp add: file_holds_def rd1_def)
      ultimately show ?thesis by blast
    next
      case (Some h)
      then obtain all where all: "\<not> fs_cancelled w (fs_handles f)" "readable (w_vfs w) h all" "length all \<le> u64_max"
        "sr_offset rd \<le> length all" "data = drop (sr_pending_start rd) (sr_pending rd) @ drop (sr_offset rd) all"
        using assms(1) by (auto simp: file_holds_def)
      have "data = ?c @ (drop (sr_pending_start rd + k) (sr_pending rd) @ drop (sr_offset rd) all)"
        unfolding all(5) append_assoc [symmetric] using parts by (rule arg_cong)
      moreover have "file_holds f (w, rd1) (drop (sr_pending_start rd + k) (sr_pending rd) @ drop (sr_offset rd) all)"
        using all Some k(2) by (auto simp: file_holds_def rd1_def)
      ultimately show ?thesis by blast
    qed
  qed
  ultimately show thesis using that by blast
qed

text \<open>An empty buffer is refilled from the file, which ends the stream when there is nothing left.\<close>

lemma file_read_refill:
  assumes "file_holds f (w, rd) data" "sr_pending_start rd = length (sr_pending rd)" "0 < n"
  obtains w1 rd1 c data1 where "file_read (mem_ops q) f (w, rd) n = ((w1, rd1), Ok c)" "c = [] \<longrightarrow> data = []"
    "data = c @ data1" "file_holds f (w1, rd1) data1"
proof (cases "sr_handle rd")
  case None
  have "copy_pending rd n = None" using assms(2) by (simp add: copy_pending_def)
  then have "file_read (mem_ops q) f (w, rd) n = ((w, rd), Ok [])"
    using None assms(3) by (simp add: file_read_def poll_read_def)
  moreover have "data = []" using assms(1,2) None by (simp add: file_holds_def)
  ultimately show thesis using that [of w rd "[]" "[]"] assms(1) by simp
next
  case (Some h)
  obtain all where all: "readable (w_vfs w) h all" "length all \<le> u64_max" "sr_offset rd \<le> length all"
    "data = drop (sr_offset rd) all" and live: "\<not> fs_cancelled w (fs_handles f)"
    using assms(1,2) Some by (auto simp: file_holds_def)
  let ?b = "take stream_chunk_bytes (drop (sr_offset rd) all)"
  have off: "sr_offset rd \<le> usize_max" using all(2,3) by (simp add: u64_max_def usize_max_def)
  have read: "fs_read_at (mem_ops q) w f h (sr_offset rd) stream_chunk_bytes = (w, Ok ?b)"
    by (rule fs_read_at_readable [OF all(1) live off]) simp
  have unbuffered: "copy_pending rd n = None" using assms(2) by (simp add: copy_pending_def)
  show thesis
  proof (cases "?b = []")
    case True
    then have e: "data = []" using all(3,4) by (auto simp: stream_chunk_bytes_def)
    obtain w1 rd1 where c: "close_handle (mem_ops q) w f rd = (w1, rd1)" by fastforce
    have rd1: "rd1 = rd\<lparr>sr_handle := None\<rparr>" using c Some by (auto simp: close_handle_def)
    have read0: "fs_read_at (mem_ops q) w f h (sr_offset rd) stream_chunk_bytes = (w, Ok [])" using read unfolding True .
    have "file_read (mem_ops q) f (w, rd) n = ((w1, rd1), Ok [])"
      using assms(3) by (simp add: file_read_def poll_read_def unbuffered Some read0 c)
    then show thesis using rd1 that [of w1 rd1 "[]" "[]"] e assms(2) by (simp add: file_holds_def)
  next
    case False
    define rd1 where "rd1 = rd\<lparr>sr_offset := saturating_add (sr_offset rd) (length ?b), sr_pending := ?b, sr_pending_start := 0\<rparr>"
    have sat: "saturating_add (sr_offset rd) (length ?b) = sr_offset rd + length ?b" using all(2,3) by (simp add: saturating_add_def)
    have "drop (length ?b) (drop (sr_offset rd) all) = drop stream_chunk_bytes (drop (sr_offset rd) all)"
      by (cases "length (drop (sr_offset rd) all) \<le> stream_chunk_bytes") simp_all
    then have "drop (sr_offset rd) all = ?b @ drop (length ?b) (drop (sr_offset rd) all)"
      by (simp only: append_take_drop_id)
    then have "drop (sr_offset rd) all = ?b @ drop (sr_offset rd + length ?b) all"
      unfolding drop_drop add.commute [of "sr_offset rd"] .
    then have holds1: "file_holds f (w, rd1) data"
      using all live Some sat by (auto simp: file_holds_def rd1_def)
    have pend: "sr_pending_start rd1 < length (sr_pending rd1)" using False by (simp add: rd1_def)
    obtain rd2 c data1 where r2: "file_read (mem_ops q) f (w, rd1) n = ((w, rd2), Ok c)" "c \<noteq> []" "data = c @ data1"
      "file_holds f (w, rd2) data1" by (rule file_read_buffered [OF holds1 pend assms(3)])
    have "copy_pending rd1 n = Some (c, rd2)"
      using r2(1) pend assms(3) by (auto simp: file_read_def poll_read_def copy_pending_def Let_def split: if_splits)
    then have "file_read (mem_ops q) f (w, rd) n = ((w, rd2), Ok c)"
      using assms(3) False by (simp add: file_read_def poll_read_def unbuffered Some read rd1_def Let_def)
    with r2 show thesis using that by blast
  qed
qed

interpretation file_stream: byte_source "file_read (mem_ops q) f" "file_holds f" for q f
proof
  fix x :: "mem_state world \<times> stream_reader" and n :: nat
  assume h: "file_holds f x []" and n: "0 < n"
  obtain w rd where x: "x = (w, rd)" by fastforce
  have "sr_pending_start rd = length (sr_pending rd)" using h by (auto simp: x file_holds_def split: option.splits)
  from file_read_refill [OF h [unfolded x] this n]
  show "\<exists>r1. file_read (mem_ops q) f x n = (r1, Ok []) \<and> file_holds f r1 []" unfolding x by (metis Nil_is_append_conv)
next
  fix x :: "mem_state world \<times> stream_reader" and data and n :: nat
  assume h: "file_holds f x data" and d: "data \<noteq> []" and n: "0 < n"
  obtain w rd where x: "x = (w, rd)" by fastforce
  have "sr_pending_start rd \<le> length (sr_pending rd)" using h by (auto simp: x file_holds_def)
  then consider "sr_pending_start rd < length (sr_pending rd)" | "sr_pending_start rd = length (sr_pending rd)" by linarith
  then show "\<exists>r1 c data1. file_read (mem_ops q) f x n = (r1, Ok c) \<and> c \<noteq> [] \<and> data = c @ data1 \<and> file_holds f r1 data1"
  proof cases
    case 1
    from file_read_buffered [OF h [unfolded x] 1 n] show ?thesis unfolding x by metis
  next
    case 2
    from file_read_refill [OF h [unfolded x] 2 n] show ?thesis unfolding x using d by metis
  qed
qed

subsection \<open>Inputs of commands\<close>

definition feed_holds :: "fs_facade \<Rightarrow> mem_state feed \<Rightarrow> byte list \<Rightarrow> bool" where
  "feed_holds f r data \<longleftrightarrow>
     (case r of ((w, cs), StdinInput) \<Rightarrow> delivers cs data | ((w, cs), FileInput rd) \<Rightarrow> file_holds f (w, rd) data)"

interpretation feed: byte_source "feed_read (mem_ops q) f" "feed_holds f" for q f
proof
  fix r :: "mem_state feed" and n :: nat
  assume h: "feed_holds f r []" and n: "0 < n"
  obtain w cs inp where r: "r = ((w, cs), inp)" by (metis surj_pair)
  show "\<exists>r1. feed_read (mem_ops q) f r n = (r1, Ok []) \<and> feed_holds f r1 []"
  proof (cases inp)
    case StdinInput
    then show ?thesis using stdin.read_done [of cs n] h n by (auto simp: r feed_holds_def feed_read_def)
  next
    case (FileInput rd)
    then show ?thesis using file_stream.read_done [of f "(w, rd)" n q] h n by (auto simp: r feed_holds_def feed_read_def)
  qed
next
  fix r :: "mem_state feed" and data and n :: nat
  assume h: "feed_holds f r data" and d: "data \<noteq> []" and n: "0 < n"
  obtain w cs inp where r: "r = ((w, cs), inp)" by (metis surj_pair)
  show "\<exists>r1 c data1. feed_read (mem_ops q) f r n = (r1, Ok c) \<and> c \<noteq> [] \<and> data = c @ data1 \<and> feed_holds f r1 data1"
  proof (cases inp)
    case StdinInput
    then obtain cs1 c data1 where "chunk_read cs n = (cs1, Ok c)" "c \<noteq> []" "data = c @ data1" "delivers cs1 data1"
      using stdin.read_next [of cs data n] h n d by (auto simp: r feed_holds_def)
    then show ?thesis using StdinInput by (auto simp: r feed_read_def feed_holds_def)
  next
    case (FileInput rd)
    then obtain w1 rd1 c data1 where "file_read (mem_ops q) f (w, rd) n = ((w1, rd1), Ok c)" "c \<noteq> []" "data = c @ data1"
        "file_holds f (w1, rd1) data1"
      using file_stream.read_next [of f "(w, rd)" data n q] h n d by (auto simp: r feed_holds_def)
    then show ?thesis using FileInput by (auto simp: r feed_read_def feed_holds_def)
  qed
qed

lemma fs_open_live:
  assumes "fs_open (mem_ops q) w f p mode = (w1, Ok h)"
  shows "\<not> fs_cancelled w1 (fs_handles f)"
proof -
  obtain w0 po where "open_start (mem_ops q) w f p mode = (w0, Ok po)" and fin: "open_finish (mem_ops q) w0 po = (w1, Ok h)"
    using assms by (auto simp: fs_open_def and_then_eq_Ok)
  then have "po_registry po = fs_handles f"
    by (auto simp: open_start_def Let_def attempt_eq_Ok dispatch_path_def dispatch_def and_then_eq_Ok mem_ops_def split: if_splits)
  then show ?thesis
    using fin by (auto simp: open_finish_def Let_def and_then_eq_Ok split: prod.splits sum.splits fault.splits if_splits)
qed

lemma contents_bound:
  assumes "mem_inv q s" "contents s p = Some d"
  shows "length d \<le> u64_max"
proof -
  obtain i fn where "bm_get (files s) i = Some fn" "fn_data fn = d"
    using assms(2) by (auto simp: contents_def split: sum.splits node.splits option.splits)
  then have "length d \<le> isize_max" using assms(1) by (auto simp: mem_inv_def mem_inv_parts)
  then show ?thesis using isize_le_u64 by simp
qed

text \<open>What a path of a command names: the bytes of standard input or of the file, which can be opened.\<close>

definition input_holds :: "vfs_quota \<Rightarrow> fs_facade \<Rightarrow> mem_state builtin_run \<Rightarrow> rstr \<Rightarrow> byte list \<Rightarrow> bool" where
  "input_holds q f st path data \<longleftrightarrow>
     (if path = rs ''-'' then delivers (bn_stdin st) data
      else mem_inv q (w_vfs (bn_world st)) \<and> quota_safe q
        \<and> is_ok (snd (fs_open (mem_ops q) (bn_world st) f path om_read_only))
        \<and> (case normalize_path (fs_resolve f path) of
             Inr p \<Rightarrow> contents (w_vfs (bn_world st)) p = Some data | Inl _ \<Rightarrow> False))"

lemma opened_feed:
  assumes "mem_inv q (w_vfs w)" "quota_safe q" "fs_open (mem_ops q) w f path om_read_only = (w1, Ok h)"
    "normalize_path (fs_resolve f path) = Ok p" "contents (w_vfs w) p = Some data"
  shows "feed_holds f ((w1, cs), FileInput (stream_reader_from_handle h)) data"
proof -
  obtain p' i d where o: "normalize_path (fs_resolve f path) = Ok p'" "mem_inv q (w_vfs w1)"
      "contents (w_vfs w1) = contents (w_vfs w)" "contents (w_vfs w) p' = Some d"
      "bm_get (handles (w_vfs w1)) h = Some \<lparr>h_inode = i, h_readable = True, h_writable = False, h_append = False\<rparr>"
      "get_node (root (w_vfs w1)) p' = Ok (File i)"
    by (rule source_opened [OF assms(1,2) fs_open_mem(1) [OF assms(3)]])
  then have c: "contents (w_vfs w1) p' = Some data" using assms(4,5) by simp
  then have "readable (w_vfs w1) h data" using o(5) contents_file [OF o(6)] by (auto simp: readable_def)
  moreover have "length data \<le> u64_max" by (rule contents_bound [OF o(2) c])
  ultimately show ?thesis
    using fs_open_live [OF assms(3)] by (auto simp: feed_holds_def file_holds_def stream_reader_from_handle_def)
qed

lemma with_input_feeds:
  assumes "input_holds q f st path data" "\<And>r. feed_holds f r data \<Longrightarrow> \<exists>r1. run r = Some (r1, y)"
  shows "\<exists>st1. with_input (mem_ops q) f st path run = Some (st1, Ok y) \<and> bn_stdout st1 = bn_stdout st \<and> bn_stderr st1 = bn_stderr st"
proof (cases "path = rs ''-''")
  case True
  then have "feed_holds f ((bn_world st, bn_stdin st), StdinInput) data"
    using assms(1) by (simp add: input_holds_def feed_holds_def)
  then obtain w cs inp where "run ((bn_world st, bn_stdin st), StdinInput) = Some (((w, cs), inp), y)"
    using assms(2) by (metis surj_pair)
  then show ?thesis using True by (simp add: with_input_def)
next
  case False
  then obtain w1 h p where o: "fs_open (mem_ops q) (bn_world st) f path om_read_only = (w1, Ok h)"
      and p: "normalize_path (fs_resolve f path) = Ok p" "contents (w_vfs (bn_world st)) p = Some data"
      and i: "mem_inv q (w_vfs (bn_world st))" "quota_safe q"
    using assms(1) by (cases "fs_open (mem_ops q) (bn_world st) f path om_read_only")
      (auto simp: input_holds_def is_ok_def split: sum.splits)
  from opened_feed [OF i o p] obtain w2 cs inp
    where "run ((w1, bn_stdin st), FileInput (stream_reader_from_handle h)) = Some (((w2, cs), inp), y)"
    using assms(2) by (metis surj_pair)
  then show ?thesis using False o by (simp add: with_input_def)
qed

end
