(* ===== verification/Jq_Args.thy ===== *)
theory Jq_Args
  imports Builtin_Commands
begin

text \<open>
  The configuration of \<open>jq\<close> and its command line (\<open>src/sandbox/jq_protocol.rs\<close>), shared by the host
  and the guest. Messages are the left side of a result.
\<close>

record jq_variable =
  jv_name :: rstr
  jv_value :: rstr
  jv_json :: bool

record jq_options =
  jo_filter :: rstr
  jo_files :: "rstr list"
  jo_raw_output :: bool
  jo_join_output :: bool
  jo_compact_output :: bool
  jo_exit_status :: bool
  jo_null_input :: bool
  jo_slurp :: bool
  jo_sort_keys :: bool
  jo_indent :: rstr
  jo_vars :: "jq_variable list"

record jq_input_source =
  ji_path :: rstr
  ji_data :: "byte list"

record jq_request =
  jr_options :: jq_options
  jr_paths :: "rstr list"

definition is_jq_var_name :: "rstr \<Rightarrow> bool" where
  "is_jq_var_name name \<longleftrightarrow>
     (case name of
        [] \<Rightarrow> False
      | ch # chars \<Rightarrow>
          (is_ascii_alphabetic ch \<or> ch = 95) \<and> list_all (\<lambda>ch. is_ascii_alphanumeric ch \<or> ch = 95) chars)"

definition parse_jq_indent :: "rstr \<Rightarrow> rstr + rstr" where
  "parse_jq_indent v =
     (let message = rs ''jq: invalid indent '' @ [39] @ v @ [39, 10] in
      case parse_usize v of
        None \<Rightarrow> Inl message
      | Some n \<Rightarrow> if 8 < n then Inl message else Inr (replicate n 32))"

text \<open>\<open>args\<close> are the arguments behind the option.\<close>

definition parse_jq_arg_pair :: "rstr list \<Rightarrow> rstr \<Rightarrow> rstr + rstr \<times> rstr" where
  "parse_jq_arg_pair args opt =
     (case args of
        [] \<Rightarrow> Inl (rs ''jq: option '' @ opt @ rs '' requires a name'' @ [10])
      | [name] \<Rightarrow> Inl (rs ''jq: option '' @ opt @ rs '' requires a value'' @ [10])
      | name # v # _ \<Rightarrow>
          if \<not> is_jq_var_name name then Inl (rs ''jq: invalid variable name '' @ [39] @ name @ [39, 10])
          else Inr (name, v))"

definition jq_flag :: "rchar \<Rightarrow> jq_options \<Rightarrow> jq_options option" where
  "jq_flag flag p =
     (if flag = 114 then Some (p\<lparr>jo_raw_output := True\<rparr>)
      else if flag = 106 then Some (p\<lparr>jo_raw_output := True, jo_join_output := True\<rparr>)
      else if flag = 99 then Some (p\<lparr>jo_compact_output := True\<rparr>)
      else if flag = 101 then Some (p\<lparr>jo_exit_status := True\<rparr>)
      else if flag = 110 then Some (p\<lparr>jo_null_input := True\<rparr>)
      else if flag = 115 then Some (p\<lparr>jo_slurp := True\<rparr>)
      else if flag = 83 then Some (p\<lparr>jo_sort_keys := True\<rparr>)
      else None)"

fun jq_flag_chars :: "rstr \<Rightarrow> jq_options \<Rightarrow> rchar + jq_options" where
  "jq_flag_chars [] p = Inr p"
| "jq_flag_chars (flag # flags) p = (case jq_flag flag p of None \<Rightarrow> Inl flag | Some p1 \<Rightarrow> jq_flag_chars flags p1)"

definition push_var :: "rstr \<Rightarrow> rstr \<Rightarrow> bool \<Rightarrow> jq_options \<Rightarrow> jq_options" where
  "push_var name v json p =
     p\<lparr>jo_vars := jo_vars p @ [\<lparr>jv_name = 36 # name, jv_value = v, jv_json = json\<rparr>]\<rparr>"

text \<open>
  One option: the arguments it leaves, whether the options end, and the locals of the function other
  than the filter.
\<close>

definition jq_option :: "rstr \<Rightarrow> rstr list \<Rightarrow> bool \<Rightarrow> jq_options \<Rightarrow> rstr + rstr list \<times> bool \<times> jq_options" where
  "jq_option arg args options_done p =
     (if arg = rs ''--'' then Inr (args, True, p)
      else if arg = rs ''--tab'' then Inr (args, options_done, p\<lparr>jo_indent := [9]\<rparr>)
      else if arg = rs ''--indent'' then
        (case args of
           [] \<Rightarrow> Inl (rs ''jq: option --indent requires an argument'' @ [10])
         | v # rest \<Rightarrow>
             (case parse_jq_indent v of
                Inl message \<Rightarrow> Inl message
              | Inr indent \<Rightarrow> Inr (rest, options_done, p\<lparr>jo_indent := indent\<rparr>)))
      else if arg = rs ''--arg'' \<or> arg = rs ''--argjson'' then
        (case parse_jq_arg_pair args arg of
           Inl message \<Rightarrow> Inl message
         | Inr (name, v) \<Rightarrow> Inr (drop 2 args, options_done, push_var name v (arg = rs ''--argjson'') p))
      else if starts_with arg (rs ''--'') then Inl (rs ''jq: unsupported option '' @ [39] @ arg @ [39, 10])
      else
        (case jq_flag_chars (drop 1 arg) p of
           Inr p1 \<Rightarrow> Inr (args, options_done, p1)
         | Inl flag \<Rightarrow> Inl (rs ''jq: unsupported option '' @ [39, 45, flag, 39, 10])))"

lemma jq_option_shorter: "jq_option arg args d p = Inr (rest, d1, p1) \<Longrightarrow> length rest \<le> length args"
  by (auto simp: jq_option_def split: if_splits list.splits sum.splits prod.splits)

function parse_jq_loop :: "rstr list \<Rightarrow> rstr option \<Rightarrow> bool \<Rightarrow> jq_options \<Rightarrow> rstr + rstr option \<times> jq_options" where
  "parse_jq_loop [] flt options_done p = Inr (flt, p)"
| "parse_jq_loop (arg # args) flt options_done p =
     (if flt \<noteq> None then Inr (flt, p\<lparr>jo_files := jo_files p @ arg # args\<rparr>)
      else if options_done \<or> \<not> starts_with arg [45] \<or> arg = [45] then parse_jq_loop args (Some arg) options_done p
      else
        (case jq_option arg args options_done p of
           Inl message \<Rightarrow> Inl message
         | Inr (rest, options_done1, p1) \<Rightarrow> parse_jq_loop rest flt options_done1 p1))"
  by pat_completeness auto

termination
  by (relation "measure (\<lambda>(args, flt, options_done, p). length args)") (auto dest: jq_option_shorter)

definition jq_options_initial :: jq_options where
  "jq_options_initial =
     \<lparr>jo_filter = [], jo_files = [], jo_raw_output = False, jo_join_output = False, jo_compact_output = False,
      jo_exit_status = False, jo_null_input = False, jo_slurp = False, jo_sort_keys = False, jo_indent = rs ''  '', jo_vars = []\<rparr>"

definition parse_jq_args :: "rstr list \<Rightarrow> rstr + jq_options" where
  "parse_jq_args args =
     (case parse_jq_loop args None False jq_options_initial of
        Inl message \<Rightarrow> Inl message
      | Inr (None, p) \<Rightarrow> Inl (rs ''jq: missing filter'' @ [10])
      | Inr (Some flt, p) \<Rightarrow>
          Inr (p\<lparr>jo_filter := flt, jo_compact_output := jo_compact_output p \<or> jo_indent p = []\<rparr>))"

subsection \<open>What the parser accepts\<close>

text \<open>\<open>-j\<close> implies \<open>-r\<close>, an empty indentation implies \<open>-c\<close>, and variables have names.\<close>

definition jq_var_ok :: "jq_variable \<Rightarrow> bool" where
  "jq_var_ok v \<longleftrightarrow> (case jv_name v of [] \<Rightarrow> False | c # name \<Rightarrow> c = 36 \<and> is_jq_var_name name)"

definition jq_indent_ok :: "rstr \<Rightarrow> bool" where
  "jq_indent_ok i \<longleftrightarrow> i = [9] \<or> length i \<le> 8 \<and> i = replicate (length i) 32"

definition jq_parse_ok :: "jq_options \<Rightarrow> bool" where
  "jq_parse_ok p \<longleftrightarrow> (jo_join_output p \<longrightarrow> jo_raw_output p) \<and> jq_indent_ok (jo_indent p) \<and> list_all jq_var_ok (jo_vars p)"

definition jq_options_ok :: "jq_options \<Rightarrow> bool" where
  "jq_options_ok p \<longleftrightarrow> jq_parse_ok p \<and> (jo_indent p = [] \<longrightarrow> jo_compact_output p)"

text \<open>The canonical command line of some options.\<close>

definition jq_flags_of :: "jq_options \<Rightarrow> rstr" where
  "jq_flags_of p =
     (if jo_raw_output p then [114] else []) @ (if jo_join_output p then [106] else []) @ (if jo_compact_output p then [99] else [])
     @ (if jo_exit_status p then [101] else []) @ (if jo_null_input p then [110] else []) @ (if jo_slurp p then [115] else [])
     @ (if jo_sort_keys p then [83] else [])"

definition jq_var_args :: "jq_variable \<Rightarrow> rstr list" where
  "jq_var_args v = [if jv_json v then rs ''--argjson'' else rs ''--arg'', drop 1 (jv_name v), jv_value v]"

definition jq_indent_args :: "rstr \<Rightarrow> rstr list" where
  "jq_indent_args i = (if i = [9] then [rs ''--tab''] else [rs ''--indent'', show_nat (length i)])"

definition jq_args_of :: "jq_options \<Rightarrow> rstr list" where
  "jq_args_of p = map (\<lambda>c. [45, c]) (jq_flags_of p) @ jq_indent_args (jo_indent p)
     @ concat (map jq_var_args (jo_vars p)) @ rs ''--'' # jo_filter p # jo_files p"

lemma jq_flag_ok: "jq_flag c p = Some p1 \<Longrightarrow> jq_parse_ok p \<Longrightarrow> jq_parse_ok p1"
  by (auto simp: jq_flag_def jq_parse_ok_def split: if_splits)

lemma jq_flag_chars_ok: "jq_flag_chars cs p = Inr p1 \<Longrightarrow> jq_parse_ok p \<Longrightarrow> jq_parse_ok p1"
  by (induction cs p rule: jq_flag_chars.induct) (auto split: option.splits dest: jq_flag_ok)

lemma jq_indent_parsed: "parse_jq_indent v = Inr i \<Longrightarrow> jq_indent_ok i"
  by (auto simp: parse_jq_indent_def jq_indent_ok_def Let_def split: option.splits if_splits)

lemma jq_pair_parsed: "parse_jq_arg_pair args opt = Inr (name, v) \<Longrightarrow> is_jq_var_name name"
  by (auto simp: parse_jq_arg_pair_def split: list.splits if_splits)

lemma push_var_ok: "is_jq_var_name name \<Longrightarrow> jq_parse_ok p \<Longrightarrow> jq_parse_ok (push_var name v json p)"
  by (simp add: push_var_def jq_parse_ok_def jq_var_ok_def)

lemma jq_option_ok:
  assumes "jq_option arg args d p = Inr (rest, d1, p1)" "jq_parse_ok p"
  shows "jq_parse_ok p1"
proof -
  have indent: "jq_parse_ok (p\<lparr>jo_indent := i\<rparr>)" if "jq_indent_ok i" for i
    using assms(2) that by (simp add: jq_parse_ok_def)
  have tab: "jq_indent_ok [9]" by (simp add: jq_indent_ok_def)
  show ?thesis
    using assms indent [OF tab]
    by (auto simp: jq_option_def split: if_splits list.splits sum.splits prod.splits
        dest: jq_pair_parsed jq_flag_chars_ok intro: push_var_ok indent jq_indent_parsed)
qed

lemma parse_jq_loop_ok:
  "parse_jq_loop args flt d p = Inr (f, p1) \<Longrightarrow> jq_parse_ok p \<Longrightarrow> jq_parse_ok p1"
proof (induction args flt d p rule: parse_jq_loop.induct)
  case (2 arg args flt d p)
  have "jq_parse_ok (p\<lparr>jo_files := fs\<rparr>)" for fs using 2(4) by (simp add: jq_parse_ok_def)
  then show ?case
    using 2 by (auto split: if_splits sum.splits prod.splits dest: jq_option_ok)
qed simp

subsection \<open>The canonical command line is parsed back\<close>

lemma parse_jq_flags:
  assumes "jq_flag_chars cs p = Inr p1" "list_all (\<lambda>c. c \<noteq> 45) cs"
  shows "parse_jq_loop (map (\<lambda>c. [45, c]) cs @ rest) None False p = parse_jq_loop rest None False p1"
  using assms by (induction cs p rule: jq_flag_chars.induct) (auto simp: starts_with_def jq_option_def split: option.splits)

lemma jq_flag_chars_if:
  "jq_flag c q \<noteq> None \<Longrightarrow> jq_flag_chars ((if b then [c] else []) @ cs) q = jq_flag_chars cs (if b then the (jq_flag c q) else q)"
  by auto

lemma jq_flags_parsed:
  assumes "jo_join_output p \<longrightarrow> jo_raw_output p"
  shows "jq_flag_chars (jq_flags_of p) jq_options_initial =
    Inr (p\<lparr>jo_filter := [], jo_files := [], jo_indent := rs ''  '', jo_vars := []\<rparr>)"
proof -
  have one: "jq_flag_chars (if b then [c] else []) q = Inr (if b then the (jq_flag c q) else q)" if "jq_flag c q \<noteq> None" for b c q
    using that by auto
  show ?thesis
    using assms by (simp add: jq_flags_of_def jq_flag_chars_if one jq_flag_def jq_options_initial_def)
qed

lemma show_small: "n \<le> 8 \<Longrightarrow> parse_usize (show_nat n) = Some n"
proof -
  assume n: "n \<le> 8"
  then have "show_nat n = [48 + n]" by (simp add: show_nat.simps)
  then show ?thesis using parse_show [of n usize_max] n by (simp add: parse_usize_def usize_max_def)
qed

lemma parse_jq_indent_args:
  assumes "jq_indent_ok i"
  shows "parse_jq_loop (jq_indent_args i @ rest) None False p = parse_jq_loop rest None False (p\<lparr>jo_indent := i\<rparr>)"
proof (cases "i = [9]")
  case True
  then show ?thesis by (simp add: jq_indent_args_def jq_option_def starts_with_def)
next
  case False
  then have i: "length i \<le> 8" "i = replicate (length i) 32" using assms by (auto simp: jq_indent_ok_def)
  have "parse_jq_indent (show_nat (length i)) = Inr (replicate (length i) 32)"
    using show_small [OF i(1)] i(1) by (simp add: parse_jq_indent_def Let_def)
  then show ?thesis using False i(2) by (simp add: jq_indent_args_def jq_option_def starts_with_def)
qed

lemma parse_jq_var:
  assumes "jq_var_ok v"
  shows "parse_jq_loop (jq_var_args v @ rest) None False p = parse_jq_loop rest None False (p\<lparr>jo_vars := jo_vars p @ [v]\<rparr>)"
proof -
  obtain name val json where v: "v = \<lparr>jv_name = 36 # name, jv_value = val, jv_json = json\<rparr>" "is_jq_var_name name"
    using assms by (cases v) (auto simp: jq_var_ok_def split: list.splits)
  then show ?thesis
    by (cases json) (simp_all add: jq_var_args_def jq_option_def starts_with_def parse_jq_arg_pair_def push_var_def)
qed

lemma parse_jq_vars:
  "list_all jq_var_ok vs \<Longrightarrow> parse_jq_loop (concat (map jq_var_args vs) @ rest) None False p
    = parse_jq_loop rest None False (p\<lparr>jo_vars := jo_vars p @ vs\<rparr>)"
  by (induction vs arbitrary: p) (simp_all add: parse_jq_var)

lemma parse_jq_rest:
  "parse_jq_loop (rs ''--'' # flt # fs) None False p = Inr (Some flt, if fs = [] then p else p\<lparr>jo_files := jo_files p @ fs\<rparr>)"
  by (cases fs) (simp_all add: jq_option_def starts_with_def)

lemma jq_canonical:
  assumes "jq_options_ok p"
  shows "parse_jq_args (jq_args_of p) = Inr p"
proof -
  have ok: "jo_join_output p \<longrightarrow> jo_raw_output p" "jq_indent_ok (jo_indent p)" "list_all jq_var_ok (jo_vars p)"
      "jo_indent p = [] \<longrightarrow> jo_compact_output p"
    using assms by (simp_all add: jq_options_ok_def jq_parse_ok_def)
  have "list_all (\<lambda>c. c \<noteq> 45) (jq_flags_of p)" by (simp add: jq_flags_of_def)
  then have "parse_jq_loop (jq_args_of p) None False jq_options_initial =
      parse_jq_loop (rs ''--'' # jo_filter p # jo_files p) None False (p\<lparr>jo_filter := [], jo_files := []\<rparr>)"
    using jq_flags_parsed [OF ok(1)] by (simp add: jq_args_of_def parse_jq_flags parse_jq_indent_args [OF ok(2)] parse_jq_vars [OF ok(3)])
  also have "\<dots> = Inr (Some (jo_filter p), p\<lparr>jo_filter := []\<rparr>)" by (simp only: parse_jq_rest) simp
  finally show ?thesis using ok(4) by (auto simp: parse_jq_args_def)
qed

lemma jq_accepted:
  assumes "parse_jq_args args = Inr p"
  shows "jq_options_ok p"
proof -
  obtain flt p1 where l: "parse_jq_loop args None False jq_options_initial = Inr (Some flt, p1)"
      and p: "p = p1\<lparr>jo_filter := flt, jo_compact_output := jo_compact_output p1 \<or> jo_indent p1 = []\<rparr>"
    using assms by (auto simp: parse_jq_args_def split: sum.splits prod.splits option.splits)
  have "jq_parse_ok jq_options_initial" by (simp add: jq_parse_ok_def jq_options_initial_def jq_indent_ok_def)
  from parse_jq_loop_ok [OF l this] show ?thesis by (simp add: p jq_options_ok_def jq_parse_ok_def)
qed

end
