(* ===== verification/Jq_Host.thy ===== *)
theory Jq_Host
  imports Jq_Args Exec
begin

text \<open>
  The host side of \<open>jq\<close> (\<open>src/sandbox/jq_runtime.rs\<close>): the state of one run, its limits, and the functions
  the guest imports. The guest's linear memory is a list of bytes. Time and the output channel are
  part of the state as the answers they will give; a run for which no more answers are listed meets
  neither its deadline nor a full channel.
\<close>

type_synonym i32 = "32 word"

definition usize_of_i32 :: "i32 \<Rightarrow> nat option" where
  "usize_of_i32 x = (if sint x < 0 then None else Some (nat (sint x)))"

definition i32_of_usize :: "nat \<Rightarrow> i32 option" where
  "i32_of_usize n = (if n < 2 ^ 31 then Some (of_nat n) else None)"

datatype jq_stream_message = Stdout "byte list" | Stderr "byte list" | Done command_result

datatype jq_trap = Interrupt | HostError rstr

text \<open>An attempt to send: delivered, no receiver, the channel is full, or the deadline or a cancellation is seen.\<close>

datatype send_turn = Delivered | ReceiverGone | Full | TimeUp

record jq_host =
  jh_inputs :: "byte list list"
  jh_sent :: "jq_stream_message list"
  jh_checks :: "bool list"
  jh_turns :: "send_turn list"
  jh_memory_limit :: nat
  jh_peak_memory :: nat
  jh_memory_exceeded :: bool

definition checkpoint :: "jq_host \<Rightarrow> jq_host \<times> (jq_trap + unit)" where
  "checkpoint h =
     (case jh_checks h of
        [] \<Rightarrow> (h, Inr ())
      | stop # checks \<Rightarrow> (h\<lparr>jh_checks := checks\<rparr>, if stop then Inl Interrupt else Inr ()))"

definition memory_growing :: "jq_host \<Rightarrow> nat \<Rightarrow> jq_host \<times> (jq_trap + bool)" where
  "memory_growing h desired =
     (if jh_memory_limit h < desired
      then (h\<lparr>jh_memory_exceeded := True\<rparr>, Inl (HostError (rs ''jq memory limit exceeded'')))
      else (h\<lparr>jh_peak_memory := max (jh_peak_memory h) desired\<rparr>, Inr True))"

definition table_growing :: "nat \<Rightarrow> bool" where
  "table_growing desired \<longleftrightarrow> desired \<le> 16384"

text \<open>The loop waits for a place in the channel.\<close>

fun send_wait :: "send_turn list \<Rightarrow> send_turn list \<times> (jq_trap + bool)" where
  "send_wait [] = ([], Inr True)"
| "send_wait (Delivered # ts) = (ts, Inr True)"
| "send_wait (ReceiverGone # ts) = (ts, Inr False)"
| "send_wait (Full # ts) = send_wait ts"
| "send_wait (TimeUp # ts) = (ts, Inl Interrupt)"

fun try_send :: "send_turn list \<Rightarrow> (send_turn list \<times> bool) option" where
  "try_send [] = Some ([], True)"
| "try_send (Delivered # ts) = Some (ts, True)"
| "try_send (ReceiverGone # ts) = Some (ts, False)"
| "try_send ts = None"

definition send :: "jq_host \<Rightarrow> jq_stream_message \<Rightarrow> jq_host \<times> (jq_trap + bool)" where
  "send h message =
     (case (case try_send (jh_turns h) of Some (ts, b) \<Rightarrow> (ts, Inr b) | None \<Rightarrow> send_wait (jh_turns h)) of
        (ts, Inr True) \<Rightarrow> (h\<lparr>jh_turns := ts, jh_sent := jh_sent h @ [message]\<rparr>, Inr True)
      | (ts, r) \<Rightarrow> (h\<lparr>jh_turns := ts\<rparr>, r))"

definition transfer_range :: "i32 \<Rightarrow> i32 \<Rightarrow> jq_trap + nat \<times> nat" where
  "transfer_range ptr len =
     (let start = unat ptr in
      case usize_of_i32 len of
        None \<Rightarrow> Inl (HostError (rs ''out of range integral type conversion attempted''))
      | Some n \<Rightarrow>
          if stream_chunk_bytes < n then Inl (HostError (rs ''jq host transfer exceeds chunk limit''))
          else
            (case checked_add start n of
               None \<Rightarrow> Inl (HostError (rs ''jq pointer overflow''))
             | Some e \<Rightarrow> Inr (start, e)))"

text \<open>A range of the memory, \<open>None\<close> when it does not lie in it.\<close>

definition mem_slice :: "byte list \<Rightarrow> nat \<times> nat \<Rightarrow> byte list option" where
  "mem_slice mem r = (if snd r \<le> length mem then Some (take (snd r - fst r) (drop (fst r) mem)) else None)"

definition mem_patch :: "byte list \<Rightarrow> nat \<Rightarrow> byte list \<Rightarrow> byte list" where
  "mem_patch mem start bs = take start mem @ bs @ drop (start + length bs) mem"

definition list_get :: "'a list \<Rightarrow> nat \<Rightarrow> 'a option" where
  "list_get xs i = (if i < length xs then Some (xs ! i) else None)"

definition input_len :: "jq_host \<Rightarrow> i32 \<Rightarrow> jq_host \<times> (jq_trap + i32)" where
  "input_len h index =
     (case checkpoint h of
        (h1, Inl e) \<Rightarrow> (h1, Inl e)
      | (h1, Inr _) \<Rightarrow>
          (h1, Inr (case Option.bind (Option.bind (usize_of_i32 index) (list_get (jh_inputs h1))) (\<lambda>input. i32_of_usize (length input)) of
                      None \<Rightarrow> - 1 | Some n \<Rightarrow> n)))"

definition read_input ::
  "jq_host \<Rightarrow> byte list \<Rightarrow> i32 \<Rightarrow> i32 \<Rightarrow> i32 \<Rightarrow> i32 \<Rightarrow> (jq_host \<times> byte list) \<times> (jq_trap + i32)" where
  "read_input h mem index offset ptr len =
     (case checkpoint h of
        (h1, Inl e) \<Rightarrow> ((h1, mem), Inl e)
      | (h1, Inr _) \<Rightarrow>
          (case transfer_range ptr len of
             Inl e \<Rightarrow> ((h1, mem), Inl e)
           | Inr r \<Rightarrow>
               (case Option.bind (Option.bind (usize_of_i32 index) (list_get (jh_inputs h1)))
                   (\<lambda>input. Option.bind (usize_of_i32 offset) (\<lambda>k. if k \<le> length input then Some (drop k input) else None)) of
                  None \<Rightarrow> ((h1, mem), Inl (HostError (rs ''invalid jq input range'')))
                | Some src \<Rightarrow>
                    (case mem_slice mem r of
                       None \<Rightarrow> ((h1, mem), Inl (HostError (rs ''invalid jq memory range'')))
                     | Some target \<Rightarrow>
                         let n = min (length src) (length target) in
                         ((h1, mem_patch mem (fst r) (take n src)), Inr (of_nat n))))))"

definition write_output :: "jq_host \<Rightarrow> byte list \<Rightarrow> i32 \<Rightarrow> i32 \<Rightarrow> i32 \<Rightarrow> jq_host \<times> (jq_trap + i32)" where
  "write_output h mem kind ptr len =
     (case checkpoint h of
        (h1, Inl e) \<Rightarrow> (h1, Inl e)
      | (h1, Inr _) \<Rightarrow>
          (case transfer_range ptr len of
             Inl e \<Rightarrow> (h1, Inl e)
           | Inr r \<Rightarrow>
               (case mem_slice mem r of
                  None \<Rightarrow> (h1, Inl (HostError (rs ''invalid jq output range'')))
                | Some bytes \<Rightarrow>
                    (case (if kind = 1 then Some (Stdout bytes) else if kind = 2 then Some (Stderr bytes) else None) of
                       None \<Rightarrow> (h1, Inl (HostError (rs ''invalid jq output stream'')))
                     | Some message \<Rightarrow>
                         (case send h1 message of
                            (h2, Inl e) \<Rightarrow> (h2, Inl e)
                          | (h2, Inr sent) \<Rightarrow> (h2, Inr (if sent then len else - 1)))))))"

subsection \<open>One run\<close>

text \<open>\<open>BoundedConfig\<close>: the configuration is refused as soon as it exceeds the limit.\<close>

definition config_write :: "nat \<Rightarrow> byte list \<Rightarrow> byte list \<Rightarrow> byte list option" where
  "config_write limit config bytes = (if limit - length config < length bytes then None else Some (config @ bytes))"

fun config_writes :: "nat \<Rightarrow> byte list \<Rightarrow> byte list list \<Rightarrow> byte list option" where
  "config_writes limit config [] = Some config"
| "config_writes limit config (w # ws) =
     Option.bind (config_write limit config w) (\<lambda>config1. config_writes limit config1 ws)"

text \<open>
  \<open>encode\<close> is the list of pieces \<open>serde_json\<close> writes for a request, \<open>runtime\<close> the error of the engine's
  start, and \<open>guest\<close> the instantiated module's \<open>run\<close> with the imports above.
\<close>

definition run_inner ::
  "(jq_request \<Rightarrow> byte list list) \<Rightarrow> rstr option \<Rightarrow> (jq_host \<Rightarrow> jq_host \<times> (jq_trap + int)) \<Rightarrow> limits
   \<Rightarrow> jq_options \<Rightarrow> jq_input_source list \<Rightarrow> jq_host \<Rightarrow> jq_host \<times> (rstr + command_result \<times> rstr option)" where
  "run_inner encode runtime guest l options inputs h0 =
     (case checkpoint h0 of
        (h1, Inl e) \<Rightarrow> (h1, Inr (result_new 124, None))
      | (h1, Inr _) \<Rightarrow>
          (case runtime of
             Some message \<Rightarrow> (h1, Inl message)
           | None \<Rightarrow>
               (case config_writes (max (host_input_bytes l) (shell_input_bytes l)) []
                   (encode \<lparr>jr_options = options, jr_paths = map ji_path inputs\<rparr>) of
                  None \<Rightarrow> (h1, Inl (rs ''jq configuration exceeds host input limit''))
                | Some config \<Rightarrow>
                    let h2 = h1\<lparr>jh_inputs := config # map ji_data inputs, jh_memory_limit := jq_memory_bytes l,
                          jh_peak_memory := 0, jh_memory_exceeded := False\<rparr> in
                    (case (case checkpoint h2 of (h3, Inl e) \<Rightarrow> (h3, Inl e) | (h3, Inr _) \<Rightarrow> guest h3) of
                       (h4, r) \<Rightarrow>
                         (case (case r of
                              Inr code \<Rightarrow> (h4, code, None)
                            | Inl e \<Rightarrow>
                                if jh_memory_exceeded h4 then (h4, 5, Some (rs ''jq: memory limit exceeded'' @ [10]))
                                else
                                  (case e of
                                     Interrupt \<Rightarrow> (h4, 124, None)
                                   | HostError message \<Rightarrow>
                                       (case checkpoint h4 of
                                          (h5, Inl _) \<Rightarrow> (h5, 124, None)
                                        | (h5, Inr _) \<Rightarrow>
                                            (h5, 5, Some (rs ''jq: guest execution failed: '' @ message @ [10]))))) of
                            (h6, code, message) \<Rightarrow>
                              (h6, Inr (\<lparr>cr_exit_code = code, cr_peak = Some (jh_peak_memory h6)\<rparr>, message)))))))"

definition run_jq ::
  "(jq_request \<Rightarrow> byte list list) \<Rightarrow> rstr option \<Rightarrow> (jq_host \<Rightarrow> jq_host \<times> (jq_trap + int)) \<Rightarrow> limits
   \<Rightarrow> jq_options \<Rightarrow> jq_input_source list \<Rightarrow> jq_host \<Rightarrow> jq_host" where
  "run_jq encode runtime guest l options inputs h =
     (case run_inner encode runtime guest l options inputs h of
        (h1, r) \<Rightarrow>
          (case (case r of Inr x \<Rightarrow> x | Inl message \<Rightarrow> (result_new 5, Some (rs ''jq: '' @ message @ [10]))) of
             (result, message) \<Rightarrow>
               let h2 = (case message of None \<Rightarrow> h1 | Some m \<Rightarrow> fst (send h1 (Stderr (utf8 m)))) in
               fst (send h2 (Done result))))"

subsection \<open>Facts about the imports\<close>

lemma usize_of_nat: "n < 2 ^ 31 \<Longrightarrow> usize_of_i32 (of_nat n) = Some n"
proof -
  assume n: "n < 2 ^ 31"
  then have "sint (of_nat n :: i32) = int n" by (simp add: signed_of_nat signed_take_bit_int_eq_self)
  then show ?thesis by (simp add: usize_of_i32_def)
qed

lemma unat_ptr: "n < 2 ^ 32 \<Longrightarrow> unat (of_nat n :: i32) = n"
  by (simp add: unat_of_nat)

lemma length_mem_patch [simp]: "start + length bs \<le> length mem \<Longrightarrow> length (mem_patch mem start bs) = length mem"
  by (simp add: mem_patch_def)

lemma transfer_range_small:
  assumes "start < 2 ^ 32" "n \<le> stream_chunk_bytes"
  shows "transfer_range (of_nat start) (of_nat n) = Inr (start, start + n)"
  using assms usize_of_nat [of n] unat_ptr [of start]
  by (simp add: transfer_range_def Let_def stream_chunk_bytes_def checked_add_def u64_max_def)

lemma send_delivers: "jh_turns h = [] \<Longrightarrow> send h m = (h\<lparr>jh_sent := jh_sent h @ [m]\<rparr>, Inr True)"
  by (simp add: send_def)

lemma checkpoint_passes: "jh_checks h = [] \<Longrightarrow> checkpoint h = (h, Inr ())"
  by (simp add: checkpoint_def)

text \<open>The guest reads its input chunk by chunk.\<close>

lemma read_input_chunk:
  assumes "jh_checks h = []" "i < length (jh_inputs h)" "i < 2 ^ 31" "k \<le> length (jh_inputs h ! i)" "k < 2 ^ 31"
    "ptr + n \<le> length mem" "ptr < 2 ^ 32" "n \<le> stream_chunk_bytes" "k + n \<le> length (jh_inputs h ! i)"
  shows "read_input h mem (of_nat i) (of_nat k) (of_nat ptr) (of_nat n) =
    ((h, mem_patch mem ptr (take n (drop k (jh_inputs h ! i)))), Inr (of_nat n))"
proof -
  have m: "mem_slice mem (ptr, ptr + n) = Some (take n (drop ptr mem))" using assms(6) by (simp add: mem_slice_def)
  have n: "min (length (drop k (jh_inputs h ! i))) (length (take n (drop ptr mem))) = n" using assms(6,9) by simp
  show ?thesis
    using assms(1,2,4) unfolding read_input_def checkpoint_passes [OF assms(1)] usize_of_nat [OF assms(3)] usize_of_nat [OF assms(5)]
      transfer_range_small [OF assms(7,8)]
    by (simp add: list_get_def m Let_def n del: length_drop length_take)
qed

lemma write_output_chunk:
  assumes "jh_checks h = []" "jh_turns h = []" "ptr + n \<le> length mem" "ptr < 2 ^ 32" "n \<le> stream_chunk_bytes" "kind = 1 \<or> kind = 2"
  shows "write_output h mem kind (of_nat ptr) (of_nat n) =
    (h\<lparr>jh_sent := jh_sent h @ [(if kind = 1 then Stdout else Stderr) (take n (drop ptr mem))]\<rparr>, Inr (of_nat n))"
proof -
  have "mem_slice mem (ptr, ptr + n) = Some (take n (drop ptr mem))" using assms(3) by (simp add: mem_slice_def)
  then show ?thesis
    using assms transfer_range_small [of ptr n] by (auto simp: write_output_def checkpoint_passes send_delivers)
qed

lemma config_writes_spec:
  "length config \<le> limit \<Longrightarrow>
    config_writes limit config ws = (if length config + length (concat ws) \<le> limit then Some (config @ concat ws) else None)"
  by (induction ws arbitrary: config) (auto simp: config_write_def)

end
