(* ===== verification/Jq_Filter.thy ===== *)
theory Jq_Filter
  imports Builtin_Text
begin

text \<open>
  The checks a filter passes before it reaches the jaq parser (\<open>guests/jq/src/evaluator.rs\<close>). The parser
  recurses on grouped and on prefix terms, so the checks bound the nesting and the number of tokens.
\<close>

datatype jq_error = Compile rstr | Runtime rstr | Halt int

definition max_jq_filter_source_bytes :: nat where
  "max_jq_filter_source_bytes = 256 * 1024"

definition max_jq_filter_nesting :: nat where
  "max_jq_filter_nesting = 512"

definition max_jq_filter_syntax_tokens :: nat where
  "max_jq_filter_syntax_tokens = 1024"

datatype filter_delimiter = Paren | Bracket | Brace | Interpolation

record filter_scan =
  fl_stack :: "filter_delimiter list"
  fl_tokens :: nat
  fl_in_string :: bool
  fl_escaped :: bool
  fl_in_comment :: bool

definition push_filter_delimiter :: "filter_delimiter \<Rightarrow> filter_scan \<Rightarrow> jq_error + filter_scan" where
  "push_filter_delimiter d s =
     (if max_jq_filter_nesting < Suc (length (fl_stack s))
      then Inl (Compile (rs ''jq filter nesting exceeds maximum depth '' @ show_nat max_jq_filter_nesting))
      else Inr (s\<lparr>fl_stack := d # fl_stack s\<rparr>))"

definition pop_filter_delimiter :: "filter_delimiter \<Rightarrow> filter_scan \<Rightarrow> filter_scan \<times> bool" where
  "pop_filter_delimiter fallback s =
     (case fl_stack s of
        [] \<Rightarrow> (s, fallback = Interpolation)
      | d # ds \<Rightarrow> (s\<lparr>fl_stack := ds\<rparr>, d = Interpolation))"

definition bump_filter_syntax_token :: "filter_scan \<Rightarrow> jq_error + filter_scan" where
  "bump_filter_syntax_token s =
     (if max_jq_filter_syntax_tokens < Suc (fl_tokens s)
      then Inl (Compile (rs ''jq filter complexity exceeds maximum token count '' @ show_nat max_jq_filter_syntax_tokens))
      else Inr (s\<lparr>fl_tokens := Suc (fl_tokens s)\<rparr>))"

definition is_jq_ident_start :: "byte \<Rightarrow> bool" where
  "is_jq_ident_start b \<longleftrightarrow> is_ascii_alphabetic (unat b) \<or> b = 95"

definition is_jq_ident_continue :: "byte \<Rightarrow> bool" where
  "is_jq_ident_continue b \<longleftrightarrow> is_ascii_alphanumeric (unat b) \<or> b = 95"

definition two_byte_operators :: "byte list list" where
  "two_byte_operators =
     [[47, 47], [61, 61], [33, 61], [60, 61], [62, 61], [43, 61], [45, 61], [42, 61], [47, 61], [37, 61], [124, 61]]"

definition jq_operator_len :: "byte list \<Rightarrow> nat" where
  "jq_operator_len rest = (if take 2 rest \<in> set two_byte_operators then 2 else 1)"

text \<open>A token, and what it opens.\<close>

definition open_delimiter :: "filter_delimiter \<Rightarrow> filter_scan \<Rightarrow> jq_error + filter_scan" where
  "open_delimiter d s =
     (case push_filter_delimiter d s of Inl e \<Rightarrow> Inl e | Inr s1 \<Rightarrow> bump_filter_syntax_token s1)"

definition close_delimiter :: "filter_delimiter \<Rightarrow> filter_scan \<Rightarrow> jq_error + filter_scan \<times> bool" where
  "close_delimiter fallback s =
     (case bump_filter_syntax_token s of Inl e \<Rightarrow> Inl e | Inr s1 \<Rightarrow> Inr (pop_filter_delimiter fallback s1))"

text \<open>One turn of the loop at the first byte: the state behind it, and the bytes that are left.\<close>

definition filter_step :: "byte \<Rightarrow> byte list \<Rightarrow> filter_scan \<Rightarrow> jq_error + filter_scan \<times> byte list" where
  "filter_step b bs s =
     (let go = (\<lambda>r. case r of Inl e \<Rightarrow> Inl e | Inr s1 \<Rightarrow> Inr (s1, bs)) in
      if fl_in_comment s then Inr (if b = 10 then s\<lparr>fl_in_comment := False\<rparr> else s, bs)
      else if fl_in_string s then
        if fl_escaped s then
          if b = 40 then
            go (case open_delimiter Interpolation (s\<lparr>fl_escaped := False\<rparr>) of
                  Inl e \<Rightarrow> Inl e | Inr s1 \<Rightarrow> Inr (s1\<lparr>fl_in_string := False\<rparr>))
          else Inr (s\<lparr>fl_escaped := False\<rparr>, bs)
        else Inr (if b = 92 then s\<lparr>fl_escaped := True\<rparr> else if b = 34 then s\<lparr>fl_in_string := False\<rparr> else s, bs)
      else if is_ascii_whitespace b then Inr (s, bs)
      else if b = 35 then Inr (s\<lparr>fl_in_comment := True\<rparr>, bs)
      else if b = 34 then
        go (case bump_filter_syntax_token s of Inl e \<Rightarrow> Inl e | Inr s1 \<Rightarrow> Inr (s1\<lparr>fl_in_string := True\<rparr>))
      else if b = 40 then go (open_delimiter Paren s)
      else if b = 91 then go (open_delimiter Bracket s)
      else if b = 123 then go (open_delimiter Brace s)
      else if b = 41 then
        go (case close_delimiter Paren s of
              Inl e \<Rightarrow> Inl e | Inr (s1, interpolated) \<Rightarrow> Inr (if interpolated then s1\<lparr>fl_in_string := True\<rparr> else s1))
      else if b = 93 then go (case close_delimiter Bracket s of Inl e \<Rightarrow> Inl e | Inr (s1, _) \<Rightarrow> Inr s1)
      else if b = 125 then go (case close_delimiter Brace s of Inl e \<Rightarrow> Inl e | Inr (s1, _) \<Rightarrow> Inr s1)
      else
        (case bump_filter_syntax_token s of
           Inl e \<Rightarrow> Inl e
         | Inr s1 \<Rightarrow>
             Inr (s1,
               if is_jq_ident_start b then dropWhile is_jq_ident_continue bs
               else if is_ascii_digit (unat b) then dropWhile (\<lambda>c. is_ascii_digit (unat c)) bs
               else drop (jq_operator_len (b # bs) - 1) bs)))"

lemma filter_step_shorter: "filter_step b bs s = Inr (s1, rest) \<Longrightarrow> length rest \<le> length bs"
  by (auto simp: filter_step_def Let_def length_dropWhile_le split: if_splits sum.splits prod.splits)

function filter_loop :: "byte list \<Rightarrow> filter_scan \<Rightarrow> jq_error + unit" where
  "filter_loop [] s = Inr ()"
| "filter_loop (b # bs) s = (case filter_step b bs s of Inl e \<Rightarrow> Inl e | Inr (s1, rest) \<Rightarrow> filter_loop rest s1)"
  by pat_completeness auto

termination
  by (relation "measure (\<lambda>(bs, s). length bs)") (auto dest: filter_step_shorter)

definition filter_scan_initial :: filter_scan where
  "filter_scan_initial = \<lparr>fl_stack = [], fl_tokens = 0, fl_in_string = False, fl_escaped = False, fl_in_comment = False\<rparr>"

text \<open>The argument is the filter as bytes.\<close>

definition validate_filter_source :: "byte list \<Rightarrow> jq_error + unit" where
  "validate_filter_source bytes =
     (if max_jq_filter_source_bytes < length bytes
      then Inl (Compile (rs ''jq filter source exceeds maximum size '' @ show_nat max_jq_filter_source_bytes @ rs '' bytes''))
      else filter_loop bytes filter_scan_initial)"

subsection \<open>What the checks accept\<close>

text \<open>
  Filters as trees: words, numbers and operators, groups, and strings with interpolated filters. The
  nesting and the tokens of a tree are counted without scanning.
\<close>

datatype jq_piece =
    Ident "byte list"
  | Number "byte list"
  | Operator "byte list"
  | Group filter_delimiter "jq_piece list"
  | Quoted "quote_part list"
and quote_part =
    Literal byte
  | Escape byte
  | Interpolated "jq_piece list"

definition open_byte :: "filter_delimiter \<Rightarrow> byte" where
  "open_byte d = (case d of Paren \<Rightarrow> 40 | Bracket \<Rightarrow> 91 | Brace \<Rightarrow> 123 | Interpolation \<Rightarrow> 40)"

definition close_byte :: "filter_delimiter \<Rightarrow> byte" where
  "close_byte d = (case d of Paren \<Rightarrow> 41 | Bracket \<Rightarrow> 93 | Brace \<Rightarrow> 125 | Interpolation \<Rightarrow> 41)"

primrec piece_text :: "jq_piece \<Rightarrow> byte list" and part_text :: "quote_part \<Rightarrow> byte list" where
  "piece_text (Ident w) = w @ [32]"
| "piece_text (Number w) = w @ [32]"
| "piece_text (Operator w) = w @ [32]"
| "piece_text (Group d ps) = open_byte d # concat (map piece_text ps) @ [close_byte d]"
| "piece_text (Quoted qs) = 34 # concat (map part_text qs) @ [34]"
| "part_text (Literal b) = [b]"
| "part_text (Escape b) = [92, b]"
| "part_text (Interpolated ps) = [92, 40] @ concat (map piece_text ps) @ [41]"

primrec piece_tokens :: "jq_piece \<Rightarrow> nat" and part_tokens :: "quote_part \<Rightarrow> nat" where
  "piece_tokens (Ident w) = 1"
| "piece_tokens (Number w) = 1"
| "piece_tokens (Operator w) = 1"
| "piece_tokens (Group d ps) = 2 + sum_list (map piece_tokens ps)"
| "piece_tokens (Quoted qs) = 1 + sum_list (map part_tokens qs)"
| "part_tokens (Literal b) = 0"
| "part_tokens (Escape b) = 0"
| "part_tokens (Interpolated ps) = 2 + sum_list (map piece_tokens ps)"

primrec piece_nesting :: "jq_piece \<Rightarrow> nat" and part_nesting :: "quote_part \<Rightarrow> nat" where
  "piece_nesting (Ident w) = 0"
| "piece_nesting (Number w) = 0"
| "piece_nesting (Operator w) = 0"
| "piece_nesting (Group d ps) = Suc (foldr max (map piece_nesting ps) 0)"
| "piece_nesting (Quoted qs) = foldr max (map part_nesting qs) 0"
| "part_nesting (Literal b) = 0"
| "part_nesting (Escape b) = 0"
| "part_nesting (Interpolated ps) = Suc (foldr max (map piece_nesting ps) 0)"

text \<open>A byte that is an operator by itself.\<close>

definition operator_byte :: "byte \<Rightarrow> bool" where
  "operator_byte b \<longleftrightarrow> b \<notin> set [34, 35, 40, 41, 91, 93, 123, 125] \<and> \<not> is_ascii_whitespace b
     \<and> \<not> is_jq_ident_start b \<and> \<not> is_ascii_digit (unat b)"

primrec piece_ok :: "jq_piece \<Rightarrow> bool" and part_ok :: "quote_part \<Rightarrow> bool" where
  "piece_ok (Ident w) \<longleftrightarrow> w \<noteq> [] \<and> is_jq_ident_start (hd w) \<and> list_all is_jq_ident_continue (tl w)"
| "piece_ok (Number w) \<longleftrightarrow> w \<noteq> [] \<and> list_all (\<lambda>c. is_ascii_digit (unat c)) w"
| "piece_ok (Operator w) \<longleftrightarrow> w \<in> set two_byte_operators \<or> length w = 1 \<and> operator_byte (hd w)"
| "piece_ok (Group d ps) \<longleftrightarrow> d \<noteq> Interpolation \<and> list_all piece_ok ps"
| "piece_ok (Quoted qs) \<longleftrightarrow> list_all part_ok qs"
| "part_ok (Literal b) \<longleftrightarrow> b \<noteq> 34 \<and> b \<noteq> 92"
| "part_ok (Escape b) \<longleftrightarrow> b \<noteq> 40"
| "part_ok (Interpolated ps) \<longleftrightarrow> list_all piece_ok ps"

abbreviation scan_at :: "filter_delimiter list \<Rightarrow> nat \<Rightarrow> bool \<Rightarrow> filter_scan" where
  "scan_at st n q \<equiv> \<lparr>fl_stack = st, fl_tokens = n, fl_in_string = q, fl_escaped = False, fl_in_comment = False\<rparr>"

text \<open>The text is read exactly when it keeps within the limits, and its tokens are counted.\<close>

definition read_as :: "byte list \<Rightarrow> nat \<Rightarrow> nat \<Rightarrow> bool \<Rightarrow> bool" where
  "read_as bs t m q \<longleftrightarrow>
     (\<forall>st n rest. filter_loop (bs @ rest) (scan_at st n q) = Inr () \<longleftrightarrow>
        (t = 0 \<or> n + t \<le> max_jq_filter_syntax_tokens) \<and> (m = 0 \<or> length st + m \<le> max_jq_filter_nesting)
        \<and> filter_loop rest (scan_at st (n + t) q) = Inr ())"

lemma read_as_Nil: "read_as [] 0 0 q"
  by (simp add: read_as_def)

lemma read_as_append: "read_as bs t m q \<Longrightarrow> read_as bs' t' m' q \<Longrightarrow> read_as (bs @ bs') (t + t') (max m m') q"
  by (auto simp: read_as_def add.assoc max_def split: if_splits)

lemma read_as_concat:
  "(\<And>x. x \<in> set xs \<Longrightarrow> read_as (tx x) (tk x) (ns x) q)
    \<Longrightarrow> read_as (concat (map tx xs)) (sum_list (map tk xs)) (foldr max (map ns xs) 0) q"
  by (induction xs) (auto intro: read_as_append read_as_Nil)

lemma read_as_token:
  assumes "w \<noteq> []" "\<And>st n rest. filter_step (hd w) (tl w @ rest) (scan_at st n False) =
    (case bump_filter_syntax_token (scan_at st n False) of Inl e \<Rightarrow> Inl e | Inr s1 \<Rightarrow> Inr (s1, 32 # rest))"
  shows "read_as w 1 0 False"
proof -
  obtain b bs where w: "w = b # bs" using assms(1) by (cases w) auto
  have blank: "filter_loop (32 # rest) (scan_at st n False) = filter_loop rest (scan_at st n False)" for st n rest
    by (simp add: filter_step_def is_ascii_whitespace_def Let_def)
  show ?thesis
    using assms(2) blank by (auto simp: read_as_def w bump_filter_syntax_token_def split: if_splits)
qed

lemma not_special:
  "is_jq_ident_start b \<Longrightarrow> b \<notin> set [34, 35, 40, 41, 91, 93, 123, 125] \<and> \<not> is_ascii_whitespace b"
  "is_ascii_digit (unat b) \<Longrightarrow> b \<notin> set [34, 35, 40, 41, 91, 93, 123, 125] \<and> \<not> is_ascii_whitespace b \<and> \<not> is_jq_ident_start b"
  by (auto simp: is_jq_ident_start_def is_ascii_alphabetic_def is_ascii_digit_def is_ascii_whitespace_def)

lemma dropWhile_word: "list_all P w \<Longrightarrow> \<not> P 32 \<Longrightarrow> dropWhile P (w @ 32 # rest) = 32 # rest"
  by (induction w) auto

lemma read_as_ident:
  assumes "piece_ok (Ident w)"
  shows "read_as (piece_text (Ident w)) 1 0 False"
proof -
  obtain b bs where w: "w = b # bs" "is_jq_ident_start b" "list_all is_jq_ident_continue bs" using assms by (cases w) auto
  have "\<not> is_jq_ident_continue 32" by (simp add: is_jq_ident_continue_def is_ascii_alphanumeric_def is_ascii_alphabetic_def is_ascii_digit_def)
  note d = dropWhile_word [OF w(3) this]
  show ?thesis
    by (rule read_as_token) (use not_special(1) [OF w(2)] w(2) in \<open>simp_all add: w(1) filter_step_def Let_def d split: sum.split\<close>)
qed

lemma read_as_number:
  assumes "piece_ok (Number w)"
  shows "read_as (piece_text (Number w)) 1 0 False"
proof -
  obtain b bs where w: "w = b # bs" "is_ascii_digit (unat b)" "list_all (\<lambda>c. is_ascii_digit (unat c)) bs"
    using assms by (cases w) auto
  have "\<not> is_ascii_digit (unat (32 :: byte))" by (simp add: is_ascii_digit_def)
  note d = dropWhile_word [where P = "\<lambda>c. is_ascii_digit (unat c)", OF w(3) this]
  show ?thesis
    by (rule read_as_token) (use not_special(2) [OF w(2)] w(2) in \<open>simp_all add: w(1) filter_step_def Let_def d split: sum.split\<close>)
qed

lemma two_bytes:
  assumes "w \<in> set two_byte_operators"
  obtains b c where "w = [b, c]" "operator_byte b"
proof -
  have "list_all (\<lambda>w. length w = 2 \<and> operator_byte (hd w)) two_byte_operators"
    by (simp add: two_byte_operators_def operator_byte_def is_ascii_whitespace_def is_jq_ident_start_def
        is_ascii_alphabetic_def is_ascii_digit_def)
  then have "length w = 2" "operator_byte (hd w)" using assms by (auto simp: list_all_iff)
  then show thesis using that by (auto simp: length_Suc_conv numeral_2_eq_2)
qed

lemma read_as_operator:
  assumes "piece_ok (Operator w)"
  shows "read_as (piece_text (Operator w)) 1 0 False"
proof (rule read_as_token)
  fix st n rest
  show "filter_step (hd (piece_text (Operator w))) (tl (piece_text (Operator w)) @ rest) (scan_at st n False) =
      (case bump_filter_syntax_token (scan_at st n False) of Inl e \<Rightarrow> Inl e | Inr s1 \<Rightarrow> Inr (s1, 32 # rest))"
  proof (cases "w \<in> set two_byte_operators")
    case True
    then obtain b c where w: "w = [b, c]" "operator_byte b" by (rule two_bytes)
    have "jq_operator_len (b # c # 32 # rest) = 2" using True by (simp add: w(1) jq_operator_len_def)
    then show ?thesis using w(2) by (auto simp: w(1) operator_byte_def filter_step_def Let_def split: sum.split)
  next
    case False
    then obtain b where w: "w = [b]" "operator_byte b" using assms by (cases w) auto
    have "[b, 32] \<notin> set two_byte_operators" by (simp add: two_byte_operators_def)
    then show ?thesis
      using w(2) by (auto simp: w(1) operator_byte_def filter_step_def Let_def jq_operator_len_def split: sum.split)
  qed
qed simp

lemma read_as_group:
  assumes "d \<noteq> Interpolation" "read_as bs t m False"
  shows "read_as (open_byte d # bs @ [close_byte d]) (2 + t) (Suc m) False"
  unfolding read_as_def
proof (intro allI)
  fix st n rest
  have "filter_loop ((open_byte d # bs @ [close_byte d]) @ rest) (scan_at st n False) = Inr () \<longleftrightarrow>
      Suc (length st) \<le> max_jq_filter_nesting \<and> Suc n \<le> max_jq_filter_syntax_tokens
      \<and> filter_loop (bs @ close_byte d # rest) (scan_at (d # st) (Suc n) False) = Inr ()"
    using assms(1) by (cases d) (auto simp: open_byte_def filter_step_def Let_def open_delimiter_def push_filter_delimiter_def
        bump_filter_syntax_token_def is_ascii_whitespace_def split: if_splits)
  also have "filter_loop (bs @ close_byte d # rest) (scan_at (d # st) (Suc n) False) = Inr () \<longleftrightarrow>
      (t = 0 \<or> Suc n + t \<le> max_jq_filter_syntax_tokens) \<and> (m = 0 \<or> Suc (length st) + m \<le> max_jq_filter_nesting)
      \<and> filter_loop (close_byte d # rest) (scan_at (d # st) (Suc n + t) False) = Inr ()"
    using assms(2) by (simp add: read_as_def)
  also have "filter_loop (close_byte d # rest) (scan_at (d # st) (Suc n + t) False) = Inr () \<longleftrightarrow>
      Suc (Suc n + t) \<le> max_jq_filter_syntax_tokens \<and> filter_loop rest (scan_at st (Suc (Suc n + t)) False) = Inr ()"
    using assms(1) by (cases d) (auto simp: close_byte_def filter_step_def Let_def close_delimiter_def pop_filter_delimiter_def
        bump_filter_syntax_token_def is_ascii_whitespace_def split: if_splits)
  finally show "(filter_loop ((open_byte d # bs @ [close_byte d]) @ rest) (scan_at st n False) = Inr ()) =
      ((2 + t = 0 \<or> n + (2 + t) \<le> max_jq_filter_syntax_tokens) \<and> (Suc m = 0 \<or> length st + Suc m \<le> max_jq_filter_nesting)
       \<and> filter_loop rest (scan_at st (n + (2 + t)) False) = Inr ())"
    by (auto simp: add.commute add.left_commute)
qed

lemma read_as_literal: "b \<noteq> 34 \<Longrightarrow> b \<noteq> 92 \<Longrightarrow> read_as [b] 0 0 True"
  by (simp add: read_as_def filter_step_def Let_def)

lemma read_as_escape: "b \<noteq> 40 \<Longrightarrow> read_as [92, b] 0 0 True"
  by (simp add: read_as_def filter_step_def Let_def)

lemma read_as_interpolated:
  assumes "read_as bs t m False"
  shows "read_as ([92, 40] @ bs @ [41]) (2 + t) (Suc m) True"
  unfolding read_as_def
proof (intro allI)
  fix st n rest
  have "filter_loop (([92, 40] @ bs @ [41]) @ rest) (scan_at st n True) = Inr () \<longleftrightarrow>
      Suc (length st) \<le> max_jq_filter_nesting \<and> Suc n \<le> max_jq_filter_syntax_tokens
      \<and> filter_loop (bs @ 41 # rest) (scan_at (Interpolation # st) (Suc n) False) = Inr ()"
    by (auto simp: filter_step_def Let_def open_delimiter_def push_filter_delimiter_def bump_filter_syntax_token_def split: if_splits)
  also have "filter_loop (bs @ 41 # rest) (scan_at (Interpolation # st) (Suc n) False) = Inr () \<longleftrightarrow>
      (t = 0 \<or> Suc n + t \<le> max_jq_filter_syntax_tokens) \<and> (m = 0 \<or> Suc (length st) + m \<le> max_jq_filter_nesting)
      \<and> filter_loop (41 # rest) (scan_at (Interpolation # st) (Suc n + t) False) = Inr ()"
    using assms by (simp add: read_as_def)
  also have "filter_loop (41 # rest) (scan_at (Interpolation # st) (Suc n + t) False) = Inr () \<longleftrightarrow>
      Suc (Suc n + t) \<le> max_jq_filter_syntax_tokens \<and> filter_loop rest (scan_at st (Suc (Suc n + t)) True) = Inr ()"
    by (auto simp: filter_step_def Let_def close_delimiter_def pop_filter_delimiter_def
        bump_filter_syntax_token_def is_ascii_whitespace_def split: if_splits)
  finally show "(filter_loop (([92, 40] @ bs @ [41]) @ rest) (scan_at st n True) = Inr ()) =
      ((2 + t = 0 \<or> n + (2 + t) \<le> max_jq_filter_syntax_tokens) \<and> (Suc m = 0 \<or> length st + Suc m \<le> max_jq_filter_nesting)
       \<and> filter_loop rest (scan_at st (n + (2 + t)) True) = Inr ())"
    by (auto simp: add.commute add.left_commute)
qed

lemma read_as_quoted:
  assumes "read_as bs t m True"
  shows "read_as (34 # bs @ [34]) (1 + t) m False"
  unfolding read_as_def
proof (intro allI)
  fix st n rest
  have "filter_loop ((34 # bs @ [34]) @ rest) (scan_at st n False) = Inr () \<longleftrightarrow>
      Suc n \<le> max_jq_filter_syntax_tokens \<and> filter_loop (bs @ 34 # rest) (scan_at st (Suc n) True) = Inr ()"
    by (auto simp: filter_step_def Let_def bump_filter_syntax_token_def is_ascii_whitespace_def split: if_splits)
  also have "filter_loop (bs @ 34 # rest) (scan_at st (Suc n) True) = Inr () \<longleftrightarrow>
      (t = 0 \<or> Suc n + t \<le> max_jq_filter_syntax_tokens) \<and> (m = 0 \<or> length st + m \<le> max_jq_filter_nesting)
      \<and> filter_loop (34 # rest) (scan_at st (Suc n + t) True) = Inr ()"
    using assms by (simp add: read_as_def)
  also have "filter_loop (34 # rest) (scan_at st (Suc n + t) True) = filter_loop rest (scan_at st (Suc n + t) False)"
    by (simp add: filter_step_def Let_def)
  finally show "(filter_loop ((34 # bs @ [34]) @ rest) (scan_at st n False) = Inr ()) =
      ((1 + t = 0 \<or> n + (1 + t) \<le> max_jq_filter_syntax_tokens) \<and> (m = 0 \<or> length st + m \<le> max_jq_filter_nesting)
       \<and> filter_loop rest (scan_at st (n + (1 + t)) False) = Inr ())"
    by (auto simp: add.commute add.left_commute)
qed

lemma read_as_piece:
  "piece_ok p \<Longrightarrow> read_as (piece_text p) (piece_tokens p) (piece_nesting p) False"
  "part_ok r \<Longrightarrow> read_as (part_text r) (part_tokens r) (part_nesting r) True"
proof (induction p and r)
  case (Ident w)
  then show ?case using read_as_ident [of w] by simp
next
  case (Number w)
  then show ?case using read_as_number [of w] by simp
next
  case (Operator w)
  then show ?case using read_as_operator [of w] by simp
next
  case (Group d ps)
  then have "read_as (concat (map piece_text ps)) (sum_list (map piece_tokens ps)) (foldr max (map piece_nesting ps) 0) False"
    by (intro read_as_concat) (auto simp: list_all_iff)
  from read_as_group [OF _ this, of d] Group.prems show ?case by simp
next
  case (Quoted qs)
  then have "read_as (concat (map part_text qs)) (sum_list (map part_tokens qs)) (foldr max (map part_nesting qs) 0) True"
    by (intro read_as_concat) (auto simp: list_all_iff)
  from read_as_quoted [OF this] show ?case by simp
next
  case (Interpolated ps)
  then have "read_as (concat (map piece_text ps)) (sum_list (map piece_tokens ps)) (foldr max (map piece_nesting ps) 0) False"
    by (intro read_as_concat) (auto simp: list_all_iff)
  from read_as_interpolated [OF this] show ?case by simp
qed (simp_all add: read_as_literal read_as_escape)

lemma validate_pieces:
  assumes "list_all piece_ok ps"
  shows "validate_filter_source (concat (map piece_text ps)) = Inr () \<longleftrightarrow>
    length (concat (map piece_text ps)) \<le> max_jq_filter_source_bytes
    \<and> sum_list (map piece_tokens ps) \<le> max_jq_filter_syntax_tokens
    \<and> foldr max (map piece_nesting ps) 0 \<le> max_jq_filter_nesting"
proof -
  have whole: "validate_filter_source bs = Inr () \<longleftrightarrow> length bs \<le> max_jq_filter_source_bytes \<and> t \<le> max_jq_filter_syntax_tokens
      \<and> m \<le> max_jq_filter_nesting" if "read_as bs t m False" for bs t m
    using that [unfolded read_as_def, THEN spec, of "[]", THEN spec, of 0, THEN spec, of "[]"]
    by (auto simp: validate_filter_source_def filter_scan_initial_def)
  show ?thesis
    by (rule whole, rule read_as_concat, rule read_as_piece(1)) (use assms in \<open>auto simp: list_all_iff\<close>)
qed

end
