(* ===== verification/Jq_Guest.thy ===== *)
theory Jq_Guest
  imports Jq_Host Jq_Filter
begin

text \<open>
  The guest of \<open>jq\<close> (\<open>guests/jq/src/lib.rs\<close> and \<open>evaluator.rs\<close>): it fetches its request and inputs from the
  host, compiles the filter, evaluates it on every input value and writes the results. The jaq library
  (parser, compiler, evaluator, JSON reader and printer) is the record \<open>jaq\<close>; where the guest's
  buffers lie in its linear memory is the record \<open>guest_memory\<close>.
\<close>

datatype jaq_exn = ExnError rstr | ExnHalt int | ExnOther rstr

record jq_pp =
  pp_indent :: "rstr option"
  pp_sort_keys :: bool
  pp_sep_space :: bool

datatype ('v, 't, 'p, 'i) jaq = Jaq
  (jaq_parse_term: "rstr \<Rightarrow> 't option")
  (jaq_defines: "'t \<Rightarrow> bool")
  (jaq_build: "rstr \<Rightarrow> rstr list \<Rightarrow> rstr + 'p")
  (jaq_start: "'p \<Rightarrow> 'v \<Rightarrow> 'v list \<Rightarrow> 'i")
  (jaq_next: "'i \<Rightarrow> ((jaq_exn + 'v) \<times> 'i) option")
  (jaq_single: "byte list \<Rightarrow> rstr + 'v")
  (jaq_many: "byte list \<Rightarrow> (rstr + 'v) list")
  (jaq_string: "rstr \<Rightarrow> 'v")
  (jaq_array: "'v list \<Rightarrow> 'v")
  (jaq_null: 'v)
  (jaq_false: 'v)
  (jaq_bytes: "'v \<Rightarrow> byte list option")
  (jaq_pieces: "jq_pp \<Rightarrow> 'v \<Rightarrow> byte list list")

subsection \<open>Compiling\<close>

fun jq_error_text :: "jq_error \<Rightarrow> rstr" where
  "jq_error_text (Compile message) = rs ''compile error: '' @ message"
| "jq_error_text (Runtime message) = rs ''runtime error: '' @ message"
| "jq_error_text (Halt code) = rs ''halted with exit code '' @ show_int code"

fun jq_exception_to_error :: "jaq_exn \<Rightarrow> jq_error" where
  "jq_exception_to_error (ExnError message) = Runtime message"
| "jq_exception_to_error (ExnHalt code) = Halt code"
| "jq_exception_to_error (ExnOther message) = Runtime message"

definition validate_filter_policy :: "('v, 't, 'p, 'i) jaq \<Rightarrow> rstr \<Rightarrow> jq_error + unit" where
  "validate_filter_policy J flt =
     (case validate_filter_source (utf8 flt) of
        Inl e \<Rightarrow> Inl e
      | Inr _ \<Rightarrow>
          (case jaq_parse_term J flt of
             None \<Rightarrow> Inr ()
           | Some t \<Rightarrow>
               if jaq_defines J t then Inl (Compile (rs ''user-defined jq functions are not supported in tinysandbox''))
               else Inr ()))"

definition compile_with_vars :: "('v, 't, 'p, 'i) jaq \<Rightarrow> rstr \<Rightarrow> rstr list \<Rightarrow> jq_error + 'p" where
  "compile_with_vars J flt global_vars =
     (case validate_filter_policy J flt of
        Inl e \<Rightarrow> Inl e
      | Inr _ \<Rightarrow> (case jaq_build J flt global_vars of Inl message \<Rightarrow> Inl (Compile message) | Inr p \<Rightarrow> Inr p))"

subsection \<open>Running\<close>

record jq_run_done =
  jd_exit_code :: int
  jd_stderr :: "byte list"

text \<open>A call of the guest fails with an I/O error, or the host traps and the guest never returns.\<close>

datatype guest_fault = Trapped jq_trap | IoFailed bool rstr

type_synonym 'a guest = "guest_fault + 'a"

datatype 'o byte_writer = ByteWriter
  (bw_write_all: "'o \<Rightarrow> byte list \<Rightarrow> 'o \<times> unit guest")
  (bw_flush: "'o \<Rightarrow> 'o \<times> unit guest")

fun parse_variables :: "('v, 't, 'p, 'i) jaq \<Rightarrow> jq_variable list \<Rightarrow> rstr + 'v list" where
  "parse_variables J [] = Inr []"
| "parse_variables J (var # vars) =
     (case (if jv_json var then
              let message = (\<lambda>err. rs ''jq: invalid JSON for --argjson '' @ dropWhile (\<lambda>c. c = 36) (jv_name var) @ rs '': '' @ err @ [10]) in
              if \<not> validate_jq_json_nesting (utf8 (jv_value var))
              then Inl (message (rs ''JSON nesting exceeds maximum depth '' @ show_nat max_jq_json_nesting))
              else (case jaq_single J (utf8 (jv_value var)) of Inl err \<Rightarrow> Inl (message err) | Inr v \<Rightarrow> Inr v)
            else Inr (jaq_string J (jv_value var))) of
        Inl m \<Rightarrow> Inl m
      | Inr v \<Rightarrow> (case parse_variables J vars of Inl m \<Rightarrow> Inl m | Inr vs \<Rightarrow> Inr (v # vs)))"

definition jq_exit_code :: "bool \<Rightarrow> bool option \<Rightarrow> int" where
  "jq_exit_code exit_status last_output =
     (if exit_status then (case last_output of Some True \<Rightarrow> 0 | Some False \<Rightarrow> 1 | None \<Rightarrow> 4) else 0)"

definition jq_truthy :: "('v, 't, 'p, 'i) jaq \<Rightarrow> 'v \<Rightarrow> bool" where
  "jq_truthy J v \<longleftrightarrow> \<not> (v = jaq_null J \<or> v = jaq_false J)"

definition jq_parse_error_outcome :: "rstr \<Rightarrow> rstr \<Rightarrow> jq_run_done" where
  "jq_parse_error_outcome path err =
     \<lparr>jd_exit_code = 5, jd_stderr = utf8 (rs ''jq: '' @ path @ rs '': parse error: '' @ err @ [10])\<rparr>"

definition jq_error_outcome :: "jq_error \<Rightarrow> jq_run_done" where
  "jq_error_outcome err =
     \<lparr>jd_exit_code = (case err of Compile _ \<Rightarrow> 3 | Runtime _ \<Rightarrow> 5 | Halt code \<Rightarrow> code),
      jd_stderr = utf8 (rs ''jq: '' @ jq_error_text err @ [10])\<rparr>"

fun write_pieces :: "'o byte_writer \<Rightarrow> byte list list \<Rightarrow> 'o \<Rightarrow> 'o \<times> unit guest" where
  "write_pieces W [] out = (out, Inr ())"
| "write_pieces W (b # bs) out =
     (case bw_write_all W out b of (out1, Inl e) \<Rightarrow> (out1, Inl e) | (out1, Inr _) \<Rightarrow> write_pieces W bs out1)"

definition write_jq_json :: "('v, 't, 'p, 'i) jaq \<Rightarrow> 'o byte_writer \<Rightarrow> 'o \<Rightarrow> 'v \<Rightarrow> jq_options \<Rightarrow> 'o \<times> unit guest" where
  "write_jq_json J W out v p =
     write_pieces W (jaq_pieces J \<lparr>pp_indent = (if jo_compact_output p then None else Some (jo_indent p)),
       pp_sort_keys = jo_sort_keys p, pp_sep_space = \<not> jo_compact_output p\<rparr> v) out"

definition write_jq_value :: "('v, 't, 'p, 'i) jaq \<Rightarrow> 'o byte_writer \<Rightarrow> 'o \<Rightarrow> 'v \<Rightarrow> jq_options \<Rightarrow> 'o \<times> unit guest" where
  "write_jq_value J W out v p =
     (case (case (if jo_raw_output p then jaq_bytes J v else None) of
              Some bytes \<Rightarrow> bw_write_all W out bytes | None \<Rightarrow> write_jq_json J W out v p) of
        (out1, Inl e) \<Rightarrow> (out1, Inl e)
      | (out1, Inr _) \<Rightarrow> if jo_join_output p then (out1, Inr ()) else bw_write_all W out1 [10])"

text \<open>An evaluation that ends early ends with the result of the run; a trap ends the guest.\<close>

datatype 'a ended = Ended jq_run_done | Aborted jq_trap | Going 'a

definition output_failed :: "guest_fault \<Rightarrow> 'a ended" where
  "output_failed e =
     (case e of
        Trapped trap \<Rightarrow> Aborted trap
      | IoFailed broken message \<Rightarrow>
          Ended (if broken then \<lparr>jd_exit_code = 1, jd_stderr = []\<rparr>
                 else \<lparr>jd_exit_code = 5, jd_stderr = utf8 (rs ''jq: output error: '' @ message @ [10])\<rparr>))"

partial_function (option) run_jq_outputs ::
  "('v, 't, 'p, 'i) jaq \<Rightarrow> 'o byte_writer \<Rightarrow> jq_options \<Rightarrow> 'i \<Rightarrow> 'o \<Rightarrow> bool option \<Rightarrow> ('o \<times> bool option ended) option" where
  "run_jq_outputs J W p it out last_output =
     (case jaq_next J it of
        None \<Rightarrow> Some (out, Going last_output)
      | Some (Inl exn, it1) \<Rightarrow> Some (out, Ended (jq_error_outcome (jq_exception_to_error exn)))
      | Some (Inr v, it1) \<Rightarrow>
          (case write_jq_value J W out v p of
             (out1, Inl e) \<Rightarrow> Some (out1, output_failed e)
           | (out1, Inr _) \<Rightarrow>
               (case bw_flush W out1 of
                  (out2, Inl e) \<Rightarrow> Some (out2, output_failed e)
                | (out2, Inr _) \<Rightarrow> run_jq_outputs J W p it1 out2 (Some (jq_truthy J v)))))"

definition run_jq_input_value ::
  "('v, 't, 'p, 'i) jaq \<Rightarrow> 'o byte_writer \<Rightarrow> 'p \<Rightarrow> 'v \<Rightarrow> 'v list \<Rightarrow> jq_options \<Rightarrow> 'o \<Rightarrow> bool option
   \<Rightarrow> ('o \<times> bool option ended) option" where
  "run_jq_input_value J W program input vars p out last_output =
     run_jq_outputs J W p (jaq_start J program input vars) out last_output"

fun run_jq_values ::
  "('v, 't, 'p, 'i) jaq \<Rightarrow> 'o byte_writer \<Rightarrow> 'p \<Rightarrow> 'v list \<Rightarrow> jq_options \<Rightarrow> rstr \<Rightarrow> (rstr + 'v) list \<Rightarrow> 'o \<Rightarrow> bool option
   \<Rightarrow> ('o \<times> bool option ended) option" where
  "run_jq_values J W program vars p path [] out last_output = Some (out, Going last_output)"
| "run_jq_values J W program vars p path (Inl err # vs) out last_output = Some (out, Ended (jq_parse_error_outcome path err))"
| "run_jq_values J W program vars p path (Inr v # vs) out last_output =
     (case run_jq_input_value J W program v vars p out last_output of
        None \<Rightarrow> None
      | Some (out1, Going last1) \<Rightarrow> run_jq_values J W program vars p path vs out1 last1
      | Some (out1, r) \<Rightarrow> Some (out1, r))"

fun run_jq_sources ::
  "('v, 't, 'p, 'i) jaq \<Rightarrow> 'o byte_writer \<Rightarrow> 'p \<Rightarrow> 'v list \<Rightarrow> jq_options \<Rightarrow> jq_input_source list \<Rightarrow> 'o \<Rightarrow> bool option
   \<Rightarrow> ('o \<times> bool option ended) option" where
  "run_jq_sources J W program vars p [] out last_output = Some (out, Going last_output)"
| "run_jq_sources J W program vars p (src # srcs) out last_output =
     (case run_jq_values J W program vars p (ji_path src) (jaq_many J (ji_data src)) out last_output of
        None \<Rightarrow> None
      | Some (out1, Going last1) \<Rightarrow> run_jq_sources J W program vars p srcs out1 last1
      | Some (out1, r) \<Rightarrow> Some (out1, r))"

fun slurp_values :: "rstr \<Rightarrow> (rstr + 'v) list \<Rightarrow> jq_run_done + 'v list" where
  "slurp_values path [] = Inr []"
| "slurp_values path (Inl err # vs) = Inl (jq_parse_error_outcome path err)"
| "slurp_values path (Inr v # vs) = (case slurp_values path vs of Inl d \<Rightarrow> Inl d | Inr ws \<Rightarrow> Inr (v # ws))"

fun slurp_sources :: "('v, 't, 'p, 'i) jaq \<Rightarrow> jq_input_source list \<Rightarrow> jq_run_done + 'v list" where
  "slurp_sources J [] = Inr []"
| "slurp_sources J (src # srcs) =
     (case slurp_values (ji_path src) (jaq_many J (ji_data src)) of
        Inl d \<Rightarrow> Inl d
      | Inr vs \<Rightarrow> (case slurp_sources J srcs of Inl d \<Rightarrow> Inl d | Inr ws \<Rightarrow> Inr (vs @ ws)))"

definition run_jq_inputs ::
  "('v, 't, 'p, 'i) jaq \<Rightarrow> 'o byte_writer \<Rightarrow> 'p \<Rightarrow> 'v list \<Rightarrow> jq_options \<Rightarrow> jq_input_source list \<Rightarrow> 'o
   \<Rightarrow> ('o \<times> bool option ended) option" where
  "run_jq_inputs J W program vars p inputs out =
     (if jo_null_input p then run_jq_input_value J W program (jaq_null J) vars p out None
      else if jo_slurp p then
        (case slurp_sources J inputs of
           Inl d \<Rightarrow> Some (out, Ended d)
         | Inr vs \<Rightarrow> run_jq_input_value J W program (jaq_array J vs) vars p out None)
      else run_jq_sources J W program vars p inputs out None)"

definition run_program ::
  "('v, 't, 'p, 'i) jaq \<Rightarrow> 'o byte_writer \<Rightarrow> jq_options \<Rightarrow> jq_input_source list \<Rightarrow> 'o \<Rightarrow> ('o \<times> (jq_trap + jq_run_done)) option" where
  "run_program J W p inputs out =
     (case parse_variables J (jo_vars p) of
        Inl message \<Rightarrow> Some (out, Inr \<lparr>jd_exit_code = 2, jd_stderr = utf8 message\<rparr>)
      | Inr vars \<Rightarrow>
          (case compile_with_vars J (jo_filter p) (map jv_name (jo_vars p)) of
             Inl err \<Rightarrow> Some (out, Inr (jq_error_outcome err))
           | Inr program \<Rightarrow>
               (case run_jq_inputs J W program vars p inputs out of
                  None \<Rightarrow> None
                | Some (out1, Ended d) \<Rightarrow> Some (out1, Inr d)
                | Some (out1, Aborted trap) \<Rightarrow> Some (out1, Inl trap)
                | Some (out1, Going last_output) \<Rightarrow>
                    Some (out1, Inr \<lparr>jd_exit_code = jq_exit_code (jo_exit_status p) last_output, jd_stderr = []\<rparr>))))"

end
