(* ===== verification/Jq_Abi.thy ===== *)
theory Jq_Abi
  imports Jq_Guest
begin

text \<open>
  The boundary between the \<open>jq\<close> guest and its host (\<open>mod abi\<close> of \<open>guests/jq/src/lib.rs\<close>): inputs are copied
  into the guest chunk by chunk, and results are written through a \<open>BufWriter\<close> over the import
  \<open>write_output\<close>.
\<close>

text \<open>
  The layout of the linear memory: the memory with a zeroed buffer of a length and its address, and the
  memory that holds some bytes and their address.
\<close>

record guest_memory =
  gm_alloc :: "nat \<Rightarrow> byte list \<times> nat"
  gm_place :: "byte list \<Rightarrow> byte list \<times> nat"

definition abi_chunk :: nat where
  "abi_chunk = 64 * 1024"

subsection \<open>Input\<close>

function input_loop ::
  "jq_host \<Rightarrow> byte list \<Rightarrow> i32 \<Rightarrow> nat \<Rightarrow> nat \<Rightarrow> nat \<Rightarrow> (jq_host \<times> byte list) \<times> byte list guest" where
  "input_loop h mem index base len offset =
     (if offset < len then
        let want = min (len - offset) abi_chunk in
        (case read_input h mem index (of_nat offset) (of_nat (base + offset)) (of_nat want) of
           (hm, Inl trap) \<Rightarrow> (hm, Inl (Trapped trap))
         | ((h1, mem1), Inr r) \<Rightarrow>
             (case usize_of_i32 r of
                None \<Rightarrow> ((h1, mem1), Inl (IoFailed False (rs ''input unavailable'')))
              | Some n \<Rightarrow>
                  if n = 0 \<or> want < n then ((h1, mem1), Inl (IoFailed False (rs ''short host input'')))
                  else input_loop h1 mem1 index base len (offset + n)))
      else ((h, mem), Inr (take len (drop base mem))))"
  by pat_completeness auto

termination
  by (relation "measure (\<lambda>(h, mem, index, base, len, offset). len - offset)") auto

declare input_loop.simps [simp del]

definition guest_input :: "guest_memory \<Rightarrow> jq_host \<Rightarrow> i32 \<Rightarrow> jq_host \<times> byte list guest" where
  "guest_input gm h index =
     (case input_len h index of
        (h1, Inl trap) \<Rightarrow> (h1, Inl (Trapped trap))
      | (h1, Inr r) \<Rightarrow>
          (case usize_of_i32 r of
             None \<Rightarrow> (h1, Inl (IoFailed False (rs ''invalid input length'')))
           | Some len \<Rightarrow>
               (case gm_alloc gm len of
                  (mem, base) \<Rightarrow> (case input_loop h1 mem index base len 0 of ((h2, _), r) \<Rightarrow> (h2, r)))))"

subsection \<open>Output\<close>

text \<open>\<open>Output::write\<close>, and the loops of the standard library over it.\<close>

definition output_write :: "guest_memory \<Rightarrow> i32 \<Rightarrow> jq_host \<Rightarrow> byte list \<Rightarrow> jq_host \<times> nat guest" where
  "output_write gm kind h bytes =
     (if bytes = [] then (h, Inr 0)
      else
        let want = min (length bytes) abi_chunk in
        (case gm_place gm bytes of
           (mem, ptr) \<Rightarrow>
             (case write_output h mem kind (of_nat ptr) (of_nat want) of
                (h1, Inl trap) \<Rightarrow> (h1, Inl (Trapped trap))
              | (h1, Inr r) \<Rightarrow>
                  (case usize_of_i32 r of
                     None \<Rightarrow> (h1, Inl (IoFailed True (rs ''output closed'')))
                   | Some n \<Rightarrow>
                       if n = 0 \<or> want < n then (h1, Inl (IoFailed False (rs ''invalid host write'')))
                       else (h1, Inr n)))))"

text \<open>
  Both \<open>Write::write_all\<close> and \<open>BufWriter::flush_buf\<close> write until nothing is left; the second keeps what is
  left after an error. The message is the one for a writer that takes no bytes.
\<close>

function write_rest ::
  "guest_memory \<Rightarrow> i32 \<Rightarrow> rstr \<Rightarrow> jq_host \<Rightarrow> byte list \<Rightarrow> (jq_host \<times> byte list) \<times> unit guest" where
  "write_rest gm kind zero h bytes =
     (if bytes = [] then ((h, []), Inr ())
      else
        (case output_write gm kind h bytes of
           (h1, Inl e) \<Rightarrow> ((h1, bytes), Inl e)
         | (h1, Inr n) \<Rightarrow>
             if n = 0 then ((h1, bytes), Inl (IoFailed False zero)) else write_rest gm kind zero h1 (drop n bytes)))"
  by pat_completeness auto

termination
  by (relation "measure (\<lambda>(gm, kind, zero, h, bytes). length bytes)") auto

declare write_rest.simps [simp del]

definition output_write_all :: "guest_memory \<Rightarrow> i32 \<Rightarrow> jq_host \<Rightarrow> byte list \<Rightarrow> jq_host \<times> unit guest" where
  "output_write_all gm kind h bytes =
     (case write_rest gm kind (rs ''failed to write whole buffer'') h bytes of ((h1, _), r) \<Rightarrow> (h1, r))"

definition flush_buf :: "guest_memory \<Rightarrow> jq_host \<times> byte list \<Rightarrow> (jq_host \<times> byte list) \<times> unit guest" where
  "flush_buf gm out = write_rest gm 1 (rs ''failed to write the buffered data'') (fst out) (snd out)"

definition buf_write_all :: "guest_memory \<Rightarrow> jq_host \<times> byte list \<Rightarrow> byte list \<Rightarrow> (jq_host \<times> byte list) \<times> unit guest" where
  "buf_write_all gm out bytes =
     (let spare = abi_chunk - length (snd out) in
      if length bytes < spare then ((fst out, snd out @ bytes), Inr ())
      else
        (case (if spare < length bytes then flush_buf gm out else (out, Inr ())) of
           (out1, Inl e) \<Rightarrow> (out1, Inl e)
         | (out1, Inr _) \<Rightarrow>
             if abi_chunk \<le> length bytes
             then (case output_write_all gm 1 (fst out1) bytes of (h2, r) \<Rightarrow> ((h2, snd out1), r))
             else ((fst out1, snd out1 @ bytes), Inr ())))"

definition buf_writer :: "guest_memory \<Rightarrow> (jq_host \<times> byte list) byte_writer" where
  "buf_writer gm = ByteWriter (buf_write_all gm) (flush_buf gm)"

text \<open>A dropped \<open>BufWriter\<close> flushes what it still holds and ignores errors.\<close>

definition drop_buf :: "guest_memory \<Rightarrow> jq_host \<times> byte list \<Rightarrow> jq_host \<times> (jq_trap + unit)" where
  "drop_buf gm out =
     (case flush_buf gm out of ((h, _), Inl (Trapped trap)) \<Rightarrow> (h, Inl trap) | ((h, _), _) \<Rightarrow> (h, Inr ()))"

subsection \<open>The entry point\<close>

fun guest_inputs ::
  "guest_memory \<Rightarrow> jq_host \<Rightarrow> nat \<Rightarrow> rstr list \<Rightarrow> jq_host \<times> (jq_trap + (rstr + jq_input_source list))" where
  "guest_inputs gm h index [] = (h, Inr (Inr []))"
| "guest_inputs gm h index (path # paths) =
     (case guest_input gm h (of_nat (index + 1)) of
        (h1, Inl (Trapped trap)) \<Rightarrow> (h1, Inl trap)
      | (h1, Inl (IoFailed _ err)) \<Rightarrow> (h1, Inr (Inl (rs ''jq: '' @ path @ rs '': input error: '' @ err @ [10])))
      | (h1, Inr data) \<Rightarrow>
          (case guest_inputs gm h1 (index + 1) paths of
             (h2, Inr (Inr srcs)) \<Rightarrow> (h2, Inr (Inr (\<lparr>ji_path = path, ji_data = data\<rparr> # srcs)))
           | (h2, r) \<Rightarrow> (h2, r)))"

definition fetch_request ::
  "(byte list \<Rightarrow> rstr + jq_request) \<Rightarrow> guest_memory \<Rightarrow> jq_host
   \<Rightarrow> jq_host \<times> (jq_trap + (rstr + jq_options \<times> jq_input_source list))" where
  "fetch_request decode gm h =
     (case guest_input gm h 0 of
        (h1, Inl (Trapped trap)) \<Rightarrow> (h1, Inl trap)
      | (h1, Inl (IoFailed _ err)) \<Rightarrow> (h1, Inr (Inl (rs ''jq: input error: '' @ err @ [10])))
      | (h1, Inr config) \<Rightarrow>
          (case decode config of
             Inl err \<Rightarrow> (h1, Inr (Inl (rs ''jq: configuration error: '' @ err @ [10])))
           | Inr request \<Rightarrow>
               (case guest_inputs gm h1 0 (jr_paths request) of
                  (h2, Inl trap) \<Rightarrow> (h2, Inl trap)
                | (h2, Inr (Inl message)) \<Rightarrow> (h2, Inr (Inl message))
                | (h2, Inr (Inr inputs)) \<Rightarrow> (h2, Inr (Inr (jr_options request, inputs))))))"

definition guest_execute ::
  "('v, 't, 'p, 'i) jaq \<Rightarrow> (byte list \<Rightarrow> rstr + jq_request) \<Rightarrow> guest_memory \<Rightarrow> jq_host
   \<Rightarrow> (jq_host \<times> (jq_trap + jq_run_done)) option" where
  "guest_execute J decode gm h =
     (case fetch_request decode gm h of
        (h1, Inl trap) \<Rightarrow> Some (h1, Inl trap)
      | (h1, Inr (Inl message)) \<Rightarrow> Some (h1, Inr \<lparr>jd_exit_code = 2, jd_stderr = utf8 message\<rparr>)
      | (h1, Inr (Inr (options, inputs))) \<Rightarrow>
          (case run_program J (buf_writer gm) options inputs (h1, []) of
             None \<Rightarrow> None
           | Some (out, Inl trap) \<Rightarrow> Some (fst out, Inl trap)
           | Some (out, Inr done1) \<Rightarrow>
               (case drop_buf gm out of (h2, Inl trap) \<Rightarrow> Some (h2, Inl trap) | (h2, Inr _) \<Rightarrow> Some (h2, Inr done1))))"

definition guest_run ::
  "('v, 't, 'p, 'i) jaq \<Rightarrow> (byte list \<Rightarrow> rstr + jq_request) \<Rightarrow> guest_memory \<Rightarrow> jq_host
   \<Rightarrow> (jq_host \<times> (jq_trap + int)) option" where
  "guest_run J decode gm h =
     (case guest_execute J decode gm h of
        None \<Rightarrow> None
      | Some (h1, Inl trap) \<Rightarrow> Some (h1, Inl trap)
      | Some (h1, Inr result) \<Rightarrow>
          (case output_write_all gm 2 h1 (jd_stderr result) of
             (h2, Inl (Trapped trap)) \<Rightarrow> Some (h2, Inl trap)
           | (h2, _) \<Rightarrow> Some (h2, Inr (jd_exit_code result))))"

end
