(* ===== verification/Jq_Deliver.thy ===== *)
theory Jq_Deliver
  imports Jq_Abi
begin

text \<open>
  What crosses the boundary of the \<open>jq\<close> guest: the request and the inputs arrive unchanged, and the host
  receives exactly the bytes the program writes, followed by its exit code.
\<close>

text \<open>The laws of the layout: a buffer and the bytes of a chunk lie inside the 32-bit memory.\<close>

definition memory_ok :: "guest_memory \<Rightarrow> bool" where
  "memory_ok gm \<longleftrightarrow>
     (\<forall>n mem base. gm_alloc gm n = (mem, base) \<longrightarrow> n < 2 ^ 31 \<longrightarrow> base + n \<le> length mem \<and> length mem \<le> 2 ^ 32)
     \<and> (\<forall>bs mem ptr. gm_place gm bs = (mem, ptr) \<longrightarrow>
          ptr + min (length bs) abi_chunk \<le> length mem \<and> length mem \<le> 2 ^ 32
          \<and> take (min (length bs) abi_chunk) (drop ptr mem) = take abi_chunk bs)"

text \<open>A host that meets neither its deadline nor a full channel.\<close>

definition undisturbed :: "jq_host \<Rightarrow> bool" where
  "undisturbed h \<longleftrightarrow> jh_checks h = [] \<and> jh_turns h = []"

subsection \<open>Inputs arrive\<close>

lemma patch_extends:
  assumes "take k (drop base mem) = take k data" "base + length data \<le> length mem" "k + n \<le> length data"
  shows "take (k + n) (drop base (mem_patch mem (base + k) (take n (drop k data)))) = take (k + n) data"
proof -
  let ?m = "mem_patch mem (base + k) (take n (drop k data))"
  have "drop base ?m = take k (drop base mem) @ take n (drop k data) @ drop (base + k + n) mem"
    using assms(2,3) by (simp add: mem_patch_def drop_take)
  then have "take (k + n) (drop base ?m) = take k data @ take n (drop k data)"
    using assms by simp
  then show ?thesis by (simp add: take_add)
qed

lemma input_loop_spec:
  assumes "undisturbed h" "i < length (jh_inputs h)" "i < 2 ^ 31" "data = jh_inputs h ! i" "length data < 2 ^ 31"
    "base + length data \<le> length mem" "length mem \<le> 2 ^ 32" "k \<le> length data" "take k (drop base mem) = take k data"
  shows "\<exists>mem1. input_loop h mem (of_nat i) base (length data) k = ((h, mem1), Inr data)"
  using assms(6-9)
proof (induction "length data - k" arbitrary: mem k rule: less_induct)
  case less
  show ?case
  proof (cases "k < length data")
    case True
    define n where "n = min (length data - k) abi_chunk"
    have n: "0 < n" "k + n \<le> length data" "n \<le> stream_chunk_bytes" "n < 2 ^ 31"
      using True by (auto simp: n_def abi_chunk_def stream_chunk_bytes_def)
    let ?m = "mem_patch mem (base + k) (take n (drop k data))"
    have rd: "read_input h mem (of_nat i) (of_nat k) (of_nat (base + k)) (of_nat n) = ((h, ?m), Inr (of_nat n))"
      using read_input_chunk [of h i k "base + k" n mem] assms(1-5) less.prems n by (simp add: undisturbed_def)
    have len: "length ?m = length mem" using less.prems(1) n(2) by simp
    have "\<exists>mem1. input_loop h ?m (of_nat i) base (length data) (k + n) = ((h, mem1), Inr data)"
      using less.hyps [of "k + n" ?m] patch_extends [OF less.prems(4,1) n(2)] less.prems(1,2) n(1,2) len by simp
    then show ?thesis
      using True n rd usize_of_nat [OF n(4)]
      by (subst input_loop.simps) (simp add: Let_def n_def [symmetric] del: of_nat_add)
  next
    case False
    then show ?thesis using less.prems by (subst input_loop.simps) simp
  qed
qed

lemma guest_input_spec:
  assumes "memory_ok gm" "undisturbed h" "i < length (jh_inputs h)" "i < 2 ^ 31" "length (jh_inputs h ! i) < 2 ^ 31"
  shows "guest_input gm h (of_nat i) = (h, Inr (jh_inputs h ! i))"
proof -
  let ?d = "jh_inputs h ! i"
  have "input_len h (of_nat i) = (h, Inr (of_nat (length ?d)))"
    using assms usize_of_nat [OF assms(4)]
    by (simp add: input_len_def undisturbed_def checkpoint_passes list_get_def i32_of_usize_def)
  moreover obtain mem base where a: "gm_alloc gm (length ?d) = (mem, base)" by fastforce
  moreover from this have "base + length ?d \<le> length mem" "length mem \<le> 2 ^ 32"
    using assms(1,5) by (auto simp: memory_ok_def)
  then obtain mem1 where "input_loop h mem (of_nat i) base (length ?d) 0 = ((h, mem1), Inr ?d)"
    using input_loop_spec [OF assms(2-4) refl assms(5), of base mem 0] by auto
  ultimately show ?thesis using usize_of_nat [OF assms(5)] by (simp add: guest_input_def)
qed

lemma guest_inputs_spec:
  assumes "memory_ok gm" "undisturbed h" "\<forall>d\<in>set (jh_inputs h). length d < 2 ^ 31" "length (jh_inputs h) < 2 ^ 31"
    "drop (Suc k) (jh_inputs h) = map ji_data srcs"
  shows "guest_inputs gm h k (map ji_path srcs) = (h, Inr (Inr srcs))"
  using assms(5)
proof (induction srcs arbitrary: k)
  case (Cons src srcs)
  have k: "Suc k < length (jh_inputs h)" by (rule ccontr) (use Cons.prems in simp)
  then have d: "jh_inputs h ! Suc k = ji_data src" "drop (Suc (Suc k)) (jh_inputs h) = map ji_data srcs"
    using Cons.prems by (simp_all add: Cons_nth_drop_Suc [symmetric])
  have "length (ji_data src) < 2 ^ 31" using assms(3) k d(1) by (metis nth_mem)
  then have "guest_input gm h (of_nat (k + 1)) = (h, Inr (ji_data src))"
    using guest_input_spec [OF assms(1,2), of "Suc k"] k d(1) assms(4) by simp
  then show ?case using Cons.IH [OF d(2)] by (simp del: of_nat_add of_nat_Suc)
qed simp

subsection \<open>Output is delivered\<close>

definition said :: "(byte list \<Rightarrow> jq_stream_message) \<Rightarrow> jq_host \<Rightarrow> byte list \<Rightarrow> jq_host \<Rightarrow> bool" where
  "said c h bytes h1 \<longleftrightarrow>
     (\<exists>chunks. h1 = h\<lparr>jh_sent := jh_sent h @ map c chunks\<rparr> \<and> concat chunks = bytes
        \<and> list_all (\<lambda>k. length k \<le> abi_chunk) chunks)"

lemma said_none: "said c h [] h"
  by (auto simp: said_def intro!: exI [of _ "[]"])

lemma said_trans: "said c h a h1 \<Longrightarrow> said c h1 b h2 \<Longrightarrow> said c h (a @ b) h2"
  by (fastforce simp: said_def intro: exI [of _ "_ @ _"])

lemma said_undisturbed: "said c h a h1 \<Longrightarrow> undisturbed h \<Longrightarrow> undisturbed h1"
  by (auto simp: said_def undisturbed_def)

lemma output_write_spec:
  assumes "memory_ok gm" "undisturbed h" "bytes \<noteq> []" "kind = 1 \<and> c = Stdout \<or> kind = 2 \<and> c = Stderr"
  shows "output_write gm kind h bytes =
    (h\<lparr>jh_sent := jh_sent h @ [c (take abi_chunk bytes)]\<rparr>, Inr (min (length bytes) abi_chunk))"
proof -
  define n where "n = min (length bytes) abi_chunk"
  obtain mem ptr where p: "gm_place gm bytes = (mem, ptr)" by fastforce
  then have m: "ptr + n \<le> length mem" "length mem \<le> 2 ^ 32" "take n (drop ptr mem) = take abi_chunk bytes"
    using assms(1) by (auto simp: memory_ok_def n_def)
  have n: "0 < n" "n \<le> stream_chunk_bytes" "n < 2 ^ 31"
    using assms(3) by (auto simp: n_def abi_chunk_def stream_chunk_bytes_def)
  have "write_output h mem kind (of_nat ptr) (of_nat n) = (h\<lparr>jh_sent := jh_sent h @ [c (take abi_chunk bytes)]\<rparr>, Inr (of_nat n))"
    using write_output_chunk [of h ptr n mem kind] assms(2,4) m n by (auto simp: undisturbed_def)
  then show ?thesis
    using assms(3) p n usize_of_nat [OF n(3)] by (simp add: output_write_def Let_def n_def [symmetric])
qed

lemma write_rest_spec:
  assumes "memory_ok gm" "undisturbed h" "kind = 1 \<and> c = Stdout \<or> kind = 2 \<and> c = Stderr"
  shows "\<exists>h1. write_rest gm kind zero h bytes = ((h1, []), Inr ()) \<and> said c h bytes h1"
  using assms(2)
proof (induction "length bytes" arbitrary: h bytes rule: less_induct)
  case less
  show ?case
  proof (cases "bytes = []")
    case True
    then show ?thesis using said_none by (subst write_rest.simps) auto
  next
    case False
    define n where "n = min (length bytes) abi_chunk"
    let ?h = "h\<lparr>jh_sent := jh_sent h @ [c (take abi_chunk bytes)]\<rparr>"
    have n: "0 < n" using False by (auto simp: n_def abi_chunk_def)
    have rest: "drop n bytes = drop abi_chunk bytes" by (cases "length bytes \<le> abi_chunk") (simp_all add: n_def)
    have w: "output_write gm kind h bytes = (?h, Inr n)"
      using output_write_spec [OF assms(1) less.prems False assms(3)] by (simp add: n_def)
    have s: "said c h (take abi_chunk bytes) ?h" by (auto simp: said_def intro!: exI [of _ "[take abi_chunk bytes]"])
    obtain h1 where h1: "write_rest gm kind zero ?h (drop n bytes) = ((h1, []), Inr ())" "said c ?h (drop n bytes) h1"
      using less.hyps [of "drop n bytes" ?h] said_undisturbed [OF s less.prems] False n by auto
    have "said c h bytes h1" using said_trans [OF s h1(2)] rest by simp
    then show ?thesis using False w n h1(1) by (subst write_rest.simps) simp
  qed
qed

lemma output_write_all_spec:
  assumes "memory_ok gm" "undisturbed h" "kind = 1 \<and> c = Stdout \<or> kind = 2 \<and> c = Stderr"
  shows "\<exists>h1. output_write_all gm kind h bytes = (h1, Inr ()) \<and> said c h bytes h1"
  using write_rest_spec [OF assms, of "rs ''failed to write whole buffer''" bytes] by (auto simp: output_write_all_def)

subsection \<open>Writers\<close>

text \<open>A writer that keeps what it is given: \<open>holds x a\<close> when \<open>a\<close> has been written to it.\<close>

locale writer_keeps =
  fixes W :: "'o byte_writer" and keeps :: "'o \<Rightarrow> byte list \<Rightarrow> bool"
  assumes writes: "keeps x a \<Longrightarrow> \<exists>x1. bw_write_all W x b = (x1, Inr ()) \<and> keeps x1 (a @ b)"
    and flushes: "keeps x a \<Longrightarrow> \<exists>x1. bw_flush W x = (x1, Inr ()) \<and> keeps x1 a"

text \<open>The reference: a list of bytes.\<close>

definition list_writer :: "byte list byte_writer" where
  "list_writer = ByteWriter (\<lambda>a b. (a @ b, Inr ())) (\<lambda>a. (a, Inr ()))"

lemma list_writer_simps [simp]: "bw_write_all list_writer a b = (a @ b, Inr ())" "bw_flush list_writer a = (a, Inr ())"
  by (simp_all add: list_writer_def)

context writer_keeps
begin

lemma write_pieces_keeps:
  "keeps x a \<Longrightarrow> \<exists>x1. write_pieces W bs x = (x1, Inr ()) \<and> keeps x1 (a @ concat bs)
    \<and> write_pieces list_writer bs a = (a @ concat bs, Inr ())"
proof (induction bs arbitrary: x a)
  case (Cons b bs)
  obtain x1 where "bw_write_all W x b = (x1, Inr ())" "keeps x1 (a @ b)" using writes [OF Cons.prems] by blast
  then show ?case using Cons.IH [of x1 "a @ b"] by auto
qed simp

lemma write_jq_value_keeps:
  assumes "keeps x a"
  shows "\<exists>x1 b. write_jq_value J W x v p = (x1, Inr ()) \<and> keeps x1 (a @ b) \<and> write_jq_value J list_writer a v p = (a @ b, Inr ())"
proof -
  obtain x1 b where b: "(case (if jo_raw_output p then jaq_bytes J v else None) of
        Some bytes \<Rightarrow> bw_write_all W x bytes | None \<Rightarrow> write_jq_json J W x v p) = (x1, Inr ())" "keeps x1 (a @ b)"
      "(case (if jo_raw_output p then jaq_bytes J v else None) of
        Some bytes \<Rightarrow> bw_write_all list_writer a bytes | None \<Rightarrow> write_jq_json J list_writer a v p) = (a @ b, Inr ())"
    using write_pieces_keeps [OF assms] writes [OF assms]
    by (cases "if jo_raw_output p then jaq_bytes J v else None") (fastforce simp: write_jq_json_def)+
  obtain x2 where x2: "bw_write_all W x1 [10] = (x2, Inr ())" "keeps x2 (a @ b @ [10])" using writes [OF b(2), of "[10]"] by auto
  show ?thesis
  proof (cases "jo_join_output p")
    case True
    then show ?thesis using b by (auto simp: write_jq_value_def)
  next
    case False
    then show ?thesis using b x2 by (auto simp: write_jq_value_def)
  qed
qed

lemma run_jq_outputs_keeps:
  assumes "run_jq_outputs J list_writer p it a last_output = Some ar" "keeps x a"
  shows "\<exists>x1. run_jq_outputs J W p it x last_output = Some (x1, snd ar) \<and> keeps x1 (fst ar)"
proof -
  let ?P = "\<lambda>J' V p' it out lst y. J' = J \<longrightarrow> V = list_writer \<longrightarrow> p' = p \<longrightarrow>
    (\<forall>x. keeps x out \<longrightarrow> (\<exists>x1. run_jq_outputs J W p it x lst = Some (x1, snd y) \<and> keeps x1 (fst y)))"
  have "?P J list_writer p it a last_output ar"
  proof (rule run_jq_outputs.raw_induct [where P = ?P, OF _ assms(1)], intro impI allI)
    fix f J' V p' it and out :: "byte list" and lst y and x :: 'o
    assume ih: "\<And>J' V p' it out lst y. f J' V p' it out lst = Some y \<Longrightarrow> ?P J' V p' it out lst y"
      and step: "(case jaq_next J' it of
        None \<Rightarrow> Some (out, Going lst)
      | Some (Inl exn, it1) \<Rightarrow> Some (out, Ended (jq_error_outcome (jq_exception_to_error exn)))
      | Some (Inr v, it1) \<Rightarrow>
          (case write_jq_value J' V out v p' of
             (out1, Inl e) \<Rightarrow> Some (out1, output_failed e)
           | (out1, Inr _) \<Rightarrow>
               (case bw_flush V out1 of
                  (out2, Inl e) \<Rightarrow> Some (out2, output_failed e)
                | (out2, Inr _) \<Rightarrow> f J' V p' it1 out2 (Some (jq_truthy J' v))))) = Some y"
      and eqs: "J' = J" "V = list_writer" "p' = p" and k: "keeps x out"
    consider "jaq_next J it = None" | e it1 where "jaq_next J it = Some (Inl e, it1)" | v it1 where "jaq_next J it = Some (Inr v, it1)"
      by (metis option.exhaust prod.exhaust sum.exhaust)
    then show "\<exists>x1. run_jq_outputs J W p it x lst = Some (x1, snd y) \<and> keeps x1 (fst y)"
    proof cases
      case 1
      then show ?thesis using step k unfolding eqs by (subst run_jq_outputs.simps) auto
    next
      case 2
      then show ?thesis using step k unfolding eqs by (subst run_jq_outputs.simps) auto
    next
      case 3
      obtain x1 b where w: "write_jq_value J W x v p = (x1, Inr ())" "keeps x1 (out @ b)"
          "write_jq_value J list_writer out v p = (out @ b, Inr ())"
        using write_jq_value_keeps [OF k, of J v p] by blast
      obtain x2 where f: "bw_flush W x1 = (x2, Inr ())" "keeps x2 (out @ b)" using flushes [OF w(2)] by blast
      have "f J list_writer p it1 (out @ b) (Some (jq_truthy J v)) = Some y" using step 3 w(3) unfolding eqs by simp
      from ih [OF this] f(2) obtain x3 where "run_jq_outputs J W p it1 x2 (Some (jq_truthy J v)) = Some (x3, snd y)" "keeps x3 (fst y)"
        by blast
      then show ?thesis using 3 w(1) f(1) by (subst run_jq_outputs.simps) simp
    qed
  qed
  then show ?thesis using assms(2) by blast
qed

lemma run_jq_values_keeps:
  "run_jq_values J list_writer program vars p path vs a lst = Some ar \<Longrightarrow> keeps x a
    \<Longrightarrow> \<exists>x1. run_jq_values J W program vars p path vs x lst = Some (x1, snd ar) \<and> keeps x1 (fst ar)"
proof (induction vs arbitrary: a lst x)
  case (Cons v vs)
  show ?case
  proof (cases v)
    case (Inr w)
    then obtain b where b: "run_jq_input_value J list_writer program w vars p a lst = Some b"
      using Cons.prems(1) by (cases "run_jq_input_value J list_writer program w vars p a lst") auto
    obtain x1 where x1: "run_jq_input_value J W program w vars p x lst = Some (x1, snd b)" "keeps x1 (fst b)"
      using run_jq_outputs_keeps [OF b [unfolded run_jq_input_value_def] Cons.prems(2)] by (auto simp: run_jq_input_value_def)
    obtain a1 r where ar: "b = (a1, r)" by fastforce
    show ?thesis
      using Cons.prems(1) Cons.IH [of a1 _ x1] b x1 by (cases r) (auto simp: Inr ar)
  qed (use Cons.prems in auto)
qed auto

lemma run_jq_sources_keeps:
  "run_jq_sources J list_writer program vars p srcs a lst = Some ar \<Longrightarrow> keeps x a
    \<Longrightarrow> \<exists>x1. run_jq_sources J W program vars p srcs x lst = Some (x1, snd ar) \<and> keeps x1 (fst ar)"
proof (induction srcs arbitrary: a lst x)
  case (Cons src srcs)
  then obtain b where b: "run_jq_values J list_writer program vars p (ji_path src) (jaq_many J (ji_data src)) a lst = Some b"
    by (cases "run_jq_values J list_writer program vars p (ji_path src) (jaq_many J (ji_data src)) a lst") auto
  obtain x1 where x1: "run_jq_values J W program vars p (ji_path src) (jaq_many J (ji_data src)) x lst = Some (x1, snd b)" "keeps x1 (fst b)"
    using run_jq_values_keeps [OF b Cons.prems(2)] by blast
  obtain a1 r where ar: "b = (a1, r)" by fastforce
  show ?case
    using Cons.prems(1) Cons.IH [of a1 _ x1] b x1 by (cases r) (auto simp: ar)
qed auto

lemma run_jq_inputs_keeps:
  assumes "run_jq_inputs J list_writer program vars p inputs a = Some ar" "keeps x a"
  shows "\<exists>x1. run_jq_inputs J W program vars p inputs x = Some (x1, snd ar) \<and> keeps x1 (fst ar)"
  using assms
  by (auto simp: run_jq_inputs_def run_jq_input_value_def split: if_splits sum.splits
      intro: run_jq_outputs_keeps run_jq_sources_keeps)

lemma run_program_keeps:
  assumes "run_program J list_writer p inputs a = Some (a1, r)" "keeps x a"
  shows "\<exists>x1. run_program J W p inputs x = Some (x1, r) \<and> keeps x1 a1"
proof (cases "parse_variables J (jo_vars p)")
  case (Inr vars)
  show ?thesis
  proof (cases "compile_with_vars J (jo_filter p) (map jv_name (jo_vars p))")
    case (Inr program)
    obtain a2 b where ar: "run_jq_inputs J list_writer program vars p inputs a = Some (a2, b)"
      using assms(1) \<open>parse_variables J (jo_vars p) = Inr vars\<close> Inr
      by (cases "run_jq_inputs J list_writer program vars p inputs a") (auto simp: run_program_def)
    obtain x1 where "run_jq_inputs J W program vars p inputs x = Some (x1, b)" "keeps x1 a2"
      using run_jq_inputs_keeps [OF ar assms(2)] by auto
    then show ?thesis
      using assms(1) \<open>parse_variables J (jo_vars p) = Inr vars\<close> Inr ar by (cases b) (auto simp: run_program_def)
  qed (use assms Inr in \<open>auto simp: run_program_def\<close>)
qed (use assms in \<open>auto simp: run_program_def\<close>)

end

subsection \<open>The buffered writer of the guest\<close>

definition buffer_keeps :: "jq_host \<Rightarrow> jq_host \<times> byte list \<Rightarrow> byte list \<Rightarrow> bool" where
  "buffer_keeps h0 out a \<longleftrightarrow> (\<exists>b. said Stdout h0 b (fst out) \<and> a = b @ snd out)"

lemma flush_keeps:
  assumes "memory_ok gm" "undisturbed h0" "buffer_keeps h0 out a"
  shows "\<exists>h. flush_buf gm out = ((h, []), Inr ()) \<and> said Stdout h0 a h"
proof -
  obtain b where b: "said Stdout h0 b (fst out)" "a = b @ snd out" using assms(3) by (auto simp: buffer_keeps_def)
  note u = said_undisturbed [OF b(1) assms(2)]
  obtain h where "flush_buf gm out = ((h, []), Inr ())" "said Stdout (fst out) (snd out) h"
    using write_rest_spec [OF assms(1) u, of 1 Stdout] unfolding flush_buf_def by blast
  then show ?thesis using said_trans [OF b(1)] b(2) by blast
qed

lemma buf_write_keeps:
  assumes "memory_ok gm" "undisturbed h0" "buffer_keeps h0 out a"
  shows "\<exists>out1. buf_write_all gm out b = (out1, Inr ()) \<and> buffer_keeps h0 out1 (a @ b)"
proof -
  let ?spare = "abi_chunk - length (snd out)"
  have put: "buffer_keeps h0 (fst out1, snd out1 @ b) (a @ b)" if "buffer_keeps h0 out1 a" for out1
    using that by (auto simp: buffer_keeps_def)
  show ?thesis
  proof (cases "length b < ?spare")
    case True
    then show ?thesis using put [OF assms(3)] by (simp add: buf_write_all_def)
  next
    case False
    obtain out1 where o: "(if ?spare < length b then flush_buf gm out else (out, Inr ())) = (out1, Inr ())" "buffer_keeps h0 out1 a"
        "abi_chunk \<le> length b \<longrightarrow> snd out1 = []"
    proof (cases "?spare < length b")
      case True
      then show thesis using flush_keeps [OF assms] that by (auto simp: buffer_keeps_def)
    next
      case small: False
      then have "length b = ?spare" using False by simp
      then have "abi_chunk \<le> length b \<longrightarrow> length (snd out) = 0" unfolding abi_chunk_def by linarith
      then have "abi_chunk \<le> length b \<longrightarrow> snd out = []" by simp
      then show thesis using that [of out] small assms(3) by simp
    qed
    show ?thesis
    proof (cases "abi_chunk \<le> length b")
      case True
      then have e: "snd out1 = []" and s: "said Stdout h0 a (fst out1)" using o(2,3) by (auto simp: buffer_keeps_def)
      obtain h2 where "output_write_all gm 1 (fst out1) b = (h2, Inr ())" "said Stdout (fst out1) b h2"
        using output_write_all_spec [OF assms(1) said_undisturbed [OF s assms(2)], of 1 Stdout b] by auto
      then show ?thesis
        using False True o(1) e said_trans [OF s] by (auto simp: buf_write_all_def buffer_keeps_def Let_def)
    next
      case small: False
      then show ?thesis using False o(1) put [OF o(2)] by (simp add: buf_write_all_def Let_def)
    qed
  qed
qed

interpretation buffered: writer_keeps "buf_writer gm" "\<lambda>out a. memory_ok gm \<and> undisturbed h0 \<and> buffer_keeps h0 out a" for gm h0
proof
  fix out a b
  assume "memory_ok gm \<and> undisturbed h0 \<and> buffer_keeps h0 out a"
  then show "\<exists>out1. bw_write_all (buf_writer gm) out b = (out1, Inr ()) \<and> memory_ok gm \<and> undisturbed h0 \<and> buffer_keeps h0 out1 (a @ b)"
    using buf_write_keeps [of gm h0 out a b] by (simp add: buf_writer_def)
next
  fix out a
  assume "memory_ok gm \<and> undisturbed h0 \<and> buffer_keeps h0 out a"
  then show "\<exists>out1. bw_flush (buf_writer gm) out = (out1, Inr ()) \<and> memory_ok gm \<and> undisturbed h0 \<and> buffer_keeps h0 out1 a"
    using flush_keeps [of gm h0 out a] by (auto simp: buf_writer_def buffer_keeps_def)
qed

subsection \<open>The whole run\<close>

lemma fetch_request_spec:
  assumes "memory_ok gm" "undisturbed h" "jh_inputs h = config # map ji_data inputs" "decode config = Inr request"
    "jr_paths request = map ji_path inputs" "\<forall>d\<in>set (jh_inputs h). length d < 2 ^ 31" "length (jh_inputs h) < 2 ^ 31"
  shows "fetch_request decode gm h = (h, Inr (Inr (jr_options request, inputs)))"
proof -
  have "guest_input gm h 0 = (h, Inr config)"
    using guest_input_spec [OF assms(1,2), of 0] assms(3,6) by simp
  moreover have "guest_inputs gm h 0 (map ji_path inputs) = (h, Inr (Inr inputs))"
    by (rule guest_inputs_spec [OF assms(1,2,6,7)]) (simp add: assms(3))
  ultimately show ?thesis using assms(4,5) by (simp add: fetch_request_def)
qed

lemma guest_run_spec:
  assumes "memory_ok gm" "undisturbed h" "fetch_request decode gm h = (h, Inr (Inr (options, inputs)))"
    "run_program J list_writer options inputs [] = Some (printed, Inr result)"
  shows "\<exists>h1 h2. guest_run J decode gm h = Some (h2, Inr (jd_exit_code result)) \<and> said Stdout h printed h1
    \<and> said Stderr h1 (jd_stderr result) h2"
proof -
  have "memory_ok gm \<and> undisturbed h \<and> buffer_keeps h (h, []) []"
    using assms(1,2) said_none by (auto simp: buffer_keeps_def)
  from buffered.run_program_keeps [OF assms(4) this]
  obtain out where out: "run_program J (buf_writer gm) options inputs (h, []) = Some (out, Inr result)" "buffer_keeps h out printed"
    by blast
  obtain h1 where h1: "flush_buf gm out = ((h1, []), Inr ())" "said Stdout h printed h1"
    using flush_keeps [OF assms(1,2) out(2)] by blast
  then have ex: "guest_execute J decode gm h = Some (h1, Inr result)"
    using assms(3) out(1) by (simp add: guest_execute_def drop_buf_def)
  obtain h2 where h2: "output_write_all gm 2 h1 (jd_stderr result) = (h2, Inr ())" "said Stderr h1 (jd_stderr result) h2"
    using output_write_all_spec [OF assms(1) said_undisturbed [OF h1(2) assms(2)], of 2 Stderr] by blast
  then show ?thesis using ex h1(2) by (auto simp: guest_run_def)
qed

text \<open>
  What the command relies on for one request: the layout of the memory, serde reading back what it wrote,
  the engine running the guest, and a worker that meets neither its deadline nor a full channel. The
  request and every input fit the 32-bit lengths of the boundary.
\<close>

definition jq_platform ::
  "('v, 't, 'p, 'i) jaq \<Rightarrow> (jq_request \<Rightarrow> byte list list) \<Rightarrow> (byte list \<Rightarrow> rstr + jq_request) \<Rightarrow> guest_memory
   \<Rightarrow> (jq_host \<Rightarrow> jq_host \<times> (jq_trap + int)) \<Rightarrow> limits \<Rightarrow> jq_host \<Rightarrow> jq_options \<Rightarrow> jq_input_source list \<Rightarrow> bool" where
  "jq_platform J encode decode gm guest l h options inputs \<longleftrightarrow>
     (let req = \<lparr>jr_options = options, jr_paths = map ji_path inputs\<rparr>; config = concat (encode req) in
      memory_ok gm \<and> undisturbed h \<and> decode config = Inr req
      \<and> length config \<le> max (host_input_bytes l) (shell_input_bytes l) \<and> length config < 2 ^ 31
      \<and> list_all (\<lambda>src. length (ji_data src) < 2 ^ 31) inputs \<and> Suc (length inputs) < 2 ^ 31
      \<and> (\<forall>h1 r. guest_run J decode gm h1 = Some r \<longrightarrow> guest h1 = r))"

lemma jq_delivers:
  assumes "jq_platform J encode decode gm guest l h options inputs"
    and "run_program J list_writer options inputs [] = Some (printed, Inr result)"
  shows "\<exists>outs errs peak. jh_sent (run_jq encode None guest l options inputs h) =
      jh_sent h @ map Stdout outs @ map Stderr errs @ [Done \<lparr>cr_exit_code = jd_exit_code result, cr_peak = peak\<rparr>]
    \<and> concat outs = printed \<and> concat errs = jd_stderr result \<and> list_all (\<lambda>c. length c \<le> abi_chunk) (outs @ errs)"
proof -
  let ?req = "\<lparr>jr_options = options, jr_paths = map ji_path inputs\<rparr>"
  let ?h = "h\<lparr>jh_inputs := concat (encode ?req) # map ji_data inputs, jh_memory_limit := jq_memory_bytes l,
    jh_peak_memory := 0, jh_memory_exceeded := False\<rparr>"
  have m: "memory_ok gm" and u0: "undisturbed h" and dec: "decode (concat (encode ?req)) = Inr ?req"
    and len: "length (concat (encode ?req)) \<le> max (host_input_bytes l) (shell_input_bytes l)" "length (concat (encode ?req)) < 2 ^ 31"
      "list_all (\<lambda>src. length (ji_data src) < 2 ^ 31) inputs" "Suc (length inputs) < 2 ^ 31"
    and engine: "\<And>h1 r. guest_run J decode gm h1 = Some r \<Longrightarrow> guest h1 = r"
    using assms(1) unfolding jq_platform_def Let_def by blast+
  have u: "undisturbed ?h" using u0 by (simp add: undisturbed_def)
  have "fetch_request decode gm ?h = (?h, Inr (Inr (options, inputs)))"
    using fetch_request_spec [OF m u, of "concat (encode ?req)" inputs decode ?req] dec len(2-4) by (auto simp: list_all_iff)
  from guest_run_spec [OF m u this assms(2)]
  obtain h1 h2 where g: "guest_run J decode gm ?h = Some (h2, Inr (jd_exit_code result))" "said Stdout ?h printed h1"
      "said Stderr h1 (jd_stderr result) h2" by blast
  have u2: "undisturbed h2" using said_undisturbed g(2,3) u by blast
  have c: "checkpoint h = (h, Inr ())" "checkpoint ?h = (?h, Inr ())" using u0 by (simp_all add: undisturbed_def checkpoint_passes)
  have "run_inner encode None guest l options inputs h =
      (h2, Inr (\<lparr>cr_exit_code = jd_exit_code result, cr_peak = Some (jh_peak_memory h2)\<rparr>, None))"
    using len(1) engine [OF g(1)] by (simp add: run_inner_def c config_writes_spec Let_def)
  then have "jh_sent (run_jq encode None guest l options inputs h) =
      jh_sent h2 @ [Done \<lparr>cr_exit_code = jd_exit_code result, cr_peak = Some (jh_peak_memory h2)\<rparr>]"
    using u2 by (simp add: run_jq_def send_delivers undisturbed_def Let_def)
  then show ?thesis using g(2,3) by (fastforce simp: said_def)
qed

end
