(* ===== verification/Jq_Command.thy ===== *)
theory Jq_Command
  imports Builtin_Sources Jq_Deliver
begin

text \<open>
  The command \<open>jq\<close> (\<open>src/sandbox/builtins.rs\<close>): its inputs are read under one budget and checked, a worker runs
  them, and its messages are copied to the streams of the command. The worker is a function from the
  options and inputs to the messages that arrive.
\<close>

datatype jq_input_error = JqVfs rstr errno | JqRead rstr io_fault | JqJsonDepth rstr

definition push_jq_input ::
  "jq_input_source list \<Rightarrow> rstr \<Rightarrow> byte list \<Rightarrow> (jq_input_error, jq_input_source list) outcome" where
  "push_jq_input inputs path bytes =
     (if validate_jq_json_nesting bytes then Ok (inputs @ [\<lparr>ji_path = path, ji_data = bytes\<rparr>]) else Err (JqJsonDepth path))"

fun read_jq_files ::
  "'s vfs_ops \<Rightarrow> fs_facade \<Rightarrow> nat \<Rightarrow> rstr list \<Rightarrow> nat \<Rightarrow> jq_input_source list \<Rightarrow> 's builtin_run
   \<Rightarrow> ('s builtin_run \<times> (jq_input_error, jq_input_source list) outcome) option" where
  "read_jq_files ops f limit [] sofar inputs st = Some (st, Ok inputs)"
| "read_jq_files ops f limit (path # paths) sofar inputs st =
     (case with_input ops f st path (\<lambda>r. Some (read_jq_reader (feed_read ops f) r limit sofar [])) of
        None \<Rightarrow> None
      | Some (st1, Inl Panic) \<Rightarrow> Some (st1, Inl Panic)
      | Some (st1, Inl (Errno e)) \<Rightarrow> Some (st1, Err (JqVfs path e))
      | Some (st1, Inr (sofar1, Inl Panic)) \<Rightarrow> Some (st1, Inl Panic)
      | Some (st1, Inr (sofar1, Inl (Errno err))) \<Rightarrow> Some (st1, Err (JqRead path err))
      | Some (st1, Inr (sofar1, Inr bytes)) \<Rightarrow>
          (case push_jq_input inputs path bytes of
             Inl e \<Rightarrow> Some (st1, Inl e)
           | Inr inputs1 \<Rightarrow> read_jq_files ops f limit paths sofar1 inputs1 st1))"

definition read_jq_inputs ::
  "'s vfs_ops \<Rightarrow> fs_facade \<Rightarrow> nat \<Rightarrow> rstr list \<Rightarrow> 's builtin_run
   \<Rightarrow> ('s builtin_run \<times> (jq_input_error, jq_input_source list) outcome) option" where
  "read_jq_inputs ops f limit paths st = read_jq_files ops f limit (if paths = [] then [rs ''-''] else paths) 0 [] st"

definition write_jq_input_error :: "'s builtin_run \<Rightarrow> jq_input_error \<Rightarrow> 's builtin_run" where
  "write_jq_input_error st err =
     (case err of
        JqVfs path e \<Rightarrow> write_vfs_error st (rs ''jq'') path e
      | JqJsonDepth path \<Rightarrow>
          tell_err st (rs ''jq: '' @ path @ rs '': JSON nesting exceeds maximum depth '' @ show_nat max_jq_json_nesting @ [10])
      | JqRead path (InvalidData m) \<Rightarrow> tell_err st (rs ''jq: '' @ path @ rs '': '' @ m @ [10])
      | JqRead path e \<Rightarrow>
          (case report_stream_error st (rs ''jq'') path e of
             (st1, True) \<Rightarrow> st1 | (st1, False) \<Rightarrow> tell_err st1 (rs ''jq: read error'' @ [10])))"

text \<open>The loop over the messages; \<open>late\<close> is the test of the deadline after the channel has closed.\<close>

fun copy_messages ::
  "(io_fault \<Rightarrow> rstr) \<Rightarrow> fs_facade \<Rightarrow> bool \<Rightarrow> jq_stream_message list \<Rightarrow> 's builtin_run \<Rightarrow> 's builtin_run \<times> (unit, command_result) outcome" where
  "copy_messages io_text f late [] st =
     (st, Ok (result_new (if late \<or> \<not> is_ok (fs_check (bn_world st) (fs_handles f)) then 124 else 1)))"
| "copy_messages io_text f late (Stdout chunk # ms) st =
     (case write_all (bn_stdout st) chunk of
        (out, Inr _) \<Rightarrow> copy_messages io_text f late ms (st\<lparr>bn_stdout := out\<rparr>)
      | (out, Inl Panic) \<Rightarrow> (st\<lparr>bn_stdout := out\<rparr>, Inl Panic)
      | (out, Inl (Errno Disconnected)) \<Rightarrow> (st\<lparr>bn_stdout := out\<rparr>, Ok (result_new 1))
      | (out, Inl (Errno e)) \<Rightarrow>
          (tell_err (st\<lparr>bn_stdout := out\<rparr>) (rs ''jq: output error: '' @ io_text e @ [10]), Ok (result_new 5)))"
| "copy_messages io_text f late (Stderr chunk # ms) st =
     (case write_all (bn_stderr st) chunk of
        (err, Inr _) \<Rightarrow> copy_messages io_text f late ms (st\<lparr>bn_stderr := err\<rparr>)
      | (err, Inl Panic) \<Rightarrow> (st\<lparr>bn_stderr := err\<rparr>, Inl Panic)
      | (err, Inl (Errno _)) \<Rightarrow> (st\<lparr>bn_stderr := err\<rparr>, Ok (result_new 1)))"
| "copy_messages io_text f late (Done result # ms) st = (st, Ok result)"

definition jq_cmd ::
  "'s vfs_ops \<Rightarrow> (io_fault \<Rightarrow> rstr) \<Rightarrow> rstr option \<Rightarrow> (jq_options \<Rightarrow> jq_input_source list \<Rightarrow> jq_stream_message list) \<Rightarrow> bool
   \<Rightarrow> fs_facade \<Rightarrow> limits \<Rightarrow> rstr list \<Rightarrow> 's builtin_run \<Rightarrow> ('s builtin_run \<times> (unit, command_result) outcome) option" where
  "jq_cmd ops io_text spawn_error worker late f l args st =
     (case parse_jq_args args of
        Inl message \<Rightarrow> Some (tell_err st message, Ok (result_new 2))
      | Inr options \<Rightarrow>
          (case (if jo_null_input options then Some (st, Ok []) else read_jq_inputs ops f (jq_input_bytes l) (jo_files options) st) of
             None \<Rightarrow> None
           | Some (st1, Inl Panic) \<Rightarrow> Some (st1, Inl Panic)
           | Some (st1, Inl (Errno err)) \<Rightarrow> Some (write_jq_input_error st1 err, Ok (result_new 2))
           | Some (st1, Inr inputs) \<Rightarrow>
               if \<not> is_ok (fs_check (bn_world st1) (fs_handles f)) then Some (st1, Ok (result_new 124))
               else
                 (case spawn_error of
                    Some err \<Rightarrow> Some (tell_err st1 (rs ''jq: could not start worker: '' @ err @ [10]), Ok (result_new 5))
                  | None \<Rightarrow> Some (copy_messages io_text f late (worker options inputs) st1))))"

subsection \<open>Reading the inputs\<close>

context byte_source
begin

lemma read_jq_reader_spec:
  "holds r data \<Longrightarrow> sofar + length data \<le> limit \<Longrightarrow> limit \<le> u64_max \<Longrightarrow>
    \<exists>r1. read_jq_reader rd r limit sofar inp = (r1, sofar + length data, Ok (inp @ data)) \<and> holds r1 []"
proof (induction "length data" arbitrary: r data sofar inp rule: less_induct)
  case less
  obtain r1 c data1 where c: "rd r (64 * 1024) = (r1, Ok c)" "data = c @ data1" "holds r1 data1" "c = [] \<Longrightarrow> data1 = []"
    using read_cases [OF less.prems(1), of "64 * 1024"] by (metis mult_pos_pos zero_less_numeral)
  show ?case
  proof (cases "c = []")
    case True
    then show ?thesis using c by (subst read_jq_reader.simps) simp
  next
    case False
    then have "length data1 < length data" "sofar + length c + length data1 \<le> limit" using c(2) less.prems(2) by simp_all
    from less.hyps [OF this(1) c(3) this(2) less.prems(3), of "inp @ c"] show ?thesis
      using c(1,2) False less.prems(2,3) by (subst read_jq_reader.simps) (simp add: saturating_add_def uadd_def add.assoc)
  qed
qed

end

text \<open>Reading and closing a file do not cancel the execution.\<close>

lemma fs_cancelled_frames:
  "fs_cancelled (w\<lparr>w_vfs := s\<rparr>) r = fs_cancelled w r" "fs_cancelled (w\<lparr>w_cleanup := js\<rparr>) r = fs_cancelled w r"
  "fs_cancelled (pools_release_file w) r = fs_cancelled w r"
  by (simp_all add: fs_cancelled_def pools_release_file_def split: option.split)

lemma fs_cancelled_control:
  assumes "\<And>k. control_cancelled (g k) = control_cancelled k"
  shows "fs_cancelled (update_control w c g) r = fs_cancelled w r"
proof -
  have "control_cancelled ((w_controls w)[c := g (control_of w c)] ! i) = control_cancelled (control_of w i)" for i
  proof (cases "c < length (w_controls w)")
    case True
    then show ?thesis using assms [of "control_of w c"] by (auto simp: nth_list_update)
  qed (simp add: list_update_beyond)
  then show ?thesis by (simp add: fs_cancelled_def update_control_def split: option.split)
qed

lemma fs_cancelled_release: "fs_cancelled (control_release_file w c) r = fs_cancelled w r"
  by (cases c) (simp_all add: control_release_file_def fs_cancelled_control control_cancelled_def)

lemma fs_cancelled_cleanup: "fs_cancelled (cleanup_handle ops w h c) r = fs_cancelled w r"
  by (simp add: cleanup_handle_def run_cleanup_def fs_cancelled_release fs_cancelled_frames)

lemma fs_cancelled_abandon: "fs_cancelled (registry_abandon ops w r h) r = fs_cancelled w r"
  unfolding registry_abandon_def by (simp add: fs_cancelled_cleanup fs_cancelled_registry)

lemma fs_cancelled_close: "fs_cancelled (fst (close_handle ops w f rd)) (fs_handles f) = fs_cancelled w (fs_handles f)"
  by (simp add: close_handle_def fs_cancelled_abandon split: option.split)

lemma fs_cancelled_read: "fs_cancelled (fst (fs_read_at (mem_ops q) w f h off n)) r = fs_cancelled w r"
  by (auto simp: fs_read_at_def dispatch_def on_vfs_def mem_ops_def fs_cancelled_frames and_then_def split: prod.split sum.split fault.split)

lemma fs_cancelled_file_read:
  "file_read (mem_ops q) f (w, rd) n = ((w1, rd1), x) \<Longrightarrow> fs_cancelled w1 (fs_handles f) = fs_cancelled w (fs_handles f)"
  using fs_cancelled_close [of "mem_ops q" _ f rd] fs_cancelled_read [of q w f _ "sr_offset rd" stream_chunk_bytes "fs_handles f"]
  by (auto simp: file_read_def poll_read_def Let_def split: option.splits prod.splits sum.splits if_splits) (metis fst_conv)+

lemma fs_cancelled_feed:
  "feed_read (mem_ops q) f r n = (r1, x) \<Longrightarrow> fs_cancelled (fst (fst r1)) (fs_handles f) = fs_cancelled (fst (fst r)) (fs_handles f)"
  by (auto simp: feed_read_def split: prod.splits input.splits dest: fs_cancelled_file_read)

text \<open>The inputs of a command that is not cancelled.\<close>

definition live_feed :: "fs_facade \<Rightarrow> mem_state feed \<Rightarrow> byte list \<Rightarrow> bool" where
  "live_feed f r data \<longleftrightarrow> feed_holds f r data \<and> \<not> fs_cancelled (fst (fst r)) (fs_handles f)"

interpretation live_input: byte_source "feed_read (mem_ops q) f" "live_feed f" for q f
proof
  fix r :: "mem_state feed" and n :: nat
  assume "live_feed f r []" "0 < n"
  then show "\<exists>r1. feed_read (mem_ops q) f r n = (r1, Ok []) \<and> live_feed f r1 []"
    using feed.read_done [of f r n q] fs_cancelled_feed [of q f r n] by (auto simp: live_feed_def)
next
  fix r :: "mem_state feed" and data and n :: nat
  assume "live_feed f r data" "data \<noteq> []" "0 < n"
  then show "\<exists>r1 c data1. feed_read (mem_ops q) f r n = (r1, Ok c) \<and> c \<noteq> [] \<and> data = c @ data1 \<and> live_feed f r1 data1"
    using feed.read_next [of f r data n q] fs_cancelled_feed [of q f r n] by (auto simp: live_feed_def)
qed

lemma jq_input_read:
  assumes "input_holds q f st path data" "\<not> fs_cancelled (bn_world st) (fs_handles f)" "sofar + length data \<le> limit" "limit \<le> u64_max"
  shows "\<exists>st1. with_input (mem_ops q) f st path (\<lambda>r. Some (read_jq_reader (feed_read (mem_ops q) f) r limit sofar []))
      = Some (st1, Ok (sofar + length data, Ok data))
    \<and> bn_stdout st1 = bn_stdout st \<and> bn_stderr st1 = bn_stderr st \<and> \<not> fs_cancelled (bn_world st1) (fs_handles f)"
proof (cases "path = rs ''-''")
  case True
  then have "live_feed f ((bn_world st, bn_stdin st), StdinInput) data"
    using assms(1,2) by (simp add: input_holds_def feed_holds_def live_feed_def)
  from live_input.read_jq_reader_spec [OF this assms(3,4), of q "[]"] obtain w cs inp
    where "read_jq_reader (feed_read (mem_ops q) f) ((bn_world st, bn_stdin st), StdinInput) limit sofar []
        = (((w, cs), inp), sofar + length data, Ok data)" "\<not> fs_cancelled w (fs_handles f)"
    by (auto simp: live_feed_def)
  then show ?thesis using True by (simp add: with_input_def)
next
  case False
  then obtain w1 h p where o: "fs_open (mem_ops q) (bn_world st) f path om_read_only = (w1, Ok h)"
      and p: "normalize_path (fs_resolve f path) = Ok p" "contents (w_vfs (bn_world st)) p = Some data"
      and i: "mem_inv q (w_vfs (bn_world st))" "quota_safe q"
    using assms(1) by (cases "fs_open (mem_ops q) (bn_world st) f path om_read_only")
      (auto simp: input_holds_def is_ok_def split: sum.splits)
  let ?r = "((w1, bn_stdin st), FileInput (stream_reader_from_handle h))"
  have "live_feed f ?r data" using opened_feed [OF i o p] fs_open_live [OF o] by (simp add: live_feed_def)
  from live_input.read_jq_reader_spec [OF this assms(3,4), of q "[]"] obtain w2 cs inp
    where "read_jq_reader (feed_read (mem_ops q) f) ?r limit sofar [] = (((w2, cs), inp), sofar + length data, Ok data)"
      "\<not> fs_cancelled w2 (fs_handles f)"
    by (auto simp: live_feed_def)
  then show ?thesis
    using False o by (auto simp: with_input_def drop_input_def fs_cancelled_close split: input.split)
qed

lemma copy_messages_spec:
  assumes "bn_stdout st = open_sink a" "bn_stderr st = open_sink e"
  shows "copy_messages io_text f late (map Stdout outs @ map Stderr errs @ [Done result]) st =
    (st\<lparr>bn_stdout := open_sink (a @ concat outs), bn_stderr := open_sink (e @ concat errs)\<rparr>, Ok result)"
proof -
  have errors: "copy_messages io_text f late (map Stderr errs @ [Done result]) st1 =
      (st1\<lparr>bn_stderr := open_sink (e1 @ concat errs)\<rparr>, Ok result)" if "bn_stderr st1 = open_sink e1" for st1 e1
    using that by (induction errs arbitrary: st1 e1) auto
  show ?thesis
    using assms by (induction outs arbitrary: st a) (auto simp: errors)
qed

end
