(* ===== verification/Builtin_Head.thy ===== *)
theory Builtin_Head
  imports Builtin_Sources
begin

text \<open>
  \<open>head\<close> and \<open>tail\<close> as functions of their input: which lines they print, and when the window of \<open>tail\<close>
  is too large.
\<close>

fun selected_lines :: "bool \<Rightarrow> tail_count \<Rightarrow> byte list list \<Rightarrow> byte list list" where
  "selected_lines head_mode (LastLines n) lns = (if head_mode then take n lns else lastn n lns)"
| "selected_lines head_mode (FromLine k) lns = drop (k - 1) lns"

fun retained_fits :: "bool \<Rightarrow> tail_count \<Rightarrow> nat \<Rightarrow> byte list list \<Rightarrow> bool" where
  "retained_fits head_mode (LastLines n) budget lns \<longleftrightarrow> head_mode \<or> window_fits n budget lns"
| "retained_fits head_mode (FromLine k) budget lns \<longleftrightarrow> True"

lemma tail_of_lines:
  assumes "short_lines data" "budget < u64_max"
  shows "if window_fits n budget (lines_of data)
    then run_lines (tail_body n budget) ([], 0) (lines_of data) = (tail_window n (lines_of data), Ok ())
    else snd (run_lines (tail_body n budget) ([], 0) (lines_of data)) = Err tail_too_large"
proof -
  have "\<forall>l\<in>set (butlast (lines_of data)). terminated l" using lines_terminated by blast
  moreover have "tail_window n [] = ([], 0)" by (simp add: tail_window_def lastn_def)
  ultimately show ?thesis
    using run_tail_lines [of "[]" "lines_of data" budget n] assms
    by (cases "window_fits n budget (lines_of data)") (simp_all add: short_lines_def lastn_def)
qed

context byte_source
begin

lemma head_tail_lines_spec:
  assumes "holds r data" "short_lines data" "ht_window se < u64_max"
  shows "\<exists>r1. head_tail_lines rd wrap r (open_sink a) se = Some (r1,
    if retained_fits (ht_head se) (ht_count se) (ht_window se) (lines_of data)
    then (open_sink (a @ concat (selected_lines (ht_head se) (ht_count se) (lines_of data))), Ok ())
    else (open_sink a, Err tail_too_large))"
proof (cases "ht_count se")
  case (LastLines n)
  show ?thesis
  proof (cases "ht_head se")
    case True
    have "\<forall>l\<in>set (take n (lines_of data)). length l \<le> max_stream_line_bytes"
      using assms(2) set_take_subset [of n "lines_of data"] by (auto simp: short_lines_def)
    then show ?thesis
      using head_loop_spec [OF assms(1), of n "open_sink a"] LastLines True
      by (auto simp: head_tail_lines_def run_lines_writes)
  next
    case False
    obtain rb where w: "while_lines rd (tail_body n (ht_window se)) r line_buffer_default ([], 0) =
        Some (rb, run_lines (tail_body n (ht_window se)) ([], 0) (lines_of data))"
      using while_lines_spec [OF assms(1), of "tail_body n (ht_window se)" "([], 0)"] by blast
    obtain r1 b1 where rb: "rb = (r1, b1)" by fastforce
    obtain x res where run: "run_lines (tail_body n (ht_window se)) ([], 0) (lines_of data) = (x, res)" by fastforce
    show ?thesis
      using tail_of_lines [OF assms(2,3), of n] w LastLines False
      by (auto simp: head_tail_lines_def rb run tail_window_def split: if_splits prod.splits)
  qed
next
  case (FromLine k)
  then show ?thesis
    using while_lines_spec [OF assms(1), of "from_body k" "(1, open_sink a)"] run_from [of "lines_of data" k 1 a] assms(2)
    by (auto simp: head_tail_lines_def short_lines_def)
qed

lemma head_tail_reader_spec:
  assumes "holds r data" "short_lines data" "ht_window se < u64_max"
  shows "\<exists>r1. head_tail_reader rd wrap r (open_sink a) label verbose se 0 = Some (r1,
    let a1 = a @ (if verbose then utf8 (rs ''==> '' @ label @ rs '' <=='' @ [10]) else []) in
    if retained_fits (ht_head se) (ht_count se) (ht_window se) (lines_of data)
    then (open_sink (a1 @ concat (selected_lines (ht_head se) (ht_count se) (lines_of data))), Ok ())
    else (open_sink a1, Err tail_too_large))"
  using head_tail_lines_spec [OF assms] by (cases verbose) (simp_all add: head_tail_reader_def Let_def)

end

end
