(* ===== verification/Builtin_Paths.thy ===== *)
theory Builtin_Paths
  imports Builtin_Commands
begin

text \<open>The builtins that change the filesystem: \<open>mkdir\<close>, \<open>touch\<close>, \<open>cp\<close>, \<open>mv\<close> and \<open>rm\<close>.\<close>

text \<open>What the loops over the operands do with the result for one of them.\<close>

definition note_error :: "'s builtin_run \<Rightarrow> rstr \<Rightarrow> rstr \<Rightarrow> 's world \<times> unit vres \<Rightarrow> int \<Rightarrow> 's builtin_run \<times> (unit, int) outcome" where
  "note_error st cmd path out code =
     (case out of
        (w, Inr _) \<Rightarrow> (st\<lparr>bn_world := w\<rparr>, Ok code)
      | (w, Inl (Errno e)) \<Rightarrow> (write_vfs_error (st\<lparr>bn_world := w\<rparr>) cmd path e, Ok 1)
      | (w, Inl Panic) \<Rightarrow> (st\<lparr>bn_world := w\<rparr>, Inl Panic))"

fun for_operands ::
  "rstr \<Rightarrow> ('s world \<Rightarrow> rstr \<Rightarrow> ('s world \<times> unit vres) option) \<Rightarrow> rstr list \<Rightarrow> 's builtin_run \<Rightarrow> int \<Rightarrow> 's command_end option" where
  "for_operands cmd act [] st code = Some (st, Ok code)"
| "for_operands cmd act (path # paths) st code =
     (case act (bn_world st) path of
        None \<Rightarrow> None
      | Some out \<Rightarrow>
          (case note_error st cmd path out code of
             (st1, Inl e) \<Rightarrow> Some (st1, Inl e)
           | (st1, Inr code1) \<Rightarrow> for_operands cmd act paths st1 code1))"

subsection \<open>mkdir and touch\<close>

fun mkdir_args :: "rstr list \<Rightarrow> bool \<Rightarrow> rstr list \<Rightarrow> (rstr, bool \<times> rstr list) outcome" where
  "mkdir_args [] parents paths = Ok (parents, paths)"
| "mkdir_args (arg # args) parents paths =
     (if arg = rs ''-p'' then mkdir_args args True paths
      else if starts_with arg [45] then Err arg
      else mkdir_args args parents (paths @ [arg]))"

definition mkdir :: "'s vfs_ops \<Rightarrow> fs_facade \<Rightarrow> rstr list \<Rightarrow> 's builtin_run \<Rightarrow> 's command_end option" where
  "mkdir ops f args st =
     (case mkdir_args args False [] of
        Inl Panic \<Rightarrow> Some (st, Inl Panic)
      | Inl (Errno flag) \<Rightarrow> Some (unsupported (rs ''mkdir'') flag st)
      | Inr (parents, paths) \<Rightarrow>
          if paths = [] then Some (tell_err st (rs ''mkdir: missing operand'' @ [10]), Ok 1)
          else for_operands (rs ''mkdir'')
            (\<lambda>w path. Some (if parents then mkdir_p ops w f path else fs_mkdir ops w f path)) paths st 0)"

definition touch :: "'s vfs_ops \<Rightarrow> fs_facade \<Rightarrow> rstr list \<Rightarrow> 's builtin_run \<Rightarrow> 's command_end option" where
  "touch ops f args st =
     (case unsupported_flag args of
        Some flag \<Rightarrow> Some (unsupported (rs ''touch'') flag st)
      | None \<Rightarrow>
          if args = [] then Some (tell_err st (rs ''touch: missing file operand'' @ [10]), Ok 1)
          else for_operands (rs ''touch'') (\<lambda>w path. Some (fs_touch ops w f path)) args st 0)"

subsection \<open>cp and mv\<close>

definition recursive_flag :: "rchar \<Rightarrow> bool \<Rightarrow> bool option" where
  "recursive_flag c fl = (if c = 114 \<or> c = 82 then Some True else None)"

text \<open>Several sources need a directory to go to.\<close>

definition to_target ::
  "'s vfs_ops \<Rightarrow> fs_facade \<Rightarrow> rstr \<Rightarrow> rstr list \<Rightarrow> 's builtin_run
   \<Rightarrow> ('s world \<Rightarrow> rstr \<Rightarrow> rstr \<Rightarrow> ('s world \<times> unit vres) option) \<Rightarrow> 's command_end option" where
  "to_target ops f cmd paths st act =
     (if length paths < 2 then Some (tell_err st (cmd @ rs '': missing file operand'' @ [10]), Ok 1)
      else
        let dest = last paths; sources = butlast paths;
            go = (\<lambda>st1. for_operands cmd (\<lambda>w source.
              case destination_for ops w f source dest of (w1, target) \<Rightarrow> act w1 source target) sources st1 0) in
        if 1 < length sources then
          (case fs_stat ops (bn_world st) f dest of
             (w1, Inl Panic) \<Rightarrow> Some (st\<lparr>bn_world := w1\<rparr>, Inl Panic)
           | (w1, r) \<Rightarrow>
               if is_directory r then go (st\<lparr>bn_world := w1\<rparr>)
               else Some (tell_err (st\<lparr>bn_world := w1\<rparr>)
                 (cmd @ rs '': target '' @ [39] @ dest @ [39] @ rs '': Not a directory'' @ [10]), Ok 1))
        else go st)"

definition cp :: "'s vfs_ops \<Rightarrow> fs_facade \<Rightarrow> rstr list \<Rightarrow> 's builtin_run \<Rightarrow> 's command_end option" where
  "cp ops f args st =
     with_flags (rs ''cp'') 1 recursive_flag False args st (\<lambda>recursive paths.
       to_target ops f (rs ''cp'') paths st (\<lambda>w source target. copy_path ops w f source target recursive))"

definition mv :: "'s vfs_ops \<Rightarrow> fs_facade \<Rightarrow> rstr list \<Rightarrow> 's builtin_run \<Rightarrow> 's command_end option" where
  "mv ops f args st =
     (case unsupported_flag args of
        Some flag \<Rightarrow> Some (unsupported (rs ''mv'') flag st)
      | None \<Rightarrow> to_target ops f (rs ''mv'') args st (\<lambda>w source target. Some (fs_rename ops w f source target)))"

subsection \<open>rm\<close>

definition rm_flag :: "rchar \<Rightarrow> bool \<times> bool \<Rightarrow> (bool \<times> bool) option" where
  "rm_flag c fl =
     (if c = 114 \<or> c = 82 then Some (True, snd fl) else if c = 102 then Some (fst fl, True) else None)"

definition rm :: "'s vfs_ops \<Rightarrow> fs_facade \<Rightarrow> rstr list \<Rightarrow> 's builtin_run \<Rightarrow> 's command_end option" where
  "rm ops f args st =
     with_flags (rs ''rm'') 1 rm_flag (False, False) args st (\<lambda>(recursive, force) paths.
       if paths = [] then
         Some (if force then (st, Ok 0) else (tell_err st (rs ''rm: missing operand'' @ [10]), Ok 1))
       else for_operands (rs ''rm'')
         (\<lambda>w path. map_option (\<lambda>(w1, r). (w1, if force \<and> r = Err ENOENT then Ok () else r)) (remove_path ops w f path recursive))
         paths st 0)"

end
