(* ===== verification/Builtin_Properties.thy ===== *)
theory Builtin_Properties
  imports Builtin_Head Builtin_Paths Mem_Properties "HOL-Library.Code_Target_Numeral"
begin

text \<open>The properties of the builtin commands: copying a file, and the lines \<open>head\<close> and \<open>tail\<close> print.\<close>

declare copy_tree.simps [code] rm_tree.simps [code]

subsection \<open>Copying files\<close>

lemma fs_resolve_idem: "fs_resolve f (fs_resolve f p) = fs_resolve f p"
proof -
  obtain cs where cs: "fs_resolve f p = render_path cs" "list_all plain_name cs" by (rule fs_resolve_render)
  have "fs_resolve f (render_path cs) = normalize_absolute (render_path cs)"
    unfolding fs_resolve_def by (simp add: starts_with_def render_path_def)
  moreover obtain p0 where "fs_resolve f p = normalize_absolute p0" by (auto simp: fs_resolve_def)
  ultimately show ?thesis using cs(1) normalize_absolute_idem [of p0] by simp
qed

lemma fs_stat_mem: "fst (fs_stat (mem_ops q) w f p) = w"
  by (auto simp: fs_stat_def Let_def attempt_def dispatch_path_def dispatch_def on_vfs_def mem_ops_def split: option.split sum.split)

lemma fs_stat_resolve: "fs_stat ops w f (fs_resolve f p) = fs_stat ops w f p"
  by (simp add: fs_stat_def fs_resolve_idem)

text \<open>
  C36. \<open>cp\<close> of a regular file over the in-memory filesystem: when it succeeds, the destination holds
  exactly the bytes the source holds, whatever the number of chunks, and no other file has changed;
  source and destination are different paths.
\<close>

theorem cp_copies_file:
  assumes "mem_inv q (w_vfs w)" and "quota_safe q"
    and "snd (fs_stat (mem_ops q) w f src) = Ok md" and "md_type md = RegularFile"
    and "copy_path (mem_ops q) w f src dst recursive = Some (w', Ok ())"
  shows "\<exists>sp dp d. normalize_path (fs_resolve f src) = Ok sp \<and> normalize_path (fs_resolve f dst) = Ok dp \<and> sp \<noteq> dp
    \<and> contents (w_vfs w) sp = Some d \<and> contents (w_vfs w') dp = Some d
    \<and> (\<forall>p. p \<noteq> dp \<longrightarrow> contents (w_vfs w') p = contents (w_vfs w) p)"
proof -
  have stat: "fs_stat (mem_ops q) w f (fs_resolve f src) = (w, Ok md)"
    using assms(3) fs_stat_mem [of q w f src] by (metis fs_stat_resolve prod.collapse)
  then have ne: "fs_resolve f src \<noteq> fs_resolve f dst"
    and run: "copy_file (mem_ops q) w f (fs_resolve f src) (fs_resolve f dst) = (w', Ok ())"
    using assms(4,5) by (auto simp: copy_path_def Let_def split: if_splits)
  then show ?thesis
    using copy_file_copies [OF assms(1,2) _ run] unfolding fs_resolve_idem by metis
qed

theorem cp_copies_file_witness:
  "\<exists>w'. copy_path (mem_ops demo_quota) (demo_world (live demo_sys)) demo_fs (rs ''/d/f'') (rs ''/d/g'') False = Some (w', Ok ())
    \<and> contents (w_vfs w') [rs ''d'', rs ''g''] = Some [0, 0, 1, 2, 3]
    \<and> contents (w_vfs w') [rs ''d'', rs ''f''] = Some [0, 0, 1, 2, 3]"
proof -
  let ?w = "demo_world (live demo_sys)"
  have "map_option snd (copy_path (mem_ops demo_quota) ?w demo_fs (rs ''/d/f'') (rs ''/d/g'') False) = Some (Ok ())"
    by code_simp
  then obtain w' where run: "copy_path (mem_ops demo_quota) ?w demo_fs (rs ''/d/f'') (rs ''/d/g'') False = Some (w', Ok ())"
    by auto
  have stat: "snd (fs_stat (mem_ops demo_quota) ?w demo_fs (rs ''/d/f'')) = Ok \<lparr>md_type = RegularFile, md_len = 5\<rparr>"
    by code_simp
  have inv: "mem_inv demo_quota (w_vfs ?w)" using demo_inv by (simp add: demo_world_def)
  have paths: "normalize_path (fs_resolve demo_fs (rs ''/d/f'')) = Ok [rs ''d'', rs ''f'']"
      "normalize_path (fs_resolve demo_fs (rs ''/d/g'')) = Ok [rs ''d'', rs ''g'']"
      "contents (w_vfs ?w) [rs ''d'', rs ''f''] = Some [0, 0, 1, 2, 3]"
    by code_simp+
  from cp_copies_file [OF inv demo_quota_safe stat _ run] paths
  have "contents (w_vfs w') [rs ''d'', rs ''g''] = Some [0, 0, 1, 2, 3]"
    "contents (w_vfs w') [rs ''d'', rs ''f''] = Some [0, 0, 1, 2, 3]" by auto
  with run show ?thesis by blast
qed

subsection \<open>Printing the first and the last lines\<close>






subsection \<open>Refused and misread arguments\<close>

text \<open>
  \<open>head\<close>, \<open>tail\<close> and \<open>uniq\<close> refuse the path \<open>-\<close> as an option, although their readers take standard
  input for it.
\<close>

lemma dash_refused:
  "head_tail ops wrap f l head_mode (rs ''-'' # args) st =
     Some (unsupported (if head_mode then rs ''head'' else rs ''tail'') (rs ''-'') st)"
  "uniq ops f (rs ''-'' # args) st = Some (unsupported (rs ''uniq'') (rs ''-'') st)"
  by (simp_all add: head_tail_def uniq_def starts_with_def)

text \<open>
  The second of two backslashes before a delimiter escapes it: the script with the pattern of one
  escaped backslash has no end, and one with a further part is cut in the wrong place.
\<close>

lemma sed_backslash_before_delimiter:
  "split_sed_parts ([97, 92, 92] @ rs ''/b/'') 47 = None"
  "split_sed_parts ([97, 92, 92] @ rs ''/b/g/'') 47 = Some ([97, 92, 47, 98], rs ''g'', [])"
  by (simp_all add: split_sed_parts_def)

end
