(* ===== verification/Jq_Properties.thy ===== *)
theory Jq_Properties
  imports Jq_Command Builtin_Properties "HOL-Library.Code_Target_Numeral"
begin

text \<open>The properties of \<open>jq\<close>: its command line, the check of its filters, and the way of its data.\<close>

declare run_jq_outputs.simps [code]










text \<open>
  C40: the command line of \<open>jq\<close> has a normal form: whatever arguments are accepted, the options they give are
  consistent (\<open>-j\<close> implies \<open>-r\<close>, no indentation implies \<open>-c\<close>, an indentation is a tab or at most eight
  blanks, variables are named), and the canonical command line of the options, with its filter and files
  behind \<open>--\<close>, is parsed back to exactly them.
\<close>

theorem jq_args_normal_form:
  assumes "parse_jq_args args = Inr p"
  shows "jq_options_ok p \<and> parse_jq_args (jq_args_of p) = Inr p"
  using jq_accepted [OF assms] jq_canonical by blast

theorem jq_args_normal_form_witness:
  "\<exists>p. parse_jq_args [rs ''-jn'', rs ''--tab'', rs ''--arg'', rs ''x'', rs ''1'', rs ''.a'', rs ''-f''] = Inr p \<and> jq_options_ok p
    \<and> parse_jq_args [rs ''-r'', rs ''-j'', rs ''-n'', rs ''--tab'', rs ''--arg'', rs ''x'', rs ''1'', rs ''--'', rs ''.a'', rs ''-f''] = Inr p"
proof -
  let ?p = "jq_options_initial\<lparr>jo_filter := rs ''.a'', jo_files := [rs ''-f''], jo_raw_output := True, jo_join_output := True,
    jo_null_input := True, jo_indent := [9], jo_vars := [\<lparr>jv_name = 36 # rs ''x'', jv_value = rs ''1'', jv_json = False\<rparr>]\<rparr>"
  have a: "parse_jq_args [rs ''-jn'', rs ''--tab'', rs ''--arg'', rs ''x'', rs ''1'', rs ''.a'', rs ''-f''] = Inr ?p"
    by (simp add: parse_jq_args_def jq_option_def starts_with_def jq_flag_def parse_jq_arg_pair_def is_jq_var_name_def push_var_def
        jq_options_initial_def is_ascii_alphabetic_def)
  have b: "jq_args_of ?p = [rs ''-r'', rs ''-j'', rs ''-n'', rs ''--tab'', rs ''--arg'', rs ''x'', rs ''1'', rs ''--'', rs ''.a'', rs ''-f'']"
    by (simp add: jq_args_of_def jq_flags_of_def jq_indent_args_def jq_var_args_def jq_options_initial_def)
  from jq_args_normal_form [OF a, unfolded b] a show ?thesis by blast
qed

end
