(* ===== verification/Spec2Isabelle.thy ===== *)
theory Spec2Isabelle
  imports S3_Properties Mount_Spec Shell_Properties Capture Expansion Fs_Properties Exec_Arguments Js_Globals Jq_Properties
begin

text \<open>
  Verification of \<open>tinysandbox\<close>, an in-process shell sandbox written in Rust: a virtual filesystem,
  a shell language, and an engine that runs shell programs on host-supplied commands under
  resource limits. Paths below are relative to \<open>src/\<close> of the crate.

  \<^bold>\<open>How the program is put together.\<close> \<open>Sandbox::exec\<close> (\<open>sandbox/mod.rs\<close>) parses its input
  (\<open>shell/\<close>), expands every command of a pipeline under one budget (\<open>sandbox/expansion.rs\<close>), opens
  its redirects through a facade (\<open>sandbox/fs.rs\<close>) that charges open files to the execution
  (\<open>sandbox/control.rs\<close>) and to shared pools (\<open>sandbox/pools.rs\<close>), and runs the stages as tasks
  that exchange bytes through bounded pipes and write to capped captures. The facade calls the
  \<open>Vfs\<close> trait (\<open>vfs/mod.rs\<close>); the sandbox's filesystem is a mount table (\<open>vfs/mount.rs\<close>) over
  backends such as the in-memory filesystem (\<open>vfs/mem.rs\<close>) or a bucket of an object store
  (\<open>vfs/s3.rs\<close>).

  \<^bold>\<open>Theories.\<close> Data and operations keep the names of the code where possible; a struct is a
  record, an enum a datatype, a fallible call returns a sum whose left side is an error value or
  a panic, and stateful code takes and returns its state.
  \<^item> \<open>Tiny_Prelude\<close>, \<open>Ordered_Map\<close>: characters, strings and bytes, bounded integers, outcomes
    (\<open>obind\<close>, \<open>attempt\<close>, \<open>and_then\<close> are the question mark operator without and with state),
    splitting and joining, and \<open>BTreeMap\<close> as a sorted association list with a map interface
    stated as a locale.
  \<^item> \<open>Vfs_Types\<close>, \<open>Vfs_Trait\<close>: the vocabulary of the trait and its path normalisation; the trait
    as a record of operations, with the contract \<open>vfs_backend\<close> as a locale.
  \<^item> \<open>Mem_Vfs\<close> (operations), \<open>Mem_Tree\<close>, \<open>Mem_Inv\<close>, \<open>Mem_Ops\<close>, \<open>Mem_Handles\<close>, \<open>Mem_Snapshot\<close>,
    \<open>Mem_Spec\<close>, \<open>Mem_Properties\<close>: the in-memory filesystem, its invariant (link and open counts,
    usage, quota), that every operation keeps it, failure atomicity, the behaviour of reads,
    writes, truncation, rename, unlink and open, and the round trip of snapshots.
  \<^item> \<open>Mount_Vfs\<close>, \<open>Mount_Spec\<close>, \<open>Mount_Files\<close>: the mount table over arbitrary backends, routing,
    isolation, handle numbers, statistics, and that the table is itself a backend of the facade.
  \<^item> \<open>S3_Vfs\<close>, \<open>S3_Ops\<close>, \<open>S3_Api\<close> (the code), \<open>S3_Bucket\<close> (the in-memory bucket of its tests),
    \<open>S3_Service\<close>, \<open>S3_Staging\<close>, \<open>S3_Session\<close>, \<open>S3_Listing\<close>, \<open>S3_Publish\<close>, \<open>S3_Outcomes\<close>,
    \<open>S3_Returns\<close>, \<open>S3_Limits\<close>, \<open>S3_Readonly\<close>, \<open>S3_Properties\<close>: the S3 filesystem over any object
    store. What it relies on from the store is the locale \<open>s3_service\<close>, which the bucket
    interprets. A session refines a plain file that is published on close, a stale revision is
    never overwritten, a failed stream publishes nothing, uploads stay within the limits of S3,
    every call returns, and a read-only filesystem makes no mutating request.
  \<^item> \<open>Shell_Syntax\<close>, \<open>Shell_Lex\<close>, \<open>Shell_Parse\<close> (the code), \<open>Shell_Lex_Props\<close>, \<open>Shell_Parse_Props\<close>,
    \<open>Shell_Roundtrip\<close>, \<open>Shell_Quote\<close>, \<open>Shell_Properties\<close>: lexer and parser never panic, positions
    lie in the input, programs are well formed, tokens parse back, quoting is exact.
  \<^item> \<open>Capture\<close>: captured output with truncation in the middle. \<open>Expansion\<close>: budgeted expansion
    equals a reference expansion at an exact cost.
  \<^item> \<open>Sandbox_Limits\<close>, \<open>Sandbox_Fs\<close> (limits, pools, execution control, the facade), \<open>Fs_Paths\<close>,
    \<open>Fs_Admission\<close>, \<open>Fs_Steps\<close>, \<open>Fs_Properties\<close>: facade calls as events that interleave freely
    with cancellations, deadlines and cleanup jobs; the admission counters are exact in every
    reachable state for every backend that satisfies the locale \<open>handle_backend\<close>.
  \<^item> \<open>Exec_Io\<close>, \<open>Exec_Session\<close>, \<open>Exec\<close> (streams, session and redirects, the engine),
    \<open>Exec_World\<close>, \<open>Exec_Programs\<close>, \<open>Exec_Budget\<close>, \<open>Exec_Properties\<close>, \<open>Exec_Arguments\<close>: every
    function of the engine moves the world only along facade events; from this, files are
    returned, commands and output are bounded, and quoted arguments reach commands unchanged.
  \<^item> \<open>Js_Globals\<close>: the registry of host functions for sandboxed JavaScript.
  \<^item> \<open>Builtin_Lines\<close>, \<open>Builtin_Text\<close>, \<open>Builtin_Words\<close>, \<open>Builtin_Files\<close>, \<open>Builtin_Commands\<close>,
    \<open>Builtin_Paths\<close>, \<open>Builtin_Filters\<close>: the commands of \<open>sandbox/builtins.rs\<close> from their arguments
    to their exit code. Input comes from a byte source (a function that reads at most so many
    bytes), whose contract is the locale \<open>byte_source\<close>; the line reader and the loops over lines
    are compared with functions of the whole input inside it (\<open>Builtin_Streams\<close>), once for
    standard input, for open files and for the inputs of a command (\<open>Builtin_Sources\<close>, which
    interprets the locale on each). \<open>Mem_Contents\<close> and \<open>Builtin_Copy\<close> follow the contents of files
    by path through open, write and close, and show what a copy does; \<open>Builtin_Head\<close> and
    \<open>Builtin_Properties\<close> show which lines \<open>head\<close> and \<open>tail\<close> print and what \<open>cp\<close> leaves behind.
  \<^item> \<open>Jq_Args\<close> (\<open>sandbox/jq_protocol.rs\<close>), \<open>Jq_Host\<close> (\<open>sandbox/jq_runtime.rs\<close>), \<open>Jq_Filter\<close>, \<open>Jq_Guest\<close> and
    \<open>Jq_Abi\<close> (the guest, \<open>guests/jq/src\<close>), \<open>Jq_Command\<close> (the command): \<open>jq\<close> from its arguments to its exit
    code. The guest's memory is a list of bytes and the lengths of the boundary are 32-bit words.
    \<open>Jq_Deliver\<close> shows that requests, inputs and results cross it unchanged, with the writer of the
    guest as the locale \<open>writer_keeps\<close>; \<open>Jq_Properties\<close> puts the parts together.

  \<^bold>\<open>Parameters, bounds and fuel.\<close> Registered commands are host code: a command is a start function
  and a poll function, and theorems that need it assume that a poll acts through the streams and
  the facade (\<open>handlers_tame\<close>). The scheduler is a list of choices (which task is polled, which
  writer task runs, when the deadline passes); its end is the timeout, so no choice of its
  length restricts the runs. The sizes of Rust structs charged to the expansion budget are a
  parameter. Loops are structural or have a measure; the handle search of the mount table and
  the listing and upload loops of the S3 filesystem are partial functions, shown to return. The
  operations of the object store are a record of functions on an unknown state. A builtin command
  runs by itself: no other task acts between two of its awaits, its standard input is the list of
  chunks that will arrive, and a sink may refuse bytes at any call. The regular expression library,
  the order of floating point numbers in \<open>sort -n\<close> and the wrap of a ring buffer are arguments.
  The walks over directory trees and loops over inputs are partial functions: a run that does not
  end is the value \<open>None\<close>. For \<open>jq\<close> the jaq library is a record of functions, and serde, the WebAssembly
  engine and the layout of the guest's memory enter the theorems through \<open>jq_platform\<close>; deadlines
  and the output channel are lists of answers.

  \<^bold>\<open>Not modelled.\<close> The JavaScript runtime (\<open>js/\<close>) and the Node binding drive a WebAssembly engine, worker
  threads and foreign runtimes, whose behaviour is not in this repository; of the jq guest the
  functions it adds to jaq and the walk over jaq's syntax trees are left to that library. \<open>vfs/local.rs\<close> is a wrapper of operating-system calls, and
  the AWS client of \<open>vfs/s3.rs\<close> builds requests of its SDK. Of \<open>sandbox/builtins.rs\<close> the
  registration of the commands is left out. Wake-ups, locks and
  thread pools are the runtime's: a pending poll is a value, and a lock is held for one step.
  Durations and wall-clock times are left out, and captured text is kept as bytes before the
  lossy conversion to a string.
\<close>

section \<open>Properties that span components\<close>

text \<open>
  C34. Arguments cannot break out of their quotes: when a line of single-quoted arguments runs, the
  lexer, the parser, the expansion and the engine hand the command exactly these arguments,
  whatever characters they hold. The command here answers with a status computed from the
  arguments it was given, which becomes the status of the execution.
\<close>

theorem quoted_arguments_arrive:
  assumes "bm_get (en_commands en) name = Some (Handler g)"
    and "\<And>ctx s. en_poll en (g ctx) s = (s, HReady (result_new (status (cc_args ctx))))"
    and "arguments_cost (en_layout en) (se_env (sb_session sb)) (name # args)
      \<le> max (shell_input_bytes (en_limits en)) (host_input_bytes (en_limits en))"
    and "byte_len (quoted_line (name # args)) \<le> shell_input_bytes (en_limits en)"
    and "0 < max_commands (en_limits en)"
    and "sched = Poll a # Poll b # Poll c # Poll d # Poll e # rest"
  shows "\<exists>r. snd (exec en sb sched (quoted_line (name # args))) = Ok r
    \<and> er_exit_code r = status args \<and> er_commands r = [(name, status args)]"
  using assms by (rule exec_arguments)

theorem quoted_arguments_arrive_witness:
  "\<exists>r. snd (exec demo_engine demo_sandbox [Poll 0, Poll 0, Poll 0, Poll 0, Poll 0]
      (quoted_line [rs ''count'', rs ''a; b'', rs ''$HOME > c''])) = Ok r \<and> er_exit_code r = 2"
proof -
  have "\<exists>r. snd (exec demo_engine demo_sandbox [Poll 0, Poll 0, Poll 0, Poll 0, Poll 0]
      (quoted_line (rs ''count'' # [rs ''a; b'', rs ''$HOME > c'']))) = Ok r
    \<and> er_exit_code r = int (length [rs ''a; b'', rs ''$HOME > c''])
    \<and> er_commands r = [(rs ''count'', int (length [rs ''a; b'', rs ''$HOME > c'']))]"
  proof (rule quoted_arguments_arrive)
    show "bm_get (en_commands demo_engine) (rs ''count'') = Some (Handler Count)"
      by (simp add: demo_engine_def rs_def)
    show "en_poll demo_engine (Count ctx) s = (s, HReady (result_new (int (length (cc_args ctx)))))" for ctx s
      by (simp add: demo_engine_def)
    show "arguments_cost (en_layout demo_engine) (se_env (sb_session demo_sandbox))
        (rs ''count'' # [rs ''a; b'', rs ''$HOME > c''])
      \<le> max (shell_input_bytes (en_limits demo_engine)) (host_input_bytes (en_limits demo_engine))" by code_simp
    show "byte_len (quoted_line (rs ''count'' # [rs ''a; b'', rs ''$HOME > c'']))
      \<le> shell_input_bytes (en_limits demo_engine)" by code_simp
    show "0 < max_commands (en_limits demo_engine)" by code_simp
  qed simp
  then show ?thesis by auto
qed

end
